(* ===== verification/Prelude.thy ===== *)
theory Prelude
  imports "HOL-Library.Word" "HOL-Library.Char_ord" "HOL-Library.List_Lexorder"
    "HOL-Library.Sublist"
begin

text \<open>
  What every component of the development shares: Go's error values and its
  error-returning functions, the stateful actions the commands of the program run in,
  and the functions of Go's \<open>strings\<close> and \<open>strconv\<close> packages the sources call.

  A Go string is a list of bytes and is modelled as a \<open>char list\<close>. Functions of the
  standard library that treat a string as Unicode text (\<open>ToLower\<close>, \<open>TrimSpace\<close>,
  \<open>Fields\<close>) are modelled on ASCII text; bytes from 0x80 on are left alone.
\<close>

named_theorems go_defs \<open>definitions of the modelled Go library functions\<close>
named_theorems act_simps \<open>how the action combinators compute\<close>

section \<open>Errors and results\<close>

text \<open>
  An error value. \<open>Errorf fmt args\<close> is \<open>fmt.Errorf(fmt, args...)\<close> kept unrendered,
  \<open>Wrapf ctx e\<close> is an \<open>fmt.Errorf\<close> that wraps \<open>e\<close> with \<open>%w\<close>, \<open>ExtErr msg\<close> is an
  error that came from outside the program (a command's output, the file system).
\<close>

datatype gerr = Errorf string "string list" | Wrapf string gerr | ExtErr string

text \<open>The text \<open>err.Error()\<close> of an error, as far as the sources look into it.\<close>

fun err_text :: "gerr \<Rightarrow> string" where
  "err_text (Errorf f as) = f @ concat as"
| "err_text (Wrapf c e) = c @ '': '' @ err_text e"
| "err_text (ExtErr m) = m"

type_synonym 'a result = "gerr + 'a"

definition bindE :: "'a result \<Rightarrow> ('a \<Rightarrow> 'b result) \<Rightarrow> 'b result" where
  "bindE r f = (case r of Inl e \<Rightarrow> Inl e | Inr x \<Rightarrow> f x)"

definition wrapE :: "string \<Rightarrow> 'a result \<Rightarrow> 'a result" where
  "wrapE c r = (case r of Inl e \<Rightarrow> Inl (Wrapf c e) | Inr x \<Rightarrow> Inr x)"

lemma bindE_simps [simp]:
  "bindE (Inl e) f = Inl e"
  "bindE (Inr x) f = f x"
  by (simp_all add: bindE_def)

lemma wrapE_simps [simp]:
  "wrapE c (Inl e) = Inl (Wrapf c e)"
  "wrapE c (Inr x) = Inr x"
  by (simp_all add: wrapE_def)

lemma bindE_Inr: "bindE r f = Inr y \<longleftrightarrow> (\<exists>x. r = Inr x \<and> f x = Inr y)"
  by (cases r) auto

lemma wrapE_Inr [simp]: "wrapE c r = Inr y \<longleftrightarrow> r = Inr y"
  by (cases r) auto

lemma bindE_assoc: "bindE (bindE r f) g = bindE r (\<lambda>x. bindE (f x) g)"
  by (cases r) auto

text \<open>A loop that appends what each element gives and stops at the first error.\<close>

fun mapE :: "('a \<Rightarrow> 'b result) \<Rightarrow> 'a list \<Rightarrow> 'b list result" where
  "mapE f [] = Inr []"
| "mapE f (x # xs) = bindE (f x) (\<lambda>y. bindE (mapE f xs) (\<lambda>ys. Inr (y # ys)))"

lemma mapE_Inr: "mapE f xs = Inr ys \<longleftrightarrow> list_all2 (\<lambda>x y. f x = Inr y) xs ys"
  by (induction xs arbitrary: ys) (auto simp: bindE_Inr list_all2_Cons1)

section \<open>Actions\<close>

text \<open>
  An action runs in a world (the kernel's tables, the containers, the file system): it
  returns a result and the world it leaves, also when the result is an error.
\<close>

type_synonym ('w, 'a) act = "'w \<Rightarrow> 'a result \<times> 'w"

definition retA :: "'a \<Rightarrow> ('w, 'a) act" where
  "retA x w = (Inr x, w)"

definition failA :: "gerr \<Rightarrow> ('w, 'a) act" where
  "failA e w = (Inl e, w)"

definition liftA :: "'a result \<Rightarrow> ('w, 'a) act" where
  "liftA r w = (r, w)"

text \<open>\<open>x, err := m; if err != nil { return err }; f(x)\<close>\<close>

definition bindA :: "('w, 'a) act \<Rightarrow> ('a \<Rightarrow> ('w, 'b) act) \<Rightarrow> ('w, 'b) act" where
  "bindA m f w = (case m w of (Inl e, w') \<Rightarrow> (Inl e, w') | (Inr x, w') \<Rightarrow> f x w')"

text \<open>\<open>if err := m; err != nil { return err }; k\<close>\<close>

definition thenA :: "('w, 'a) act \<Rightarrow> ('w, 'b) act \<Rightarrow> ('w, 'b) act" where
  "thenA m k = bindA m (\<lambda>_. k)"

text \<open>\<open>return fmt.Errorf("ctx: %w", err)\<close> around an action.\<close>

definition wrapA :: "string \<Rightarrow> ('w, 'a) act \<Rightarrow> ('w, 'a) act" where
  "wrapA c m w = (case m w of (r, w') \<Rightarrow> (wrapE c r, w'))"

text \<open>\<open>x, err := m\<close> where both outcomes are looked at: never returns early.\<close>

definition tryA :: "('w, 'a) act \<Rightarrow> ('w, 'a result) act" where
  "tryA m w = (case m w of (r, w') \<Rightarrow> (Inr r, w'))"

text \<open>An error that is only logged: \<open>if err := m; err != nil { log }\<close>.\<close>

definition warnA :: "('w, 'a) act \<Rightarrow> ('w, unit) act" where
  "warnA m w = (case m w of (_, w') \<Rightarrow> (Inr (), w'))"

fun forA :: "('a \<Rightarrow> ('w, unit) act) \<Rightarrow> 'a list \<Rightarrow> ('w, unit) act" where
  "forA f [] = retA ()"
| "forA f (x # xs) = thenA (f x) (forA f xs)"

lemma act_apply [act_simps, simp]:
  "retA x w = (Inr x, w)"
  "failA e w = (Inl e, w)"
  "liftA r w = (r, w)"
  by (simp_all add: retA_def failA_def liftA_def)

lemma bindA_split:
  "bindA m f w = (case fst (m w) of Inl e \<Rightarrow> (Inl e, snd (m w)) | Inr x \<Rightarrow> f x (snd (m w)))"
  by (auto simp: bindA_def split: prod.splits sum.splits)

lemma bindA_Inr: "bindA m f w = (Inr y, w'') \<longleftrightarrow> (\<exists>x w'. m w = (Inr x, w') \<and> f x w' = (Inr y, w''))"
  by (auto simp: bindA_def split: prod.splits sum.splits)

lemma bindA_Inl: "bindA m f w = (Inl e, w'') \<longleftrightarrow>
    m w = (Inl e, w'') \<or> (\<exists>x w'. m w = (Inr x, w') \<and> f x w' = (Inl e, w''))"
  by (auto simp: bindA_def split: prod.splits sum.splits)

lemma thenA_Inr: "thenA m k w = (Inr y, w'') \<longleftrightarrow> (\<exists>x w'. m w = (Inr x, w') \<and> k w' = (Inr y, w''))"
  by (simp add: thenA_def bindA_Inr)

lemma thenA_Inl: "thenA m k w = (Inl e, w'') \<longleftrightarrow>
    m w = (Inl e, w'') \<or> (\<exists>x w'. m w = (Inr x, w') \<and> k w' = (Inl e, w''))"
  by (simp add: thenA_def bindA_Inl)

lemma wrapA_Inr: "wrapA c m w = (Inr y, w') \<longleftrightarrow> m w = (Inr y, w')"
  by (auto simp: wrapA_def split: prod.splits)

lemma wrapA_Inl: "wrapA c m w = (Inl e, w') \<longleftrightarrow> (\<exists>e'. m w = (Inl e', w') \<and> e = Wrapf c e')"
  by (auto simp: wrapA_def wrapE_def split: prod.splits sum.splits)

lemma tryA_Inr: "tryA m w = (Inr r, w') \<longleftrightarrow> m w = (r, w')"
  by (auto simp: tryA_def split: prod.splits)

lemma tryA_Inl [simp]: "tryA m w \<noteq> (Inl e, w')"
  by (auto simp: tryA_def split: prod.splits)

lemma warnA_Inr: "warnA m w = (Inr u, w') \<longleftrightarrow> (\<exists>r. m w = (r, w'))"
  by (auto simp: warnA_def split: prod.splits)

lemma warnA_Inl [simp]: "warnA m w \<noteq> (Inl e, w')"
  by (auto simp: warnA_def split: prod.splits)

lemma snd_wrapA [simp]: "snd (wrapA c m w) = snd (m w)"
  by (auto simp: wrapA_def split: prod.splits)

lemmas act_Inr = bindA_Inr thenA_Inr wrapA_Inr tryA_Inr warnA_Inr
lemmas act_Inl = bindA_Inl thenA_Inl wrapA_Inl

text \<open>
  Invariants of the world: an action keeps \<open>P\<close> when the world it leaves, with a result
  or with an error, satisfies \<open>P\<close> again.
\<close>

definition keeps :: "('w \<Rightarrow> bool) \<Rightarrow> ('w, 'a) act \<Rightarrow> bool" where
  "keeps P m \<longleftrightarrow> (\<forall>w. P w \<longrightarrow> P (snd (m w)))"

lemma keepsI: "(\<And>w r w'. P w \<Longrightarrow> m w = (r, w') \<Longrightarrow> P w') \<Longrightarrow> keeps P m"
  unfolding keeps_def by (metis prod.collapse)

lemma keepsD: "keeps P m \<Longrightarrow> m w = (r, w') \<Longrightarrow> P w \<Longrightarrow> P w'"
  unfolding keeps_def by (metis snd_conv)

named_theorems keeps_intros \<open>how the combinators keep an invariant of the world\<close>

lemma keeps_combinators [keeps_intros]:
  "keeps P (retA x)"
  "keeps P (failA e)"
  "keeps P (liftA r)"
  "keeps P m \<Longrightarrow> (\<And>x. keeps P (f x)) \<Longrightarrow> keeps P (bindA m f)"
  "keeps P m \<Longrightarrow> keeps P k \<Longrightarrow> keeps P (thenA m k)"
  "keeps P m \<Longrightarrow> keeps P (wrapA c m)"
  "keeps P m \<Longrightarrow> keeps P (tryA m)"
  "keeps P m \<Longrightarrow> keeps P (warnA m)"
  by (auto simp: keeps_def bindA_split thenA_def wrapA_def tryA_def warnA_def
      split: sum.splits prod.splits)

lemma keeps_if [keeps_intros]: "(b \<Longrightarrow> keeps P m) \<Longrightarrow> (\<not> b \<Longrightarrow> keeps P k) \<Longrightarrow> keeps P (if b then m else k)"
  by simp

lemma keeps_forA [keeps_intros]: "(\<And>x. x \<in> set xs \<Longrightarrow> keeps P (f x)) \<Longrightarrow> keeps P (forA f xs)"
  by (induction xs) (auto intro: keeps_intros)

lemma keeps_case_sum [keeps_intros]:
  "(\<And>e. r = Inl e \<Longrightarrow> keeps P (f e)) \<Longrightarrow> (\<And>x. r = Inr x \<Longrightarrow> keeps P (g x)) \<Longrightarrow>
   keeps P (case r of Inl e \<Rightarrow> f e | Inr x \<Rightarrow> g x)"
  by (cases r) auto

lemma keeps_case_option [keeps_intros]:
  "(r = None \<Longrightarrow> keeps P f) \<Longrightarrow> (\<And>x. r = Some x \<Longrightarrow> keeps P (g x)) \<Longrightarrow>
   keeps P (case r of None \<Rightarrow> f | Some x \<Rightarrow> g x)"
  by (cases r) auto

end
