(* ===== verification/GoStrings.thy ===== *)
theory GoStrings
  imports Prelude
begin

text \<open>
  The functions of Go's \<open>strings\<close> and \<open>strconv\<close> packages that the sources call, on
  byte strings, with the facts about them that several components use.
\<close>

section \<open>Characters\<close>

definition is_digit :: "char \<Rightarrow> bool" where
  "is_digit c \<longleftrightarrow> 48 \<le> (of_char c :: nat) \<and> (of_char c :: nat) \<le> 57"

definition is_lower :: "char \<Rightarrow> bool" where
  "is_lower c \<longleftrightarrow> 97 \<le> (of_char c :: nat) \<and> (of_char c :: nat) \<le> 122"

definition is_upper :: "char \<Rightarrow> bool" where
  "is_upper c \<longleftrightarrow> 65 \<le> (of_char c :: nat) \<and> (of_char c :: nat) \<le> 90"

definition is_alnum :: "char \<Rightarrow> bool" where
  "is_alnum c \<longleftrightarrow> is_lower c \<or> is_upper c \<or> is_digit c"

definition is_space :: "char \<Rightarrow> bool" where
  "is_space c \<longleftrightarrow> (of_char c :: nat) \<in> {9, 10, 11, 12, 13, 32}"

definition digit_val :: "char \<Rightarrow> nat" where
  "digit_val c = of_char c - 48"

lemmas char_defs = is_digit_def is_lower_def is_upper_def is_alnum_def is_space_def digit_val_def

section \<open>Prefixes, searching and cutting\<close>

text \<open>\<open>strings.HasPrefix(s, p)\<close> and \<open>strings.HasSuffix(s, p)\<close>\<close>

definition has_prefix :: "string \<Rightarrow> string \<Rightarrow> bool" where
  "has_prefix s p \<longleftrightarrow> take (length p) s = p"

definition has_suffix :: "string \<Rightarrow> string \<Rightarrow> bool" where
  "has_suffix s p \<longleftrightarrow> has_prefix (rev s) (rev p)"

lemma has_prefix_iff: "has_prefix s p \<longleftrightarrow> (\<exists>t. s = p @ t)"
  unfolding has_prefix_def by (metis append_eq_conv_conj append_take_drop_id)

lemma has_prefix_append [simp]: "has_prefix (p @ t) p"
  by (simp add: has_prefix_def)

text \<open>\<open>strings.Index(s, sub)\<close>, with \<open>None\<close> for -1\<close>

fun str_index :: "string \<Rightarrow> string \<Rightarrow> nat option" where
  "str_index [] sub = (if sub = [] then Some 0 else None)"
| "str_index (c # cs) sub = (if has_prefix (c # cs) sub then Some 0
     else map_option Suc (str_index cs sub))"

definition str_contains :: "string \<Rightarrow> string \<Rightarrow> bool" where
  "str_contains s sub \<longleftrightarrow> str_index s sub \<noteq> None"

text \<open>\<open>strings.LastIndex(s, [c])\<close> for a single byte\<close>

fun last_index :: "string \<Rightarrow> char \<Rightarrow> nat option" where
  "last_index [] c = None"
| "last_index (x # xs) c = (case last_index xs c of Some i \<Rightarrow> Some (Suc i)
     | None \<Rightarrow> if x = c then Some 0 else None)"

text \<open>\<open>strings.Cut(s, sep)\<close>\<close>

definition str_cut :: "string \<Rightarrow> string \<Rightarrow> string \<times> string \<times> bool" where
  "str_cut s sep = (case str_index s sep of None \<Rightarrow> (s, [], False)
     | Some i \<Rightarrow> (take i s, drop (i + length sep) s, True))"

lemma str_index_bound: "str_index s sub = Some i \<Longrightarrow> i + length sub \<le> length s"
proof (induction s sub arbitrary: i rule: str_index.induct)
  case (2 c cs sub)
  show ?case
  proof (cases "has_prefix (c # cs) sub")
    case True
    then obtain t where "c # cs = sub @ t" by (auto simp: has_prefix_iff)
    then have "length sub \<le> length (c # cs)" by (metis le_add1 length_append)
    with True "2.prems" show ?thesis by simp
  next
    case False
    with "2.prems" "2.IH" show ?thesis by auto
  qed
qed (auto split: if_splits)

lemma str_index_Some_split: "str_index s sub = Some i \<Longrightarrow> s = take i s @ sub @ drop (i + length sub) s"
proof (induction s sub arbitrary: i rule: str_index.induct)
  case (2 c cs sub)
  show ?case
  proof (cases "has_prefix (c # cs) sub")
    case True
    then obtain t where "c # cs = sub @ t" by (auto simp: has_prefix_iff)
    with True "2.prems" show ?thesis by (metis append_eq_conv_conj option.inject plus_nat.add_0
        str_index.simps(2) take0 append_Nil)
  next
    case False
    with "2.prems" obtain j where j: "i = Suc j" "str_index cs sub = Some j" by auto
    with False "2.IH" have "cs = take j cs @ sub @ drop (j + length sub) cs" by blast
    with j show ?thesis by simp
  qed
qed (auto split: if_splits)

lemma str_contains_iff: "str_contains s sub \<longleftrightarrow> (\<exists>a b. s = a @ sub @ b)"
proof
  assume "str_contains s sub"
  then obtain i where "str_index s sub = Some i" by (auto simp: str_contains_def)
  then show "\<exists>a b. s = a @ sub @ b" using str_index_Some_split by blast
next
  assume "\<exists>a b. s = a @ sub @ b"
  then obtain a b where s: "s = a @ sub @ b" by blast
  show "str_contains s sub"
    unfolding s
  proof (induction a)
    case Nil
    have "has_prefix (sub @ b) sub" by simp
    then show ?case by (cases "sub @ b") (auto simp: str_contains_def)
  next
    case (Cons x a)
    then show ?case by (auto simp: str_contains_def)
  qed
qed

lemma str_contains_sublist: "str_contains s sub \<longleftrightarrow> sublist sub s"
  by (simp add: str_contains_iff sublist_def)

lemma str_contains_refl [simp]: "str_contains s s"
  by (simp add: str_contains_sublist)

lemma str_contains_char: "str_contains s [c] \<longleftrightarrow> c \<in> set s"
  by (metis append_Cons append_Nil in_set_conv_decomp str_contains_iff)

lemma last_index_notin: "c \<notin> set s \<Longrightarrow> last_index s c = None"
  by (induction s c rule: last_index.induct) auto

lemma last_index_app: "c \<notin> set b \<Longrightarrow> last_index (a @ c # b) c = Some (length a)"
  by (induction a) (auto simp: last_index_notin)

lemma last_index_append: "last_index (a @ b) c = (case last_index b c of Some i \<Rightarrow> Some (length a + i) | None \<Rightarrow> last_index a c)"
  by (induction a) (auto split: option.splits)

lemma last_index_None: "last_index s c = None \<longleftrightarrow> c \<notin> set s"
  by (induction s) (auto split: option.splits)

lemma last_index_Some: "last_index s c = Some i \<Longrightarrow> i < length s \<and> s ! i = c \<and> c \<notin> set (drop (i + 1) s)"
proof (induction s arbitrary: i)
  case (Cons x s)
  show ?case
  proof (cases "last_index s c")
    case None
    then have "c \<notin> set s" by (induction s) (auto split: option.splits if_splits)
    with None Cons.prems show ?thesis by (auto split: if_splits)
  next
    case (Some j)
    with Cons show ?thesis by auto
  qed
qed simp

lemma str_index_char_None: "str_index s [c] = None \<longleftrightarrow> c \<notin> set s"
  using str_contains_char[of s c] by (cases "str_index s [c]") (simp_all add: str_contains_def)

lemma str_index_char: "c \<notin> set a \<Longrightarrow> str_index (a @ c # b) [c] = Some (length a)"
  by (induction a) (auto simp: has_prefix_def)

lemma str_cut_char: "c \<notin> set a \<Longrightarrow> str_cut (a @ c # b) [c] = (a, b, True)"
  by (simp add: str_cut_def str_index_char)

lemma str_cut_none: "c \<notin> set s \<Longrightarrow> str_cut s [c] = (s, [], False)"
  by (simp add: str_cut_def str_index_char_None[THEN iffD2])

lemma str_cut_charD:
  assumes "str_cut s [c] = (a, b, found)"
  shows "if found then s = a @ c # b \<and> c \<notin> set a else s = a \<and> b = [] \<and> c \<notin> set s"
proof (cases "c \<in> set s")
  case True
  then obtain xs ys where s: "s = xs @ c # ys" "c \<notin> set xs"
    by (meson split_list_first)
  with assms show ?thesis by (auto simp: str_cut_char)
next
  case False
  with assms show ?thesis by (auto simp: str_cut_none)
qed

section \<open>Splitting and joining\<close>

text \<open>\<open>strings.Split(s, sep)\<close> for a separator that is not empty\<close>

function (sequential) str_split :: "string \<Rightarrow> string \<Rightarrow> string list" where
  "str_split s [] = map (\<lambda>c. [c]) s"
| "str_split s (c # cs) = (case str_index s (c # cs) of None \<Rightarrow> [s]
     | Some i \<Rightarrow> take i s # str_split (drop (i + length (c # cs)) s) (c # cs))"
  by pat_completeness auto
termination
proof (relation "measure (length \<circ> fst)")
  fix s c cs i
  assume "str_index s (c # cs) = Some i"
  then have "i + length (c # cs) \<le> length s" by (rule str_index_bound)
  then show "((drop (i + length (c # cs)) s, c # cs), (s, c # cs)) \<in> measure (length \<circ> fst)"
    by simp
qed simp

declare str_split.simps(2) [simp del]

lemma str_split_None: "sep \<noteq> [] \<Longrightarrow> str_index s sep = None \<Longrightarrow> str_split s sep = [s]"
  by (cases sep) (simp_all add: str_split.simps(2))

lemma str_split_Some: "sep \<noteq> [] \<Longrightarrow> str_index s sep = Some i \<Longrightarrow>
    str_split s sep = take i s # str_split (drop (i + length sep) s) sep"
  by (cases sep) (simp_all add: str_split.simps(2))

lemma str_split_char_notin: "c \<notin> set a \<Longrightarrow> str_split a [c] = [a]"
  by (simp add: str_split_None str_index_char_None)

lemma str_split_char_app: "c \<notin> set a \<Longrightarrow> str_split (a @ c # b) [c] = a # str_split b [c]"
  using str_split_Some[of "[c]" "a @ c # b" "length a"] str_index_char[of c a b] by simp

text \<open>\<open>strings.Join(xs, sep)\<close>\<close>

fun str_join :: "string \<Rightarrow> string list \<Rightarrow> string" where
  "str_join sep [] = []"
| "str_join sep [x] = x"
| "str_join sep (x # y # ys) = x @ sep @ str_join sep (y # ys)"

lemma str_join_Cons: "xs \<noteq> [] \<Longrightarrow> str_join sep (x # xs) = x @ sep @ str_join sep xs"
  by (cases xs) auto

text \<open>Joining with a byte no part contains, then splitting at it, gives the parts back.\<close>

lemma split_join_char:
  "xs \<noteq> [] \<Longrightarrow> (\<And>x. x \<in> set xs \<Longrightarrow> c \<notin> set x) \<Longrightarrow> str_split (str_join [c] xs) [c] = xs"
proof (induction xs)
  case (Cons x xs)
  show ?case
  proof (cases xs)
    case Nil
    with Cons.prems show ?thesis by (simp add: str_split_char_notin)
  next
    case (Cons y ys)
    then have "str_split (str_join [c] xs) [c] = xs"
      using Cons.IH Cons.prems by (metis list.distinct(1) list.set_intros(2))
    with Cons Cons.prems show ?thesis
      using str_split_char_app[of c x "str_join [c] xs"] by simp
  qed
qed simp

lemma join_split_char: "str_join [c] (str_split s [c]) = s"
proof (induction s arbitrary: rule: length_induct)
  case (1 s)
  show ?case
  proof (cases "c \<in> set s")
    case True
    then obtain a b where s: "s = a @ c # b" "c \<notin> set a" by (meson split_list_first)
    then have "str_join [c] (str_split b [c]) = b" using 1 by simp
    moreover have "str_split b [c] \<noteq> []"
      by (cases "str_index b [c]") (auto simp: str_split_None str_split_Some)
    ultimately show ?thesis
      using s by (simp add: str_split_char_app str_join_Cons)
  next
    case False
    then show ?thesis by (simp add: str_split_char_notin)
  qed
qed

lemma str_split_char_parts: "x \<in> set (str_split s [c]) \<Longrightarrow> c \<notin> set x"
proof (induction s arbitrary: x rule: length_induct)
  case (1 s)
  show ?case
  proof (cases "c \<in> set s")
    case True
    then obtain a b where s: "s = a @ c # b" "c \<notin> set a" by (meson split_list_first)
    then have "length b < length s" by simp
    then have "x \<in> set (str_split b [c]) \<Longrightarrow> c \<notin> set x" using "1.IH" by blast
    with "1.prems" s show ?thesis by (auto simp: str_split_char_app)
  next
    case False
    with 1 show ?thesis by (auto simp: str_split_char_notin)
  qed
qed

text \<open>\<open>strings.SplitN(s, sep, n)\<close> for \<open>n > 0\<close>\<close>

fun str_splitn :: "nat \<Rightarrow> string \<Rightarrow> string \<Rightarrow> string list" where
  "str_splitn 0 s sep = []"
| "str_splitn (Suc 0) s sep = [s]"
| "str_splitn (Suc (Suc n)) s sep = (case str_index s sep of None \<Rightarrow> [s]
     | Some i \<Rightarrow> take i s # str_splitn (Suc n) (drop (i + length sep) s) sep)"

section \<open>Trimming, case, fields\<close>

definition trim_space :: "string \<Rightarrow> string" where
  "trim_space s = rev (dropWhile is_space (rev (dropWhile is_space s)))"

definition trim_suffix :: "string \<Rightarrow> string \<Rightarrow> string" where
  "trim_suffix s p = (if has_suffix s p then take (length s - length p) s else s)"

definition trim_prefix :: "string \<Rightarrow> string \<Rightarrow> string" where
  "trim_prefix s p = (if has_prefix s p then drop (length p) s else s)"

definition lower_char :: "char \<Rightarrow> char" where
  "lower_char c = (if is_upper c then char_of ((of_char c :: nat) + 32) else c)"

definition upper_char :: "char \<Rightarrow> char" where
  "upper_char c = (if is_lower c then char_of ((of_char c :: nat) - 32) else c)"

definition to_lower :: "string \<Rightarrow> string" where
  "to_lower s = map lower_char s"

definition to_upper :: "string \<Rightarrow> string" where
  "to_upper s = map upper_char s"

text \<open>\<open>strings.ReplaceAll(s, [a], [b])\<close> for single bytes\<close>

definition replace_char :: "char \<Rightarrow> char \<Rightarrow> string \<Rightarrow> string" where
  "replace_char a b s = map (\<lambda>c. if c = a then b else c) s"

text \<open>\<open>strings.Fields(s)\<close>: the maximal runs of bytes that are not white space\<close>

fun fields_acc :: "string \<Rightarrow> string \<Rightarrow> string list" where
  "fields_acc cur [] = (if cur = [] then [] else [rev cur])"
| "fields_acc cur (c # cs) = (if is_space c then
      (if cur = [] then fields_acc [] cs else rev cur # fields_acc [] cs)
      else fields_acc (c # cur) cs)"

definition str_fields :: "string \<Rightarrow> string list" where
  "str_fields s = fields_acc [] s"

lemma trim_space_id: "(\<And>c. c \<in> set s \<Longrightarrow> \<not> is_space c) \<Longrightarrow> trim_space s = s"
  unfolding trim_space_def by (metis dropWhile_eq_self_iff hd_in_set rev_rev_ident set_rev)

lemma set_trim_space: "set (trim_space s) \<subseteq> set s"
  by (auto simp: trim_space_def dest!: set_dropWhileD)

section \<open>Numbers\<close>

text \<open>\<open>strconv.Itoa\<close>, also \<open>%d\<close>, on naturals and on integers\<close>

fun itoa :: "nat \<Rightarrow> string" where
  "itoa n = (if n < 10 then [''0123456789'' ! n] else itoa (n div 10) @ [''0123456789'' ! (n mod 10)])"

declare itoa.simps [simp del]

definition itoa_int :: "int \<Rightarrow> string" where
  "itoa_int i = (if i < 0 then ''-'' @ itoa (nat (- i)) else itoa (nat i))"

text \<open>The value of a string of digits.\<close>

definition digits_val :: "string \<Rightarrow> nat" where
  "digits_val s = foldl (\<lambda>a c. a * 10 + digit_val c) 0 s"

definition all_digits :: "string \<Rightarrow> bool" where
  "all_digits s \<longleftrightarrow> s \<noteq> [] \<and> list_all is_digit s"

text \<open>
  \<open>strconv.Atoi\<close>: an optional sign, then digits, in the range of a 64-bit \<open>int\<close>.
\<close>

definition atoi :: "string \<Rightarrow> int option" where
  "atoi s = (let (neg, ds) = (case s of [] \<Rightarrow> (False, []) | c # cs \<Rightarrow>
         if c = CHR ''-'' then (True, cs) else if c = CHR ''+'' then (False, cs) else (False, s))
     in if all_digits ds then
          (let v = int (digits_val ds) in
             if neg then (if v \<le> 2 ^ 63 then Some (- v) else None)
             else (if v < 2 ^ 63 then Some v else None))
        else None)"

lemma digit_nth: "d < 10 \<Longrightarrow> is_digit (''0123456789'' ! d)"
  "d < 10 \<Longrightarrow> digit_val (''0123456789'' ! d) = d"
proof -
  assume "d < 10"
  then have "d \<in> {0,1,2,3,4,5,6,7,8,9}" by auto
  then show "is_digit (''0123456789'' ! d)" "digit_val (''0123456789'' ! d) = d"
    by (auto simp: is_digit_def digit_val_def)
qed

lemma itoa_digits: "list_all is_digit (itoa n)"
proof (induction n rule: itoa.induct)
  case (1 n)
  then show ?case by (subst itoa.simps) (auto intro: digit_nth)
qed

lemma itoa_nonempty [simp]: "itoa n \<noteq> []"
  by (subst itoa.simps) simp

lemma digits_val_snoc: "digits_val (s @ [c]) = digits_val s * 10 + digit_val c"
  by (simp add: digits_val_def)

lemma digits_val_itoa [simp]: "digits_val (itoa n) = n"
proof (induction n rule: itoa.induct)
  case (1 n)
  show ?case
  proof (cases "n < 10")
    case True
    then show ?thesis by (subst itoa.simps) (simp add: digits_val_def digit_nth)
  next
    case False
    with 1 have "digits_val (itoa (n div 10)) = n div 10" by simp
    with False show ?thesis
      by (subst itoa.simps) (simp add: digits_val_snoc digit_nth)
  qed
qed

lemma all_digits_itoa [simp]: "all_digits (itoa n)"
  by (simp add: all_digits_def itoa_digits)

lemma itoa_inj: "itoa m = itoa n \<longleftrightarrow> m = n"
  by (metis digits_val_itoa)

lemma itoa_set: "c \<in> set (itoa n) \<Longrightarrow> is_digit c"
  using itoa_digits[of n] by (simp add: list_all_iff)

lemma trim_itoa [simp]: "trim_space (itoa n) = itoa n"
  by (rule trim_space_id) (auto simp: char_defs dest!: itoa_set)

lemma itoa_notin: "\<not> is_digit c \<Longrightarrow> c \<notin> set (itoa n)"
  using itoa_set by blast

lemma atoi_digits: "all_digits s \<Longrightarrow> atoi s = (if int (digits_val s) < 2 ^ 63 then Some (int (digits_val s)) else None)"
  by (cases s) (auto simp: atoi_def all_digits_def is_digit_def Let_def)

lemma atoi_itoa [simp]: "int n < 2 ^ 63 \<Longrightarrow> atoi (itoa n) = Some (int n)"
  by (simp add: atoi_digits)

text \<open>A byte that is not a digit, a sign or white space never appears in a number.\<close>

lemma atoi_Some_bytes: "atoi s = Some v \<Longrightarrow> c \<in> set s \<Longrightarrow> is_digit c \<or> c = CHR ''-'' \<or> c = CHR ''+''"
  by (cases s) (auto simp: atoi_def all_digits_def list_all_iff split: if_splits)

section \<open>Lists without duplicates\<close>

text \<open>
  The \<open>seen\<close>-map loop the sources use in many places: keep the first occurrence of each
  element, in order.
\<close>

fun dedup_acc :: "'a set \<Rightarrow> 'a list \<Rightarrow> 'a list" where
  "dedup_acc seen [] = []"
| "dedup_acc seen (x # xs) =
     (if x \<in> seen then dedup_acc seen xs else x # dedup_acc (insert x seen) xs)"

lemma set_dedup_acc: "set (dedup_acc seen xs) = set xs - seen"
  by (induction seen xs rule: dedup_acc.induct) auto

lemma distinct_dedup_acc: "distinct (dedup_acc seen xs)"
  by (induction seen xs rule: dedup_acc.induct) (auto simp: set_dedup_acc)

lemma dedup_acc_id: "distinct xs \<Longrightarrow> set xs \<inter> seen = {} \<Longrightarrow> dedup_acc seen xs = xs"
  by (induction seen xs rule: dedup_acc.induct) auto

end
