(* ===== verification/GoNet.thy ===== *)
theory GoNet
  imports GoStrings
begin

unbundle bit_operations_syntax

text \<open>
  The functions of Go's \<open>net\<close> package the sources call, as the package documents and
  implements them: \<open>ParseIP\<close>, \<open>ParseCIDR\<close>, \<open>IP.To4\<close>, \<open>IP.String\<close> (for IPv4),
  \<open>IPNet.String\<close>, \<open>IPNet.Contains\<close>, \<open>IP.IsPrivate\<close> and \<open>IP.IsLinkLocalUnicast\<close>.

  A parsed \<open>net.IP\<close> has 16 bytes and is modelled as a \<open>128 word\<close>; an IPv4 address is
  the 4-in-6 form of a \<open>32 word\<close>. An \<open>IPNet\<close> keeps the number of bytes of its address:
  4 for a native IPv4 network, 16 for everything written with colons.
\<close>

type_synonym ip4 = "32 word"
type_synonym netip = "128 word"

datatype addr = V4 ip4 | V6 netip

datatype ipnet = Net4 ip4 nat | Net6 netip nat

section \<open>IPv4 text\<close>

definition parse_octet :: "string \<Rightarrow> nat option" where
  "parse_octet s = (if all_digits s \<and> (length s = 1 \<or> hd s \<noteq> CHR ''0'') \<and> digits_val s \<le> 255
     then Some (digits_val s) else None)"

definition ip4_of_bytes :: "nat \<Rightarrow> nat \<Rightarrow> nat \<Rightarrow> nat \<Rightarrow> ip4" where
  "ip4_of_bytes a b c d = of_nat (((a * 256 + b) * 256 + c) * 256 + d)"

definition parse_v4 :: "string \<Rightarrow> ip4 option" where
  "parse_v4 s = (case map parse_octet (str_split s ''.'') of
     [Some a, Some b, Some c, Some d] \<Rightarrow> Some (ip4_of_bytes a b c d) | _ \<Rightarrow> None)"

definition ip4_bytes :: "ip4 \<Rightarrow> nat list" where
  "ip4_bytes a = (let n = unat a in
     [n div 2 ^ 24, n div 2 ^ 16 mod 256, n div 2 ^ 8 mod 256, n mod 256])"

definition ip4_string :: "ip4 \<Rightarrow> string" where
  "ip4_string a = str_join ''.'' (map itoa (ip4_bytes a))"

lemma itoa_hd: "0 < n \<Longrightarrow> hd (itoa n) \<noteq> CHR ''0''"
proof (induction n rule: itoa.induct)
  case (1 n)
  show ?case
  proof (cases "n < 10")
    case True
    with "1.prems" have "n \<in> {1,2,3,4,5,6,7,8,9}" by auto
    with True show ?thesis by (subst itoa.simps) auto
  next
    case False
    with 1 have "hd (itoa (n div 10)) \<noteq> CHR ''0''" by simp
    with False show ?thesis by (subst itoa.simps) simp
  qed
qed

lemma itoa_0: "itoa 0 = ''0''"
  by (subst itoa.simps) simp

lemma parse_octet_itoa:
  assumes "n \<le> 255"
  shows "parse_octet (itoa n) = Some n"
proof (cases "n = 0")
  case True
  have "length (itoa 0) = 1" by (simp add: itoa_0)
  with True show ?thesis by (simp add: parse_octet_def)
next
  case False
  with assms show ?thesis by (simp add: parse_octet_def itoa_hd)
qed

lemma ip4_bytes_bound: "b \<in> set (ip4_bytes a) \<Longrightarrow> b \<le> 255"
proof -
  have "unat a < 2 ^ 32" using unsigned_less[of a, where 'a = nat] by simp
  then have "unat a div 2 ^ 24 \<le> 255" by (simp add: less_mult_imp_div_less less_Suc_eq_le[symmetric])
  then show "b \<in> set (ip4_bytes a) \<Longrightarrow> b \<le> 255"
    by (auto simp: ip4_bytes_def Let_def simp flip: less_Suc_eq_le)
qed

lemma ip4_of_ip4_bytes:
  "ip4_of_bytes (unat a div 2 ^ 24) (unat a div 2 ^ 16 mod 256) (unat a div 2 ^ 8 mod 256) (unat a mod 256) = a"
proof -
  define n where "n = unat a"
  have "n div 2 ^ 16 = n div 256 div 256" "n div 2 ^ 24 = n div 256 div 256 div 256" "n div 2 ^ 8 = n div 256"
    by (simp_all add: div_mult2_eq[symmetric])
  then have "((n div 2 ^ 24 * 256 + n div 2 ^ 16 mod 256) * 256 + n div 2 ^ 8 mod 256) * 256
      + n mod 256 = n"
    by simp
  then show ?thesis by (simp add: ip4_of_bytes_def n_def)
qed

text \<open>Printing an IPv4 address and parsing the text gives the address back.\<close>

lemma parse_v4_string: "parse_v4 (ip4_string a) = Some a"
proof -
  have "str_split (ip4_string a) ''.'' = map itoa (ip4_bytes a)"
    unfolding ip4_string_def
    by (rule split_join_char) (auto simp: ip4_bytes_def Let_def is_digit_def dest!: itoa_set)
  moreover have "map parse_octet (map itoa (ip4_bytes a)) = map Some (ip4_bytes a)"
    using ip4_bytes_bound by (simp add: parse_octet_itoa)
  ultimately show ?thesis
    using ip4_of_ip4_bytes[of a] by (simp add: parse_v4_def ip4_bytes_def Let_def)
qed

lemma parse_octet_bytes: "parse_octet s = Some n \<Longrightarrow> c \<in> set s \<Longrightarrow> is_digit c"
  by (auto simp: parse_octet_def all_digits_def list_all_iff split: if_splits)

text \<open>The text of an IPv4 address has only digits and dots.\<close>

lemma parse_v4_bytes:
  assumes "parse_v4 s = Some a" and "c \<in> set s"
  shows "is_digit c \<or> c = CHR ''.''"
proof (rule ccontr)
  assume n: "\<not> (is_digit c \<or> c = CHR ''.'')"
  have "c \<in> set (str_join ''.'' (str_split s ''.''))"
    using assms(2) by (simp add: join_split_char)
  moreover have "set (str_join sep xs) \<subseteq> set sep \<union> \<Union> (set ` set xs)" for sep xs
    by (induction sep xs rule: str_join.induct) auto
  ultimately obtain x where x: "x \<in> set (str_split s ''.'')" "c \<in> set x"
    using n by fastforce
  from assms(1) have "\<forall>o' \<in> set (map parse_octet (str_split s ''.'')). o' \<noteq> None"
    by (auto simp: parse_v4_def split: list.splits option.splits)
  with x have "parse_octet x \<noteq> None" by auto
  with x n show False using parse_octet_bytes by blast
qed

section \<open>IPv6 text\<close>

definition is_hex :: "char \<Rightarrow> bool" where
  "is_hex c \<longleftrightarrow> is_digit c \<or> (let n = (of_char c :: nat) in 97 \<le> n \<and> n \<le> 102 \<or> 65 \<le> n \<and> n \<le> 70)"

definition hex_val :: "char \<Rightarrow> nat" where
  "hex_val c = (let n = (of_char c :: nat) in
     if is_digit c then n - 48 else if 97 \<le> n then n - 87 else n - 55)"

definition hexs_val :: "string \<Rightarrow> nat" where
  "hexs_val s = foldl (\<lambda>a c. a * 16 + hex_val c) 0 s"

text \<open>
  The loop of \<open>netip.parseIPv6\<close>: \<open>s\<close> is what is left of the text, \<open>gs\<close> the 16-bit
  groups read so far, \<open>e\<close> the position of the \<open>::\<close> if one was seen.
\<close>

function parse_groups :: "string \<Rightarrow> nat list \<Rightarrow> nat option \<Rightarrow> (string \<times> nat list \<times> nat option) option" where
  "parse_groups s gs e = (if 8 \<le> length gs then Some (s, gs, e) else
     let h = takeWhile is_hex s; r = dropWhile is_hex s in
     if h = [] \<or> 4 < length h then None
     else if r \<noteq> [] \<and> hd r = CHR ''.'' then
       (if e = None \<and> length gs \<noteq> 6 then None else if 8 < length gs + 2 then None
        else case parse_v4 s of None \<Rightarrow> None
          | Some a \<Rightarrow> Some ([], gs @ [unat a div 2 ^ 16, unat a mod 2 ^ 16], e))
     else let gs' = gs @ [hexs_val h] in
       if r = [] then Some ([], gs', e)
       else if hd r \<noteq> CHR '':'' \<or> length r = 1 then None
       else if hd (tl r) = CHR '':'' then
         (if e \<noteq> None then None
          else if tl (tl r) = [] then Some ([], gs', Some (length gs'))
          else parse_groups (tl (tl r)) gs' (Some (length gs')))
       else parse_groups (tl r) gs' e)"
  by pat_completeness auto
termination
proof (relation "measure (length \<circ> fst)")
  fix s gs and e :: "nat option" and h r gs'
  assume "h = takeWhile is_hex s" "r = dropWhile is_hex s" "\<not> (h = [] \<or> 4 < length h)"
  then have "length r < length s"
    by (metis add_diff_cancel_right' length_append length_greater_0_conv takeWhile_dropWhile_id
        less_add_same_cancel2)
  then show "((tl (tl r), gs', Some (length gs')), (s, gs, e)) \<in> measure (length \<circ> fst)"
    and "((tl r, gs', e), (s, gs, e)) \<in> measure (length \<circ> fst)"
    by auto
qed simp

declare parse_groups.simps [simp del]

definition word_of_groups :: "nat list \<Rightarrow> netip" where
  "word_of_groups gs = of_nat (foldl (\<lambda>a g. a * 2 ^ 16 + g) 0 gs)"

definition parse_v6 :: "string \<Rightarrow> (addr \<times> string) option" where
  "parse_v6 t = (let (s, zone, found) = str_cut t ''%'' in
     if found \<and> zone = [] then None else
     let (s', e) = (if has_prefix s ''::'' then (drop 2 s, Some 0) else (s, None)) in
     if has_prefix s ''::'' \<and> s' = [] then Some (V6 0, zone) else
     case parse_groups s' [] e of None \<Rightarrow> None
     | Some (rest, gs, e') \<Rightarrow>
        if rest \<noteq> [] then None
        else if length gs < 8 then
          (case e' of None \<Rightarrow> None
           | Some k \<Rightarrow> Some (V6 (word_of_groups (take k gs @ replicate (8 - length gs) 0 @ drop k gs)), zone))
        else if e' \<noteq> None then None else Some (V6 (word_of_groups gs), zone))"

section \<open>Addresses and networks\<close>

text \<open>\<open>netip.ParseAddr\<close>: the first of \<open>.\<close>, \<open>:\<close> and \<open>%\<close> decides the family.\<close>

definition parse_addr :: "string \<Rightarrow> (addr \<times> string) option" where
  "parse_addr s = (case dropWhile (\<lambda>c. c \<noteq> CHR ''.'' \<and> c \<noteq> CHR '':'' \<and> c \<noteq> CHR ''%'') s of
     [] \<Rightarrow> None
   | c # _ \<Rightarrow> if c = CHR ''.'' then map_option (\<lambda>a. (V4 a, [])) (parse_v4 s)
              else if c = CHR '':'' then parse_v6 s else None)"

definition v4_in_v6 :: "ip4 \<Rightarrow> netip" where
  "v4_in_v6 a = of_nat (2 ^ 48 - 2 ^ 32 + unat a)"

definition as16 :: "addr \<Rightarrow> netip" where
  "as16 a = (case a of V4 x \<Rightarrow> v4_in_v6 x | V6 x \<Rightarrow> x)"

definition net_ParseIP :: "string \<Rightarrow> netip option" where
  "net_ParseIP s = (case parse_addr s of Some (a, zone) \<Rightarrow> if zone = [] then Some (as16 a) else None
     | None \<Rightarrow> None)"

definition to4 :: "netip \<Rightarrow> ip4 option" where
  "to4 ip = (if unat ip div 2 ^ 32 = 2 ^ 16 - 1 then Some (of_nat (unat ip mod 2 ^ 32)) else None)"

definition mask4 :: "nat \<Rightarrow> ip4 \<Rightarrow> ip4" where
  "mask4 n a = of_nat (unat a div 2 ^ (32 - n) * 2 ^ (32 - n))"

definition mask6 :: "nat \<Rightarrow> netip \<Rightarrow> netip" where
  "mask6 n a = of_nat (unat a div 2 ^ (128 - n) * 2 ^ (128 - n))"

text \<open>\<open>dtoi\<close> of the \<open>net\<close> package: a decimal below \<open>0xFFFFFF\<close>, of digits only.\<close>

definition dtoi :: "string \<Rightarrow> nat option" where
  "dtoi s = (if all_digits s \<and> digits_val s < 16777215 then Some (digits_val s) else None)"

definition net_ParseCIDR :: "string \<Rightarrow> (netip \<times> ipnet) option" where
  "net_ParseCIDR s = (let (a, m, found) = str_cut s ''/'' in
     if \<not> found then None else
     case parse_addr a of
       Some (V4 x, zone) \<Rightarrow> (case dtoi m of
           Some n \<Rightarrow> if zone = [] \<and> n \<le> 32 then Some (v4_in_v6 x, Net4 (mask4 n x) n) else None
         | None \<Rightarrow> None)
     | Some (V6 x, zone) \<Rightarrow> (case dtoi m of
           Some n \<Rightarrow> if zone = [] \<and> n \<le> 128 then Some (x, Net6 (mask6 n x) n) else None
         | None \<Rightarrow> None)
     | None \<Rightarrow> None)"

text \<open>\<open>IPNet.Contains\<close>: a 4-in-6 network with a prefix of at least 96 is an IPv4 network.\<close>

definition net_contains :: "ipnet \<Rightarrow> netip \<Rightarrow> bool" where
  "net_contains nt ip = (case (nt, to4 ip) of
     (Net4 a n, Some x) \<Rightarrow> mask4 n a = mask4 n x
   | (Net4 a n, None) \<Rightarrow> False
   | (Net6 a n, Some x) \<Rightarrow> (case to4 a of Some y \<Rightarrow> mask4 (n - 96) y = mask4 (n - 96) x | None \<Rightarrow> False)
   | (Net6 a n, None) \<Rightarrow> (case to4 a of Some _ \<Rightarrow> False | None \<Rightarrow> mask6 n a = mask6 n ip))"

text \<open>\<open>IPNet.String\<close> of a native IPv4 network\<close>

definition net4_string :: "ip4 \<Rightarrow> nat \<Rightarrow> string" where
  "net4_string a n = ip4_string a @ ''/'' @ itoa n"

definition in_net4 :: "nat \<Rightarrow> ip4 \<Rightarrow> ip4 \<Rightarrow> bool" where
  "in_net4 n a x \<longleftrightarrow> unat x div 2 ^ (32 - n) = unat a div 2 ^ (32 - n)"

text \<open>RFC 1918 (\<open>IsPrivate\<close>) and 169.254.0.0/16 (\<open>IsLinkLocalUnicast\<close>), both families.\<close>

definition rfc1918 :: "ip4 \<Rightarrow> bool" where
  "rfc1918 a \<longleftrightarrow> unat a div 2 ^ 24 = 10 \<or> unat a div 2 ^ 20 = 172 * 16 + 1 \<or> unat a div 2 ^ 16 = 192 * 256 + 168"

definition link_local4 :: "ip4 \<Rightarrow> bool" where
  "link_local4 a \<longleftrightarrow> unat a div 2 ^ 16 = 169 * 256 + 254"

definition is_private :: "netip \<Rightarrow> bool" where
  "is_private ip = (case to4 ip of Some a \<Rightarrow> rfc1918 a | None \<Rightarrow> unat ip div 2 ^ 121 = 126)"

definition is_link_local_unicast :: "netip \<Rightarrow> bool" where
  "is_link_local_unicast ip = (case to4 ip of Some a \<Rightarrow> link_local4 a | None \<Rightarrow> unat ip div 2 ^ 118 = 1018)"

lemma unat_of_nat_small: "n < 2 ^ LENGTH('a) \<Longrightarrow> unat (of_nat n :: 'a::len word) = n"
  by (simp add: unat_of_nat)

lemma unat_v4_in_v6: "unat (v4_in_v6 a) = 2 ^ 48 - 2 ^ 32 + unat a"
proof -
  have "unat a < 2 ^ 32" using unsigned_less[of a, where 'a = nat] by simp
  then have "2 ^ 48 - 2 ^ 32 + unat a < (2::nat) ^ 128" by simp
  then show ?thesis unfolding v4_in_v6_def by (subst unat_of_nat_small) simp_all
qed

lemma to4_v4_in_v6 [simp]: "to4 (v4_in_v6 a) = Some a"
proof -
  have a: "unat a < 2 ^ 32" using unsigned_less[of a, where 'a = nat] by simp
  then have "(2 ^ 48 - 2 ^ 32 + unat a) div 2 ^ 32 = 2 ^ 16 - 1"
    and "(2 ^ 48 - 2 ^ 32 + unat a) mod 2 ^ 32 = unat a"
    by (simp_all add: div_add1_eq mod_add_left_eq[symmetric])
  then show ?thesis by (simp only: to4_def unat_v4_in_v6) (simp)
qed

lemma parse_addr_v4:
  assumes "parse_v4 s = Some a"
  shows "parse_addr s = Some (V4 a, [])"
proof -
  have dot: "CHR ''.'' \<in> set s"
  proof (rule ccontr)
    assume "CHR ''.'' \<notin> set s"
    then have "str_split s ''.'' = [s]" by (rule str_split_char_notin)
    with assms show False by (simp add: parse_v4_def split: option.splits)
  qed
  let ?p = "\<lambda>c. c \<noteq> CHR ''.'' \<and> c \<noteq> CHR '':'' \<and> c \<noteq> CHR ''%''"
  have ne: "dropWhile ?p s \<noteq> []" using dot by (auto simp: dropWhile_eq_Nil_conv)
  obtain c cs where d: "dropWhile ?p s = c # cs" using ne by (cases "dropWhile ?p s") auto
  have np: "\<not> ?p c" using hd_dropWhile[OF ne] d by simp
  from d have "c \<in> set s" by (metis list.set_intros(1) set_dropWhileD)
  from parse_v4_bytes[OF assms this] have "c = CHR ''.''"
    using np by (auto simp: is_digit_def)
  with d assms show ?thesis by (simp add: parse_addr_def)
qed

lemma net_ParseIP_v4: "parse_v4 s = Some a \<Longrightarrow> net_ParseIP s = Some (v4_in_v6 a)"
  by (simp add: net_ParseIP_def parse_addr_v4 as16_def)

text \<open>Text without a colon can only be an IPv4 address.\<close>

lemma parse_addr_no_colon:
  assumes "CHR '':'' \<notin> set s"
  shows "parse_addr s = map_option (\<lambda>a. (V4 a, [])) (parse_v4 s)"
proof (cases "parse_v4 s")
  case None
  then show ?thesis
    using assms set_dropWhileD[of _ "\<lambda>c. c \<noteq> CHR ''.'' \<and> c \<noteq> CHR '':'' \<and> c \<noteq> CHR ''%''" s]
    by (auto simp: parse_addr_def split: list.splits)
next
  case (Some a)
  then show ?thesis by (simp add: parse_addr_v4)
qed

lemma net_ParseIP_no_colon:
  "CHR '':'' \<notin> set s \<Longrightarrow> net_ParseIP s = map_option v4_in_v6 (parse_v4 s)"
  by (cases "parse_v4 s") (simp_all add: net_ParseIP_def parse_addr_no_colon as16_def)

lemma net_ParseCIDR_no_colon:
  assumes "CHR '':'' \<notin> set s"
  shows "net_ParseCIDR s = (let (a, m, found) = str_cut s ''/'' in
     if \<not> found then None else
     (case (parse_v4 a, dtoi m) of
        (Some x, Some n) \<Rightarrow> if n \<le> 32 then Some (v4_in_v6 x, Net4 (mask4 n x) n) else None
      | _ \<Rightarrow> None))"
proof -
  obtain a m found where c: "str_cut s ''/'' = (a, m, found)" by (cases "str_cut s ''/''") auto
  with str_cut_charD[OF c] assms have "CHR '':'' \<notin> set a" by (auto split: if_splits)
  then show ?thesis
    by (auto simp: net_ParseCIDR_def c parse_addr_no_colon split: option.splits)
qed

lemma dtoi_itoa: "n < 16777215 \<Longrightarrow> dtoi (itoa n) = Some n"
  by (simp add: dtoi_def)

lemma unat_mask4: "unat (mask4 n a) = unat a div 2 ^ (32 - n) * 2 ^ (32 - n)"
proof -
  have "unat a div 2 ^ (32 - n) * 2 ^ (32 - n) \<le> unat a" by simp
  also have "unat a < 2 ^ 32" using unsigned_less[of a, where 'a = nat] by simp
  finally show ?thesis unfolding mask4_def by (subst unat_of_nat_small) simp_all
qed

lemma mask4_eq_iff: "mask4 n a = mask4 n x \<longleftrightarrow> in_net4 n a x"
  unfolding in_net4_def word_unat_eq_iff unat_mask4 by auto

lemma mask4_idem [simp]: "mask4 n (mask4 n a) = mask4 n a"
  by (simp add: word_unat_eq_iff unat_mask4)

lemma in_net4_mask [simp]: "in_net4 n (mask4 n a) x \<longleftrightarrow> in_net4 n a x"
  by (simp add: in_net4_def unat_mask4)

lemma in_net4_32: "in_net4 32 a x \<longleftrightarrow> x = a"
  by (auto simp: in_net4_def word_unat_eq_iff)

lemma in_net4_0: "in_net4 0 a x"
  using unsigned_less[of a, where 'a = nat] unsigned_less[of x, where 'a = nat] by (simp add: in_net4_def)

text \<open>The text of a native IPv4 network parses back to that network.\<close>

lemma ip4_string_chars: "c \<in> set (ip4_string a) \<Longrightarrow> is_digit c \<or> c = CHR ''.''"
  using parse_v4_bytes[OF parse_v4_string] .

lemma net4_cut: "str_cut (net4_string a n) ''/'' = (ip4_string a, itoa n, True)"
  using ip4_string_chars[of "CHR ''/''" a] str_cut_char[of "CHR ''/''" "ip4_string a" "itoa n"]
  by (auto simp: net4_string_def is_digit_def)

lemma net_ParseCIDR_string:
  assumes "n \<le> 32"
  shows "net_ParseCIDR (net4_string a n) = Some (v4_in_v6 a, Net4 (mask4 n a) n)"
  using assms by (simp add: net_ParseCIDR_def net4_cut parse_addr_v4[OF parse_v4_string] dtoi_itoa)

end
