(* ===== verification/NftKernel.thy ===== *)
theory NftKernel
  imports GoNet
begin

text \<open>
  The kernel's packet filter as the sources use it, through the \<open>nft\<close> command line.
  \<open>nft\<close> and the kernel are not part of the program: they appear as the operation
  \<open>nft_cmd\<close> of a \<open>netenv\<close>, a parameter of every definition that runs a command.

  This theory states what the program relies on. \<open>nft_doc\<close> is the documented effect of
  the commands the sources issue (add, insert and delete a rule, add a chain, add and
  delete a set, add elements), \<open>listing\<close> what the output of a chain listing has to show,
  \<open>eval_toks\<close> and \<open>chain_verdict\<close> what a rule and a chain mean for a packet. The locale
  \<open>nft_kernel\<close> is the interface: a command that succeeds had its documented effect; one that
  fails (or times out) had it or changed nothing. \<open>ref_exec\<close> is a concrete kernel, with failures, that satisfies it.
\<close>

section \<open>The tables\<close>

type_synonym nft_rule = "nat \<times> string list" \<comment> \<open>handle, tokens after the chain name\<close>
type_synonym chain_id = "string \<times> string \<times> string" \<comment> \<open>family, table, chain\<close>

record nft_state =
  nft_chains :: "chain_id \<Rightarrow> nft_rule list option"
  nft_sets :: "string \<Rightarrow> string list option"
  nft_next :: nat

record 'w netenv =
  sudo_on :: bool
  nft_cmd :: "string list \<Rightarrow> ('w, string) act"

definition nft_doc :: "string list \<Rightarrow> nft_state \<Rightarrow> nft_state option" where
  "nft_doc args s = (case args of
     a # b # f # t # c # rest \<Rightarrow>
       (let ch = nft_chains s (f, t, c) in
        if b = ''rule'' \<and> (a = ''add'' \<or> a = ''insert'') then
          (case ch of None \<Rightarrow> None
           | Some rs \<Rightarrow> Some (s\<lparr>nft_chains := (nft_chains s)((f, t, c) \<mapsto>
                 (if a = ''add'' then rs @ [(nft_next s, rest)] else (nft_next s, rest) # rs)),
               nft_next := Suc (nft_next s)\<rparr>))
        else if a = ''delete'' \<and> b = ''rule'' then
          (case (ch, rest) of
             (Some rs, [k, h]) \<Rightarrow>
               (if k = ''handle'' \<and> (\<exists>r \<in> set rs. itoa (fst r) = h)
                then Some (s\<lparr>nft_chains := (nft_chains s)((f, t, c) \<mapsto> filter (\<lambda>r. itoa (fst r) \<noteq> h) rs)\<rparr>)
                else None)
           | _ \<Rightarrow> None)
        else if a = ''add'' \<and> b = ''chain'' then
          (case ch of None \<Rightarrow> Some (s\<lparr>nft_chains := (nft_chains s)((f, t, c) \<mapsto> [])\<rparr>) | Some _ \<Rightarrow> Some s)
        else if a = ''add'' \<and> b = ''set'' then
          (case nft_sets s c of None \<Rightarrow> Some (s\<lparr>nft_sets := (nft_sets s)(c \<mapsto> [])\<rparr>) | Some _ \<Rightarrow> Some s)
        else if a = ''add'' \<and> b = ''element'' then
          (case (nft_sets s c, rest) of
             (Some es, [_, body, _]) \<Rightarrow> Some (s\<lparr>nft_sets := (nft_sets s)(c \<mapsto> es @ str_split body '', '')\<rparr>)
           | _ \<Rightarrow> None)
        else if a = ''delete'' \<and> b = ''set'' then
          (case nft_sets s c of None \<Rightarrow> None | Some _ \<Rightarrow> Some (s\<lparr>nft_sets := (nft_sets s)(c := None)\<rparr>))
        else if a = ''list'' \<and> b = ''chain'' then
          (case ch of None \<Rightarrow> None | Some _ \<Rightarrow> Some s)
        else if a = ''-a'' \<and> b = ''list'' \<and> f = ''chain'' then
          (case rest of [d] \<Rightarrow> (case nft_chains s (t, c, d) of None \<Rightarrow> None | Some _ \<Rightarrow> Some s) | _ \<Rightarrow> Some s)
        else if a = ''-j'' \<and> b = ''list'' \<and> f = ''set'' then
          (case rest of [d] \<Rightarrow> (case nft_sets s d of None \<Rightarrow> None | Some _ \<Rightarrow> Some s) | _ \<Rightarrow> Some s)
        else Some s)
   | _ \<Rightarrow> Some s)"

text \<open>The effect of each command on its own, so that proofs never unfold \<open>nft_doc\<close>.\<close>

lemma nft_doc_add_rule:
  "nft_doc (''add'' # ''rule'' # f # t # c # toks) s = (case nft_chains s (f, t, c) of None \<Rightarrow> None
     | Some rs \<Rightarrow> Some (s\<lparr>nft_chains := (nft_chains s)((f, t, c) \<mapsto> rs @ [(nft_next s, toks)]),
          nft_next := Suc (nft_next s)\<rparr>))"
  by (simp add: nft_doc_def split: option.split)

lemma nft_doc_insert_rule:
  "nft_doc (''insert'' # ''rule'' # f # t # c # toks) s = (case nft_chains s (f, t, c) of None \<Rightarrow> None
     | Some rs \<Rightarrow> Some (s\<lparr>nft_chains := (nft_chains s)((f, t, c) \<mapsto> (nft_next s, toks) # rs),
          nft_next := Suc (nft_next s)\<rparr>))"
  by (simp add: nft_doc_def split: option.split)

lemma nft_doc_delete_rule:
  "nft_doc [''delete'', ''rule'', f, t, c, ''handle'', h] s = (case nft_chains s (f, t, c) of None \<Rightarrow> None
     | Some rs \<Rightarrow> if \<exists>r \<in> set rs. itoa (fst r) = h
         then Some (s\<lparr>nft_chains := (nft_chains s)((f, t, c) \<mapsto> filter (\<lambda>r. itoa (fst r) \<noteq> h) rs)\<rparr>)
         else None)"
  by (simp add: nft_doc_def split: option.split)

lemma nft_doc_add_chain:
  "nft_doc (''add'' # ''chain'' # f # t # c # spec) s = (case nft_chains s (f, t, c) of
     None \<Rightarrow> Some (s\<lparr>nft_chains := (nft_chains s)((f, t, c) \<mapsto> [])\<rparr>) | Some _ \<Rightarrow> Some s)"
  by (simp add: nft_doc_def split: option.split)

lemma nft_doc_add_set:
  "nft_doc (''add'' # ''set'' # f # t # c # spec) s = (case nft_sets s c of
     None \<Rightarrow> Some (s\<lparr>nft_sets := (nft_sets s)(c \<mapsto> [])\<rparr>) | Some _ \<Rightarrow> Some s)"
  by (simp add: nft_doc_def split: option.split)

lemma nft_doc_add_element:
  "nft_doc [''add'', ''element'', f, t, c, ob, body, cb] s = (case nft_sets s c of None \<Rightarrow> None
     | Some es \<Rightarrow> Some (s\<lparr>nft_sets := (nft_sets s)(c \<mapsto> es @ str_split body '', '')\<rparr>))"
  by (simp add: nft_doc_def split: option.split)

lemma nft_doc_delete_set:
  "nft_doc [''delete'', ''set'', f, t, c] s = (case nft_sets s c of None \<Rightarrow> None
     | Some _ \<Rightarrow> Some (s\<lparr>nft_sets := (nft_sets s)(c := None)\<rparr>))"
  by (simp add: nft_doc_def split: option.split)

lemma nft_doc_add_table: "nft_doc [''add'', ''table'', f, t] s = Some s"
  by (simp add: nft_doc_def split: option.split)

lemma nft_doc_list:
  "nft_doc [''list'', ''chain'', f, t, c] s = (if nft_chains s (f, t, c) = None then None else Some s)"
  "nft_doc [''-a'', ''list'', ''chain'', f, t, c] s = (if nft_chains s (f, t, c) = None then None else Some s)"
  "nft_doc [''-j'', ''list'', ''set'', f, t, c] s = (if nft_sets s c = None then None else Some s)"
  by (auto simp: nft_doc_def split: option.splits)

lemmas nft_doc_simps = nft_doc_add_rule nft_doc_insert_rule nft_doc_delete_rule nft_doc_add_chain
  nft_doc_add_set nft_doc_add_element nft_doc_delete_set nft_doc_add_table nft_doc_list

text \<open>Handles are fresh, so they name one rule of a chain.\<close>

definition nft_wf :: "nft_state \<Rightarrow> bool" where
  "nft_wf s \<longleftrightarrow> (\<forall>ch rs. nft_chains s ch = Some rs \<longrightarrow>
     distinct (map fst rs) \<and> (\<forall>r \<in> set rs. fst r < nft_next s))"

lemma nft_wfD:
  assumes "nft_wf s" and "nft_chains s ch = Some rs"
  shows "distinct (map fst rs)" and "r \<in> set rs \<Longrightarrow> fst r < nft_next s"
  using assms unfolding nft_wf_def by blast+

lemma nft_wf_upd:
  assumes "nft_wf s" and "distinct (map fst rs)" and "\<And>r. r \<in> set rs \<Longrightarrow> fst r < n" and "nft_next s \<le> n"
  shows "nft_wf (s\<lparr>nft_chains := (nft_chains s)(ch \<mapsto> rs), nft_next := n\<rparr>)"
  using assms by (fastforce simp: nft_wf_def)

lemma nft_wf_upd_chain:
  assumes "nft_wf s" and "distinct (map fst rs)" and "\<And>r. r \<in> set rs \<Longrightarrow> fst r < nft_next s"
  shows "nft_wf (s\<lparr>nft_chains := (nft_chains s)(ch \<mapsto> rs)\<rparr>)"
  using assms by (fastforce simp: nft_wf_def)

lemma nft_wf_sets [simp]: "nft_wf (s\<lparr>nft_sets := x\<rparr>) \<longleftrightarrow> nft_wf s"
  by (simp add: nft_wf_def)

lemma nft_wf_append:
  assumes "nft_wf s" and "nft_chains s ch = Some rs"
  shows "nft_wf (s\<lparr>nft_chains := (nft_chains s)(ch \<mapsto> rs @ [(nft_next s, x)]), nft_next := Suc (nft_next s)\<rparr>)"
    and "nft_wf (s\<lparr>nft_chains := (nft_chains s)(ch \<mapsto> (nft_next s, x) # rs), nft_next := Suc (nft_next s)\<rparr>)"
proof -
  have d: "distinct (map fst rs)" and b: "\<And>r. r \<in> set rs \<Longrightarrow> fst r < nft_next s"
    using nft_wfD[OF assms] by blast+
  then have "nft_next s \<notin> set (map fst rs)" by fastforce
  with d b assms(1) show
    "nft_wf (s\<lparr>nft_chains := (nft_chains s)(ch \<mapsto> rs @ [(nft_next s, x)]), nft_next := Suc (nft_next s)\<rparr>)"
    "nft_wf (s\<lparr>nft_chains := (nft_chains s)(ch \<mapsto> (nft_next s, x) # rs), nft_next := Suc (nft_next s)\<rparr>)"
    by (auto intro!: nft_wf_upd simp: less_Suc_eq)
qed

lemma nft_wf_filter:
  assumes "nft_wf s" and "nft_chains s ch = Some rs"
  shows "nft_wf (s\<lparr>nft_chains := (nft_chains s)(ch \<mapsto> filter P rs)\<rparr>)"
proof -
  have "distinct (map fst rs)" and "\<And>r. r \<in> set rs \<Longrightarrow> fst r < nft_next s"
    using nft_wfD[OF assms] by blast+
  with assms(1) show ?thesis by (intro nft_wf_upd_chain) (auto simp: distinct_map_filter)
qed

lemma nft_doc_wf:
  assumes "nft_wf s" and "nft_doc args s = Some s'"
  shows "nft_wf s'"
proof -
  have nil: "nft_wf (s\<lparr>nft_chains := (nft_chains s)(ch \<mapsto> [])\<rparr>)" for ch
    using assms(1) by (auto simp: nft_wf_def)
  have "pred_option nft_wf (nft_doc args s)"
    unfolding nft_doc_def Let_def
    by (simp add: nft_wf_append nft_wf_filter nil assms(1) split: list.split option.split)
  with assms(2) show ?thesis by simp
qed

section \<open>Listings\<close>

text \<open>The token after the keyword \<open>comment\<close>, with its quotes.\<close>

fun comment_tok :: "string list \<Rightarrow> string option" where
  "comment_tok (t # u # ts) = (if t = ''comment'' then Some u else comment_tok (u # ts))"
| "comment_tok _ = None"

definition quoted :: "string \<Rightarrow> string" where
  "quoted c = ''\"'' @ c @ ''\"''"

text \<open>How a listing shows a comment: \<open>comment "c"\<close>.\<close>

definition shown :: "string \<Rightarrow> string" where
  "shown c = ''comment '' @ quoted c"

text \<open>The bytes of the comments COI writes: names, addresses, hyphens.\<close>

definition plain :: "string \<Rightarrow> bool" where
  "plain c \<longleftrightarrow> list_all (\<lambda>x. is_alnum x \<or> x = CHR ''-'' \<or> x = CHR ''.'' \<or> x = CHR ''_'') c"

definition clean :: "string list \<Rightarrow> bool" where
  "clean toks \<longleftrightarrow> (case comment_tok toks of None \<Rightarrow> True
     | Some u \<Rightarrow> u = quoted (butlast (tl u)) \<and> plain (butlast (tl u)))"

text \<open>
  One line of \<open>nft -a list chain\<close>: it ends in \<open># handle N\<close> (the only such marker in the
  line) and shows the rule's comment, if it has one, as \<open>comment "..."\<close>.
\<close>

definition line_shows :: "nft_rule \<Rightarrow> string \<Rightarrow> bool" where
  "line_shows r l \<longleftrightarrow> (\<exists>body. str_split l ''# handle '' = [body, itoa (fst r)]) \<and>
     (\<forall>c. plain c \<longrightarrow>
        (str_contains l (shown c) \<longleftrightarrow> comment_tok (snd r) = Some (quoted c)))"

definition listing :: "nft_rule list \<Rightarrow> string \<Rightarrow> bool" where
  "listing rs out \<longleftrightarrow> (\<exists>hdr ls ftr. str_split out [CHR 0x0A] = hdr @ ls @ ftr \<and>
     list_all2 line_shows rs ls \<and> (\<forall>l \<in> set hdr \<union> set ftr. \<not> str_contains l ''comment ''))"

lemma contains_split:
  assumes "c \<notin> set pat" and "pat \<noteq> []"
  shows "str_contains (a @ c # b) pat \<longleftrightarrow> str_contains a pat \<or> str_contains b pat"
proof
  assume "str_contains (a @ c # b) pat"
  then obtain u v where e: "a @ c # b = u @ pat @ v" by (auto simp: str_contains_iff)
  then consider w where "a = u @ w" "w @ c # b = pat @ v" | w where "u = a @ w" "c # b = w @ pat @ v"
    by (auto simp: append_eq_append_conv2)
  then show "str_contains a pat \<or> str_contains b pat"
  proof cases
    case 1
    then consider z where "w = pat @ z" | z where "pat = w @ z" "c # b = z @ v"
      by (auto simp: append_eq_append_conv2)
    then show ?thesis
    proof cases
      case (1 z)
      with \<open>a = u @ w\<close> show ?thesis unfolding str_contains_iff by blast
    next
      case (2 z)
      then show ?thesis
      proof (cases z)
        case Nil
        with 2 \<open>a = u @ w\<close> have "a = u @ pat @ []" by simp
        then show ?thesis unfolding str_contains_iff by blast
      next
        case (Cons x xs)
        with 2 assms(1) show ?thesis by auto
      qed
    qed
  next
    case (2 w)
    then show ?thesis
    proof (cases w)
      case Nil
      with 2 assms show ?thesis by (cases pat) auto
    next
      case (Cons x xs)
      with 2 have "b = xs @ pat @ v" by simp
      then show ?thesis unfolding str_contains_iff by blast
    qed
  qed
next
  assume "str_contains a pat \<or> str_contains b pat"
  then show "str_contains (a @ c # b) pat"
  proof
    assume "str_contains a pat"
    then obtain u v where "a = u @ pat @ v" by (auto simp: str_contains_iff)
    then have "a @ c # b = u @ pat @ (v @ c # b)" by simp
    then show ?thesis unfolding str_contains_iff by blast
  next
    assume "str_contains b pat"
    then obtain u v where "b = u @ pat @ v" by (auto simp: str_contains_iff)
    then have "a @ c # b = (a @ c # u) @ pat @ v" by simp
    then show ?thesis unfolding str_contains_iff by blast
  qed
qed

text \<open>A pattern without the separator occurs in a text iff it occurs in one of its parts.\<close>

lemma contains_parts:
  assumes "c \<notin> set pat" and "pat \<noteq> []"
  shows "str_contains s pat \<longleftrightarrow> (\<exists>l \<in> set (str_split s [c]). str_contains l pat)"
proof (induction s rule: length_induct)
  case (1 s)
  show ?case
  proof (cases "c \<in> set s")
    case True
    then obtain a b where s: "s = a @ c # b" "c \<notin> set a" by (meson split_list_first)
    then have "str_contains b pat \<longleftrightarrow> (\<exists>l \<in> set (str_split b [c]). str_contains l pat)"
      using 1 by simp
    with s show ?thesis by (simp add: str_split_char_app contains_split[OF assms])
  next
    case False
    then show ?thesis by (simp add: str_split_char_notin)
  qed
qed

lemma contains_mono: "str_contains l (p @ q) \<Longrightarrow> str_contains l p"
  by (force simp: str_contains_iff)

lemma plain_no:
  assumes "plain c"
  shows "CHR 0x22 \<notin> set c" "CHR 0x0A \<notin> set c" "CHR ''#'' \<notin> set c" "CHR '' '' \<notin> set c"
  using assms by (auto simp: plain_def list_all_iff char_defs)

lemma plain_append [simp]: "plain (a @ b) \<longleftrightarrow> plain a \<and> plain b"
  by (simp add: plain_def)

lemma clean_quoted: "comment_tok toks = Some (quoted c) \<Longrightarrow> clean toks \<longleftrightarrow> plain c"
  by (simp add: clean_def quoted_def butlast_append)

text \<open>The whole listing mentions a comment iff a rule carries it.\<close>

lemma listing_contains:
  assumes "listing rs out" and "plain c"
  shows "str_contains out (shown c) \<longleftrightarrow> (\<exists>r \<in> set rs. comment_tok (snd r) = Some (quoted c))"
proof -
  obtain hdr ls ftr where o: "str_split out [CHR 0x0A] = hdr @ ls @ ftr" "list_all2 line_shows rs ls"
      "\<forall>l \<in> set hdr \<union> set ftr. \<not> str_contains l ''comment ''"
    using assms(1) by (auto simp: listing_def)
  have "str_contains out (shown c) \<longleftrightarrow>
      (\<exists>l \<in> set (hdr @ ls @ ftr). str_contains l (shown c))"
    unfolding o(1)[symmetric] by (rule contains_parts) (use plain_no[OF assms(2)] in \<open>auto simp: shown_def quoted_def\<close>)
  also have "\<dots> \<longleftrightarrow> (\<exists>l \<in> set ls. str_contains l (shown c))"
    using o(3) contains_mono[of _ "''comment ''" "quoted c"] by (auto simp: shown_def)
  also have "\<dots> \<longleftrightarrow> (\<exists>r \<in> set rs. comment_tok (snd r) = Some (quoted c))"
    using o(2) assms(2) by (induction rule: list_all2_induct) (auto simp: line_shows_def)
  finally show ?thesis .
qed

section \<open>The interface\<close>

locale nft_kernel =
  fixes E :: "'w netenv" and view :: "'w \<Rightarrow> nft_state"
  assumes cmd_ok: "nft_cmd E args w = (Inr out, w') \<Longrightarrow> nft_doc args (view w) = Some (view w')"
    and cmd_err: "nft_cmd E args w = (Inl e, w') \<Longrightarrow>
      view w' = view w \<or> nft_doc args (view w) = Some (view w')"
    and list_out: "nft_cmd E [''-a'', ''list'', ''chain'', f, t, c] w = (Inr out, w') \<Longrightarrow>
      nft_chains (view w) (f, t, c) = Some rs \<Longrightarrow> (\<forall>r \<in> set rs. clean (snd r)) \<Longrightarrow> listing rs out"
    and list_out_plain: "nft_cmd E [''list'', ''chain'', f, t, c] w = (Inr out, w') \<Longrightarrow>
      nft_chains (view w) (f, t, c) = Some rs \<Longrightarrow> (\<forall>r \<in> set rs. clean (snd r)) \<Longrightarrow> plain cm \<Longrightarrow>
      str_contains out (shown cm) \<longleftrightarrow> (\<exists>r \<in> set rs. comment_tok (snd r) = Some (quoted cm))"
begin

text \<open>Failed or not, a command changes nothing or has its documented effect.\<close>

lemma cmd_step: "nft_cmd E args w = (r, w') \<Longrightarrow> view w' = view w \<or> nft_doc args (view w) = Some (view w')"
  using cmd_ok cmd_err by (cases r) fastforce+

text \<open>A command never breaks the freshness of handles.\<close>

lemma cmd_wf: "nft_cmd E args w = (r, w') \<Longrightarrow> nft_wf (view w) \<Longrightarrow> nft_wf (view w')"
  using cmd_step nft_doc_wf by fastforce

end

text \<open>
  A kernel that does not fail on its own: a command is refused only when its
  documentation says so, and then with the kernel's "no such file" message.
\<close>

locale reliable_nft = nft_kernel E view
  for E :: "'w netenv" and view :: "'w \<Rightarrow> nft_state" +
  assumes sudo: "sudo_on E"
    and total: "nft_doc args (view w) \<noteq> None \<Longrightarrow> \<exists>out w'. nft_cmd E args w = (Inr out, w')"
    and absent: "nft_cmd E args w = (Inl e, w') \<Longrightarrow> str_contains (err_text e) ''No such file or directory''"

section \<open>A reference kernel\<close>

definition ref_line :: "nft_rule \<Rightarrow> string" where
  "ref_line r = (case comment_tok (snd r) of None \<Rightarrow> ''rule'' | Some u \<Rightarrow> ''comment '' @ u)
     @ '' # handle '' @ itoa (fst r)"

definition ref_listing :: "nft_rule list \<Rightarrow> string" where
  "ref_listing rs = str_join [CHR 0x0A] (''chain {'' # map ref_line rs @ [''}''])"

definition ref_output :: "string list \<Rightarrow> nft_state \<Rightarrow> string" where
  "ref_output args s = (case args of
     [a, b, f, t, c] \<Rightarrow> if a = ''list'' \<and> b = ''chain'' then
         (case nft_chains s (f, t, c) of Some rs \<Rightarrow> ref_listing rs | None \<Rightarrow> []) else []
   | [a, b, c, f, t, d] \<Rightarrow> if a = ''-a'' \<and> b = ''list'' \<and> c = ''chain'' then
         (case nft_chains s (f, t, d) of Some rs \<Rightarrow> ref_listing rs | None \<Rightarrow> []) else []
   | _ \<Rightarrow> [])"

definition ref_exec :: "string list \<Rightarrow> (nft_state, string) act" where
  "ref_exec args s = (case nft_doc args s of
     None \<Rightarrow> (Inl (ExtErr ''nft command failed: No such file or directory''), s)
   | Some s' \<Rightarrow> (Inr (ref_output args s), s'))"

text \<open>The same kernel with faults: each command takes the next entry of a fault plan.\<close>

definition faulty_exec :: "string list \<Rightarrow> (nft_state \<times> bool list, string) act" where
  "faulty_exec args w = (case w of (s, fs) \<Rightarrow>
     (case fs of
        True # fs' \<Rightarrow> (Inl (ExtErr ''nft command timed out after 10s''), (s, fs'))
      | _ \<Rightarrow> (case ref_exec args s of (r, s') \<Rightarrow> (r, (s', tl fs)))))"

definition ref_env :: "nft_state netenv" where
  "ref_env = \<lparr>sudo_on = True, nft_cmd = ref_exec\<rparr>"

definition faulty_env :: "(nft_state \<times> bool list) netenv" where
  "faulty_env = \<lparr>sudo_on = True, nft_cmd = faulty_exec\<rparr>"

lemma split_once:
  assumes "c \<notin> set a" and "c \<notin> set b"
  shows "str_split (a @ (c # cs) @ b) (c # cs) = [a, b]"
proof -
  have "str_index (a @ (c # cs) @ b) (c # cs) = Some (length a)"
    using assms(1) by (induction a) (auto simp: has_prefix_def)
  moreover have "str_index b (c # cs) = None"
  proof (rule ccontr)
    assume "str_index b (c # cs) \<noteq> None"
    then have "str_contains b (c # cs)" by (simp add: str_contains_def)
    then show False using assms(2) by (auto simp: str_contains_iff)
  qed
  ultimately show ?thesis
    using str_split_Some[of "c # cs" "a @ (c # cs) @ b" "length a"] by (simp add: str_split_None)
qed

text \<open>Two quoted plain comments that occur in each other's line are the same.\<close>

lemma quoted_unique:
  assumes "CHR 0x22 \<notin> set p" "CHR 0x22 \<notin> set c" "CHR 0x22 \<notin> set s" "CHR 0x22 \<notin> set d"
  shows "str_contains (p @ quoted c @ s) (q @ quoted d) \<Longrightarrow> c = d"
proof -
  assume "str_contains (p @ quoted c @ s) (q @ quoted d)"
  then obtain u v where e: "p @ quoted c @ s = u @ (q @ quoted d) @ v" by (auto simp: str_contains_iff)
  let ?f = "filter (\<lambda>x. x = CHR 0x22)"
  have nil: "?f x = [] \<longleftrightarrow> CHR 0x22 \<notin> set x" for x by (auto simp: filter_empty_conv)
  have "?f p = []" "?f c = []" "?f s = []" using assms unfolding nil by blast+
  then have "?f (p @ quoted c @ s) = [CHR 0x22, CHR 0x22]" by (simp add: quoted_def)
  then have "?f u @ ?f q @ [CHR 0x22] @ ?f d @ [CHR 0x22] @ ?f v = [CHR 0x22, CHR 0x22]"
    by (subst (asm) e) (simp add: quoted_def)
  then have "length (?f u) + length (?f q) + length (?f v) = 0"
    by (drule_tac f = length in arg_cong) simp
  then have uqv: "CHR 0x22 \<notin> set (u @ q)" "CHR 0x22 \<notin> set v"
    using nil by (auto simp: nil)
  have "str_split (p @ quoted c @ s) [CHR 0x22] = [p, c, s]"
    using assms by (simp add: quoted_def str_split_char_app str_split_char_notin)
  moreover have "str_split (u @ (q @ quoted d) @ v) [CHR 0x22] = [u @ q, d, v]"
    using uqv assms(4) str_split_char_app[of "CHR 0x22" "u @ q"]
    by (simp add: quoted_def str_split_char_app str_split_char_notin)
  ultimately show "c = d" using e by simp
qed

lemma ref_line_shows:
  assumes "clean (snd r)"
  shows "line_shows r (ref_line r)"
proof (cases "comment_tok (snd r)")
  case None
  have "str_split (''rule '' @ ''# handle '' @ itoa (fst r)) ''# handle '' = [''rule '', itoa (fst r)]"
    by (rule split_once) (auto simp: is_digit_def dest: itoa_set)
  moreover have "CHR 0x22 \<notin> set (ref_line r)"
    using None by (auto simp: ref_line_def is_digit_def dest: itoa_set)
  then have "\<not> str_contains (ref_line r) (shown c)" for c
    by (auto simp: str_contains_iff shown_def quoted_def)
  ultimately show ?thesis
    using None by (auto simp: line_shows_def ref_line_def)
next
  case (Some u)
  then obtain c where u: "u = quoted c" "plain c" using assms by (auto simp: clean_def)
  note np = plain_no[OF u(2)]
  have l: "ref_line r = ''comment '' @ quoted c @ '' # handle '' @ itoa (fst r)"
    using Some u by (simp add: ref_line_def)
  have "str_split ((''comment '' @ quoted c @ '' '') @ ''# handle '' @ itoa (fst r)) ''# handle ''
      = [''comment '' @ quoted c @ '' '', itoa (fst r)]"
    by (rule split_once) (use np in \<open>auto simp: is_digit_def quoted_def dest: itoa_set\<close>)
  then have sp: "\<exists>body. str_split (ref_line r) ''# handle '' = [body, itoa (fst r)]"
    using l by simp
  have "str_contains (ref_line r) (shown d) \<longleftrightarrow> c = d" if "plain d" for d
  proof
    assume "str_contains (ref_line r) (shown d)"
    then have "str_contains (''comment '' @ quoted c @ ('' # handle '' @ itoa (fst r))) (''comment '' @ quoted d)"
      by (simp only: l append_assoc shown_def)
    then show "c = d"
      by (rule quoted_unique[rotated 4])
        (use np plain_no[OF that] in \<open>auto simp: is_digit_def dest: itoa_set\<close>)
  next
    assume "c = d"
    then show "str_contains (ref_line r) (shown d)"
      unfolding l str_contains_iff shown_def by (metis append_Nil append_assoc)
  qed
  then show ?thesis
    using sp Some u(1) by (auto simp: line_shows_def quoted_def)
qed

lemma ref_listing_ok:
  assumes "\<forall>r \<in> set rs. clean (snd r)"
  shows "listing rs (ref_listing rs)"
proof -
  have "CHR 0x0A \<notin> set (ref_line r)" if r: "r \<in> set rs" for r
  proof (cases "comment_tok (snd r)")
    case None
    then show ?thesis by (auto simp: ref_line_def is_digit_def dest: itoa_set)
  next
    case (Some u)
    with assms r have "clean (snd r)" by blast
    with Some obtain c where "u = quoted c" "plain c" by (auto simp: clean_def)
    with Some show ?thesis using plain_no[of c]
      by (auto simp: ref_line_def quoted_def is_digit_def dest: itoa_set)
  qed
  then have "str_split (ref_listing rs) [CHR 0x0A] = [''chain {''] @ map ref_line rs @ [''}'']"
    unfolding ref_listing_def by (subst split_join_char) auto
  moreover have "list_all2 line_shows rs (map ref_line rs)"
    using assms ref_line_shows by (simp add: list_all2_map2 list_all2_same)
  moreover have "\<not> str_contains ''chain {'' ''comment ''" "\<not> str_contains ''}'' ''comment ''"
    by (simp_all add: str_contains_def has_prefix_def)
  ultimately show ?thesis unfolding listing_def
    by (intro exI[of _ "[''chain {'']"] exI[of _ "map ref_line rs"] exI[of _ "[''}'']"]) simp
qed

lemma ref_exec_Inr: "ref_exec args s = (Inr out, s') \<Longrightarrow>
    nft_doc args s = Some s' \<and> out = ref_output args s"
  by (auto simp: ref_exec_def split: option.splits)

lemma ref_exec_Inl: "ref_exec args s = (Inl e, s') \<Longrightarrow>
    s' = s \<and> e = ExtErr ''nft command failed: No such file or directory''"
  by (auto simp: ref_exec_def split: option.splits)

lemma ref_output_list:
  "nft_chains s (f, t, c) = Some rs \<Longrightarrow> ref_output [''-a'', ''list'', ''chain'', f, t, c] s = ref_listing rs"
  "nft_chains s (f, t, c) = Some rs \<Longrightarrow> ref_output [''list'', ''chain'', f, t, c] s = ref_listing rs"
  by (simp_all add: ref_output_def)

interpretation ref: nft_kernel ref_env "\<lambda>s. s"
proof
  fix f t c s out s' rs cm
  assume "nft_cmd ref_env [''list'', ''chain'', f, t, c] s = (Inr out, s')"
    and "nft_chains s (f, t, c) = Some rs" "\<forall>r \<in> set rs. clean (snd r)" "plain cm"
  then show "str_contains out (shown cm) \<longleftrightarrow> (\<exists>r \<in> set rs. comment_tok (snd r) = Some (quoted cm))"
    using listing_contains[OF ref_listing_ok, of rs cm]
    by (auto simp: ref_env_def ref_output_list dest!: ref_exec_Inr)
qed (auto simp: ref_env_def ref_output_list intro: ref_listing_ok dest!: ref_exec_Inr ref_exec_Inl)

interpretation ref: reliable_nft ref_env "\<lambda>s. s"
proof
  show "str_contains (err_text e) ''No such file or directory''"
    if "nft_cmd ref_env args w = (Inl e, w')" for args w e w'
    using that by (auto simp: ref_env_def str_contains_def has_prefix_def dest!: ref_exec_Inl)
qed (auto simp: ref_env_def ref_exec_def)

lemma faulty_exec_Inr: "faulty_exec args w = (Inr out, w') \<Longrightarrow> ref_exec args (fst w) = (Inr out, fst w')"
  by (auto simp: faulty_exec_def split: prod.splits list.splits bool.splits)

lemma faulty_exec_Inl: "faulty_exec args w = (Inl e, w') \<Longrightarrow> fst w' = fst w"
  by (auto simp: faulty_exec_def split: prod.splits list.splits bool.splits dest: ref_exec_Inl)

interpretation faulty: nft_kernel faulty_env fst
proof
  fix f t c w out w' rs cm
  assume "nft_cmd faulty_env [''list'', ''chain'', f, t, c] w = (Inr out, w')"
    and "nft_chains (fst w) (f, t, c) = Some rs" "\<forall>r \<in> set rs. clean (snd r)" "plain cm"
  then show "str_contains out (shown cm) \<longleftrightarrow> (\<exists>r \<in> set rs. comment_tok (snd r) = Some (quoted cm))"
    using ref.list_out_plain[of f t c "fst w" out "fst w'" rs cm]
    by (auto simp: faulty_env_def ref_env_def dest: faulty_exec_Inr)
qed (auto simp: faulty_env_def ref_output_list intro: ref_listing_ok dest!: faulty_exec_Inr ref_exec_Inr
      faulty_exec_Inl)

end
