(* ===== verification/NftCmd.thy ===== *)
theory NftCmd
  imports NftKernel
begin

text \<open>
  How the program drives \<open>nft\<close>: \<open>internal/network/nft_cleanup.go\<close> and the rule
  primitives of \<open>internal/network/nft_filter.go\<close> and \<open>internal/network/dnsblock.go\<close>
  (tables and chains, looking for a comment, deleting the rules that carry it).

  The lemmas show that deletion by comment touches only rules that carry the comment, in
  every outcome, and on a kernel that does not fail removes all of them in one round.
\<close>

section \<open>Running a command\<close>

definition runNFTCommand :: "'w netenv \<Rightarrow> string list \<Rightarrow> ('w, string) act" where
  "runNFTCommand E args = (if \<not> sudo_on E
     then failA (Errorf ''nft command skipped: sudo disabled (use_sudo=false)'' [])
     else nft_cmd E args)"

definition extractNFTHandle :: "string \<Rightarrow> string" where
  "extractNFTHandle line = (let parts = str_split line ''# handle '' in
     if length parts < 2 then []
     else (let h = trim_space (parts ! 1);
               handleStr = (case str_index h '' '' of Some idx \<Rightarrow> take idx h | None \<Rightarrow> h)
           in if atoi handleStr = None then [] else handleStr))"

definition isNftNotFound :: "gerr \<Rightarrow> bool" where
  "isNftNotFound e \<longleftrightarrow> str_contains (err_text e) ''No such file'' \<or> str_contains (err_text e) ''does not exist''"

text \<open>The command run for its effect: \<open>_, err := runNFTCommand(args...)\<close>.\<close>

definition nftDo :: "'w netenv \<Rightarrow> string list \<Rightarrow> ('w, unit) act" where
  "nftDo E args = bindA (runNFTCommand E args) (\<lambda>_. retA ())"

section \<open>Tables and chains\<close>

text \<open>The three functions that create a chain differ in family, chain and hook.\<close>

definition ensureCOIChain :: "'w netenv \<Rightarrow> string \<Rightarrow> string \<Rightarrow> string list \<Rightarrow> ('w, unit) act" where
  "ensureCOIChain E family chain hook =
     thenA (wrapA (''failed to create nft table '' @ family @ '' coi'')
              (nftDo E [''add'', ''table'', family, ''coi'']))
     (bindA (tryA (runNFTCommand E [''list'', ''chain'', family, ''coi'', chain])) (\<lambda>r. case r of
          Inr _ \<Rightarrow> retA ()
        | Inl _ \<Rightarrow> wrapA (''failed to create nft chain '' @ family @ '' coi '' @ chain)
            (nftDo E ([''add'', ''chain'', family, ''coi'', chain, ''{'', ''type'', ''filter'', ''hook'', chain,
               ''priority''] @ hook @ ['';'', ''policy'', ''accept'', '';'', ''}'']))))"

definition ensureCOITableAndChain :: "'w netenv \<Rightarrow> ('w, unit) act" where
  "ensureCOITableAndChain E = ensureCOIChain E ''ip'' ''forward'' [''10'']"

definition ensureCOIIP6TableAndChain :: "'w netenv \<Rightarrow> ('w, unit) act" where
  "ensureCOIIP6TableAndChain E = ensureCOIChain E ''ip6'' ''forward'' [''10'']"

definition ensureCOIInputChain :: "'w netenv \<Rightarrow> ('w, unit) act" where
  "ensureCOIInputChain E = ensureCOIChain E ''ip'' ''input'' [''filter'']"

section \<open>Rules by comment\<close>

definition nftRuleExistsWithCommentFamily :: "'w netenv \<Rightarrow> string \<Rightarrow> string \<Rightarrow> ('w, bool) act" where
  "nftRuleExistsWithCommentFamily E family comment =
     bindA (tryA (runNFTCommand E [''list'', ''chain'', family, ''coi'', ''forward''])) (\<lambda>r. case r of
         Inl _ \<Rightarrow> retA False
       | Inr output \<Rightarrow> retA (str_contains output (shown comment)))"

definition nftRuleExistsWithComment :: "'w netenv \<Rightarrow> string \<Rightarrow> ('w, bool) act" where
  "nftRuleExistsWithComment E comment = nftRuleExistsWithCommentFamily E ''ip'' comment"

text \<open>The handles on the lines that show the comment.\<close>

definition commentHandles :: "string \<Rightarrow> string \<Rightarrow> string list" where
  "commentHandles comment output = filter (\<lambda>h. h \<noteq> [])
     (map extractNFTHandle (filter (\<lambda>line. str_contains line (shown comment)) (str_split output [CHR 0x0A])))"

definition nftGetHandlesByCommentFamily :: "'w netenv \<Rightarrow> string \<Rightarrow> string \<Rightarrow> ('w, string list) act" where
  "nftGetHandlesByCommentFamily E family comment =
     bindA (tryA (runNFTCommand E [''-a'', ''list'', ''chain'', family, ''coi'', ''forward''])) (\<lambda>r. case r of
         Inl e \<Rightarrow> if str_contains (err_text e) ''No such file or directory'' \<or>
                     str_contains (err_text e) ''sudo disabled'' then retA [] else failA e
       | Inr output \<Rightarrow> retA (commentHandles comment output))"

definition deleteHandles :: "'w netenv \<Rightarrow> string \<Rightarrow> string \<Rightarrow> string \<Rightarrow> string list \<Rightarrow> ('w, unit) act" where
  "deleteHandles E family table chain hs =
     forA (\<lambda>h. warnA (nftDo E [''delete'', ''rule'', family, table, chain, ''handle'', h])) hs"

text \<open>\<open>n\<close> counts the rounds that are left of \<open>maxRounds = 8\<close>; the pauses between the
  rounds change nothing.\<close>

fun deleteRounds :: "'w netenv \<Rightarrow> string \<Rightarrow> string \<Rightarrow> nat \<Rightarrow> ('w, unit) act" where
  "deleteRounds E family comment 0 = retA ()"
| "deleteRounds E family comment (Suc n) =
     bindA (tryA (nftGetHandlesByCommentFamily E family comment)) (\<lambda>r. case r of
         Inl _ \<Rightarrow> deleteRounds E family comment n
       | Inr handles \<Rightarrow> if length handles = 0 then retA ()
           else thenA (deleteHandles E family ''coi'' ''forward'' handles) (deleteRounds E family comment n))"

definition deleteNFTRulesByCommentFamily :: "'w netenv \<Rightarrow> string \<Rightarrow> string \<Rightarrow> ('w, unit) act" where
  "deleteNFTRulesByCommentFamily E family comment = deleteRounds E family comment 8"

definition deleteNFTRulesByComment :: "'w netenv \<Rightarrow> string \<Rightarrow> ('w, unit) act" where
  "deleteNFTRulesByComment E comment = deleteNFTRulesByCommentFamily E ''ip'' comment"

text \<open>\<open>fmt.Sprintf("comment %q", comment)\<close> is \<open>shown comment\<close> for the comments COI writes.\<close>

definition deleteNFTRulesInChain :: "'w netenv \<Rightarrow> string \<Rightarrow> string \<Rightarrow> string \<Rightarrow> ('w, unit) act" where
  "deleteNFTRulesInChain E table chain comment =
     bindA (tryA (runNFTCommand E [''-a'', ''list'', ''chain'', ''ip'', table, chain])) (\<lambda>r. case r of
         Inl _ \<Rightarrow> retA ()
       | Inr output \<Rightarrow> deleteHandles E ''ip'' table chain (commentHandles comment output))"

definition removeInputRulesForIP :: "'w netenv \<Rightarrow> string \<Rightarrow> ('w, unit) act" where
  "removeInputRulesForIP E containerIP = (if containerIP = [] then retA ()
     else deleteNFTRulesInChain E ''coi'' ''input'' (''coi-'' @ containerIP))"

section \<open>Monitoring rules\<close>

definition monPrefixes :: "string \<Rightarrow> string list" where
  "monPrefixes containerIP = [''NFT_COI['' @ containerIP @ '']'', ''NFT_DNS['' @ containerIP @ '']'',
     ''NFT_SUSPICIOUS['' @ containerIP @ '']'']"

definition deleteNFTRuleByHandle :: "'w netenv \<Rightarrow> string \<Rightarrow> ('w, unit) act" where
  "deleteNFTRuleByHandle E handle =
     nftDo E [''delete'', ''rule'', ''ip'', ''filter'', ''FORWARD'', ''handle'', handle]"

definition CleanupNFTMonitoringRules :: "'w netenv \<Rightarrow> string \<Rightarrow> ('w, unit) act" where
  "CleanupNFTMonitoringRules E containerIP = (if containerIP = [] then retA () else
     bindA (tryA (runNFTCommand E [''-a'', ''list'', ''chain'', ''ip'', ''filter'', ''FORWARD''])) (\<lambda>r. case r of
       Inl e \<Rightarrow> if str_contains (err_text e) ''No such file or directory'' \<or>
                   str_contains (err_text e) ''does not exist'' then retA ()
                else failA (Wrapf ''failed to list rules'' e)
     | Inr output \<Rightarrow> forA (\<lambda>line.
         if \<exists>pre \<in> set (monPrefixes containerIP). str_contains line pre then
           (let handle = extractNFTHandle line in
            if handle \<noteq> [] then wrapA (''failed to delete rule handle '' @ handle) (deleteNFTRuleByHandle E handle)
            else retA ())
         else retA ()) (str_split output [CHR 0x0A])))"

section \<open>Reading a chain back\<close>

text \<open>What follows the marker on a line, up to the closing quote.\<close>

definition commentAfter :: "string \<Rightarrow> string \<Rightarrow> string option" where
  "commentAfter pre line = (case str_index line pre of None \<Rightarrow> None
     | Some idx \<Rightarrow> (let rest = drop (idx + length pre) line in
         map_option (\<lambda>end. take end rest) (str_index rest [CHR 0x22])))"

definition parseCOIIP6RuleContainers :: "string \<Rightarrow> string list" where
  "parseCOIIP6RuleContainers output = dedup_acc {} (filter (\<lambda>name. name \<noteq> [])
     (List.map_filter (commentAfter (''comment '' @ [CHR 0x22] @ ''coi6-'')) (str_split output [CHR 0x0A])))"

definition ListCOIIP6RuleContainers :: "'w netenv \<Rightarrow> ('w, string list) act" where
  "ListCOIIP6RuleContainers E =
     bindA (tryA (runNFTCommand E [''-a'', ''list'', ''chain'', ''ip6'', ''coi'', ''forward''])) (\<lambda>r. case r of
       Inl _ \<Rightarrow> retA [] | Inr output \<Rightarrow> retA (parseCOIIP6RuleContainers output))"

text \<open>The loop of \<open>ListCOIFilterRuleIPs\<close>, with the result map as a function.\<close>

fun filterRuleIPs :: "string list \<Rightarrow> (string \<Rightarrow> string list) \<Rightarrow> (string \<Rightarrow> string list)" where
  "filterRuleIPs [] m = m"
| "filterRuleIPs (line # ls) m = filterRuleIPs ls
     (case commentAfter (''comment '' @ [CHR 0x22] @ ''coi-'') line of
        None \<Rightarrow> m
      | Some ip \<Rightarrow> if ip = ''base'' then m
          else (let h = extractNFTHandle line in if h \<noteq> [] then m(ip := m ip @ [h]) else m))"

definition ListCOIFilterRuleIPs :: "'w netenv \<Rightarrow> ('w, string \<Rightarrow> string list) act" where
  "ListCOIFilterRuleIPs E =
     bindA (tryA (runNFTCommand E [''-a'', ''list'', ''chain'', ''ip'', ''coi'', ''forward''])) (\<lambda>r. case r of
       Inl _ \<Rightarrow> retA (\<lambda>_. []) | Inr output \<Rightarrow> retA (filterRuleIPs (str_split output [CHR 0x0A]) (\<lambda>_. [])))"

section \<open>What deletion by comment does\<close>

declare split_paired_All [simp del] split_paired_Ex [simp del]

definition has_comment :: "string \<Rightarrow> nft_rule \<Rightarrow> bool" where
  "has_comment c r \<longleftrightarrow> comment_tok (snd r) = Some (quoted c)"

text \<open>Every rule of a chain has a comment the listing shows faithfully.\<close>

definition chain_clean :: "chain_id \<Rightarrow> nft_state \<Rightarrow> bool" where
  "chain_clean ch s \<longleftrightarrow> (\<forall>rs. nft_chains s ch = Some rs \<longrightarrow> list_all (\<lambda>r. clean (snd r)) rs)"

text \<open>From \<open>s\<close> to \<open>s'\<close> only rules of \<open>ch\<close> that carry the comment have gone.\<close>

definition pruned :: "chain_id \<Rightarrow> string \<Rightarrow> nft_state \<Rightarrow> nft_state \<Rightarrow> bool" where
  "pruned ch c s s' \<longleftrightarrow> (\<exists>P. (\<forall>r. \<not> has_comment c r \<longrightarrow> P r) \<and>
     s' = s\<lparr>nft_chains := (nft_chains s)(ch := map_option (filter P) (nft_chains s ch))\<rparr>)"

lemma prunedE:
  assumes "pruned ch c s s'"
  obtains P where "\<And>r. \<not> has_comment c r \<Longrightarrow> P r"
    "s' = s\<lparr>nft_chains := (nft_chains s)(ch := map_option (filter P) (nft_chains s ch))\<rparr>"
  using assms unfolding pruned_def by blast

lemma pruned_refl [intro, simp]: "pruned ch c s s"
proof -
  have "map_option (filter (\<lambda>_. True)) (nft_chains s ch) = nft_chains s ch"
    by (cases "nft_chains s ch") auto
  then have "s = s\<lparr>nft_chains := (nft_chains s)(ch := map_option (filter (\<lambda>_. True)) (nft_chains s ch))\<rparr>"
    by simp
  then show ?thesis unfolding pruned_def by (intro exI[of _ "\<lambda>_. True"]) simp
qed

lemma pruned_trans:
  assumes "pruned ch c s t" and "pruned ch c t u"
  shows "pruned ch c s u"
proof -
  obtain P where P: "\<And>r. \<not> has_comment c r \<Longrightarrow> P r"
    "t = s\<lparr>nft_chains := (nft_chains s)(ch := map_option (filter P) (nft_chains s ch))\<rparr>"
    using prunedE[OF assms(1)] by metis
  obtain Q where Q: "\<And>r. \<not> has_comment c r \<Longrightarrow> Q r"
    "u = t\<lparr>nft_chains := (nft_chains t)(ch := map_option (filter Q) (nft_chains t ch))\<rparr>"
    using prunedE[OF assms(2)] by metis
  from P Q have "u = s\<lparr>nft_chains := (nft_chains s)(ch := map_option (filter (\<lambda>r. P r \<and> Q r)) (nft_chains s ch))\<rparr>"
    by (simp add: option.map_comp o_def conj_commute)
  with P(1) Q(1) show ?thesis unfolding pruned_def by (intro exI[of _ "\<lambda>r. P r \<and> Q r"]) blast
qed

lemma has_comment_clean: "has_comment c r \<Longrightarrow> clean (snd r) \<Longrightarrow> plain c"
  by (simp add: has_comment_def clean_quoted)

lemma prunedD:
  assumes "pruned ch c s s'"
  shows "nft_sets s' = nft_sets s" "d \<noteq> ch \<Longrightarrow> nft_chains s' d = nft_chains s d"
    "nft_next s' = nft_next s" "nft_chains s' ch = None \<longleftrightarrow> nft_chains s ch = None"
  using assms by (auto simp: pruned_def)

lemma pruned_chain:
  assumes "pruned ch c s s'" and "nft_chains s ch = Some rs"
  obtains rs' where "nft_chains s' ch = Some rs'" "set rs' \<subseteq> set rs"
    "filter (\<lambda>r. \<not> has_comment c r) rs' = filter (\<lambda>r. \<not> has_comment c r) rs"
proof -
  obtain P where P: "\<And>r. \<not> has_comment c r \<Longrightarrow> P r"
    "s' = s\<lparr>nft_chains := (nft_chains s)(ch := map_option (filter P) (nft_chains s ch))\<rparr>"
    using prunedE[OF assms(1)] by metis
  have "filter (\<lambda>r. \<not> has_comment c r) (filter P rs) = filter (\<lambda>r. \<not> has_comment c r) rs"
    unfolding filter_filter by (rule filter_cong) (auto dest: P(1))
  with P(2) assms(2) that show ?thesis by simp
qed

lemma pruned_wf: "pruned ch c s s' \<Longrightarrow> nft_wf s \<Longrightarrow> nft_wf s'"
  unfolding pruned_def by (cases "nft_chains s ch") (auto simp: nft_wf_filter, auto simp: nft_wf_def)

lemma pruned_clean: "pruned ch c s s' \<Longrightarrow> chain_clean d s \<Longrightarrow> chain_clean d s'"
proof -
  have f: "list_all Q rs \<Longrightarrow> list_all Q (filter P rs)" for Q P and rs :: "nft_rule list" by (induction rs) auto
  show "pruned ch c s s' \<Longrightarrow> chain_clean d s \<Longrightarrow> chain_clean d s'"
    by (erule prunedE) (auto simp: chain_clean_def f)
qed

text \<open>Deleting one rule by its handle.\<close>

lemma delete_pruned:
  assumes "nft_doc [''delete'', ''rule'', f, t, cn, ''handle'', h] s = Some s'"
    and "\<And>rs r. nft_chains s (f, t, cn) = Some rs \<Longrightarrow> r \<in> set rs \<Longrightarrow> itoa (fst r) = h \<Longrightarrow> has_comment c r"
  shows "pruned (f, t, cn) c s s'"
proof -
  obtain rs where rs: "nft_chains s (f, t, cn) = Some rs"
      "s' = s\<lparr>nft_chains := (nft_chains s)((f, t, cn) \<mapsto> filter (\<lambda>r. itoa (fst r) \<noteq> h) rs)\<rparr>"
    using assms(1) by (auto simp: nft_doc_delete_rule split: option.splits if_splits)
  have "filter (\<lambda>r. itoa (fst r) \<noteq> h) rs = filter (\<lambda>r. \<not> has_comment c r \<or> itoa (fst r) \<noteq> h) rs"
    by (rule filter_cong) (use assms(2)[OF rs(1)] in auto)
  with rs show ?thesis
    unfolding pruned_def by (intro exI[of _ "\<lambda>r. \<not> has_comment c r \<or> itoa (fst r) \<noteq> h"]) auto
qed

lemma extractNFTHandle_line:
  assumes "str_split l ''# handle '' = [body, itoa n]"
  shows "extractNFTHandle l = (if int n < 2 ^ 63 then itoa n else [])"
proof -
  have "str_index (itoa n) '' '' = None"
    using itoa_notin[of "CHR '' ''" n] by (simp add: str_index_char_None is_digit_def)
  with assms show ?thesis by (simp add: extractNFTHandle_def Let_def atoi_digits)
qed

lemma commentHandles_listing:
  assumes "listing rs out" and "plain c"
  shows "commentHandles c out = map (\<lambda>r. itoa (fst r)) (filter (\<lambda>r. has_comment c r \<and> int (fst r) < 2 ^ 63) rs)"
proof -
  obtain hdr ls ftr where o: "str_split out [CHR 0x0A] = hdr @ ls @ ftr" "list_all2 line_shows rs ls"
      "\<And>l. l \<in> set hdr \<union> set ftr \<Longrightarrow> \<not> str_contains l ''comment ''"
    using assms(1) by (auto simp: listing_def)
  have no: "filter (\<lambda>line. str_contains line (shown c)) hdr = []"
      "filter (\<lambda>line. str_contains line (shown c)) ftr = []"
    using o(3) contains_mono[of _ "''comment ''" "quoted c"] by (auto simp: shown_def filter_empty_conv)
  have "filter (\<lambda>h. h \<noteq> []) (map extractNFTHandle (filter (\<lambda>line. str_contains line (shown c)) ls))
      = map (\<lambda>r. itoa (fst r)) (filter (\<lambda>r. has_comment c r \<and> int (fst r) < 2 ^ 63) rs)"
    using o(2) assms(2)
    by (induction rule: list_all2_induct)
      (auto simp: line_shows_def has_comment_def extractNFTHandle_line split: if_splits)
  with o(1) no show ?thesis by (simp add: commentHandles_def)
qed

lemma commentHandles_set:
  "listing rs out \<Longrightarrow> plain c \<Longrightarrow> h \<in> set (commentHandles c out) \<Longrightarrow>
   \<exists>r \<in> set rs. itoa (fst r) = h \<and> has_comment c r"
  by (auto simp: commentHandles_listing)

lemma deleteHandles_result: "deleteHandles E f t cn hs w = (r, w') \<Longrightarrow> r = Inr ()"
proof (induction hs arbitrary: w)
  case (Cons h hs)
  then show ?case by (auto simp: deleteHandles_def thenA_def bindA_def warnA_def split: prod.splits)
qed (simp add: deleteHandles_def)

context nft_kernel
begin

lemma run_step: "runNFTCommand E args w = (r, w') \<Longrightarrow> view w' = view w \<or> nft_doc args (view w) = Some (view w')"
  by (auto simp: runNFTCommand_def split: if_splits dest: cmd_step)

lemma run_ok: "runNFTCommand E args w = (Inr out, w') \<Longrightarrow> nft_doc args (view w) = Some (view w')"
  by (auto simp: runNFTCommand_def split: if_splits dest: cmd_ok)

lemma nftDo_step: "nftDo E args w = (r, w') \<Longrightarrow> view w' = view w \<or> nft_doc args (view w) = Some (view w')"
  using run_step[of args w] by (cases "runNFTCommand E args w") (auto simp: nftDo_def bindA_def split: sum.splits)

lemma nftDo_ok: "nftDo E args w = (Inr u, w') \<Longrightarrow> nft_doc args (view w) = Some (view w')"
  by (auto simp: nftDo_def act_Inr dest: run_ok)

lemma nftDo_wf: "keeps (\<lambda>w. nft_wf (view w)) (nftDo E args)"
  by (rule keepsI) (use nftDo_step nft_doc_wf in fastforce)

text \<open>Listing commands change nothing.\<close>

lemma list_view:
  "runNFTCommand E [''list'', ''chain'', f, t, c] w = (r, w') \<Longrightarrow> view w' = view w"
  "runNFTCommand E [''-a'', ''list'', ''chain'', f, t, c] w = (r, w') \<Longrightarrow> view w' = view w"
  using run_step[of _ w r w'] by (fastforce simp: nft_doc_list split: if_splits)+

lemma list_view_snd [simp]:
  "view (snd (runNFTCommand E [''list'', ''chain'', f, t, c] w)) = view w"
  "view (snd (runNFTCommand E [''-a'', ''list'', ''chain'', f, t, c] w)) = view w"
  using list_view[OF surjective_pairing] by blast+

lemma list_listing:
  assumes "runNFTCommand E [''-a'', ''list'', ''chain'', f, t, c] w = (Inr out, w')"
    and "nft_chains (view w) (f, t, c) = Some rs" and "chain_clean (f, t, c) (view w)"
  shows "listing rs out"
proof -
  have "nft_cmd E [''-a'', ''list'', ''chain'', f, t, c] w = (Inr out, w')"
    using assms(1) by (auto simp: runNFTCommand_def split: if_splits)
  with list_out assms(2,3) show ?thesis by (simp add: chain_clean_def list_all_iff)
qed

lemma list_exists:
  assumes "runNFTCommand E [''-a'', ''list'', ''chain'', f, t, c] w = (Inr out, w')"
  obtains rs where "nft_chains (view w) (f, t, c) = Some rs"
  using run_ok[OF assms] by (auto simp: nft_doc_list split: option.splits if_splits)

lemma exists_view:
  "nftRuleExistsWithCommentFamily E f c w = (r, w') \<Longrightarrow> view w' = view w"
  by (auto simp: nftRuleExistsWithCommentFamily_def bindA_split tryA_def split: sum.splits prod.splits dest: list_view)

text \<open>A rule that is there is found, unless the listing failed.\<close>

lemma exists_true:
  assumes "nftRuleExistsWithCommentFamily E f c w = (Inr True, w')" and "chain_clean (f, ''coi'', ''forward'') (view w)"
    and "plain c"
  obtains rs r where "nft_chains (view w) (f, ''coi'', ''forward'') = Some rs" "r \<in> set rs" "has_comment c r"
proof -
  obtain out w1 where o: "runNFTCommand E [''list'', ''chain'', f, ''coi'', ''forward''] w = (Inr out, w1)"
      "str_contains out (shown c)"
    using assms(1) by (auto simp: nftRuleExistsWithCommentFamily_def bindA_def tryA_def split: prod.splits sum.splits)
  from run_ok[OF o(1)] obtain rs where rs: "nft_chains (view w) (f, ''coi'', ''forward'') = Some rs"
    by (auto simp: nft_doc_list split: option.splits if_splits)
  have "nft_cmd E [''list'', ''chain'', f, ''coi'', ''forward''] w = (Inr out, w1)"
    using o(1) by (auto simp: runNFTCommand_def split: if_splits)
  from list_out_plain[OF this rs _ assms(3)] assms(2) rs o(2) that show thesis
    by (auto simp: chain_clean_def list_all_iff has_comment_def)
qed

section \<open>Deletion by comment in every outcome\<close>

lemma deleteHandles_pruned:
  "deleteHandles E f t cn hs w = (r, w') \<Longrightarrow>
   (\<And>rs x. nft_chains (view w) (f, t, cn) = Some rs \<Longrightarrow> x \<in> set rs \<Longrightarrow> itoa (fst x) \<in> set hs \<Longrightarrow> has_comment c x) \<Longrightarrow>
   r = Inr () \<and> pruned (f, t, cn) c (view w) (view w')"
proof (induction hs arbitrary: w)
  case (Cons h hs)
  obtain q w1 where d: "nftDo E [''delete'', ''rule'', f, t, cn, ''handle'', h] w = (q, w1)" by force
  with Cons.prems(1) have rest: "deleteHandles E f t cn hs w1 = (r, w')"
    by (simp add: deleteHandles_def thenA_def bindA_def warnA_def)
  have p: "pruned (f, t, cn) c (view w) (view w1)"
    using nftDo_step[OF d] delete_pruned Cons.prems(2) by auto
  have "r = Inr () \<and> pruned (f, t, cn) c (view w1) (view w')"
  proof (rule Cons.IH[OF rest])
    fix rs x
    assume x: "nft_chains (view w1) (f, t, cn) = Some rs" "x \<in> set rs" "itoa (fst x) \<in> set hs"
    obtain rs0 where rs0: "nft_chains (view w) (f, t, cn) = Some rs0"
      using prunedD(4)[OF p] x(1) by (cases "nft_chains (view w) (f, t, cn)") auto
    from pruned_chain[OF p rs0] x(1,2) have "x \<in> set rs0" by (metis option.inject subsetD)
    with Cons.prems(2)[OF rs0] x(3) show "has_comment c x" by simp
  qed
  with p pruned_trans show ?case by blast
qed (simp add: deleteHandles_def)

lemma getHandles_sound:
  assumes "nftGetHandlesByCommentFamily E f c w = (r, w')" and "chain_clean (f, ''coi'', ''forward'') (view w)"
    and "plain c"
  shows "view w' = view w \<and> (\<forall>hs h. r = Inr hs \<longrightarrow> h \<in> set hs \<longrightarrow>
    (\<exists>rs x. nft_chains (view w) (f, ''coi'', ''forward'') = Some rs \<and> x \<in> set rs \<and> itoa (fst x) = h \<and> has_comment c x))"
proof -
  obtain q w1 where q: "runNFTCommand E [''-a'', ''list'', ''chain'', f, ''coi'', ''forward''] w = (q, w1)" by force
  show ?thesis
  proof (cases q)
    case (Inl e)
    with q assms(1) list_view(2)[OF q] show ?thesis
      by (auto simp: nftGetHandlesByCommentFamily_def bindA_def tryA_def split: if_splits)
  next
    case (Inr out)
    with q obtain rs where rs: "nft_chains (view w) (f, ''coi'', ''forward'') = Some rs" using list_exists by blast
    with q Inr list_listing assms(2) have l: "listing rs out" by blast
    from q Inr assms(1) have "r = Inr (commentHandles c out)" "w' = w1"
      by (auto simp: nftGetHandlesByCommentFamily_def bindA_def tryA_def)
    with list_view(2)[OF q] rs commentHandles_set[OF l assms(3)] show ?thesis by fastforce
  qed
qed

text \<open>Two rules of a chain with the same handle are the same rule.\<close>

lemma handle_unique:
  assumes "nft_wf s" "nft_chains s ch = Some rs" "x \<in> set rs" "y \<in> set rs" "itoa (fst x) = itoa (fst y)"
  shows "x = y"
  using nft_wfD(1)[OF assms(1,2)] assms(3-5) by (simp add: itoa_inj) (metis eq_key_imp_eq_value prod.collapse)

lemma deleteRounds_pruned:
  "deleteRounds E f c n w = (r, w') \<Longrightarrow> nft_wf (view w) \<Longrightarrow> chain_clean (f, ''coi'', ''forward'') (view w) \<Longrightarrow> plain c \<Longrightarrow>
   r = Inr () \<and> pruned (f, ''coi'', ''forward'') c (view w) (view w')"
proof (induction n arbitrary: w)
  case (Suc n)
  obtain q w1 where q: "nftGetHandlesByCommentFamily E f c w = (q, w1)" by force
  note g = getHandles_sound[OF q Suc.prems(3,4)]
  show ?case
  proof (cases q)
    case (Inl e)
    with q Suc.prems(1) have "deleteRounds E f c n w1 = (r, w')" by (simp add: bindA_def tryA_def)
    with Suc.IH[of w1] Suc.prems g show ?thesis by simp
  next
    case (Inr hs)
    show ?thesis
    proof (cases "hs = []")
      case True
      with q Inr Suc.prems(1) g show ?thesis by (simp add: bindA_def tryA_def)
    next
      case False
      obtain w2 z where z: "deleteHandles E f ''coi'' ''forward'' hs w1 = (z, w2)" by force
      have zp: "z = Inr () \<and> pruned (f, ''coi'', ''forward'') c (view w1) (view w2)"
        using z
      proof (rule deleteHandles_pruned)
        fix rs x
        assume x: "nft_chains (view w1) (f, ''coi'', ''forward'') = Some rs" "x \<in> set rs" "itoa (fst x) \<in> set hs"
        with g Inr obtain y where "y \<in> set rs" "itoa (fst y) = itoa (fst x)" "has_comment c y" by fastforce
        moreover have "nft_chains (view w) (f, ''coi'', ''forward'') = Some rs" using x(1) g by simp
        ultimately show "has_comment c x" using handle_unique[OF Suc.prems(2) _ x(2)] by metis
      qed
      have p2: "pruned (f, ''coi'', ''forward'') c (view w) (view w2)" using zp g by simp
      have "deleteRounds E f c n w2 = (r, w')"
        using Suc.prems(1) q Inr False z zp by (simp add: bindA_def tryA_def thenA_def)
      from Suc.IH[OF this pruned_wf[OF p2 Suc.prems(2)] pruned_clean[OF p2 Suc.prems(3)] Suc.prems(4)]
      show ?thesis using pruned_trans[OF p2] by blast
    qed
  qed
qed simp

lemma deleteInChain_pruned:
  assumes "deleteNFTRulesInChain E t cn c w = (r, w')" and "nft_wf (view w)" and "chain_clean (''ip'', t, cn) (view w)"
    and "plain c"
  shows "r = Inr () \<and> pruned (''ip'', t, cn) c (view w) (view w')"
proof -
  obtain q w1 where q: "runNFTCommand E [''-a'', ''list'', ''chain'', ''ip'', t, cn] w = (q, w1)" by force
  note v = list_view(2)[OF q]
  show ?thesis
  proof (cases q)
    case (Inl e)
    with q assms(1) v show ?thesis by (simp add: deleteNFTRulesInChain_def bindA_def tryA_def)
  next
    case (Inr out)
    with q obtain rs where rs: "nft_chains (view w) (''ip'', t, cn) = Some rs" using list_exists by blast
    with q Inr list_listing assms(3) have l: "listing rs out" by blast
    from q Inr assms(1) have "deleteHandles E ''ip'' t cn (commentHandles c out) w1 = (r, w')"
      by (simp add: deleteNFTRulesInChain_def bindA_def tryA_def)
    then have "r = Inr () \<and> pruned (''ip'', t, cn) c (view w1) (view w')"
    proof (rule deleteHandles_pruned)
      fix rs' x
      assume x: "nft_chains (view w1) (''ip'', t, cn) = Some rs'" "x \<in> set rs'"
        "itoa (fst x) \<in> set (commentHandles c out)"
      from commentHandles_set[OF l assms(4) x(3)] obtain y where "y \<in> set rs" "itoa (fst y) = itoa (fst x)" "has_comment c y"
        by blast
      moreover have "rs' = rs" using x(1) rs v by simp
      ultimately show "has_comment c x" using handle_unique[OF assms(2) rs] x(2) by metis
    qed
    with v show ?thesis by simp
  qed
qed

end

section \<open>Deletion by comment on a kernel that does not fail\<close>

text \<open>Handles the program can read: \<open>strconv.Atoi\<close> reads 64-bit integers.\<close>

definition handles_fit :: "nft_state \<Rightarrow> bool" where
  "handles_fit s \<longleftrightarrow> int (nft_next s) \<le> 2 ^ 63"

definition gone :: "chain_id \<Rightarrow> string \<Rightarrow> nft_state \<Rightarrow> bool" where
  "gone ch c s \<longleftrightarrow> (\<forall>rs. nft_chains s ch = Some rs \<longrightarrow> list_all (\<lambda>r. \<not> has_comment c r) rs)"

text \<open>A pruned chain without the comment is the chain with its other rules.\<close>

lemma pruned_gone:
  assumes "pruned ch c s s'" and "gone ch c s'"
  shows "s' = s\<lparr>nft_chains := (nft_chains s)(ch := map_option (filter (\<lambda>r. \<not> has_comment c r)) (nft_chains s ch))\<rparr>"
proof -
  obtain P where P: "\<And>r. \<not> has_comment c r \<Longrightarrow> P r"
    "s' = s\<lparr>nft_chains := (nft_chains s)(ch := map_option (filter P) (nft_chains s ch))\<rparr>"
    using prunedE[OF assms(1)] by metis
  have "filter P rs = filter (\<lambda>r. \<not> has_comment c r) rs" if "nft_chains s ch = Some rs" for rs
  proof (rule filter_cong)
    fix x
    assume x: "x \<in> set rs"
    have "list_all (\<lambda>y. \<not> has_comment c y) (filter P rs)"
      using assms(2) that P(2) by (simp add: gone_def)
    then have "P x \<Longrightarrow> \<not> has_comment c x" using x by (simp only: list_all_iff set_filter) blast
    with P(1)[of x] show "P x \<longleftrightarrow> \<not> has_comment c x" by blast
  qed simp
  then have "map_option (filter P) (nft_chains s ch) = map_option (filter (\<lambda>r. \<not> has_comment c r)) (nft_chains s ch)"
    by (cases "nft_chains s ch") auto
  with P(2) show ?thesis by simp
qed

lemma gone_None: "nft_chains s ch = None \<Longrightarrow> gone ch c s"
  by (simp add: gone_def)

lemma gone_pruned:
  assumes "gone ch c s" and "pruned ch c s s'"
  shows "gone ch c s'"
proof (cases "nft_chains s ch")
  case None
  then show ?thesis using prunedD(4)[OF assms(2)] gone_None by blast
next
  case (Some rs)
  from pruned_chain[OF assms(2) Some] obtain rs' where "nft_chains s' ch = Some rs'" "set rs' \<subseteq> set rs" by metis
  with assms(1) Some show ?thesis by (fastforce simp: gone_def list_all_iff)
qed

context reliable_nft
begin

lemma run_total: "nft_doc args (view w) = Some s \<Longrightarrow> \<exists>out w'. runNFTCommand E args w = (Inr out, w') \<and> view w' = s"
  using total[of args w] sudo cmd_ok by (fastforce simp: runNFTCommand_def)

lemma nftDo_total: "nft_doc args (view w) = Some s \<Longrightarrow> \<exists>w'. nftDo E args w = (Inr (), w') \<and> view w' = s"
  using run_total[of args w s] by (fastforce simp: nftDo_def act_Inr)

lemma run_refused: "nft_doc args (view w) = None \<Longrightarrow>
    \<exists>e w'. runNFTCommand E args w = (Inl e, w') \<and> view w' = view w \<and>
      str_contains (err_text e) ''No such file or directory''"
  using run_step[of args w] run_ok[of args w] absent sudo
  by (cases "runNFTCommand E args w"; cases "fst (runNFTCommand E args w)")
    (auto simp: runNFTCommand_def)

lemma deleteHandles_total:
  "deleteHandles E f t cn hs w = (r, w') \<Longrightarrow> nft_wf (view w) \<Longrightarrow> nft_chains (view w) (f, t, cn) = Some rs \<Longrightarrow>
   view w' = (view w)\<lparr>nft_chains := (nft_chains (view w))((f, t, cn) \<mapsto> filter (\<lambda>r. itoa (fst r) \<notin> set hs) rs)\<rparr>"
proof (induction hs arbitrary: w rs)
  case Nil
  then show ?case by (simp add: deleteHandles_def map_upd_triv)
next
  case (Cons h hs)
  obtain q w1 where d: "nftDo E [''delete'', ''rule'', f, t, cn, ''handle'', h] w = (q, w1)" by force
  with Cons.prems(1) have rest: "deleteHandles E f t cn hs w1 = (r, w')"
    by (simp add: deleteHandles_def thenA_def bindA_def warnA_def)
  have v: "view w1 = (view w)\<lparr>nft_chains := (nft_chains (view w))((f, t, cn) \<mapsto> filter (\<lambda>r. itoa (fst r) \<noteq> h) rs)\<rparr>"
  proof (cases "\<exists>r \<in> set rs. itoa (fst r) = h")
    case True
    with Cons.prems(3) have "nft_doc [''delete'', ''rule'', f, t, cn, ''handle'', h] (view w) =
        Some ((view w)\<lparr>nft_chains := (nft_chains (view w))((f, t, cn) \<mapsto> filter (\<lambda>r. itoa (fst r) \<noteq> h) rs)\<rparr>)"
      by (simp add: nft_doc_delete_rule)
    from nftDo_total[OF this] d show ?thesis by simp
  next
    case False
    with Cons.prems(3) have "nft_doc [''delete'', ''rule'', f, t, cn, ''handle'', h] (view w) = None"
      by (simp add: nft_doc_delete_rule)
    with nftDo_step[OF d] have "view w1 = view w" by simp
    moreover have "filter (\<lambda>r. itoa (fst r) \<noteq> h) rs = rs" using False by (simp add: filter_id_conv)
    ultimately show ?thesis using Cons.prems(3) by (simp add: map_upd_triv)
  qed
  have wf1: "nft_wf (view w1)" using keepsD[OF nftDo_wf d] Cons.prems(2) by blast
  have c1: "nft_chains (view w1) (f, t, cn) = Some (filter (\<lambda>r. itoa (fst r) \<noteq> h) rs)"
    unfolding v by simp
  have fe: "filter (\<lambda>r. itoa (fst r) \<notin> set hs) (filter (\<lambda>r. itoa (fst r) \<noteq> h) rs) =
      filter (\<lambda>r. itoa (fst r) \<notin> set (h # hs)) rs"
    unfolding filter_filter by (rule filter_cong) auto
  show ?case unfolding Cons.IH[OF rest wf1 c1] fe by (simp only: v) (simp add: fun_upd_def cong: if_cong)
qed

lemma commentHandles_gone:
  assumes "listing rs out" and "plain c" and "nft_wf s" and "handles_fit s" and "nft_chains s ch = Some rs"
  shows "filter (\<lambda>r. itoa (fst r) \<notin> set (commentHandles c out)) rs = filter (\<lambda>r. \<not> has_comment c r) rs"
proof (rule filter_cong)
  fix x
  assume x: "x \<in> set rs"
  have b: "int (fst y) < 2 ^ 63" if "y \<in> set rs" for y
    using nft_wfD(2)[OF assms(3,5) that] assms(4) by (simp add: handles_fit_def)
  have "itoa (fst x) \<in> set (commentHandles c out) \<longleftrightarrow> (\<exists>y \<in> set rs. has_comment c y \<and> itoa (fst x) = itoa (fst y))"
    unfolding commentHandles_listing[OF assms(1,2)] using b by auto
  with x handle_unique[OF assms(3,5)] show "itoa (fst x) \<notin> set (commentHandles c out) \<longleftrightarrow> \<not> has_comment c x"
    by metis
qed simp

lemma deleteRounds_gone:
  assumes "deleteRounds E f c (Suc n) w = (r, w')" and "nft_wf (view w)" and "handles_fit (view w)"
    and "chain_clean (f, ''coi'', ''forward'') (view w)" and "plain c"
  shows "gone (f, ''coi'', ''forward'') c (view w')"
proof (cases "nft_chains (view w) (f, ''coi'', ''forward'')")
  case None
  then show ?thesis
    using deleteRounds_pruned[OF assms(1,2,4,5)] prunedD(4)[of "(f, ''coi'', ''forward'')" c "view w" "view w'"]
    by (simp add: gone_None)
next
  case (Some rs)
  then have "nft_doc [''-a'', ''list'', ''chain'', f, ''coi'', ''forward''] (view w) = Some (view w)"
    by (simp add: nft_doc_list)
  from run_total[OF this] obtain out w1 where
    q: "runNFTCommand E [''-a'', ''list'', ''chain'', f, ''coi'', ''forward''] w = (Inr out, w1)" "view w1 = view w" by blast
  have l: "listing rs out" using list_listing[OF q(1) Some assms(4)] .
  note cg = commentHandles_gone[OF l assms(5,2,3) Some]
  show ?thesis
  proof (cases "commentHandles c out = []")
    case True
    with q assms(1) have "w' = w1"
      by (auto simp: nftGetHandlesByCommentFamily_def bindA_def tryA_def)
    moreover have "filter (\<lambda>r. \<not> has_comment c r) rs = rs" using cg True by simp
    ultimately show ?thesis using Some q(2) by (simp add: gone_def list_all_iff filter_id_conv)
  next
    case False
    obtain z w2 where z: "deleteHandles E f ''coi'' ''forward'' (commentHandles c out) w1 = (z, w2)" by force
    have v2: "view w2 = (view w)\<lparr>nft_chains := (nft_chains (view w))((f, ''coi'', ''forward'') \<mapsto> filter (\<lambda>r. \<not> has_comment c r) rs)\<rparr>"
      using deleteHandles_total[OF z] q(2) assms(2) Some cg by simp
    have "z = Inr ()"
      using z by (rule deleteHandles_result)
    with q False assms(1) z have rest: "deleteRounds E f c n w2 = (r, w')"
      by (simp add: nftGetHandlesByCommentFamily_def bindA_def tryA_def thenA_def)
    have "pruned (f, ''coi'', ''forward'') c (view w2) (view w')"
      using deleteRounds_pruned[OF rest _ _ assms(5)] v2 assms(2,4) nft_wf_filter[OF assms(2) Some]
      by (auto simp: chain_clean_def list_all_iff Some)
    moreover have "gone (f, ''coi'', ''forward'') c (view w2)" by (simp add: v2 gone_def list_all_iff)
    ultimately show ?thesis by (rule gone_pruned[rotated])
  qed
qed

lemma deleteInChain_gone:
  assumes "deleteNFTRulesInChain E t cn c w = (r, w')" and "nft_wf (view w)" and "handles_fit (view w)"
    and "chain_clean (''ip'', t, cn) (view w)" and "plain c"
  shows "gone (''ip'', t, cn) c (view w')"
proof (cases "nft_chains (view w) (''ip'', t, cn)")
  case None
  then show ?thesis
    using deleteInChain_pruned[OF assms(1,2,4,5)] prunedD(4)[of "(''ip'', t, cn)" c "view w" "view w'"]
    by (simp add: gone_None)
next
  case (Some rs)
  then have "nft_doc [''-a'', ''list'', ''chain'', ''ip'', t, cn] (view w) = Some (view w)"
    by (simp add: nft_doc_list)
  from run_total[OF this] obtain out w1 where
    q: "runNFTCommand E [''-a'', ''list'', ''chain'', ''ip'', t, cn] w = (Inr out, w1)" "view w1 = view w" by blast
  have l: "listing rs out" using list_listing[OF q(1) Some assms(4)] .
  from q assms(1) have "deleteHandles E ''ip'' t cn (commentHandles c out) w1 = (r, w')"
    by (simp add: deleteNFTRulesInChain_def bindA_def tryA_def)
  from deleteHandles_total[OF this] q(2) assms(2) Some commentHandles_gone[OF l assms(5,2,3) Some]
  show ?thesis by (simp add: gone_def list_all_iff)
qed

end

end
