(* ===== verification/NftVerdict.thy ===== *)
theory NftVerdict
  imports NftKernel
begin

text \<open>
  What the rules the sources emit mean: the documented reading of \<open>nft\<close>'s rule language,
  as far as the sources use it. A rule is a sequence of matches and a verdict; it applies
  to a packet when all its matches do. A chain is read in order and the first rule that
  applies decides; a packet no rule decides takes the chain's policy, accept.
\<close>

section \<open>Packets\<close>

datatype proto = TCP | UDP | ICMP nat | OtherProto nat

record packet =
  pkt_iif :: string
  pkt_src :: ip4
  pkt_dst :: ip4
  pkt_proto :: proto
  pkt_dport :: nat
  pkt_tracked :: bool \<comment> \<open>conntrack state established or related\<close>
  pkt_in_rate :: bool \<comment> \<open>a \<open>limit\<close> has not been used up\<close>

datatype verdict = Accept | Reject | Drop

definition l4 :: "packet \<Rightarrow> bool" where
  "l4 p \<longleftrightarrow> pkt_proto p = TCP \<or> pkt_proto p = UDP"

section \<open>Addresses, ports and set elements\<close>

text \<open>An address or a network, as written after \<open>saddr\<close> and \<open>daddr\<close> and in sets.\<close>

definition addr_has :: "string \<Rightarrow> ip4 \<Rightarrow> bool" where
  "addr_has s x = (case net_ParseCIDR s of
     Some (_, Net4 a n) \<Rightarrow> in_net4 n a x
   | _ \<Rightarrow> parse_v4 s = Some x)"

text \<open>An element of an address set, possibly with a \<open>timeout\<close> after it.\<close>

definition elem_has :: "string \<Rightarrow> ip4 \<Rightarrow> bool" where
  "elem_has e x = addr_has (fst (str_cut e '' '')) x"

text \<open>A port or a range of ports.\<close>

definition port_has :: "string \<Rightarrow> nat \<Rightarrow> bool" where
  "port_has s p = (case str_cut s ''-'' of (lo, hi, found) \<Rightarrow>
     if found then (case (atoi lo, atoi hi) of (Some l, Some h) \<Rightarrow> l \<le> int p \<and> int p \<le> h | _ \<Rightarrow> False)
     else atoi s = Some (int p))"

text \<open>An element \<open>addr . ports\<close> of a concatenated set.\<close>

definition tuple_has :: "string \<Rightarrow> ip4 \<Rightarrow> nat \<Rightarrow> bool" where
  "tuple_has e x p = (case str_split e '' '' of
     a # dot # pr # _ \<Rightarrow> dot = ''.'' \<and> addr_has a x \<and> port_has pr p
   | _ \<Rightarrow> False)"

type_synonym set_env = "string \<Rightarrow> string list option"

definition set_has :: "set_env \<Rightarrow> string \<Rightarrow> ip4 \<Rightarrow> bool" where
  "set_has S name x = (case S name of None \<Rightarrow> False | Some es \<Rightarrow> \<exists>e \<in> set es. elem_has e x)"

definition tuple_set_has :: "set_env \<Rightarrow> string \<Rightarrow> ip4 \<Rightarrow> nat \<Rightarrow> bool" where
  "tuple_set_has S name x p = (case S name of None \<Rightarrow> False | Some es \<Rightarrow> \<exists>e \<in> set es. tuple_has e x p)"

text \<open>The operand of \<open>saddr\<close> and \<open>daddr\<close>: a literal, or \<open>@name\<close> of a set.\<close>

definition operand_has :: "set_env \<Rightarrow> string \<Rightarrow> ip4 \<Rightarrow> bool" where
  "operand_has S s x = (if has_prefix s ''@'' then set_has S (tl s) x else addr_has s x)"

section \<open>Rules\<close>

datatype nmatch = SAddr string | DAddr string | DAddrPort string | IifName string | L4TcpUdp
  | ThPorts "nat list" | UdpPorts "nat list" | IcmpEcho | LimitRate | CtEstRel

text \<open>The ports after \<open>dport\<close>: one number, or \<open>{ 80, 443 }\<close> as separate tokens.\<close>

definition port_toks :: "string list \<Rightarrow> nat list" where
  "port_toks ts = map (\<lambda>t. case atoi (trim_suffix t '','') of Some n \<Rightarrow> nat n | None \<Rightarrow> 0) ts"

definition take_ports :: "string list \<Rightarrow> nat list \<times> string list" where
  "take_ports ts = (case ts of [] \<Rightarrow> ([], [])
     | t # ts' \<Rightarrow> if t = ''{'' then (port_toks (takeWhile (\<lambda>u. u \<noteq> ''}'') ts'),
                              tl (dropWhile (\<lambda>u. u \<noteq> ''}'') ts'))
                else (port_toks [t], ts'))"

definition take_match :: "string list \<Rightarrow> (nmatch \<times> string list) option" where
  "take_match toks = (case toks of
     a # b # c # ts \<Rightarrow>
       if a = ''ip'' \<and> b = ''saddr'' then Some (SAddr c, ts)
       else if a = ''ip'' \<and> b = ''daddr'' \<and> c = ''.'' then
         (case ts of t1 # t2 # s # ts' \<Rightarrow>
            if t1 = ''th'' \<and> t2 = ''dport'' then Some (DAddrPort s, ts') else None
          | _ \<Rightarrow> None)
       else if a = ''ip'' \<and> b = ''daddr'' then Some (DAddr c, ts)
       else if a = ''meta'' \<and> b = ''l4proto'' \<and> take 4 (c # ts) = [''{'', ''tcp,'', ''udp'', ''}''] then
         Some (L4TcpUdp, drop 3 ts)
       else if a = ''th'' \<and> b = ''dport'' then
         Some (ThPorts (fst (take_ports (c # ts))), snd (take_ports (c # ts)))
       else if a = ''udp'' \<and> b = ''dport'' then
         Some (UdpPorts (fst (take_ports (c # ts))), snd (take_ports (c # ts)))
       else if a = ''icmp'' \<and> b = ''type'' \<and> c = ''echo-request'' then Some (IcmpEcho, ts)
       else if a = ''limit'' \<and> b = ''rate'' then Some (LimitRate, ts)
       else if a = ''ct'' \<and> b = ''state'' \<and> c = ''established,related'' then Some (CtEstRel, ts)
       else if a = ''iifname'' then Some (IifName b, c # ts)
       else None
   | _ \<Rightarrow> None)"

definition match_ok :: "set_env \<Rightarrow> packet \<Rightarrow> nmatch \<Rightarrow> bool" where
  "match_ok S p m = (case m of
     SAddr s \<Rightarrow> operand_has S s (pkt_src p)
   | DAddr s \<Rightarrow> operand_has S s (pkt_dst p)
   | DAddrPort s \<Rightarrow> l4 p \<and> tuple_set_has S (tl s) (pkt_dst p) (pkt_dport p)
   | IifName i \<Rightarrow> pkt_iif p = i
   | L4TcpUdp \<Rightarrow> l4 p
   | ThPorts ps \<Rightarrow> l4 p \<and> pkt_dport p \<in> set ps
   | UdpPorts ps \<Rightarrow> pkt_proto p = UDP \<and> pkt_dport p \<in> set ps
   | IcmpEcho \<Rightarrow> pkt_proto p = ICMP 8
   | LimitRate \<Rightarrow> pkt_in_rate p
   | CtEstRel \<Rightarrow> pkt_tracked p)"

lemma take_ports_length: "length (snd (take_ports (c # ts))) \<le> length ts"
proof -
  have "length (dropWhile P ts) \<le> length ts" for P by (rule length_dropWhile_le)
  then show ?thesis by (auto simp: take_ports_def intro: le_trans[OF diff_le_self])
qed

lemma take_match_length:
  assumes "take_match toks = Some (m, ts)"
  shows "length ts < length toks"
proof -
  obtain a b c us where t: "toks = a # b # c # us"
    using assms by (auto simp: take_match_def split: list.splits)
  have "length (snd (take_ports (c # us))) < length toks"
    using take_ports_length[of c us] by (simp add: t)
  moreover have "length ts < length toks"
    if "us = t1 # t2 # s # us'" "ts = us'" for t1 t2 s us' using that by (simp add: t)
  ultimately show ?thesis using assms
    by (auto simp: take_match_def t split: if_splits list.splits)
qed

definition verdict_tok :: "string \<Rightarrow> verdict option" where
  "verdict_tok t = (if t = ''accept'' then Some Accept else if t = ''reject'' then Some Reject
     else if t = ''drop'' then Some Drop else None)"

function eval_toks :: "set_env \<Rightarrow> packet \<Rightarrow> string list \<Rightarrow> verdict option" where
  "eval_toks S p [] = None"
| "eval_toks S p (t # ts) = (case verdict_tok t of Some v \<Rightarrow> Some v
     | None \<Rightarrow> (case take_match (t # ts) of None \<Rightarrow> None
        | Some (m, ts') \<Rightarrow> if match_ok S p m then eval_toks S p ts' else None))"
  by pat_completeness auto
termination
  by (relation "measure (\<lambda>(S, p, ts). length ts)") (auto dest: take_match_length)

declare eval_toks.simps(2) [simp del]

fun chain_verdict :: "set_env \<Rightarrow> packet \<Rightarrow> string list list \<Rightarrow> verdict option" where
  "chain_verdict S p [] = None"
| "chain_verdict S p (r # rs) = (case eval_toks S p r of Some v \<Rightarrow> Some v | None \<Rightarrow> chain_verdict S p rs)"

text \<open>The verdict of a whole chain with policy accept.\<close>

definition chain_decides :: "set_env \<Rightarrow> packet \<Rightarrow> string list list \<Rightarrow> verdict" where
  "chain_decides S p rs = (case chain_verdict S p rs of Some v \<Rightarrow> v | None \<Rightarrow> Accept)"

lemma chain_verdict_append:
  "chain_verdict S p (as @ bs) = (case chain_verdict S p as of Some v \<Rightarrow> Some v | None \<Rightarrow> chain_verdict S p bs)"
  by (induction as) (auto split: option.split)

lemma chain_verdict_None: "chain_verdict S p rs = None \<longleftrightarrow> (\<forall>r \<in> set rs. eval_toks S p r = None)"
  by (induction rs) (auto split: option.split)

section \<open>Reading the emitted rules\<close>

text \<open>How each token sequence the sources emit is read; \<open>verdicts\<close> drives the proofs.\<close>

named_theorems verdicts \<open>evaluation of the emitted token sequences\<close>

lemma eval_verdict [verdicts]:
  "eval_toks S p (''accept'' # ts) = Some Accept"
  "eval_toks S p (''reject'' # ts) = Some Reject"
  "eval_toks S p (''drop'' # ts) = Some Drop"
  by (simp_all add: eval_toks.simps verdict_tok_def)

lemma eval_saddr [verdicts]:
  "eval_toks S p (''ip'' # ''saddr'' # a # ts) = (if operand_has S a (pkt_src p) then eval_toks S p ts else None)"
  by (subst eval_toks.simps) (simp add: verdict_tok_def take_match_def match_ok_def)

lemma eval_daddr:
  "a \<noteq> ''.'' \<Longrightarrow>
   eval_toks S p (''ip'' # ''daddr'' # a # ts) = (if operand_has S a (pkt_dst p) then eval_toks S p ts else None)"
  by (subst eval_toks.simps) (simp add: verdict_tok_def take_match_def match_ok_def)

lemma eval_daddr_port [verdicts]:
  "eval_toks S p (''ip'' # ''daddr'' # ''.'' # ''th'' # ''dport'' # s # ts) =
     (if l4 p \<and> tuple_set_has S (tl s) (pkt_dst p) (pkt_dport p) then eval_toks S p ts else None)"
  by (subst eval_toks.simps) (simp add: verdict_tok_def take_match_def match_ok_def)

lemma eval_l4proto [verdicts]:
  "eval_toks S p (''meta'' # ''l4proto'' # ''{'' # ''tcp,'' # ''udp'' # ''}'' # ts) =
     (if l4 p then eval_toks S p ts else None)"
  by (subst eval_toks.simps) (simp add: verdict_tok_def take_match_def match_ok_def)

lemma eval_dport [verdicts]:
  "eval_toks S p (''th'' # ''dport'' # c # ts) =
     (if l4 p \<and> pkt_dport p \<in> set (fst (take_ports (c # ts))) then eval_toks S p (snd (take_ports (c # ts))) else None)"
  by (subst eval_toks.simps) (simp add: verdict_tok_def take_match_def match_ok_def)

lemma eval_udp_dport [verdicts]:
  "eval_toks S p (''udp'' # ''dport'' # c # ts) =
     (if pkt_proto p = UDP \<and> pkt_dport p \<in> set (fst (take_ports (c # ts)))
      then eval_toks S p (snd (take_ports (c # ts))) else None)"
  by (subst eval_toks.simps) (simp add: verdict_tok_def take_match_def match_ok_def)

lemma eval_icmp [verdicts]:
  "eval_toks S p (''icmp'' # ''type'' # ''echo-request'' # ts) =
     (if pkt_proto p = ICMP 8 then eval_toks S p ts else None)"
  by (subst eval_toks.simps) (simp add: verdict_tok_def take_match_def match_ok_def)

lemma eval_limit [verdicts]:
  "eval_toks S p (''limit'' # ''rate'' # r # ts) = (if pkt_in_rate p then eval_toks S p ts else None)"
  by (subst eval_toks.simps) (simp add: verdict_tok_def take_match_def match_ok_def)

lemma eval_ct [verdicts]:
  "eval_toks S p (''ct'' # ''state'' # ''established,related'' # ts) =
     (if pkt_tracked p then eval_toks S p ts else None)"
  by (subst eval_toks.simps) (simp add: verdict_tok_def take_match_def match_ok_def)

lemma eval_iifname [verdicts]:
  "eval_toks S p (''iifname'' # i # t # ts) = (if pkt_iif p = i then eval_toks S p (t # ts) else None)"
  by (subst eval_toks.simps) (simp add: verdict_tok_def take_match_def match_ok_def)

lemma take_ports_53: "take_ports (''53'' # ts) = ([53], ts)"
  by (simp add: take_ports_def port_toks_def trim_suffix_def has_suffix_def has_prefix_def
      atoi_def all_digits_def char_defs digits_val_def)

lemma take_ports_dhcp: "take_ports (''{'' # ''67,'' # ''68'' # ''}'' # ts) = ([67, 68], ts)"
  by (simp add: take_ports_def port_toks_def trim_suffix_def has_suffix_def has_prefix_def
      atoi_def all_digits_def char_defs digits_val_def)

section \<open>Reading the operands\<close>

lemma addr_has_v4: "parse_v4 s = Some a \<Longrightarrow> addr_has s x \<longleftrightarrow> x = a"
proof -
  assume a: "parse_v4 s = Some a"
  then have "CHR ''/'' \<notin> set s" using parse_v4_bytes[OF a, of "CHR ''/''"] by (auto simp: is_digit_def)
  then have "net_ParseCIDR s = None" by (simp add: net_ParseCIDR_def str_cut_none)
  with a show ?thesis by (auto simp: addr_has_def)
qed

lemma net_ParseCIDR_v4:
  assumes "parse_v4 s = Some a" and "n \<le> 32"
  shows "net_ParseCIDR (s @ ''/'' @ itoa n) = Some (v4_in_v6 a, Net4 (mask4 n a) n)"
proof -
  have "CHR ''/'' \<notin> set s" using parse_v4_bytes[OF assms(1), of "CHR ''/''"] by (auto simp: is_digit_def)
  then have "str_cut (s @ ''/'' @ itoa n) ''/'' = (s, itoa n, True)" by (simp add: str_cut_char)
  with assms show ?thesis by (simp add: net_ParseCIDR_def parse_addr_v4 dtoi_itoa)
qed

lemma itoa_32: "itoa 32 = ''32''"
  by (simp add: itoa.simps)

lemma addr_has_host: "parse_v4 s = Some a \<Longrightarrow> addr_has (s @ ''/32'') x \<longleftrightarrow> x = a"
  using net_ParseCIDR_v4[of s a 32] by (simp add: addr_has_def itoa_32 in_net4_32)

lemma addr_has_net4: "n \<le> 32 \<Longrightarrow> addr_has (net4_string a n) x \<longleftrightarrow> in_net4 n a x"
  by (simp add: addr_has_def net_ParseCIDR_string)

text \<open>An address contains neither \<open>@\<close> nor \<open>.\<close> alone, so it is read as a literal.\<close>

lemma operand_has_v4: "parse_v4 s = Some a \<Longrightarrow> operand_has S s x \<longleftrightarrow> x = a"
  using parse_v4_bytes[of s a "CHR ''@''"]
  by (cases s) (auto simp: operand_has_def has_prefix_def addr_has_v4 is_digit_def)

lemma operand_has_host: "parse_v4 s = Some a \<Longrightarrow> operand_has S (s @ ''/32'') x \<longleftrightarrow> x = a"
  using parse_v4_bytes[of s a "CHR ''@''"]
  by (cases s) (auto simp: operand_has_def has_prefix_def addr_has_host[symmetric] is_digit_def parse_v4_def
      parse_octet_def all_digits_def)

lemma operand_has_set: "operand_has S (''@'' @ name) x \<longleftrightarrow> set_has S name x"
  by (simp add: operand_has_def has_prefix_def)

lemma operand_has_rfc1918:
  "operand_has S ''10.0.0.0/8'' x \<longleftrightarrow> unat x div 2 ^ 24 = 10"
  "operand_has S ''172.16.0.0/12'' x \<longleftrightarrow> unat x div 2 ^ 20 = 2753"
  "operand_has S ''192.168.0.0/16'' x \<longleftrightarrow> unat x div 2 ^ 16 = 49320"
  "operand_has S ''169.254.0.0/16'' x \<longleftrightarrow> unat x div 2 ^ 16 = 43518"
proof -
  have "net4_string 0x0A000000 8 = ''10.0.0.0/8''" "net4_string 0xAC100000 12 = ''172.16.0.0/12''"
    "net4_string 0xC0A80000 16 = ''192.168.0.0/16''" "net4_string 0xA9FE0000 16 = ''169.254.0.0/16''"
    by (simp_all add: net4_string_def ip4_string_def ip4_bytes_def itoa.simps)
  then show "operand_has S ''10.0.0.0/8'' x \<longleftrightarrow> unat x div 2 ^ 24 = 10"
    "operand_has S ''172.16.0.0/12'' x \<longleftrightarrow> unat x div 2 ^ 20 = 2753"
    "operand_has S ''192.168.0.0/16'' x \<longleftrightarrow> unat x div 2 ^ 16 = 49320"
    "operand_has S ''169.254.0.0/16'' x \<longleftrightarrow> unat x div 2 ^ 16 = 43518"
    using addr_has_net4[of 8 "0x0A000000" x] addr_has_net4[of 12 "0xAC100000" x]
      addr_has_net4[of 16 "0xC0A80000" x] addr_has_net4[of 16 "0xA9FE0000" x]
    by (simp_all add: operand_has_def has_prefix_def in_net4_def)
qed

end
