(* ===== verification/AllowPolicy.thy ===== *)
theory AllowPolicy
  imports NftVerdict
begin

text \<open>
  The compilation of \<open>[network] allowed_domains\<close>, \<open>allowed_ports\<close> and \<open>dns_servers\<close>:
  \<open>internal/network/policy.go\<close>, \<open>internal/network/egress_ports.go\<close> and the validators
  and token builders of \<open>internal/network/egress.go\<close>.

  The lemmas show that the port parser returns sorted, distinct, non-empty ranges inside
  1..65535, that a rendered range reads back, which entries \<open>NewAllowPolicy\<close> accepts and
  what a compiled policy contains.
\<close>

section \<open>Port ranges\<close>

datatype portRange = PortRange (Lo: "16 word") (Hi: "16 word")

text \<open>The order of \<open>sort.Slice\<close> in \<open>parsePortSpec\<close>: by \<open>Lo\<close>, then by \<open>Hi\<close>.\<close>

definition range_before :: "portRange \<Rightarrow> portRange \<Rightarrow> bool" where
  "range_before r q = (if Lo r \<noteq> Lo q then Lo r < Lo q else Hi r < Hi q)"

instantiation portRange :: linorder
begin

definition less_portRange :: "portRange \<Rightarrow> portRange \<Rightarrow> bool" where
  "less_portRange r q = range_before r q"

definition less_eq_portRange :: "portRange \<Rightarrow> portRange \<Rightarrow> bool" where
  "less_eq_portRange r q = (if Lo r \<noteq> Lo q then Lo r < Lo q else Hi r \<le> Hi q)"

instance
  by standard (auto simp: less_eq_portRange_def less_portRange_def range_before_def split: if_splits intro: portRange.expand)

end

definition nftValue :: "portRange \<Rightarrow> string" where
  "nftValue r = (if Lo r = Hi r then itoa (unat (Lo r))
     else itoa (unat (Lo r)) @ ''-'' @ itoa (unat (Hi r)))"

definition allPortsRange :: "portRange list" where
  "allPortsRange = [PortRange 1 65535]"

definition intsToPortRanges :: "int list \<Rightarrow> portRange list" where
  "intsToPortRanges ports = map (\<lambda>p. PortRange (word_of_int p) (word_of_int p))
     (filter (\<lambda>p. \<not> (p < 1 \<or> p > 65535)) ports)"

definition resolvePorts :: "portRange list \<Rightarrow> portRange list \<Rightarrow> portRange list" where
  "resolvePorts entryPorts globalPorts = (if length entryPorts > 0 then entryPorts
     else if length globalPorts > 0 then globalPorts else allPortsRange)"

definition parsePort :: "string \<Rightarrow> (16 word) result" where
  "parsePort s = (case atoi (trim_space s) of
     None \<Rightarrow> Inl (Errorf ''%q is not a valid port number'' [s])
   | Some n \<Rightarrow> if n < 1 \<or> n > 65535
       then Inl (Errorf ''port %d is out of range (1-65535)'' [itoa_int n])
       else Inr (word_of_int n))"

text \<open>One field of a port list, as read in the loop of \<open>parsePortSpec\<close>.\<close>

definition parsePortField :: "string \<Rightarrow> string \<Rightarrow> portRange result" where
  "parsePortField spec f0 = (let f = trim_space f0 in
     if f = [] then Inl (Errorf ''empty port in %q'' [spec]) else
     (case str_cut f ''-'' of (lo, hi, ok) \<Rightarrow>
        if ok then bindE (parsePort lo) (\<lambda>l. bindE (parsePort hi) (\<lambda>h.
            if h < l then Inl (Errorf ''port range %q is inverted (%d-%d)''
                 [f, itoa (unat l), itoa (unat h)])
            else Inr (PortRange l h)))
        else bindE (parsePort f) (\<lambda>p. Inr (PortRange p p))))"

definition parsePortSpec :: "string \<Rightarrow> (portRange list) result" where
  "parsePortSpec spec = bindE (mapE (parsePortField spec) (str_split spec '',''))
     (\<lambda>rs. Inr (sort (dedup_acc {} rs)))"

definition portTupleElem :: "string \<Rightarrow> portRange \<Rightarrow> string" where
  "portTupleElem cidr r = cidr @ '' . '' @ nftValue r"

section \<open>Entries\<close>

definition isIPv6Entry :: "string \<Rightarrow> bool" where
  "isIPv6Entry s = (case net_ParseIP s of
     Some ip \<Rightarrow> to4 ip = None
   | None \<Rightarrow> (case net_ParseCIDR s of Some (ip, _) \<Rightarrow> to4 ip = None | None \<Rightarrow> False))"

definition splitDestPorts :: "string \<Rightarrow> (string \<times> portRange list \<times> bool) result" where
  "splitDestPorts entry = (if isIPv6Entry entry
     then Inl (Errorf ''%q is an IPv6 address; allowed_domains is IPv4-only'' [entry]) else
     (case str_cut entry '':'' of (dest, spec, found) \<Rightarrow>
        if \<not> found then Inr (entry, [], False)
        else if dest = [] then Inl (Errorf (''entry %q has no destination before '' @ [CHR 0x27, CHR '':'', CHR 0x27]) [entry])
        else bindE (wrapE ''in %q'' (parsePortSpec spec)) (\<lambda>ports. Inr (dest, ports, True))))"

record staticTuple =
  CIDR :: string
  Ports :: "portRange list"

text \<open>The sets \<open>exact\<close> and \<open>namePorts\<close> are maps in the source; \<open>namePorts\<close> reads as the
  empty list, Go's nil, for a name it does not hold.\<close>

record AllowPolicy =
  staticCIDRs :: "string list"
  staticTups :: "staticTuple list"
  exact :: "string \<Rightarrow> bool"
  names :: "string list"
  namePorts :: "string \<Rightarrow> portRange list"

definition emptyPolicy :: AllowPolicy where
  "emptyPolicy = \<lparr>staticCIDRs = [], staticTups = [], exact = (\<lambda>_. False), names = [],
     namePorts = (\<lambda>_. [])\<rparr>"

definition PortsForName :: "AllowPolicy \<Rightarrow> string \<Rightarrow> portRange list" where
  "PortsForName p name = namePorts p name"

definition addStatic :: "AllowPolicy \<Rightarrow> string \<Rightarrow> portRange list \<Rightarrow> AllowPolicy" where
  "addStatic p cidr ports = p\<lparr>staticCIDRs := staticCIDRs p @ [cidr],
     staticTups := staticTups p @ [\<lparr>CIDR = cidr, Ports = ports\<rparr>]\<rparr>"

definition addEntry :: "AllowPolicy \<Rightarrow> string \<Rightarrow> AllowPolicy result" where
  "addEntry p raw = bindE (wrapE ''invalid entry in allowed_domains'' (splitDestPorts (trim_space raw)))
     (\<lambda>(dest, ports, _). let entry = trim_suffix (to_lower dest) ''.'' in
        if entry = [] then Inr p
        else if str_contains entry ''/'' then
          (case net_ParseCIDR entry of
             None \<Rightarrow> Inl (Errorf ''invalid CIDR %q in allowed_domains'' [raw])
           | Some (ip, nt) \<Rightarrow> (case (to4 ip, nt) of
               (Some _, Net4 a n) \<Rightarrow> Inr (addStatic p (net4_string a n) ports)
             | _ \<Rightarrow> Inl (Errorf ''%q is an IPv6 CIDR; allowed_domains is IPv4-only'' [raw])))
        else (case net_ParseIP entry of
             Some ip \<Rightarrow> (case to4 ip of
               None \<Rightarrow> Inl (Errorf ''%q is an IPv6 address; allowed_domains is IPv4-only'' [raw])
             | Some a \<Rightarrow> Inr (addStatic p (ip4_string a @ ''/32'') ports))
           | None \<Rightarrow>
               if str_contains entry ''*'' then
                 Inl (Errorf ''wildcard %q in allowed_domains is not supported'' [raw])
               else Inr (p\<lparr>exact := (exact p)(entry := True), names := names p @ [entry],
                  namePorts := (namePorts p)(entry := ports)\<rparr>)))"

fun addEntries :: "AllowPolicy \<Rightarrow> string list \<Rightarrow> AllowPolicy result" where
  "addEntries p [] = Inr p"
| "addEntries p (raw # entries) = bindE (addEntry p raw) (\<lambda>p'. addEntries p' entries)"

definition NewAllowPolicy :: "string list \<Rightarrow> AllowPolicy result" where
  "NewAllowPolicy entries = addEntries emptyPolicy entries"

section \<open>Pinned resolvers and global ports\<close>

definition canonIPv4 :: "string \<Rightarrow> string result" where
  "canonIPv4 s = (case net_ParseIP (trim_space s) of
     None \<Rightarrow> Inl (Errorf ''dns_servers: %q is not a valid IPv4 address'' [s])
   | Some ip \<Rightarrow> (case to4 ip of
       None \<Rightarrow> Inl (Errorf ''dns_servers: %q is not a valid IPv4 address'' [s])
     | Some a \<Rightarrow> Inr (ip4_string a)))"

definition validateDNSServers :: "string list \<Rightarrow> (string list) result" where
  "validateDNSServers servers = bindE (mapE canonIPv4 servers) (\<lambda>cs. Inr (dedup_acc {} cs))"

definition validateAllowedPorts :: "int list \<Rightarrow> (int list) result" where
  "validateAllowedPorts ports = bindE
     (mapE (\<lambda>p. if p < 1 \<or> p > 65535
        then Inl (Errorf ''allowed_ports: %d is out of range (1-65535)'' [itoa_int p]) else Inr p) ports)
     (\<lambda>ps. Inr (sort (dedup_acc {} ps)))"

fun portSetToks :: "int list \<Rightarrow> string list" where
  "portSetToks [] = []"
| "portSetToks [p] = [itoa_int p]"
| "portSetToks (p # q # ps) = (itoa_int p @ '','') # portSetToks (q # ps)"

definition portSetTokens :: "int list \<Rightarrow> string list" where
  "portSetTokens ports = ''{'' # portSetToks ports @ [''}'']"

definition l4PortMatch :: "int list \<Rightarrow> string list" where
  "l4PortMatch ports = [''meta'', ''l4proto'', ''{'', ''tcp,'', ''udp'', ''}''] @
     (if length ports > 0 then [''th'', ''dport''] @ portSetTokens ports else [])"

section \<open>The port parser\<close>

declare of_nat_unat [simp del]

definition range_ok :: "portRange \<Rightarrow> bool" where
  "range_ok r \<longleftrightarrow> 1 \<le> Lo r \<and> Lo r \<le> Hi r"

definition in_range :: "portRange \<Rightarrow> nat \<Rightarrow> bool" where
  "in_range r p \<longleftrightarrow> unat (Lo r) \<le> p \<and> p \<le> unat (Hi r)"

definition in_ranges :: "portRange list \<Rightarrow> nat \<Rightarrow> bool" where
  "in_ranges rs p \<longleftrightarrow> (\<exists>r \<in> set rs. in_range r p)"

lemma unat_port [simp]: "1 \<le> n \<Longrightarrow> n \<le> 65535 \<Longrightarrow> unat (word_of_int n :: 16 word) = nat n"
  by (simp add: unsigned_of_int take_bit_int_eq_self)

lemma unat_port_le: "unat (w :: 16 word) \<le> 65535"
  using unsigned_less[of w, where 'a = nat] by simp

lemma atoi_port [simp]: "atoi (itoa (unat (w :: 16 word))) = Some (int (unat w))"
  using unat_port_le[of w] by simp

lemma one_le_port: "1 \<le> (w :: 16 word) \<longleftrightarrow> 1 \<le> unat w"
  by (simp add: word_le_nat_alt)

lemma parsePort_Inr: "parsePort s = Inr w \<Longrightarrow> 1 \<le> w"
  by (auto simp: parsePort_def one_le_port split: option.splits if_splits)

lemma parsePort_itoa: "1 \<le> w \<Longrightarrow> parsePort (itoa (unat w)) = Inr w"
proof -
  assume "1 \<le> w"
  moreover have "word_of_nat (unat w) = w" by (simp add: of_nat_unat)
  ultimately show ?thesis using unat_port_le[of w] by (simp add: parsePort_def one_le_port)
qed

lemma parsePortField_Inr: "parsePortField spec f = Inr r \<Longrightarrow> range_ok r"
  by (auto simp: parsePortField_def range_ok_def bindE_Inr Let_def dest: parsePort_Inr
      split: if_splits prod.splits)

lemma nftValue_chars: "c \<in> set (nftValue r) \<Longrightarrow> is_digit c \<or> c = CHR ''-''"
  by (auto simp: nftValue_def dest: itoa_set split: if_splits)

lemma trim_nftValue [simp]: "trim_space (nftValue r) = nftValue r"
  by (rule trim_space_id) (auto simp: char_defs dest!: nftValue_chars)

lemma nftValue_nonempty [simp]: "nftValue r \<noteq> []"
  by (simp add: nftValue_def)

lemma nftValue_cut: "str_cut (nftValue r) ''-'' = (if Lo r = Hi r then (itoa (unat (Lo r)), [], False)
    else (itoa (unat (Lo r)), itoa (unat (Hi r)), True))"
proof -
  have "CHR ''-'' \<notin> set (itoa n)" for n by (rule itoa_notin) (simp add: is_digit_def)
  then show ?thesis by (simp add: nftValue_def str_cut_none str_cut_char)
qed

lemma parsePortField_nftValue:
  assumes "range_ok r"
  shows "parsePortField spec (nftValue r) = Inr r"
proof -
  have "1 \<le> Lo r" "1 \<le> Hi r" "Lo r \<le> Hi r" using assms by (auto simp: range_ok_def)
  moreover have "nftValue r = itoa (unat (Lo r))" if "Lo r = Hi r" using that by (simp add: nftValue_def)
  ultimately show ?thesis
    by (auto simp: parsePortField_def nftValue_cut parsePort_itoa Let_def not_less intro: portRange.expand)
qed

lemma mapE_Inr_ball: "mapE f xs = Inr ys \<Longrightarrow> (\<And>x y. f x = Inr y \<Longrightarrow> P y) \<Longrightarrow> y \<in> set ys \<Longrightarrow> P y"
  by (auto simp: mapE_Inr list_all2_conv_all_nth in_set_conv_nth)

lemma mapE_length: "mapE f xs = Inr ys \<Longrightarrow> length ys = length xs"
  by (auto simp: mapE_Inr dest: list_all2_lengthD)

lemma str_split_ne: "str_split s [c] \<noteq> []"
  using str_split_None[of "[c]" s] str_split_Some[of "[c]" s] by (cases "str_index s [c]") auto

lemma parsePortSpec_wf:
  assumes "parsePortSpec spec = Inr rs"
  shows "rs \<noteq> []" "sorted rs" "distinct rs" "\<And>r. r \<in> set rs \<Longrightarrow> range_ok r"
proof -
  from assms obtain qs where q: "mapE (parsePortField spec) (str_split spec '','') = Inr qs"
      "rs = sort (dedup_acc {} qs)"
    by (auto simp: parsePortSpec_def bindE_Inr)
  have "qs \<noteq> []" using mapE_length[OF q(1)] str_split_ne[of spec "CHR '',''"] by force
  then have "set (sort (dedup_acc {} qs)) \<noteq> {}" by (simp add: set_dedup_acc)
  then show "rs \<noteq> []" unfolding q(2) by force
  show "sorted rs" by (simp add: q(2))
  show "distinct rs" by (simp add: q(2) distinct_dedup_acc)
  show "r \<in> set rs \<Longrightarrow> range_ok r" for r
    using mapE_Inr_ball[OF q(1), of range_ok] parsePortField_Inr q(2) by (simp add: set_dedup_acc)
qed

lemma parsePortSpec_render:
  assumes "rs \<noteq> []" "sorted rs" "distinct rs" "\<forall>r \<in> set rs. range_ok r"
  shows "parsePortSpec (str_join '','' (map nftValue rs)) = Inr rs"
proof -
  have "str_split (str_join '','' (map nftValue rs)) '','' = map nftValue rs"
    by (rule split_join_char) (use assms(1) in \<open>auto simp: is_digit_def dest: nftValue_chars\<close>)
  moreover have "mapE (parsePortField spec) (map nftValue rs) = Inr rs" for spec
    using assms(4) by (simp add: mapE_Inr list_all2_map1 list_all2_same parsePortField_nftValue)
  ultimately show ?thesis
    using assms by (simp add: parsePortSpec_def dedup_acc_id sorted_sort_id)
qed

text \<open>A rendered range, and a rendered tuple, mean what they should in a set.\<close>

lemma port_has_nftValue: "port_has (nftValue r) p \<longleftrightarrow> in_range r p"
proof -
  have "nftValue r = itoa (unat (Lo r))" if "Lo r = Hi r" using that by (simp add: nftValue_def)
  then show ?thesis
    by (auto simp: port_has_def nftValue_cut in_range_def)
qed

lemma tuple_has_elem:
  assumes "CHR '' '' \<notin> set cidr"
  shows "tuple_has (portTupleElem cidr r) x p \<longleftrightarrow> addr_has cidr x \<and> in_range r p"
    and "tuple_has (portTupleElem cidr r @ '' '' @ rest) x p \<longleftrightarrow> addr_has cidr x \<and> in_range r p"
proof -
  have n: "CHR '' '' \<notin> set (nftValue r)" using nftValue_chars[of "CHR '' ''" r] by (auto simp: is_digit_def)
  have "str_split (cidr @ '' '' @ ''.'' @ '' '' @ nftValue r) '' '' = [cidr, ''.'', nftValue r]"
    using assms n str_split_char_app[of "CHR '' ''" "''.''" "nftValue r"]
    by (simp add: str_split_char_app str_split_char_notin)
  then show "tuple_has (portTupleElem cidr r) x p \<longleftrightarrow> addr_has cidr x \<and> in_range r p"
    by (simp add: tuple_has_def portTupleElem_def port_has_nftValue)
  have "str_split (cidr @ '' '' @ ''.'' @ '' '' @ nftValue r @ '' '' @ rest) '' ''
      = cidr # ''.'' # nftValue r # str_split rest '' ''"
    using assms n str_split_char_app[of "CHR '' ''" "''.''" "nftValue r @ '' '' @ rest"]
    by (simp add: str_split_char_app)
  then show "tuple_has (portTupleElem cidr r @ '' '' @ rest) x p \<longleftrightarrow> addr_has cidr x \<and> in_range r p"
    by (simp add: tuple_has_def portTupleElem_def port_has_nftValue)
qed

text \<open>The tokens of a port set read back as the ports.\<close>

lemma trim_comma [simp]: "trim_suffix (s @ '','') '','' = s" "trim_suffix (itoa n) '','' = itoa n"
proof -
  show "trim_suffix (s @ '','') '','' = s" by (simp add: trim_suffix_def has_suffix_def has_prefix_def)
  have "CHR '','' \<notin> set (rev (itoa n))" using itoa_notin[of "CHR '',''" n] by (simp add: is_digit_def)
  then show "trim_suffix (itoa n) '','' = itoa n"
    by (cases "rev (itoa n)") (auto simp: trim_suffix_def has_suffix_def has_prefix_def)
qed

lemma port_toks_Cons: "port_toks (t # ts) = port_toks [t] @ port_toks ts"
  by (simp add: port_toks_def)

lemma port_toks_port:
  assumes "1 \<le> p" and "p \<le> 65535"
  shows "port_toks [itoa_int p] = [nat p]" "port_toks [itoa_int p @ '','' ] = [nat p]"
proof -
  have "itoa_int p = itoa (nat p)" "int (nat p) < 2 ^ 63" using assms by (simp_all add: itoa_int_def)
  then show "port_toks [itoa_int p] = [nat p]" "port_toks [itoa_int p @ '','' ] = [nat p]"
    using assms by (simp_all add: port_toks_def)
qed

lemma port_toks_portSetToks: "\<forall>p \<in> set ps. 1 \<le> p \<and> p \<le> 65535 \<Longrightarrow> port_toks (portSetToks ps) = map nat ps"
proof (induction ps rule: portSetToks.induct)
  case (3 p q ps)
  then have "port_toks (portSetToks (q # ps)) = map nat (q # ps)" by simp
  with 3 show ?case by (simp only: portSetToks.simps) (subst port_toks_Cons, simp add: port_toks_port)
qed (simp_all add: port_toks_port port_toks_def[of "[]"])

lemma portSetToks_no_brace: "t \<in> set (portSetToks ps) \<Longrightarrow> t \<noteq> ''}''"
proof (induction ps rule: portSetToks.induct)
  case (2 p)
  moreover have "itoa n \<noteq> ''}''" for n using itoa_notin[of "CHR ''}''" n] by (auto simp: is_digit_def)
  ultimately show ?case by (auto simp: itoa_int_def)
next
  case (3 p q ps)
  then show ?case by (auto dest: arg_cong[where f = last])
qed simp

lemma take_ports_set:
  assumes "\<forall>p \<in> set ps. 1 \<le> p \<and> p \<le> 65535"
  shows "take_ports (portSetTokens ps @ ts) = (map nat ps, ts)"
proof -
  have "takeWhile (\<lambda>u. u \<noteq> ''}'') (portSetToks ps @ ''}'' # ts) = portSetToks ps"
    and "dropWhile (\<lambda>u. u \<noteq> ''}'') (portSetToks ps @ ''}'' # ts) = ''}'' # ts"
    using portSetToks_no_brace by (auto simp: takeWhile_append2 dropWhile_append2)
  with port_toks_portSetToks[OF assms] show ?thesis
    by (simp add: take_ports_def portSetTokens_def)
qed

section \<open>The compiled policy\<close>

text \<open>The destination of an entry as the policy reads it, and its ports.\<close>

definition entry_dest :: "string \<Rightarrow> string" where
  "entry_dest raw = (case splitDestPorts (trim_space raw) of Inl _ \<Rightarrow> []
     | Inr (dest, _, _) \<Rightarrow> trim_suffix (to_lower dest) ''.'')"

definition entry_ports :: "string \<Rightarrow> portRange list" where
  "entry_ports raw = (case splitDestPorts (trim_space raw) of Inl _ \<Rightarrow> [] | Inr (_, ports, _) \<Rightarrow> ports)"

lemma addEntry_elim:
  assumes "addEntry p raw = Inr p'"
  obtains (empty) "entry_dest raw = []" "p' = p"
  | (cidr) ip a n where "net_ParseCIDR (entry_dest raw) = Some (ip, Net4 a n)"
      "p' = addStatic p (net4_string a n) (entry_ports raw)"
  | (ip) ip a where "CHR ''/'' \<notin> set (entry_dest raw)" "net_ParseIP (entry_dest raw) = Some ip" "to4 ip = Some a"
      "p' = addStatic p (ip4_string a @ ''/32'') (entry_ports raw)"
  | (name) "entry_dest raw \<noteq> []" "CHR ''/'' \<notin> set (entry_dest raw)" "net_ParseIP (entry_dest raw) = None"
      "CHR ''*'' \<notin> set (entry_dest raw)"
      "p' = p\<lparr>exact := (exact p)(entry_dest raw := True), names := names p @ [entry_dest raw],
         namePorts := (namePorts p)(entry_dest raw := entry_ports raw)\<rparr>"
proof -
  from assms obtain dest ports hp where s: "splitDestPorts (trim_space raw) = Inr (dest, ports, hp)"
    by (auto simp: addEntry_def bindE_Inr)
  then have e: "entry_dest raw = trim_suffix (to_lower dest) ''.''" "entry_ports raw = ports"
    by (simp_all add: entry_dest_def entry_ports_def)
  show ?thesis
  proof (cases "entry_dest raw = []")
    case True
    then show ?thesis using assms s e empty by (simp add: addEntry_def)
  next
    case ne: False
    show ?thesis
    proof (cases "CHR ''/'' \<in> set (entry_dest raw)")
      case True
      then show ?thesis using assms s e ne cidr
        by (auto simp: addEntry_def Let_def str_contains_char split: option.splits ipnet.splits)
    next
      case False
      then show ?thesis using assms s e ne ip name
        by (auto simp: addEntry_def Let_def str_contains_char split: option.splits if_splits)
    qed
  qed
qed

lemma splitDestPorts_ports:
  assumes "splitDestPorts e = Inr (dest, ports, hp)"
  shows "r \<in> set ports \<Longrightarrow> range_ok r" and "hp \<longleftrightarrow> ports \<noteq> []" and "\<not> isIPv6Entry e"
proof -
  obtain d spec found where c: "str_cut e '':'' = (d, spec, found)" by (cases "str_cut e '':''") auto
  with assms show n: "\<not> isIPv6Entry e" by (auto simp: splitDestPorts_def split: if_splits)
  have "\<not> found \<and> ports = [] \<and> \<not> hp \<or> parsePortSpec spec = Inr ports \<and> hp"
    using assms n c by (auto simp: splitDestPorts_def bindE_Inr split: if_splits)
  then show "r \<in> set ports \<Longrightarrow> range_ok r" and "hp \<longleftrightarrow> ports \<noteq> []"
    using parsePortSpec_wf(1,4)[of spec ports] by auto
qed

lemma entry_ports_ok: "r \<in> set (entry_ports raw) \<Longrightarrow> range_ok r"
  by (auto simp: entry_ports_def split: sum.splits dest: splitDestPorts_ports(1)[OF sym])

text \<open>What every compiled policy satisfies.\<close>

definition name_ok :: "string \<Rightarrow> bool" where
  "name_ok n \<longleftrightarrow> n \<noteq> [] \<and> CHR ''/'' \<notin> set n \<and> CHR ''*'' \<notin> set n \<and> net_ParseIP n = None"

definition tuple_ok :: "staticTuple \<Rightarrow> bool" where
  "tuple_ok t \<longleftrightarrow> (\<exists>a n. n \<le> 32 \<and> CIDR t = net4_string a n) \<and> (\<forall>r \<in> set (Ports t). range_ok r)"

definition policy_ok :: "AllowPolicy \<Rightarrow> bool" where
  "policy_ok p \<longleftrightarrow> staticCIDRs p = map CIDR (staticTups p) \<and> (\<forall>t \<in> set (staticTups p). tuple_ok t) \<and>
     (\<forall>n. exact p n \<longleftrightarrow> n \<in> set (names p)) \<and> (\<forall>n \<in> set (names p). name_ok n) \<and>
     (\<forall>n. \<forall>r \<in> set (namePorts p n). range_ok r)"

lemma net_ParseCIDR_Net4: "net_ParseCIDR s = Some (ip, Net4 a n) \<Longrightarrow> n \<le> 32 \<and> mask4 n a = a"
  by (auto simp: net_ParseCIDR_def Let_def split: prod.splits option.splits addr.splits if_splits)

lemma ip4_host_string: "ip4_string a @ ''/32'' = net4_string a 32"
  by (simp add: net4_string_def itoa_32)

lemma addEntry_ok:
  assumes "addEntry p raw = Inr p'" and "policy_ok p"
  shows "policy_ok p'"
  using assms(1)
proof (cases rule: addEntry_elim)
  case (cidr ip a n)
  then have "tuple_ok \<lparr>CIDR = net4_string a n, Ports = entry_ports raw\<rparr>"
    using net_ParseCIDR_Net4[OF cidr(1)] by (auto simp: tuple_ok_def intro: entry_ports_ok)
  with cidr assms(2) show ?thesis by (auto simp: policy_ok_def addStatic_def)
next
  case (ip ip a)
  then have "tuple_ok \<lparr>CIDR = net4_string a 32, Ports = entry_ports raw\<rparr>"
    by (auto simp: tuple_ok_def intro: entry_ports_ok)
  with ip assms(2) show ?thesis by (auto simp: policy_ok_def addStatic_def ip4_host_string)
next
  case name
  then have "name_ok (entry_dest raw)" by (simp add: name_ok_def)
  with name assms(2) show ?thesis by (auto simp: policy_ok_def intro: entry_ports_ok)
qed (use assms(2) in simp)

lemma addEntries_ok: "addEntries p es = Inr p' \<Longrightarrow> policy_ok p \<Longrightarrow> policy_ok p'"
  by (induction p es rule: addEntries.induct) (auto simp: bindE_Inr dest: addEntry_ok)

lemma emptyPolicy_ok: "policy_ok emptyPolicy"
  by (simp add: policy_ok_def emptyPolicy_def)

lemma NewAllowPolicy_ok: "NewAllowPolicy es = Inr p \<Longrightarrow> policy_ok p"
  unfolding NewAllowPolicy_def by (rule addEntries_ok[OF _ emptyPolicy_ok])

section \<open>What a policy permits\<close>

definition static_permits :: "AllowPolicy \<Rightarrow> portRange list \<Rightarrow> ip4 \<Rightarrow> nat \<Rightarrow> bool" where
  "static_permits p g x port \<longleftrightarrow>
     (\<exists>t \<in> set (staticTups p). addr_has (CIDR t) x \<and> in_ranges (resolvePorts (Ports t) g) port)"

definition entry_permits :: "portRange list \<Rightarrow> string \<Rightarrow> ip4 \<Rightarrow> nat \<Rightarrow> bool" where
  "entry_permits g raw x port \<longleftrightarrow>
     addr_has (entry_dest raw) x \<and> in_ranges (resolvePorts (entry_ports raw) g) port"

lemma addr_has_name:
  assumes "CHR ''/'' \<notin> set s" and "net_ParseIP s = None"
  shows "\<not> addr_has s x"
proof -
  have "parse_v4 s = None" using assms(2) net_ParseIP_v4 by (cases "parse_v4 s") auto
  then show ?thesis using assms(1) by (simp add: addr_has_def net_ParseCIDR_def str_cut_none)
qed

lemma addr_has_Net4:
  "net_ParseCIDR s = Some (ip, Net4 a n) \<Longrightarrow> addr_has s x \<longleftrightarrow> addr_has (net4_string a n) x"
  using net_ParseCIDR_Net4[of s ip a n] by (simp add: addr_has_net4) (simp add: addr_has_def)

lemma lower_char_neutral:
  assumes "(of_char d :: nat) < 97"
  shows "lower_char c = d \<longrightarrow> c = d"
proof (cases "is_upper c")
  case True
  then have "of_char (lower_char c) = (of_char c :: nat) + 32"
    by (simp add: lower_char_def is_upper_def)
  with True assms show ?thesis by (auto simp: is_upper_def)
qed (simp add: lower_char_def)

lemma entry_dest_no_colon: "CHR '':'' \<notin> set (entry_dest raw)"
proof (cases "splitDestPorts (trim_space raw)")
  case (Inr t)
  obtain dest ports hp where t: "t = (dest, ports, hp)" by (cases t) auto
  obtain d spec found where c: "str_cut (trim_space raw) '':'' = (d, spec, found)"
    by (cases "str_cut (trim_space raw) '':''") auto
  then have "dest = d" using Inr t str_cut_charD[OF c]
    by (auto simp: splitDestPorts_def bindE_Inr split: if_splits)
  then have "CHR '':'' \<notin> set dest" using str_cut_charD[OF c] by (auto split: if_splits)
  then have "CHR '':'' \<notin> set (to_lower dest)"
    using lower_char_neutral[of "CHR '':''"] by (force simp: to_lower_def)
  then show ?thesis
    using Inr t by (auto simp: entry_dest_def trim_suffix_def dest: in_set_takeD)
qed (simp add: entry_dest_def)

lemma addEntry_permits:
  assumes "addEntry p raw = Inr p'"
  shows "static_permits p' g x port \<longleftrightarrow> static_permits p g x port \<or> entry_permits g raw x port"
  using assms
proof (cases rule: addEntry_elim)
  case empty
  moreover have "net_ParseIP [] = None" by (simp add: net_ParseIP_def parse_addr_def)
  ultimately show ?thesis by (simp add: entry_permits_def addr_has_name)
next
  case (cidr ip a n)
  then show ?thesis
    using addr_has_Net4[OF cidr(1)] by (auto simp: static_permits_def entry_permits_def addStatic_def)
next
  case (ip ip a)
  then have "parse_v4 (entry_dest raw) = Some a"
    using net_ParseIP_no_colon[OF entry_dest_no_colon, of raw] by (auto split: option.splits)
  then have "addr_has (entry_dest raw) x \<longleftrightarrow> x = a" "addr_has (ip4_string a @ ''/32'') x \<longleftrightarrow> x = a"
    by (simp_all add: addr_has_v4 addr_has_host parse_v4_string)
  with ip show ?thesis by (auto simp: static_permits_def entry_permits_def addStatic_def)
next
  case name
  then show ?thesis by (auto simp: static_permits_def entry_permits_def addr_has_name)
qed

lemma addEntries_permits:
  "addEntries p es = Inr p' \<Longrightarrow>
   static_permits p' g x port \<longleftrightarrow> static_permits p g x port \<or> (\<exists>raw \<in> set es. entry_permits g raw x port)"
proof (induction es arbitrary: p)
  case (Cons raw es)
  then obtain q where "addEntry p raw = Inr q" "addEntries q es = Inr p'" by (auto simp: bindE_Inr)
  with Cons.IH[of q] show ?case by (simp add: addEntry_permits)
qed simp

lemma emptyPolicy_permits [simp]: "\<not> static_permits emptyPolicy g x port"
  by (simp add: static_permits_def emptyPolicy_def)

text \<open>Acceptance is decided entry by entry; the policy built so far plays no part.\<close>

definition entry_accepted :: "string \<Rightarrow> bool" where
  "entry_accepted raw \<longleftrightarrow> (\<exists>p. addEntry emptyPolicy raw = Inr p)"

lemma addEntry_accepted: "(\<exists>p'. addEntry p raw = Inr p') \<longleftrightarrow> entry_accepted raw"
proof -
  have "isl (addEntry p raw) \<longleftrightarrow> isl (addEntry emptyPolicy raw)"
  proof (cases "splitDestPorts (trim_space raw)")
    case (Inr t)
    obtain dest ports hp where t: "t = (dest, ports, hp)" by (cases t) auto
    let ?e = "trim_suffix (to_lower dest) ''.''"
    show ?thesis
      by (cases "net_ParseCIDR ?e"; cases "net_ParseIP ?e")
        (auto simp: addEntry_def Inr t Let_def split: prod.split option.split ipnet.split)
  qed (simp add: addEntry_def)
  then show ?thesis
    by (cases "addEntry p raw"; cases "addEntry emptyPolicy raw") (auto simp: entry_accepted_def)
qed

lemma addEntries_accepted: "(\<exists>p'. addEntries p es = Inr p') \<longleftrightarrow> (\<forall>raw \<in> set es. entry_accepted raw)"
proof (induction es arbitrary: p)
  case (Cons raw es)
  then show ?case using addEntry_accepted[of p raw] by (auto simp: bindE_Inr)
qed simp

lemma entry_accepted_dest:
  assumes "entry_accepted raw"
  shows "\<not> isIPv6Entry (trim_space raw)" and "CHR ''*'' \<notin> set (entry_dest raw)"
proof -
  obtain p' where p': "addEntry emptyPolicy raw = Inr p'" using assms by (auto simp: entry_accepted_def)
  then show "\<not> isIPv6Entry (trim_space raw)"
    by (auto simp: addEntry_def bindE_Inr dest: splitDestPorts_ports(3))
  have star: "CHR ''*'' \<notin> set s" if "parse_v4 s = Some a" for s a
    using parse_v4_bytes[OF that, of "CHR ''*''"] by (auto simp: is_digit_def)
  from p' show "CHR ''*'' \<notin> set (entry_dest raw)"
  proof (cases rule: addEntry_elim)
    case (cidr ip a n)
    obtain d m found where c: "str_cut (entry_dest raw) ''/'' = (d, m, found)"
      by (cases "str_cut (entry_dest raw) ''/''") auto
    with cidr(1) have f: found and "parse_v4 d \<noteq> None" "dtoi m \<noteq> None"
      by (auto simp: net_ParseCIDR_no_colon[OF entry_dest_no_colon] split: option.splits if_splits)
    then have "CHR ''*'' \<notin> set d" "CHR ''*'' \<notin> set m"
      using star[of d] by (auto simp: dtoi_def all_digits_def list_all_iff is_digit_def split: if_splits)
    then show ?thesis using str_cut_charD[OF c] f by auto
  next
    case (ip ip a)
    then show ?thesis
      using net_ParseIP_no_colon[OF entry_dest_no_colon, of raw] star by (auto split: option.splits)
  qed auto
qed

section \<open>Properties\<close>

text \<open>The definitions a concrete entry is evaluated with.\<close>

lemmas entry_eval = entry_accepted_def addEntry_def splitDestPorts_def isIPv6Entry_def
  net_ParseIP_def parse_addr_def parse_v4_def parse_octet_def net_ParseCIDR_def dtoi_def to_lower_def
  lower_char_def has_suffix_def trim_suffix_def str_contains_def mask4_def ip4_of_bytes_def
  parsePortSpec_def parsePortField_def parsePort_def str_split.simps(2) has_prefix_def trim_space_def
  char_defs str_cut_def atoi_def all_digits_def digits_val_def less_eq_portRange_def as16_def Let_def

lemma in_ranges_parsed:
  assumes "parsePortSpec spec = Inr rs"
  shows "in_ranges rs p \<longleftrightarrow>
    (\<exists>f \<in> set (str_split spec '',''). \<exists>r. parsePortField spec f = Inr r \<and> in_range r p)"
proof -
  obtain qs where q: "mapE (parsePortField spec) (str_split spec '','') = Inr qs" "rs = sort (dedup_acc {} qs)"
    using assms by (auto simp: parsePortSpec_def bindE_Inr)
  then have "list_all2 (\<lambda>f r. parsePortField spec f = Inr r) (str_split spec '','') qs" by (simp add: mapE_Inr)
  then have "(\<exists>r \<in> set qs. in_range r p) \<longleftrightarrow>
      (\<exists>f \<in> set (str_split spec '',''). \<exists>r. parsePortField spec f = Inr r \<and> in_range r p)"
    by (induction rule: list_all2_induct) auto
  then show ?thesis by (simp add: in_ranges_def q(2) set_dedup_acc)
qed

text \<open>The port list of an \<open>allowed_domains\<close> entry parses to a non-empty, sorted list of
  distinct ranges with \<open>1 \<le> Lo \<le> Hi\<close>, which cover exactly the ports its fields name.\<close>

theorem parsePortSpec_sound:
  assumes "parsePortSpec spec = Inr rs"
  shows "rs \<noteq> [] \<and> sorted rs \<and> distinct rs \<and> list_all range_ok rs \<and>
    (\<forall>p. in_ranges rs p \<longleftrightarrow>
      (\<exists>f \<in> set (str_split spec '',''). \<exists>r. parsePortField spec f = Inr r \<and> in_range r p))"
  using parsePortSpec_wf[OF assms] in_ranges_parsed[OF assms] by (simp add: list_all_iff)

lemma parsePortSpec_sound_witness:
  "sorted [PortRange 22 22, PortRange 443 443] \<and> list_all range_ok [PortRange 22 22, PortRange 443 443]"
proof -
  have "parsePortSpec ''443,22,443'' = Inr [PortRange 22 22, PortRange 443 443]"
    by (simp add: entry_eval)
  from parsePortSpec_sound[OF this] show ?thesis by blast
qed

text \<open>Ranges in the parser's normal form survive a round trip: rendering them as nft port
  values, joined by commas, and parsing the text gives the same ranges.\<close>

theorem parsePortSpec_roundtrip:
  assumes "rs \<noteq> []" and "sorted rs" and "distinct rs" and "list_all range_ok rs"
  shows "parsePortSpec (str_join '','' (map nftValue rs)) = Inr rs"
  by (rule parsePortSpec_render) (use assms in \<open>auto simp: list_all_iff\<close>)

lemma parsePortSpec_roundtrip_witness:
  "parsePortSpec (str_join '','' (map nftValue [PortRange 80 80, PortRange 8000 8100]))
     = Inr [PortRange 80 80, PortRange 8000 8100]"
  by (rule parsePortSpec_roundtrip) (simp_all add: less_eq_portRange_def range_ok_def)

text \<open>C4. The literal part of a compiled allowlist permits an address and a port exactly when
  one of the configured entries does: its address or network contains the address, and its own
  ports, else the global ones, else all, contain the port.\<close>

theorem NewAllowPolicy_permits:
  assumes "NewAllowPolicy entries = Inr p"
  shows "static_permits p g x port \<longleftrightarrow> (\<exists>raw \<in> set entries. entry_permits g raw x port)"
  using addEntries_permits[of emptyPolicy entries p g x port] assms by (simp add: NewAllowPolicy_def)

lemma NewAllowPolicy_permits_witness:
  "\<exists>p. NewAllowPolicy [''10.0.0.0/8:22'', ''1.2.3.4''] = Inr p \<and>
     (static_permits p [] 0x01020304 443 \<longleftrightarrow>
       (\<exists>raw \<in> set [''10.0.0.0/8:22'', ''1.2.3.4'']. entry_permits [] raw 0x01020304 443))"
proof -
  obtain p where p: "NewAllowPolicy [''10.0.0.0/8:22'', ''1.2.3.4''] = Inr p"
    by (simp add: NewAllowPolicy_def entry_eval)
  from NewAllowPolicy_permits[OF p] p show ?thesis by blast
qed

text \<open>An allowlist compiles exactly when every entry is acceptable by itself; no accepted
  entry is an IPv6 address or network or holds a wildcard, and the compiled policy holds only
  IPv4 networks, names that are neither addresses nor patterns, and valid port ranges.\<close>

theorem NewAllowPolicy_accepts:
  "(\<exists>p. NewAllowPolicy entries = Inr p \<and> policy_ok p) \<longleftrightarrow>
     list_all (\<lambda>raw. entry_accepted raw \<and> \<not> isIPv6Entry (trim_space raw) \<and> CHR ''*'' \<notin> set (entry_dest raw)) entries"
  using addEntries_accepted[of emptyPolicy entries] entry_accepted_dest NewAllowPolicy_ok[of entries]
  by (auto simp: NewAllowPolicy_def list_all_iff)

end
