(* ===== verification/ConfigNet.thy ===== *)
theory ConfigNet
  imports Prelude
begin

text \<open>
  The network section of the configuration, \<open>internal/config/types.go\<close>. A Go pointer to
  a bool is an option (\<open>nil\<close> is \<open>None\<close>), a slice a list (\<open>nil\<close> and empty are not told apart:
  the code that reads these fields only looks at their length and elements).
\<close>

text \<open>\<open>NetworkMode\<close> is a string type in the source; these are its three constants.\<close>

abbreviation NetworkModeOpen :: string where "NetworkModeOpen \<equiv> ''open''"
abbreviation NetworkModeRestricted :: string where "NetworkModeRestricted \<equiv> ''restricted''"
abbreviation NetworkModeAllowlist :: string where "NetworkModeAllowlist \<equiv> ''allowlist''"

record HostEntry =
  IP :: string
  Hostnames :: "string list"
  HPorts :: "int list"

record NetworkLoggingConfig =
  LogEnabled :: "bool option"
  LogPath :: string

record NetworkConfig =
  Mode :: string
  BlockPrivateNetworks :: "bool option"
  BlockMetadataEndpoint :: "bool option"
  AllowedDomains :: "string list"
  RefreshIntervalMinutes :: int
  AllowLocalNetworkAccess :: "bool option"
  UseSudo :: "bool option"
  Logging :: NetworkLoggingConfig
  Hosts :: "HostEntry list"
  DNSServers :: "string list"
  AllowedPorts :: "int list"

text \<open>\<open>config.BoolVal\<close>: a missing value reads as false.\<close>

definition BoolVal :: "bool option \<Rightarrow> bool" where
  "BoolVal b \<longleftrightarrow> b = Some True"

lemma BoolVal_simps [simp]: "BoolVal None = False" "BoolVal (Some b) = b"
  by (simp_all add: BoolVal_def)

text \<open>\<open>NetworkConfig.SudoAllowed\<close>: on unless it was turned off.\<close>

definition SudoAllowed :: "NetworkConfig \<Rightarrow> bool" where
  "SudoAllowed c \<longleftrightarrow> UseSudo c \<noteq> Some False"

end
