(* ===== verification/NftFilter.thy ===== *)
theory NftFilter
  imports NftSets ConfigNet
begin

text \<open>
  The rules of a container: \<open>internal/network/nft_filter.go\<close>, the rule emitters of
  \<open>internal/network/egress.go\<close> and \<open>internal/network/dnsblock.go\<close>. \<open>ApplyRestricted\<close> and
  \<open>ApplyAllowlist\<close> install the policy of the two enforcing modes, \<open>ApplyBootBlockRule\<close> the
  drop that holds until they have, \<open>DeleteCOIFilterRulesForIP\<close> removes it all.

  The lemmas show what a run that succeeds has appended to the forward chain (as the lists
  \<open>restrictedRules\<close> and \<open>allowlistRules\<close> of token sequences), that no run removes or
  reorders rules that were there, and what removal takes away.
\<close>

section \<open>Shared rules\<close>

definition EnsureBaseRules :: "'w netenv \<Rightarrow> ('w, unit) act" where
  "EnsureBaseRules E =
     thenA (ensureCOITableAndChain E)
       (bindA (nftRuleExistsWithComment E ''coi-base'') (\<lambda>exists.
          if exists then retA () else
          nftDo E [''add'', ''rule'', ''ip'', ''coi'', ''forward'', ''ct'', ''state'', ''established,related'', ''accept'',
             ''comment'', quoted ''coi-base'']))"

definition EnsureOpenModeRules :: "'w netenv \<Rightarrow> string \<Rightarrow> ('w, unit) act" where
  "EnsureOpenModeRules E ip =
     thenA (warnA (EnsureBaseRules E))
       (bindA (nftRuleExistsWithComment E (''coi-'' @ ip)) (\<lambda>exists.
          if exists then retA () else
          wrapA ''failed to add open mode rule''
            (nftDo E [''add'', ''rule'', ''ip'', ''coi'', ''forward'', ''ip'', ''saddr'', ip, ''accept'',
               ''comment'', quoted (''coi-'' @ ip)])))"

definition RemoveOpenModeRules :: "'w netenv \<Rightarrow> string \<Rightarrow> ('w, unit) act" where
  "RemoveOpenModeRules E ip = (if ip = [] then retA () else deleteNFTRulesByComment E (''coi-'' @ ip))"

section \<open>The boot block and the IPv6 block\<close>

text \<open>What these two ask of the host besides \<open>nft\<close>: the veth of a container, and whether
  the \<open>nft\<close> binary is installed.\<close>

record 'w hostenv =
  NftInstalled :: bool
  GetContainerVethName :: "string \<Rightarrow> ('w, string) act"

definition bootBlockComment :: "string \<Rightarrow> string" where
  "bootBlockComment name = ''coi-boot-'' @ name"

definition ipv6BlockComment :: "string \<Rightarrow> string" where
  "ipv6BlockComment name = ''coi6-'' @ name"

text \<open>The poll of \<open>ApplyBootBlockRule\<close>, at most \<open>n\<close> times, with \<open>None\<close> for no veth.\<close>

fun pollVeth :: "'w hostenv \<Rightarrow> string \<Rightarrow> nat \<Rightarrow> ('w, string option) act" where
  "pollVeth H name 0 = retA None"
| "pollVeth H name (Suc n) = bindA (tryA (GetContainerVethName H name)) (\<lambda>r. case r of
       Inr veth \<Rightarrow> if veth \<noteq> [] then retA (Some veth) else pollVeth H name n
     | Inl _ \<Rightarrow> pollVeth H name n)"

definition addDropRule :: "'w netenv \<Rightarrow> string \<Rightarrow> string \<Rightarrow> string \<Rightarrow> ('w, unit) act" where
  "addDropRule E family veth comment =
     bindA (tryA (nftRuleExistsWithCommentFamily E family comment)) (\<lambda>r.
       if r = Inr True then retA () else
       wrapA ''failed to add block rule''
         (nftDo E [''add'', ''rule'', family, ''coi'', ''forward'', ''iifname'', veth, ''drop'', ''comment'', quoted comment]))"

definition ApplyBootBlockRule :: "'w netenv \<Rightarrow> 'w hostenv \<Rightarrow> string \<Rightarrow> ('w, unit) act" where
  "ApplyBootBlockRule E H name = (if \<not> sudo_on E then retA ()
     else if \<not> NftInstalled H then failA (Errorf ''nft not installed, boot block skipped'' [])
     else thenA (wrapA ''failed to ensure coi chain'' (ensureCOITableAndChain E))
       (bindA (pollVeth H name 20) (\<lambda>v. case v of
           None \<Rightarrow> failA (Errorf ''veth for container %s did not appear within 2s'' [name])
         | Some veth \<Rightarrow> addDropRule E ''ip'' veth (bootBlockComment name))))"

definition RemoveBootBlockRule :: "'w netenv \<Rightarrow> string \<Rightarrow> ('w, unit) act" where
  "RemoveBootBlockRule E name = (if \<not> sudo_on E then retA ()
     else deleteNFTRulesByComment E (bootBlockComment name))"

definition ApplyIPv6BlockForContainer :: "'w netenv \<Rightarrow> 'w hostenv \<Rightarrow> string \<Rightarrow> ('w, unit) act" where
  "ApplyIPv6BlockForContainer E H name =
     (if \<not> NftInstalled H then failA (Errorf ''nft not installed, IPv6 block skipped'' [])
      else thenA (ensureCOIIP6TableAndChain E)
        (bindA (tryA (GetContainerVethName H name)) (\<lambda>v. case v of
            Inl e \<Rightarrow> failA (Wrapf (''could not resolve veth for IPv6 block on '' @ name) e)
          | Inr veth \<Rightarrow> if veth = [] then failA (Errorf ''could not resolve veth for IPv6 block on %s'' [name])
              else addDropRule E ''ip6'' veth (ipv6BlockComment name))))"

definition RemoveIPv6BlockForContainer :: "'w netenv \<Rightarrow> string \<Rightarrow> ('w, unit) act" where
  "RemoveIPv6BlockForContainer E name = deleteNFTRulesByCommentFamily E ''ip6'' (ipv6BlockComment name)"

section \<open>Emitting a rule\<close>

text \<open>The tokens of a rule, after the chain name.\<close>

definition ruleToks :: "string \<Rightarrow> string \<Rightarrow> string \<Rightarrow> string list \<Rightarrow> string \<Rightarrow> string list" where
  "ruleToks ip source destination match action =
     [''ip'', ''saddr'', source] @
     (if destination \<noteq> ''0.0.0.0/0'' then [''ip'', ''daddr'', destination] else []) @
     match @ [action, ''comment'', quoted (''coi-'' @ ip)]"

definition addRuleWithMatch ::
    "'w netenv \<Rightarrow> NftManager \<Rightarrow> string \<Rightarrow> string \<Rightarrow> string list \<Rightarrow> string \<Rightarrow> ('w, unit) act" where
  "addRuleWithMatch E f source destination match action =
     wrapA ''nft rule add failed''
       (nftDo E ([''add'', ''rule'', ''ip'', ''coi'', ''forward''] @
          ruleToks (containerIP f) source destination match action))"

definition addRule :: "'w netenv \<Rightarrow> NftManager \<Rightarrow> string \<Rightarrow> string \<Rightarrow> string \<Rightarrow> ('w, unit) act" where
  "addRule E f source destination action = addRuleWithMatch E f source destination [] action"

definition privateCIDRs :: "string list" where
  "privateCIDRs = [''10.0.0.0/8'', ''172.16.0.0/12'', ''192.168.0.0/16'']"

definition dnsMatch :: "string list" where
  "dnsMatch = [''meta'', ''l4proto'', ''{'', ''tcp,'', ''udp'', ''}'', ''th'', ''dport'', ''53'']"

definition icmpMatch :: "string list" where
  "icmpMatch = [''icmp'', ''type'', ''echo-request'', ''limit'', ''rate'', ''10/second'']"

definition addLocalNetworkAllows :: "'w netenv \<Rightarrow> NftManager \<Rightarrow> int list \<Rightarrow> ('w, unit) act" where
  "addLocalNetworkAllows E f allowedPorts = forA (\<lambda>cidr.
     if length allowedPorts > 0 then
       wrapA ''failed to add port-scoped RFC1918 allow rule''
         (addRuleWithMatch E f (containerIP f) cidr (l4PortMatch allowedPorts) ''accept'')
     else wrapA ''failed to add RFC1918 allow rule'' (addRule E f (containerIP f) cidr ''accept'')) privateCIDRs"

definition pinDNSForward :: "'w netenv \<Rightarrow> NftManager \<Rightarrow> string list \<Rightarrow> ('w, unit) act" where
  "pinDNSForward E f servers = (if containerIP f = [] \<or> length servers = 0 then retA () else
     thenA (forA (\<lambda>s. wrapA (''failed to add DNS pin accept for '' @ s)
              (addRuleWithMatch E f (containerIP f) (s @ ''/32'') dnsMatch ''accept'')) servers)
       (wrapA ''failed to add DNS pin reject''
          (addRuleWithMatch E f (containerIP f) ''0.0.0.0/0'' dnsMatch ''reject'')))"

definition blockDNS :: "'w netenv \<Rightarrow> NftManager \<Rightarrow> ('w, unit) act" where
  "blockDNS E f = (if containerIP f = [] then retA () else
     thenA (wrapA ''failed to add DNS block rule (forward)''
              (addRuleWithMatch E f (containerIP f) ''0.0.0.0/0'' dnsMatch ''reject''))
    (thenA (ensureCOIInputChain E)
       (wrapA ''failed to add DNS block rule (input)''
          (nftDo E ([''add'', ''rule'', ''ip'', ''coi'', ''input'', ''ip'', ''saddr'', containerIP f] @ dnsMatch @
             [''reject'', ''comment'', quoted (''coi-'' @ containerIP f)])))))"

section \<open>Restricted mode\<close>

definition ApplyRestricted :: "'w netenv \<Rightarrow> NftManager \<Rightarrow> NetworkConfig \<Rightarrow> ('w, unit) act" where
  "ApplyRestricted E f cfg =
     bindA (liftA (validateDNSServers (DNSServers cfg))) (\<lambda>dnsServers.
     bindA (liftA (validateAllowedPorts (AllowedPorts cfg))) (\<lambda>allowedPorts.
       thenA (warnA (EnsureBaseRules E))
      (thenA (if gatewayIP f \<noteq> [] then wrapA ''failed to add gateway allow rule''
                (addRule E f (containerIP f) (gatewayIP f @ ''/32'') ''accept'') else retA ())
      (thenA (pinDNSForward E f dnsServers)
      (thenA (if BoolVal (AllowLocalNetworkAccess cfg) then addLocalNetworkAllows E f allowedPorts
              else if BoolVal (BlockPrivateNetworks cfg) then
                forA (\<lambda>cidr. wrapA ''failed to add RFC1918 block rule''
                  (addRule E f (containerIP f) cidr ''reject'')) privateCIDRs
              else retA ())
      (thenA (if BoolVal (BlockMetadataEndpoint cfg) then wrapA ''failed to add metadata block rule''
                (addRule E f (containerIP f) ''169.254.0.0/16'' ''reject'') else retA ())
      (if length allowedPorts > 0 then
         thenA (wrapA ''failed to add port-capped allow rule''
                  (addRuleWithMatch E f (containerIP f) ''0.0.0.0/0'' (l4PortMatch allowedPorts) ''accept''))
        (thenA (wrapA ''failed to add ICMP allow rule''
                  (addRuleWithMatch E f (containerIP f) ''0.0.0.0/0'' icmpMatch ''accept''))
         (wrapA ''failed to add port-cap default deny rule''
            (addRule E f (containerIP f) ''0.0.0.0/0'' ''reject'')))
       else wrapA ''failed to add default allow rule''
              (addRule E f (containerIP f) ''0.0.0.0/0'' ''accept''))))))))"

section \<open>Allowlist mode\<close>

definition allowlistL4Match :: "string \<Rightarrow> string list" where
  "allowlistL4Match s = [''meta'', ''l4proto'', ''{'', ''tcp,'', ''udp'', ''}'', ''ip'', ''daddr'', ''.'', ''th'', ''dport'', ''@'' @ s]"

definition dhcpMatch :: "string list" where
  "dhcpMatch = [''udp'', ''dport'', ''{'', ''67,'', ''68'', ''}'']"

text \<open>The rules after the DNS block: DHCP, private networks, the sets, the default deny.\<close>

definition allowlistChain :: "'w netenv \<Rightarrow> NftManager \<Rightarrow> NetworkConfig \<Rightarrow> int list \<Rightarrow> ('w, unit) act" where
  "allowlistChain E f cfg allowedPorts =
       thenA (wrapA ''failed to add gateway DHCP allow rule''
                (addRuleWithMatch E f (containerIP f) (gatewayIP f @ ''/32'') dhcpMatch ''accept''))
      (thenA (if BoolVal (AllowLocalNetworkAccess cfg) then addLocalNetworkAllows E f allowedPorts
              else forA (\<lambda>cidr. wrapA ''failed to add RFC1918/metadata block rule''
                (addRule E f (containerIP f) cidr ''reject'')) (privateCIDRs @ [''169.254.0.0/16'']))
      (thenA (forA (\<lambda>set. wrapA (''failed to add allowlist L4 rule for set '' @ set)
                (addRuleWithMatch E f (containerIP f) ''0.0.0.0/0'' (allowlistL4Match set) ''accept''))
              [staticPortSetName (containerIP f), dynamicPortSetName (containerIP f)])
      (thenA (forA (\<lambda>set. wrapA (''failed to add allowlist ICMP rule for set '' @ set)
                (addRuleWithMatch E f (containerIP f) (''@'' @ set) icmpMatch ''accept''))
              [staticSetName (containerIP f), dynamicSetName (containerIP f)])
       (wrapA ''failed to add default deny rule''
          (addRule E f (containerIP f) ''0.0.0.0/0'' ''reject'')))))"

definition ApplyAllowlist :: "'w netenv \<Rightarrow> NftManager \<Rightarrow> NetworkConfig \<Rightarrow> string list \<Rightarrow> ('w, unit) act" where
  "ApplyAllowlist E f cfg _ = (if gatewayIP f = []
     then failA (Errorf ''allowlist mode requires a gateway IP (for the DHCP renewal accept rule)'' []) else
     bindA (liftA (validateAllowedPorts (AllowedPorts cfg))) (\<lambda>allowedPorts.
     bindA (wrapA ''failed to compile allowed_domains'' (liftA (NewAllowPolicy (AllowedDomains cfg)))) (\<lambda>policy.
       thenA (warnA (EnsureBaseRules E))
      (thenA (ensureAllowlistSets E f)
      (thenA (AddStaticIPs E f (staticCIDRs policy))
      (thenA (AddStaticTuples E f (staticTups policy) (intsToPortRanges allowedPorts))
      (thenA (blockDNS E f)
       (allowlistChain E f cfg allowedPorts))))))))"

text \<open>The \<open>cfg\<close> of \<open>ReplaceAllowlist\<close> may be nil.\<close>

definition ReplaceAllowlist :: "'w netenv \<Rightarrow> NftManager \<Rightarrow> NetworkConfig option \<Rightarrow> string list \<Rightarrow> ('w, unit) act" where
  "ReplaceAllowlist E f cfg0 cidrs = (if containerIP f = [] then retA () else
     thenA (ensureAllowlistSets E f)
       (case cfg0 of None \<Rightarrow> AddStaticIPs E f cidrs
        | Some cfg \<Rightarrow>
          bindA (liftA (validateAllowedPorts (AllowedPorts cfg))) (\<lambda>allowedPorts.
          bindA (wrapA ''failed to compile allowed_domains'' (liftA (NewAllowPolicy (AllowedDomains cfg)))) (\<lambda>policy.
            thenA (AddStaticIPs E f (staticCIDRs policy))
              (AddStaticTuples E f (staticTups policy) (intsToPortRanges allowedPorts))))))"

section \<open>Removing everything of a container\<close>

definition DeleteCOIFilterRulesForIP :: "'w netenv \<Rightarrow> string \<Rightarrow> ('w, unit) act" where
  "DeleteCOIFilterRulesForIP E ip = (if ip = [] then retA () else
     thenA (deleteNFTRulesByComment E (''coi-'' @ ip))
    (thenA (removeInputRulesForIP E ip) (removeAllowlistSetsForIP E ip)))"

definition RemoveRules :: "'w netenv \<Rightarrow> NftManager \<Rightarrow> ('w, unit) act" where
  "RemoveRules E f = DeleteCOIFilterRulesForIP E (containerIP f)"

section \<open>The kernel's tables as lists of tokens\<close>

text \<open>What counts for a packet: the token sequences of a chain and the elements of a set. A
  chain or set that does not exist yet reads as empty.\<close>

definition toks :: "chain_id \<Rightarrow> nft_state \<Rightarrow> string list list" where
  "toks ch s = (case nft_chains s ch of None \<Rightarrow> [] | Some rs \<Rightarrow> map snd rs)"

definition elems :: "string \<Rightarrow> nft_state \<Rightarrow> string list" where
  "elems n s = (case nft_sets s n of None \<Rightarrow> [] | Some es \<Rightarrow> es)"

abbreviation fwd :: chain_id where "fwd \<equiv> (''ip'', ''coi'', ''forward'')"
abbreviation inp :: chain_id where "inp \<equiv> (''ip'', ''coi'', ''input'')"
abbreviation fwd6 :: chain_id where "fwd6 \<equiv> (''ip6'', ''coi'', ''forward'')"

text \<open>What a run that succeeds has added, in order.\<close>

datatype event = Rule chain_id "string list" | Elems string "string list"

fun rules_of :: "chain_id \<Rightarrow> event list \<Rightarrow> string list list" where
  "rules_of ch [] = []"
| "rules_of ch (Rule c t # evs) = (if c = ch then t # rules_of ch evs else rules_of ch evs)"
| "rules_of ch (Elems n es # evs) = rules_of ch evs"

fun elems_of :: "string \<Rightarrow> event list \<Rightarrow> string list" where
  "elems_of n [] = []"
| "elems_of n (Rule c t # evs) = elems_of n evs"
| "elems_of n (Elems m es # evs) = (if m = n then es @ elems_of n evs else elems_of n evs)"

lemma rules_of_append [simp]: "rules_of ch (a @ b) = rules_of ch a @ rules_of ch b"
  by (induction ch a rule: rules_of.induct) auto

lemma elems_of_append [simp]: "elems_of n (a @ b) = elems_of n a @ elems_of n b"
  by (induction n a rule: elems_of.induct) auto

definition adds :: "event list \<Rightarrow> nft_state \<Rightarrow> nft_state \<Rightarrow> bool" where
  "adds evs s s' \<longleftrightarrow> (\<forall>ch. toks ch s' = toks ch s @ rules_of ch evs) \<and> (\<forall>n. elems n s' = elems n s @ elems_of n evs)"

lemma adds_refl [simp]: "adds [] s s"
  by (simp add: adds_def)

lemma adds_trans: "adds a s t \<Longrightarrow> adds b t u \<Longrightarrow> adds (a @ b) s u"
  by (simp add: adds_def)

text \<open>The effect of each command in these terms.\<close>

lemma add_rule_adds: "nft_doc (''add'' # ''rule'' # f # t # c # ts) s = Some s' \<Longrightarrow> adds [Rule (f, t, c) ts] s s'"
  by (auto simp: nft_doc_add_rule adds_def toks_def elems_def split: option.splits)

lemma insert_rule_toks:
  assumes "nft_doc (''insert'' # ''rule'' # f # t # c # ts) s = Some s'"
  shows "toks (f, t, c) s' = ts # toks (f, t, c) s" "ch \<noteq> (f, t, c) \<Longrightarrow> toks ch s' = toks ch s" "elems n s' = elems n s"
  using assms by (auto simp: nft_doc_insert_rule toks_def elems_def split: option.splits)

lemma add_chain_adds: "nft_doc (''add'' # ''chain'' # f # t # c # ts) s = Some s' \<Longrightarrow> adds [] s s'"
  by (auto simp: nft_doc_add_chain adds_def toks_def elems_def split: option.splits if_splits)

lemma add_table_adds: "nft_doc [''add'', ''table'', f, t] s = Some s' \<Longrightarrow> adds [] s s'"
  by (auto simp: nft_doc_add_table)

lemma add_set_adds: "nft_doc (''add'' # ''set'' # f # t # c # ts) s = Some s' \<Longrightarrow> adds [] s s'"
  by (auto simp: nft_doc_add_set adds_def toks_def elems_def split: option.splits if_splits)

lemma grown_adds: "grown n s s' \<Longrightarrow> \<exists>es. (es = [] \<or> nft_sets s n \<noteq> None) \<and> adds [Elems n es] s s'"
proof (cases "nft_sets s n")
  case None
  then show "grown n s s' \<Longrightarrow> ?thesis" by (intro exI[of _ "[]"]) (auto simp: grown_def adds_def toks_def elems_def)
next
  case (Some old)
  then show "grown n s s' \<Longrightarrow> ?thesis" by (auto simp: grown_def adds_def toks_def elems_def)
qed

lemma pruned_toks:
  assumes "pruned ch c s s'"
  shows "d \<noteq> ch \<Longrightarrow> toks d s' = toks d s" "elems n s' = elems n s"
    "\<exists>ts. toks ch s' = ts \<and> filter (\<lambda>t. comment_tok t \<noteq> Some (quoted c)) ts = filter (\<lambda>t. comment_tok t \<noteq> Some (quoted c)) (toks ch s)"
proof -
  show "d \<noteq> ch \<Longrightarrow> toks d s' = toks d s" "elems n s' = elems n s"
    using prunedD[OF assms] by (auto simp: toks_def elems_def)
  have m: "filter (\<lambda>t. comment_tok t \<noteq> Some (quoted c)) (map snd rs) = map snd (filter (\<lambda>r. \<not> has_comment c r) rs)" for rs
    by (simp add: filter_map o_def has_comment_def)
  show "\<exists>ts. toks ch s' = ts \<and> filter (\<lambda>t. comment_tok t \<noteq> Some (quoted c)) ts = filter (\<lambda>t. comment_tok t \<noteq> Some (quoted c)) (toks ch s)"
  proof (cases "nft_chains s ch")
    case None
    then have "nft_chains s' ch = None" using prunedD(4)[OF assms] by blast
    with None show ?thesis by (simp add: toks_def)
  next
    case (Some rs)
    from pruned_chain[OF assms Some] obtain rs' where "nft_chains s' ch = Some rs'"
      "filter (\<lambda>r. \<not> has_comment c r) rs' = filter (\<lambda>r. \<not> has_comment c r) rs" by metis
    with Some show ?thesis by (simp add: toks_def m)
  qed
qed

section \<open>What the operations add\<close>

context nft_kernel
begin

text \<open>An action that, when it succeeds, has added exactly these events.\<close>

definition emits :: "event list \<Rightarrow> ('w, 'a) act \<Rightarrow> bool" where
  "emits evs m \<longleftrightarrow> (\<forall>w u w'. m w = (Inr u, w') \<longrightarrow> adds evs (view w) (view w'))"

lemma emitsI: "(\<And>w u w'. m w = (Inr u, w') \<Longrightarrow> adds evs (view w) (view w')) \<Longrightarrow> emits evs m"
  by (auto simp: emits_def)

lemma emitsD: "emits evs m \<Longrightarrow> m w = (Inr u, w') \<Longrightarrow> adds evs (view w) (view w')"
  by (auto simp: emits_def)

lemma emits_ret: "emits [] (retA x)" "emits evs (failA e)"
  by (auto simp: emits_def)

lemma emits_then: "emits a m \<Longrightarrow> emits b k \<Longrightarrow> emits (a @ b) (thenA m k)"
  by (fastforce simp: emits_def thenA_Inr intro: adds_trans)

lemma emits_wrap: "emits a m \<Longrightarrow> emits a (wrapA c m)"
  by (auto simp: emits_def wrapA_Inr)

lemma emits_if: "(b \<Longrightarrow> emits x m) \<Longrightarrow> (\<not> b \<Longrightarrow> emits y k) \<Longrightarrow> emits (if b then x else y) (if b then m else k)"
  by auto

lemma emits_for: "(\<And>x. x \<in> set xs \<Longrightarrow> emits (g x) (f x)) \<Longrightarrow> emits (concat (map g xs)) (forA f xs)"
  by (induction xs) (auto intro: emits_ret emits_then)

lemmas emits_intros = emits_ret emits_then emits_wrap emits_if emits_for

lemma emits_rule: "emits [Rule (f, t, c) ts] (nftDo E (''add'' # ''rule'' # f # t # c # ts))"
  by (rule emitsI) (use nftDo_ok add_rule_adds in blast)

lemma emits_addRuleWithMatch:
  "emits [Rule fwd (ruleToks (containerIP f) src dst match action)] (addRuleWithMatch E f src dst match action)"
  unfolding addRuleWithMatch_def append.simps by (intro emits_intros emits_rule)

lemma emits_addRule: "emits [Rule fwd (ruleToks (containerIP f) src dst [] action)] (addRule E f src dst action)"
  unfolding addRule_def by (rule emits_addRuleWithMatch)

lemma emits_nothing:
  "emits [] (nftDo E [''add'', ''table'', f, t])"
  "emits [] (nftDo E (''add'' # ''chain'' # f # t # c # ts))"
  "emits [] (nftDo E (''add'' # ''set'' # f # t # c # ts))"
  by (auto intro!: emitsI dest!: nftDo_ok dest: add_table_adds add_chain_adds add_set_adds)

lemma emits_ensureCOIChain: "emits [] (ensureCOIChain E f c hook)"
proof (rule emitsI)
  fix w u w'
  assume "ensureCOIChain E f c hook w = (Inr u, w')"
  then obtain x w1 where t: "wrapA (''failed to create nft table '' @ f @ '' coi'') (nftDo E [''add'', ''table'', f, ''coi'']) w = (Inr x, w1)"
    and rest: "bindA (tryA (runNFTCommand E [''list'', ''chain'', f, ''coi'', c])) (\<lambda>r. case r of
          Inr _ \<Rightarrow> retA ()
        | Inl _ \<Rightarrow> wrapA (''failed to create nft chain '' @ f @ '' coi '' @ c)
            (nftDo E (''add'' # ''chain'' # f # ''coi'' # c # [''{'', ''type'', ''filter'', ''hook'', c,
               ''priority''] @ hook @ ['';'', ''policy'', ''accept'', '';'', ''}'']))) w1 = (Inr u, w')"
    by (auto simp: ensureCOIChain_def thenA_Inr)
  have a: "adds [] (view w) (view w1)"
    by (rule emitsD[OF emits_wrap[OF emits_nothing(1)] t])
  obtain q w2 where q: "runNFTCommand E [''list'', ''chain'', f, ''coi'', c] w1 = (q, w2)" by force
  note v = list_view(1)[OF q]
  have "adds [] (view w1) (view w')"
  proof (cases q)
    case (Inl e)
    with rest q v emitsD[OF emits_wrap[OF emits_nothing(2)]] show ?thesis
      by (force simp: bindA_def tryA_def)
  next
    case (Inr out)
    with rest q v show ?thesis by (simp add: bindA_def tryA_def)
  qed
  with a adds_trans show "adds [] (view w) (view w')" by fastforce
qed

lemma emits_ensure:
  "emits [] (ensureCOITableAndChain E)" "emits [] (ensureCOIInputChain E)" "emits [] (ensureCOIIP6TableAndChain E)"
  by (simp_all add: ensureCOITableAndChain_def ensureCOIInputChain_def ensureCOIIP6TableAndChain_def emits_ensureCOIChain)

end

section \<open>The policies as lists of rules\<close>

definition baseToks :: "string list" where
  "baseToks = [''ct'', ''state'', ''established,related'', ''accept'', ''comment'', quoted ''coi-base'']"

definition localAllowRules :: "string \<Rightarrow> int list \<Rightarrow> string list list" where
  "localAllowRules ip ports =
     map (\<lambda>cidr. ruleToks ip ip cidr (if length ports > 0 then l4PortMatch ports else []) ''accept'') privateCIDRs"

definition dnsPinRules :: "string \<Rightarrow> string list \<Rightarrow> string list list" where
  "dnsPinRules ip servers = (if ip = [] \<or> servers = [] then []
     else map (\<lambda>s. ruleToks ip ip (s @ ''/32'') dnsMatch ''accept'') servers
       @ [ruleToks ip ip ''0.0.0.0/0'' dnsMatch ''reject''])"

definition restrictedRules :: "string \<Rightarrow> string \<Rightarrow> NetworkConfig \<Rightarrow> string list \<Rightarrow> int list \<Rightarrow> string list list" where
  "restrictedRules ip gw cfg servers ports =
     (if gw \<noteq> [] then [ruleToks ip ip (gw @ ''/32'') [] ''accept''] else []) @
     dnsPinRules ip servers @
     (if BoolVal (AllowLocalNetworkAccess cfg) then localAllowRules ip ports
      else if BoolVal (BlockPrivateNetworks cfg) then map (\<lambda>cidr. ruleToks ip ip cidr [] ''reject'') privateCIDRs
      else []) @
     (if BoolVal (BlockMetadataEndpoint cfg) then [ruleToks ip ip ''169.254.0.0/16'' [] ''reject''] else []) @
     (if length ports > 0 then
        [ruleToks ip ip ''0.0.0.0/0'' (l4PortMatch ports) ''accept'',
         ruleToks ip ip ''0.0.0.0/0'' icmpMatch ''accept'',
         ruleToks ip ip ''0.0.0.0/0'' [] ''reject'']
      else [ruleToks ip ip ''0.0.0.0/0'' [] ''accept''])"

definition allowlistRules :: "string \<Rightarrow> string \<Rightarrow> NetworkConfig \<Rightarrow> int list \<Rightarrow> string list list" where
  "allowlistRules ip gw cfg ports =
     [ruleToks ip ip ''0.0.0.0/0'' dnsMatch ''reject'', ruleToks ip ip (gw @ ''/32'') dhcpMatch ''accept''] @
     (if BoolVal (AllowLocalNetworkAccess cfg) then localAllowRules ip ports
      else map (\<lambda>cidr. ruleToks ip ip cidr [] ''reject'') (privateCIDRs @ [''169.254.0.0/16''])) @
     [ruleToks ip ip ''0.0.0.0/0'' (allowlistL4Match (staticPortSetName ip)) ''accept'',
      ruleToks ip ip ''0.0.0.0/0'' (allowlistL4Match (dynamicPortSetName ip)) ''accept'',
      ruleToks ip ip (''@'' @ staticSetName ip) icmpMatch ''accept'',
      ruleToks ip ip (''@'' @ dynamicSetName ip) icmpMatch ''accept'',
      ruleToks ip ip ''0.0.0.0/0'' [] ''reject'']"

definition inputDNSRule :: "string \<Rightarrow> string list" where
  "inputDNSRule ip = [''ip'', ''saddr'', ip] @ dnsMatch @ [''reject'', ''comment'', quoted (''coi-'' @ ip)]"

abbreviation fwdRules :: "string list list \<Rightarrow> event list" where
  "fwdRules rs \<equiv> map (Rule fwd) rs"

lemma rules_of_fwdRules [simp]: "rules_of ch (fwdRules rs) = (if ch = fwd then rs else [])"
  by (induction rs) auto

lemma elems_of_fwdRules [simp]: "elems_of n (fwdRules rs) = []"
  by (induction rs) auto

lemma adds_Elems_nil: "adds (a @ Elems n [] # b) s s' \<longleftrightarrow> adds (a @ b) s s'"
  by (simp add: adds_def)

text \<open>The texts of policy elements hold no comma.\<close>

lemma net4_string_safe: "elem_safe (net4_string a n)"
proof -
  have "CHR '','' \<notin> set (ip4_string a)"
    using ip4_string_chars[of "CHR '',''" a] by (auto simp: is_digit_def)
  moreover have "CHR '','' \<notin> set (itoa n)" using itoa_notin[of "CHR '',''" n] by (simp add: is_digit_def)
  ultimately show ?thesis by (auto simp: elem_safe_def net4_string_def)
qed

lemma portTupleElem_safe: "elem_safe c \<Longrightarrow> elem_safe (portTupleElem c r)"
  using nftValue_chars[of "CHR '',''" r] by (auto simp: elem_safe_def portTupleElem_def is_digit_def)

lemma policy_safe:
  assumes "policy_ok p"
  shows "list_all elem_safe (staticCIDRs p)" and "list_all (\<lambda>t. elem_safe (CIDR t)) (staticTups p)"
proof -
  have t: "\<And>t. t \<in> set (staticTups p) \<Longrightarrow> elem_safe (CIDR t)"
    using assms net4_string_safe by (fastforce simp: policy_ok_def tuple_ok_def)
  then show "list_all (\<lambda>t. elem_safe (CIDR t)) (staticTups p)" by (simp add: list_all_iff)
  from t assms show "list_all elem_safe (staticCIDRs p)" by (simp add: policy_ok_def list_all_iff)
qed

lemma tupleElements_safe: "list_all (\<lambda>t. elem_safe (CIDR t)) ts \<Longrightarrow> list_all elem_safe (tupleElements ts g)"
  by (auto simp: tupleElements_def list_all_iff intro: portTupleElem_safe)

lemma list_all_sort [simp]: "list_all P (sort xs) \<longleftrightarrow> list_all P xs"
  by (simp add: list_all_iff)

context nft_kernel
begin

lemma emits_addSetElements:
  assumes "list_all elem_safe es"
  shows "emits [Elems n es] (addSetElements E n es)"
proof (rule emitsI)
  fix w u w'
  assume a: "addSetElements E n es w = (Inr u, w')"
  show "adds [Elems n es] (view w) (view w')"
  proof (cases "es = []")
    case True
    with a show ?thesis by (simp add: addSetElements_def adds_def)
  next
    case False
    from addSetElements_ok[OF a assms False] show ?thesis
      by (auto simp: adds_def toks_def elems_def)
  qed
qed

lemma emits_AddStaticIPs:
  assumes "list_all elem_safe cidrs" and "containerIP f \<noteq> []"
  shows "emits [Elems (staticSetName (containerIP f)) (sort cidrs)] (AddStaticIPs E f cidrs)"
proof (cases "cidrs = []")
  case True
  then show ?thesis by (simp add: AddStaticIPs_def emits_def adds_def)
next
  case False
  with assms show ?thesis by (simp add: AddStaticIPs_def emits_addSetElements)
qed

lemma emits_AddStaticTuples:
  assumes "list_all (\<lambda>t. elem_safe (CIDR t)) ts" and "containerIP f \<noteq> []"
  shows "emits [Elems (staticPortSetName (containerIP f)) (sort (tupleElements ts g))] (AddStaticTuples E f ts g)"
proof (cases "ts = []")
  case True
  then show ?thesis by (simp add: AddStaticTuples_def tupleElements_def emits_def adds_def)
next
  case False
  with assms show ?thesis by (simp add: AddStaticTuples_def emits_addSetElements tupleElements_safe)
qed

lemma emits_ensureAllowlistSets: "emits [] (ensureAllowlistSets E f)"
proof -
  have "emits ([] @ [] @ [] @ [] @ []) (ensureAllowlistSets E f)"
    unfolding ensureAllowlistSets_def by (intro emits_intros emits_ensure emits_nothing)
  then show ?thesis by simp
qed

lemma base_adds:
  assumes "warnA (EnsureBaseRules E) w = (r, w')"
  shows "\<exists>evs \<in> {[], [Rule fwd baseToks]}. adds evs (view w) (view w')"
proof -
  have chain: "adds [] (view w) (view w1)" if "ensureCOITableAndChain E w = (q, w1)" for w q w1
  proof -
    have k: "keeps (\<lambda>v. adds [] (view w) (view v)) (ensureCOITableAndChain E)"
      unfolding ensureCOITableAndChain_def ensureCOIChain_def
    proof (intro keeps_intros)
      show "keeps (\<lambda>v. adds [] (view w) (view v)) (nftDo E [''add'', ''table'', ''ip'', ''coi''])"
        using nftDo_step add_table_adds adds_trans by (fastforce intro: keepsI)
      show "keeps (\<lambda>v. adds [] (view w) (view v)) (runNFTCommand E [''list'', ''chain'', ''ip'', ''coi'', ''forward''])"
        using list_view(1) by (fastforce intro: keepsI)
      show "keeps (\<lambda>v. adds [] (view w) (view v)) (nftDo E ([''add'', ''chain'', ''ip'', ''coi'', ''forward'', ''{'', ''type'',
          ''filter'', ''hook'', ''forward'', ''priority''] @ [''10''] @ ['';'', ''policy'', ''accept'', '';'', ''}'']))"
        using nftDo_step add_chain_adds adds_trans by (fastforce intro: keepsI)
    qed
    show ?thesis using keepsD[OF k that] by simp
  qed
  obtain q w1 where q: "ensureCOITableAndChain E w = (q, w1)" by force
  note a1 = chain[OF q]
  show ?thesis
  proof (cases q)
    case (Inl e)
    with assms q have "w' = w1" by (auto simp: warnA_def EnsureBaseRules_def thenA_def bindA_def)
    with a1 show ?thesis by blast
  next
    case (Inr u)
    obtain x w2 where x: "nftRuleExistsWithComment E ''coi-base'' w1 = (x, w2)" by force
    then have v: "view w2 = view w1" by (auto simp: nftRuleExistsWithComment_def dest: exists_view)
    show ?thesis
    proof (cases "x = Inr False")
      case False
      with assms q Inr x have "w' = w2"
        by (cases x) (auto simp: warnA_def EnsureBaseRules_def thenA_def bindA_def)
      with a1 v show ?thesis by auto
    next
      case True
      obtain y w3 where y: "nftDo E [''add'', ''rule'', ''ip'', ''coi'', ''forward'', ''ct'', ''state'', ''established,related'',
          ''accept'', ''comment'', quoted ''coi-base''] w2 = (y, w3)" by force
      with assms q Inr x True have "w' = w3" by (auto simp: warnA_def EnsureBaseRules_def thenA_def bindA_def)
      moreover have "view w3 = view w2 \<or> adds [Rule fwd baseToks] (view w2) (view w3)"
        using nftDo_step[OF y] add_rule_adds by (auto simp: baseToks_def)
      ultimately show ?thesis using a1 v by (auto simp: adds_def)
    qed
  qed
qed

lemma base_adds_rules:
  assumes "warnA (EnsureBaseRules E) w = (r, w')"
  obtains base where "base \<in> {[], [baseToks]}" "adds (fwdRules base) (view w) (view w')"
  using base_adds[OF assms] that[of "[]"] that[of "[baseToks]"] by auto

lemma emits_localAllows:
  "emits (fwdRules (localAllowRules (containerIP f) ports)) (addLocalNetworkAllows E f ports)"
proof -
  have "emits (concat (map (\<lambda>cidr. if length ports > 0
      then [Rule fwd (ruleToks (containerIP f) (containerIP f) cidr (l4PortMatch ports) ''accept'')]
      else [Rule fwd (ruleToks (containerIP f) (containerIP f) cidr [] ''accept'')]) privateCIDRs))
    (addLocalNetworkAllows E f ports)"
    unfolding addLocalNetworkAllows_def
    by (intro emits_for emits_if emits_wrap emits_addRule emits_addRuleWithMatch)
  then show ?thesis by (cases "ports = []") (simp_all add: localAllowRules_def privateCIDRs_def)
qed

lemma emits_pinDNS: "emits (fwdRules (dnsPinRules (containerIP f) servers)) (pinDNSForward E f servers)"
proof -
  have c: "concat (map (\<lambda>s. [Rule fwd (g s)]) xs) = fwdRules (map g xs)" for g :: "string \<Rightarrow> string list" and xs
    by (induction xs) auto
  have "emits (if containerIP f = [] \<or> length servers = 0 then [] else
     concat (map (\<lambda>s. [Rule fwd (ruleToks (containerIP f) (containerIP f) (s @ ''/32'') dnsMatch ''accept'')]) servers) @
     [Rule fwd (ruleToks (containerIP f) (containerIP f) ''0.0.0.0/0'' dnsMatch ''reject'')]) (pinDNSForward E f servers)"
    unfolding pinDNSForward_def
    by (intro emits_if emits_then emits_for emits_wrap emits_addRuleWithMatch emits_ret)
  then show ?thesis by (auto simp: dnsPinRules_def c o_def)
qed

lemma bindA_lift_Inr: "bindA (liftA r) k w = (Inr y, w') \<longleftrightarrow> (\<exists>x. r = Inr x \<and> k x w = (Inr y, w'))"
  by (simp add: bindA_Inr)

text \<open>What a successful run of restricted mode has done.\<close>

lemma ApplyRestricted_adds:
  assumes "ApplyRestricted E f cfg w = (Inr u, w')"
  obtains servers ports base where
    "validateDNSServers (DNSServers cfg) = Inr servers" "validateAllowedPorts (AllowedPorts cfg) = Inr ports"
    "base \<in> {[], [baseToks]}"
    "adds (fwdRules (base @ restrictedRules (containerIP f) (gatewayIP f) cfg servers ports)) (view w) (view w')"
proof -
  let ?ip = "containerIP f"
  let ?rest = "\<lambda>servers ports. thenA (if gatewayIP f \<noteq> [] then wrapA ''failed to add gateway allow rule''
                (addRule E f ?ip (gatewayIP f @ ''/32'') ''accept'') else retA ())
      (thenA (pinDNSForward E f servers)
      (thenA (if BoolVal (AllowLocalNetworkAccess cfg) then addLocalNetworkAllows E f ports
              else if BoolVal (BlockPrivateNetworks cfg) then
                forA (\<lambda>cidr. wrapA ''failed to add RFC1918 block rule'' (addRule E f ?ip cidr ''reject'')) privateCIDRs
              else retA ())
      (thenA (if BoolVal (BlockMetadataEndpoint cfg) then wrapA ''failed to add metadata block rule''
                (addRule E f ?ip ''169.254.0.0/16'' ''reject'') else retA ())
      (if length ports > 0 then
         thenA (wrapA ''failed to add port-capped allow rule''
                  (addRuleWithMatch E f ?ip ''0.0.0.0/0'' (l4PortMatch ports) ''accept''))
        (thenA (wrapA ''failed to add ICMP allow rule''
                  (addRuleWithMatch E f ?ip ''0.0.0.0/0'' icmpMatch ''accept''))
         (wrapA ''failed to add port-cap default deny rule'' (addRule E f ?ip ''0.0.0.0/0'' ''reject'')))
       else wrapA ''failed to add default allow rule'' (addRule E f ?ip ''0.0.0.0/0'' ''accept'')))))"
  from assms obtain servers ports w1 r where
    v: "validateDNSServers (DNSServers cfg) = Inr servers" "validateAllowedPorts (AllowedPorts cfg) = Inr ports"
    and b: "warnA (EnsureBaseRules E) w = (r, w1)" and rest: "?rest servers ports w1 = (Inr u, w')"
    using assms unfolding ApplyRestricted_def bindA_lift_Inr thenA_Inr[of "warnA (EnsureBaseRules E)"] by blast
  have rej: "emits (fwdRules (map (\<lambda>cidr. ruleToks ?ip ?ip cidr [] ''reject'') privateCIDRs))
      (forA (\<lambda>cidr. wrapA ''failed to add RFC1918 block rule'' (addRule E f ?ip cidr ''reject'')) privateCIDRs)"
  proof -
    have "emits (concat (map (\<lambda>cidr. [Rule fwd (ruleToks ?ip ?ip cidr [] ''reject'')]) privateCIDRs))
      (forA (\<lambda>cidr. wrapA ''failed to add RFC1918 block rule'' (addRule E f ?ip cidr ''reject'')) privateCIDRs)"
      by (intro emits_for emits_wrap emits_addRule)
    then show ?thesis by (simp add: privateCIDRs_def)
  qed
  have "emits ((if gatewayIP f \<noteq> [] then [Rule fwd (ruleToks ?ip ?ip (gatewayIP f @ ''/32'') [] ''accept'')] else []) @
     (fwdRules (dnsPinRules ?ip servers) @
     ((if BoolVal (AllowLocalNetworkAccess cfg) then fwdRules (localAllowRules ?ip ports)
      else if BoolVal (BlockPrivateNetworks cfg) then fwdRules (map (\<lambda>cidr. ruleToks ?ip ?ip cidr [] ''reject'') privateCIDRs)
      else []) @
     ((if BoolVal (BlockMetadataEndpoint cfg) then [Rule fwd (ruleToks ?ip ?ip ''169.254.0.0/16'' [] ''reject'')] else []) @
     (if length ports > 0 then
        [Rule fwd (ruleToks ?ip ?ip ''0.0.0.0/0'' (l4PortMatch ports) ''accept'')] @
        ([Rule fwd (ruleToks ?ip ?ip ''0.0.0.0/0'' icmpMatch ''accept'')] @
         [Rule fwd (ruleToks ?ip ?ip ''0.0.0.0/0'' [] ''reject'')])
      else [Rule fwd (ruleToks ?ip ?ip ''0.0.0.0/0'' [] ''accept'')]))))) (?rest servers ports)"
    by (intro emits_then emits_if emits_wrap emits_addRule emits_addRuleWithMatch emits_ret emits_pinDNS
        emits_localAllows rej)
  then have "emits (fwdRules (restrictedRules ?ip (gatewayIP f) cfg servers ports)) (?rest servers ports)"
    by (rule back_subst[where P = "\<lambda>x. emits x (?rest servers ports)"]) (auto simp: restrictedRules_def)
  from emitsD[OF this, OF rest] have a2: "adds (fwdRules (restrictedRules ?ip (gatewayIP f) cfg servers ports)) (view w1) (view w')" .
  obtain base where base: "base \<in> {[], [baseToks]}" "adds (fwdRules base) (view w) (view w1)"
    using b by (rule base_adds_rules)
  from adds_trans[OF base(2) a2] show thesis unfolding map_append[symmetric] by (rule that[OF v base(1)])
qed

lemma emits_blockDNS:
  assumes "containerIP f \<noteq> []"
  shows "emits [Rule fwd (ruleToks (containerIP f) (containerIP f) ''0.0.0.0/0'' dnsMatch ''reject''),
     Rule inp (inputDNSRule (containerIP f))] (blockDNS E f)"
proof -
  have r: "emits [Rule inp (inputDNSRule (containerIP f))]
      (nftDo E ([''add'', ''rule'', ''ip'', ''coi'', ''input'', ''ip'', ''saddr'', containerIP f] @ dnsMatch @
             [''reject'', ''comment'', quoted (''coi-'' @ containerIP f)]))"
    using emits_rule[of "''ip''" "''coi''" "''input''" "inputDNSRule (containerIP f)"] by (simp add: inputDNSRule_def)
  have "emits ([Rule fwd (ruleToks (containerIP f) (containerIP f) ''0.0.0.0/0'' dnsMatch ''reject'')] @ ([] @
     [Rule inp (inputDNSRule (containerIP f))]))
    (thenA (wrapA ''failed to add DNS block rule (forward)''
              (addRuleWithMatch E f (containerIP f) ''0.0.0.0/0'' dnsMatch ''reject''))
    (thenA (ensureCOIInputChain E)
       (wrapA ''failed to add DNS block rule (input)''
          (nftDo E ([''add'', ''rule'', ''ip'', ''coi'', ''input'', ''ip'', ''saddr'', containerIP f] @ dnsMatch @
             [''reject'', ''comment'', quoted (''coi-'' @ containerIP f)])))))"
    by (intro emits_then emits_wrap emits_addRuleWithMatch emits_ensure r)
  with assms show ?thesis by (simp add: blockDNS_def)
qed

lemma emits_allowlistChain:
  "emits (fwdRules (tl (allowlistRules (containerIP f) (gatewayIP f) cfg ports))) (allowlistChain E f cfg ports)"
proof -
  let ?ip = "containerIP f"
  have "emits ([Rule fwd (ruleToks ?ip ?ip (gatewayIP f @ ''/32'') dhcpMatch ''accept'')] @
     ((if BoolVal (AllowLocalNetworkAccess cfg) then fwdRules (localAllowRules ?ip ports)
       else concat (map (\<lambda>cidr. [Rule fwd (ruleToks ?ip ?ip cidr [] ''reject'')]) (privateCIDRs @ [''169.254.0.0/16'']))) @
     (concat (map (\<lambda>set. [Rule fwd (ruleToks ?ip ?ip ''0.0.0.0/0'' (allowlistL4Match set) ''accept'')])
        [staticPortSetName ?ip, dynamicPortSetName ?ip]) @
     (concat (map (\<lambda>set. [Rule fwd (ruleToks ?ip ?ip (''@'' @ set) icmpMatch ''accept'')])
        [staticSetName ?ip, dynamicSetName ?ip]) @
      [Rule fwd (ruleToks ?ip ?ip ''0.0.0.0/0'' [] ''reject'')])))) (allowlistChain E f cfg ports)"
    unfolding allowlistChain_def
    by (intro emits_then emits_if emits_wrap emits_addRule emits_addRuleWithMatch emits_for emits_localAllows)
  then show ?thesis
    by (rule back_subst[where P = "\<lambda>x. emits x (allowlistChain E f cfg ports)"])
      (auto simp: allowlistRules_def privateCIDRs_def)
qed

lemma bindA_lift_InrE:
  "bindA (liftA r) k w = (Inr y, w') \<Longrightarrow> (\<And>x. r = Inr x \<Longrightarrow> k x w = (Inr y, w') \<Longrightarrow> P) \<Longrightarrow> P"
  by (auto simp: bindA_Inr)

lemma bindA_wrap_lift_InrE:
  "bindA (wrapA c (liftA r)) k w = (Inr y, w') \<Longrightarrow> (\<And>x. r = Inr x \<Longrightarrow> k x w = (Inr y, w') \<Longrightarrow> P) \<Longrightarrow> P"
  by (auto simp: bindA_Inr wrapA_Inr)

lemma thenA_InrE:
  "thenA m k w = (Inr y, w') \<Longrightarrow> (\<And>x w1. m w = (Inr x, w1) \<Longrightarrow> k w1 = (Inr y, w') \<Longrightarrow> P) \<Longrightarrow> P"
  by (auto simp: thenA_Inr)

text \<open>What a successful run of allowlist mode has done.\<close>

lemma ApplyAllowlist_adds:
  assumes "ApplyAllowlist E f cfg x w = (Inr u, w')" and "containerIP f \<noteq> []"
  obtains ports policy base where
    "validateAllowedPorts (AllowedPorts cfg) = Inr ports" "NewAllowPolicy (AllowedDomains cfg) = Inr policy"
    "base \<in> {[], [baseToks]}"
    "toks fwd (view w') = toks fwd (view w) @ base @ allowlistRules (containerIP f) (gatewayIP f) cfg ports"
    "toks inp (view w') = toks inp (view w) @ [inputDNSRule (containerIP f)]"
    "elems (staticSetName (containerIP f)) (view w') = elems (staticSetName (containerIP f)) (view w) @ sort (staticCIDRs policy)"
    "elems (staticPortSetName (containerIP f)) (view w') = elems (staticPortSetName (containerIP f)) (view w) @
       sort (tupleElements (staticTups policy) (intsToPortRanges ports))"
    "\<forall>n. n \<noteq> staticSetName (containerIP f) \<longrightarrow> n \<noteq> staticPortSetName (containerIP f) \<longrightarrow> elems n (view w') = elems n (view w)"
proof -
  let ?ip = "containerIP f" and ?st = "staticSetName (containerIP f)" and ?sp = "staticPortSetName (containerIP f)"
  have gw: "gatewayIP f \<noteq> []" using assms(1) by (auto simp: ApplyAllowlist_def)
  obtain ports policy r w1 w2 w3 w4 w5 u2 u3 u4 u5 where
    v: "validateAllowedPorts (AllowedPorts cfg) = Inr ports" "NewAllowPolicy (AllowedDomains cfg) = Inr policy"
    and b: "warnA (EnsureBaseRules E) w = (r, w1)"
    and a2: "ensureAllowlistSets E f w1 = (Inr u2, w2)"
    and a3: "AddStaticIPs E f (staticCIDRs policy) w2 = (Inr u3, w3)"
    and a4: "AddStaticTuples E f (staticTups policy) (intsToPortRanges ports) w3 = (Inr u4, w4)"
    and a5: "blockDNS E f w4 = (Inr u5, w5)"
    and a6: "allowlistChain E f cfg ports w5 = (Inr u, w')"
    using assms(1) unfolding ApplyAllowlist_def if_not_P[OF gw]
    by (elim bindA_lift_InrE bindA_wrap_lift_InrE thenA_InrE) (rule that)
  note safe = policy_safe[OF NewAllowPolicy_ok[OF v(2)]]
  obtain base where base: "base \<in> {[], [baseToks]}" "adds (fwdRules base) (view w) (view w1)"
    using b by (rule base_adds_rules)
  have e2: "adds [] (view w1) (view w2)"
    using emits_ensureAllowlistSets a2 by (rule emitsD)
  have e3: "adds [Elems ?st (sort (staticCIDRs policy))] (view w2) (view w3)"
    using emits_AddStaticIPs[OF safe(1) assms(2)] a3 by (rule emitsD)
  have e4: "adds [Elems ?sp (sort (tupleElements (staticTups policy) (intsToPortRanges ports)))] (view w3) (view w4)"
    using emits_AddStaticTuples[OF safe(2) assms(2)] a4 by (rule emitsD)
  have e5: "adds [Rule fwd (ruleToks ?ip ?ip ''0.0.0.0/0'' dnsMatch ''reject''), Rule inp (inputDNSRule ?ip)] (view w4) (view w5)"
    using emits_blockDNS[OF assms(2)] a5 by (rule emitsD)
  have e6: "adds (fwdRules (tl (allowlistRules ?ip (gatewayIP f) cfg ports))) (view w5) (view w')"
    using emits_allowlistChain a6 by (rule emitsD)
  have "adds (fwdRules base @ [] @ [Elems ?st (sort (staticCIDRs policy))] @
      [Elems ?sp (sort (tupleElements (staticTups policy) (intsToPortRanges ports)))] @
      [Rule fwd (ruleToks ?ip ?ip ''0.0.0.0/0'' dnsMatch ''reject''), Rule inp (inputDNSRule ?ip)] @
      fwdRules (tl (allowlistRules ?ip (gatewayIP f) cfg ports))) (view w) (view w')"
    using adds_trans[OF base(2) adds_trans[OF e2 adds_trans[OF e3 adds_trans[OF e4 adds_trans[OF e5 e6]]]]] .
  moreover have "ruleToks ?ip ?ip ''0.0.0.0/0'' dnsMatch ''reject'' # tl (allowlistRules ?ip (gatewayIP f) cfg ports)
      = allowlistRules ?ip (gatewayIP f) cfg ports"
    by (simp add: allowlistRules_def)
  moreover have "?st \<noteq> ?sp" by (simp add: staticSetName_def staticPortSetName_def)
  ultimately show thesis
    using v base(1) by (intro that) (simp_all add: adds_def)
qed

section \<open>No run disturbs what was there\<close>

text \<open>Whatever the outcome, the rules that were in a chain stay in front, in their order.\<close>

definition extends :: "nft_state \<Rightarrow> 'w \<Rightarrow> bool" where
  "extends s v \<longleftrightarrow> (\<forall>ch. prefix (toks ch s) (toks ch (view v)))"

lemma adds_extends: "extends s v \<Longrightarrow> adds evs (view v) (view v') \<Longrightarrow> extends s v'"
  by (auto simp: extends_def adds_def intro: prefix_prefix)

lemma extends_same: "view w' = view w \<Longrightarrow> extends s w \<Longrightarrow> extends s w'"
  by (simp add: extends_def)

lemma keeps_adds:
  assumes "\<And>s s'. nft_doc args s = Some s' \<Longrightarrow> \<exists>evs. adds evs s s'"
  shows "keeps (extends s0) (nftDo E args)"
proof (rule keepsI)
  fix w r w'
  assume e: "extends s0 w" and d: "nftDo E args w = (r, w')"
  from nftDo_step[OF d] show "extends s0 w'"
  proof
    assume "nft_doc args (view w) = Some (view w')"
    from assms[OF this] obtain evs where "adds evs (view w) (view w')" ..
    with e show ?thesis by (rule adds_extends)
  qed (rule extends_same[OF _ e])
qed

lemma keeps_rule: "keeps (extends s) (nftDo E (''add'' # ''rule'' # f # t # c # ts))"
  by (rule keeps_adds) (blast intro: add_rule_adds)

lemma keeps_nothing:
  "keeps (extends s) (nftDo E [''add'', ''table'', f, t])"
  "keeps (extends s) (nftDo E (''add'' # ''chain'' # f # t # c # ts))"
  "keeps (extends s) (nftDo E (''add'' # ''set'' # f # t # c # ts))"
  by (rule keeps_adds, blast intro: add_table_adds add_chain_adds add_set_adds)+

lemma keeps_elements: "keeps (extends s) (addSetElements E n es)"
proof (rule keepsI)
  fix w r w'
  assume e: "extends s w" and a: "addSetElements E n es w = (r, w')"
  from grown_adds[OF addSetElements_grown[OF a]] obtain evs where "adds evs (view w) (view w')" by blast
  with e show "extends s w'" by (rule adds_extends)
qed

lemma keeps_list: "keeps (extends s) (runNFTCommand E [''list'', ''chain'', f, t, c])"
  by (rule keepsI) (rule extends_same, erule list_view(1))

lemma keeps_exists: "keeps (extends s) (nftRuleExistsWithCommentFamily E f c)"
  by (rule keepsI) (rule extends_same, erule exists_view)

lemma keeps_ensure: "keeps (extends s) (ensureCOIChain E f c hook)"
  unfolding ensureCOIChain_def append.simps by (intro keeps_intros keeps_nothing keeps_list)

lemma keeps_addRuleWithMatch: "keeps (extends s) (addRuleWithMatch E f src dst match action)"
  unfolding addRuleWithMatch_def append.simps by (intro keeps_intros keeps_rule)

lemma keeps_base: "keeps (extends s) (EnsureBaseRules E)"
  unfolding EnsureBaseRules_def ensureCOITableAndChain_def nftRuleExistsWithComment_def
  by (intro keeps_intros keeps_ensure keeps_exists keeps_rule)

lemmas keeps_nft = keeps_rule keeps_nothing keeps_elements keeps_list keeps_exists keeps_ensure
  keeps_addRuleWithMatch keeps_base

lemma keeps_ApplyRestricted: "keeps (extends s) (ApplyRestricted E f cfg)"
  unfolding ApplyRestricted_def pinDNSForward_def addLocalNetworkAllows_def addRule_def
  by (intro keeps_intros keeps_nft)

lemma keeps_ApplyAllowlist: "keeps (extends s) (ApplyAllowlist E f cfg x)"
  unfolding ApplyAllowlist_def allowlistChain_def ensureAllowlistSets_def AddStaticIPs_def AddStaticTuples_def blockDNS_def
    addLocalNetworkAllows_def addRule_def ensureCOITableAndChain_def ensureCOIInputChain_def append.simps
  by (intro keeps_intros keeps_nft)

end

section \<open>What removal takes away\<close>

definition foreign :: "string \<Rightarrow> string list \<Rightarrow> bool" where
  "foreign c t \<longleftrightarrow> comment_tok t \<noteq> Some (quoted c)"

text \<open>From \<open>s\<close> to \<open>s'\<close>: only rules of \<open>fwd\<close> and \<open>inp\<close> with the comment, and only sets of the
  container, may have gone.\<close>

definition purged :: "string \<Rightarrow> nft_state \<Rightarrow> nft_state \<Rightarrow> bool" where
  "purged ip s s' \<longleftrightarrow>
     (\<forall>ch. filter (foreign (''coi-'' @ ip)) (toks ch s') = filter (foreign (''coi-'' @ ip)) (toks ch s)) \<and>
     (\<forall>ch. ch \<noteq> fwd \<longrightarrow> ch \<noteq> inp \<longrightarrow> toks ch s' = toks ch s) \<and>
     (\<forall>n. n \<notin> set (setNames ip) \<longrightarrow> elems n s' = elems n s)"

lemma purged_refl [simp]: "purged ip s s"
  by (simp add: purged_def)

lemma purged_trans: "purged ip s t \<Longrightarrow> purged ip t u \<Longrightarrow> purged ip s u"
  by (simp add: purged_def)

lemma pruned_purged: "pruned ch (''coi-'' @ ip) s s' \<Longrightarrow> ch = fwd \<or> ch = inp \<Longrightarrow> purged ip s s'"
  using pruned_toks[of ch "''coi-'' @ ip" s s'] unfolding purged_def foreign_def by metis

lemma delete_set_purged:
  assumes "nft_doc [''delete'', ''set'', ''ip'', ''coi'', n] s = Some s'" and "n \<in> set (setNames ip)"
  shows "purged ip s s'" "elems n s' = []" "elems m s = [] \<Longrightarrow> elems m s' = []" "nft_chains s' = nft_chains s"
    "nft_next s' = nft_next s"
  using assms by (auto simp: nft_doc_delete_set purged_def toks_def elems_def split: option.splits if_splits)

definition coi_clean :: "nft_state \<Rightarrow> bool" where
  "coi_clean s \<longleftrightarrow> nft_wf s \<and> chain_clean fwd s \<and> chain_clean inp s \<and> chain_clean fwd6 s"

lemma pruned_coi_clean: "pruned ch c s s' \<Longrightarrow> coi_clean s \<Longrightarrow> coi_clean s'"
  by (simp add: coi_clean_def pruned_wf pruned_clean)

lemma coi_clean_chains: "nft_chains s' = nft_chains s \<Longrightarrow> nft_next s' = nft_next s \<Longrightarrow> coi_clean s \<Longrightarrow> coi_clean s'"
  by (simp add: coi_clean_def nft_wf_def chain_clean_def)

context nft_kernel
begin

lemma removeSets_purged:
  "removeSets E e ns w = (r, w') \<Longrightarrow> set ns \<subseteq> set (setNames ip) \<Longrightarrow>
   purged ip (view w) (view w') \<and> nft_chains (view w') = nft_chains (view w) \<and> nft_next (view w') = nft_next (view w)"
proof (induction ns arbitrary: e w)
  case (Cons n ns)
  obtain q w1 where q: "nftDo E [''delete'', ''set'', ''ip'', ''coi'', n] w = (q, w1)" by force
  have "purged ip (view w) (view w1) \<and> nft_chains (view w1) = nft_chains (view w) \<and> nft_next (view w1) = nft_next (view w)"
    using nftDo_step[OF q] delete_set_purged[of n "view w" "view w1" ip] Cons.prems(2) by auto
  moreover obtain e' where "removeSets E e' ns w1 = (r, w')"
    using Cons.prems(1) q by (auto simp: bindA_def tryA_def split: sum.splits if_splits)
  ultimately show ?case using Cons.IH[of e' w1] Cons.prems(2) purged_trans by auto
qed (auto split: option.splits)

lemma plain_coi: "plain ip \<Longrightarrow> plain (''coi-'' @ ip)"
  by (simp add: plain_def char_defs)

lemma Delete_steps:
  assumes "DeleteCOIFilterRulesForIP E ip w = (r, w')" and "coi_clean (view w)" and "plain ip" and "ip \<noteq> []"
  obtains w1 w2 where "deleteNFTRulesByComment E (''coi-'' @ ip) w = (Inr (), w1)" "coi_clean (view w1)"
    "pruned fwd (''coi-'' @ ip) (view w) (view w1)"
    "deleteNFTRulesInChain E ''coi'' ''input'' (''coi-'' @ ip) w1 = (Inr (), w2)" "coi_clean (view w2)"
    "pruned inp (''coi-'' @ ip) (view w1) (view w2)" "removeSets E None (setNames ip) w2 = (r, w')"
proof -
  obtain q1 w1 where q1: "deleteNFTRulesByComment E (''coi-'' @ ip) w = (q1, w1)" by force
  have p1: "q1 = Inr () \<and> pruned fwd (''coi-'' @ ip) (view w) (view w1)"
    using deleteRounds_pruned q1 assms(2,3) plain_coi
    by (auto simp: deleteNFTRulesByComment_def deleteNFTRulesByCommentFamily_def coi_clean_def)
  then have c1: "coi_clean (view w1)" using pruned_coi_clean assms(2) by blast
  obtain q2 w2 where q2: "deleteNFTRulesInChain E ''coi'' ''input'' (''coi-'' @ ip) w1 = (q2, w2)" by force
  have p2: "q2 = Inr () \<and> pruned inp (''coi-'' @ ip) (view w1) (view w2)"
    using deleteInChain_pruned[OF q2] c1 assms(3) plain_coi by (simp add: coi_clean_def)
  then have c2: "coi_clean (view w2)" using pruned_coi_clean c1 by blast
  have "removeSets E None (setNames ip) w2 = (r, w')"
    using assms(1,4) q1 p1 q2 p2
    by (simp add: DeleteCOIFilterRulesForIP_def removeInputRulesForIP_def removeAllowlistSetsForIP_def thenA_def bindA_def)
  with q1 p1 c1 q2 p2 c2 that show thesis by blast
qed

lemma Delete_purged:
  assumes "DeleteCOIFilterRulesForIP E ip w = (r, w')" and "coi_clean (view w)" and "plain ip"
  shows "purged ip (view w) (view w') \<and> coi_clean (view w')"
proof (cases "ip = []")
  case True
  with assms show ?thesis by (simp add: DeleteCOIFilterRulesForIP_def)
next
  case False
  obtain w1 w2 where s: "pruned fwd (''coi-'' @ ip) (view w) (view w1)" "coi_clean (view w2)"
    "pruned inp (''coi-'' @ ip) (view w1) (view w2)" "removeSets E None (setNames ip) w2 = (r, w')"
    using Delete_steps[OF assms False] by metis
  have "purged ip (view w) (view w1)" "purged ip (view w1) (view w2)" using pruned_purged s(1,3) by blast+
  moreover note removeSets_purged[OF s(4), of ip]
  ultimately show ?thesis using s(2) coi_clean_chains purged_trans by (metis order_refl)
qed

end

context reliable_nft
begin

lemma removeSets_total:
  "set ns \<subseteq> set (setNames ip) \<Longrightarrow> \<exists>w'. removeSets E None ns w = (Inr (), w') \<and> (\<forall>n \<in> set ns. elems n (view w') = [])
     \<and> (\<forall>n. elems n (view w) = [] \<longrightarrow> elems n (view w') = [])"
proof (induction ns arbitrary: w)
  case (Cons n ns)
  let ?cmd = "[''delete'', ''set'', ''ip'', ''coi'', n]"
  show ?case
  proof (cases "nft_doc ?cmd (view w)")
    case None
    then have "elems n (view w) = []" by (auto simp: nft_doc_delete_set elems_def split: option.splits)
    moreover obtain e w1 where "nftDo E ?cmd w = (Inl e, w1)" "view w1 = view w" "isNftNotFound e"
    proof -
      from run_refused[OF None] obtain e w1 where r: "runNFTCommand E ?cmd w = (Inl e, w1)" "view w1 = view w"
        "str_contains (err_text e) ''No such file or directory''" by blast
      have "str_contains (err_text e) (''No such file'' @ '' or directory'')" using r(3) by simp
      then have "isNftNotFound e" unfolding isNftNotFound_def by (blast dest: contains_mono)
      with r that show thesis by (simp add: nftDo_def bindA_def)
    qed
    ultimately show ?thesis using Cons.IH[of w1] Cons.prems by (fastforce simp: bindA_def tryA_def)
  next
    case (Some s)
    from nftDo_total[OF this] obtain w1 where w1: "nftDo E ?cmd w = (Inr (), w1)" "view w1 = s" by blast
    from delete_set_purged[OF Some, of ip] Cons.prems w1(2)
    have "elems n (view w1) = []" "\<And>m. elems m (view w) = [] \<Longrightarrow> elems m (view w1) = []" by auto
    with w1(1) Cons.IH[of w1] Cons.prems show ?thesis by (fastforce simp: bindA_def tryA_def)
  qed
qed simp

lemma gone_toks: "gone ch c s \<Longrightarrow> list_all (foreign c) (toks ch s)"
  by (cases "nft_chains s ch") (simp_all add: gone_def toks_def foreign_def has_comment_def list.pred_map o_def)

lemma Delete_total:
  assumes "DeleteCOIFilterRulesForIP E ip w = (r, w')" and "coi_clean (view w)" and "plain ip" and "ip \<noteq> []"
    and "handles_fit (view w)"
  shows "r = Inr ()" and "list_all (foreign (''coi-'' @ ip)) (toks fwd (view w'))"
    and "list_all (foreign (''coi-'' @ ip)) (toks inp (view w'))" and "list_all (\<lambda>n. elems n (view w') = []) (setNames ip)"
proof -
  obtain w1 w2 where s: "deleteNFTRulesByComment E (''coi-'' @ ip) w = (Inr (), w1)" "coi_clean (view w1)"
    "pruned fwd (''coi-'' @ ip) (view w) (view w1)"
    "deleteNFTRulesInChain E ''coi'' ''input'' (''coi-'' @ ip) w1 = (Inr (), w2)" "coi_clean (view w2)"
    "pruned inp (''coi-'' @ ip) (view w1) (view w2)" "removeSets E None (setNames ip) w2 = (r, w')"
    using Delete_steps[OF assms(1-4)] by metis
  have g1: "gone fwd (''coi-'' @ ip) (view w1)"
    using deleteRounds_gone[of "''ip''" "''coi-'' @ ip" 7 w] s(1) assms(2,3,5) plain_coi
    by (auto simp: deleteNFTRulesByComment_def deleteNFTRulesByCommentFamily_def coi_clean_def)
  have hf: "handles_fit (view w1)" using assms(5) prunedD(3)[OF s(3)] by (simp add: handles_fit_def)
  have g2: "gone inp (''coi-'' @ ip) (view w2)"
    using deleteInChain_gone[OF s(4)] s(2) hf assms(3) plain_coi by (simp add: coi_clean_def)
  have g3: "gone fwd (''coi-'' @ ip) (view w2)"
    using g1 prunedD(2)[OF s(6), of fwd] by (simp add: gone_def)
  from removeSets_total[of "setNames ip" ip w2] s(7) show "r = Inr ()" "list_all (\<lambda>n. elems n (view w') = []) (setNames ip)"
    by (auto simp: list_all_iff)
  have "nft_chains (view w') = nft_chains (view w2)" using removeSets_purged[OF s(7), of ip] by simp
  with g2 g3 have "gone fwd (''coi-'' @ ip) (view w')" "gone inp (''coi-'' @ ip) (view w')"
    by (simp_all add: gone_def)
  then show "list_all (foreign (''coi-'' @ ip)) (toks fwd (view w'))"
    "list_all (foreign (''coi-'' @ ip)) (toks inp (view w'))"
    using gone_toks by blast+
qed

end

end
