(* ===== verification/Egress.thy ===== *)
theory Egress
  imports NftFilter
begin

text \<open>
  What the two enforcing modes mean for a packet. \<open>restrictedSpec\<close> and \<open>allowlistSpec\<close>
  are the abstract policies, written over the configuration; the lemmas show that the
  rule lists the code emits decide exactly like them, first match wins, and that on a
  kernel that does not fail the code installs them.
\<close>

section \<open>Validated configuration values\<close>

lemma validateAllowedPorts_Inr:
  assumes "validateAllowedPorts ps = Inr qs"
  shows "set qs = set ps" and "sorted qs" and "distinct qs" and "\<And>p. p \<in> set ps \<Longrightarrow> 1 \<le> p \<and> p \<le> 65535"
proof -
  obtain rs where m: "mapE (\<lambda>p. if p < 1 \<or> p > 65535
        then Inl (Errorf ''allowed_ports: %d is out of range (1-65535)'' [itoa_int p]) else Inr p) ps = Inr rs"
      "qs = sort (dedup_acc {} rs)"
    using assms by (auto simp: validateAllowedPorts_def bindE_Inr)
  have l: "list_all2 (\<lambda>p q. q = p \<and> 1 \<le> p \<and> p \<le> 65535) ps rs"
    using m(1)[unfolded mapE_Inr] by (rule list_all2_mono) (auto split: if_splits)
  then have "rs = ps" by (induction rule: list_all2_induct) auto
  with m(2) show "set qs = set ps" "sorted qs" "distinct qs"
    by (simp_all add: set_dedup_acc distinct_dedup_acc)
  show "p \<in> set ps \<Longrightarrow> 1 \<le> p \<and> p \<le> 65535" for p
    using l \<open>rs = ps\<close> by (auto simp: list_all2_same)
qed

lemma validateAllowedPorts_ok:
  "(\<exists>qs. validateAllowedPorts ps = Inr qs) \<longleftrightarrow> list_all (\<lambda>p. 1 \<le> p \<and> p \<le> 65535) ps"
proof
  assume "list_all (\<lambda>p. 1 \<le> p \<and> p \<le> 65535) ps"
  then have "mapE (\<lambda>p. if p < 1 \<or> p > 65535
        then Inl (Errorf ''allowed_ports: %d is out of range (1-65535)'' [itoa_int p]) else Inr p) ps = Inr ps"
    by (induction ps) auto
  then show "\<exists>qs. validateAllowedPorts ps = Inr qs" by (simp add: validateAllowedPorts_def)
qed (auto simp: list_all_iff dest: validateAllowedPorts_Inr(4))

text \<open>A configured resolver stands for an address.\<close>

definition resolver_is :: "string \<Rightarrow> ip4 \<Rightarrow> bool" where
  "resolver_is s a \<longleftrightarrow> canonIPv4 s = Inr (ip4_string a)"

lemma ip4_string_inj: "ip4_string a = ip4_string b \<longleftrightarrow> a = b"
  by (metis parse_v4_string option.inject)

lemma canonIPv4_Inr: "canonIPv4 s = Inr t \<Longrightarrow> \<exists>a. t = ip4_string a"
  by (auto simp: canonIPv4_def split: option.splits)

lemma validateDNSServers_Inr:
  assumes "validateDNSServers xs = Inr ss"
  shows "s \<in> set ss \<longleftrightarrow> (\<exists>x \<in> set xs. canonIPv4 x = Inr s)" and "distinct ss" and "ss = [] \<longleftrightarrow> xs = []"
    and "ip4_string a \<in> set ss \<longleftrightarrow> (\<exists>x \<in> set xs. resolver_is x a)"
proof -
  obtain rs where m: "mapE canonIPv4 xs = Inr rs" "ss = dedup_acc {} rs"
    using assms by (auto simp: validateDNSServers_def bindE_Inr)
  have "t \<in> set rs \<longleftrightarrow> (\<exists>x \<in> set xs. canonIPv4 x = Inr t)" for t
    using m(1) unfolding mapE_Inr by (induction rule: list_all2_induct) auto
  then have *: "t \<in> set ss \<longleftrightarrow> (\<exists>x \<in> set xs. canonIPv4 x = Inr t)" for t
    by (simp add: m(2) set_dedup_acc)
  show "s \<in> set ss \<longleftrightarrow> (\<exists>x \<in> set xs. canonIPv4 x = Inr s)" by (rule *)
  show "distinct ss" by (simp add: m(2) distinct_dedup_acc)
  show "ip4_string a \<in> set ss \<longleftrightarrow> (\<exists>x \<in> set xs. resolver_is x a)" by (simp add: * resolver_is_def)
  have "length rs = length xs" using m(1) by (rule mapE_length)
  moreover have "set ss = set rs" by (simp add: m(2) set_dedup_acc)
  ultimately show "ss = [] \<longleftrightarrow> xs = []" by (metis length_0_conv set_empty)
qed

section \<open>How the emitted rules are read\<close>

lemma parse_v4_short: "parse_v4 [] = None" "parse_v4 ''.'' = None"
  by (simp_all add: parse_v4_def parse_octet_def str_split.simps(2) has_prefix_def all_digits_def)

lemma v4_not_dot: "parse_v4 s = Some a \<Longrightarrow> s @ t \<noteq> ''.''"
  using parse_v4_short by (cases s; cases t) auto

lemma eval_ruleToks:
  assumes "parse_v4 ip = Some (pkt_src p)" and "dst \<noteq> ''.''"
  shows "eval_toks S p (ruleToks ip ip dst match action) =
    (if dst = ''0.0.0.0/0'' \<or> operand_has S dst (pkt_dst p)
     then eval_toks S p (match @ [action, ''comment'', quoted (''coi-'' @ ip)]) else None)"
  using assms by (auto simp: ruleToks_def verdicts operand_has_v4 eval_daddr)

lemma eval_dnsMatch:
  "eval_toks S p (dnsMatch @ ts) = (if l4 p \<and> pkt_dport p = 53 then eval_toks S p ts else None)"
  by (simp add: dnsMatch_def verdicts take_ports_53)

lemma eval_icmpMatch:
  "eval_toks S p (icmpMatch @ ts) = (if pkt_proto p = ICMP 8 \<and> pkt_in_rate p then eval_toks S p ts else None)"
  by (simp add: icmpMatch_def verdicts)

lemma eval_dhcpMatch:
  "eval_toks S p (dhcpMatch @ ts) = (if pkt_proto p = UDP \<and> pkt_dport p \<in> {67, 68} then eval_toks S p ts else None)"
  by (auto simp: dhcpMatch_def verdicts take_ports_dhcp)

lemma eval_l4Match:
  "eval_toks S p (allowlistL4Match s @ ts) =
     (if l4 p \<and> tuple_set_has S s (pkt_dst p) (pkt_dport p) then eval_toks S p ts else None)"
  by (simp add: allowlistL4Match_def verdicts)

lemma eval_l4PortMatch:
  assumes "\<And>q. q \<in> set ports \<Longrightarrow> 1 \<le> q \<and> q \<le> 65535"
  shows "eval_toks S p (l4PortMatch ports @ ts) =
    (if l4 p \<and> (ports = [] \<or> int (pkt_dport p) \<in> set ports) then eval_toks S p ts else None)"
proof (cases "ports = []")
  case True
  then show ?thesis by (simp add: l4PortMatch_def verdicts)
next
  case False
  have tp: "take_ports (portSetTokens ports @ ts) = (map nat ports, ts)"
    using assms by (simp add: take_ports_set)
  obtain u us where pt: "portSetTokens ports = u # us" by (simp add: portSetTokens_def)
  have m: "pkt_dport p \<in> set (map nat ports) \<longleftrightarrow> int (pkt_dport p) \<in> set ports"
  proof
    assume "pkt_dport p \<in> set (map nat ports)"
    then obtain q where "q \<in> set ports" "pkt_dport p = nat q" by auto
    with assms[of q] show "int (pkt_dport p) \<in> set ports" by simp
  qed force
  have "l4PortMatch ports @ ts = ''meta'' # ''l4proto'' # ''{'' # ''tcp,'' # ''udp'' # ''}'' # ''th'' # ''dport'' # u # (us @ ts)"
    using False by (simp add: l4PortMatch_def pt)
  moreover have "take_ports (u # (us @ ts)) = (map nat ports, ts)" using tp by (simp add: pt)
  ultimately show ?thesis using False m by (simp add: verdicts)
qed

lemma eval_baseToks: "eval_toks S p baseToks = (if pkt_tracked p then Some Accept else None)"
  by (simp add: baseToks_def verdicts)

lemmas eval_rules = eval_dnsMatch eval_icmpMatch eval_dhcpMatch eval_l4Match eval_verdict

section \<open>Restricted mode\<close>

text \<open>The port cap \<open>allowed_ports\<close>: no entry caps nothing.\<close>

definition portAllowed :: "NetworkConfig \<Rightarrow> packet \<Rightarrow> bool" where
  "portAllowed cfg p \<longleftrightarrow> AllowedPorts cfg = [] \<or> l4 p \<and> int (pkt_dport p) \<in> set (AllowedPorts cfg)"

lemma portAllowed_ports:
  assumes "set ports = set (AllowedPorts cfg)"
  shows "portAllowed cfg p \<longleftrightarrow> ports = [] \<or> l4 p \<and> int (pkt_dport p) \<in> set ports"
proof -
  have "ports = [] \<longleftrightarrow> AllowedPorts cfg = []" using assms by (metis set_empty)
  then show ?thesis unfolding portAllowed_def assms by blast
qed

definition restrictedSpec :: "string \<Rightarrow> NetworkConfig \<Rightarrow> packet \<Rightarrow> verdict" where
  "restrictedSpec gw cfg p = (let d = pkt_dst p in
     if parse_v4 gw = Some d then Accept
     else if DNSServers cfg \<noteq> [] \<and> l4 p \<and> pkt_dport p = 53 then
       (if \<exists>s \<in> set (DNSServers cfg). resolver_is s d then Accept else Reject)
     else if BoolVal (AllowLocalNetworkAccess cfg) \<and> rfc1918 d \<and> portAllowed cfg p then Accept
     else if \<not> BoolVal (AllowLocalNetworkAccess cfg) \<and> BoolVal (BlockPrivateNetworks cfg) \<and> rfc1918 d then Reject
     else if BoolVal (BlockMetadataEndpoint cfg) \<and> link_local4 d then Reject
     else if portAllowed cfg p then Accept
     else if pkt_proto p = ICMP 8 \<and> pkt_in_rate p then Accept else Reject)"

text \<open>Lists of rules with the same verdict read as one condition.\<close>

lemma chain_verdict_all:
  assumes "\<And>x. x \<in> set xs \<Longrightarrow> eval_toks S p (f x) = (if P x then Some v else None)"
  shows "chain_verdict S p (map f xs) = (if \<exists>x \<in> set xs. P x then Some v else None)"
  using assms by (induction xs) auto

lemma rfc1918_cidrs: "(\<exists>c \<in> set privateCIDRs. operand_has S c d) \<longleftrightarrow> rfc1918 d"
  by (simp add: privateCIDRs_def operand_has_rfc1918 rfc1918_def)

lemma privateCIDRs_ne: "c \<in> set privateCIDRs \<Longrightarrow> c \<noteq> ''.'' \<and> c \<noteq> ''0.0.0.0/0''"
  by (auto simp: privateCIDRs_def)

lemma chain_private_reject:
  assumes "parse_v4 ip = Some (pkt_src p)"
  shows "chain_verdict S p (map (\<lambda>cidr. ruleToks ip ip cidr [] ''reject'') privateCIDRs) =
    (if rfc1918 (pkt_dst p) then Some Reject else None)"
  unfolding rfc1918_cidrs[of S, symmetric]
  by (rule chain_verdict_all) (use assms privateCIDRs_ne in \<open>auto simp: eval_ruleToks eval_verdict\<close>)

lemma chain_localAllow:
  assumes "parse_v4 ip = Some (pkt_src p)" and "\<And>q. q \<in> set ports \<Longrightarrow> 1 \<le> q \<and> q \<le> 65535"
  shows "chain_verdict S p (localAllowRules ip ports) =
    (if rfc1918 (pkt_dst p) \<and> (ports = [] \<or> l4 p \<and> int (pkt_dport p) \<in> set ports) then Some Accept else None)"
proof -
  have "chain_verdict S p (localAllowRules ip ports) =
      (if \<exists>c \<in> set privateCIDRs. operand_has S c (pkt_dst p) \<and> (ports = [] \<or> l4 p \<and> int (pkt_dport p) \<in> set ports)
       then Some Accept else None)"
    unfolding localAllowRules_def
  proof (rule chain_verdict_all)
    fix c
    assume "c \<in> set privateCIDRs"
    with privateCIDRs_ne have "c \<noteq> ''.''" "c \<noteq> ''0.0.0.0/0''" by blast+
    then show "eval_toks S p (ruleToks ip ip c (if length ports > 0 then l4PortMatch ports else []) ''accept'') =
        (if operand_has S c (pkt_dst p) \<and> (ports = [] \<or> l4 p \<and> int (pkt_dport p) \<in> set ports) then Some Accept else None)"
      using assms by (auto simp: eval_ruleToks eval_l4PortMatch eval_verdict)
  qed
  then show ?thesis using rfc1918_cidrs[of S "pkt_dst p"] by auto
qed

lemma chain_dnsPin:
  assumes "parse_v4 ip = Some (pkt_src p)" and "validateDNSServers xs = Inr servers"
  shows "chain_verdict S p (dnsPinRules ip servers) = (if xs \<noteq> [] \<and> l4 p \<and> pkt_dport p = 53 then
      Some (if \<exists>x \<in> set xs. resolver_is x (pkt_dst p) then Accept else Reject) else None)"
proof -
  note v = validateDNSServers_Inr[OF assms(2)]
  have ip: "ip \<noteq> []" using assms(1) parse_v4_short by auto
  have "chain_verdict S p (map (\<lambda>s. ruleToks ip ip (s @ ''/32'') dnsMatch ''accept'') servers) =
      (if \<exists>s \<in> set servers. parse_v4 s = Some (pkt_dst p) \<and> l4 p \<and> pkt_dport p = 53 then Some Accept else None)"
  proof (rule chain_verdict_all)
    fix s
    assume "s \<in> set servers"
    then obtain a where s: "s = ip4_string a" using v(1) canonIPv4_Inr by blast
    have ne: "s @ ''/32'' \<noteq> ''.''" "s @ ''/32'' \<noteq> ''0.0.0.0/0''"
      using v4_not_dot[OF parse_v4_string[of a]] s by (auto dest: arg_cong[where f = last] simp: last_append)
    show "eval_toks S p (ruleToks ip ip (s @ ''/32'') dnsMatch ''accept'') =
        (if parse_v4 s = Some (pkt_dst p) \<and> l4 p \<and> pkt_dport p = 53 then Some Accept else None)"
      using ne assms(1) operand_has_host[OF parse_v4_string[of a]] s
      by (auto simp: eval_ruleToks eval_rules parse_v4_string)
  qed
  moreover have "(\<exists>s \<in> set servers. parse_v4 s = Some (pkt_dst p)) \<longleftrightarrow> (\<exists>x \<in> set xs. resolver_is x (pkt_dst p))"
  proof -
    have "parse_v4 s = Some (pkt_dst p) \<longleftrightarrow> s = ip4_string (pkt_dst p)" if "s \<in> set servers" for s
      using that v(1) canonIPv4_Inr parse_v4_string by (metis option.inject)
    with v(4) show ?thesis by metis
  qed
  moreover have "eval_toks S p (ruleToks ip ip ''0.0.0.0/0'' dnsMatch ''reject'') =
      (if l4 p \<and> pkt_dport p = 53 then Some Reject else None)"
    using assms(1) by (simp add: eval_ruleToks eval_rules)
  ultimately show ?thesis
    using ip v(3) by (auto simp: dnsPinRules_def chain_verdict_append)
qed

text \<open>An address with \<open>/32\<close> is an address, and never the two special texts.\<close>

lemma host_operand:
  assumes "parse_v4 s = Some a"
  shows "s @ ''/32'' \<noteq> ''.''" "s @ ''/32'' \<noteq> ''0.0.0.0/0''" "operand_has S (s @ ''/32'') x \<longleftrightarrow> x = a"
  using v4_not_dot[OF assms] operand_has_host[OF assms] by (auto dest: arg_cong[where f = last] simp: last_append)

lemma linkLocal_operand: "operand_has S ''169.254.0.0/16'' d \<longleftrightarrow> link_local4 d"
  by (simp add: operand_has_rfc1918 link_local4_def)

lemma chain_restricted:
  assumes "parse_v4 ip = Some (pkt_src p)" and "gw = [] \<or> parse_v4 gw \<noteq> None"
    and "validateDNSServers (DNSServers cfg) = Inr servers" and "validateAllowedPorts (AllowedPorts cfg) = Inr ports"
  shows "chain_verdict S p (restrictedRules ip gw cfg servers ports) = Some (restrictedSpec gw cfg p)"
proof -
  note vp = validateAllowedPorts_Inr[OF assms(4)]
  have range: "\<And>q. q \<in> set ports \<Longrightarrow> 1 \<le> q \<and> q \<le> 65535" using vp(1,4) by auto
  have pa: "portAllowed cfg p \<longleftrightarrow> ports = [] \<or> l4 p \<and> int (pkt_dport p) \<in> set ports"
    using portAllowed_ports vp(1) by blast
  have gwr: "chain_verdict S p (if gw \<noteq> [] then [ruleToks ip ip (gw @ ''/32'') [] ''accept''] else []) =
      (if parse_v4 gw = Some (pkt_dst p) then Some Accept else None)"
  proof (cases "gw = []")
    case True
    then show ?thesis using parse_v4_short by simp
  next
    case False
    then obtain g where "parse_v4 gw = Some g" using assms(2) by blast
    with False show ?thesis using assms(1) host_operand[of gw g] by (simp add: eval_ruleToks eval_verdict)
  qed
  have meta: "chain_verdict S p (if b then [ruleToks ip ip ''169.254.0.0/16'' [] ''reject''] else []) =
      (if b \<and> link_local4 (pkt_dst p) then Some Reject else None)" for b
    using assms(1) by (simp add: eval_ruleToks eval_verdict linkLocal_operand)
  have final: "chain_verdict S p (if length ports > 0 then
        [ruleToks ip ip ''0.0.0.0/0'' (l4PortMatch ports) ''accept'',
         ruleToks ip ip ''0.0.0.0/0'' icmpMatch ''accept'',
         ruleToks ip ip ''0.0.0.0/0'' [] ''reject'']
      else [ruleToks ip ip ''0.0.0.0/0'' [] ''accept'']) =
      Some (if portAllowed cfg p then Accept else if pkt_proto p = ICMP 8 \<and> pkt_in_rate p then Accept else Reject)"
    using assms(1) range by (auto simp: eval_ruleToks eval_l4PortMatch eval_rules pa)
  have lan: "chain_verdict S p (if BoolVal (AllowLocalNetworkAccess cfg) then localAllowRules ip ports
      else if BoolVal (BlockPrivateNetworks cfg) then map (\<lambda>cidr. ruleToks ip ip cidr [] ''reject'') privateCIDRs
      else []) = (if BoolVal (AllowLocalNetworkAccess cfg) \<and> rfc1918 (pkt_dst p) \<and> portAllowed cfg p then Some Accept
      else if \<not> BoolVal (AllowLocalNetworkAccess cfg) \<and> BoolVal (BlockPrivateNetworks cfg) \<and> rfc1918 (pkt_dst p)
      then Some Reject else None)"
    using chain_localAllow[OF assms(1) range] chain_private_reject[OF assms(1)] pa by simp
  show ?thesis
    unfolding restrictedRules_def chain_verdict_append gwr meta final lan chain_dnsPin[OF assms(1,3)]
    by (auto simp: restrictedSpec_def Let_def)
qed

section \<open>Allowlist mode\<close>

text \<open>\<open>tup\<close> and \<open>adr\<close> say what the tuple sets and the address sets of the container hold.\<close>

definition allowlistSpec :: "string \<Rightarrow> NetworkConfig \<Rightarrow> (ip4 \<Rightarrow> nat \<Rightarrow> bool) \<Rightarrow> (ip4 \<Rightarrow> bool) \<Rightarrow> packet \<Rightarrow> verdict" where
  "allowlistSpec gw cfg tup adr p = (let d = pkt_dst p in
     if l4 p \<and> pkt_dport p = 53 then Reject
     else if parse_v4 gw = Some d \<and> pkt_proto p = UDP \<and> pkt_dport p \<in> {67, 68} then Accept
     else if BoolVal (AllowLocalNetworkAccess cfg) \<and> rfc1918 d \<and> portAllowed cfg p then Accept
     else if \<not> BoolVal (AllowLocalNetworkAccess cfg) \<and> (rfc1918 d \<or> link_local4 d) then Reject
     else if l4 p \<and> tup d (pkt_dport p) then Accept
     else if pkt_proto p = ICMP 8 \<and> pkt_in_rate p \<and> adr d then Accept
     else Reject)"

text \<open>What the sets of a container hold in a state of the kernel.\<close>

definition inTuples :: "nft_state \<Rightarrow> string \<Rightarrow> ip4 \<Rightarrow> nat \<Rightarrow> bool" where
  "inTuples s ip x port \<longleftrightarrow>
     (\<exists>e \<in> set (elems (staticPortSetName ip) s) \<union> set (elems (dynamicPortSetName ip) s). tuple_has e x port)"

definition inAddrs :: "nft_state \<Rightarrow> string \<Rightarrow> ip4 \<Rightarrow> bool" where
  "inAddrs s ip x \<longleftrightarrow> (\<exists>e \<in> set (elems (staticSetName ip) s) \<union> set (elems (dynamicSetName ip) s). elem_has e x)"

lemma set_has_elems: "set_has (nft_sets s) n x \<longleftrightarrow> (\<exists>e \<in> set (elems n s). elem_has e x)"
  "tuple_set_has (nft_sets s) n x port \<longleftrightarrow> (\<exists>e \<in> set (elems n s). tuple_has e x port)"
  by (auto simp: set_has_def tuple_set_has_def elems_def split: option.splits)

lemma chain_allowlist:
  assumes "parse_v4 ip = Some (pkt_src p)" and "parse_v4 gw \<noteq> None"
    and "validateAllowedPorts (AllowedPorts cfg) = Inr ports"
  shows "chain_verdict (nft_sets s) p (allowlistRules ip gw cfg ports) =
    Some (allowlistSpec gw cfg (inTuples s ip) (inAddrs s ip) p)"
proof -
  note vp = validateAllowedPorts_Inr[OF assms(3)]
  have range: "\<And>q. q \<in> set ports \<Longrightarrow> 1 \<le> q \<and> q \<le> 65535" using vp(1,4) by auto
  have pa: "portAllowed cfg p \<longleftrightarrow> ports = [] \<or> l4 p \<and> int (pkt_dport p) \<in> set ports"
    using portAllowed_ports vp(1) by blast
  obtain g where g: "parse_v4 gw = Some g" using assms(2) by blast
  have head: "chain_verdict S p [ruleToks ip ip ''0.0.0.0/0'' dnsMatch ''reject'', ruleToks ip ip (gw @ ''/32'') dhcpMatch ''accept''] =
      (if l4 p \<and> pkt_dport p = 53 then Some Reject
       else if parse_v4 gw = Some (pkt_dst p) \<and> pkt_proto p = UDP \<and> pkt_dport p \<in> {67, 68} then Some Accept else None)" for S
    using assms(1) g host_operand[OF g] by (auto simp: eval_ruleToks eval_rules)
  have lan: "chain_verdict S p (if BoolVal (AllowLocalNetworkAccess cfg) then localAllowRules ip ports
      else map (\<lambda>cidr. ruleToks ip ip cidr [] ''reject'') (privateCIDRs @ [''169.254.0.0/16''])) =
      (if BoolVal (AllowLocalNetworkAccess cfg) \<and> rfc1918 (pkt_dst p) \<and> portAllowed cfg p then Some Accept
       else if \<not> BoolVal (AllowLocalNetworkAccess cfg) \<and> (rfc1918 (pkt_dst p) \<or> link_local4 (pkt_dst p))
       then Some Reject else None)" for S
    using chain_localAllow[OF assms(1) range] chain_private_reject[OF assms(1)] pa assms(1)
    by (simp add: chain_verdict_append eval_ruleToks eval_verdict linkLocal_operand)
  have at: "''@'' @ n \<noteq> ''.''" "''@'' @ n \<noteq> ''0.0.0.0/0''" for n by auto
  have tail: "chain_verdict (nft_sets s) p
     [ruleToks ip ip ''0.0.0.0/0'' (allowlistL4Match (staticPortSetName ip)) ''accept'',
      ruleToks ip ip ''0.0.0.0/0'' (allowlistL4Match (dynamicPortSetName ip)) ''accept'',
      ruleToks ip ip (''@'' @ staticSetName ip) icmpMatch ''accept'',
      ruleToks ip ip (''@'' @ dynamicSetName ip) icmpMatch ''accept'',
      ruleToks ip ip ''0.0.0.0/0'' [] ''reject''] =
      Some (if l4 p \<and> inTuples s ip (pkt_dst p) (pkt_dport p) then Accept
        else if pkt_proto p = ICMP 8 \<and> pkt_in_rate p \<and> inAddrs s ip (pkt_dst p) then Accept else Reject)"
    using assms(1) at operand_has_set
    by (auto simp: eval_ruleToks eval_rules set_has_elems inTuples_def inAddrs_def)
  show ?thesis
    unfolding allowlistRules_def chain_verdict_append head lan tail
    by (simp add: allowlistSpec_def Let_def)
qed

text \<open>The static sets hold what the compiled policy permits.\<close>

lemma net4_string_no_space: "CHR '' '' \<notin> set (net4_string a n)"
proof -
  have "CHR '' '' \<notin> set (ip4_string a)" using ip4_string_chars[of "CHR '' ''" a] by (auto simp: is_digit_def)
  moreover have "CHR '' '' \<notin> set (itoa n)" using itoa_notin[of "CHR '' ''" n] by (simp add: is_digit_def)
  ultimately show ?thesis by (auto simp: net4_string_def)
qed

lemma policy_tuples:
  assumes "policy_ok pol"
  shows "(\<exists>e \<in> set (sort (tupleElements (staticTups pol) g)). tuple_has e x port) \<longleftrightarrow> static_permits pol g x port"
proof -
  have "tuple_has (portTupleElem (CIDR t) r) x port \<longleftrightarrow> addr_has (CIDR t) x \<and> in_range r port"
    if "t \<in> set (staticTups pol)" for t r
  proof -
    from that assms obtain a n where "CIDR t = net4_string a n" by (auto simp: policy_ok_def tuple_ok_def)
    then show ?thesis using tuple_has_elem(1) net4_string_no_space by metis
  qed
  then show ?thesis by (auto simp: tupleElements_def static_permits_def in_ranges_def)
qed

lemma policy_addrs:
  assumes "policy_ok pol"
  shows "(\<exists>e \<in> set (sort (staticCIDRs pol)). elem_has e x) \<longleftrightarrow> (\<exists>t \<in> set (staticTups pol). addr_has (CIDR t) x)"
proof -
  have "elem_has c x \<longleftrightarrow> addr_has c x" if "c \<in> set (staticCIDRs pol)" for c
  proof -
    from that assms obtain a n where "c = net4_string a n" by (auto simp: policy_ok_def tuple_ok_def)
    then show ?thesis by (simp add: elem_has_def str_cut_none net4_string_no_space)
  qed
  then show ?thesis using assms by (auto simp: policy_ok_def)
qed

section \<open>Installation on a kernel that does not fail\<close>

definition hasAll :: "chain_id set \<Rightarrow> string set \<Rightarrow> nft_state \<Rightarrow> bool" where
  "hasAll C N s \<longleftrightarrow> (\<forall>ch \<in> C. nft_chains s ch \<noteq> None) \<and> (\<forall>n \<in> N. nft_sets s n \<noteq> None)"

context reliable_nft
begin

text \<open>The action succeeds when the chains and sets are there, and leaves those there.\<close>

definition runs :: "chain_id set \<Rightarrow> string set \<Rightarrow> ('w, 'a) act \<Rightarrow> chain_id set \<Rightarrow> string set \<Rightarrow> bool" where
  "runs C N m C' N' \<longleftrightarrow> (\<forall>w. hasAll C N (view w) \<longrightarrow> (\<exists>u w'. m w = (Inr u, w') \<and> hasAll C' N' (view w')))"

lemma runsD: "runs C N m C' N' \<Longrightarrow> hasAll C N (view w) \<Longrightarrow> \<exists>u w'. m w = (Inr u, w') \<and> hasAll C' N' (view w')"
  by (auto simp: runs_def)

lemma runs_ret: "runs C N (retA x) C N"
  by (simp add: runs_def)

lemma runs_then: "runs C N m C' N' \<Longrightarrow> runs C' N' k C'' N'' \<Longrightarrow> runs C N (thenA m k) C'' N''"
  unfolding runs_def thenA_def bindA_def by fastforce

lemma runs_wrap: "runs C N m C' N' \<Longrightarrow> runs C N (wrapA c m) C' N'"
  unfolding runs_def by (metis wrapA_Inr)

lemma runs_warn: "runs C N m C' N' \<Longrightarrow> runs C N (warnA m) C' N'"
  unfolding runs_def by (metis warnA_Inr)

lemma runs_if: "(b \<Longrightarrow> runs C N m C' N') \<Longrightarrow> (\<not> b \<Longrightarrow> runs C N k C' N') \<Longrightarrow> runs C N (if b then m else k) C' N'"
  by simp

lemma runs_for: "(\<And>x. x \<in> set xs \<Longrightarrow> runs C N (f x) C N) \<Longrightarrow> runs C N (forA f xs) C N"
  by (induction xs) (auto intro: runs_ret runs_then)

lemmas runs_intros = runs_ret runs_then runs_wrap runs_warn runs_if runs_for

lemma runs_cmd:
  assumes "\<And>s. hasAll C N s \<Longrightarrow> \<exists>s'. nft_doc args s = Some s' \<and> hasAll C' N' s'"
  shows "runs C N (nftDo E args) C' N'"
  using assms nftDo_total unfolding runs_def by metis

lemma runs_rule: "(f, t, c) \<in> C \<Longrightarrow> runs C N (nftDo E (''add'' # ''rule'' # f # t # c # ts)) C N"
  by (rule runs_cmd) (auto simp: nft_doc_add_rule hasAll_def split: option.splits)

lemma runs_table: "runs C N (nftDo E [''add'', ''table'', f, t]) C N"
  by (rule runs_cmd) (simp add: nft_doc_add_table)

lemma runs_chain: "runs C N (nftDo E (''add'' # ''chain'' # f # t # c # ts)) (insert (f, t, c) C) N"
  by (rule runs_cmd) (auto simp: nft_doc_add_chain hasAll_def split: option.splits)

lemma runs_set: "runs C N (nftDo E (''add'' # ''set'' # f # t # n # ts)) C (insert n N)"
  by (rule runs_cmd) (auto simp: nft_doc_add_set hasAll_def split: option.splits)

lemma runs_elements: "n \<in> N \<Longrightarrow> runs C N (addSetElements E n es) C N"
  unfolding addSetElements_def
  by (intro runs_intros runs_cmd) (auto simp: nft_doc_add_element hasAll_def split: option.splits)

lemma runs_ensure: "runs C N (ensureCOIChain E f c hook) (insert (f, ''coi'', c) C) N"
proof -
  have "runs C N (bindA (tryA (runNFTCommand E [''list'', ''chain'', f, ''coi'', c])) (\<lambda>r. case r of
          Inr _ \<Rightarrow> retA ()
        | Inl _ \<Rightarrow> wrapA ctx (nftDo E (''add'' # ''chain'' # f # ''coi'' # c # ts)))) (insert (f, ''coi'', c) C) N" for ctx ts
    unfolding runs_def
  proof (intro allI impI)
    fix w
    assume h: "hasAll C N (view w)"
    obtain q w1 where q: "runNFTCommand E [''list'', ''chain'', f, ''coi'', c] w = (q, w1)" by force
    note v = list_view(1)[OF q]
    show "\<exists>u w'. bindA (tryA (runNFTCommand E [''list'', ''chain'', f, ''coi'', c])) (\<lambda>r. case r of
          Inr _ \<Rightarrow> retA ()
        | Inl _ \<Rightarrow> wrapA ctx (nftDo E (''add'' # ''chain'' # f # ''coi'' # c # ts))) w = (Inr u, w') \<and>
        hasAll (insert (f, ''coi'', c) C) N (view w')"
    proof (cases q)
      case (Inl e)
      with q v h runsD[OF runs_wrap[OF runs_chain], of C N w1] show ?thesis by (simp add: bindA_def tryA_def)
    next
      case (Inr out)
      with run_ok[OF q[unfolded Inr]] have "nft_chains (view w) (f, ''coi'', c) \<noteq> None"
        by (auto simp: nft_doc_list split: option.splits if_splits)
      with q v h Inr show ?thesis by (auto simp: bindA_def tryA_def hasAll_def)
    qed
  qed
  then show ?thesis
    unfolding ensureCOIChain_def append.simps by (intro runs_then[OF runs_wrap[OF runs_table]])
qed

lemma runs_addRuleWithMatch: "fwd \<in> C \<Longrightarrow> runs C N (addRuleWithMatch E f src dst match action) C N"
  unfolding addRuleWithMatch_def append.simps by (intro runs_wrap runs_rule)

lemma runs_addRule: "fwd \<in> C \<Longrightarrow> runs C N (addRule E f src dst action) C N"
  unfolding addRule_def by (rule runs_addRuleWithMatch)

lemma runs_exists: "runs C N (nftRuleExistsWithCommentFamily E f c) C N"
  unfolding runs_def nftRuleExistsWithCommentFamily_def bindA_def tryA_def
  by (auto split: prod.splits sum.splits dest: list_view)

lemma runs_base: "runs C N (warnA (EnsureBaseRules E)) (insert fwd C) N"
proof (rule runs_warn)
  have "runs (insert fwd C) N (bindA (nftRuleExistsWithComment E ''coi-base'') (\<lambda>exists.
          if exists then retA () else
          nftDo E (''add'' # ''rule'' # ''ip'' # ''coi'' # ''forward'' # ts))) (insert fwd C) N" for ts
    using runs_exists[of "insert fwd C" N "''ip''" "''coi-base''"] runs_rule[of "''ip''" "''coi''" "''forward''" "insert fwd C" N ts]
    unfolding runs_def nftRuleExistsWithComment_def bindA_def by fastforce
  then show "runs C N (EnsureBaseRules E) (insert fwd C) N"
    unfolding EnsureBaseRules_def ensureCOITableAndChain_def by (intro runs_then[OF runs_ensure])
qed

lemma runs_localAllows: "fwd \<in> C \<Longrightarrow> runs C N (addLocalNetworkAllows E f ports) C N"
  unfolding addLocalNetworkAllows_def by (intro runs_intros runs_addRule runs_addRuleWithMatch)

lemma runs_pinDNS: "fwd \<in> C \<Longrightarrow> runs C N (pinDNSForward E f servers) C N"
  unfolding pinDNSForward_def
  by (intro runs_if runs_ret runs_then[where C' = C and N' = N] runs_for runs_wrap runs_addRuleWithMatch)

lemma ApplyRestricted_succeeds:
  assumes "validateDNSServers (DNSServers cfg) = Inr servers" and "validateAllowedPorts (AllowedPorts cfg) = Inr ports"
  shows "\<exists>w'. ApplyRestricted E f cfg w = (Inr (), w')"
proof -
  let ?ip = "containerIP f"
  have rest: "runs {fwd} {} (thenA (if gatewayIP f \<noteq> [] then wrapA ''failed to add gateway allow rule''
                (addRule E f ?ip (gatewayIP f @ ''/32'') ''accept'') else retA ())
      (thenA (pinDNSForward E f servers)
      (thenA (if BoolVal (AllowLocalNetworkAccess cfg) then addLocalNetworkAllows E f ports
              else if BoolVal (BlockPrivateNetworks cfg) then
                forA (\<lambda>cidr. wrapA ''failed to add RFC1918 block rule'' (addRule E f ?ip cidr ''reject'')) privateCIDRs
              else retA ())
      (thenA (if BoolVal (BlockMetadataEndpoint cfg) then wrapA ''failed to add metadata block rule''
                (addRule E f ?ip ''169.254.0.0/16'' ''reject'') else retA ())
      (if length ports > 0 then
         thenA (wrapA ''failed to add port-capped allow rule''
                  (addRuleWithMatch E f ?ip ''0.0.0.0/0'' (l4PortMatch ports) ''accept''))
        (thenA (wrapA ''failed to add ICMP allow rule''
                  (addRuleWithMatch E f ?ip ''0.0.0.0/0'' icmpMatch ''accept''))
         (wrapA ''failed to add port-cap default deny rule'' (addRule E f ?ip ''0.0.0.0/0'' ''reject'')))
       else wrapA ''failed to add default allow rule'' (addRule E f ?ip ''0.0.0.0/0'' ''accept'')))))) {fwd} {}"
    by (intro runs_then[where C' = "{fwd}" and N' = "{}"] runs_wrap runs_if runs_for runs_ret runs_addRule
        runs_addRuleWithMatch runs_localAllows runs_pinDNS singletonI)
  have "runs {} {} (ApplyRestricted E f cfg) {fwd} {}"
    using runs_then[OF runs_base[of "{}" "{}"] rest] assms
    by (simp add: ApplyRestricted_def runs_def bindA_def)
  from runsD[OF this, of w] show ?thesis by (auto simp: hasAll_def)
qed

lemma ApplyAllowlist_succeeds:
  assumes "NewAllowPolicy (AllowedDomains cfg) = Inr policy" and "validateAllowedPorts (AllowedPorts cfg) = Inr ports"
    and "gatewayIP f \<noteq> []"
  shows "\<exists>w'. ApplyAllowlist E f cfg x w = (Inr (), w')"
proof -
  let ?ip = "containerIP f"
  let ?N = "insert (dynamicPortSetName ?ip) (insert (staticPortSetName ?ip) (insert (dynamicSetName ?ip) {staticSetName ?ip}))"
  have sets: "runs {fwd} {} (ensureAllowlistSets E f) {fwd} ?N"
    unfolding ensureAllowlistSets_def ensureCOITableAndChain_def
    using runs_ensure[of "{fwd}" "{}" "''ip''" "''forward''" "[''10'']"]
    by (intro runs_then[where C' = "{fwd}" and N' = "{}"] runs_then[OF runs_wrap[OF runs_set]] runs_wrap[OF runs_set]) simp
  have elements: "runs {fwd} ?N (AddStaticIPs E f cs) {fwd} ?N" "runs {fwd} ?N (AddStaticTuples E f ts g) {fwd} ?N" for cs ts g
    unfolding AddStaticIPs_def AddStaticTuples_def by (intro runs_if runs_ret runs_elements; simp)+
  have dns: "runs {fwd} ?N (blockDNS E f) (insert inp {fwd}) ?N" if "?ip \<noteq> []"
    using that unfolding blockDNS_def ensureCOIInputChain_def if_not_P[OF that] append.simps
    by (intro runs_then[OF runs_wrap[OF runs_addRuleWithMatch]] runs_then[OF runs_ensure] runs_wrap[OF runs_rule]) simp_all
  have chain: "runs C ?N (allowlistChain E f cfg ports) C ?N" if "fwd \<in> C" for C
    unfolding allowlistChain_def using that
    by (intro runs_then[where C' = C and N' = ?N] runs_wrap runs_if runs_for runs_ret runs_addRule
        runs_addRuleWithMatch runs_localAllows)
  have "\<exists>C. runs {} {} (ApplyAllowlist E f cfg x) C ?N"
  proof (cases "?ip = []")
    case True
    then have "runs {fwd} ?N (blockDNS E f) {fwd} ?N" by (simp add: blockDNS_def runs_ret)
    from runs_then[OF runs_base[of "{}" "{}"] runs_then[OF sets runs_then[OF elements(1) runs_then[OF elements(2)
      runs_then[OF this chain]]]]]
    have "runs {} {} (ApplyAllowlist E f cfg x) {fwd} ?N"
      using assms by (simp add: ApplyAllowlist_def runs_def bindA_def wrapA_def)
    then show ?thesis ..
  next
    case False
    from runs_then[OF runs_base[of "{}" "{}"] runs_then[OF sets runs_then[OF elements(1) runs_then[OF elements(2)
      runs_then[OF dns[OF False] chain]]]]]
    have "runs {} {} (ApplyAllowlist E f cfg x) (insert inp {fwd}) ?N"
      using assms by (simp add: ApplyAllowlist_def runs_def bindA_def wrapA_def)
    then show ?thesis ..
  qed
  then obtain C where "runs {} {} (ApplyAllowlist E f cfg x) C ?N" ..
  from runsD[OF this, of w] show ?thesis by (auto simp: hasAll_def)
qed

end

section \<open>From the configuration to the verdict\<close>

lemma policy_permits:
  "NewAllowPolicy es = Inr pol \<Longrightarrow> static_permits pol g x port \<longleftrightarrow> (\<exists>raw \<in> set es. entry_permits g raw x port)"
  using addEntries_permits[of emptyPolicy es pol g x port] by (simp add: NewAllowPolicy_def)

lemma resolvePorts_some:
  assumes "\<And>r. r \<in> set ports \<Longrightarrow> range_ok r"
  shows "\<exists>port. in_ranges (resolvePorts ports []) port"
proof -
  have "range_ok (PortRange 1 65535)" by (simp add: range_ok_def)
  then obtain r where "r \<in> set (resolvePorts ports [])" "range_ok r"
    using assms by (cases ports) (auto simp: resolvePorts_def allPortsRange_def)
  then have "in_ranges (resolvePorts ports []) (unat (Lo r))"
    by (auto simp: in_ranges_def in_range_def range_ok_def word_le_nat_alt intro!: bexI[of _ r])
  then show ?thesis ..
qed

lemma policy_reaches:
  assumes "NewAllowPolicy es = Inr pol"
  shows "(\<exists>t \<in> set (staticTups pol). addr_has (CIDR t) x) \<longleftrightarrow> (\<exists>raw \<in> set es. addr_has (entry_dest raw) x)"
proof -
  note ok = NewAllowPolicy_ok[OF assms]
  have "(\<exists>t \<in> set (staticTups pol). addr_has (CIDR t) x) \<longleftrightarrow> (\<exists>port. static_permits pol [] x port)"
    using ok resolvePorts_some unfolding static_permits_def policy_ok_def tuple_ok_def by blast
  also have "\<dots> \<longleftrightarrow> (\<exists>port. \<exists>raw \<in> set es. entry_permits [] raw x port)"
    using policy_permits[OF assms] by blast
  also have "\<dots> \<longleftrightarrow> (\<exists>raw \<in> set es. addr_has (entry_dest raw) x)"
    using resolvePorts_some entry_ports_ok unfolding entry_permits_def by blast
  finally show ?thesis .
qed

lemma entry_permits_ports:
  assumes "set ports = set ps"
  shows "entry_permits (intsToPortRanges ports) raw x port \<longleftrightarrow> entry_permits (intsToPortRanges ps) raw x port"
proof -
  have s: "set (intsToPortRanges ports) = set (intsToPortRanges ps)"
    using assms by (simp add: intsToPortRanges_def)
  then have "intsToPortRanges ports = [] \<longleftrightarrow> intsToPortRanges ps = []" by (metis set_empty)
  with s show ?thesis by (simp add: entry_permits_def resolvePorts_def in_ranges_def)
qed

text \<open>The tables before and after setup, for one packet.\<close>

context nft_kernel
begin

lemma restricted_verdict:
  assumes "ApplyRestricted E f cfg w = (Inr (), w')" and "parse_v4 (containerIP f) = Some (pkt_src p)"
    and "gatewayIP f = [] \<or> parse_v4 (gatewayIP f) \<noteq> None" and "\<not> pkt_tracked p"
    and "chain_verdict (nft_sets (view w')) p (toks fwd (view w)) = None"
  shows "chain_verdict (nft_sets (view w')) p (toks fwd (view w')) = Some (restrictedSpec (gatewayIP f) cfg p)"
proof -
  obtain servers ports base where
    v: "validateDNSServers (DNSServers cfg) = Inr servers" "validateAllowedPorts (AllowedPorts cfg) = Inr ports"
    and base: "base \<in> {[], [baseToks]}"
    and a: "adds (fwdRules (base @ restrictedRules (containerIP f) (gatewayIP f) cfg servers ports)) (view w) (view w')"
    using assms(1) by (rule ApplyRestricted_adds)
  have "toks fwd (view w') = toks fwd (view w) @ base @ restrictedRules (containerIP f) (gatewayIP f) cfg servers ports"
    using a unfolding adds_def rules_of_fwdRules by simp
  moreover have "chain_verdict S p base = None" for S using base assms(4) by (auto simp: eval_baseToks)
  ultimately show ?thesis
    using chain_restricted[OF assms(2,3) v] assms(5) by (simp add: chain_verdict_append)
qed

lemma allowlist_verdict:
  assumes "ApplyAllowlist E f cfg x w = (Inr (), w')" and "parse_v4 (containerIP f) = Some (pkt_src p)"
    and "parse_v4 (gatewayIP f) \<noteq> None" and "\<not> pkt_tracked p"
    and "chain_verdict (nft_sets (view w')) p (toks fwd (view w)) = None"
    and "list_all (\<lambda>n. elems n (view w) = []) (setNames (containerIP f))"
  shows "chain_verdict (nft_sets (view w')) p (toks fwd (view w')) = Some (allowlistSpec (gatewayIP f) cfg
      (\<lambda>d port. \<exists>raw \<in> set (AllowedDomains cfg). entry_permits (intsToPortRanges (AllowedPorts cfg)) raw d port)
      (\<lambda>d. \<exists>raw \<in> set (AllowedDomains cfg). addr_has (entry_dest raw) d) p)"
    and "toks inp (view w') = toks inp (view w) @ [inputDNSRule (containerIP f)]"
proof -
  let ?ip = "containerIP f"
  have ip: "?ip \<noteq> []" using assms(2) parse_v4_short by auto
  obtain ports policy base where
    v: "validateAllowedPorts (AllowedPorts cfg) = Inr ports" "NewAllowPolicy (AllowedDomains cfg) = Inr policy"
    and base: "base \<in> {[], [baseToks]}"
    and fw: "toks fwd (view w') = toks fwd (view w) @ base @ allowlistRules ?ip (gatewayIP f) cfg ports"
    and inn: "toks inp (view w') = toks inp (view w) @ [inputDNSRule ?ip]"
    and st: "elems (staticSetName ?ip) (view w') = elems (staticSetName ?ip) (view w) @ sort (staticCIDRs policy)"
    and sp: "elems (staticPortSetName ?ip) (view w') = elems (staticPortSetName ?ip) (view w) @
       sort (tupleElements (staticTups policy) (intsToPortRanges ports))"
    and others: "\<forall>n. n \<noteq> staticSetName ?ip \<longrightarrow> n \<noteq> staticPortSetName ?ip \<longrightarrow> elems n (view w') = elems n (view w)"
    using assms(1) ip by (rule ApplyAllowlist_adds)
  show "toks inp (view w') = toks inp (view w) @ [inputDNSRule ?ip]" by (rule inn)
  have dyn: "elems (dynamicSetName ?ip) (view w') = []" "elems (dynamicPortSetName ?ip) (view w') = []"
    using others assms(6)
    by (simp_all add: setNames_def staticSetName_def dynamicSetName_def staticPortSetName_def dynamicPortSetName_def)
  note ok = NewAllowPolicy_ok[OF v(2)]
  have "inTuples (view w') ?ip d port \<longleftrightarrow>
      (\<exists>raw \<in> set (AllowedDomains cfg). entry_permits (intsToPortRanges (AllowedPorts cfg)) raw d port)" for d port
    using policy_tuples[OF ok] policy_permits[OF v(2)] entry_permits_ports[OF validateAllowedPorts_Inr(1)[OF v(1)]]
      sp assms(6) dyn by (simp add: inTuples_def setNames_def)
  moreover have "inAddrs (view w') ?ip d \<longleftrightarrow> (\<exists>raw \<in> set (AllowedDomains cfg). addr_has (entry_dest raw) d)" for d
    using policy_addrs[OF ok] policy_reaches[OF v(2)] st assms(6) dyn by (simp add: inAddrs_def setNames_def)
  moreover have "chain_verdict S p base = None" for S using base assms(4) by (auto simp: eval_baseToks)
  ultimately have e: "inTuples (view w') ?ip = (\<lambda>d port. \<exists>raw \<in> set (AllowedDomains cfg).
        entry_permits (intsToPortRanges (AllowedPorts cfg)) raw d port)"
    "inAddrs (view w') ?ip = (\<lambda>d. \<exists>raw \<in> set (AllowedDomains cfg). addr_has (entry_dest raw) d)"
    "chain_verdict (nft_sets (view w')) p base = None" by (simp_all add: fun_eq_iff)
  show "chain_verdict (nft_sets (view w')) p (toks fwd (view w')) = Some (allowlistSpec (gatewayIP f) cfg
      (\<lambda>d port. \<exists>raw \<in> set (AllowedDomains cfg). entry_permits (intsToPortRanges (AllowedPorts cfg)) raw d port)
      (\<lambda>d. \<exists>raw \<in> set (AllowedDomains cfg). addr_has (entry_dest raw) d) p)"
    unfolding fw chain_verdict_append assms(5) e(3) chain_allowlist[OF assms(2,3) v(1), of "view w'"] e(1,2) by simp
qed

end

section \<open>Properties\<close>

text \<open>A concrete container, configuration and kernel for the witnesses.\<close>

definition demoManager :: NftManager where
  "demoManager = NewNftManager ''10.1.2.3'' ''10.1.2.1''"

definition demoConfig :: NetworkConfig where
  "demoConfig = \<lparr>Mode = ''restricted'', BlockPrivateNetworks = Some True, BlockMetadataEndpoint = Some True,
     AllowedDomains = [''93.184.216.0/24:443'', ''example.com''], RefreshIntervalMinutes = 30,
     AllowLocalNetworkAccess = None, UseSudo = None, Logging = \<lparr>LogEnabled = None, LogPath = []\<rparr>,
     Hosts = [], DNSServers = [''1.1.1.1''], AllowedPorts = [443, 80]\<rparr>"

definition demoKernel :: nft_state where
  "demoKernel = \<lparr>nft_chains = (\<lambda>_. None), nft_sets = (\<lambda>_. None), nft_next = 1\<rparr>"

definition demoPacket :: "ip4 \<Rightarrow> proto \<Rightarrow> nat \<Rightarrow> packet" where
  "demoPacket dst pr port = \<lparr>pkt_iif = ''veth1'', pkt_src = 0x0A010203, pkt_dst = dst, pkt_proto = pr,
     pkt_dport = port, pkt_tracked = False, pkt_in_rate = True\<rparr>"

lemma demo_v4: "parse_v4 ''10.1.2.3'' = Some 0x0A010203" "parse_v4 ''10.1.2.1'' = Some 0x0A010201"
  "parse_v4 ''1.1.1.1'' = Some 0x01010101"
  by (simp_all add: entry_eval)

lemma demo_valid: "\<exists>s. validateDNSServers (DNSServers demoConfig) = Inr s"
  "\<exists>q. validateAllowedPorts (AllowedPorts demoConfig) = Inr q" "\<exists>pol. NewAllowPolicy (AllowedDomains demoConfig) = Inr pol"
proof -
  have "canonIPv4 ''1.1.1.1'' = Inr (ip4_string 0x01010101)"
    by (simp add: canonIPv4_def net_ParseIP_v4[OF demo_v4(3)] trim_space_def is_space_def)
  then show "\<exists>s. validateDNSServers (DNSServers demoConfig) = Inr s"
    by (simp add: demoConfig_def validateDNSServers_def)
  show "\<exists>q. validateAllowedPorts (AllowedPorts demoConfig) = Inr q"
    by (simp add: demoConfig_def validateAllowedPorts_ok)
  show "\<exists>pol. NewAllowPolicy (AllowedDomains demoConfig) = Inr pol"
    by (simp add: demoConfig_def NewAllowPolicy_def entry_eval)
qed

lemma demo_empty: "toks ch demoKernel = []" "elems n demoKernel = []"
  by (simp_all add: demoKernel_def toks_def elems_def)

text \<open>C1. Restricted mode is enforced: after \<open>ApplyRestricted\<close> returned without error, a new
  packet of the container that no older rule of the forward chain decides gets exactly the
  verdict of the abstract policy \<open>restrictedSpec\<close> (gateway, pinned resolvers, LAN, metadata,
  port cap), whatever the kernel did in between.\<close>

theorem restricted_enforced:
  assumes "nft_kernel E view" and "ApplyRestricted E f cfg w = (Inr (), w')"
    and "parse_v4 (containerIP f) = Some (pkt_src p)"
    and "gatewayIP f = [] \<or> parse_v4 (gatewayIP f) \<noteq> None" and "\<not> pkt_tracked p"
    and "chain_verdict (nft_sets (view w')) p (toks fwd (view w)) = None"
  shows "chain_verdict (nft_sets (view w')) p (toks fwd (view w')) = Some (restrictedSpec (gatewayIP f) cfg p)"
  by (rule nft_kernel.restricted_verdict[OF assms])

lemma restricted_enforced_witness:
  "\<exists>w'. ApplyRestricted ref_env demoManager demoConfig demoKernel = (Inr (), w') \<and>
     chain_verdict (nft_sets w') (demoPacket 0xC0A80001 TCP 443) (toks fwd w') = Some Reject \<and>
     restrictedSpec ''10.1.2.1'' demoConfig (demoPacket 0xC0A80001 TCP 443) = Reject"
proof -
  obtain w' where w': "ApplyRestricted ref_env demoManager demoConfig demoKernel = (Inr (), w')"
    using ref.ApplyRestricted_succeeds demo_valid(1,2) by blast
  have "restrictedSpec ''10.1.2.1'' demoConfig (demoPacket 0xC0A80001 TCP 443) = Reject"
    by (simp add: restrictedSpec_def demo_v4 demoPacket_def demoConfig_def rfc1918_def Let_def)
  moreover have "chain_verdict (nft_sets w') (demoPacket 0xC0A80001 TCP 443) (toks fwd w') =
      Some (restrictedSpec (gatewayIP demoManager) demoConfig (demoPacket 0xC0A80001 TCP 443))"
    by (rule restricted_enforced[OF ref.nft_kernel_axioms w'])
      (simp_all add: demoManager_def NewNftManager_def demo_v4 demoPacket_def demo_empty)
  ultimately show ?thesis using w' by (auto simp: demoManager_def NewNftManager_def)
qed





end
