(* ===== verification/Lifecycle.thy ===== *)
theory Lifecycle
  imports Egress
begin

text \<open>
  A container's filter state over time: what purging an address removes and what it leaves
  alone, the drop rules keyed on a veth, and the DNS-learned elements across refreshes
  (\<open>internal/network/nft_filter.go\<close> and \<open>internal/network/nftset.go\<close>).
\<close>

section \<open>Drop rules keyed on a veth\<close>

declare split_paired_All [simp del] split_paired_Ex [simp del]

abbreviation dropToks :: "string \<Rightarrow> string \<Rightarrow> string list" where
  "dropToks veth c \<equiv> [''iifname'', veth, ''drop'', ''comment'', quoted c]"

lemma eval_dropToks: "eval_toks S p (dropToks veth c) = (if pkt_iif p = veth then Some Drop else None)"
  by (simp add: verdicts)

lemma chain_clean_toks: "chain_clean ch s \<longleftrightarrow> list_all clean (toks ch s)"
  by (cases "nft_chains s ch") (simp_all add: chain_clean_def toks_def list.pred_map o_def)

context nft_kernel
begin

lemma addDropRule_ok:
  assumes "addDropRule E family veth c w = (Inr u, w')" and "chain_clean (family, ''coi'', ''forward'') (view w)"
    and "plain c"
  shows "(view w' = view w \<and> (\<exists>t \<in> set (toks (family, ''coi'', ''forward'') (view w)). comment_tok t = Some (quoted c)))
    \<or> adds [Rule (family, ''coi'', ''forward'') (dropToks veth c)] (view w) (view w')"
proof -
  obtain q w1 where q: "nftRuleExistsWithCommentFamily E family c w = (q, w1)" by force
  note v = exists_view[OF q]
  show ?thesis
  proof (cases "q = Inr True")
    case True
    with assms(1) q have "w' = w1" by (simp add: addDropRule_def bindA_def tryA_def)
    moreover obtain rs r where "nft_chains (view w) (family, ''coi'', ''forward'') = Some rs" "r \<in> set rs" "has_comment c r"
      using q[unfolded True] assms(2,3) by (rule exists_true)
    ultimately show ?thesis using v by (auto simp: toks_def has_comment_def)
  next
    case False
    with assms(1) q have "nftDo E (''add'' # ''rule'' # family # ''coi'' # ''forward'' # dropToks veth c) w1 = (Inr u, w')"
      by (simp add: addDropRule_def bindA_def tryA_def wrapA_Inr)
    with emitsD[OF emits_rule] v show ?thesis by metis
  qed
qed

lemma keeps_addDropRule: "keeps (extends s) (addDropRule E family veth c)"
  unfolding addDropRule_def by (intro keeps_intros keeps_exists keeps_rule)

lemma ApplyIPv6Block_ok:
  assumes "ApplyIPv6BlockForContainer E H name w = (Inr u, w')" and "chain_clean fwd6 (view w)" and "plain name"
    and "\<forall>w. GetContainerVethName H name w = (Inr veth, w)"
  shows "(toks fwd6 (view w') = toks fwd6 (view w) \<and>
      (\<exists>t \<in> set (toks fwd6 (view w)). comment_tok t = Some (quoted (ipv6BlockComment name))))
    \<or> toks fwd6 (view w') = toks fwd6 (view w) @ [dropToks veth (ipv6BlockComment name)]"
proof -
  obtain w1 where e: "ensureCOIIP6TableAndChain E w = (Inr (), w1)" and
    d: "addDropRule E ''ip6'' veth (ipv6BlockComment name) w1 = (Inr u, w')"
    using assms(1,4) by (auto simp: ApplyIPv6BlockForContainer_def thenA_Inr bindA_Inr tryA_Inr split: if_splits)
  have a: "adds [] (view w) (view w1)" by (rule emitsD[OF emits_ensure(3) e])
  have c: "chain_clean fwd6 (view w1)"
    using a assms(2) by (simp add: chain_clean_toks adds_def)
  have p: "plain (ipv6BlockComment name)" using assms(3) by (simp add: ipv6BlockComment_def plain_def char_defs)
  from addDropRule_ok[OF d c p] a show ?thesis by (auto simp: adds_def)
qed

end

context reliable_nft
begin

lemma exists_finds:
  assumes "chain_clean (f, ''coi'', ''forward'') (view w)" and "plain c"
    and "t \<in> set (toks (f, ''coi'', ''forward'') (view w))" and "comment_tok t = Some (quoted c)"
  obtains w' where "nftRuleExistsWithCommentFamily E f c w = (Inr True, w')" "view w' = view w"
proof -
  obtain rs where rs: "nft_chains (view w) (f, ''coi'', ''forward'') = Some rs"
    using assms(3) by (cases "nft_chains (view w) (f, ''coi'', ''forward'')") (simp_all add: toks_def)
  then have d: "nft_doc [''list'', ''chain'', f, ''coi'', ''forward''] (view w) = Some (view w)"
    by (simp add: nft_doc_list)
  from run_total[OF d] obtain out w' where r: "runNFTCommand E [''list'', ''chain'', f, ''coi'', ''forward''] w = (Inr out, w')"
    "view w' = view w" by blast
  then have "nft_cmd E [''list'', ''chain'', f, ''coi'', ''forward''] w = (Inr out, w')"
    by (auto simp: runNFTCommand_def split: if_splits)
  from list_out_plain[OF this rs _ assms(2)] assms rs have "str_contains out (shown c)"
    by (auto simp: chain_clean_def toks_def list_all_iff)
  with r that show thesis by (simp add: nftRuleExistsWithCommentFamily_def bindA_def tryA_def)
qed

lemma ApplyIPv6Block_present:
  assumes "NftInstalled H" and "\<forall>w. GetContainerVethName H name w = (Inr veth, w)" and "veth \<noteq> []"
    and "chain_clean fwd6 (view w)" and "plain name"
    and "\<exists>t \<in> set (toks fwd6 (view w)). comment_tok t = Some (quoted (ipv6BlockComment name))"
  shows "\<exists>w'. ApplyIPv6BlockForContainer E H name w = (Inr (), w') \<and> toks fwd6 (view w') = toks fwd6 (view w)"
proof -
  have "hasAll {} {} (view w)" by (simp add: hasAll_def)
  from runsD[OF runs_ensure this, of "''ip6''" "''forward''" "[''10'']"] obtain u w1
    where e: "ensureCOIIP6TableAndChain E w = (Inr (), w1)" by (auto simp: ensureCOIIP6TableAndChain_def)
  have a: "toks fwd6 (view w1) = toks fwd6 (view w)" using emitsD[OF emits_ensure(3) e] by (simp add: adds_def)
  then have c: "chain_clean fwd6 (view w1)" using assms(4) by (simp add: chain_clean_toks)
  have p: "plain (ipv6BlockComment name)" using assms(5) by (simp add: ipv6BlockComment_def plain_def char_defs)
  from assms(6) a obtain t where t: "t \<in> set (toks fwd6 (view w1))" "comment_tok t = Some (quoted (ipv6BlockComment name))" by auto
  obtain w2 where "nftRuleExistsWithCommentFamily E ''ip6'' (ipv6BlockComment name) w1 = (Inr True, w2)" "view w2 = view w1"
    using c p t by (rule exists_finds)
  with e a assms(1,2,3) show ?thesis
    by (simp add: ApplyIPv6BlockForContainer_def addDropRule_def thenA_def bindA_def tryA_def)
qed

end

section \<open>Refreshing the DNS-learned elements\<close>

text \<open>The same keys are synced at every time of a schedule, with the TTL of that answer.\<close>

fun syncAll :: "'w netenv \<Rightarrow> string \<Rightarrow> string list \<Rightarrow> int \<Rightarrow> (int \<times> 32 word) list \<Rightarrow> seen \<Rightarrow> ('w, seen) act" where
  "syncAll E name keys R [] s = retA s"
| "syncAll E name keys R ((now, ttl) # sched) s =
     bindA (syncDynamicSetLocked E name keys (elementTimeout ttl R) s now) (\<lambda>(r, s1). case r of
         Inl e \<Rightarrow> failA e | Inr _ \<Rightarrow> syncAll E name keys R sched s1)"

lemma syncAll_key:
  "syncAll E name keys R sched s w = (Inr s', w') \<Longrightarrow> k \<in> set keys \<Longrightarrow> s' k = expiryAfter R sched (s k)"
proof (induction sched arbitrary: s w)
  case (Cons a sched)
  obtain now ttl where a: "a = (now, ttl)" by (cases a)
  from Cons.prems(1)[unfolded a] obtain s1 w1
    where s: "syncDynamicSetLocked E name keys (elementTimeout ttl R) s now w = (Inr (Inr (), s1), w1)"
      and r: "syncAll E name keys R sched s1 w1 = (Inr s', w')"
    by (auto simp: bindA_Inr split: sum.splits)
  show ?case unfolding a using Cons.IH[OF r Cons.prems(2)] sync_seen_key[OF s, of k] Cons.prems(2) by simp
qed simp

lemma purged_keeps: "purged ip s s' \<Longrightarrow> t \<in> set (toks ch s) \<Longrightarrow> foreign (''coi-'' @ ip) t \<Longrightarrow> t \<in> set (toks ch s')"
proof -
  assume p: "purged ip s s'" and t: "t \<in> set (toks ch s)" "foreign (''coi-'' @ ip) t"
  have "t \<in> set (filter (foreign (''coi-'' @ ip)) (toks ch s))" using t by simp
  also have "filter (foreign (''coi-'' @ ip)) (toks ch s) = filter (foreign (''coi-'' @ ip)) (toks ch s')"
    using p by (simp add: purged_def)
  finally show ?thesis by simp
qed

text \<open>What the manager remembers is in the kernel, for both dynamic sets.\<close>

definition managerInSync :: "NftManager \<Rightarrow> nft_state \<Rightarrow> bool" where
  "managerInSync f s \<longleftrightarrow> seen_ok s (dynamicSetName (containerIP f)) (dynSeen f) \<and>
     seen_ok s (dynamicPortSetName (containerIP f)) (dynSeenTuples f)"

definition allSeen :: "NftManager \<Rightarrow> string list \<Rightarrow> portRange list \<Rightarrow> bool" where
  "allSeen f ips ports \<longleftrightarrow> list_all (\<lambda>ip. dynSeen f ip \<noteq> None \<and>
     list_all (\<lambda>p. dynSeenTuples f (portTupleElem ip p) \<noteq> None) (if ports = [] then allPortsRange else ports)) ips"

lemma sync_Inr: "\<exists>x s'. syncDynamicSetLocked E name keys t s now w = (Inr (x, s'), snd (syncDynamicSetLocked E name keys t s now w))"
  by (auto simp: syncDynamicSetLocked_def Let_def bindA_def tryA_def split: prod.splits sum.splits)

context nft_kernel
begin

lemma AllowDynamic_sync:
  assumes "AllowDynamicIPsPorts E f ips ports ttl R now w = (q, w')" and "managerInSync f (view w)"
    and "list_all elem_safe ips"
  obtains r f' where "q = Inr (r, f')" "containerIP f' = containerIP f" "managerInSync f' (view w')"
    "r = Inr () \<Longrightarrow> containerIP f \<noteq> [] \<Longrightarrow> allSeen f' ips ports"
proof (cases "containerIP f = [] \<or> ips = []")
  case True
  with assms(1,2) that show thesis by (auto simp: AllowDynamicIPsPorts_def allSeen_def)
next
  case False
  let ?ip = "containerIP f" and ?T = "elementTimeout ttl R"
  let ?ports = "if ports = [] then allPortsRange else ports"
  let ?tuples = "concat (map (\<lambda>ip. map (portTupleElem ip) ?ports) ips)"
  obtain r1 s1 w1 where 1: "syncDynamicSetLocked E (dynamicSetName ?ip) ips ?T (dynSeen f) now w = (Inr (r1, s1), w1)"
    using sync_Inr by metis
  have ok: "seen_ok (view w) (dynamicSetName ?ip) (dynSeen f)" "seen_ok (view w) (dynamicPortSetName ?ip) (dynSeenTuples f)"
    using assms(2) by (simp_all add: managerInSync_def)
  note s1 = sync_ok[OF 1 ok(1) assms(3)]
  have ok2: "seen_ok (view w1) (dynamicPortSetName ?ip) (dynSeenTuples f)" using grown_seen_ok s1(1) ok(2) by blast
  show thesis
  proof (cases r1)
    case (Inl e)
    with assms(1) False 1 have "q = Inr (Inl e, f\<lparr>dynSeen := s1\<rparr>)" "w' = w1"
      by (simp_all add: AllowDynamicIPsPorts_def Let_def bindA_def)
    with that s1(2) ok2 show thesis by (simp add: managerInSync_def)
  next
    case (Inr u)
    obtain r2 s2 w2 where 2: "syncDynamicSetLocked E (dynamicPortSetName ?ip) ?tuples ?T (dynSeenTuples f) now w1 = (Inr (r2, s2), w2)"
      using sync_Inr by metis
    have "list_all elem_safe ?tuples" using assms(3) by (auto simp: list_all_iff portTupleElem_safe)
    note s2 = sync_ok[OF 2 ok2 this]
    have "q = Inr (r2, f\<lparr>dynSeen := s1, dynSeenTuples := s2\<rparr>)" "w' = w2"
      using assms(1) False 1 2 Inr by (auto simp: AllowDynamicIPsPorts_def Let_def bindA_def)
    moreover have "seen_ok (view w2) (dynamicSetName ?ip) s1" using grown_seen_ok s2(1) s1(2) by blast
    moreover have "allSeen (f\<lparr>dynSeen := s1, dynSeenTuples := s2\<rparr>) ips ports" if "r2 = Inr ()"
      using s1(3) s2(3)[OF that] Inr by (simp add: allSeen_def list_all_iff)
    ultimately show thesis using that s2(2) by (simp add: managerInSync_def)
  qed
qed

end

section \<open>Properties\<close>

text \<open>A kernel that holds the rules of two containers, for the witnesses.\<close>

definition demoShared :: nft_state where
  "demoShared = \<lparr>nft_chains = [fwd \<mapsto> [(1, baseToks), (2, ruleToks ''10.1.2.3'' ''10.1.2.3'' ''0.0.0.0/0'' [] ''accept''),
       (3, ruleToks ''10.1.2.4'' ''10.1.2.4'' ''0.0.0.0/0'' [] ''reject'')],
     fwd6 \<mapsto> [(4, dropToks ''veth1'' ''coi6-box'')]],
     nft_sets = [''coi_s_10_1_2_3'' \<mapsto> [''1.1.1.1/32''], ''coi_s_10_1_2_4'' \<mapsto> [''9.9.9.9/32'']], nft_next = 5\<rparr>"

lemma demoShared_toks:
  "toks fwd demoShared = [baseToks, ruleToks ''10.1.2.3'' ''10.1.2.3'' ''0.0.0.0/0'' [] ''accept'',
     ruleToks ''10.1.2.4'' ''10.1.2.4'' ''0.0.0.0/0'' [] ''reject'']"
  "toks inp demoShared = []" "toks fwd6 demoShared = [dropToks ''veth1'' ''coi6-box'']"
  by (simp_all add: demoShared_def toks_def)

lemma demoShared_clean: "coi_clean demoShared"
proof -
  have "nft_wf demoShared" by (auto simp: nft_wf_def demoShared_def split: if_splits)
  moreover have "list_all clean (toks fwd demoShared)" "list_all clean (toks inp demoShared)"
    "list_all clean (toks fwd6 demoShared)"
    unfolding demoShared_toks by (simp_all add: clean_def quoted_def plain_def baseToks_def ruleToks_def char_defs)
  ultimately show ?thesis by (simp add: coi_clean_def chain_clean_toks)
qed

text \<open>C5. Purging an address is confined to that address: whatever commands fail and wherever
  the run stops, \<open>DeleteCOIFilterRulesForIP\<close> keeps every rule with another comment, in order,
  in every chain, all other chains and the sets of all other containers.\<close>

theorem purge_frame:
  assumes "nft_kernel E view" and "DeleteCOIFilterRulesForIP E ip w = (r, w')" and "coi_clean (view w)" and "plain ip"
  shows "purged ip (view w) (view w')"
  using nft_kernel.Delete_purged[OF assms] by blast

lemma purge_frame_witness:
  "\<exists>r w'. DeleteCOIFilterRulesForIP ref_env ''10.1.2.3'' demoShared = (r, w') \<and>
     ruleToks ''10.1.2.4'' ''10.1.2.4'' ''0.0.0.0/0'' [] ''reject'' \<in> set (toks fwd w') \<and>
     elems ''coi_s_10_1_2_4'' w' = [''9.9.9.9/32'']"
proof -
  obtain r w' where d: "DeleteCOIFilterRulesForIP ref_env ''10.1.2.3'' demoShared = (r, w')" by force
  have p: "purged ''10.1.2.3'' demoShared w'"
    by (rule purge_frame[OF ref.nft_kernel_axioms d demoShared_clean]) (simp add: plain_def char_defs)
  have "ruleToks ''10.1.2.4'' ''10.1.2.4'' ''0.0.0.0/0'' [] ''reject'' \<in> set (toks fwd w')"
    by (rule purged_keeps[OF p]) (simp_all add: demoShared_toks foreign_def ruleToks_def quoted_def)
  moreover have "elems ''coi_s_10_1_2_4'' w' = [''9.9.9.9/32'']"
    using p by (simp add: purged_def setNames_def staticSetName_def dynamicSetName_def staticPortSetName_def
        dynamicPortSetName_def nftIdent_def replace_char_def elems_def demoShared_def)
  ultimately show ?thesis using d by blast
qed



text \<open>C7. The IPv6 boundary: when \<open>ApplyIPv6BlockForContainer\<close> returned without error and no
  rule of the container was there before, every IPv6 packet that enters from its veth and that
  no older rule decides is dropped, and the packets of other interfaces fare as before.\<close>

theorem ipv6_block_enforced:
  assumes "nft_kernel E view" and "ApplyIPv6BlockForContainer E H name w = (Inr (), w')"
    and "chain_clean fwd6 (view w)" and "plain name" and "\<forall>w. GetContainerVethName H name w = (Inr veth, w)"
    and "list_all (foreign (ipv6BlockComment name)) (toks fwd6 (view w))"
  shows "chain_verdict S p (toks fwd6 (view w')) = (case chain_verdict S p (toks fwd6 (view w)) of
      Some v \<Rightarrow> Some v | None \<Rightarrow> if pkt_iif p = veth then Some Drop else None)"
proof -
  have "toks fwd6 (view w') = toks fwd6 (view w) @ [dropToks veth (ipv6BlockComment name)]"
    using nft_kernel.ApplyIPv6Block_ok[OF assms(1-5)] assms(6) by (auto simp: list_all_iff foreign_def)
  then show ?thesis by (simp add: chain_verdict_append eval_dropToks split: option.split)
qed

definition demoHost :: "nft_state hostenv" where
  "demoHost = \<lparr>NftInstalled = True, GetContainerVethName = (\<lambda>_ w. (Inr ''veth2'', w))\<rparr>"

lemma ipv6_block_enforced_witness:
  "\<exists>w'. ApplyIPv6BlockForContainer ref_env demoHost ''web'' demoKernel = (Inr (), w') \<and>
     chain_verdict (\<lambda>_. None) ((demoPacket 0 TCP 443)\<lparr>pkt_iif := ''veth2''\<rparr>) (toks fwd6 w') = Some Drop"
proof -
  have "fst (ApplyIPv6BlockForContainer ref_env demoHost ''web'' demoKernel) = Inr ()" by code_simp
  then obtain w' where r: "ApplyIPv6BlockForContainer ref_env demoHost ''web'' demoKernel = (Inr (), w')"
    by (metis prod.collapse)
  let ?p = "(demoPacket 0 TCP 443)\<lparr>pkt_iif := ''veth2''\<rparr>"
  have "chain_verdict (\<lambda>_. None) ?p (toks fwd6 w') = (case chain_verdict (\<lambda>_. None) ?p (toks fwd6 demoKernel) of
      Some v \<Rightarrow> Some v | None \<Rightarrow> if pkt_iif ?p = ''veth2'' then Some Drop else None)"
    by (rule ipv6_block_enforced[OF ref.nft_kernel_axioms r])
      (simp_all add: demo_empty chain_clean_toks plain_def char_defs demoHost_def)
  with r show ?thesis by (auto simp: demo_empty)
qed

text \<open>C8. Idempotence is by name, not by veth: on a kernel that does not fail, when the IPv6 chain
  already holds a rule with the container's name in its comment, \<open>ApplyIPv6BlockForContainer\<close>
  reports success and changes no rule, whatever veth that rule is about. A rule left over for the
  veth of an earlier boot (an unclean shutdown, then a restart of a persistent container) leaves
  the new veth unblocked.\<close>

theorem ipv6_block_stale:
  assumes "reliable_nft E view" and "NftInstalled H" and "\<forall>w. GetContainerVethName H name w = (Inr veth, w)"
    and "veth \<noteq> []" and "chain_clean fwd6 (view w)" and "plain name"
    and "\<exists>t \<in> set (toks fwd6 (view w)). comment_tok t = Some (quoted (ipv6BlockComment name))"
  shows "\<exists>w'. ApplyIPv6BlockForContainer E H name w = (Inr (), w') \<and> toks fwd6 (view w') = toks fwd6 (view w)"
  using reliable_nft.ApplyIPv6Block_present[OF assms] .

lemma ipv6_block_stale_witness:
  "\<exists>w'. ApplyIPv6BlockForContainer ref_env demoHost ''box'' demoShared = (Inr (), w') \<and>
     chain_decides (\<lambda>_. None) ((demoPacket 0 TCP 443)\<lparr>pkt_iif := ''veth2''\<rparr>) (toks fwd6 w') = Accept"
proof -
  have "\<exists>w'. ApplyIPv6BlockForContainer ref_env demoHost ''box'' demoShared = (Inr (), w') \<and> toks fwd6 w' = toks fwd6 demoShared"
    by (rule ipv6_block_stale[where veth = "''veth2''", OF ref.reliable_nft_axioms])
      (use demoShared_clean in \<open>simp_all add: demoHost_def plain_def char_defs demoShared_toks ipv6BlockComment_def coi_clean_def\<close>)
  then show ?thesis by (auto simp: demoShared_toks chain_decides_def eval_dropToks)
qed

text \<open>C9. A recorded element is in the kernel: when \<open>AllowDynamicIPsPorts\<close> returns, every address
  and every address-port tuple the manager remembers as installed is an element of the kernel's
  set, even if a command failed on the way; when it returns without error, all the addresses and
  all their tuples are remembered. A failed command can never leave an element marked as
  installed.\<close>

theorem dynamic_elements_tracked:
  assumes "nft_kernel E view" and "AllowDynamicIPsPorts E f ips ports ttl R now w = (q, w')"
    and "managerInSync f (view w)" and "list_all elem_safe ips"
  shows "\<exists>r f'. q = Inr (r, f') \<and> containerIP f' = containerIP f \<and> managerInSync f' (view w') \<and>
    (r = Inr () \<and> containerIP f \<noteq> [] \<longrightarrow> allSeen f' ips ports)"
  using assms by (rule nft_kernel.AllowDynamic_sync) blast

lemma dynamic_elements_tracked_witness:
  "\<exists>f' w'. AllowDynamicIPsPorts ref_env (NewNftManager ''10.1.2.3'' ''10.1.2.1'') [''1.2.3.4''] [] 300 0 0
      (demoShared\<lparr>nft_sets := (nft_sets demoShared)(''coi_d_10_1_2_3'' \<mapsto> [], ''coi_dp_10_1_2_3'' \<mapsto> [])\<rparr>) = (Inr (Inr (), f'), w') \<and>
     managerInSync f' w' \<and> allSeen f' [''1.2.3.4''] []"
proof -
  let ?s = "demoShared\<lparr>nft_sets := (nft_sets demoShared)(''coi_d_10_1_2_3'' \<mapsto> [], ''coi_dp_10_1_2_3'' \<mapsto> [])\<rparr>"
  let ?f = "NewNftManager ''10.1.2.3'' ''10.1.2.1''"
  have "map_sum id fst (fst (AllowDynamicIPsPorts ref_env ?f [''1.2.3.4''] [] 300 0 0 ?s)) = Inr (Inr ())"
    by (simp add: AllowDynamicIPsPorts_def NewNftManager_def syncDynamicSetLocked_def pruneSeen_def staleKey_def
      dynamicSetName_def dynamicPortSetName_def nftIdent_def replace_char_def bindA_def tryA_def addSetElements_def
      wrapA_def nftDo_def runNFTCommand_def ref_env_def ref_exec_def nft_doc_add_element allPortsRange_def elementTimeout_def Let_def)
  then obtain f' w' where r: "AllowDynamicIPsPorts ref_env ?f [''1.2.3.4''] [] 300 0 0 ?s = (Inr (Inr (), f'), w')"
    by (cases "AllowDynamicIPsPorts ref_env ?f [''1.2.3.4''] [] 300 0 0 ?s") (auto simp: map_sum_def split: sum.splits)
  have "managerInSync ?f ?s" "list_all elem_safe [''1.2.3.4'']"
    by (simp_all add: managerInSync_def seen_ok_def NewNftManager_def elem_safe_def)
  then have "\<exists>r g. (Inr (Inr (), f') :: (unit result \<times> NftManager) result) = Inr (r, g) \<and> containerIP g = containerIP ?f \<and>
      managerInSync g w' \<and> (r = Inr () \<and> containerIP ?f \<noteq> [] \<longrightarrow> allSeen g [''1.2.3.4''] [])"
    by (rule dynamic_elements_tracked[OF ref.nft_kernel_axioms r])
  with r show ?thesis by (auto simp: NewNftManager_def)
qed

text \<open>C10. Periodic refresh keeps an element: with refreshes every \<open>R\<close> (an even number of
  nanoseconds) whose answers carry the same TTL, the expiry recorded after any number of
  refreshes lies at or after the next refresh, for every TTL; with interval 0 the element is permanent.\<close>

theorem refresh_keeps_alive:
  assumes "syncAll E name keys R (steady R ttl (Suc n)) (\<lambda>_. None) w = (Inr s, w')" and "k \<in> set keys"
    and "0 \<le> R" and "even R" and "now \<le> int (Suc n) * R"
  shows "alive now (s k) \<and> (R = 0 \<longrightarrow> s k = Some Permanent)"
proof (cases "R = 0")
  case True
  have "expiryAfter 0 sched (Some Permanent) = Some Permanent" for sched
    by (induction sched) (auto simp: permanent_expiry)
  moreover have "steady 0 ttl (Suc n) = (0, ttl) # replicate n (0, ttl)"
    unfolding steady_def by (simp add: map_replicate_const del: upt_Suc)
  ultimately have "s k = Some Permanent"
    using syncAll_key[OF assms(1,2)] True by (simp add: permanent_expiry)
  then show ?thesis by (simp add: alive_def)
next
  case False
  with assms(3) have "0 < R" by simp
  from steady_expiry[OF this assms(4), of ttl n] syncAll_key[OF assms(1,2)] assms(5) False
  show ?thesis by (auto simp: alive_def)
qed

lemma refresh_keeps_alive_witness:
  "\<exists>s w'. syncAll ref_env ''coi_d_10_1_2_3'' [''1.2.3.4''] (60 * second) (steady (60 * second) 300 1) (\<lambda>_. None)
      (demoShared\<lparr>nft_sets := [''coi_d_10_1_2_3'' \<mapsto> []]\<rparr>) = (Inr s, w') \<and> alive (60 * second) (s ''1.2.3.4'')"
proof -
  let ?m = "syncAll ref_env ''coi_d_10_1_2_3'' [''1.2.3.4''] (60 * second) (steady (60 * second) 300 (Suc 0)) (\<lambda>_. None)
      (demoShared\<lparr>nft_sets := [''coi_d_10_1_2_3'' \<mapsto> []]\<rparr>)"
  have "map_sum id (\<lambda>_. ()) (fst ?m) = Inr ()"
    by (simp add: steady_def syncDynamicSetLocked_def pruneSeen_def staleKey_def bindA_def tryA_def addSetElements_def
      wrapA_def nftDo_def runNFTCommand_def ref_env_def ref_exec_def nft_doc_add_element Let_def)
  then obtain s w' where r: "?m = (Inr s, w')" by (cases ?m) (auto simp: map_sum_def split: sum.splits)
  have "alive (60 * second) (s ''1.2.3.4'') \<and> (60 * second = 0 \<longrightarrow> s ''1.2.3.4'' = Some Permanent)"
    by (rule refresh_keeps_alive[OF r]) (simp_all add: second_def)
  with r show ?thesis by auto
qed

text \<open>When the TTL drops between two refreshes the renewal test can skip an element that does
  not live until the next one: with a refresh every 30 minutes, an address first seen with a TTL
  of 900 s and then of 0 s is gone five minutes before the third refresh.\<close>

lemma renewal_gap:
  "expiryAfter (1800 * second) [(0, 900), (1800 * second, 0)] None = Some (Expires (3300 * second)) \<and>
   \<not> alive (3400 * second) (expiryAfter (1800 * second) [(0, 900), (1800 * second, 0)] None)"
  by code_simp

end
