(* ===== verification/Hosts.thy ===== *)
theory Hosts
  imports Lifecycle
begin

text \<open>
  The container's \<open>/etc/hosts\<close> and the reachability of user host entries:
  \<open>internal/network/hosts.go\<close>, \<open>internal/network/user_hosts.go\<close> and
  \<open>ValidateNetworkHosts\<close> of \<open>internal/config/types.go\<close>.

  The first part renders, replaces and parses the managed blocks; a file is seen as a
  sequence of segments (\<open>segment\<close>), and the lemmas show that the rewriting script replaces
  exactly the segments of its own kind. The second part decides which entries a network mode
  can reach and opens the firewall for them.
\<close>

section \<open>Markers and rendering\<close>

definition hostsBeginMarker :: string where
  "hostsBeginMarker = ''# BEGIN coi allowlist (managed by coi '' @ [CHR 0xE2, CHR 0x80, CHR 0x94] @ '' edits will be overwritten)''"

definition hostsEndMarker :: string where
  "hostsEndMarker = ''# END coi allowlist''"

definition userHostsBeginMarker :: string where
  "userHostsBeginMarker = ''# BEGIN coi hosts (managed by coi '' @ [CHR 0xE2, CHR 0x80, CHR 0x94] @ '' edits will be overwritten)''"

definition userHostsEndMarker :: string where
  "userHostsEndMarker = ''# END coi hosts''"

abbreviation NL :: char where "NL \<equiv> CHR 0x0A"
abbreviation TAB :: char where "TAB \<equiv> CHR 0x09"

text \<open>A Go map from names to address lists, in the order a \<open>range\<close> over it happens to take.\<close>

type_synonym domain_ips = "(string \<times> string list) list"

definition renderHostsBlock :: "domain_ips \<Rightarrow> string" where
  "renderHostsBlock domainIPs =
     (let domains = sort (map fst domainIPs) in
      hostsBeginMarker @ [NL] @
      concat (map (\<lambda>domain. concat (map (\<lambda>ip. ip @ [TAB] @ domain @ [NL])
          (sort (case map_of domainIPs domain of Some ips \<Rightarrow> ips | None \<Rightarrow> [])))) domains) @
      hostsEndMarker)"

definition renderUserHostsBlock :: "HostEntry list \<Rightarrow> string" where
  "renderUserHostsBlock entries =
     userHostsBeginMarker @ [NL] @
     concat (map (\<lambda>e. IP e @ [TAB] @ str_join '' '' (sort (Hostnames e)) @ [NL]) (sort_key IP entries)) @
     userHostsEndMarker"

section \<open>Replacing a managed block\<close>

text \<open>The awk program of \<open>replaceManagedHostsBlock\<close>, on the records (lines) of the file. The
  state is \<open>None\<close> outside a block and the buffered lines inside one.\<close>

fun awkStrip :: "string \<Rightarrow> string \<Rightarrow> string list option \<Rightarrow> string list \<Rightarrow> string list" where
  "awkStrip b e st [] = (case st of None \<Rightarrow> [] | Some buf \<Rightarrow> buf)"
| "awkStrip b e st (l # ls) =
     (if has_prefix l b then awkStrip b e (Some [l]) ls
      else case st of
        Some buf \<Rightarrow> if has_prefix l e then awkStrip b e None ls else awkStrip b e (Some (buf @ [l])) ls
      | None \<Rightarrow> l # awkStrip b e None ls)"

text \<open>The lines of a text, with or without a newline at its end, and the text of some lines.\<close>

definition textLines :: "string \<Rightarrow> string list" where
  "textLines s = (let ls = str_split s [NL] in if last ls = [] then butlast ls else ls)"

definition unlines :: "string list \<Rightarrow> string" where
  "unlines ls = concat (map (\<lambda>l. l @ [NL]) ls)"

definition replaceBlock :: "string \<Rightarrow> string \<Rightarrow> string \<Rightarrow> string \<Rightarrow> string" where
  "replaceBlock b e block file = unlines (awkStrip b e None (textLines file) @ str_split block [NL])"

text \<open>What the code asks of the container: its address, and access to \<open>/etc/hosts\<close>.
  \<open>ExecRewrite\<close> runs the script, which replaces the content of the file by a function of it.\<close>

record 'w ctenv =
  getContainerIPOnce :: "string \<Rightarrow> ('w, string) act"
  CatHosts :: "string \<Rightarrow> ('w, string) act"
  ExecRewrite :: "string \<Rightarrow> (string \<Rightarrow> string) \<Rightarrow> ('w, unit) act"

definition replaceManagedHostsBlock :: "'w ctenv \<Rightarrow> string \<Rightarrow> string \<Rightarrow> string \<Rightarrow> string \<Rightarrow> ('w, unit) act" where
  "replaceManagedHostsBlock C name b e block =
     wrapA ''failed to write hosts entries'' (ExecRewrite C name (replaceBlock b e block))"

definition WriteAllowlistHosts :: "'w ctenv \<Rightarrow> string \<Rightarrow> domain_ips \<Rightarrow> ('w, unit) act" where
  "WriteAllowlistHosts C name domainIPs =
     replaceManagedHostsBlock C name hostsBeginMarker hostsEndMarker (renderHostsBlock domainIPs)"

definition WriteUserHosts :: "'w ctenv \<Rightarrow> string \<Rightarrow> HostEntry list \<Rightarrow> ('w, unit) act" where
  "WriteUserHosts C name entries =
     replaceManagedHostsBlock C name userHostsBeginMarker userHostsEndMarker (renderUserHostsBlock entries)"

section \<open>Parsing the user block\<close>

fun parseUserLines :: "bool \<Rightarrow> string list \<Rightarrow> HostEntry list" where
  "parseUserLines inBlock [] = []"
| "parseUserLines inBlock (line # ls) =
     (if has_prefix line userHostsBeginMarker then parseUserLines True ls
      else if has_prefix line userHostsEndMarker then parseUserLines False ls
      else if inBlock then (case str_fields line of
          ip # n # ns \<Rightarrow> \<lparr>IP = ip, Hostnames = n # ns, HPorts = []\<rparr> # parseUserLines inBlock ls
        | _ \<Rightarrow> parseUserLines inBlock ls)
      else parseUserLines inBlock ls)"

definition parseUserHostsBlock :: "string \<Rightarrow> HostEntry list" where
  "parseUserHostsBlock hostsFile = parseUserLines False (str_split hostsFile [NL])"

definition ReadUserHosts :: "'w ctenv \<Rightarrow> string \<Rightarrow> ('w, HostEntry list) act" where
  "ReadUserHosts C name = bindA (wrapA ''failed to read /etc/hosts'' (CatHosts C name)) (\<lambda>out. retA (parseUserHostsBlock out))"

definition mergeNames :: "string list \<Rightarrow> string list \<Rightarrow> string list" where
  "mergeNames old new = old @ dedup_acc (set old) new"

definition mergeHostEntry :: "HostEntry list \<Rightarrow> HostEntry \<Rightarrow> HostEntry list" where
  "mergeHostEntry entries add =
     map (\<lambda>e. if IP e \<noteq> IP add then e
       else \<lparr>IP = IP e, Hostnames = mergeNames (Hostnames e) (Hostnames add), HPorts = []\<rparr>) entries @
     (if \<exists>e \<in> set entries. IP e = IP add then [] else [add])"

definition dropHostnames :: "string list \<Rightarrow> HostEntry list \<Rightarrow> HostEntry list" where
  "dropHostnames hostnames existing =
     concat (map (\<lambda>e. let left = filter (\<lambda>n. n \<notin> set hostnames) (Hostnames e) in
        if length left > 0 then [\<lparr>IP = IP e, Hostnames = left, HPorts = []\<rparr>] else []) existing)"

definition RemoveUserHost :: "'w ctenv \<Rightarrow> string \<Rightarrow> string list \<Rightarrow> ('w, HostEntry list) act" where
  "RemoveUserHost C name hostnames =
     bindA (ReadUserHosts C name) (\<lambda>existing.
       let kept = dropHostnames hostnames existing in
       thenA (WriteUserHosts C name kept) (retA kept))"

section \<open>Validation\<close>

text \<open>The regular expression \<open>hostnameRe\<close>: labels of 1 to 63 letters, digits and inner hyphens.\<close>

definition hostname_label :: "string \<Rightarrow> bool" where
  "hostname_label l \<longleftrightarrow> l \<noteq> [] \<and> length l \<le> 63 \<and> is_alnum (hd l) \<and> is_alnum (last l) \<and>
     list_all (\<lambda>c. is_alnum c \<or> c = CHR ''-'') l"

definition hostnameRe :: "string \<Rightarrow> bool" where
  "hostnameRe name \<longleftrightarrow> list_all hostname_label (str_split name ''.'')"

definition validHost :: "HostEntry \<Rightarrow> bool" where
  "validHost h \<longleftrightarrow> (case net_ParseIP (IP h) of None \<Rightarrow> False | Some ip \<Rightarrow> to4 ip \<noteq> None) \<and>
     length (Hostnames h) > 0 \<and> list_all hostnameRe (Hostnames h) \<and> list_all (\<lambda>p. 1 \<le> p \<and> p \<le> 65535) (HPorts h)"

text \<open>The first entry that is not sound decides the error; its message is left out.\<close>

definition ValidateNetworkHosts :: "HostEntry list \<Rightarrow> unit result" where
  "ValidateNetworkHosts hosts = (if list_all validHost hosts then Inr ()
     else Inl (Errorf ''network.hosts: invalid entry'' []))"

section \<open>Reachability of an entry\<close>

datatype hostIPClass = hostPublic | hostPrivate | hostMetadata

definition classifyHostIP :: "string \<Rightarrow> hostIPClass" where
  "classifyHostIP ipStr = (case net_ParseIP ipStr of
     None \<Rightarrow> hostPublic
   | Some ip \<Rightarrow> if is_link_local_unicast ip then hostMetadata
       else if is_private ip then hostPrivate else hostPublic)"

definition checkHostReachable :: "string \<Rightarrow> bool \<Rightarrow> string \<Rightarrow> unit result" where
  "checkHostReachable mode allowLocal ipStr = (case classifyHostIP ipStr of
     hostMetadata \<Rightarrow> if mode = NetworkModeRestricted \<or> mode = NetworkModeAllowlist
       then Inl (Errorf ''network.hosts: %s is in the link-local/metadata range'' [ipStr, mode]) else Inr ()
   | hostPrivate \<Rightarrow> if mode = NetworkModeAllowlist \<and> \<not> allowLocal
       then Inl (Errorf ''network.hosts: %s is a private (RFC1918) address'' [ipStr]) else Inr ()
   | hostPublic \<Rightarrow> Inr ())"

definition checkHostPortsEnforceable :: "string \<Rightarrow> HostEntry \<Rightarrow> unit result" where
  "checkHostPortsEnforceable mode entry = (if length (HPorts entry) = 0 then Inr () else
     let class = classifyHostIP (IP entry) in
     if (mode = NetworkModeRestricted \<and> class = hostPrivate) \<or> (mode = NetworkModeAllowlist \<and> class = hostPublic)
     then Inr ()
     else if mode = NetworkModeOpen
     then Inl (Errorf ''network.hosts: %s sets ports but open mode enforces no egress restrictions'' [IP entry])
     else if mode = NetworkModeRestricted \<and> class = hostPublic
     then Inl (Errorf ''network.hosts: %s is a public address'' [IP entry])
     else if mode = NetworkModeAllowlist \<and> class = hostPrivate
     then Inl (Errorf ''network.hosts: %s is a private address'' [IP entry])
     else Inl (Errorf ''network.hosts: %s ports cannot be enforced for this address in %s mode'' [IP entry, mode]))"

section \<open>Opening the firewall for an entry\<close>

definition containerAcceptRuleArgs :: "string \<Rightarrow> string \<Rightarrow> int list \<Rightarrow> string list" where
  "containerAcceptRuleArgs ip destIP allowedPorts =
     [''insert'', ''rule'', ''ip'', ''coi'', ''forward'', ''ip'', ''saddr'', ip, ''ip'', ''daddr'', destIP @ ''/32''] @
     (if length allowedPorts > 0 then l4PortMatch allowedPorts else []) @
     [''accept'', ''comment'', quoted (''coi-'' @ ip)]"

definition insertContainerAcceptRule :: "'w netenv \<Rightarrow> string \<Rightarrow> string \<Rightarrow> int list \<Rightarrow> ('w, unit) act" where
  "insertContainerAcceptRule E ip destIP allowedPorts =
     wrapA ''nft insert accept rule failed'' (nftDo E (containerAcceptRuleArgs ip destIP allowedPorts))"

definition applyHostFirewall :: "'w netenv \<Rightarrow> string \<Rightarrow> string \<Rightarrow> HostEntry \<Rightarrow> int list \<Rightarrow> ('w, unit) act" where
  "applyHostFirewall E mode ip entry allowedPorts =
     (let class = classifyHostIP (IP entry) in
      bindA (wrapA (''network.hosts '' @ IP entry @ '': invalid ports'') (liftA (validateAllowedPorts
         (if length (HPorts entry) = 0 then allowedPorts else HPorts entry)))) (\<lambda>hostPorts.
      if mode = NetworkModeAllowlist \<and> class = hostPublic then
        (let nm = NewNftManager ip [] in
         thenA (wrapA (''failed to allow host in allowlist mode: '' @ IP entry) (AddStaticIPs E nm [IP entry]))
           (wrapA (''failed to port-scope host in allowlist mode: '' @ IP entry)
             (AddStaticTuples E nm [\<lparr>CIDR = IP entry, Ports = []\<rparr>] (intsToPortRanges hostPorts))))
      else if mode = NetworkModeRestricted \<and> class = hostPrivate then
        wrapA (''failed to allow private host in restricted mode: '' @ IP entry)
          (insertContainerAcceptRule E ip (IP entry) hostPorts)
      else retA ()))"

text \<open>\<open>GetContainerIPWithRetries\<close>; the last error is wrapped.\<close>

fun GetContainerIPWithRetries :: "'w ctenv \<Rightarrow> string \<Rightarrow> nat \<Rightarrow> gerr \<Rightarrow> ('w, string) act" where
  "GetContainerIPWithRetries C name 0 lastErr = failA (Wrapf ''timeout waiting for container IP'' lastErr)"
| "GetContainerIPWithRetries C name (Suc n) lastErr =
     bindA (tryA (getContainerIPOnce C name)) (\<lambda>r. case r of
         Inr ip \<Rightarrow> retA ip
       | Inl e \<Rightarrow> GetContainerIPWithRetries C name n e)"

definition GetContainerIP :: "'w ctenv \<Rightarrow> string \<Rightarrow> ('w, string) act" where
  "GetContainerIP C name = GetContainerIPWithRetries C name 30 (ExtErr [])"

definition checkEntries :: "string \<Rightarrow> bool \<Rightarrow> HostEntry list \<Rightarrow> unit result" where
  "checkEntries mode allowLocal entries = bindE (mapE (\<lambda>e.
     bindE (checkHostReachable mode allowLocal (IP e)) (\<lambda>_. checkHostPortsEnforceable mode e)) entries) (\<lambda>_. Inr ())"

definition ApplyUserHosts ::
    "'w netenv \<Rightarrow> 'w ctenv \<Rightarrow> string \<Rightarrow> string \<Rightarrow> bool \<Rightarrow> HostEntry list \<Rightarrow> int list \<Rightarrow> ('w, unit) act" where
  "ApplyUserHosts E C name mode0 allowLocal entries allowedPorts =
     (if length entries = 0 then WriteUserHosts C name [] else
      let mode = (if mode0 = [] then NetworkModeRestricted else mode0) in
      thenA (liftA (checkEntries mode allowLocal entries))
     (thenA (if mode = NetworkModeRestricted \<or> mode = NetworkModeAllowlist then
         bindA (wrapA ''failed to get container IP for host reachability'' (GetContainerIP C name)) (\<lambda>ip.
           forA (\<lambda>e. applyHostFirewall E mode ip e allowedPorts) entries)
         else retA ())
       (WriteUserHosts C name entries)))"

definition effectiveContainerMode :: "'w netenv \<Rightarrow> string \<Rightarrow> string \<Rightarrow> ('w, string) act" where
  "effectiveContainerMode E ip configMode = (if ip \<noteq> [] then
     bindA (tryA (runNFTCommand E [''-j'', ''list'', ''set'', ''ip'', ''coi'', staticSetName ip])) (\<lambda>r. case r of
         Inr _ \<Rightarrow> retA NetworkModeAllowlist
       | Inl _ \<Rightarrow> retA configMode)
     else retA configMode)"

definition AddUserHost ::
    "'w netenv \<Rightarrow> 'w ctenv \<Rightarrow> string \<Rightarrow> string \<Rightarrow> bool \<Rightarrow> HostEntry \<Rightarrow> int list \<Rightarrow> ('w, unit) act" where
  "AddUserHost E C name mode0 allowLocal entry allowedPorts =
     thenA (liftA (ValidateNetworkHosts [entry]))
    (bindA (wrapA ''failed to get container IP'' (GetContainerIP C name)) (\<lambda>ip.
     bindA (effectiveContainerMode E ip (if mode0 = [] then NetworkModeRestricted else mode0)) (\<lambda>mode.
       thenA (liftA (checkHostReachable mode allowLocal (IP entry)))
      (thenA (liftA (checkHostPortsEnforceable mode entry))
      (thenA (if mode = NetworkModeRestricted \<or> mode = NetworkModeAllowlist
              then applyHostFirewall E mode ip entry allowedPorts else retA ())
        (bindA (ReadUserHosts C name) (\<lambda>existing. WriteUserHosts C name (mergeHostEntry existing entry))))))))"

section \<open>The file as a sequence of segments\<close>

datatype block_kind = KAllow | KUser

definition bmark :: "block_kind \<Rightarrow> string" where
  "bmark k = (case k of KAllow \<Rightarrow> hostsBeginMarker | KUser \<Rightarrow> userHostsBeginMarker)"

definition emark :: "block_kind \<Rightarrow> string" where
  "emark k = (case k of KAllow \<Rightarrow> hostsEndMarker | KUser \<Rightarrow> userHostsEndMarker)"

datatype segment = Line string | Block block_kind "string list"

fun seg_lines :: "segment \<Rightarrow> string list" where
  "seg_lines (Line l) = [l]"
| "seg_lines (Block k body) = bmark k # body @ [emark k]"

definition hostsFile :: "segment list \<Rightarrow> string" where
  "hostsFile segs = unlines (concat (map seg_lines segs))"

text \<open>A line of text that no marker starts.\<close>

definition plain_line :: "string \<Rightarrow> bool" where
  "plain_line l \<longleftrightarrow> NL \<notin> set l \<and> (\<forall>k \<in> {KAllow, KUser}. \<not> has_prefix l (bmark k) \<and> \<not> has_prefix l (emark k))"

fun tidy_seg :: "segment \<Rightarrow> bool" where
  "tidy_seg (Line l) = plain_line l"
| "tidy_seg (Block k body) = list_all plain_line body"

fun of_kind :: "block_kind \<Rightarrow> segment \<Rightarrow> bool" where
  "of_kind k (Line l) = False"
| "of_kind k (Block k' body) = (k' = k)"

lemmas mark_defs = bmark_def emark_def hostsBeginMarker_def hostsEndMarker_def userHostsBeginMarker_def userHostsEndMarker_def

lemma marks_distinct:
  "has_prefix (bmark k') (bmark k) \<longleftrightarrow> k' = k" "\<not> has_prefix (bmark k') (emark k)"
  "has_prefix (emark k') (emark k) \<longleftrightarrow> k' = k" "\<not> has_prefix (emark k') (bmark k)"
  by (cases k; cases k'; simp add: mark_defs has_prefix_def)+

lemma marks_no_NL: "NL \<notin> set (bmark k)" "NL \<notin> set (emark k)"
  by (cases k; simp add: mark_defs)+

lemma plain_lineD: "plain_line l \<Longrightarrow> \<not> has_prefix l (bmark k)" "plain_line l \<Longrightarrow> \<not> has_prefix l (emark k)"
  "plain_line l \<Longrightarrow> NL \<notin> set l"
  by (cases k; simp add: plain_line_def)+

lemma seg_lines_no_NL: "tidy_seg s \<Longrightarrow> l \<in> set (seg_lines s) \<Longrightarrow> NL \<notin> set l"
  by (cases s) (auto simp: list_all_iff marks_no_NL dest: plain_lineD(3))

lemma awk_skip:
  "(\<And>l. l \<in> set xs \<Longrightarrow> \<not> has_prefix l b) \<Longrightarrow> awkStrip b e None (xs @ ys) = xs @ awkStrip b e None ys"
  by (induction xs) auto

lemma awk_block:
  "list_all plain_line body \<Longrightarrow> awkStrip (bmark k) (emark k) (Some buf) (body @ emark k # ys) = awkStrip (bmark k) (emark k) None ys"
  by (induction body arbitrary: buf) (simp_all add: marks_distinct plain_lineD has_prefix_def[of "emark k" "emark k"])

lemma awk_segs:
  "list_all tidy_seg segs \<Longrightarrow> awkStrip (bmark k) (emark k) None (concat (map seg_lines segs)) =
     concat (map seg_lines (filter (\<lambda>s. \<not> of_kind k s) segs))"
proof (induction segs)
  case (Cons s segs)
  show ?case
  proof (cases "of_kind k s")
    case True
    then obtain body where s: "s = Block k body" by (cases s) auto
    with Cons awk_block[of body k "[bmark k]"] show ?thesis by (simp add: marks_distinct)
  next
    case False
    with Cons.prems have "\<And>l. l \<in> set (seg_lines s) \<Longrightarrow> \<not> has_prefix l (bmark k)"
      by (cases s) (auto simp: marks_distinct list_all_iff dest: plain_lineD)
    with awk_skip[of "seg_lines s" "bmark k"] Cons False show ?thesis by simp
  qed
qed simp

section \<open>Texts and lines\<close>

lemma split_unlines: "(\<And>l. l \<in> set ls \<Longrightarrow> NL \<notin> set l) \<Longrightarrow> str_split (unlines ls @ t) [NL] = ls @ str_split t [NL]"
  by (induction ls) (simp_all add: unlines_def str_split_char_app)

lemma textLines_unlines: "(\<And>l. l \<in> set ls \<Longrightarrow> NL \<notin> set l) \<Longrightarrow> textLines (unlines ls) = ls"
  using split_unlines[of ls "[]"] by (simp add: textLines_def str_split_char_notin)

definition blockText :: "block_kind \<Rightarrow> string list \<Rightarrow> string" where
  "blockText k body = bmark k @ [NL] @ unlines body @ emark k"

lemma split_blockText: "list_all plain_line body \<Longrightarrow> str_split (blockText k body) [NL] = bmark k # body @ [emark k]"
  using split_unlines[of body "emark k"]
  by (simp add: blockText_def str_split_char_app str_split_char_notin marks_no_NL list_all_iff plain_lineD)

lemma replaceBlock_segs:
  assumes "list_all tidy_seg segs" and "list_all plain_line body"
  shows "replaceBlock (bmark k) (emark k) (blockText k body) (hostsFile segs) =
    hostsFile (filter (\<lambda>s. \<not> of_kind k s) segs @ [Block k body])"
proof -
  have "NL \<notin> set l" if "l \<in> set (concat (map seg_lines segs))" for l
    using that assms(1) seg_lines_no_NL by (auto simp: list_all_iff)
  then have "textLines (hostsFile segs) = concat (map seg_lines segs)"
    unfolding hostsFile_def by (rule textLines_unlines)
  then show ?thesis
    by (simp add: replaceBlock_def awk_segs[OF assms(1)] split_blockText[OF assms(2)] hostsFile_def)
qed

section \<open>The rendered lines\<close>

definition userLine :: "HostEntry \<Rightarrow> string" where
  "userLine e = IP e @ [TAB] @ str_join '' '' (sort (Hostnames e))"

definition allowLines :: "domain_ips \<Rightarrow> string list" where
  "allowLines d = concat (map (\<lambda>n. map (\<lambda>ip. ip @ [TAB] @ n)
     (sort (case map_of d n of Some ips \<Rightarrow> ips | None \<Rightarrow> []))) (sort (map fst d)))"

lemma renderUserHostsBlock_text: "renderUserHostsBlock es = blockText KUser (map userLine (sort_key IP es))"
  by (simp add: renderUserHostsBlock_def blockText_def unlines_def userLine_def mark_defs o_def)

lemma renderHostsBlock_text: "renderHostsBlock d = blockText KAllow (allowLines d)"
proof -
  have "concat (map (\<lambda>ip. ip @ [TAB] @ n @ [NL]) ips) = unlines (map (\<lambda>ip. ip @ [TAB] @ n) ips)" for n ips
    by (simp add: unlines_def o_def)
  moreover have "concat (map (\<lambda>n. unlines (f n)) xs) = unlines (concat (map f xs))" for f and xs :: "string list"
    by (induction xs) (simp_all add: unlines_def)
  ultimately show ?thesis
    by (simp add: renderHostsBlock_def blockText_def allowLines_def bmark_def emark_def Let_def)
qed

text \<open>Words: what a line of the file separates with white space.\<close>

definition word :: "string \<Rightarrow> bool" where
  "word w \<longleftrightarrow> w \<noteq> [] \<and> list_all (\<lambda>c. \<not> is_space c) w"

lemma fields_acc_word: "list_all (\<lambda>c. \<not> is_space c) w \<Longrightarrow> is_space c \<Longrightarrow> rev cur @ w \<noteq> [] \<Longrightarrow>
    fields_acc cur (w @ c # s) = (rev cur @ w) # fields_acc [] s"
  by (induction w arbitrary: cur) auto

lemma fields_word: "word w \<Longrightarrow> is_space c \<Longrightarrow> str_fields (w @ c # s) = w # str_fields s"
  using fields_acc_word[of w c "[]" s] by (auto simp: word_def str_fields_def)

lemma fields_acc_end: "list_all (\<lambda>c. \<not> is_space c) w \<Longrightarrow> rev cur @ w \<noteq> [] \<Longrightarrow> fields_acc cur w = [rev cur @ w]"
  by (induction w arbitrary: cur) auto

lemma fields_end: "word w \<Longrightarrow> str_fields w = [w]"
  using fields_acc_end[of w "[]"] by (auto simp: word_def str_fields_def)

lemma fields_join: "ws \<noteq> [] \<Longrightarrow> list_all word ws \<Longrightarrow> str_fields (str_join '' '' ws) = ws"
proof (induction ws)
  case (Cons w ws)
  show ?case
  proof (cases ws)
    case Nil
    with Cons.prems show ?thesis by (simp add: fields_end)
  next
    case (Cons v vs)
    with Cons.IH Cons.prems show ?thesis by (simp add: fields_word is_space_def)
  qed
qed simp

lemma list_all_join: "list_all (list_all P) xs \<Longrightarrow> list_all P sep \<Longrightarrow> list_all P (str_join sep xs)"
  by (induction xs rule: induct_list012) simp_all

lemma hostnameRe_word: "hostnameRe n \<Longrightarrow> word n"
proof -
  assume h: "hostnameRe n"
  have l: "\<And>x. x \<in> set (str_split n ''.'') \<Longrightarrow> hostname_label x" using h by (simp add: hostnameRe_def list_all_iff)
  have w: "x \<noteq> [] \<and> list_all (\<lambda>c. \<not> is_space c) x" if "hostname_label x" for x
    using that by (auto simp: hostname_label_def list_all_iff char_defs)
  have "str_split n ''.'' \<noteq> []"
    by (cases "str_index n ''.''") (simp_all add: str_split_None str_split_Some)
  then obtain x xs where sp: "str_split n ''.'' = x # xs" by (cases "str_split n ''.''") auto
  have n: "n = str_join ''.'' (x # xs)" using join_split_char[of "CHR ''.''" n] sp by simp
  have "x \<noteq> []" using w l[of x] sp by simp
  then have "n \<noteq> []" unfolding n by (cases xs) simp_all
  moreover have "list_all (list_all (\<lambda>c. \<not> is_space c)) (x # xs)" using w l sp unfolding list_all_iff by metis
  then have "list_all (\<lambda>c. \<not> is_space c) n" unfolding n by (rule list_all_join) (simp add: is_space_def)
  ultimately show "word n" by (simp add: word_def)
qed

lemma sort_Nil_iff [simp]: "sort_key f xs = [] \<longleftrightarrow> xs = []"
  by (metis length_0_conv length_sort)

lemma parse_v4_word:
  assumes "parse_v4 s = Some a"
  shows "word s" "list_all (\<lambda>c. is_digit c \<or> c = CHR ''.'') s"
proof -
  show c: "list_all (\<lambda>c. is_digit c \<or> c = CHR ''.'') s"
    using parse_v4_bytes[OF assms] by (auto simp: list_all_iff)
  have "s \<noteq> []" using assms by (auto simp: parse_v4_def parse_octet_def str_split_None split: list.splits if_splits)
  with c show "word s" by (auto simp: word_def list_all_iff char_defs)
qed

text \<open>An entry with a dotted address that \<open>ValidateNetworkHosts\<close> accepts.\<close>

definition sound_entry :: "HostEntry \<Rightarrow> bool" where
  "sound_entry e \<longleftrightarrow> validHost e \<and> parse_v4 (IP e) \<noteq> None"

lemma sound_entryD:
  assumes "sound_entry e"
  shows "word (IP e)" "list_all word (sort (Hostnames e))" "sort (Hostnames e) \<noteq> []" "hd (IP e) \<noteq> CHR ''#''"
proof -
  obtain a where a: "parse_v4 (IP e) = Some a" using assms by (auto simp: sound_entry_def)
  show "word (IP e)" by (rule parse_v4_word[OF a])
  then show "hd (IP e) \<noteq> CHR ''#''"
    using parse_v4_word(2)[OF a] by (cases "IP e") (auto simp: word_def char_defs)
  show "list_all word (sort (Hostnames e))" "sort (Hostnames e) \<noteq> []"
    using assms hostnameRe_word by (auto simp: sound_entry_def validHost_def list_all_iff)
qed

lemma userLine_fields: "sound_entry e \<Longrightarrow> str_fields (userLine e) = IP e # sort (Hostnames e)"
  using sound_entryD[of e] by (simp add: userLine_def fields_word fields_join is_space_def)

lemma join_no_NL: "list_all word ws \<Longrightarrow> NL \<notin> set (str_join '' '' ws)"
  by (induction ws rule: induct_list012) (auto simp: word_def list_all_iff is_space_def)

lemma hash_marks: "hd l \<noteq> CHR ''#'' \<Longrightarrow> l \<noteq> [] \<Longrightarrow> NL \<notin> set l \<Longrightarrow> plain_line l"
  by (cases l) (auto simp: plain_line_def mark_defs has_prefix_def)

lemma userLine_plain: "sound_entry e \<Longrightarrow> plain_line (userLine e)"
  using sound_entryD[of e] join_no_NL[of "sort (Hostnames e)"]
  by (intro hash_marks) (auto simp: userLine_def word_def list_all_iff is_space_def)

section \<open>Reading the file back\<close>

definition entries_of :: "string list \<Rightarrow> HostEntry list" where
  "entries_of body = concat (map (\<lambda>l. case str_fields l of
     ip # n # ns \<Rightarrow> [\<lparr>IP = ip, Hostnames = n # ns, HPorts = []\<rparr>] | _ \<Rightarrow> []) body)"

fun seg_entries :: "segment \<Rightarrow> HostEntry list" where
  "seg_entries (Line l) = []"
| "seg_entries (Block k body) = (if k = KUser then entries_of body else [])"

lemma user_marks:
  "bmark KUser = userHostsBeginMarker" "emark KUser = userHostsEndMarker"
  by (simp_all add: bmark_def emark_def)

lemma parse_inside:
  "list_all plain_line body \<Longrightarrow> parseUserLines True (body @ ls) = entries_of body @ parseUserLines True ls"
  using plain_lineD(1,2)[of _ KUser]
  by (induction body) (auto simp: entries_of_def user_marks split: list.splits)

lemma parse_outside:
  "(\<And>l. l \<in> set xs \<Longrightarrow> \<not> has_prefix l userHostsBeginMarker) \<Longrightarrow> parseUserLines False (xs @ ls) = parseUserLines False ls"
  by (induction xs) auto

lemma parse_segs:
  "list_all tidy_seg segs \<Longrightarrow> parseUserLines False (concat (map seg_lines segs) @ [[]]) = concat (map seg_entries segs)"
proof (induction segs)
  case Nil
  then show ?case by (simp add: userHostsBeginMarker_def userHostsEndMarker_def has_prefix_def)
next
  case (Cons s segs)
  show ?case
  proof (cases "of_kind KUser s")
    case True
    then obtain body where s: "s = Block KUser body" by (cases s) auto
    have "\<not> has_prefix (emark KUser) (bmark KUser)" "has_prefix (emark KUser) (emark KUser)"
      "has_prefix (bmark KUser) (bmark KUser)" by (simp_all add: marks_distinct)
    with s Cons parse_inside[of body] show ?thesis by (simp add: user_marks)
  next
    case False
    with Cons.prems have "\<And>l. l \<in> set (seg_lines s) \<Longrightarrow> \<not> has_prefix l userHostsBeginMarker"
      unfolding user_marks(1)[symmetric]
      by (cases s) (auto simp: marks_distinct list_all_iff dest: plain_lineD)
    moreover have "seg_entries s = []" using False by (cases s) auto
    ultimately show ?thesis using parse_outside[of "seg_lines s"] Cons by simp
  qed
qed

lemma parse_hostsFile: "list_all tidy_seg segs \<Longrightarrow> parseUserHostsBlock (hostsFile segs) = concat (map seg_entries segs)"
proof -
  assume t: "list_all tidy_seg segs"
  then have n: "NL \<notin> set l" if "l \<in> set (concat (map seg_lines segs))" for l
    using that seg_lines_no_NL by (auto simp: list_all_iff)
  have "str_split (unlines (concat (map seg_lines segs)) @ []) [NL] = concat (map seg_lines segs) @ str_split [] [NL]"
    by (rule split_unlines) (rule n)
  with parse_segs[OF t] show ?thesis
    by (simp add: parseUserHostsBlock_def hostsFile_def str_split_char_notin)
qed

text \<open>What the file keeps of an entry.\<close>

definition stored :: "HostEntry \<Rightarrow> HostEntry" where
  "stored e = \<lparr>IP = IP e, Hostnames = sort (Hostnames e), HPorts = []\<rparr>"

lemma entries_of_user: "list_all sound_entry es \<Longrightarrow> entries_of (map userLine es) = map stored es"
proof (induction es)
  case (Cons e es)
  moreover obtain n ns where "sort (Hostnames e) = n # ns"
    using Cons.prems sound_entryD(3)[of e] by (cases "sort (Hostnames e)") auto
  ultimately show ?case using userLine_fields[of e] by (simp add: entries_of_def stored_def)
qed (simp add: entries_of_def)

definition no_user_block :: "segment list \<Rightarrow> segment list" where
  "no_user_block segs = filter (\<lambda>s. \<not> of_kind KUser s) segs"

lemma no_user_entries: "concat (map seg_entries (no_user_block segs)) = []"
proof -
  have "seg_entries s = []" if "\<not> of_kind KUser s" for s using that by (cases s) auto
  then show ?thesis by (simp add: no_user_block_def)
qed

lemma list_all_sort_key: "list_all P (sort_key f xs) \<longleftrightarrow> list_all P xs"
  by (simp add: list_all_iff)

lemma user_block_written:
  assumes "list_all tidy_seg segs" and "list_all sound_entry es"
  shows "replaceBlock userHostsBeginMarker userHostsEndMarker (renderUserHostsBlock es) (hostsFile segs) =
      hostsFile (no_user_block segs @ [Block KUser (map userLine (sort_key IP es))])"
    and "list_all tidy_seg (no_user_block segs @ [Block KUser (map userLine (sort_key IP es))])"
    and "parseUserHostsBlock (hostsFile (no_user_block segs @ [Block KUser (map userLine (sort_key IP es))])) =
      map stored (sort_key IP es)"
proof -
  have es: "list_all sound_entry (sort_key IP es)" using assms(2) by (simp add: list_all_sort_key)
  have b: "list_all plain_line (map userLine (sort_key IP es))"
    using assms(2) userLine_plain by (simp add: list_all_iff)
  show "replaceBlock userHostsBeginMarker userHostsEndMarker (renderUserHostsBlock es) (hostsFile segs) =
      hostsFile (no_user_block segs @ [Block KUser (map userLine (sort_key IP es))])"
    using replaceBlock_segs[OF assms(1) b, of KUser]
    by (simp add: renderUserHostsBlock_text user_marks no_user_block_def)
  show t: "list_all tidy_seg (no_user_block segs @ [Block KUser (map userLine (sort_key IP es))])"
    using assms(1) b by (simp add: no_user_block_def list_all_iff)
  show "parseUserHostsBlock (hostsFile (no_user_block segs @ [Block KUser (map userLine (sort_key IP es))])) =
      map stored (sort_key IP es)"
    unfolding parse_hostsFile[OF t] by (simp add: no_user_entries entries_of_user[OF es])
qed

text \<open>Resolved names: words that no marker starts.\<close>

definition sound_ips :: "domain_ips \<Rightarrow> bool" where
  "sound_ips d \<longleftrightarrow> list_all (\<lambda>(n, ips). word n \<and> list_all (\<lambda>ip. word ip \<and> hd ip \<noteq> CHR ''#'') ips) d"

lemma allowLines_plain: "sound_ips d \<Longrightarrow> list_all plain_line (allowLines d)"
proof -
  assume s: "sound_ips d"
  have "plain_line (ip @ [TAB] @ n)" if "n \<in> fst ` set d" "map_of d n = Some ips" "ip \<in> set ips" for n ip ips
  proof -
    have "(n, ips) \<in> set d" using that(2) by (rule map_of_SomeD)
    with s that(3) have "word n" "word ip" "hd ip \<noteq> CHR ''#''" by (auto simp: sound_ips_def list_all_iff)
    then show ?thesis by (intro hash_marks) (auto simp: word_def list_all_iff is_space_def)
  qed
  moreover have "\<exists>ips. map_of d n = Some ips \<and> ip \<in> set ips"
    if "ip \<in> set (case map_of d n of Some ips \<Rightarrow> ips | None \<Rightarrow> [])" for n ip
    using that by (cases "map_of d n") auto
  ultimately have "plain_line (ip @ [TAB] @ n)"
    if "n \<in> fst ` set d" "ip \<in> set (case map_of d n of Some ips \<Rightarrow> ips | None \<Rightarrow> [])" for n ip
    using that by metis
  then show ?thesis by (simp add: allowLines_def list_all_iff)
qed

section \<open>Merging and dropping names\<close>

definition names_of :: "HostEntry list \<Rightarrow> string \<Rightarrow> string set" where
  "names_of es ip = (\<Union>e \<in> {e \<in> set es. IP e = ip}. set (Hostnames e))"

lemma names_of_simps [simp]:
  "names_of [] ip = {}"
  "names_of (e # es) ip = (if IP e = ip then set (Hostnames e) else {}) \<union> names_of es ip"
  "names_of (es @ es') ip = names_of es ip \<union> names_of es' ip"
  by (auto simp: names_of_def)

lemma merge_names:
  "names_of (mergeHostEntry es add) ip = names_of es ip \<union> (if ip = IP add then set (Hostnames add) else {})"
proof -
  let ?f = "\<lambda>e. if IP e \<noteq> IP add then e
       else \<lparr>IP = IP e, Hostnames = mergeNames (Hostnames e) (Hostnames add), HPorts = []\<rparr>"
  have m: "set (mergeNames xs ys) = set xs \<union> set ys" for xs ys :: "string list"
    by (auto simp: mergeNames_def set_dedup_acc)
  have "names_of (map ?f es) ip = names_of es ip \<union>
      (if ip = IP add \<and> (\<exists>e \<in> set es. IP e = IP add) then set (Hostnames add) else {})"
    by (induction es) (auto simp: m)
  then show ?thesis by (auto simp: mergeHostEntry_def)
qed

lemma merge_ips:
  "map IP (mergeHostEntry es add) = map IP es @ (if IP add \<in> IP ` set es then [] else [IP add])"
  by (auto simp: mergeHostEntry_def o_def intro!: map_cong) (metis imageI)

lemma drop_names: "names_of (dropHostnames hs es) ip = names_of es ip - set hs"
  by (induction es) (auto simp: dropHostnames_def Let_def filter_empty_conv)

lemma drop_nonempty: "list_all (\<lambda>e. Hostnames e \<noteq> []) (dropHostnames hs es)"
  by (induction es) (auto simp: dropHostnames_def Let_def)

section \<open>The container as an interface\<close>

text \<open>
  What the code relies on: asking for the address and reading the file change nothing,
  the rewriting script touches no packet filter and no other container, and when it
  succeeds the file has become the function of what it was.
\<close>

locale container_host =
  fixes C :: "'w ctenv" and view :: "'w \<Rightarrow> nft_state" and files :: "'w \<Rightarrow> string \<Rightarrow> string"
  assumes ip_view: "getContainerIPOnce C n w = (r, w') \<Longrightarrow> view w' = view w"
    and ip_files: "getContainerIPOnce C n w = (r, w') \<Longrightarrow> files w' = files w"
    and cat_view: "CatHosts C n w = (q, w') \<Longrightarrow> view w' = view w \<and> files w' = files w"
    and cat_ok: "CatHosts C n w = (Inr out, w') \<Longrightarrow> out = files w n"
    and rewrite_view: "ExecRewrite C n g w = (t, w') \<Longrightarrow> view w' = view w"
    and rewrite_frame: "ExecRewrite C n g w = (t, w') \<Longrightarrow> m \<noteq> n \<Longrightarrow> files w' m = files w m"
    and rewrite_ok: "ExecRewrite C n g w = (Inr u, w') \<Longrightarrow> files w' n = g (files w n)"
begin

lemma ip_retries_view: "GetContainerIPWithRetries C n k e w = (r, w') \<Longrightarrow> view w' = view w \<and> files w' = files w"
proof (induction k arbitrary: e w)
  case (Suc k)
  obtain q w1 where q: "getContainerIPOnce C n w = (q, w1)" by force
  show ?case using Suc q ip_view[OF q] ip_files[OF q]
    by (cases q) (auto simp: bindA_def tryA_def)
qed simp

lemma ip_unchanged: "GetContainerIP C n w = (r, w') \<Longrightarrow> view w' = view w \<and> files w' = files w"
  unfolding GetContainerIP_def by (rule ip_retries_view)

lemma replace_unchanged: "replaceManagedHostsBlock C n b e block w = (r, w') \<Longrightarrow> view w' = view w"
  by (auto simp: replaceManagedHostsBlock_def wrapA_def split: prod.splits dest: rewrite_view)

lemma replace_written: "replaceManagedHostsBlock C n b e block w = (Inr u, w') \<Longrightarrow> files w' n = replaceBlock b e block (files w n)"
  by (auto simp: replaceManagedHostsBlock_def wrapA_Inr dest: rewrite_ok)

lemma write_user:
  assumes "WriteUserHosts C n es w = (Inr u, w')"
  shows "view w' = view w"
    and "files w' n = replaceBlock userHostsBeginMarker userHostsEndMarker (renderUserHostsBlock es) (files w n)"
  using assms replace_unchanged replace_written unfolding WriteUserHosts_def by blast+

lemma write_allow:
  assumes "WriteAllowlistHosts C n d w = (r, w')"
  shows "view w' = view w"
    and "r = Inr u \<Longrightarrow> files w' n = replaceBlock hostsBeginMarker hostsEndMarker (renderHostsBlock d) (files w n)"
  using assms replace_unchanged replace_written unfolding WriteAllowlistHosts_def by blast+

end

section \<open>What an accepted entry opens in restricted mode\<close>

definition acceptToks :: "string \<Rightarrow> string \<Rightarrow> int list \<Rightarrow> string list" where
  "acceptToks ip d ports = ruleToks ip ip (d @ ''/32'') (if length ports > 0 then l4PortMatch ports else []) ''accept''"

lemma host32_ne: "d @ ''/32'' \<noteq> ''0.0.0.0/0''" "d @ ''/32'' \<noteq> ''.''"
proof -
  have "last (d @ ''/32'') = CHR ''2''" by simp
  moreover have "last ''0.0.0.0/0'' = CHR ''0''" "last ''.'' = CHR ''.''" by simp_all
  ultimately show "d @ ''/32'' \<noteq> ''0.0.0.0/0''" "d @ ''/32'' \<noteq> ''.''" by (auto simp del: last.simps last_append)
qed

lemma containerAcceptRuleArgs_toks:
  "containerAcceptRuleArgs ip d ports = ''insert'' # ''rule'' # ''ip'' # ''coi'' # ''forward'' # acceptToks ip d ports"
  using host32_ne(1)[of d] by (simp add: containerAcceptRuleArgs_def acceptToks_def ruleToks_def)

lemma eval_acceptToks:
  assumes "parse_v4 ip = Some (pkt_src p)" and "parse_v4 d = Some a" and "\<forall>q \<in> set ports. 1 \<le> q \<and> q \<le> 65535"
  shows "eval_toks S p (acceptToks ip d ports) =
    (if pkt_dst p = a \<and> (ports = [] \<or> l4 p \<and> int (pkt_dport p) \<in> set ports) then Some Accept else None)"
proof (cases "ports = []")
  case True
  then show ?thesis using host32_ne[of d]
    by (simp add: acceptToks_def eval_ruleToks[OF assms(1)] operand_has_host[OF assms(2)] eval_verdict)
next
  case False
  then show ?thesis using host32_ne[of d] assms(3)
    by (simp add: acceptToks_def eval_ruleToks[OF assms(1)] operand_has_host[OF assms(2)] eval_l4PortMatch eval_verdict)
qed

text \<open>The entry opens its address on its own ports, else on the global ones, else on all.\<close>

definition entryOpens :: "int list \<Rightarrow> HostEntry \<Rightarrow> packet \<Rightarrow> bool" where
  "entryOpens allowedPorts e p \<longleftrightarrow> classifyHostIP (IP e) = hostPrivate \<and> parse_v4 (IP e) = Some (pkt_dst p) \<and>
     (let ports = if HPorts e = [] then allowedPorts else HPorts e in
      ports = [] \<or> l4 p \<and> int (pkt_dport p) \<in> set ports)"

lemma set_eq_Nil: "set xs = set ys \<Longrightarrow> xs = [] \<longleftrightarrow> ys = []"
  by (metis set_empty)

context nft_kernel
begin

lemma insertAccept_toks:
  assumes "insertContainerAcceptRule E ip d ports w = (Inr u, w')"
  shows "toks fwd (view w') = acceptToks ip d ports # toks fwd (view w)"
  using assms insert_rule_toks(1) nftDo_ok
  by (auto simp: insertContainerAcceptRule_def wrapA_Inr containerAcceptRuleArgs_toks)

lemma applyHost_verdict:
  assumes "applyHostFirewall E NetworkModeRestricted ip e allowedPorts w = (Inr u, w')"
    and "parse_v4 ip = Some (pkt_src p)" and "parse_v4 (IP e) \<noteq> None"
  shows "chain_verdict S p (toks fwd (view w')) =
    (if entryOpens allowedPorts e p then Some Accept else chain_verdict S p (toks fwd (view w)))"
proof -
  let ?ps = "if length (HPorts e) = 0 then allowedPorts else HPorts e"
  obtain ports where v: "validateAllowedPorts ?ps = Inr ports"
    and k: "(if classifyHostIP (IP e) = hostPrivate then
        wrapA (''failed to allow private host in restricted mode: '' @ IP e) (insertContainerAcceptRule E ip (IP e) ports)
        else retA ()) w = (Inr u, w')"
    using assms(1) by (auto simp: applyHostFirewall_def Let_def bindA_Inr wrapA_Inr)
  show ?thesis
  proof (cases "classifyHostIP (IP e) = hostPrivate")
    case False
    with k show ?thesis by (simp add: entryOpens_def)
  next
    case True
    with k have "toks fwd (view w') = acceptToks ip (IP e) ports # toks fwd (view w)"
      using insertAccept_toks by (simp add: wrapA_Inr)
    moreover obtain a where a: "parse_v4 (IP e) = Some a" using assms(3) by blast
    moreover have q: "\<forall>q \<in> set ports. 1 \<le> q \<and> q \<le> 65535" and ps: "set ports = set ?ps"
      using validateAllowedPorts_Inr[OF v] by auto
    moreover have "(ports = [] \<or> l4 p \<and> int (pkt_dport p) \<in> set ports) \<longleftrightarrow>
        (let ports = if HPorts e = [] then allowedPorts else HPorts e in ports = [] \<or> l4 p \<and> int (pkt_dport p) \<in> set ports)"
    proof -
      have "ports = [] \<longleftrightarrow> ?ps = []" by (rule set_eq_Nil[OF ps])
      with ps show ?thesis by (simp add: Let_def)
    qed
    ultimately show ?thesis
      unfolding entryOpens_def a by (simp only: chain_verdict.simps eval_acceptToks[OF assms(2) a q] True) auto
  qed
qed

lemma applyHosts_verdict:
  assumes "forA (\<lambda>e. applyHostFirewall E NetworkModeRestricted ip e allowedPorts) es w = (Inr u, w')"
    and "parse_v4 ip = Some (pkt_src p)" and "list_all (\<lambda>e. parse_v4 (IP e) \<noteq> None) es"
  shows "chain_verdict S p (toks fwd (view w')) =
    (if \<exists>e \<in> set es. entryOpens allowedPorts e p then Some Accept else chain_verdict S p (toks fwd (view w)))"
  using assms
proof (induction es arbitrary: w)
  case (Cons e es)
  from Cons.prems(1) obtain v w1 where 1: "applyHostFirewall E NetworkModeRestricted ip e allowedPorts w = (Inr v, w1)"
    and 2: "forA (\<lambda>e. applyHostFirewall E NetworkModeRestricted ip e allowedPorts) es w1 = (Inr u, w')"
    by (auto simp: thenA_Inr)
  from applyHost_verdict[OF 1 Cons.prems(2)] Cons.IH[OF 2] Cons.prems show ?case by auto
qed simp

end

section \<open>Both interfaces together\<close>

locale container_net = nft_kernel E view + container_host C view files
  for E :: "'w netenv" and C :: "'w ctenv" and view :: "'w \<Rightarrow> nft_state" and files :: "'w \<Rightarrow> string \<Rightarrow> string" +
  assumes nft_files: "nft_cmd E args w = (r, w') \<Longrightarrow> files w' = files w"
begin

lemma nftDo_files: "keeps (\<lambda>w. files w = f) (nftDo E args)"
  unfolding nftDo_def runNFTCommand_def by (intro keeps_intros keepsI) (auto dest: nft_files)

lemma applyHostFirewall_files: "keeps (\<lambda>w. files w = f) (applyHostFirewall E mode ip e ports)"
  unfolding applyHostFirewall_def insertContainerAcceptRule_def AddStaticIPs_def AddStaticTuples_def addSetElements_def Let_def
  by (intro keeps_intros nftDo_files)

lemma ip_known: "(\<And>w. fst (getContainerIPOnce C n w) = Inr ip) \<Longrightarrow> GetContainerIP C n w = (r, w') \<Longrightarrow> r = Inr ip"
proof -
  assume k: "\<And>w. fst (getContainerIPOnce C n w) = Inr ip" and g: "GetContainerIP C n w = (r, w')"
  obtain w1 where "getContainerIPOnce C n w = (Inr ip, w1)" using k[of w] by (cases "getContainerIPOnce C n w") auto
  then have "fst (GetContainerIPWithRetries C n (Suc k) e w) = Inr ip" for k e by (simp add: bindA_def tryA_def)
  from this[of 29 "ExtErr []"] g show "r = Inr ip" by (simp add: GetContainerIP_def)
qed

lemma ApplyUserHosts_restricted:
  assumes "ApplyUserHosts E C name NetworkModeRestricted allowLocal es allowedPorts w = (Inr (), w')" and "es \<noteq> []"
    and "\<forall>w. fst (getContainerIPOnce C name w) = Inr ip" and "parse_v4 ip = Some (pkt_src p)"
    and "list_all sound_entry es"
  shows "\<forall>e \<in> set es. classifyHostIP (IP e) \<noteq> hostMetadata"
    and "chain_verdict S p (toks fwd (view w')) =
      (if \<exists>e \<in> set es. entryOpens allowedPorts e p then Some Accept else chain_verdict S p (toks fwd (view w)))"
    and "files w' name = replaceBlock userHostsBeginMarker userHostsEndMarker (renderUserHostsBlock es) (files w name)"
proof -
  obtain q w1 w2 where c: "checkEntries NetworkModeRestricted allowLocal es = Inr ()"
    and g: "GetContainerIP C name w = (Inr q, w1)"
    and f: "forA (\<lambda>e. applyHostFirewall E NetworkModeRestricted q e allowedPorts) es w1 = (Inr (), w2)"
    and h: "WriteUserHosts C name es w2 = (Inr (), w')"
    using assms(1,2) by (auto simp: ApplyUserHosts_def Let_def thenA_Inr bindA_Inr wrapA_Inr)
  obtain xs where "list_all2 (\<lambda>e x. bindE (checkHostReachable NetworkModeRestricted allowLocal (IP e))
      (\<lambda>_. checkHostPortsEnforceable NetworkModeRestricted e) = Inr x) es xs"
    using c by (auto simp: checkEntries_def bindE_Inr mapE_Inr)
  then show "\<forall>e \<in> set es. classifyHostIP (IP e) \<noteq> hostMetadata"
    by (induction rule: list_all2_induct) (auto simp: bindE_Inr checkHostReachable_def)
  have q: "q = ip" using ip_known[OF _ g] assms(3) by blast
  have v: "list_all (\<lambda>e. parse_v4 (IP e) \<noteq> None) es" using assms(5) by (simp add: list_all_iff sound_entry_def)
  show "chain_verdict S p (toks fwd (view w')) =
      (if \<exists>e \<in> set es. entryOpens allowedPorts e p then Some Accept else chain_verdict S p (toks fwd (view w)))"
    using applyHosts_verdict[OF f[unfolded q] assms(4) v] write_user(1)[OF h] ip_unchanged[OF g] by simp
  have "files w2 = files w1"
    using keepsD[OF keeps_forA f, of "\<lambda>w. files w = files w1"] applyHostFirewall_files by blast
  with write_user(2)[OF h] ip_unchanged[OF g]
  show "files w' name = replaceBlock userHostsBeginMarker userHostsEndMarker (renderUserHostsBlock es) (files w name)" by simp
qed

end

section \<open>A reference container\<close>

text \<open>A world of tables and files; \<open>onFst\<close> lets an nft environment work on its first part.\<close>

definition onFst :: "'a netenv \<Rightarrow> ('a \<times> 'b) netenv" where
  "onFst E = \<lparr>sudo_on = sudo_on E, nft_cmd = (\<lambda>args (s, x). case nft_cmd E args s of (r, s') \<Rightarrow> (r, (s', x)))\<rparr>"

lemma onFst_cmd: "nft_cmd (onFst E) args w = (r, w') \<longleftrightarrow> nft_cmd E args (fst w) = (r, fst w') \<and> snd w' = snd w"
  by (cases w; cases w') (auto simp: onFst_def split: prod.splits)

lemma onFst_kernel:
  assumes "nft_kernel E view"
  shows "nft_kernel (onFst E) (\<lambda>w. view (fst w))"
  by (unfold_locales; unfold onFst_cmd)
    (blast intro: nft_kernel.cmd_ok[OF assms]
      dest: nft_kernel.cmd_err[OF assms] nft_kernel.list_out[OF assms] nft_kernel.list_out_plain[OF assms])+

lemma onFst_reliable:
  assumes "reliable_nft E view"
  shows "reliable_nft (onFst E) (\<lambda>w. view (fst w))"
proof -
  have k: "nft_kernel E view" using assms by (simp add: reliable_nft_def)
  have "reliable_nft_axioms (onFst E) (\<lambda>w. view (fst w))"
  proof
    show "sudo_on (onFst E)" using reliable_nft.sudo[OF assms] by (simp add: onFst_def)
    fix args and w :: "'a \<times> 'c"
    show "\<exists>out w'. nft_cmd (onFst E) args w = (Inr out, w')" if "nft_doc args (view (fst w)) \<noteq> None"
      using reliable_nft.total[OF assms that] unfolding onFst_cmd by (metis fst_conv snd_conv)
    fix e w'
    show "str_contains (err_text e) ''No such file or directory''" if "nft_cmd (onFst E) args w = (Inl e, w')"
      using that reliable_nft.absent[OF assms] unfolding onFst_cmd by blast
  qed
  then show ?thesis using onFst_kernel[OF k] by (simp add: reliable_nft_def)
qed

definition refContainer :: "(nft_state \<times> (string \<Rightarrow> string)) ctenv" where
  "refContainer = \<lparr>getContainerIPOnce = (\<lambda>_ w. (Inr ''10.1.2.3'', w)), CatHosts = (\<lambda>n w. (Inr (snd w n), w)),
     ExecRewrite = (\<lambda>n g w. (Inr (), (fst w, (snd w)(n := g (snd w n)))))\<rparr>"

interpretation pair: reliable_nft "onFst ref_env" fst
  by (rule onFst_reliable[OF ref.reliable_nft_axioms])

interpretation pair: container_net "onFst ref_env" refContainer fst snd
  by unfold_locales (auto simp: refContainer_def onFst_cmd)

text \<open>A file, an entry and a packet for the witnesses.\<close>

definition demoSegs :: "segment list" where
  "demoSegs = [Line (''127.0.0.1'' @ [TAB] @ ''localhost''), Block KAllow [''1.2.3.4'' @ [TAB] @ ''example.com''],
     Block KUser [''10.0.0.9'' @ [TAB] @ ''old'']]"

definition demoEntry :: HostEntry where
  "demoEntry = \<lparr>IP = ''192.168.1.10'', Hostnames = [''redmine'', ''git.lan''], HPorts = [443]\<rparr>"

lemma demoSegs_tidy: "list_all tidy_seg demoSegs"
  by (simp add: demoSegs_def plain_line_def mark_defs has_prefix_def)

lemma demoEntry_v4: "parse_v4 ''192.168.1.10'' = Some 0xC0A8010A"
  by (simp add: entry_eval)

lemma demoEntry_sound: "sound_entry demoEntry"
proof -
  have "hostnameRe ''redmine''" "hostnameRe ''git.lan''" by code_simp+
  then show ?thesis
    by (simp add: sound_entry_def validHost_def demoEntry_def net_ParseIP_v4[OF demoEntry_v4] demoEntry_v4)
qed

lemma demoEntry_class: "classifyHostIP ''192.168.1.10'' = hostPrivate"
  by (simp add: classifyHostIP_def net_ParseIP_v4[OF demoEntry_v4] is_link_local_unicast_def is_private_def
      link_local4_def rfc1918_def)

section \<open>Properties\<close>

text \<open>C11. The user block round-trips and disturbs nothing: rewriting a file made of plain lines and
  terminated managed blocks replaces exactly the user blocks by the rendered entries, keeps every
  other line and the allowlist block in order, and \<open>parseUserHostsBlock\<close> reads the entries back
  (sorted by address, names sorted, ports not stored).\<close>

theorem user_hosts_roundtrip:
  assumes "list_all tidy_seg segs" and "list_all sound_entry es"
  shows "replaceBlock userHostsBeginMarker userHostsEndMarker (renderUserHostsBlock es) (hostsFile segs) =
      hostsFile (no_user_block segs @ [Block KUser (map userLine (sort_key IP es))]) \<and>
    parseUserHostsBlock (replaceBlock userHostsBeginMarker userHostsEndMarker (renderUserHostsBlock es) (hostsFile segs)) =
      map stored (sort_key IP es)"
  by (simp only: user_block_written[OF assms] simp_thms)

lemma user_hosts_roundtrip_witness:
  "parseUserHostsBlock (replaceBlock userHostsBeginMarker userHostsEndMarker (renderUserHostsBlock [demoEntry]) (hostsFile demoSegs)) =
     [\<lparr>IP = ''192.168.1.10'', Hostnames = [''git.lan'', ''redmine''], HPorts = []\<rparr>]"
proof -
  have "parseUserHostsBlock (replaceBlock userHostsBeginMarker userHostsEndMarker (renderUserHostsBlock [demoEntry]) (hostsFile demoSegs)) =
      map stored (sort_key IP [demoEntry])"
    by (rule conjunct2[OF user_hosts_roundtrip[OF demoSegs_tidy]]) (simp add: demoEntry_sound)
  moreover have "sort (Hostnames demoEntry) = [''git.lan'', ''redmine'']" by code_simp
  ultimately show ?thesis by (simp add: stored_def demoEntry_def)
qed

text \<open>The allowlist block and the user block are independent: writing resolved addresses replaces
  exactly the allowlist blocks, and what \<open>parseUserHostsBlock\<close> reads stays the same.\<close>

theorem allow_hosts_frame:
  assumes "list_all tidy_seg segs" and "sound_ips d"
  shows "replaceBlock hostsBeginMarker hostsEndMarker (renderHostsBlock d) (hostsFile segs) =
      hostsFile (filter (\<lambda>s. \<not> of_kind KAllow s) segs @ [Block KAllow (allowLines d)]) \<and>
    parseUserHostsBlock (replaceBlock hostsBeginMarker hostsEndMarker (renderHostsBlock d) (hostsFile segs)) =
      parseUserHostsBlock (hostsFile segs)"
proof -
  let ?segs = "filter (\<lambda>s. \<not> of_kind KAllow s) segs @ [Block KAllow (allowLines d)]"
  note p = allowLines_plain[OF assms(2)]
  have r: "replaceBlock hostsBeginMarker hostsEndMarker (renderHostsBlock d) (hostsFile segs) = hostsFile ?segs"
    using replaceBlock_segs[OF assms(1) p, of KAllow] by (simp add: renderHostsBlock_text bmark_def emark_def)
  have e: "seg_entries s = []" if "of_kind KAllow s" for s using that by (cases s) auto
  have "concat (map seg_entries (filter (\<lambda>s. \<not> of_kind KAllow s) segs)) = concat (map seg_entries segs)"
    by (induction segs) (auto simp: e)
  moreover have "list_all tidy_seg ?segs" using assms(1) p by (auto simp: list_all_iff)
  ultimately show ?thesis using r parse_hostsFile[OF assms(1)] parse_hostsFile[of ?segs] by simp
qed

lemma allow_hosts_frame_witness:
  "parseUserHostsBlock (replaceBlock hostsBeginMarker hostsEndMarker (renderHostsBlock [(''a.io'', [''9.9.9.9''])]) (hostsFile demoSegs)) =
     [\<lparr>IP = ''10.0.0.9'', Hostnames = [''old''], HPorts = []\<rparr>]"
proof -
  have "sound_ips [(''a.io'', [''9.9.9.9''])]" by (simp add: sound_ips_def word_def is_space_def)
  from allow_hosts_frame[OF demoSegs_tidy this] have
    "parseUserHostsBlock (replaceBlock hostsBeginMarker hostsEndMarker (renderHostsBlock [(''a.io'', [''9.9.9.9''])]) (hostsFile demoSegs)) =
     parseUserHostsBlock (hostsFile demoSegs)" by blast
  also have "\<dots> = [\<lparr>IP = ''10.0.0.9'', Hostnames = [''old''], HPorts = []\<rparr>]"
    unfolding parse_hostsFile[OF demoSegs_tidy]
    by (simp add: demoSegs_def entries_of_def str_fields_def is_space_def)
  finally show ?thesis .
qed

text \<open>An unterminated block survives one rewrite and is lost in the next: the awk program drops the
  lines it has buffered when it meets a second BEGIN marker.\<close>

lemma unterminated_block_lost:
  "let ls = [userHostsBeginMarker, ''10.0.0.5 mine''];
       once = awkStrip userHostsBeginMarker userHostsEndMarker None ls @ [userHostsBeginMarker, userHostsEndMarker]
   in ''10.0.0.5 mine'' \<in> set once \<and> awkStrip userHostsBeginMarker userHostsEndMarker None once = []"
  by (simp add: mark_defs has_prefix_def)

text \<open>A port-scoped entry does not let an echo request through, and the restricted policy then rejects it
  with the other private destinations, before its own rate-limited echo rule.\<close>

lemma scoped_host_ping:
  assumes "pkt_proto p = ICMP 8" and "HPorts e \<noteq> []" and "BoolVal (BlockPrivateNetworks cfg)"
    and "\<not> BoolVal (AllowLocalNetworkAccess cfg)" and "rfc1918 (pkt_dst p)" and "parse_v4 gw \<noteq> Some (pkt_dst p)"
  shows "\<not> entryOpens ports e p \<and> restrictedSpec gw cfg p = Reject"
  using assms by (simp add: entryOpens_def restrictedSpec_def l4_def)

text \<open>An entry without ports opens port 53 too, although the policy pins DNS to other resolvers.\<close>

lemma host_entry_passes_dns_pin:
  assumes "classifyHostIP (IP e) = hostPrivate" and "parse_v4 (IP e) = Some (pkt_dst p)" and "HPorts e = []"
    and "pkt_dport p = 53" and "l4 p" and "DNSServers cfg \<noteq> []" and "\<not> (\<exists>s \<in> set (DNSServers cfg). resolver_is s (pkt_dst p))"
    and "parse_v4 gw \<noteq> Some (pkt_dst p)"
  shows "entryOpens [] e p \<and> restrictedSpec gw cfg p = Reject"
  using assms by (auto simp: entryOpens_def restrictedSpec_def)

text \<open>Adding and removing host names work on the sets of names: merging an entry unites the names
  of its address and touches no other address, keeps the order of the addresses and adds at most
  one line; removing names removes exactly those and leaves no entry without a name.\<close>

theorem host_entries_names:
  "names_of (mergeHostEntry es add) ip = names_of es ip \<union> (if ip = IP add then set (Hostnames add) else {}) \<and>
   map IP (mergeHostEntry es add) = map IP es @ (if IP add \<in> IP ` set es then [] else [IP add]) \<and>
   names_of (dropHostnames hs es) ip = names_of es ip - set hs \<and>
   list_all (\<lambda>e. Hostnames e \<noteq> []) (dropHostnames hs es)"
  by (simp only: merge_names merge_ips drop_names drop_nonempty simp_thms)

text \<open>Host entries in restricted mode: when \<open>ApplyUserHosts\<close> returns without error, no entry is in
  the link-local (metadata) range, the forward chain accepts exactly the packets to a private entry
  on that entry's ports (else the global ports, else any) and decides every other packet as before,
  and the container's file carries the entries.\<close>

theorem user_hosts_restricted:
  assumes "container_net E C view files"
    and "ApplyUserHosts E C name NetworkModeRestricted allowLocal es allowedPorts w = (Inr (), w')" and "es \<noteq> []"
    and "\<forall>w. fst (getContainerIPOnce C name w) = Inr ip" and "parse_v4 ip = Some (pkt_src p)"
    and "list_all sound_entry es"
  shows "(\<forall>e \<in> set es. classifyHostIP (IP e) \<noteq> hostMetadata) \<and>
    chain_verdict S p (toks fwd (view w')) =
      (if \<exists>e \<in> set es. entryOpens allowedPorts e p then Some Accept else chain_verdict S p (toks fwd (view w))) \<and>
    files w' name = replaceBlock userHostsBeginMarker userHostsEndMarker (renderUserHostsBlock es) (files w name)"
  using container_net.ApplyUserHosts_restricted[OF assms] by blast

lemma user_hosts_restricted_witness:
  "\<exists>w'. ApplyUserHosts (onFst ref_env) refContainer ''c1'' NetworkModeRestricted False [demoEntry] []
      (demoShared, \<lambda>_. hostsFile demoSegs) = (Inr (), w') \<and>
    chain_verdict (\<lambda>_. None) (demoPacket 0xC0A8010A TCP 443) (toks fwd (fst w')) = Some Accept \<and>
    parseUserHostsBlock (snd w' ''c1'') = [\<lparr>IP = ''192.168.1.10'', Hostnames = [''git.lan'', ''redmine''], HPorts = []\<rparr>]"
proof -
  let ?w = "(demoShared, \<lambda>_ :: string. hostsFile demoSegs)"
  let ?m = "ApplyUserHosts (onFst ref_env) refContainer ''c1'' NetworkModeRestricted False [demoEntry] []"
  have v: "validateAllowedPorts [443] = Inr [443]" by (simp add: validateAllowedPorts_def)
  have "fst (?m ?w) = Inr ()"
    by (simp add: ApplyUserHosts_def checkEntries_def checkHostReachable_def checkHostPortsEnforceable_def demoEntry_class
      demoEntry_def thenA_def bindA_def wrapA_def GetContainerIP_def numeral_eq_Suc tryA_def refContainer_def
      applyHostFirewall_def v insertContainerAcceptRule_def containerAcceptRuleArgs_toks nftDo_def runNFTCommand_def
      onFst_def ref_env_def ref_exec_def nft_doc_insert_rule demoShared_def WriteUserHosts_def replaceManagedHostsBlock_def Let_def)
  then obtain w' where r: "?m ?w = (Inr (), w')" by (cases "?m ?w") auto
  have u: "(\<forall>e \<in> set [demoEntry]. classifyHostIP (IP e) \<noteq> hostMetadata) \<and>
    chain_verdict (\<lambda>_. None) (demoPacket 0xC0A8010A TCP 443) (toks fwd (fst w')) =
      (if \<exists>e \<in> set [demoEntry]. entryOpens [] e (demoPacket 0xC0A8010A TCP 443) then Some Accept
       else chain_verdict (\<lambda>_. None) (demoPacket 0xC0A8010A TCP 443) (toks fwd (fst ?w))) \<and>
    snd w' ''c1'' = replaceBlock userHostsBeginMarker userHostsEndMarker (renderUserHostsBlock [demoEntry]) (snd ?w ''c1'')"
    by (rule user_hosts_restricted[where ip = "''10.1.2.3''", OF pair.container_net_axioms r])
      (simp_all add: refContainer_def demo_v4 demoPacket_def demoEntry_sound)
  moreover have "entryOpens [] demoEntry (demoPacket 0xC0A8010A TCP 443)"
    by (simp add: entryOpens_def demoEntry_class demoEntry_def demoEntry_v4 demoPacket_def l4_def)
  moreover have "parseUserHostsBlock (snd w' ''c1'') = map stored (sort_key IP [demoEntry])"
    using u user_block_written[OF demoSegs_tidy, of "[demoEntry]"] by (simp add: demoEntry_sound del: sort_key_simps)
  moreover have "sort (Hostnames demoEntry) = [''git.lan'', ''redmine'']" by code_simp
  ultimately show ?thesis using r by (auto simp: stored_def demoEntry_def)
qed

end
