(* ===== verification/Resolver.thy ===== *)
theory Resolver
  imports Hosts "HOL-Library.AList"
begin

text \<open>
  Name resolution on the host: \<open>internal/network/dns.go\<close> (answers and their TTL),
  \<open>internal/network/resolver.go\<close> (DNS, the standard resolver, the cache) and the cache
  record of \<open>internal/network/cache.go\<close>. The DNS exchange, the system resolver and the file
  that persists the cache are parameters.
\<close>

section \<open>Answers\<close>

text \<open>A resource record of a response: an A record with its address and TTL, or another type.\<close>

datatype rr = RR_A ip4 "32 word" | RR_Other

record dns_msg =
  Rcode :: nat
  Answer :: "rr list"

record DNSResult =
  IPs :: "string list"
  TTL :: "32 word"

definition MinTTLFloor :: "32 word" where "MinTTLFloor = 60"

text \<open>The loop: the addresses so far, the least TTL so far, and whether it is still the first.\<close>

fun scanARecords :: "string list \<Rightarrow> 32 word \<Rightarrow> bool \<Rightarrow> rr list \<Rightarrow> string list \<times> 32 word" where
  "scanARecords ips minTTL first [] = (ips, minTTL)"
| "scanARecords ips minTTL first (RR_Other # rs) = scanARecords ips minTTL first rs"
| "scanARecords ips minTTL first (RR_A a ttl # rs) =
     (if first \<or> ttl < minTTL then scanARecords (ips @ [ip4_string a]) ttl False rs
      else scanARecords (ips @ [ip4_string a]) minTTL first rs)"

definition parseARecords :: "dns_msg \<Rightarrow> DNSResult result" where
  "parseARecords resp = (case scanARecords [] 0 True (Answer resp) of (ips, minTTL) \<Rightarrow>
     if length ips = 0 then Inl (Errorf ''no A records found in DNS response'' [])
     else Inr \<lparr>IPs = ips, TTL = (if minTTL < MinTTLFloor then MinTTLFloor else minTTL)\<rparr>)"

text \<open>The host's DNS: the servers of \<open>/etc/resolv.conf\<close> (joined with the port), one exchange, and
  the lookup of the standard library.\<close>

record 'w dnsenv =
  dns_servers :: "('w, string list) act"
  dns_exchange :: "string \<Rightarrow> string \<Rightarrow> ('w, dns_msg) act"
  LookupIP :: "string \<Rightarrow> ('w, netip list) act"

fun queryServers :: "'w dnsenv \<Rightarrow> string \<Rightarrow> gerr option \<Rightarrow> string list \<Rightarrow> ('w, DNSResult) act" where
  "queryServers D domain lastErr [] = (case lastErr of
     Some e \<Rightarrow> failA (Wrapf ''all nameservers failed, last error'' e)
   | None \<Rightarrow> failA (Errorf ''no nameservers available'' []))"
| "queryServers D domain lastErr (server # ss) =
     bindA (tryA (dns_exchange D domain server)) (\<lambda>r. case r of
         Inl e \<Rightarrow> queryServers D domain (Some e) ss
       | Inr resp \<Rightarrow> if Rcode resp \<noteq> 0
           then queryServers D domain (Some (Errorf ''DNS query failed with rcode %d'' [itoa (Rcode resp)])) ss
           else liftA (parseARecords resp))"

text \<open>\<open>QueryDNS\<close>; it indexes the last byte of the name, so the callers never pass an empty one.\<close>

definition QueryDNS :: "'w dnsenv \<Rightarrow> string \<Rightarrow> ('w, DNSResult) act" where
  "QueryDNS D domain0 =
     (let domain = (if last domain0 \<noteq> CHR ''.'' then domain0 @ ''.'' else domain0) in
      bindA (wrapA ''failed to read resolv.conf'' (dns_servers D)) (\<lambda>servers.
        if length servers = 0 then failA (Errorf ''no nameservers found in resolv.conf'' [])
        else queryServers D domain None servers))"

section \<open>The resolver and its cache\<close>

text \<open>Go maps are association lists with one entry per key.\<close>

type_synonym ttl_map = "(string \<times> 32 word) list"

record IPCache =
  Domains :: domain_ips
  TTLs :: ttl_map
  LastUpdate :: int

record Resolver =
  cache :: IPCache
  DomainTTLs :: ttl_map

definition emptyCache :: IPCache where
  "emptyCache = \<lparr>Domains = [], TTLs = [], LastUpdate = 0\<rparr>"

definition NewResolver :: "IPCache \<Rightarrow> Resolver" where
  "NewResolver c = \<lparr>cache = c, DomainTTLs = []\<rparr>"

abbreviation setTTL :: "string \<Rightarrow> 32 word \<Rightarrow> Resolver \<Rightarrow> Resolver" where
  "setTTL domain ttl r \<equiv> r\<lparr>DomainTTLs := AList.update domain ttl (DomainTTLs r)\<rparr>"

text \<open>The addresses and the resolver, whose TTL map the call writes; a failure leaves the map alone.\<close>

definition ResolveDomain :: "'w dnsenv \<Rightarrow> Resolver \<Rightarrow> string \<Rightarrow> ('w, string list \<times> Resolver) act" where
  "ResolveDomain D r domain = (case net_ParseIP domain of
     Some ip \<Rightarrow> (case to4 ip of
         Some a \<Rightarrow> retA ([ip4_string a], setTTL domain 0 r)
       | None \<Rightarrow> failA (Errorf ''%s is not a valid IPv4 address'' [domain]))
   | None \<Rightarrow>
     if str_contains domain ''/'' then
       (case net_ParseCIDR domain of
          None \<Rightarrow> failA (Errorf ''invalid CIDR %q'' [domain])
        | Some (ip, Net4 a n) \<Rightarrow> retA ([net4_string a n], setTTL domain 0 r)
        | Some (ip, Net6 a n) \<Rightarrow> failA (Errorf ''%q is an IPv6 CIDR; only IPv4 is supported'' [domain]))
     else if str_contains domain ''*'' then failA (Errorf ''cannot resolve wildcard %q'' [domain])
     else
       bindA (tryA (QueryDNS D domain)) (\<lambda>q.
         if (case q of Inr res \<Rightarrow> length (IPs res) > 0 | Inl _ \<Rightarrow> False)
         then (case q of Inr res \<Rightarrow> retA (IPs res, setTTL domain (TTL res) r) | Inl e \<Rightarrow> failA e)
         else bindA (wrapA (''failed to resolve '' @ domain) (LookupIP D domain)) (\<lambda>addrs.
           let ips = map ip4_string (List.map_filter to4 addrs) in
           if length ips = 0 then failA (Errorf ''no IPv4 addresses found for %s'' [domain])
           else retA (ips, setTTL domain 0 r))))"

text \<open>The loop of \<open>ResolveAll\<close>: results, whether a name failed, how many have addresses.\<close>

fun resolveLoop :: "'w dnsenv \<Rightarrow> Resolver \<Rightarrow> domain_ips \<Rightarrow> bool \<Rightarrow> nat \<Rightarrow> string list
     \<Rightarrow> ('w, domain_ips \<times> bool \<times> nat \<times> Resolver) act" where
  "resolveLoop D r results hasError n [] = retA (results, hasError, n, r)"
| "resolveLoop D r results hasError n (domain # ds) =
     bindA (tryA (ResolveDomain D r domain)) (\<lambda>q. case q of
         Inr (ips, r') \<Rightarrow> resolveLoop D r' (AList.update domain ips results) hasError (Suc n) ds
       | Inl _ \<Rightarrow> (case map_of (Domains (cache r)) domain of
             Some (ip # ips) \<Rightarrow>
               resolveLoop D (case map_of (TTLs (cache r)) domain of Some ttl \<Rightarrow> setTTL domain ttl r | None \<Rightarrow> r)
                 (AList.update domain (ip # ips) results) True (Suc n) ds
           | _ \<Rightarrow> resolveLoop D r results True n ds))"

text \<open>\<open>ResolveAll\<close> returns its results together with an error when only some names failed.\<close>

definition ResolveAll :: "'w dnsenv \<Rightarrow> Resolver \<Rightarrow> string list \<Rightarrow> ('w, domain_ips \<times> gerr option \<times> Resolver) act" where
  "ResolveAll D r domains =
     bindA (resolveLoop D r [] False 0 domains) (\<lambda>(results, hasError, n, r').
       if n = 0 then retA ([], Some (Errorf ''failed to resolve any domains'' []), r')
       else if hasError then retA (results, Some (Errorf ''some domains failed to resolve'' []), r')
       else retA (results, None, r'))"

fun minTTLFrom :: "32 word \<Rightarrow> bool \<Rightarrow> ttl_map \<Rightarrow> 32 word" where
  "minTTLFrom m first [] = m"
| "minTTLFrom m first ((_, ttl) # ts) =
     (if ttl = 0 then minTTLFrom m first ts
      else if first \<or> ttl < m then minTTLFrom ttl False ts else minTTLFrom m first ts)"

definition GetMinTTL :: "Resolver \<Rightarrow> 32 word" where
  "GetMinTTL r = minTTLFrom 0 True (DomainTTLs r)"

definition UpdateCache :: "int \<Rightarrow> domain_ips \<Rightarrow> Resolver \<Rightarrow> Resolver" where
  "UpdateCache now newIPs r = r\<lparr>cache := \<lparr>Domains = newIPs, TTLs = DomainTTLs r, LastUpdate = now\<rparr>\<rparr>"

section \<open>The time to live of an answer\<close>

definition ttls_of :: "rr list \<Rightarrow> 32 word list" where
  "ttls_of rs = List.map_filter (\<lambda>r. case r of RR_A a t \<Rightarrow> Some t | RR_Other \<Rightarrow> None) rs"

definition addrs_of :: "rr list \<Rightarrow> ip4 list" where
  "addrs_of rs = List.map_filter (\<lambda>r. case r of RR_A a t \<Rightarrow> Some a | RR_Other \<Rightarrow> None) rs"

lemma ttls_of_simps [simp]:
  "ttls_of [] = []" "ttls_of (RR_Other # rs) = ttls_of rs" "ttls_of (RR_A a t # rs) = t # ttls_of rs"
  "addrs_of [] = []" "addrs_of (RR_Other # rs) = addrs_of rs" "addrs_of (RR_A a t # rs) = a # addrs_of rs"
  by (simp_all add: ttls_of_def addrs_of_def List.map_filter_simps)

lemma scan_addrs: "fst (scanARecords ips m f rs) = ips @ map ip4_string (addrs_of rs)"
  by (induction ips m f rs rule: scanARecords.induct) auto

lemma Min_insert_step:
  "finite X \<Longrightarrow> Min (insert m (insert t X)) = (if t < m then Min (insert t X) else Min (insert m X))" for t :: "'a::linorder"
  by (cases "X = {}") (auto simp: min_def)

lemma scan_rest: "snd (scanARecords ips m False rs) = Min (insert m (set (ttls_of rs)))"
proof (induction rs arbitrary: ips m)
  case (Cons r rs)
  then show ?case
  proof (cases r)
    case (RR_A a t)
    have "Min (insert m (insert t X)) = (if t < m then Min (insert t X) else Min (insert m X))" if "finite X" for X
      using that by (rule Min_insert_step)
    with Cons RR_A show ?thesis by simp
  qed simp
qed simp

lemma scan_first: "ttls_of rs \<noteq> [] \<Longrightarrow> snd (scanARecords ips m True rs) = Min (set (ttls_of rs))"
proof (induction rs arbitrary: ips m)
  case (Cons r rs)
  then show ?case by (cases r) (auto simp: scan_rest)
qed simp

lemma addrs_ttls: "addrs_of rs = [] \<longleftrightarrow> ttls_of rs = []"
  by (induction rs) (simp, case_tac a, auto)

lemma parseARecords_Inr:
  "parseARecords resp = Inr res \<longleftrightarrow> addrs_of (Answer resp) \<noteq> [] \<and>
     res = \<lparr>IPs = map ip4_string (addrs_of (Answer resp)), TTL = max MinTTLFloor (Min (set (ttls_of (Answer resp))))\<rparr>"
proof -
  obtain ips m where s: "scanARecords [] 0 True (Answer resp) = (ips, m)" by force
  have i: "ips = map ip4_string (addrs_of (Answer resp))" using scan_addrs[of "[]" 0 True "Answer resp"] s by simp
  have "m = Min (set (ttls_of (Answer resp)))" if "addrs_of (Answer resp) \<noteq> []"
    using scan_first[of "Answer resp" "[]" 0] that s by (simp add: addrs_ttls)
  with s i show ?thesis by (auto simp: parseARecords_def max_def)
qed

section \<open>The least TTL\<close>

lemma minTTLFrom_rest:
  "minTTLFrom m False ts = Min (insert m {t \<in> snd ` set ts. t \<noteq> 0})"
proof (induction ts arbitrary: m)
  case (Cons a ts)
  obtain k t where a: "a = (k, t)" by (cases a)
  let ?X = "{t \<in> snd ` set ts. t \<noteq> 0}"
  have f: "finite ?X" by simp
  have "Min (insert m (insert t ?X)) = (if t < m then Min (insert t ?X) else Min (insert m ?X))"
    by (rule Min_insert_step[OF f])
  moreover have "{u \<in> snd ` set (a # ts). u \<noteq> 0} = (if t = 0 then ?X else insert t ?X)" using a by auto
  ultimately show ?case using Cons a by simp
qed simp

lemma GetMinTTL_min:
  "GetMinTTL r = (let X = {t \<in> snd ` set (DomainTTLs r). t \<noteq> 0} in if X = {} then 0 else Min X)"
proof -
  have "minTTLFrom 0 True ts = (if {t \<in> snd ` set ts. t \<noteq> 0} = {} then 0 else Min {t \<in> snd ` set ts. t \<noteq> 0})" for ts
  proof (induction ts)
    case (Cons a ts)
    obtain k t where a: "a = (k, t)" by (cases a)
    have "{u \<in> snd ` set (a # ts). u \<noteq> 0} = (if t = 0 then {u \<in> snd ` set ts. u \<noteq> 0} else insert t {u \<in> snd ` set ts. u \<noteq> 0})"
      using a by auto
    with Cons a show ?case by (auto simp: minTTLFrom_rest)
  qed simp
  then show ?thesis by (simp add: GetMinTTL_def Let_def)
qed

section \<open>What resolution returns\<close>

text \<open>Texts of IPv4 addresses and networks.\<close>

definition addr_text :: "string \<Rightarrow> bool" where
  "addr_text s \<longleftrightarrow> (\<exists>a. s = ip4_string a) \<or> (\<exists>a n. s = net4_string a n)"

lemma queryServers_Inr:
  "queryServers D d e ss w = (Inr res, w') \<Longrightarrow> IPs res \<noteq> [] \<and> list_all addr_text (IPs res) \<and> MinTTLFloor \<le> TTL res"
proof (induction ss arbitrary: e w)
  case (Cons s ss)
  obtain q w1 where q: "dns_exchange D d s w = (q, w1)" by force
  show ?case
  proof (cases q)
    case (Inl e')
    with Cons q show ?thesis by (simp add: bindA_def tryA_def)
  next
    case (Inr resp)
    show ?thesis
    proof (cases "Rcode resp = 0")
      case True
      with Cons.prems q Inr have "parseARecords resp = Inr res" by (simp add: bindA_def tryA_def)
      then show ?thesis by (auto simp: parseARecords_Inr list_all_iff addr_text_def)
    next
      case False
      with Cons q Inr show ?thesis by (simp add: bindA_def tryA_def)
    qed
  qed
qed (simp split: option.splits)

lemma QueryDNS_Inr:
  "QueryDNS D d w = (Inr res, w') \<Longrightarrow> IPs res \<noteq> [] \<and> list_all addr_text (IPs res) \<and> MinTTLFloor \<le> TTL res"
  by (auto simp: QueryDNS_def Let_def bindA_Inr wrapA_Inr split: if_splits dest: queryServers_Inr)

lemma ResolveDomain_Inr:
  assumes "ResolveDomain D r d w = (Inr (ips, r'), w')"
  shows "ips \<noteq> [] \<and> list_all addr_text ips \<and> cache r' = cache r"
proof (cases "net_ParseIP d")
  case (Some ip)
  with assms show ?thesis by (auto simp: ResolveDomain_def addr_text_def split: option.splits)
next
  case None
  note N = None
  show ?thesis
  proof (cases "str_contains d ''/''")
    case True
    with assms None show ?thesis
      by (auto simp: ResolveDomain_def addr_text_def split: option.splits prod.splits ipnet.splits) blast+
  next
    case False
    obtain q w1 where q: "QueryDNS D d w = (q, w1)" by force
    have star: "\<not> str_contains d ''*''" using assms N False by (auto simp: ResolveDomain_def)
    show ?thesis
    proof (cases "case q of Inr res \<Rightarrow> length (IPs res) > 0 | Inl _ \<Rightarrow> False")
      case True
      then obtain res where r: "q = Inr res" by (cases q) auto
      with assms N False star q True have "ips = IPs res" "r' = setTTL d (TTL res) r"
        by (simp_all add: ResolveDomain_def bindA_def tryA_def)
      with QueryDNS_Inr[OF q[unfolded r]] show ?thesis by simp
    next
      case no: False
      from assms N False star q no obtain addrs w2 where "LookupIP D d w1 = (Inr addrs, w2)"
        "ips = map ip4_string (List.map_filter to4 addrs)" "ips \<noteq> []" "r' = setTTL d 0 r"
        by (auto simp: ResolveDomain_def bindA_Inr tryA_Inr wrapA_Inr Let_def split: if_splits)
      then show ?thesis by (auto simp: list_all_iff addr_text_def)
    qed
  qed
qed

text \<open>What the loop did with each name.\<close>

datatype outcome = Fresh "string list" | Cached "string list" | Failed

fun outcome_ok :: "IPCache \<Rightarrow> string \<times> outcome \<Rightarrow> bool" where
  "outcome_ok c (d, Fresh ips) \<longleftrightarrow> ips \<noteq> [] \<and> list_all addr_text ips"
| "outcome_ok c (d, Cached ips) \<longleftrightarrow> ips \<noteq> [] \<and> map_of (Domains c) d = Some ips"
| "outcome_ok c (d, Failed) \<longleftrightarrow> map_of (Domains c) d = None \<or> map_of (Domains c) d = Some []"

fun store :: "string \<times> outcome \<Rightarrow> domain_ips \<Rightarrow> domain_ips" where
  "store (d, Fresh ips) results = AList.update d ips results"
| "store (d, Cached ips) results = AList.update d ips results"
| "store (d, Failed) results = results"

definition is_fresh :: "outcome \<Rightarrow> bool" where
  "is_fresh x \<longleftrightarrow> (case x of Fresh _ \<Rightarrow> True | _ \<Rightarrow> False)"

lemma is_fresh_simps [simp]: "is_fresh (Fresh ips)" "\<not> is_fresh (Cached ips)" "\<not> is_fresh Failed"
  by (simp_all add: is_fresh_def)

lemma resolveLoop_outcomes:
  "\<exists>os r' w'. map fst os = ds \<and> list_all (outcome_ok (cache r)) os \<and> cache r' = cache r \<and>
     resolveLoop D r results hasError n ds w = (Inr (fold store os results, hasError \<or> \<not> list_all (\<lambda>x. is_fresh (snd x)) os,
       n + length (filter (\<lambda>x. snd x \<noteq> Failed) os), r'), w')"
proof (induction ds arbitrary: r results hasError n w)
  case (Cons d ds)
  obtain q w1 where q: "ResolveDomain D r d w = (q, w1)" by force
  consider (fresh) ips r1 where "q = Inr (ips, r1)"
    | (cached) e ip ips where "q = Inl e" "map_of (Domains (cache r)) d = Some (ip # ips)"
    | (failed) e where "q = Inl e" "map_of (Domains (cache r)) d = None \<or> map_of (Domains (cache r)) d = Some []"
    by (metis list.exhaust old.sum.exhaust option.exhaust prod.exhaust)
  then show ?case
  proof cases
    case fresh
    have o: "ips \<noteq> []" "list_all addr_text ips" "cache r1 = cache r"
      using ResolveDomain_Inr[OF q[unfolded fresh]] by auto
    obtain os r' w' where os: "map fst os = ds" "list_all (outcome_ok (cache r1)) os" "cache r' = cache r1"
      "resolveLoop D r1 (AList.update d ips results) hasError (Suc n) ds w1 =
        (Inr (fold store os (AList.update d ips results), hasError \<or> \<not> list_all (\<lambda>x. is_fresh (snd x)) os,
          Suc n + length (filter (\<lambda>x. snd x \<noteq> Failed) os), r'), w')" using Cons.IH by blast
    with q fresh o show ?thesis
      by (intro exI[of _ "(d, Fresh ips) # os"] exI[of _ r'] exI[of _ w'])
        (simp add: bindA_def tryA_def)
  next
    case cached
    define r1 where "r1 = (case map_of (TTLs (cache r)) d of Some ttl \<Rightarrow> setTTL d ttl r | None \<Rightarrow> r)"
    have c: "cache r1 = cache r" by (simp add: r1_def split: option.split)
    obtain os r' w' where os: "map fst os = ds" "list_all (outcome_ok (cache r1)) os" "cache r' = cache r1"
      "resolveLoop D r1 (AList.update d (ip # ips) results) True (Suc n) ds w1 =
        (Inr (fold store os (AList.update d (ip # ips) results), True \<or> \<not> list_all (\<lambda>x. is_fresh (snd x)) os,
          Suc n + length (filter (\<lambda>x. snd x \<noteq> Failed) os), r'), w')" using Cons.IH by blast
    with q cached c show ?thesis
      by (intro exI[of _ "(d, Cached (ip # ips)) # os"] exI[of _ r'] exI[of _ w'])
        (simp add: bindA_def tryA_def r1_def)
  next
    case failed
    obtain os r' w' where os: "map fst os = ds" "list_all (outcome_ok (cache r)) os" "cache r' = cache r"
      "resolveLoop D r results True n ds w1 =
        (Inr (fold store os results, True \<or> \<not> list_all (\<lambda>x. is_fresh (snd x)) os,
          n + length (filter (\<lambda>x. snd x \<noteq> Failed) os), r'), w')" using Cons.IH by blast
    with q failed show ?thesis
      by (intro exI[of _ "(d, Failed) # os"] exI[of _ r'] exI[of _ w'])
        (auto simp: bindA_def tryA_def)
  qed
qed simp

text \<open>An entry of the results: fresh addresses, or the cached ones.\<close>

definition good_entry :: "IPCache \<Rightarrow> string \<times> string list \<Rightarrow> bool" where
  "good_entry c e \<longleftrightarrow> snd e \<noteq> [] \<and> (list_all addr_text (snd e) \<or> map_of (Domains c) (fst e) = Some (snd e))"

lemma update_entries: "list_all P kvs \<Longrightarrow> P (k, v) \<Longrightarrow> list_all P (AList.update k v kvs)"
  by (induction kvs) auto

lemma update_keys: "fst ` set (AList.update k v kvs) = insert k (fst ` set kvs)"
  by (induction kvs) auto

lemma store_good: "outcome_ok c x \<Longrightarrow> list_all (good_entry c) results \<Longrightarrow> list_all (good_entry c) (store x results)"
  by (cases "(x, results)" rule: store.cases) (auto intro!: update_entries simp: good_entry_def)

lemma store_keys: "fst ` set (store x results) = (if snd x = Failed then {} else {fst x}) \<union> fst ` set results"
  by (cases "(x, results)" rule: store.cases) (auto simp: update_keys)

lemma fold_store:
  "list_all (outcome_ok c) os \<Longrightarrow> list_all (good_entry c) results \<Longrightarrow>
   list_all (good_entry c) (fold store os results)"
  "fst ` set (fold store os results) = fst ` {x \<in> set os. snd x \<noteq> Failed} \<union> fst ` set results"
proof (induction os arbitrary: results)
  case (Cons x os)
  { case 1 with Cons show ?case by (simp add: store_good) }
  { case 2 show ?case using Cons(2)[of "store x results"] by (auto simp: store_keys) }
qed simp_all

definition cached :: "IPCache \<Rightarrow> string \<Rightarrow> bool" where
  "cached c d \<longleftrightarrow> (\<exists>ip ips. map_of (Domains c) d = Some (ip # ips))"

lemma fold_fresh:
  "list_all (outcome_ok c) os \<Longrightarrow> list_all (\<lambda>x. is_fresh (snd x)) os \<Longrightarrow> list_all (\<lambda>x. list_all addr_text (snd x)) results \<Longrightarrow>
   list_all (\<lambda>x. list_all addr_text (snd x)) (fold store os results)"
proof (induction os arbitrary: results)
  case (Cons x os)
  then have "list_all (\<lambda>x. list_all addr_text (snd x)) (store x results)"
    by (cases "(x, results)" rule: store.cases) (auto intro!: update_entries)
  with Cons show ?case by simp
qed simp

lemma ResolveAll_outcomes:
  obtains os r' w' where "map fst os = domains" "list_all (outcome_ok (cache r)) os" "cache r' = cache r"
    "ResolveAll D r domains w = (Inr (if list_all (\<lambda>x. snd x = Failed) os then ([], Some (Errorf ''failed to resolve any domains'' []), r')
       else (fold store os [], if list_all (\<lambda>x. is_fresh (snd x)) os then None else Some (Errorf ''some domains failed to resolve'' []), r')), w')"
proof -
  obtain os r' w' where os: "map fst os = domains" "list_all (outcome_ok (cache r)) os" "cache r' = cache r"
    "resolveLoop D r [] False 0 domains w = (Inr (fold store os [], False \<or> \<not> list_all (\<lambda>x. is_fresh (snd x)) os,
       0 + length (filter (\<lambda>x. snd x \<noteq> Failed) os), r'), w')" using resolveLoop_outcomes[of domains r D "[]" False 0 w] by blast
  have "length (filter (\<lambda>x. snd x \<noteq> Failed) os) = 0 \<longleftrightarrow> list_all (\<lambda>x. snd x = Failed) os"
    by (auto simp: filter_empty_conv list_all_iff)
  with os that[of os r' w'] show thesis by (simp add: ResolveAll_def bindA_def)
qed

lemma ResolveAll_Inr:
  assumes "ResolveAll D r domains w = (q, w')"
  shows "\<exists>results err r'. q = Inr (results, err, r') \<and> cache r' = cache r \<and> fst ` set results \<subseteq> set domains \<and>
    list_all (good_entry (cache r)) results \<and> {d \<in> set domains. cached (cache r) d} \<subseteq> fst ` set results \<and>
    (results = [] \<longrightarrow> err \<noteq> None) \<and>
    (err = None \<longrightarrow> fst ` set results = set domains \<and> list_all (\<lambda>x. list_all addr_text (snd x)) results)"
proof -
  obtain os r' w2 where os: "map fst os = domains" "list_all (outcome_ok (cache r)) os" "cache r' = cache r"
    "ResolveAll D r domains w = (Inr (if list_all (\<lambda>x. snd x = Failed) os then ([], Some (Errorf ''failed to resolve any domains'' []), r')
       else (fold store os [], if list_all (\<lambda>x. is_fresh (snd x)) os then None else Some (Errorf ''some domains failed to resolve'' []), r')), w2)"
    by (rule ResolveAll_outcomes)
  have nc: "\<not> cached (cache r) d" if "(d, Failed) \<in> set os" for d
    using os(2) that by (auto simp: list_all_iff cached_def)
  have d: "set domains = fst ` set os" using os(1) by (metis list.set_map)
  show ?thesis
  proof (cases "list_all (\<lambda>x. snd x = Failed) os")
    case True
    then have "{d \<in> set domains. cached (cache r) d} = {}" using nc d by (auto simp: list_all_iff)
    with True os assms show ?thesis by simp
  next
    case False
    let ?res = "fold store os []"
    have k: "fst ` set ?res = fst ` {x \<in> set os. snd x \<noteq> Failed}" using fold_store(2)[of os "[]"] by simp
    have "?res \<noteq> []" using False k by (force simp: list_all_iff)
    moreover have "list_all (good_entry (cache r)) ?res" using fold_store(1)[OF os(2), of "[]"] by simp
    moreover have "{d \<in> set domains. cached (cache r) d} \<subseteq> fst ` set ?res" using nc unfolding k d by force
    moreover have "fst ` set ?res = set domains \<and> list_all (\<lambda>x. list_all addr_text (snd x)) ?res" if "list_all (\<lambda>x. is_fresh (snd x)) os"
    proof -
      have "\<forall>x \<in> set os. snd x \<noteq> Failed" using that by (auto simp: list_all_iff)
      then have "{x \<in> set os. snd x \<noteq> Failed} = set os" by blast
      with k d fold_fresh[OF os(2) that, of "[]"] show ?thesis by simp
    qed
    moreover have "fst ` set ?res \<subseteq> set domains" using k d by auto
    moreover have "q = Inr (?res, if list_all (\<lambda>x. is_fresh (snd x)) os then None else Some (Errorf ''some domains failed to resolve'' []), r')"
      using assms os(4) False by simp
    ultimately show ?thesis using os(3) by auto
  qed
qed

section \<open>Properties\<close>

text \<open>A resolver for the witnesses: it knows one name.\<close>

definition demoDNS :: "unit dnsenv" where
  "demoDNS = \<lparr>dns_servers = retA [''127.0.0.53:53''],
     dns_exchange = (\<lambda>domain server. if domain = ''a.io.'' then retA \<lparr>Rcode = 0, Answer = [RR_A 0x01020304 30]\<rparr>
       else failA (ExtErr ''timeout'')),
     LookupIP = (\<lambda>domain. failA (ExtErr ''no such host''))\<rparr>"

text \<open>Answers and their time to live: \<open>parseARecords\<close> succeeds exactly when the answer has an A
  record; it returns the addresses in order and the least TTL of the A records, raised to the
  floor of 60 seconds.\<close>

theorem answers_have_floor:
  "parseARecords resp = Inr res \<longleftrightarrow> addrs_of (Answer resp) \<noteq> [] \<and>
     res = \<lparr>IPs = map ip4_string (addrs_of (Answer resp)), TTL = max MinTTLFloor (Min (set (ttls_of (Answer resp))))\<rparr>"
  by (rule parseARecords_Inr)

text \<open>Resolution with cache fallback: \<open>ResolveAll\<close> always returns; its results name only requested
  names, each with fresh IPv4 texts or with exactly the cached addresses; every name the cache
  knows is among them; without an error all names were resolved freshly, and an empty result
  always comes with an error. The cache itself is not changed.\<close>

theorem resolve_all_sound:
  assumes "ResolveAll D r domains w = (q, w')"
  shows "\<exists>results err r'. q = Inr (results, err, r') \<and> cache r' = cache r \<and> fst ` set results \<subseteq> set domains \<and>
    list_all (good_entry (cache r)) results \<and> {d \<in> set domains. cached (cache r) d} \<subseteq> fst ` set results \<and>
    (results = [] \<longrightarrow> err \<noteq> None) \<and>
    (err = None \<longrightarrow> fst ` set results = set domains \<and> list_all (\<lambda>x. list_all addr_text (snd x)) results)"
  using assms by (rule ResolveAll_Inr)

lemma resolve_all_sound_witness:
  "\<exists>results err r'. fst (ResolveAll demoDNS (NewResolver (emptyCache\<lparr>Domains := [(''b.io'', [''5.6.7.8''])]\<rparr>)) [''a.io'', ''b.io''] ()) =
     Inr (results, err, r') \<and> ''b.io'' \<in> fst ` set results \<and> fst ` set results \<subseteq> {''a.io'', ''b.io''}"
proof -
  let ?r = "NewResolver (emptyCache\<lparr>Domains := [(''b.io'', [''5.6.7.8''])]\<rparr>)"
  obtain q w' where r: "ResolveAll demoDNS ?r [''a.io'', ''b.io''] () = (q, w')" by (rule prod.exhaust)
  have "''b.io'' \<in> {d \<in> set [''a.io'', ''b.io'']. cached (cache ?r) d}"
    by (simp add: cached_def NewResolver_def emptyCache_def)
  with resolve_all_sound[OF r] r show ?thesis by fastforce
qed

text \<open>The refresh schedule follows the least known TTL: \<open>GetMinTTL\<close> is the least TTL above 0 of the
  resolver's names, whatever the order of the map, and 0 when none is known.\<close>

theorem min_ttl_least:
  "GetMinTTL r = (let X = {t \<in> snd ` set (DomainTTLs r). t \<noteq> 0} in if X = {} then 0 else Min X)"
  by (rule GetMinTTL_min)

end
