(* ===== verification/NetManager.thy ===== *)
theory NetManager
  imports Resolver
begin

text \<open>
  The network manager of a container, \<open>internal/network/manager.go\<close>: the three modes, the
  order in which isolation is installed and the boot block lifted, the addresses that go to
  the firewall and to the container's hosts file, the refresher and the teardown; with the
  parsers for the bridge and the gateway (\<open>GetIncusBridgeName\<close> of \<open>nft_filter.go\<close>).

  The manager is a Go struct that its methods update: an action works on a pair of the world
  and the \<open>Manager\<close>, so that what a failed method has already changed stays visible.
\<close>

section \<open>The manager and what it uses\<close>

record Manager =
  mconfig :: NetworkConfig
  mnft :: "NftManager option"
  mresolver :: "Resolver option"
  mcontainerName :: string
  mcontainerIP :: string
  miptables :: string
  mpolicy :: "AllowPolicy option"
  mrefresher :: bool \<comment> \<open>\<open>refreshCancel\<close> is set\<close>

definition NewManager :: "NetworkConfig \<Rightarrow> Manager" where
  "NewManager cfg = \<lparr>mconfig = cfg, mnft = None, mresolver = None, mcontainerName = [], mcontainerIP = [],
     miptables = [], mpolicy = None, mrefresher = False\<rparr>"

text \<open>
  The parameters beyond the packet filter, the host and the container: the output of
  \<open>incus\<close>, the running containers as \<open>json.Unmarshal\<close> gives them (\<open>None\<close> for a parse error),
  the probes, the iptables fallback, the sysctl in the container, the cache file and the clock.
\<close>

record 'w mgrenv =
  NftAvailable :: bool
  NeedsIptables :: bool
  IncusOutput :: "string list \<Rightarrow> ('w, string) act"
  ParseContainers :: "string \<Rightarrow> (string \<times> string) list option"
  DisableIPv6 :: "string \<Rightarrow> ('w, unit) act"
  EnsureIptables :: "string \<Rightarrow> ('w, unit) act"
  RemoveIptables :: "string \<Rightarrow> ('w, unit) act"
  CacheLoad :: "string \<Rightarrow> ('w, IPCache) act"
  CacheSave :: "string \<Rightarrow> IPCache \<Rightarrow> ('w, unit) act"
  Now :: "('w, int) act"

text \<open>All of them together.\<close>

record 'w netsys =
  nE :: "'w netenv"
  nH :: "'w hostenv"
  nC :: "'w ctenv"
  nD :: "'w dnsenv"
  nM :: "'w mgrenv"

section \<open>Actions of the manager\<close>

type_synonym ('w, 'a) mact = "('w \<times> Manager, 'a) act"

text \<open>An action of the world, run by the manager.\<close>

definition inW :: "('w, 'a) act \<Rightarrow> ('w, 'a) mact" where
  "inW m s = (case s of (w, mg) \<Rightarrow> (case m w of (r, w') \<Rightarrow> (r, (w', mg))))"

definition getM :: "('w, Manager) mact" where
  "getM s = (Inr (snd s), s)"

definition modM :: "(Manager \<Rightarrow> Manager) \<Rightarrow> ('w, unit) mact" where
  "modM f s = (Inr (), (fst s, f (snd s)))"

section \<open>Bridge and gateway\<close>

text \<open>The inner loop of \<open>GetIncusBridgeName\<close>: the next lines (nine at most).\<close>

fun bridgeIn :: "string list \<Rightarrow> string option" where
  "bridgeIn [] = None"
| "bridgeIn (l # ls) = (if str_contains l ''network:'' then
     (case str_split l '':'' of _ # p # _ \<Rightarrow> Some (trim_space p) | _ \<Rightarrow> bridgeIn ls) else bridgeIn ls)"

fun bridgeLines :: "string list \<Rightarrow> string option" where
  "bridgeLines [] = None"
| "bridgeLines (l # ls) = (if trim_space l = ''eth0:'' then bridgeIn (take 9 ls) else bridgeLines ls)"

definition parseBridgeName :: "string \<Rightarrow> string result" where
  "parseBridgeName profileOutput = (case bridgeLines (str_split profileOutput [NL]) of
     Some name \<Rightarrow> Inr name
   | None \<Rightarrow> Inl (Errorf ''could not determine network/bridge name from default profile'' []))"

definition GetIncusBridgeName :: "'w netsys \<Rightarrow> ('w, string) act" where
  "GetIncusBridgeName N = bindA (wrapA ''failed to get default profile''
     (IncusOutput (nM N) [''profile'', ''device'', ''show'', ''default''])) (\<lambda>out. liftA (parseBridgeName out))"

fun gatewayLines :: "string list \<Rightarrow> string result option" where
  "gatewayLines [] = None"
| "gatewayLines (line0 # ls) = (let line = trim_space line0 in
     if has_prefix line ''ipv4.address:'' then
       (let addressWithMask = trim_space (trim_prefix line ''ipv4.address:'');
            gatewayIP = (case str_index addressWithMask ''/'' of Some idx \<Rightarrow> take idx addressWithMask | None \<Rightarrow> addressWithMask)
        in Some (if net_ParseIP gatewayIP = None
             then Inl (Errorf ''invalid IPv4 address extracted: %s'' [gatewayIP]) else Inr gatewayIP))
     else gatewayLines ls)"

definition getContainerGatewayIP :: "'w netsys \<Rightarrow> string \<Rightarrow> ('w, string) act" where
  "getContainerGatewayIP N containerName =
     bindA (GetIncusBridgeName N) (\<lambda>networkName.
     bindA (wrapA ''failed to get network info'' (IncusOutput (nM N) [''network'', ''show'', networkName])) (\<lambda>out.
       liftA (case gatewayLines (str_split out [NL]) of
           Some r \<Rightarrow> r
         | None \<Rightarrow> Inl (Errorf ''could not find ipv4.address in network %s'' [networkName]))))"

definition otherContainersRunning :: "'w netsys \<Rightarrow> string \<Rightarrow> string \<Rightarrow> bool" where
  "otherContainersRunning N json excludeName = (case ParseContainers (nM N) json of
     None \<Rightarrow> True
   | Some cs \<Rightarrow> \<exists>c \<in> set cs. fst c \<noteq> excludeName \<and> snd c = ''Running'')"

section \<open>Names into firewall and hosts file\<close>

definition NftUsable :: "'w netsys \<Rightarrow> NetworkConfig \<Rightarrow> bool" where
  "NftUsable N cfg \<longleftrightarrow> SudoAllowed cfg \<and> sudo_on (nE N) \<and> NftAvailable (nM N)"

definition dynamicElementLifetimeInterval :: int where
  "dynamicElementLifetimeInterval = 0"

text \<open>One name of \<open>syncResolved\<close>: the manager's sets get its addresses on its ports.\<close>

definition allowNames :: "'w netsys \<Rightarrow> portRange list \<Rightarrow> (string \<times> string list) \<Rightarrow> ('w, unit) mact" where
  "allowNames N globalPorts e = (case e of (domain, ips) \<Rightarrow> if length ips = 0 then retA () else
     bindA getM (\<lambda>m. bindA (inW (Now (nM N))) (\<lambda>now.
       let ttl = (case mresolver m of None \<Rightarrow> 0 | Some r \<Rightarrow>
             (case map_of (DomainTTLs r) domain of Some t \<Rightarrow> t | None \<Rightarrow> 0));
           entryPorts = (case mpolicy m of Some p \<Rightarrow> PortsForName p domain | None \<Rightarrow> []);
           ports = resolvePorts entryPorts globalPorts
       in (case mnft m of None \<Rightarrow> retA ()
         | Some f \<Rightarrow> bindA (inW (AllowDynamicIPsPorts (nE N) f ips ports ttl dynamicElementLifetimeInterval now)) (\<lambda>(r, f').
             thenA (modM (\<lambda>m. m\<lparr>mnft := Some f'\<rparr>))
               (wrapA (''failed to allow addresses for '' @ domain) (liftA r)))))))"

definition syncResolved :: "'w netsys \<Rightarrow> domain_ips \<Rightarrow> ('w, unit) mact" where
  "syncResolved N domainIPs =
     bindA getM (\<lambda>m. let globalPorts = intsToPortRanges (AllowedPorts (mconfig m)) in
       thenA (forA (allowNames N globalPorts) domainIPs)
         (if mcontainerName m = [] then retA ()
          else wrapA (''failed to write the container's hosts entries'')
            (inW (WriteAllowlistHosts (nC N) (mcontainerName m) domainIPs))))"

text \<open>Resolve through the resolver the manager holds; it keeps what the resolver learned.\<close>

definition resolveNames :: "'w netsys \<Rightarrow> string list \<Rightarrow> ('w, domain_ips \<times> gerr option) mact" where
  "resolveNames N ns = bindA getM (\<lambda>m. case mresolver m of
       None \<Rightarrow> retA ([], None)
     | Some r \<Rightarrow> bindA (inW (ResolveAll (nD N) r ns)) (\<lambda>(results, err, r').
         thenA (modM (\<lambda>m. m\<lparr>mresolver := Some r'\<rparr>)) (retA (results, err))))"

text \<open>\<open>UpdateCache\<close> and \<open>Save\<close>, whose failure is only logged.\<close>

definition saveCache :: "'w netsys \<Rightarrow> domain_ips \<Rightarrow> ('w, unit) mact" where
  "saveCache N domainIPs =
     bindA (inW (Now (nM N))) (\<lambda>now.
     thenA (modM (\<lambda>m. m\<lparr>mresolver := map_option (UpdateCache now domainIPs) (mresolver m)\<rparr>))
     (bindA getM (\<lambda>m. case mresolver m of None \<Rightarrow> retA ()
       | Some r \<Rightarrow> warnA (inW (CacheSave (nM N) (mcontainerName m) (cache r))))))"

definition installNames :: "'w netsys \<Rightarrow> string \<Rightarrow> ('w, unit) mact" where
  "installNames N containerName =
     bindA getM (\<lambda>m0. let ns = (case mpolicy m0 of Some p \<Rightarrow> names p | None \<Rightarrow> []) in
     bindA (tryA (inW (CacheLoad (nM N) containerName))) (\<lambda>c.
     thenA (modM (\<lambda>m. m\<lparr>mresolver := Some (NewResolver (case c of Inr c \<Rightarrow> c | Inl _ \<Rightarrow> emptyCache))\<rparr>))
     (if length ns = 0 then retA () else
      bindA (resolveNames N ns) (\<lambda>(domainIPs, err).
        if err \<noteq> None \<and> length domainIPs = 0
        then failA (Wrapf ''failed to resolve any allowlisted hostname'' (the err))
        else thenA (syncResolved N domainIPs) (saveCache N domainIPs)))))"

definition refreshAllowedIPs :: "'w netsys \<Rightarrow> ('w, 32 word) mact" where
  "refreshAllowedIPs N =
     bindA getM (\<lambda>m. case (mpolicy m, mresolver m) of
         (Some p, Some r0) \<Rightarrow>
           if length (names p) = 0 then retA 0 else
           bindA (resolveNames N (names p)) (\<lambda>(newIPs, err).
             if err \<noteq> None \<and> length newIPs = 0 then failA (Errorf ''failed to resolve any domains'' [])
             else thenA (syncResolved N newIPs)
               (thenA (saveCache N newIPs)
               (bindA getM (\<lambda>m'. retA (case mresolver m' of Some r \<Rightarrow> GetMinTTL r | None \<Rightarrow> 0)))))
       | _ \<Rightarrow> retA 0)"

definition computeRefreshInterval :: "NetworkConfig \<Rightarrow> 32 word \<Rightarrow> int" where
  "computeRefreshInterval cfg minTTL =
     (let configInterval = RefreshIntervalMinutes cfg * (60 * second) in
      if minTTL = 0 then configInterval
      else (let ttlInterval = uint minTTL * second in
        if ttlInterval < configInterval then ttlInterval else configInterval))"

text \<open>\<open>startRefresher\<close>: whether the goroutine runs, and with which first interval. One wake-up of
  its timer is \<open>refreshTick\<close>, which gives the next interval (an error is logged and counts as TTL 0).\<close>

definition startRefresher :: "32 word \<Rightarrow> ('w, int option) mact" where
  "startRefresher initialMinTTL = bindA getM (\<lambda>m.
     if RefreshIntervalMinutes (mconfig m) \<le> 0 then retA None
     else thenA (modM (\<lambda>m. m\<lparr>mrefresher := True\<rparr>))
       (retA (Some (computeRefreshInterval (mconfig m) initialMinTTL))))"

definition refreshTick :: "'w netsys \<Rightarrow> ('w, int) mact" where
  "refreshTick N = bindA (tryA (refreshAllowedIPs N)) (\<lambda>r. bindA getM (\<lambda>m.
     retA (computeRefreshInterval (mconfig m) (case r of Inr t \<Rightarrow> t | Inl _ \<Rightarrow> 0))))"

definition stopRefresher :: "('w, unit) mact" where
  "stopRefresher = modM (\<lambda>m. m\<lparr>mrefresher := False\<rparr>)"

section \<open>The modes\<close>

definition errNftNotAvailable :: gerr where
  "errNftNotAvailable = Errorf ''nft is not available or passwordless sudo is not configured'' []"

text \<open>\<open>purgeStaleRulesForIP\<close>: a failure is only logged.\<close>

definition purgeStaleRulesForIP :: "'w netsys \<Rightarrow> string \<Rightarrow> ('w, unit) act" where
  "purgeStaleRulesForIP N ip = (if ip = [] then retA () else warnA (DeleteCOIFilterRulesForIP (nE N) ip))"

definition removeBootBlock :: "'w netsys \<Rightarrow> string \<Rightarrow> ('w, unit) act" where
  "removeBootBlock N containerName = warnA (RemoveBootBlockRule (nE N) containerName)"

definition applyUserHosts :: "'w netsys \<Rightarrow> string \<Rightarrow> ('w, unit) mact" where
  "applyUserHosts N containerName = bindA getM (\<lambda>m. let cfg = mconfig m in
     if length (Hosts cfg) = 0 then retA () else
     wrapA ''failed to apply [[network.hosts]]'' (inW (ApplyUserHosts (nE N) (nC N) containerName (Mode cfg)
       (BoolVal (AllowLocalNetworkAccess cfg)) (Hosts cfg) (AllowedPorts cfg))))"

text \<open>What the two enforcing modes share: the IPv6 boundary, a fresh filter manager, the purge.\<close>

definition enterEnforcing :: "'w netsys \<Rightarrow> string \<Rightarrow> string \<Rightarrow> string \<Rightarrow> ('w, unit) mact" where
  "enterEnforcing N containerName ip gw =
     thenA (inW (warnA (DisableIPv6 (nM N) containerName)))
    (thenA (wrapA ''failed to enforce IPv6 egress block'' (inW (ApplyIPv6BlockForContainer (nE N) (nH N) containerName)))
    (thenA (modM (\<lambda>m. m\<lparr>mnft := Some (NewNftManager ip gw)\<rparr>))
      (inW (purgeStaleRulesForIP N ip))))"

definition setupRestricted :: "'w netsys \<Rightarrow> string \<Rightarrow> ('w, unit) mact" where
  "setupRestricted N containerName = bindA getM (\<lambda>m. let cfg = mconfig m in
     if \<not> NftUsable N cfg then failA errNftNotAvailable else
     bindA (wrapA ''failed to get container IP'' (inW (GetContainerIP (nC N) containerName))) (\<lambda>ip.
     thenA (modM (\<lambda>m. m\<lparr>mcontainerIP := ip\<rparr>))
     (bindA (tryA (inW (getContainerGatewayIP N containerName))) (\<lambda>g.
       let gw = (case g of Inr gw \<Rightarrow> gw | Inl _ \<Rightarrow> []) in
       thenA (enterEnforcing N containerName ip gw)
         (wrapA ''failed to apply nft rules'' (inW (ApplyRestricted (nE N) (NewNftManager ip gw) cfg)))))))"

definition setupAllowlist :: "'w netsys \<Rightarrow> string \<Rightarrow> ('w, unit) mact" where
  "setupAllowlist N containerName = bindA getM (\<lambda>m. let cfg = mconfig m in
     if \<not> NftUsable N cfg then failA errNftNotAvailable
     else if length (AllowedDomains cfg) = 0 then failA (Errorf ''allowlist mode requires at least one allowed domain'' [])
     else if length (DNSServers cfg) > 0 then failA (Errorf ''network.dns_servers is not compatible with allowlist mode'' [])
     else bindA (wrapA ''invalid allowed_domains'' (liftA (NewAllowPolicy (AllowedDomains cfg)))) (\<lambda>policy.
       thenA (modM (\<lambda>m. m\<lparr>mpolicy := Some policy\<rparr>))
      (bindA (wrapA ''failed to get container IP'' (inW (GetContainerIP (nC N) containerName))) (\<lambda>ip.
       thenA (modM (\<lambda>m. m\<lparr>mcontainerIP := ip\<rparr>))
      (bindA (wrapA ''failed to determine gateway IP (required for allowlist mode)''
                (inW (getContainerGatewayIP N containerName))) (\<lambda>gw.
       thenA (enterEnforcing N containerName ip gw)
      (thenA (wrapA ''failed to apply nft rules''
                (inW (ApplyAllowlist (nE N) (NewNftManager ip gw) cfg (staticCIDRs policy))))
      (thenA (installNames N containerName)
      (bindA getM (\<lambda>m'. bindA (startRefresher (case mresolver m' of Some r \<Rightarrow> GetMinTTL r | None \<Rightarrow> 0)) (\<lambda>_. retA ())))))))))))"

text \<open>Open mode: everything the firewall part can fail with is only logged.\<close>

definition setupOpen :: "'w netsys \<Rightarrow> string \<Rightarrow> ('w, unit) mact" where
  "setupOpen N containerName = bindA getM (\<lambda>m. let cfg = mconfig m in
     if NftUsable N cfg then
       bindA (tryA (inW (GetContainerIP (nC N) containerName))) (\<lambda>r. case r of
           Inl _ \<Rightarrow> retA ()
         | Inr ip \<Rightarrow>
           thenA (modM (\<lambda>m. m\<lparr>mcontainerIP := ip, mnft := Some (NewNftManager ip [])\<rparr>))
          (thenA (inW (purgeStaleRulesForIP N ip))
            (inW (warnA (EnsureOpenModeRules (nE N) ip)))))
     else if SudoAllowed cfg \<and> NeedsIptables (nM N) then
       bindA (tryA (inW (GetIncusBridgeName N))) (\<lambda>r. case r of
           Inl _ \<Rightarrow> retA ()
         | Inr bridge \<Rightarrow> bindA (tryA (inW (EnsureIptables (nM N) bridge))) (\<lambda>q. case q of
               Inl _ \<Rightarrow> retA ()
             | Inr _ \<Rightarrow> modM (\<lambda>m. m\<lparr>miptables := bridge\<rparr>)))
     else retA ())"

text \<open>\<open>SetupForContainer\<close>: on an error of the enforcing modes the boot block stays.\<close>

definition SetupForContainer :: "'w netsys \<Rightarrow> string \<Rightarrow> ('w, unit) mact" where
  "SetupForContainer N containerName =
     thenA (modM (\<lambda>m. m\<lparr>mcontainerName := containerName\<rparr>))
    (bindA getM (\<lambda>m. let mode = Mode (mconfig m) in
       thenA (if mode = NetworkModeOpen then setupOpen N containerName
              else if mode = NetworkModeRestricted then setupRestricted N containerName
              else if mode = NetworkModeAllowlist then setupAllowlist N containerName
              else failA (Errorf ''unknown network mode: %s'' [mode]))
      (thenA (applyUserHosts N containerName)
        (inW (removeBootBlock N containerName)))))"

section \<open>Teardown\<close>

text \<open>The rules of the iptables fallback go only when no other container is running; unknown
  counts as running.\<close>

definition teardownIptables :: "'w netsys \<Rightarrow> string \<Rightarrow> ('w, unit) mact" where
  "teardownIptables N containerName = bindA getM (\<lambda>m. if miptables m = [] then retA () else
     bindA (tryA (inW (IncusOutput (nM N) [''list'', ''--format=json'']))) (\<lambda>r.
       if (case r of Inr out \<Rightarrow> otherContainersRunning N out containerName | Inl _ \<Rightarrow> True) then retA ()
       else inW (warnA (RemoveIptables (nM N) (miptables m)))))"

text \<open>The open-mode preamble of \<open>Teardown\<close>; its result says whether to go on.\<close>

definition teardownOpen :: "'w netsys \<Rightarrow> string \<Rightarrow> ('w, bool) mact" where
  "teardownOpen N containerName = bindA getM (\<lambda>m.
     if Mode (mconfig m) \<noteq> NetworkModeOpen then retA True
     else if \<not> NftUsable N (mconfig m) \<and> miptables m = [] then retA False
     else bindA (if mcontainerIP m \<noteq> [] then retA True else
         bindA (tryA (inW (GetContainerIP (nC N) containerName))) (\<lambda>r. case r of
             Inl _ \<Rightarrow> retA False
           | Inr ip \<Rightarrow> thenA (modM (\<lambda>m. m\<lparr>mcontainerIP := ip\<rparr>)) (retA True))) (\<lambda>go.
       if go then thenA (modM (\<lambda>m. if mnft m = None then m\<lparr>mnft := Some (NewNftManager (mcontainerIP m) [])\<rparr> else m)) (retA True)
       else retA False))"

definition Teardown :: "'w netsys \<Rightarrow> string \<Rightarrow> ('w, unit) mact" where
  "Teardown N containerName =
     thenA stopRefresher
    (thenA (teardownIptables N containerName)
    (bindA (teardownOpen N containerName) (\<lambda>go. if \<not> go then retA () else
       bindA getM (\<lambda>m.
       thenA (case mnft m of None \<Rightarrow> retA () | Some f \<Rightarrow> inW (warnA (RemoveRules (nE N) f)))
      (thenA (inW (warnA (RemoveIPv6BlockForContainer (nE N) containerName)))
        (inW (removeBootBlock N containerName)))))))"

end
