(* ===== verification/GoPath.thy ===== *)
theory GoPath
  imports GoStrings
begin

text \<open>
  The lexical path functions of Go's \<open>path/filepath\<close> package the sources call (on Unix).
\<close>

section \<open>Clean\<close>

text \<open>
  One element of a path against the elements kept so far (innermost first): empty and
  \<open>.\<close> elements vanish, \<open>..\<close> drops the element before it, stays in front of a relative
  path and vanishes at the root.
\<close>

definition clean_step :: "bool \<Rightarrow> string \<Rightarrow> string list \<Rightarrow> string list" where
  "clean_step rooted e st =
     (if e = [] \<or> e = ''.'' then st
      else if e = ''..'' then
        (case st of [] \<Rightarrow> if rooted then [] else [e]
         | t # ts \<Rightarrow> if t = ''..'' then e # st else ts)
      else e # st)"

definition is_abs :: "string \<Rightarrow> bool" where
  "is_abs p = has_prefix p ''/''"

definition clean_parts :: "string \<Rightarrow> string list" where
  "clean_parts p = rev (fold (clean_step (is_abs p)) (str_split p ''/'') [])"

definition render_path :: "bool \<Rightarrow> string list \<Rightarrow> string" where
  "render_path rooted es =
     (if rooted then CHR ''/'' # str_join ''/'' es
      else if es = [] then ''.'' else str_join ''/'' es)"

definition path_clean :: "string \<Rightarrow> string" where
  "path_clean p = render_path (is_abs p) (clean_parts p)"

text \<open>\<open>filepath.Join\<close> ignores empty elements; \<open>filepath.Dir\<close> is all but the last element.\<close>

definition path_join :: "string list \<Rightarrow> string" where
  "path_join es = (let ne = filter (\<lambda>e. e \<noteq> []) es in
     if ne = [] then [] else path_clean (str_join ''/'' ne))"

definition path_dir :: "string \<Rightarrow> string" where
  "path_dir p = path_clean (case last_index p (CHR ''/'') of None \<Rightarrow> [] | Some i \<Rightarrow> take (Suc i) p)"

section \<open>Normal forms\<close>

text \<open>
  Cleaning gives a normal form: elements that are names, after leading \<open>..\<close> in a relative
  path; cleaning again changes nothing.
\<close>

definition plain_elem :: "string \<Rightarrow> bool" where
  "plain_elem e \<longleftrightarrow> e \<noteq> [] \<and> e \<noteq> ''.'' \<and> e \<noteq> ''..'' \<and> CHR ''/'' \<notin> set e"

fun normal_stack :: "bool \<Rightarrow> string list \<Rightarrow> bool" where
  "normal_stack rooted [] = True"
| "normal_stack rooted (e # st) = (normal_stack rooted st \<and>
     (plain_elem e \<or> e = ''..'' \<and> \<not> rooted \<and> list_all (\<lambda>x. x = ''..'') st))"

lemma clean_step_normal:
  assumes "normal_stack r st" and "CHR ''/'' \<notin> set e"
  shows "normal_stack r (clean_step r e st)"
  using assms by (cases st) (auto simp: clean_step_def plain_elem_def)

lemma clean_fold_normal:
  "normal_stack r st \<Longrightarrow> (\<And>e. e \<in> set es \<Longrightarrow> CHR ''/'' \<notin> set e) \<Longrightarrow>
   normal_stack r (fold (clean_step r) es st)"
proof (induction es arbitrary: st)
  case (Cons e es)
  have "normal_stack r (clean_step r e st)" using Cons.prems by (intro clean_step_normal) auto
  with Cons show ?case by simp
qed simp

lemma clean_parts_normal: "normal_stack (is_abs p) (rev (clean_parts p))"
  unfolding clean_parts_def rev_rev_ident
  by (rule clean_fold_normal) (auto dest: str_split_char_parts)

lemma clean_step_push: "normal_stack r (e # st) \<Longrightarrow> clean_step r e st = e # st"
  by (cases st) (auto simp: clean_step_def plain_elem_def)

lemma normal_stack_tl: "normal_stack r (xs @ st) \<Longrightarrow> normal_stack r st"
  by (induction xs) auto

lemma clean_fold_id:
  "normal_stack r (rev es @ st) \<Longrightarrow> fold (clean_step r) es st = rev es @ st"
proof (induction es arbitrary: st)
  case (Cons e es)
  then have n: "normal_stack r (rev es @ e # st)" by simp
  from Cons.IH[OF n] clean_step_push[OF normal_stack_tl[OF n]] show ?case by simp
qed simp

lemma normal_stack_elems: "normal_stack r st \<Longrightarrow> e \<in> set st \<Longrightarrow> CHR ''/'' \<notin> set e \<and> e \<noteq> []"
  by (induction st) (auto simp: plain_elem_def)

lemma clean_parts_render:
  assumes n: "normal_stack r (rev es)"
  shows "is_abs (render_path r es) = r" and "clean_parts (render_path r es) = es"
proof -
  have el: "\<And>e. e \<in> set es \<Longrightarrow> CHR ''/'' \<notin> set e \<and> e \<noteq> []"
    using normal_stack_elems[OF n] by simp
  have abs: "is_abs (str_join ''/'' es) = False" if ne: "es \<noteq> []"
  proof -
    obtain e xs where e: "es = e # xs" using ne by (cases es) auto
    with el[of e] obtain x y where "e = x # y" "x \<noteq> CHR ''/''" by (cases e) auto
    with e show ?thesis by (cases xs) (auto simp: is_abs_def has_prefix_def)
  qed
  show a: "is_abs (render_path r es) = r"
    using abs by (auto simp: render_path_def is_abs_def has_prefix_def)
  have split: "str_split (str_join ''/'' es) ''/'' = es" if "es \<noteq> []"
    using that el by (intro split_join_char) auto
  have "fold (clean_step r) (str_split (render_path r es) ''/'') [] = rev es"
  proof (cases "es = []")
    case True
    then show ?thesis
      using str_split_char_app[of "CHR ''/''" "[]" "[]"]
      by (cases r) (simp_all add: render_path_def str_split_char_notin clean_step_def)
  next
    case False
    have "str_split (render_path r es) ''/'' = (if r then [] # es else es)"
      using False split str_split_char_app[of "CHR ''/''" "[]" "str_join ''/'' es"]
      by (simp add: render_path_def)
    then show ?thesis using clean_fold_id[of r es "[]"] n by (cases r) (simp_all add: clean_step_def)
  qed
  with a show "clean_parts (render_path r es) = es" by (simp add: clean_parts_def)
qed

lemma path_clean_normal: "is_abs (path_clean p) = is_abs p" "clean_parts (path_clean p) = clean_parts p"
  using clean_parts_render[OF clean_parts_normal] by (simp_all add: path_clean_def)

lemma path_clean_idem [simp]: "path_clean (path_clean p) = path_clean p"
  by (simp add: path_clean_def[of "path_clean p"] path_clean_normal) (simp add: path_clean_def)

lemma path_clean_abs: "is_abs p \<Longrightarrow> path_clean p = CHR ''/'' # str_join ''/'' (clean_parts p)"
  by (simp add: path_clean_def render_path_def)

lemma clean_parts_plain: "is_abs p \<Longrightarrow> e \<in> set (clean_parts p) \<Longrightarrow> plain_elem e"
proof -
  have "normal_stack True st \<Longrightarrow> list_all plain_elem st" for st by (induction st) auto
  from this[of "rev (clean_parts p)"] clean_parts_normal[of p]
  show "is_abs p \<Longrightarrow> e \<in> set (clean_parts p) \<Longrightarrow> plain_elem e" by (simp add: list_all_iff)
qed

text \<open>Absolute clean paths are prefixes of each other exactly as their elements are.\<close>

lemma str_join_append:
  "ys \<noteq> [] \<Longrightarrow> str_join [c] (ys @ z # zs) = str_join [c] ys @ c # str_join [c] (z # zs)"
proof (induction ys)
  case (Cons a ys)
  then show ?case by (cases ys) (auto simp: str_join_Cons)
qed simp

lemma str_join_prefix:
  assumes "\<And>e. e \<in> set xs \<union> set ys \<Longrightarrow> c \<notin> set e" and "xs \<noteq> []" "ys \<noteq> []"
  shows "has_prefix (str_join [c] xs @ [c]) (str_join [c] ys @ [c]) \<longleftrightarrow> (\<exists>zs. xs = ys @ zs)"
proof
  assume "has_prefix (str_join [c] xs @ [c]) (str_join [c] ys @ [c])"
  then obtain t where t: "str_join [c] xs @ [c] = str_join [c] ys @ c # t"
    by (auto simp: has_prefix_iff)
  show "\<exists>zs. xs = ys @ zs"
    using assms t
  proof (induction ys arbitrary: xs)
    case (Cons y ys)
    obtain x xs' where x: "xs = x # xs'" using Cons.prems(2) by (cases xs) auto
    define rx where "rx = (if xs' = [] then [] else str_join [c] xs' @ [c])"
    define ry where "ry = (if ys = [] then t else str_join [c] ys @ c # t)"
    have e: "x @ c # rx = y @ c # ry"
      using Cons.prems(4) x by (cases "xs' = []"; cases "ys = []") (simp_all add: rx_def ry_def str_join_Cons)
    have nx: "c \<notin> set x" "c \<notin> set y" using Cons.prems(1)[of x] Cons.prems(1)[of y] x by auto
    have "x = y \<and> rx = ry" using e nx by (auto simp: append_eq_append_conv2 Cons_eq_append_conv append_eq_Cons_conv)
    then have xy: "x = y" "rx = ry" by auto
    show ?case
    proof (cases "ys = []")
      case False
      with xy have "xs' \<noteq> []" by (auto simp: rx_def ry_def)
      with False xy Cons.IH[of xs'] Cons.prems(1) x
      have "\<exists>zs. xs' = ys @ zs" by (auto simp: rx_def ry_def)
      with x xy show ?thesis by auto
    qed (use x xy in auto)
  qed simp
next
  assume "\<exists>zs. xs = ys @ zs"
  then obtain zs where "xs = ys @ zs" by blast
  moreover note str_join_append
  ultimately show "has_prefix (str_join [c] xs @ [c]) (str_join [c] ys @ [c])"
    using assms(3) by (cases zs) (auto simp: has_prefix_iff)
qed

lemma path_prefix_parts:
  assumes "is_abs p" "is_abs q" and "clean_parts p \<noteq> []" "clean_parts q \<noteq> []"
  shows "has_prefix (path_clean p @ ''/'') (path_clean q @ ''/'') \<longleftrightarrow> (\<exists>zs. clean_parts p = clean_parts q @ zs)"
proof -
  have "\<And>e. e \<in> set (clean_parts p) \<union> set (clean_parts q) \<Longrightarrow> CHR ''/'' \<notin> set e"
    using clean_parts_plain assms(1,2) by (auto simp: plain_elem_def)
  from str_join_prefix[OF this assms(3,4)] show ?thesis
    using assms(1,2) by (simp add: path_clean_abs has_prefix_def)
qed

lemma path_clean_eq_parts:
  assumes "is_abs p" "is_abs q"
  shows "path_clean p = path_clean q \<longleftrightarrow> clean_parts p = clean_parts q"
  using path_clean_normal(2)[of p] path_clean_normal(2)[of q] assms by (metis path_clean_abs)

section \<open>The last element\<close>

definition path_base :: "string \<Rightarrow> string" where
  "path_base p = (if p = [] then ''.''
     else (let q = rev (dropWhile (\<lambda>c. c = CHR ''/'') (rev p)) in
       if q = [] then ''/'' else rev (takeWhile (\<lambda>c. c \<noteq> CHR ''/'') (rev q))))"

end
