(* ===== verification/ConfigTypes.thy ===== *)
theory ConfigTypes
  imports Complex_Main "HOL-Library.AList" ConfigNet GoPath
begin

text \<open>
  The configuration records of \<open>internal/config/types.go\<close>, before they are merged: a TOML
  table decoded into a struct. A Go map is an association list with distinct keys, a
  pointer an option. A slice whose \<open>nil\<close> value the merging tells from an empty one is an
  option of a list, any other slice a list. A \<open>float64\<close> threshold is only compared with
  zero and copied here; it is a rational number (TOML's \<open>nan\<close> is not modelled).
\<close>

type_synonym 'a gomap = "(string \<times> 'a) list"

section \<open>Sections\<close>

record PromptEntry =
  PText :: string
  PFile :: string

record BuildConfig =
  Base :: string
  Script :: string
  Commands :: "string list option"
  Compression :: string
  Agents :: "string list"

record ContainerConfig =
  Image :: string
  Persistent :: "bool option"
  ShutdownTimeout :: int
  ReadyTimeout :: int
  StoragePool :: string
  Alias :: string
  Build :: BuildConfig
  StaleBaseCheck :: string
  SessionName :: string

record TimezoneConfig =
  TzMode :: string
  TzName :: string

record SSHConfig =
  ForwardAgent :: "bool option"

record GitConfig =
  WritableHooks :: "bool option"
  GitName :: string
  GitEmail :: string
  SeedHostIdentity :: "bool option"
  GitReadonly :: "bool option"

record SecurityConfig =
  ProtectedPaths :: "string list"
  AdditionalProtectedPaths :: "string list"
  DisableProtection :: bool
  HostImmutable :: "bool option"
  WritablePaths :: "string list"
  SecretPaths :: "string list"

record ShellConfig =
  UseTmux :: "bool option"

record DetectionConfig =
  GTFOBinsSource :: string
  GTFOBinsDir :: string
  SigmaSource :: string
  SigmaDir :: string

record DefaultsConfig =
  DefaultProfile :: string
  DForwardEnv :: "string list"
  DEnvironment :: "string gomap"
  DEnvCommands :: "string gomap"
  EnvCommandTimeout :: string

record PathsConfig =
  SessionsDir :: string
  StorageDir :: string
  LogsDir :: string
  PreserveWorkspacePath :: bool

record IncusConfig =
  Project :: string
  Group :: string
  CodeUID :: int
  CodeUser :: string
  DisableShift :: bool

record ToolConfig =
  ToolName :: string
  Binary :: string
  PermissionMode :: string
  ContextFile :: string
  AutoContext :: "bool option"
  ContextJSON :: "bool option"
  ContextJSONFile :: string
  ClaudeEffort :: string
  ClaudeModel :: string
  CodexModel :: string
  CodexEffort :: string

text \<open>Entries that carry where they came from: \<open>Untrusted\<close> and \<open>SourcePath\<close> are never read from TOML.\<close>

record MountEntry =
  MHost :: string
  MContainer :: string
  MReadonly :: bool
  MUntrusted :: bool
  MSource :: string

record SocketEntry =
  SHost :: string
  SContainer :: string
  SEnv :: string
  SUntrusted :: bool
  SSource :: string

record CredentialEntry =
  CBundle :: string
  CHost :: string
  CContainer :: string
  CMode :: string
  CUntrusted :: bool
  CSource :: string

record PortEntry =
  PName :: string
  PContainer :: int
  PHost :: int
  PListen :: string
  PUntrusted :: bool
  PSource :: string

record PortsConfig =
  Pool :: int
  PortMap :: "PortEntry list"
  PoolUntrusted :: bool
  PoolSourcePath :: string
  PoolTrustedFallback :: int

record CPULimits =
  CPUCount :: string
  CPUAllowance :: string
  CPUPriority :: int

record MemoryLimits =
  MemLimit :: string
  MemEnforce :: string
  MemSwap :: string

record DiskLimits =
  DiskRead :: string
  DiskWrite :: string
  DiskMax :: string
  DiskPriority :: int
  DiskSize :: string
  TmpfsSize :: string

record RuntimeLimits =
  MaxDuration :: string
  MaxProcesses :: int
  AutoStop :: "bool option"
  StopGraceful :: "bool option"

record LimitsConfig =
  CPU :: CPULimits
  Memory :: MemoryLimits
  Disk :: DiskLimits
  Runtime :: RuntimeLimits

record NFTMonitoringConfig =
  NFTEnabled :: "bool option"
  RateLimitPerSecond :: int
  DNSQueryThreshold :: int
  LogDNSQueries :: "bool option"
  LimaHost :: string

record MonitoringConfig =
  MonEnabled :: "bool option"
  AutoPauseOnHigh :: "bool option"
  AutoKillOnCritical :: "bool option"
  PollIntervalSec :: int
  FileReadThresholdMB :: rat
  FileReadRateMBPerSec :: rat
  ProcessCountThreshold :: int
  ProcessSpawnRateThreshold :: "int option"
  AuditLogRetentionDays :: int
  NFT :: NFTMonitoringConfig

text \<open>
  The \<open>[network]\<close> table with its \<open>nil\<close> slices; \<open>netConfig\<close> reads it the way the network
  code does, which only looks at lengths and elements.
\<close>

record NetworkToml =
  NtMode :: string
  NtBlockPrivate :: "bool option"
  NtBlockMetadata :: "bool option"
  NtAllowedDomains :: "string list option"
  NtRefreshMinutes :: int
  NtAllowLocal :: "bool option"
  NtUseSudo :: "bool option"
  NtLogging :: NetworkLoggingConfig
  NtHosts :: "HostEntry list option"
  NtDNSServers :: "string list option"
  NtAllowedPorts :: "int list option"

definition slice :: "'a list option \<Rightarrow> 'a list" where
  "slice s = (case s of None \<Rightarrow> [] | Some xs \<Rightarrow> xs)"

lemma slice_simps [simp]: "slice None = []" "slice (Some xs) = xs"
  by (simp_all add: slice_def)

definition netConfig :: "NetworkToml \<Rightarrow> NetworkConfig" where
  "netConfig n = \<lparr> Mode = NtMode n, BlockPrivateNetworks = NtBlockPrivate n,
     BlockMetadataEndpoint = NtBlockMetadata n, AllowedDomains = slice (NtAllowedDomains n),
     RefreshIntervalMinutes = NtRefreshMinutes n, AllowLocalNetworkAccess = NtAllowLocal n,
     UseSudo = NtUseSudo n, Logging = NtLogging n, Hosts = slice (NtHosts n),
     DNSServers = slice (NtDNSServers n), AllowedPorts = slice (NtAllowedPorts n) \<rparr>"

section \<open>Profiles and the whole configuration\<close>

record ProfileConfig =
  Inherits :: string
  PrContainer :: ContainerConfig
  PrContext :: string
  PrEnvironment :: "string gomap"
  PrEnvCommands :: "string gomap"
  PrPrompts :: "PromptEntry gomap"
  PrLimits :: "LimitsConfig option"
  PrTool :: "ToolConfig option"
  PrMounts :: "MountEntry list option"
  PrSockets :: "SocketEntry list option"
  PrPorts :: "PortsConfig option"
  PrCredentials :: "CredentialEntry list option"
  PrNetwork :: "NetworkToml option"
  PrForwardEnv :: "string list option"
  PrSource :: string
  PrTrusted :: bool
  PrPaths :: "PathsConfig option"
  PrIncus :: "IncusConfig option"
  PrGit :: "GitConfig option"
  PrSSH :: "SSHConfig option"
  PrSecurity :: "SecurityConfig option"
  PrMonitoring :: "MonitoringConfig option"
  PrTimezone :: "TimezoneConfig option"
  PrShell :: "ShellConfig option"

record Config =
  Container :: ContainerConfig
  Defaults :: DefaultsConfig
  Paths :: PathsConfig
  Incus :: IncusConfig
  Network :: NetworkToml
  Tool :: ToolConfig
  Shell :: ShellConfig
  Mounts :: "MountEntry list"
  Sockets :: "SocketEntry list"
  Ports :: PortsConfig
  Credentials :: "CredentialEntry list"
  Limits :: LimitsConfig
  Git :: GitConfig
  SSH :: SSHConfig
  Security :: SecurityConfig
  Monitoring :: MonitoringConfig
  Timezone :: TimezoneConfig
  Detection :: DetectionConfig
  Prompts :: "PromptEntry gomap"
  Profiles :: "ProfileConfig gomap"
  ProfileContextFile :: string

section \<open>Methods of the records\<close>

text \<open>\<open>BuildConfig.HasBuildConfig\<close>, \<open>ContainerConfig\<close>'s accessors, \<open>GitConfig\<close>'s accessors.\<close>

definition HasBuildConfig :: "BuildConfig \<Rightarrow> bool" where
  "HasBuildConfig b \<longleftrightarrow> Script b \<noteq> [] \<or> slice (Commands b) \<noteq> []"

definition HasContainerConfig :: "ContainerConfig \<Rightarrow> bool" where
  "HasContainerConfig c \<longleftrightarrow> Image c \<noteq> [] \<or> Persistent c \<noteq> None \<or> ShutdownTimeout c \<noteq> 0 \<or>
     ReadyTimeout c \<noteq> 0 \<or> StoragePool c \<noteq> [] \<or> Alias c \<noteq> [] \<or> StaleBaseCheck c \<noteq> [] \<or>
     SessionName c \<noteq> [] \<or> HasBuildConfig (Build c)"

definition ShutdownTimeoutSeconds :: "ContainerConfig \<Rightarrow> int" where
  "ShutdownTimeoutSeconds c = (if ShutdownTimeout c \<le> 0 then 60 else ShutdownTimeout c)"

definition ReadyTimeoutSeconds :: "ContainerConfig \<Rightarrow> int" where
  "ReadyTimeoutSeconds c = (if ReadyTimeout c \<le> 0 then 30 else ReadyTimeout c)"

definition IsSeedHostIdentityEnabled :: "GitConfig option \<Rightarrow> bool" where
  "IsSeedHostIdentityEnabled g = (case g of None \<Rightarrow> True
     | Some c \<Rightarrow> (case SeedHostIdentity c of None \<Rightarrow> True | Some b \<Rightarrow> b))"

definition IsReadonlyEnabled :: "GitConfig option \<Rightarrow> bool" where
  "IsReadonlyEnabled g = (case g of None \<Rightarrow> False | Some c \<Rightarrow> BoolVal (GitReadonly c))"

text \<open>
  \<open>SecurityConfig\<close>: the effective protected paths. \<open>filepath.ToSlash\<close> is the identity on
  the systems the program runs on (the separator is a slash).
\<close>

definition GetEffectiveProtectedPaths :: "SecurityConfig \<Rightarrow> string list" where
  "GetEffectiveProtectedPaths s =
     (if DisableProtection s then []
      else filter (\<lambda>p. p \<notin> set (WritablePaths s)) (ProtectedPaths s @ AdditionalProtectedPaths s))"

definition IsWritablePath :: "SecurityConfig \<Rightarrow> string \<Rightarrow> bool" where
  "IsWritablePath s p \<longleftrightarrow> p \<in> set (WritablePaths s)"

definition IsHostImmutableEnabled :: "SecurityConfig \<Rightarrow> bool" where
  "IsHostImmutableEnabled s = (case HostImmutable s of None \<Rightarrow> True | Some b \<Rightarrow> b)"

definition HasPorts :: "PortsConfig \<Rightarrow> bool" where
  "HasPorts p \<longleftrightarrow> Pool p > 0 \<or> PortMap p \<noteq> []"

definition HasAny :: "LimitsConfig option \<Rightarrow> bool" where
  "HasAny l = (case l of None \<Rightarrow> False | Some c \<Rightarrow>
     CPUCount (CPU c) \<noteq> [] \<or> CPUAllowance (CPU c) \<noteq> [] \<or> CPUPriority (CPU c) \<noteq> 0 \<or>
     MemLimit (Memory c) \<noteq> [] \<or> MemEnforce (Memory c) \<noteq> [] \<or> MemSwap (Memory c) \<noteq> [] \<or>
     DiskRead (Disk c) \<noteq> [] \<or> DiskWrite (Disk c) \<noteq> [] \<or> DiskMax (Disk c) \<noteq> [] \<or>
     DiskSize (Disk c) \<noteq> [] \<or> DiskPriority (Disk c) \<noteq> 0 \<or> MaxProcesses (Runtime c) \<noteq> 0)"

definition IntVal :: "int option \<Rightarrow> int" where
  "IntVal p = (case p of None \<Rightarrow> 0 | Some n \<Rightarrow> n)"

section \<open>The operating system's answers\<close>

text \<open>
  What the loader asks the operating system: the home directory, the working directory and
  \<open>$COI_CONFIG\<close> (empty when unset).
\<close>

record osenv =
  HomeDir :: "string option"
  WorkDir :: "string option"
  COI_CONFIG :: string

text \<open>\<open>filepath.Abs\<close>; it fails when the working directory is unknown.\<close>

definition path_abs :: "osenv \<Rightarrow> string \<Rightarrow> string option" where
  "path_abs os p = (if is_abs p then Some (path_clean p)
     else (case WorkDir os of None \<Rightarrow> None | Some wd \<Rightarrow> Some (path_join [wd, p])))"

definition ExpandPath :: "osenv \<Rightarrow> string \<Rightarrow> string" where
  "ExpandPath os p = (if p = [] then p
     else if hd p = CHR ''~'' then
       (case HomeDir os of None \<Rightarrow> p
        | Some home \<Rightarrow> if length p = 1 then home else path_join [home, tl p])
     else p)"

definition expandConfigPaths :: "osenv \<Rightarrow> Config \<Rightarrow> Config" where
  "expandConfigPaths os c =
     c\<lparr> Paths := (Paths c)\<lparr> SessionsDir := ExpandPath os (SessionsDir (Paths c)),
                            StorageDir := ExpandPath os (StorageDir (Paths c)),
                            LogsDir := ExpandPath os (LogsDir (Paths c)) \<rparr>,
        Tool := (Tool c)\<lparr> ContextFile := ExpandPath os (ContextFile (Tool c)),
                          ContextJSONFile := ExpandPath os (ContextJSONFile (Tool c)) \<rparr>,
        Network := (Network c)\<lparr> NtLogging := (NtLogging (Network c))\<lparr> LogPath := ExpandPath os (LogPath (NtLogging (Network c))) \<rparr> \<rparr>,
        Detection := (Detection c)\<lparr> GTFOBinsDir := ExpandPath os (GTFOBinsDir (Detection c)),
                                    SigmaDir := ExpandPath os (SigmaDir (Detection c)) \<rparr> \<rparr>"

end
