(* ===== verification/ConfigMerge.thy ===== *)
theory ConfigMerge
  imports ConfigTypes
begin

text \<open>
  Merging configurations, \<open>internal/config/merge.go\<close>: field-level overlays of every
  section, the overlay of a whole configuration (\<open>Config.Merge\<close>) and of a profile
  (\<open>Config.ApplyProfile\<close>), and the merging of a parent profile into a child.
\<close>

section \<open>Field overlays\<close>

definition mergeScalar :: "'a \<Rightarrow> 'a \<Rightarrow> 'a \<Rightarrow> 'a" where
  "mergeScalar zero dst src = (if src \<noteq> zero then src else dst)"

abbreviation mergeStr :: "string \<Rightarrow> string \<Rightarrow> string" where
  "mergeStr \<equiv> mergeScalar []"

abbreviation mergeNum :: "'n::zero \<Rightarrow> 'n \<Rightarrow> 'n" where
  "mergeNum \<equiv> mergeScalar 0"

definition mergePtr :: "'a option \<Rightarrow> 'a option \<Rightarrow> 'a option" where
  "mergePtr dst src = (case src of None \<Rightarrow> dst | Some x \<Rightarrow> Some x)"

definition mergeSlice :: "'a list option \<Rightarrow> 'a list option \<Rightarrow> 'a list option" where
  "mergeSlice dst src = (case src of None \<Rightarrow> dst | Some xs \<Rightarrow> Some xs)"

definition mergeFlag :: "bool \<Rightarrow> bool \<Rightarrow> bool" where
  "mergeFlag dst src = (if src then True else dst)"

text \<open>\<open>if len(src) > 0 { dst = src }\<close>\<close>

definition mergeNonempty :: "'a list \<Rightarrow> 'a list \<Rightarrow> 'a list" where
  "mergeNonempty dst src = (if src \<noteq> [] then src else dst)"

text \<open>
  \<open>for k, v := range src { dst[k] = v }\<close>. The order of the range is not specified; with
  distinct keys the resulting map does not depend on it.
\<close>

definition mergeMap :: "'a gomap \<Rightarrow> 'a gomap \<Rightarrow> 'a gomap" where
  "mergeMap dst src = AList.merge dst src"

fun uniqueAcc :: "string list \<Rightarrow> string list \<Rightarrow> string list" where
  "uniqueAcc base [] = base"
| "uniqueAcc base (s # other) = uniqueAcc (if s \<in> set base then base else base @ [s]) other"

definition MergeStringSliceUnique :: "string list \<Rightarrow> string list \<Rightarrow> string list" where
  "MergeStringSliceUnique base other = uniqueAcc base other"

section \<open>Sections\<close>

definition mergeBuildInto :: "BuildConfig \<Rightarrow> BuildConfig \<Rightarrow> BuildConfig" where
  "mergeBuildInto d s = \<lparr> Base = mergeStr (Base d) (Base s), Script = mergeStr (Script d) (Script s),
     Commands = mergeSlice (Commands d) (Commands s), Compression = mergeStr (Compression d) (Compression s),
     Agents = mergeNonempty (Agents d) (Agents s) \<rparr>"

definition mergeContainerInto :: "ContainerConfig \<Rightarrow> ContainerConfig \<Rightarrow> ContainerConfig" where
  "mergeContainerInto d s = \<lparr> Image = mergeStr (Image d) (Image s),
     Persistent = mergePtr (Persistent d) (Persistent s),
     ShutdownTimeout = mergeNum (ShutdownTimeout d) (ShutdownTimeout s),
     ReadyTimeout = mergeNum (ReadyTimeout d) (ReadyTimeout s),
     StoragePool = mergeStr (StoragePool d) (StoragePool s),
     Alias = mergeStr (Alias d) (Alias s),
     Build = mergeBuildInto (Build d) (Build s),
     StaleBaseCheck = mergeStr (StaleBaseCheck d) (StaleBaseCheck s),
     SessionName = mergeStr (SessionName d) (SessionName s) \<rparr>"

definition mergeLimits :: "LimitsConfig \<Rightarrow> LimitsConfig \<Rightarrow> LimitsConfig" where
  "mergeLimits b s = \<lparr>
     CPU = \<lparr> CPUCount = mergeStr (CPUCount (CPU b)) (CPUCount (CPU s)),
             CPUAllowance = mergeStr (CPUAllowance (CPU b)) (CPUAllowance (CPU s)),
             CPUPriority = mergeNum (CPUPriority (CPU b)) (CPUPriority (CPU s)) \<rparr>,
     Memory = \<lparr> MemLimit = mergeStr (MemLimit (Memory b)) (MemLimit (Memory s)),
             MemEnforce = mergeStr (MemEnforce (Memory b)) (MemEnforce (Memory s)),
             MemSwap = mergeStr (MemSwap (Memory b)) (MemSwap (Memory s)) \<rparr>,
     Disk = \<lparr> DiskRead = mergeStr (DiskRead (Disk b)) (DiskRead (Disk s)),
             DiskWrite = mergeStr (DiskWrite (Disk b)) (DiskWrite (Disk s)),
             DiskMax = mergeStr (DiskMax (Disk b)) (DiskMax (Disk s)),
             DiskPriority = mergeNum (DiskPriority (Disk b)) (DiskPriority (Disk s)),
             DiskSize = mergeStr (DiskSize (Disk b)) (DiskSize (Disk s)),
             TmpfsSize = mergeStr (TmpfsSize (Disk b)) (TmpfsSize (Disk s)) \<rparr>,
     Runtime = \<lparr> MaxDuration = mergeStr (MaxDuration (Runtime b)) (MaxDuration (Runtime s)),
             MaxProcesses = mergeNum (MaxProcesses (Runtime b)) (MaxProcesses (Runtime s)),
             AutoStop = mergePtr (AutoStop (Runtime b)) (AutoStop (Runtime s)),
             StopGraceful = mergePtr (StopGraceful (Runtime b)) (StopGraceful (Runtime s)) \<rparr> \<rparr>"

definition mergeMonitoring :: "MonitoringConfig \<Rightarrow> MonitoringConfig \<Rightarrow> MonitoringConfig" where
  "mergeMonitoring b s = \<lparr> MonEnabled = mergePtr (MonEnabled b) (MonEnabled s),
     AutoPauseOnHigh = mergePtr (AutoPauseOnHigh b) (AutoPauseOnHigh s),
     AutoKillOnCritical = mergePtr (AutoKillOnCritical b) (AutoKillOnCritical s),
     PollIntervalSec = mergeNum (PollIntervalSec b) (PollIntervalSec s),
     FileReadThresholdMB = mergeNum (FileReadThresholdMB b) (FileReadThresholdMB s),
     FileReadRateMBPerSec = mergeNum (FileReadRateMBPerSec b) (FileReadRateMBPerSec s),
     ProcessCountThreshold = mergeNum (ProcessCountThreshold b) (ProcessCountThreshold s),
     ProcessSpawnRateThreshold = mergePtr (ProcessSpawnRateThreshold b) (ProcessSpawnRateThreshold s),
     AuditLogRetentionDays = mergeNum (AuditLogRetentionDays b) (AuditLogRetentionDays s),
     NFT = \<lparr> NFTEnabled = mergePtr (NFTEnabled (NFT b)) (NFTEnabled (NFT s)),
             RateLimitPerSecond = mergeNum (RateLimitPerSecond (NFT b)) (RateLimitPerSecond (NFT s)),
             DNSQueryThreshold = mergeNum (DNSQueryThreshold (NFT b)) (DNSQueryThreshold (NFT s)),
             LogDNSQueries = mergePtr (LogDNSQueries (NFT b)) (LogDNSQueries (NFT s)),
             LimaHost = mergeStr (LimaHost (NFT b)) (LimaHost (NFT s)) \<rparr> \<rparr>"

definition mergeToolInto :: "ToolConfig \<Rightarrow> ToolConfig \<Rightarrow> ToolConfig" where
  "mergeToolInto d s = \<lparr> ToolName = mergeStr (ToolName d) (ToolName s), Binary = mergeStr (Binary d) (Binary s),
     PermissionMode = mergeStr (PermissionMode d) (PermissionMode s),
     ContextFile = mergeStr (ContextFile d) (ContextFile s),
     AutoContext = mergePtr (AutoContext d) (AutoContext s), ContextJSON = mergePtr (ContextJSON d) (ContextJSON s),
     ContextJSONFile = mergeStr (ContextJSONFile d) (ContextJSONFile s),
     ClaudeEffort = mergeStr (ClaudeEffort d) (ClaudeEffort s), ClaudeModel = mergeStr (ClaudeModel d) (ClaudeModel s),
     CodexModel = mergeStr (CodexModel d) (CodexModel s), CodexEffort = mergeStr (CodexEffort d) (CodexEffort s) \<rparr>"

definition mergeNetworkInto :: "NetworkToml \<Rightarrow> NetworkToml \<Rightarrow> NetworkToml" where
  "mergeNetworkInto d s = \<lparr> NtMode = mergeStr (NtMode d) (NtMode s),
     NtBlockPrivate = mergePtr (NtBlockPrivate d) (NtBlockPrivate s),
     NtBlockMetadata = mergePtr (NtBlockMetadata d) (NtBlockMetadata s),
     NtAllowedDomains = mergeSlice (NtAllowedDomains d) (NtAllowedDomains s),
     NtRefreshMinutes = mergeNum (NtRefreshMinutes d) (NtRefreshMinutes s),
     NtAllowLocal = mergePtr (NtAllowLocal d) (NtAllowLocal s),
     NtUseSudo = mergePtr (NtUseSudo d) (NtUseSudo s),
     NtLogging = \<lparr> LogEnabled = mergePtr (LogEnabled (NtLogging d)) (LogEnabled (NtLogging s)),
                   LogPath = mergeStr (LogPath (NtLogging d)) (LogPath (NtLogging s)) \<rparr>,
     NtHosts = mergeSlice (NtHosts d) (NtHosts s),
     NtDNSServers = mergeSlice (NtDNSServers d) (NtDNSServers s),
     NtAllowedPorts = mergeSlice (NtAllowedPorts d) (NtAllowedPorts s) \<rparr>"

definition mergePathsInto :: "PathsConfig \<Rightarrow> PathsConfig \<Rightarrow> PathsConfig" where
  "mergePathsInto d s = \<lparr> SessionsDir = mergeStr (SessionsDir d) (SessionsDir s),
     StorageDir = mergeStr (StorageDir d) (StorageDir s), LogsDir = mergeStr (LogsDir d) (LogsDir s),
     PreserveWorkspacePath = mergeFlag (PreserveWorkspacePath d) (PreserveWorkspacePath s) \<rparr>"

definition mergeIncusInto :: "IncusConfig \<Rightarrow> IncusConfig \<Rightarrow> IncusConfig" where
  "mergeIncusInto d s = \<lparr> Project = mergeStr (Project d) (Project s), Group = mergeStr (Group d) (Group s),
     CodeUID = mergeNum (CodeUID d) (CodeUID s), CodeUser = mergeStr (CodeUser d) (CodeUser s),
     DisableShift = mergeFlag (DisableShift d) (DisableShift s) \<rparr>"

definition mergeGitInto :: "GitConfig \<Rightarrow> GitConfig \<Rightarrow> GitConfig" where
  "mergeGitInto d s = \<lparr> WritableHooks = mergePtr (WritableHooks d) (WritableHooks s),
     GitName = mergeStr (GitName d) (GitName s), GitEmail = mergeStr (GitEmail d) (GitEmail s),
     SeedHostIdentity = mergePtr (SeedHostIdentity d) (SeedHostIdentity s),
     GitReadonly = mergePtr (GitReadonly d) (GitReadonly s) \<rparr>"

definition mergeSSHInto :: "SSHConfig \<Rightarrow> SSHConfig \<Rightarrow> SSHConfig" where
  "mergeSSHInto d s = \<lparr> ForwardAgent = mergePtr (ForwardAgent d) (ForwardAgent s) \<rparr>"

definition mergeSecurityInto :: "SecurityConfig \<Rightarrow> SecurityConfig \<Rightarrow> SecurityConfig" where
  "mergeSecurityInto d s = \<lparr> ProtectedPaths = mergeNonempty (ProtectedPaths d) (ProtectedPaths s),
     AdditionalProtectedPaths = MergeStringSliceUnique (AdditionalProtectedPaths d) (AdditionalProtectedPaths s),
     DisableProtection = mergeFlag (DisableProtection d) (DisableProtection s),
     HostImmutable = mergePtr (HostImmutable d) (HostImmutable s),
     WritablePaths = MergeStringSliceUnique (WritablePaths d) (WritablePaths s),
     SecretPaths = MergeStringSliceUnique (SecretPaths d) (SecretPaths s) \<rparr>"

definition mergeTimezoneInto :: "TimezoneConfig \<Rightarrow> TimezoneConfig \<Rightarrow> TimezoneConfig" where
  "mergeTimezoneInto d s = \<lparr> TzMode = mergeStr (TzMode d) (TzMode s), TzName = mergeStr (TzName d) (TzName s) \<rparr>"

definition mergeShellInto :: "ShellConfig \<Rightarrow> ShellConfig \<Rightarrow> ShellConfig" where
  "mergeShellInto d s = \<lparr> UseTmux = mergePtr (UseTmux d) (UseTmux s) \<rparr>"

definition mergeDetectionInto :: "DetectionConfig \<Rightarrow> DetectionConfig \<Rightarrow> DetectionConfig" where
  "mergeDetectionInto d s = \<lparr> GTFOBinsSource = mergeStr (GTFOBinsSource d) (GTFOBinsSource s),
     GTFOBinsDir = mergeStr (GTFOBinsDir d) (GTFOBinsDir s),
     SigmaSource = mergeStr (SigmaSource d) (SigmaSource s), SigmaDir = mergeStr (SigmaDir d) (SigmaDir s) \<rparr>"

section \<open>Ports\<close>

text \<open>
  The loop over the source's map entries: the first entry of that name is replaced in
  place, a new name is appended. The pool follows the last source that sets one; when an
  untrusted pool replaces a trusted one, the trusted value is remembered.
\<close>

fun putPort :: "PortEntry \<Rightarrow> PortEntry list \<Rightarrow> PortEntry list" where
  "putPort e [] = [e]"
| "putPort e (p # ps) = (if PName p = PName e then e # ps else p # putPort e ps)"

definition mergePortsInto :: "PortsConfig \<Rightarrow> PortsConfig \<Rightarrow> PortsConfig" where
  "mergePortsInto d s =
     (if \<not> HasPorts s then d
      else (let d1 = (if Pool s > 0
          then d\<lparr> PoolTrustedFallback := (if PoolUntrusted s \<and> Pool d > 0 \<and> \<not> PoolUntrusted d then Pool d
                                            else if \<not> PoolUntrusted s then 0 else PoolTrustedFallback d),
                  Pool := Pool s, PoolUntrusted := PoolUntrusted s, PoolSourcePath := PoolSourcePath s \<rparr>
          else d)
        in d1\<lparr> PortMap := fold putPort (PortMap s) (PortMap d1) \<rparr>))"

section \<open>Overlaying a configuration and a profile\<close>

definition mergeDefaultsInto :: "DefaultsConfig \<Rightarrow> DefaultsConfig \<Rightarrow> DefaultsConfig" where
  "mergeDefaultsInto d s = \<lparr> DefaultProfile = mergeStr (DefaultProfile d) (DefaultProfile s),
     DForwardEnv = MergeStringSliceUnique (DForwardEnv d) (DForwardEnv s),
     DEnvironment = mergeMap (DEnvironment d) (DEnvironment s),
     DEnvCommands = mergeMap (DEnvCommands d) (DEnvCommands s),
     EnvCommandTimeout = mergeStr (EnvCommandTimeout d) (EnvCommandTimeout s) \<rparr>"

definition MergeConfig :: "osenv \<Rightarrow> Config \<Rightarrow> Config \<Rightarrow> Config" where
  "MergeConfig os c other = expandConfigPaths os (c\<lparr>
     Container := mergeContainerInto (Container c) (Container other),
     Defaults := mergeDefaultsInto (Defaults c) (Defaults other),
     Prompts := mergeMap (Prompts c) (Prompts other),
     Mounts := Mounts c @ Mounts other,
     Sockets := Sockets c @ Sockets other,
     Ports := mergePortsInto (Ports c) (Ports other),
     Credentials := Credentials c @ Credentials other,
     Paths := mergePathsInto (Paths c) (Paths other),
     Incus := mergeIncusInto (Incus c) (Incus other),
     Network := mergeNetworkInto (Network c) (Network other),
     Shell := mergeShellInto (Shell c) (Shell other),
     Tool := mergeToolInto (Tool c) (Tool other),
     Limits := mergeLimits (Limits c) (Limits other),
     Git := mergeGitInto (Git c) (Git other),
     SSH := mergeSSHInto (SSH c) (SSH other),
     Security := mergeSecurityInto (Security c) (Security other),
     Monitoring := mergeMonitoring (Monitoring c) (Monitoring other),
     Timezone := mergeTimezoneInto (Timezone c) (Timezone other),
     Detection := mergeDetectionInto (Detection c) (Detection other) \<rparr>)"

definition GetProfile :: "Config \<Rightarrow> string \<Rightarrow> ProfileConfig option" where
  "GetProfile c name = map_of (Profiles c) name"

text \<open>\<open>if profile.X != nil { mergeX(&c.X, profile.X) }\<close>\<close>

definition overlay :: "('a \<Rightarrow> 'a \<Rightarrow> 'a) \<Rightarrow> 'a \<Rightarrow> 'a option \<Rightarrow> 'a" where
  "overlay f d s = (case s of None \<Rightarrow> d | Some x \<Rightarrow> f d x)"

text \<open>The project's alias wins over the profile's.\<close>

definition applyContainer :: "ContainerConfig \<Rightarrow> ContainerConfig \<Rightarrow> ContainerConfig" where
  "applyContainer c p = (let m = mergeContainerInto c p in
     if Alias c \<noteq> [] then m\<lparr> Alias := Alias c \<rparr> else m)"

definition applyProfileTo :: "osenv \<Rightarrow> Config \<Rightarrow> ProfileConfig \<Rightarrow> Config" where
  "applyProfileTo os c p = expandConfigPaths os (c\<lparr>
     Container := applyContainer (Container c) (PrContainer p),
     ProfileContextFile := mergeStr (ProfileContextFile c) (PrContext p),
     Defaults := (Defaults c)\<lparr> DEnvironment := mergeMap (DEnvironment (Defaults c)) (PrEnvironment p),
        DEnvCommands := mergeMap (DEnvCommands (Defaults c)) (PrEnvCommands p),
        DForwardEnv := MergeStringSliceUnique (DForwardEnv (Defaults c)) (slice (PrForwardEnv p)) \<rparr>,
     Prompts := mergeMap (Prompts c) (PrPrompts p),
     Mounts := Mounts c @ slice (PrMounts p),
     Sockets := Sockets c @ slice (PrSockets p),
     Ports := overlay mergePortsInto (Ports c) (PrPorts p),
     Credentials := Credentials c @ slice (PrCredentials p),
     Limits := overlay mergeLimits (Limits c) (PrLimits p),
     Monitoring := overlay mergeMonitoring (Monitoring c) (PrMonitoring p),
     Tool := overlay mergeToolInto (Tool c) (PrTool p),
     Shell := overlay mergeShellInto (Shell c) (PrShell p),
     Network := overlay mergeNetworkInto (Network c) (PrNetwork p),
     Paths := overlay mergePathsInto (Paths c) (PrPaths p),
     Incus := overlay mergeIncusInto (Incus c) (PrIncus p),
     Git := overlay mergeGitInto (Git c) (PrGit p),
     SSH := overlay mergeSSHInto (SSH c) (PrSSH p),
     Security := overlay mergeSecurityInto (Security c) (PrSecurity p),
     Timezone := overlay mergeTimezoneInto (Timezone c) (PrTimezone p) \<rparr>)"

definition ReapplyProfileContainer :: "Config \<Rightarrow> string \<Rightarrow> Config result" where
  "ReapplyProfileContainer c name = (case GetProfile c name of
     None \<Rightarrow> Inl (Errorf ''profile '%s' not found'' [name])
   | Some p \<Rightarrow> Inr (c\<lparr> Container := applyContainer (Container c) (PrContainer p) \<rparr>))"

section \<open>Merging a parent profile into a child\<close>

text \<open>A key whose value the child cleared (an empty string, an empty prompt) is deleted.\<close>

definition mergeEnv :: "('a \<Rightarrow> bool) \<Rightarrow> 'a gomap \<Rightarrow> 'a gomap \<Rightarrow> 'a gomap" where
  "mergeEnv cleared parent child =
     (if parent = [] then child
      else foldr (\<lambda>(k, v) m. if cleared v then AList.delete k m else AList.update k v m) child parent)"

definition mergeStructPtr :: "('a \<Rightarrow> 'a \<Rightarrow> 'a) \<Rightarrow> 'a option \<Rightarrow> 'a option \<Rightarrow> 'a option" where
  "mergeStructPtr f parent child = (case child of None \<Rightarrow> parent
     | Some c \<Rightarrow> (case parent of None \<Rightarrow> Some c | Some p \<Rightarrow> Some (f p c)))"

text \<open>\<open>if result.X == nil { result.X = parent.X }\<close>\<close>

definition inherit :: "'a option \<Rightarrow> 'a option \<Rightarrow> 'a option" where
  "inherit parent child = (case child of None \<Rightarrow> parent | Some x \<Rightarrow> Some x)"

definition mergeProfiles :: "ProfileConfig \<Rightarrow> ProfileConfig \<Rightarrow> ProfileConfig" where
  "mergeProfiles parent child = child\<lparr>
     PrContainer := mergeContainerInto (PrContainer parent) (PrContainer child),
     PrContext := mergeStr (PrContext parent) (PrContext child),
     PrEnvironment := mergeEnv (\<lambda>v. v = []) (PrEnvironment parent) (PrEnvironment child),
     PrEnvCommands := mergeEnv (\<lambda>v. v = []) (PrEnvCommands parent) (PrEnvCommands child),
     PrPrompts := mergeEnv (\<lambda>v. PText v = [] \<and> PFile v = []) (PrPrompts parent) (PrPrompts child),
     PrMounts := inherit (PrMounts parent) (PrMounts child),
     PrSockets := inherit (PrSockets parent) (PrSockets child),
     PrPorts := inherit (PrPorts parent) (PrPorts child),
     PrCredentials := inherit (PrCredentials parent) (PrCredentials child),
     PrForwardEnv := inherit (PrForwardEnv parent) (PrForwardEnv child),
     PrLimits := mergeStructPtr mergeLimits (PrLimits parent) (PrLimits child),
     PrTool := mergeStructPtr mergeToolInto (PrTool parent) (PrTool child),
     PrNetwork := mergeStructPtr mergeNetworkInto (PrNetwork parent) (PrNetwork child),
     PrMonitoring := mergeStructPtr mergeMonitoring (PrMonitoring parent) (PrMonitoring child),
     PrPaths := mergeStructPtr mergePathsInto (PrPaths parent) (PrPaths child),
     PrIncus := mergeStructPtr mergeIncusInto (PrIncus parent) (PrIncus child),
     PrGit := mergeStructPtr mergeGitInto (PrGit parent) (PrGit child),
     PrSSH := mergeStructPtr mergeSSHInto (PrSSH parent) (PrSSH child),
     PrSecurity := mergeStructPtr mergeSecurityInto (PrSecurity parent) (PrSecurity child),
     PrTimezone := mergeStructPtr mergeTimezoneInto (PrTimezone parent) (PrTimezone child),
     PrShell := mergeStructPtr mergeShellInto (PrShell parent) (PrShell child) \<rparr>"

end
