(* ===== verification/ConfigLoad.thy ===== *)
theory ConfigLoad
  imports ConfigMerge
begin

text \<open>
  Loading configuration files and profiles, \<open>internal/config/loader.go\<close>: which sources are
  trusted, what is stripped from an untrusted one and how its entries are marked, and the
  order in which everything is merged. Reading and decoding a file (\<open>os.Stat\<close>,
  \<open>toml.DecodeFile\<close>, the deprecation and schema checks) is a parameter; warnings on
  standard error are not modelled.
\<close>

section \<open>Which sources are trusted\<close>

text \<open>\<open>os.UserHomeDir\<close> and \<open>os.Getwd\<close> with the defaults the source falls back to.\<close>

definition homeOr :: "string \<Rightarrow> osenv \<Rightarrow> string" where
  "homeOr d os = (case HomeDir os of None \<Rightarrow> d | Some h \<Rightarrow> h)"

definition workOr :: "string \<Rightarrow> osenv \<Rightarrow> string" where
  "workOr d os = (case WorkDir os of None \<Rightarrow> d | Some h \<Rightarrow> h)"

definition GetConfigPaths :: "osenv \<Rightarrow> string list" where
  "GetConfigPaths os =
     [path_join [homeOr ''/tmp'' os, ''.coi'', ''config.toml''],
      path_join [workOr ''.'' os, ''.coi'', ''config.toml'']]
     @ (if COI_CONFIG os \<noteq> [] then [COI_CONFIG os] else [])"

definition GetProfileParentDirs :: "osenv \<Rightarrow> string list" where
  "GetProfileParentDirs os =
     [path_join [homeOr ''/tmp'' os, ''.coi''], path_join [workOr ''.'' os, ''.coi'']]
     @ (if COI_CONFIG os \<noteq> [] then [path_dir (COI_CONFIG os)] else [])"

definition isTrustedConfigPath :: "osenv \<Rightarrow> string \<Rightarrow> bool" where
  "isTrustedConfigPath os path \<longleftrightarrow>
     (case HomeDir os of None \<Rightarrow> False
      | Some home \<Rightarrow> path_clean path = path_clean (path_join [home, ''.coi'', ''config.toml''])) \<or>
     COI_CONFIG os \<noteq> [] \<and> path_clean path = path_clean (COI_CONFIG os)"

definition isTrustedProfileDir :: "osenv \<Rightarrow> string \<Rightarrow> bool" where
  "isTrustedProfileDir os dir \<longleftrightarrow>
     (case HomeDir os of None \<Rightarrow> False
      | Some home \<Rightarrow> path_clean dir = path_clean (path_join [home, ''.coi''])) \<or>
     COI_CONFIG os \<noteq> [] \<and> path_clean dir = path_clean (path_dir (COI_CONFIG os))"

definition resolveRelativePath :: "osenv \<Rightarrow> string \<Rightarrow> string \<Rightarrow> string" where
  "resolveRelativePath os base path =
     (if is_abs path \<or> has_prefix path ''~'' then ExpandPath os path else path_join [base, path])"

section \<open>Stripping an untrusted source\<close>

definition sanitizeUntrustedTool :: "ToolConfig \<Rightarrow> ToolConfig" where
  "sanitizeUntrustedTool t = t\<lparr> ContextFile := [], ContextJSONFile := [] \<rparr>"

definition sanitizeUntrustedPrompts :: "PromptEntry gomap \<Rightarrow> PromptEntry gomap" where
  "sanitizeUntrustedPrompts ps = []"

definition resolvePromptFiles :: "osenv \<Rightarrow> string \<Rightarrow> PromptEntry gomap \<Rightarrow> PromptEntry gomap" where
  "resolvePromptFiles os base ps =
     map (\<lambda>(n, e). (n, if PFile e \<noteq> [] then e\<lparr> PFile := resolveRelativePath os base (PFile e) \<rparr> else e)) ps"

definition sanitizeUntrustedSecurity :: "SecurityConfig \<Rightarrow> SecurityConfig" where
  "sanitizeUntrustedSecurity s =
     s\<lparr> DisableProtection := False, ProtectedPaths := [], WritablePaths := [], HostImmutable := None \<rparr>"

definition sanitizeUntrustedGit :: "GitConfig \<Rightarrow> GitConfig" where
  "sanitizeUntrustedGit g =
     g\<lparr> WritableHooks := None, GitName := [], GitEmail := [], SeedHostIdentity := None, GitReadonly := None \<rparr>"

text \<open>Without any command the section is left as it is, the timeout included.\<close>

definition sanitizeUntrustedEnvCommands :: "DefaultsConfig \<Rightarrow> DefaultsConfig" where
  "sanitizeUntrustedEnvCommands d =
     (if DEnvCommands d = [] then d else d\<lparr> DEnvCommands := [], EnvCommandTimeout := [] \<rparr>)"

definition sanitizeUntrustedDefaultProfile :: "DefaultsConfig \<Rightarrow> DefaultsConfig" where
  "sanitizeUntrustedDefaultProfile d = d\<lparr> DefaultProfile := [] \<rparr>"

definition sanitizeUntrustedSessionName :: "ContainerConfig \<Rightarrow> ContainerConfig" where
  "sanitizeUntrustedSessionName c = c\<lparr> SessionName := [] \<rparr>"

definition sanitizeUntrustedNetwork :: "NetworkToml \<Rightarrow> NetworkToml" where
  "sanitizeUntrustedNetwork n = n\<lparr>
     NtBlockPrivate := (if NtBlockPrivate n = Some False then None else NtBlockPrivate n),
     NtBlockMetadata := (if NtBlockMetadata n = Some False then None else NtBlockMetadata n),
     NtAllowLocal := (if NtAllowLocal n = Some True then None else NtAllowLocal n),
     NtMode := (if NtMode n = NetworkModeOpen then [] else NtMode n),
     NtHosts := (if slice (NtHosts n) \<noteq> [] then None else NtHosts n),
     NtDNSServers := (if slice (NtDNSServers n) \<noteq> [] then None else NtDNSServers n),
     NtAllowedPorts := (if slice (NtAllowedPorts n) \<noteq> [] then None else NtAllowedPorts n) \<rparr>"

definition sanitizeUntrustedConfig :: "Config \<Rightarrow> Config" where
  "sanitizeUntrustedConfig c = c\<lparr>
     Network := sanitizeUntrustedNetwork (Network c),
     Defaults := sanitizeUntrustedDefaultProfile (sanitizeUntrustedEnvCommands (Defaults c)),
     Container := sanitizeUntrustedSessionName (Container c),
     Security := sanitizeUntrustedSecurity (Security c),
     Git := sanitizeUntrustedGit (Git c),
     Tool := sanitizeUntrustedTool (Tool c),
     Prompts := sanitizeUntrustedPrompts (Prompts c) \<rparr>"

section \<open>Marking the entries of an untrusted source\<close>

definition sourceOf :: "osenv \<Rightarrow> string \<Rightarrow> string" where
  "sourceOf os path = (case path_abs os path of None \<Rightarrow> path | Some a \<Rightarrow> a)"

definition markUntrustedMounts :: "string \<Rightarrow> MountEntry list \<Rightarrow> MountEntry list" where
  "markUntrustedMounts src = map (\<lambda>m. m\<lparr> MUntrusted := True, MSource := src \<rparr>)"

definition markUntrustedSockets :: "string \<Rightarrow> SocketEntry list \<Rightarrow> SocketEntry list" where
  "markUntrustedSockets src = map (\<lambda>s. s\<lparr> SUntrusted := True, SSource := src \<rparr>)"

definition markUntrustedCredentials :: "string \<Rightarrow> CredentialEntry list \<Rightarrow> CredentialEntry list" where
  "markUntrustedCredentials src = map (\<lambda>c. c\<lparr> CUntrusted := True, CSource := src \<rparr>)"

definition markUntrustedPorts :: "string \<Rightarrow> PortsConfig \<Rightarrow> PortsConfig" where
  "markUntrustedPorts src p =
     (if \<not> HasPorts p then p
      else (let q = (if Pool p > 0 then p\<lparr> PoolUntrusted := True, PoolSourcePath := src \<rparr> else p)
        in q\<lparr> PortMap := map (\<lambda>e. e\<lparr> PUntrusted := True, PSource := src \<rparr>) (PortMap q) \<rparr>))"

section \<open>One configuration file\<close>

text \<open>What is left of the decoded file once its scope has been taken into account.\<close>

definition scopedConfig :: "osenv \<Rightarrow> string \<Rightarrow> bool \<Rightarrow> Config \<Rightarrow> Config" where
  "scopedConfig os path trusted f =
     (if trusted then f
      else (let s = sanitizeUntrustedConfig f; src = sourceOf os path in
        s\<lparr> Mounts := markUntrustedMounts src (Mounts s), Sockets := markUntrustedSockets src (Sockets s),
           Ports := markUntrustedPorts src (Ports s),
           Credentials := markUntrustedCredentials src (Credentials s) \<rparr>))"

definition resolveConfigPaths :: "osenv \<Rightarrow> string \<Rightarrow> Config \<Rightarrow> Config" where
  "resolveConfigPaths os path f = (let dir = path_dir path; c = Container f; b = Build c in
     f\<lparr> Container := (if Script b \<noteq> []
            then c\<lparr> Build := b\<lparr> Script := resolveRelativePath os dir (Script b) \<rparr> \<rparr> else c),
        Prompts := resolvePromptFiles os dir (Prompts f) \<rparr>)"

text \<open>
  \<open>decode\<close> is \<open>os.Stat\<close>, \<open>toml.DecodeFile\<close> and the deprecation check together: the decoded
  file, or the error of the first that failed.
\<close>

definition loadConfigFileScoped :: "osenv \<Rightarrow> (string \<Rightarrow> Config result) \<Rightarrow> Config \<Rightarrow> string \<Rightarrow> bool \<Rightarrow> Config result" where
  "loadConfigFileScoped os decode cfg path trusted =
     bindE (decode path) (\<lambda>f. Inr (MergeConfig os cfg (resolveConfigPaths os path (scopedConfig os path trusted f))))"

definition OverlayProjectConfig :: "osenv \<Rightarrow> (string \<Rightarrow> Config result) \<Rightarrow> Config \<Rightarrow> string \<Rightarrow> Config result" where
  "OverlayProjectConfig os decode cfg workspace =
     loadConfigFileScoped os decode cfg (path_join [workspace, ''.coi'', ''config.toml'']) False"

section \<open>Profiles\<close>

text \<open>
  An entry of a profiles directory: its name, whether it is a directory with a
  \<open>config.toml\<close>, and what decoding and the deprecation and schema checks give.
\<close>

record profileEntry =
  EntryName :: string
  HasConfig :: bool
  Decoded :: "ProfileConfig result"

definition sanitizeUntrustedProfile :: "osenv \<Rightarrow> string \<Rightarrow> ProfileConfig \<Rightarrow> ProfileConfig" where
  "sanitizeUntrustedProfile os path p = (let src = sourceOf os path in p\<lparr>
     PrNetwork := map_option sanitizeUntrustedNetwork (PrNetwork p),
     PrContainer := sanitizeUntrustedSessionName (PrContainer p),
     PrSecurity := map_option sanitizeUntrustedSecurity (PrSecurity p),
     PrGit := map_option sanitizeUntrustedGit (PrGit p),
     PrPrompts := sanitizeUntrustedPrompts (PrPrompts p),
     PrMounts := map_option (markUntrustedMounts src) (PrMounts p),
     PrSockets := map_option (markUntrustedSockets src) (PrSockets p),
     PrPorts := map_option (markUntrustedPorts src) (PrPorts p),
     PrCredentials := map_option (markUntrustedCredentials src) (PrCredentials p),
     PrEnvCommands := [] \<rparr>)"

definition loadedProfile :: "osenv \<Rightarrow> string \<Rightarrow> string \<Rightarrow> bool \<Rightarrow> ProfileConfig \<Rightarrow> ProfileConfig" where
  "loadedProfile os dir path trusted p =
     (let c = PrContainer p; b = Build c;
          p1 = p\<lparr> PrContainer := (if Script b \<noteq> []
                    then c\<lparr> Build := b\<lparr> Script := resolveRelativePath os dir (Script b) \<rparr> \<rparr> else c),
                  PrContext := (if PrContext p \<noteq> [] then resolveRelativePath os dir (PrContext p) else PrContext p),
                  PrSource := path, PrTrusted := trusted \<rparr>;
          p2 = (if trusted then p1 else sanitizeUntrustedProfile os path p1)
      in p2\<lparr> PrPrompts := resolvePromptFiles os dir (PrPrompts p2) \<rparr>)"

fun loadProfileEntries :: "osenv \<Rightarrow> string \<Rightarrow> bool \<Rightarrow> profileEntry list \<Rightarrow> ProfileConfig gomap \<Rightarrow> ProfileConfig gomap result" where
  "loadProfileEntries os dir trusted [] ps = Inr ps"
| "loadProfileEntries os dir trusted (e # es) ps =
     (if \<not> HasConfig e then loadProfileEntries os dir trusted es ps
      else (let name = EntryName e; pdir = path_join [dir, name];
                path = path_join [dir, name, ''config.toml''] in
        (case map_of ps name of
           Some old \<Rightarrow> if PrSource old \<noteq> [] \<and> PrSource old \<noteq> path
             then Inl (Errorf ''profile %q defined in multiple locations'' [name, PrSource old, path])
             else bindE (Decoded e) (\<lambda>p.
               loadProfileEntries os dir trusted es (AList.update name (loadedProfile os pdir path trusted p) ps))
         | None \<Rightarrow> bindE (Decoded e) (\<lambda>p.
             loadProfileEntries os dir trusted es (AList.update name (loadedProfile os pdir path trusted p) ps)))))"

text \<open>\<open>readDir\<close> lists a directory; an unreadable or missing one is skipped.\<close>

definition loadProfileDirectories :: "osenv \<Rightarrow> (string \<Rightarrow> profileEntry list option) \<Rightarrow> Config \<Rightarrow> string \<Rightarrow> bool \<Rightarrow> Config result" where
  "loadProfileDirectories os readDir cfg configDir trusted =
     (let dir = path_join [configDir, ''profiles''] in
      (case readDir dir of None \<Rightarrow> Inr cfg
       | Some es \<Rightarrow> bindE (loadProfileEntries os dir trusted es (Profiles cfg)) (\<lambda>ps. Inr (cfg\<lparr> Profiles := ps \<rparr>))))"

end
