(* ===== verification/ConfigInherit.thy ===== *)
theory ConfigInherit
  imports ConfigLoad
begin

text \<open>
  Profile inheritance (\<open>Config.ResolveProfileInheritance\<close>), the built-in profiles of
  \<open>internal/config/defaults.go\<close> and the whole of \<open>config.Load\<close>.
\<close>

section \<open>Resolving inheritance\<close>

definition maxInheritanceDepth :: nat where
  "maxInheritanceDepth = 10"

text \<open>\<open>c.Profiles[name].Inherits\<close>; a missing profile reads as the zero value.\<close>

definition parentOf :: "ProfileConfig gomap \<Rightarrow> string \<Rightarrow> string" where
  "parentOf ps name = (case map_of ps name of None \<Rightarrow> [] | Some p \<Rightarrow> Inherits p)"

text \<open>
  The first pass for one profile: walk to the root, refusing a cycle, a missing parent and
  a chain that is too long.
\<close>

function walkChain :: "ProfileConfig gomap \<Rightarrow> string list \<Rightarrow> string \<Rightarrow> unit result" where
  "walkChain ps visited current =
     (let parent = parentOf ps current in
      if parent = [] then Inr ()
      else if parent \<in> set visited then
        Inl (Errorf ''profile inheritance cycle detected involving %q'' [parent])
      else if map_of ps parent = None then
        Inl (Errorf ''profile %q inherits from %q, but parent profile not found'' [current, parent])
      else if length visited > maxInheritanceDepth then
        Inl (Errorf ''profile inheritance chain exceeds maximum depth of %d'' [itoa maxInheritanceDepth])
      else walkChain ps (parent # visited) parent)"
  by auto
termination
  by (relation "measure (\<lambda>(ps, visited, current). Suc maxInheritanceDepth - length visited)")
    (auto simp: maxInheritanceDepth_def)

declare walkChain.simps [simp del]

fun checkChains :: "ProfileConfig gomap \<Rightarrow> string list \<Rightarrow> unit result" where
  "checkChains ps [] = Inr ()"
| "checkChains ps (n # ns) =
     (if parentOf ps n = [] then checkChains ps ns
      else bindE (walkChain ps [n] n) (\<lambda>_. checkChains ps ns))"

text \<open>
  The second pass: the closure \<open>resolve\<close> over the profiles and the set of resolved names.
  It recurses along the chain, which the first pass has bounded; \<open>fuel\<close> bounds the
  recursion here and \<open>None\<close> is running out of it.
\<close>

type_synonym resolver_state = "ProfileConfig gomap \<times> string list"

fun resolveProfile :: "nat \<Rightarrow> string \<Rightarrow> resolver_state \<Rightarrow> resolver_state option" where
  "resolveProfile 0 name st = None"
| "resolveProfile (Suc fuel) name (ps, resolved) =
     (if name \<in> set resolved then Some (ps, resolved)
      else (case map_of ps name of
          None \<Rightarrow> Some (ps, name # resolved)
        | Some p \<Rightarrow>
          if Inherits p = [] then Some (ps, name # resolved)
          else (case resolveProfile fuel (Inherits p) (ps, resolved) of
              None \<Rightarrow> None
            | Some (ps1, resolved1) \<Rightarrow>
                (case map_of ps1 (Inherits p) of
                   None \<Rightarrow> None
                 | Some parent \<Rightarrow>
                     Some (AList.update name ((mergeProfiles parent p)\<lparr> Inherits := Inherits p \<rparr>) ps1,
                           name # resolved1)))))"

fun resolveAllProfiles :: "nat \<Rightarrow> string list \<Rightarrow> resolver_state \<Rightarrow> resolver_state option" where
  "resolveAllProfiles fuel [] st = Some st"
| "resolveAllProfiles fuel (n # ns) st =
     (case resolveProfile fuel n st of None \<Rightarrow> None | Some st' \<Rightarrow> resolveAllProfiles fuel ns st')"

text \<open>
  Both passes range over the map of profiles, in an order Go does not specify: the two
  orders are arguments. Not returning is \<open>None\<close>.
\<close>

definition ResolveProfileInheritance :: "string list \<Rightarrow> string list \<Rightarrow> ProfileConfig gomap \<Rightarrow> ProfileConfig gomap result option" where
  "ResolveProfileInheritance order1 order2 ps =
     (case checkChains ps order1 of
        Inl e \<Rightarrow> Some (Inl e)
      | Inr _ \<Rightarrow> map_option (\<lambda>st. Inr (fst st)) (resolveAllProfiles (Suc (Suc maxInheritanceDepth)) order2 (ps, [])))"

section \<open>Built-in profiles\<close>

definition emptyContainer :: ContainerConfig where
  "emptyContainer = \<lparr> Image = [], Persistent = None, ShutdownTimeout = 0, ReadyTimeout = 0,
     StoragePool = [], Alias = [],
     Build = \<lparr> Base = [], Script = [], Commands = None, Compression = [], Agents = [] \<rparr>,
     StaleBaseCheck = [], SessionName = [] \<rparr>"

definition emptyProfile :: ProfileConfig where
  "emptyProfile = \<lparr> Inherits = [], PrContainer = emptyContainer, PrContext = [], PrEnvironment = [],
     PrEnvCommands = [], PrPrompts = [], PrLimits = None, PrTool = None, PrMounts = None, PrSockets = None,
     PrPorts = None, PrCredentials = None, PrNetwork = None, PrForwardEnv = None, PrSource = [],
     PrTrusted = False, PrPaths = None, PrIncus = None, PrGit = None, PrSSH = None, PrSecurity = None,
     PrMonitoring = None, PrTimezone = None, PrShell = None \<rparr>"

text \<open>The zero values of the sections, and \<open>Config{}\<close>, into which the defaults are decoded.\<close>

definition emptySecurity :: SecurityConfig where
  "emptySecurity = \<lparr> ProtectedPaths = [], AdditionalProtectedPaths = [], DisableProtection = False,
     HostImmutable = None, WritablePaths = [], SecretPaths = [] \<rparr>"

definition emptyNetwork :: NetworkToml where
  "emptyNetwork = \<lparr> NtMode = [], NtBlockPrivate = None, NtBlockMetadata = None, NtAllowedDomains = None,
     NtRefreshMinutes = 0, NtAllowLocal = None, NtUseSudo = None,
     NtLogging = \<lparr> LogEnabled = None, LogPath = [] \<rparr>, NtHosts = None, NtDNSServers = None, NtAllowedPorts = None \<rparr>"

definition emptyPorts :: PortsConfig where
  "emptyPorts = \<lparr> Pool = 0, PortMap = [], PoolUntrusted = False, PoolSourcePath = [], PoolTrustedFallback = 0 \<rparr>"

definition emptyMonitoring :: MonitoringConfig where
  "emptyMonitoring = \<lparr> MonEnabled = None, AutoPauseOnHigh = None, AutoKillOnCritical = None, PollIntervalSec = 0,
     FileReadThresholdMB = 0, FileReadRateMBPerSec = 0, ProcessCountThreshold = 0,
     ProcessSpawnRateThreshold = None, AuditLogRetentionDays = 0,
     NFT = \<lparr> NFTEnabled = None, RateLimitPerSecond = 0, DNSQueryThreshold = 0, LogDNSQueries = None, LimaHost = [] \<rparr> \<rparr>"

definition emptyLimits :: LimitsConfig where
  "emptyLimits = \<lparr> CPU = \<lparr> CPUCount = [], CPUAllowance = [], CPUPriority = 0 \<rparr>,
     Memory = \<lparr> MemLimit = [], MemEnforce = [], MemSwap = [] \<rparr>,
     Disk = \<lparr> DiskRead = [], DiskWrite = [], DiskMax = [], DiskPriority = 0, DiskSize = [], TmpfsSize = [] \<rparr>,
     Runtime = \<lparr> MaxDuration = [], MaxProcesses = 0, AutoStop = None, StopGraceful = None \<rparr> \<rparr>"

definition emptyTool :: ToolConfig where
  "emptyTool = \<lparr> ToolName = [], Binary = [], PermissionMode = [], ContextFile = [], AutoContext = None,
     ContextJSON = None, ContextJSONFile = [], ClaudeEffort = [], ClaudeModel = [], CodexModel = [], CodexEffort = [] \<rparr>"

definition emptyConfig :: Config where
  "emptyConfig = \<lparr> Container = emptyContainer,
     Defaults = \<lparr> DefaultProfile = [], DForwardEnv = [], DEnvironment = [], DEnvCommands = [], EnvCommandTimeout = [] \<rparr>,
     Paths = \<lparr> SessionsDir = [], StorageDir = [], LogsDir = [], PreserveWorkspacePath = False \<rparr>,
     Incus = \<lparr> Project = [], Group = [], CodeUID = 0, CodeUser = [], DisableShift = False \<rparr>,
     Network = emptyNetwork, Tool = emptyTool, Shell = \<lparr> UseTmux = None \<rparr>, Mounts = [], Sockets = [],
     Ports = emptyPorts, Credentials = [], Limits = emptyLimits,
     Git = \<lparr> WritableHooks = None, GitName = [], GitEmail = [], SeedHostIdentity = None, GitReadonly = None \<rparr>,
     SSH = \<lparr> ForwardAgent = None \<rparr>, Security = emptySecurity, Monitoring = emptyMonitoring,
     Timezone = \<lparr> TzMode = [], TzName = [] \<rparr>,
     Detection = \<lparr> GTFOBinsSource = [], GTFOBinsDir = [], SigmaSource = [], SigmaDir = [] \<rparr>,
     Prompts = [], Profiles = [], ProfileContextFile = [] \<rparr>"

definition synthesizeDefaultProfile :: "Config \<Rightarrow> ProfileConfig" where
  "synthesizeDefaultProfile c = emptyProfile\<lparr>
     PrContainer := Container c,
     PrEnvironment := DEnvironment (Defaults c), PrEnvCommands := DEnvCommands (Defaults c),
     PrForwardEnv := Some (DForwardEnv (Defaults c)),
     PrLimits := Some (Limits c), PrTool := Some (Tool c), PrShell := Some (Shell c),
     PrNetwork := Some (Network c), PrMounts := Some (Mounts c), PrSockets := Some (Sockets c),
     PrPorts := Some (Ports c), PrCredentials := Some (Credentials c), PrPaths := Some (Paths c),
     PrIncus := Some (Incus c), PrGit := Some (Git c), PrSSH := Some (SSH c),
     PrSecurity := Some (Security c), PrMonitoring := Some (Monitoring c),
     PrTimezone := Some (Timezone c), PrSource := ''(built-in)'' \<rparr>"

definition HardenedProfileSecretPaths :: "string list" where
  "HardenedProfileSecretPaths = [''.env'', ''*.pem'', ''*.key'', ''*.p12'', ''id_rsa'', ''id_ed25519'',
     ''.npmrc'', ''.netrc'', ''.git-credentials'', ''credentials.json'', ''service_account.json'',
     ''kubeconfig'', ''database.yml'', ''*.tfvars'', ''*.tfstate'', ''secrets/**'']"

definition synthesizeHardenedProfile :: ProfileConfig where
  "synthesizeHardenedProfile = emptyProfile\<lparr>
     PrSource := ''(built-in)'',
     PrContainer := emptyContainer\<lparr> Persistent := Some False \<rparr>,
     PrNetwork := Some (emptyNetwork\<lparr> NtMode := NetworkModeRestricted, NtBlockPrivate := Some True,
        NtBlockMetadata := Some True, NtAllowLocal := Some False \<rparr>),
     PrSSH := Some \<lparr> ForwardAgent = Some False \<rparr>,
     PrSecurity := Some (emptySecurity\<lparr> HostImmutable := Some True, SecretPaths := HardenedProfileSecretPaths \<rparr>),
     PrMonitoring := Some (emptyMonitoring\<lparr> MonEnabled := Some True, AutoPauseOnHigh := Some True,
        AutoKillOnCritical := Some True, NFT := (NFT emptyMonitoring)\<lparr> NFTEnabled := Some True \<rparr> \<rparr>) \<rparr>"

section \<open>Session names\<close>

text \<open>The regular expression \<open>sessionNameRe\<close>.\<close>

definition sessionNameRe :: "string \<Rightarrow> bool" where
  "sessionNameRe s \<longleftrightarrow> s \<noteq> [] \<and> is_alnum (hd s) \<and> length s \<le> 64 \<and>
     list_all (\<lambda>c. is_alnum c \<or> c \<in> {CHR ''.'', CHR ''_'', CHR ''-''}) (tl s)"

definition validateSessionName :: "string \<Rightarrow> unit result" where
  "validateSessionName name = (if name = [] \<or> sessionNameRe name then Inr ()
     else Inl (Errorf ''invalid [container] session_name %q'' [name]))"

definition stripUntrustedInheritedSessionNames :: "ProfileConfig gomap \<Rightarrow> ProfileConfig gomap" where
  "stripUntrustedInheritedSessionNames ps = map (\<lambda>(n, p).
     (n, if SessionName (PrContainer p) = [] \<or> PrSource p = [] \<or> PrTrusted p then p
         else p\<lparr> PrContainer := sanitizeUntrustedSessionName (PrContainer p) \<rparr>)) ps"

section \<open>Loading everything\<close>

text \<open>
  What the loader reads: the decoded built-in defaults, the deprecation check of the
  working directory, the profile directories, the files (an absent file is \<open>None\<close>) and the
  creation of the three directories.
\<close>

record sources =
  BuiltinConfig :: Config
  CheckDeprecated :: "unit result"
  ReadDir :: "string \<Rightarrow> profileEntry list option"
  ReadConfig :: "string \<Rightarrow> Config result option"
  MkdirAll :: "string \<Rightarrow> unit result"

definition GetDefaultConfig :: "osenv \<Rightarrow> sources \<Rightarrow> Config" where
  "GetDefaultConfig os src = (expandConfigPaths os (BuiltinConfig src))\<lparr> Profiles := [] \<rparr>"

fun loadProfileDirs :: "osenv \<Rightarrow> sources \<Rightarrow> string list \<Rightarrow> Config \<Rightarrow> Config result" where
  "loadProfileDirs os src [] cfg = Inr cfg"
| "loadProfileDirs os src (d # ds) cfg =
     bindE (loadProfileDirectories os (ReadDir src) cfg d (isTrustedProfileDir os d)) (loadProfileDirs os src ds)"

fun loadConfigFiles :: "osenv \<Rightarrow> sources \<Rightarrow> string list \<Rightarrow> Config \<Rightarrow> Config result" where
  "loadConfigFiles os src [] cfg = Inr cfg"
| "loadConfigFiles os src (p # ps) cfg =
     (case ReadConfig src p of
        None \<Rightarrow> loadConfigFiles os src ps cfg
      | Some r \<Rightarrow> bindE (wrapE (''failed to load config from '' @ p)
            (loadConfigFileScoped os (\<lambda>_. r) cfg p (isTrustedConfigPath os p))) (loadConfigFiles os src ps))"

definition putMissing :: "string \<Rightarrow> 'a \<Rightarrow> 'a gomap \<Rightarrow> 'a gomap" where
  "putMissing k v m = (case map_of m k of None \<Rightarrow> AList.update k v m | Some _ \<Rightarrow> m)"

fun ensureDirectories :: "sources \<Rightarrow> string list \<Rightarrow> unit result" where
  "ensureDirectories src [] = Inr ()"
| "ensureDirectories src (d # ds) =
     bindE (wrapE (''failed to create directory '' @ d) (MkdirAll src d)) (\<lambda>_. ensureDirectories src ds)"

definition Load :: "osenv \<Rightarrow> sources \<Rightarrow> string list \<Rightarrow> string list \<Rightarrow> Config result option" where
  "Load os src order1 order2 =
     (case bindE (CheckDeprecated src) (\<lambda>_.
           bindE (loadProfileDirs os src (GetProfileParentDirs os) (GetDefaultConfig os src))
             (loadConfigFiles os src (GetConfigPaths os))) of
        Inl e \<Rightarrow> Some (Inl e)
      | Inr cfg \<Rightarrow>
          (let ps = putMissing ''hardened'' synthesizeHardenedProfile
                      (putMissing ''default'' (synthesizeDefaultProfile cfg) (Profiles cfg)) in
           map_option (\<lambda>r. bindE (wrapE ''profile inheritance error'' r) (\<lambda>ps1.
               let ps2 = stripUntrustedInheritedSessionNames ps1 in
               bindE (validateSessionName (SessionName (Container cfg))) (\<lambda>_.
               bindE (mapE (\<lambda>(n, p). wrapE (''profile '' @ n) (validateSessionName (SessionName (PrContainer p)))) ps2) (\<lambda>_.
               bindE (ensureDirectories src [SessionsDir (Paths cfg), StorageDir (Paths cfg), LogsDir (Paths cfg)]) (\<lambda>_.
               Inr (cfg\<lparr> Profiles := ps2 \<rparr>))))))
             (ResolveProfileInheritance order1 order2 ps)))"

end
