(* ===== verification/ConfigValidate.thy ===== *)
theory ConfigValidate
  imports ConfigInherit Hosts
begin

text \<open>
  Validating a profile when it is used (\<open>internal/config/validate.go\<close>) and applying it
  (\<open>Config.ApplyProfile\<close>). \<open>exists\<close> is \<open>os.Stat\<close> without error.
\<close>

section \<open>Validation\<close>

text \<open>\<open>strconv.ParseUint(s, 8, 32)\<close>\<close>

definition parse_octal32 :: "string \<Rightarrow> nat option" where
  "parse_octal32 s =
     (if s \<noteq> [] \<and> list_all (\<lambda>c. CHR ''0'' \<le> c \<and> c \<le> CHR ''7'') s
      then (let n = fold (\<lambda>c n. n * 8 + digit_val c) s 0 in if n < 2 ^ 32 then Some n else None)
      else None)"

definition validateMount :: "nat \<Rightarrow> MountEntry \<Rightarrow> unit result" where
  "validateMount i m =
     (if MHost m = [] then Inl (Errorf ''mount[%d] is missing host path'' [itoa i])
      else if MContainer m = [] then Inl (Errorf ''mount[%d] is missing container path'' [itoa i])
      else Inr ())"

definition validateCredential :: "nat \<Rightarrow> CredentialEntry \<Rightarrow> unit result" where
  "validateCredential i c =
     (let hasBundle = CBundle c \<noteq> []; hasAdHoc = CHost c \<noteq> [] \<or> CContainer c \<noteq> [] in
      if hasBundle \<and> hasAdHoc then Inl (Errorf ''credentials[%d] must set either bundle or host+container, not both'' [itoa i])
      else if \<not> hasBundle \<and> \<not> hasAdHoc then Inl (Errorf ''credentials[%d] must set either bundle or host+container'' [itoa i])
      else if hasAdHoc \<and> CHost c = [] then Inl (Errorf ''credentials[%d] is missing host path'' [itoa i])
      else if hasAdHoc \<and> CContainer c = [] then Inl (Errorf ''credentials[%d] is missing container path'' [itoa i])
      else if CMode c \<noteq> [] \<and> parse_octal32 (CMode c) = None then Inl (Errorf ''credentials[%d] has invalid 'mode' %q'' [itoa i, CMode c])
      else Inr ())"

definition validatePort :: "string set \<Rightarrow> PortEntry \<Rightarrow> unit result" where
  "validatePort seen e =
     (if PName e = [] then Inl (Errorf ''ports[%d] is missing name'' [])
      else if PName e \<in> seen then Inl (Errorf ''ports[%d] duplicates name %q'' [PName e])
      else if PContainer e < 1 \<or> PContainer e > 65535 then Inl (Errorf ''ports[%d] container must be a TCP port'' [itoa_int (PContainer e)])
      else if PHost e \<noteq> 0 \<and> (PHost e < 1 \<or> PHost e > 65535) then Inl (Errorf ''ports[%d] host must be a TCP port'' [itoa_int (PHost e)])
      else if PListen e \<noteq> [] \<and> net_ParseIP (PListen e) = None then Inl (Errorf ''ports[%d] listen must be an IP address'' [PListen e])
      else Inr ())"

fun validateEach :: "(nat \<Rightarrow> 'a \<Rightarrow> unit result) \<Rightarrow> nat \<Rightarrow> 'a list \<Rightarrow> unit result" where
  "validateEach f i [] = Inr ()"
| "validateEach f i (x # xs) = bindE (f i x) (\<lambda>_. validateEach f (Suc i) xs)"

fun validatePorts :: "string set \<Rightarrow> PortEntry list \<Rightarrow> unit result" where
  "validatePorts seen [] = Inr ()"
| "validatePorts seen (e # es) = bindE (validatePort seen e) (\<lambda>_. validatePorts (insert (PName e) seen) es)"

definition validatePool :: "PortsConfig option \<Rightarrow> unit result" where
  "validatePool p = (case p of None \<Rightarrow> Inr ()
     | Some q \<Rightarrow> if Pool q < 0 \<or> Pool q > 10 then Inl (Errorf ''[ports] pool must be 0-10, got %d'' [itoa_int (Pool q)]) else Inr ())"

definition validateMode :: "NetworkToml option \<Rightarrow> unit result" where
  "validateMode n = (case n of None \<Rightarrow> Inr ()
     | Some c \<Rightarrow> if NtMode c = [] \<or> NtMode c \<in> {NetworkModeOpen, NetworkModeRestricted, NetworkModeAllowlist} then Inr ()
         else Inl (Errorf ''invalid network mode %q'' [NtMode c]))"

definition validateProfileHosts :: "NetworkToml option \<Rightarrow> unit result" where
  "validateProfileHosts n = (case n of None \<Rightarrow> Inr () | Some c \<Rightarrow>
     if slice (NtHosts c) \<noteq> [] then ValidateNetworkHosts (slice (NtHosts c)) else Inr ())"

definition ValidateProfile :: "(string \<Rightarrow> bool) \<Rightarrow> string \<Rightarrow> ProfileConfig \<Rightarrow> unit result" where
  "ValidateProfile exists name p = wrapE (''profile '' @ name)
     (if PrContext p \<noteq> [] \<and> \<not> exists (PrContext p) then Inl (Errorf ''context file %q does not exist'' [PrContext p])
      else if Script (Build (PrContainer p)) \<noteq> [] \<and> \<not> exists (Script (Build (PrContainer p)))
        then Inl (Errorf ''build script %q does not exist'' [Script (Build (PrContainer p))])
      else bindE (validateEach validateMount 0 (slice (PrMounts p))) (\<lambda>_.
           bindE (validateEach validateCredential 0 (slice (PrCredentials p))) (\<lambda>_.
           bindE (validatePool (PrPorts p)) (\<lambda>_.
           bindE (validatePorts {} (case PrPorts p of None \<Rightarrow> [] | Some q \<Rightarrow> PortMap q)) (\<lambda>_.
           bindE (validateMode (PrNetwork p)) (\<lambda>_. validateProfileHosts (PrNetwork p)))))))"

section \<open>Applying a profile\<close>

definition ApplyProfile :: "osenv \<Rightarrow> (string \<Rightarrow> bool) \<Rightarrow> Config \<Rightarrow> string \<Rightarrow> Config result" where
  "ApplyProfile os exists c name =
     (case GetProfile c name of
        None \<Rightarrow> Inl (Errorf ''profile %s not found'' [name])
      | Some p \<Rightarrow> bindE (ValidateProfile exists name p) (\<lambda>_. Inr (applyProfileTo os c p)))"

end
