(* ===== verification/ConfigSafety.thy ===== *)
theory ConfigSafety
  imports ConfigValidate Egress
begin

text \<open>
  What merging and loading guarantee: field overlays form a monoid action (merging is
  idempotent, and inheriting is layering), an untrusted file never weakens the protections
  in place, ports keep distinct names and never lose the user's own pool.
\<close>

section \<open>Overlays\<close>

named_theorems overlay_laws \<open>a later overlay wins, and overlays compose\<close>

lemma mergeScalar_laws [overlay_laws]:
  "mergeScalar z (mergeScalar z d s) t = mergeScalar z d (mergeScalar z s t)"
  "mergeScalar z d z = d" "mergeScalar z d d = d"
  by (simp_all add: mergeScalar_def)

lemma mergePtr_laws [overlay_laws]:
  "mergePtr (mergePtr d s) t = mergePtr d (mergePtr s t)"
  "mergePtr d None = d" "mergePtr d d = d" "mergePtr d (Some x) = Some x"
  by (simp_all add: mergePtr_def split: option.splits)

lemma mergeSlice_laws [overlay_laws]:
  "mergeSlice (mergeSlice d s) t = mergeSlice d (mergeSlice s t)"
  "mergeSlice d None = d" "mergeSlice d d = d"
  by (simp_all add: mergeSlice_def split: option.splits)

lemma mergeFlag_laws [overlay_laws]:
  "mergeFlag (mergeFlag d s) t = mergeFlag d (mergeFlag s t)"
  "mergeFlag d False = d" "mergeFlag d d = d"
  by (simp_all add: mergeFlag_def)

lemma mergeNonempty_laws [overlay_laws]:
  "mergeNonempty (mergeNonempty d s) t = mergeNonempty d (mergeNonempty s t)"
  "mergeNonempty d [] = d" "mergeNonempty d d = d"
  by (simp_all add: mergeNonempty_def)

lemma uniqueAcc_append: "uniqueAcc base (xs @ ys) = uniqueAcc (uniqueAcc base xs) ys"
  by (induction xs arbitrary: base) auto

lemma set_uniqueAcc [simp]: "set (uniqueAcc base xs) = set base \<union> set xs"
  by (induction xs arbitrary: base) auto

lemma uniqueAcc_known: "set xs \<subseteq> set base \<Longrightarrow> uniqueAcc base xs = base"
  by (induction xs) auto

lemma uniqueAcc_base: "uniqueAcc base (uniqueAcc a b) = uniqueAcc (uniqueAcc base a) b"
proof (induction b arbitrary: a)
  case (Cons x b)
  have "uniqueAcc base (a @ [x]) = uniqueAcc (uniqueAcc base a) [x]" by (rule uniqueAcc_append)
  with Cons show ?case by simp
qed simp

lemma uniqueAcc_spec: "\<exists>new. uniqueAcc base xs = base @ new \<and> distinct new \<and> set new = set xs - set base \<and> subseq new xs"
proof (induction xs arbitrary: base)
  case (Cons x xs)
  show ?case
  proof (cases "x \<in> set base")
    case True
    with Cons[of base] show ?thesis by (auto intro: subseq_Cons')
  next
    case False
    obtain new where n: "uniqueAcc (base @ [x]) xs = (base @ [x]) @ new" "distinct new"
        "set new = set xs - set (base @ [x])" "subseq new xs"
      using Cons[of "base @ [x]"] by blast
    with False show ?thesis by (intro exI[of _ "x # new"]) auto
  qed
qed simp

lemma MergeStringSliceUnique_laws [overlay_laws]:
  "MergeStringSliceUnique (MergeStringSliceUnique d s) t = MergeStringSliceUnique d (MergeStringSliceUnique s t)"
  "MergeStringSliceUnique d [] = d" "MergeStringSliceUnique d d = d"
  by (simp_all add: MergeStringSliceUnique_def uniqueAcc_base uniqueAcc_known)

lemma set_MergeStringSliceUnique [simp]: "set (MergeStringSliceUnique d s) = set d \<union> set s"
  by (simp add: MergeStringSliceUnique_def)

lemma mergeBuildInto_laws [overlay_laws]:
  "mergeBuildInto (mergeBuildInto d s) t = mergeBuildInto d (mergeBuildInto s t)"
  "mergeBuildInto d d = d"
  by (simp_all add: mergeBuildInto_def overlay_laws)

lemma section_assoc:
  "mergeContainerInto (mergeContainerInto c c1) c2 = mergeContainerInto c (mergeContainerInto c1 c2)"
  "mergeLimits (mergeLimits l l1) l2 = mergeLimits l (mergeLimits l1 l2)"
  "mergeMonitoring (mergeMonitoring m m1) m2 = mergeMonitoring m (mergeMonitoring m1 m2)"
  "mergeToolInto (mergeToolInto t t1) t2 = mergeToolInto t (mergeToolInto t1 t2)"
  "mergeNetworkInto (mergeNetworkInto n n1) n2 = mergeNetworkInto n (mergeNetworkInto n1 n2)"
  "mergePathsInto (mergePathsInto p p1) p2 = mergePathsInto p (mergePathsInto p1 p2)"
  "mergeIncusInto (mergeIncusInto i i1) i2 = mergeIncusInto i (mergeIncusInto i1 i2)"
  "mergeGitInto (mergeGitInto g g1) g2 = mergeGitInto g (mergeGitInto g1 g2)"
  "mergeSSHInto (mergeSSHInto h h1) h2 = mergeSSHInto h (mergeSSHInto h1 h2)"
  "mergeSecurityInto (mergeSecurityInto s s1) s2 = mergeSecurityInto s (mergeSecurityInto s1 s2)"
  "mergeTimezoneInto (mergeTimezoneInto z z1) z2 = mergeTimezoneInto z (mergeTimezoneInto z1 z2)"
  "mergeShellInto (mergeShellInto u u1) u2 = mergeShellInto u (mergeShellInto u1 u2)"
  by (simp_all add: mergeContainerInto_def mergeLimits_def mergeMonitoring_def mergeToolInto_def
      mergeNetworkInto_def mergePathsInto_def mergeIncusInto_def mergeGitInto_def mergeSSHInto_def
      mergeSecurityInto_def mergeTimezoneInto_def mergeShellInto_def overlay_laws)

lemma overlay_struct:
  "(\<And>a b c. f (f a b) c = f a (f b c)) \<Longrightarrow> overlay f d (mergeStructPtr f p c) = overlay f (overlay f d p) c"
  by (simp add: overlay_def mergeStructPtr_def split: option.splits)


text \<open>Merging string lists without duplicates keeps the base, appends exactly the strings that are
  not in it, each once and in the order they first appear, and merging again changes nothing.\<close>

theorem merge_unique:
  "\<exists>new. MergeStringSliceUnique base other = base @ new \<and> distinct new \<and>
     set new = set other - set base \<and> subseq new other \<and>
     MergeStringSliceUnique (base @ new) other = base @ new"
proof -
  obtain new where n: "uniqueAcc base other = base @ new" "distinct new" "set new = set other - set base" "subseq new other"
    using uniqueAcc_spec[of base other] by blast
  have "set other \<subseteq> set (base @ new)" using n(3) by auto
  then have "uniqueAcc (base @ new) other = base @ new" by (rule uniqueAcc_known)
  with n show ?thesis unfolding MergeStringSliceUnique_def by blast
qed

text \<open>Applying the container section of a profile again changes nothing, and it never replaces an
  alias the project has set.\<close>

theorem reapply_idempotent:
  assumes "ReapplyProfileContainer c name = Inr c1"
  shows "ReapplyProfileContainer c1 name = Inr c1 \<and>
    (Alias (Container c) \<noteq> [] \<longrightarrow> Alias (Container c1) = Alias (Container c))"
proof (intro conjI impI)
  obtain p where p: "map_of (Profiles c) name = Some p" "c1 = c\<lparr> Container := applyContainer (Container c) (PrContainer p) \<rparr>"
    using assms by (auto simp: ReapplyProfileContainer_def GetProfile_def split: option.splits)
  have twice: "applyContainer (applyContainer d s) s = applyContainer d s" for d s
    by (simp add: applyContainer_def Let_def mergeContainerInto_def overlay_laws mergeScalar_def)
  show "ReapplyProfileContainer c1 name = Inr c1"
    using p by (simp add: ReapplyProfileContainer_def GetProfile_def twice)
  show "Alias (Container c1) = Alias (Container c)" if "Alias (Container c) \<noteq> []"
    using that p by (simp add: applyContainer_def Let_def)
qed

lemma reapply_idempotent_witness:
  "\<exists>c1. ReapplyProfileContainer (emptyConfig\<lparr> Container := emptyContainer\<lparr> Alias := ''web'' \<rparr>,
        Profiles := [(''p'', emptyProfile\<lparr> PrContainer := emptyContainer\<lparr> Alias := ''x'', Image := ''img'' \<rparr> \<rparr>)] \<rparr>) ''p'' = Inr c1 \<and>
     ReapplyProfileContainer c1 ''p'' = Inr c1 \<and> Alias (Container c1) = ''web''"
proof -
  define c where "c = emptyConfig\<lparr> Container := emptyContainer\<lparr> Alias := ''web'' \<rparr>,
        Profiles := [(''p'', emptyProfile\<lparr> PrContainer := emptyContainer\<lparr> Alias := ''x'', Image := ''img'' \<rparr> \<rparr>)] \<rparr>"
  obtain c1 where r: "ReapplyProfileContainer c ''p'' = Inr c1"
    by (simp add: c_def ReapplyProfileContainer_def GetProfile_def)
  have "Alias (Container c) = ''web''" by (simp add: c_def)
  with r reapply_idempotent[OF r] show ?thesis by (auto simp: c_def[symmetric])
qed

section \<open>An untrusted file\<close>

text \<open>What is left of an untrusted file never overrides these fields of a section.\<close>

lemma untrusted_sections:
  "mergeGitInto g (sanitizeUntrustedGit g') = g"
  "SessionName (mergeContainerInto c (sanitizeUntrustedSessionName c')) = SessionName c"
  "ContextFile (mergeToolInto t (sanitizeUntrustedTool t')) = ContextFile t"
  "ContextJSONFile (mergeToolInto t (sanitizeUntrustedTool t')) = ContextJSONFile t"
  by (simp_all add: mergeGitInto_def sanitizeUntrustedGit_def mergeContainerInto_def
      sanitizeUntrustedSessionName_def mergeToolInto_def sanitizeUntrustedTool_def overlay_laws)

lemma untrusted_security:
  "DisableProtection (mergeSecurityInto s (sanitizeUntrustedSecurity s')) = DisableProtection s"
  "HostImmutable (mergeSecurityInto s (sanitizeUntrustedSecurity s')) = HostImmutable s"
  "set (GetEffectiveProtectedPaths s) \<subseteq> set (GetEffectiveProtectedPaths (mergeSecurityInto s (sanitizeUntrustedSecurity s')))"
  "set (SecretPaths s) \<subseteq> set (SecretPaths (mergeSecurityInto s (sanitizeUntrustedSecurity s')))"
  by (auto simp: mergeSecurityInto_def sanitizeUntrustedSecurity_def overlay_laws GetEffectiveProtectedPaths_def)

lemma untrusted_defaults:
  assumes "d'' = sanitizeUntrustedDefaultProfile (sanitizeUntrustedEnvCommands d')"
  shows "DefaultProfile (mergeDefaultsInto d d'') = DefaultProfile d"
    "DEnvCommands (mergeDefaultsInto d d'') = DEnvCommands d"
  using assms by (simp_all add: mergeDefaultsInto_def sanitizeUntrustedDefaultProfile_def
      sanitizeUntrustedEnvCommands_def overlay_laws mergeMap_def)

lemma markUntrustedPorts_entries:
  "e \<in> set (PortMap (markUntrustedPorts src p)) \<Longrightarrow> PUntrusted e \<and> PSource e = src"
  "Pool (markUntrustedPorts src p) > 0 \<Longrightarrow> PoolUntrusted (markUntrustedPorts src p)"
  by (auto simp: markUntrustedPorts_def Let_def HasPorts_def split: if_splits)

lemma set_putPort: "set (putPort e ps) \<subseteq> insert e (set ps)"
  by (induction ps) auto

lemma set_fold_putPort: "set (fold putPort es ps) \<subseteq> set es \<union> set ps"
proof (induction es arbitrary: ps)
  case (Cons e es)
  from Cons[of "putPort e ps"] set_putPort[of e ps] show ?case by auto
qed simp

lemma mergePortsInto_entries: "e \<in> set (PortMap (mergePortsInto d s)) \<Longrightarrow> e \<in> set (PortMap d) \<or> e \<in> set (PortMap s)"
  using set_fold_putPort[of "PortMap s" "PortMap d"] by (auto simp: mergePortsInto_def Let_def split: if_splits)

lemma resolvePromptFiles_nil [simp]: "resolvePromptFiles os d (sanitizeUntrustedPrompts ps) = []"
  by (simp add: resolvePromptFiles_def sanitizeUntrustedPrompts_def)

lemma SessionName_resolve: "SessionName (Container (resolveConfigPaths os path f)) = SessionName (Container f)"
  by (simp add: resolveConfigPaths_def Let_def)

lemma load_decodes: "loadConfigFileScoped os decode cfg path t = Inr cfg' \<Longrightarrow> \<exists>f. decode path = Inr f"
  by (auto simp: loadConfigFileScoped_def bindE_Inr)

lemma untrusted_load:
  assumes "loadConfigFileScoped os decode cfg path False = Inr cfg'" and "decode path = Inr f"
  shows "Network cfg' = (let n = mergeNetworkInto (Network cfg) (sanitizeUntrustedNetwork (Network f))
           in n\<lparr> NtLogging := (NtLogging n)\<lparr> LogPath := ExpandPath os (LogPath (NtLogging n)) \<rparr> \<rparr>)"
    and "Security cfg' = mergeSecurityInto (Security cfg) (sanitizeUntrustedSecurity (Security f))"
    and "Git cfg' = Git cfg" and "Prompts cfg' = Prompts cfg" and "Profiles cfg' = Profiles cfg"
    and "ContextFile (Tool cfg') = ExpandPath os (ContextFile (Tool cfg))"
    and "ContextJSONFile (Tool cfg') = ExpandPath os (ContextJSONFile (Tool cfg))"
    and "SessionName (Container cfg') = SessionName (Container cfg)"
    and "DefaultProfile (Defaults cfg') = DefaultProfile (Defaults cfg)"
    and "DEnvCommands (Defaults cfg') = DEnvCommands (Defaults cfg)"
    and "Mounts cfg' = Mounts cfg @ markUntrustedMounts (sourceOf os path) (Mounts f)"
    and "Sockets cfg' = Sockets cfg @ markUntrustedSockets (sourceOf os path) (Sockets f)"
    and "Credentials cfg' = Credentials cfg @ markUntrustedCredentials (sourceOf os path) (Credentials f)"
    and "Config.Ports cfg' = mergePortsInto (Config.Ports cfg) (markUntrustedPorts (sourceOf os path) (Config.Ports f))"
proof -
  have c: "cfg' = MergeConfig os cfg (resolveConfigPaths os path (scopedConfig os path False f))"
    using assms by (auto simp: loadConfigFileScoped_def bindE_Inr)
  note defs = c MergeConfig_def expandConfigPaths_def resolveConfigPaths_def scopedConfig_def Let_def
    sanitizeUntrustedConfig_def untrusted_sections untrusted_defaults mergeMap_def
    mergeContainerInto_def sanitizeUntrustedSessionName_def overlay_laws
  show "Network cfg' = (let n = mergeNetworkInto (Network cfg) (sanitizeUntrustedNetwork (Network f))
           in n\<lparr> NtLogging := (NtLogging n)\<lparr> LogPath := ExpandPath os (LogPath (NtLogging n)) \<rparr> \<rparr>)"
    and "Security cfg' = mergeSecurityInto (Security cfg) (sanitizeUntrustedSecurity (Security f))"
    and "Git cfg' = Git cfg" and "Prompts cfg' = Prompts cfg" and "Profiles cfg' = Profiles cfg"
    and "ContextFile (Tool cfg') = ExpandPath os (ContextFile (Tool cfg))"
    and "ContextJSONFile (Tool cfg') = ExpandPath os (ContextJSONFile (Tool cfg))"
    and "SessionName (Container cfg') = SessionName (Container cfg)"
    and "DefaultProfile (Defaults cfg') = DefaultProfile (Defaults cfg)"
    and "DEnvCommands (Defaults cfg') = DEnvCommands (Defaults cfg)"
    and "Mounts cfg' = Mounts cfg @ markUntrustedMounts (sourceOf os path) (Mounts f)"
    and "Sockets cfg' = Sockets cfg @ markUntrustedSockets (sourceOf os path) (Sockets f)"
    and "Credentials cfg' = Credentials cfg @ markUntrustedCredentials (sourceOf os path) (Credentials f)"
    and "Config.Ports cfg' = mergePortsInto (Config.Ports cfg) (markUntrustedPorts (sourceOf os path) (Config.Ports f))"
    by (simp_all add: defs)
qed

definition demoOS :: osenv where
  "demoOS = \<lparr> HomeDir = Some ''/home/u'', WorkDir = Some ''/home/u/repo'', COI_CONFIG = [] \<rparr>"

definition demoUser :: Config where
  "demoUser = emptyConfig\<lparr>
     Security := emptySecurity\<lparr> ProtectedPaths := [''.git/hooks'', ''.husky''], WritablePaths := [''.husky''] \<rparr>,
     Network := emptyNetwork\<lparr> NtMode := NetworkModeRestricted, NtBlockPrivate := Some True,
        NtDNSServers := Some [''9.9.9.9''], NtAllowedPorts := Some [443] \<rparr> \<rparr>"

definition demoProject :: Config where
  "demoProject = emptyConfig\<lparr>
     Security := emptySecurity\<lparr> DisableProtection := True, WritablePaths := [''.git/hooks''] \<rparr>,
     Network := emptyNetwork\<lparr> NtMode := NetworkModeOpen, NtBlockPrivate := Some False, NtAllowLocal := Some True,
        NtDNSServers := Some [''6.6.6.6''] \<rparr>,
     Mounts := [\<lparr> MHost = ''/etc'', MContainer = ''/mnt'', MReadonly = False, MUntrusted = False, MSource = [] \<rparr>] \<rparr>"

abbreviation demoPath :: string where
  "demoPath \<equiv> ''/home/u/repo/.coi/config.toml''"

lemma demo_loads: "\<exists>c. loadConfigFileScoped demoOS (\<lambda>_. Inr f) demoUser demoPath False = Inr c"
  by (simp add: loadConfigFileScoped_def)



text \<open>The network section: a field the file leaves out or writes a non-empty list for is kept.\<close>

lemma untrusted_network_fields:
  assumes "n' = mergeNetworkInto n (sanitizeUntrustedNetwork m)"
    and "NtHosts m \<noteq> Some []" "NtDNSServers m \<noteq> Some []" "NtAllowedPorts m \<noteq> Some []"
  shows "NtHosts n' = NtHosts n" "NtDNSServers n' = NtDNSServers n" "NtAllowedPorts n' = NtAllowedPorts n"
    "BoolVal (NtBlockPrivate n) \<Longrightarrow> BoolVal (NtBlockPrivate n')"
    "BoolVal (NtBlockMetadata n) \<Longrightarrow> BoolVal (NtBlockMetadata n')"
    "BoolVal (NtAllowLocal n') \<Longrightarrow> BoolVal (NtAllowLocal n)"
    "NtMode n' = NetworkModeOpen \<Longrightarrow> NtMode n = NetworkModeOpen"
  using assms(2-) unfolding assms(1)
  by (auto simp: mergeNetworkInto_def sanitizeUntrustedNetwork_def mergeSlice_def mergePtr_def mergeScalar_def
      BoolVal_def slice_def split: option.splits if_splits)

lemma decision_mono:
  assumes "(if G then Accept else if D then (if R then Accept else Reject) else if L' \<and> F \<and> P then Accept
      else if \<not> L' \<and> B' \<and> F then Reject else if M' \<and> K then Reject else if P then Accept
      else if I then Accept else Reject) = Accept"
    and "B \<Longrightarrow> B'" "M \<Longrightarrow> M'" "L' \<Longrightarrow> L"
  shows "(if G then Accept else if D then (if R then Accept else Reject) else if L \<and> F \<and> P then Accept
      else if \<not> L \<and> B \<and> F then Reject else if M \<and> K then Reject else if P then Accept
      else if I then Accept else Reject) = Accept"
  using assms by (cases G; cases D; cases R; cases F; cases P; cases K; cases L) (auto split: if_splits)

lemma restrictedSpec_mono:
  assumes "DNSServers c' = DNSServers c" "AllowedPorts c' = AllowedPorts c"
    and "BoolVal (BlockPrivateNetworks c) \<Longrightarrow> BoolVal (BlockPrivateNetworks c')"
    and "BoolVal (BlockMetadataEndpoint c) \<Longrightarrow> BoolVal (BlockMetadataEndpoint c')"
    and "BoolVal (AllowLocalNetworkAccess c') \<Longrightarrow> BoolVal (AllowLocalNetworkAccess c)"
    and "restrictedSpec gw c' p = Accept"
  shows "restrictedSpec gw c p = Accept"
proof -
  have "portAllowed c' p = portAllowed c p" using assms(2) by (simp add: portAllowed_def)
  with assms(6) show ?thesis unfolding restrictedSpec_def Let_def
    by (simp only: assms(1)) (rule decision_mono[OF _ assms(3-5)])
qed

text \<open>C13. Loading an untrusted configuration file opens nothing in restricted mode: every packet the
  restricted policy of the merged configuration accepts was accepted before, the mode does
  not become open, and the host entries stay. The file must not write an empty list for a
  field that is stripped when it is not empty (the loader lets that through).\<close>

theorem untrusted_network_safe:
  assumes "loadConfigFileScoped os decode cfg path False = Inr cfg'" and "decode path = Inr f"
    and "NtHosts (Network f) \<noteq> Some []" "NtDNSServers (Network f) \<noteq> Some []" "NtAllowedPorts (Network f) \<noteq> Some []"
  shows "(restrictedSpec gw (netConfig (Network cfg')) p = Accept \<longrightarrow> restrictedSpec gw (netConfig (Network cfg)) p = Accept) \<and>
    (NtMode (Network cfg') = NetworkModeOpen \<longrightarrow> NtMode (Network cfg) = NetworkModeOpen) \<and>
    NtHosts (Network cfg') = NtHosts (Network cfg)"
proof -
  define n' where "n' = mergeNetworkInto (Network cfg) (sanitizeUntrustedNetwork (Network f))"
  have n: "Network cfg' = n'\<lparr> NtLogging := (NtLogging n')\<lparr> LogPath := ExpandPath os (LogPath (NtLogging n')) \<rparr> \<rparr>"
    using untrusted_load(1)[OF assms(1,2)] by (simp add: n'_def Let_def)
  note fields = untrusted_network_fields[OF n'_def assms(3-5)]
  have "restrictedSpec gw (netConfig (Network cfg)) p = Accept" if "restrictedSpec gw (netConfig (Network cfg')) p = Accept"
    by (rule restrictedSpec_mono[OF _ _ _ _ _ that]) (use fields in \<open>simp_all add: n netConfig_def\<close>)
  with fields show ?thesis by (simp add: n)
qed

lemma untrusted_network_safe_witness:
  "\<exists>c. loadConfigFileScoped demoOS (\<lambda>_. Inr demoProject) demoUser demoPath False = Inr c \<and>
     NtMode (Network c) \<noteq> NetworkModeOpen \<and> NtHosts (Network c) = NtHosts (Network demoUser) \<and>
     (\<forall>gw p. restrictedSpec gw (netConfig (Network c)) p = Accept \<longrightarrow>
        restrictedSpec gw (netConfig (Network demoUser)) p = Accept)"
proof -
  obtain c where c: "loadConfigFileScoped demoOS (\<lambda>_. Inr demoProject) demoUser demoPath False = Inr c"
    using demo_loads by blast
  have f: "NtHosts (Network demoProject) \<noteq> Some []" "NtDNSServers (Network demoProject) \<noteq> Some []"
    "NtAllowedPorts (Network demoProject) \<noteq> Some []"
    by (simp_all add: demoProject_def emptyNetwork_def)
  have "NtMode (Network demoUser) \<noteq> NetworkModeOpen" by (simp add: demoUser_def)
  with untrusted_network_safe[OF c refl f] c show ?thesis by blast
qed

text \<open>C14. A list of the network section written as empty in an untrusted file is not stripped and
  replaces the trusted one: two such lines turn the resolver pin and the port cap of the
  user's configuration off, whatever they were.\<close>

theorem empty_lists_lift_pins:
  assumes "loadConfigFileScoped os decode cfg path False = Inr cfg'" and "decode path = Inr f"
    and "NtDNSServers (Network f) = Some []" "NtAllowedPorts (Network f) = Some []"
  shows "DNSServers (netConfig (Network cfg')) = [] \<and> AllowedPorts (netConfig (Network cfg')) = []"
proof -
  define n' where "n' = mergeNetworkInto (Network cfg) (sanitizeUntrustedNetwork (Network f))"
  have n: "Network cfg' = n'\<lparr> NtLogging := (NtLogging n')\<lparr> LogPath := ExpandPath os (LogPath (NtLogging n')) \<rparr> \<rparr>"
    using untrusted_load(1)[OF assms(1,2)] by (simp add: n'_def Let_def)
  show ?thesis using assms(3,4)
    by (simp add: n netConfig_def n'_def mergeNetworkInto_def sanitizeUntrustedNetwork_def mergeSlice_def)
qed

lemma empty_lists_lift_pins_witness:
  "\<exists>c. loadConfigFileScoped demoOS
        (\<lambda>_. Inr (emptyConfig\<lparr> Network := emptyNetwork\<lparr> NtDNSServers := Some [], NtAllowedPorts := Some [] \<rparr> \<rparr>))
        demoUser demoPath False = Inr c \<and>
     AllowedPorts (netConfig (Network demoUser)) = [443] \<and> DNSServers (netConfig (Network demoUser)) = [''9.9.9.9''] \<and>
     AllowedPorts (netConfig (Network c)) = [] \<and> DNSServers (netConfig (Network c)) = []"
proof -
  let ?f = "emptyConfig\<lparr> Network := emptyNetwork\<lparr> NtDNSServers := Some [], NtAllowedPorts := Some [] \<rparr> \<rparr>"
  obtain c where c: "loadConfigFileScoped demoOS (\<lambda>_. Inr ?f) demoUser demoPath False = Inr c"
    using demo_loads by blast
  have "AllowedPorts (netConfig (Network demoUser)) = [443]" "DNSServers (netConfig (Network demoUser)) = [''9.9.9.9'']"
    by (simp_all add: demoUser_def netConfig_def)
  with empty_lists_lift_pins[OF c refl] c show ?thesis by simp
qed

section \<open>Ports\<close>

definition portNamed :: "string \<Rightarrow> PortEntry list \<Rightarrow> PortEntry option" where
  "portNamed n ps = find (\<lambda>p. PName p = n) ps"

lemma portNamed_put: "portNamed n (putPort e ps) = (if PName e = n then Some e else portNamed n ps)"
  by (induction ps) (auto simp: portNamed_def)

lemma names_putPort: "PName ` set (putPort e ps) = insert (PName e) (PName ` set ps)"
  by (induction ps) auto

lemma distinct_putPort: "distinct (map PName ps) \<Longrightarrow> distinct (map PName (putPort e ps))"
  by (induction ps) (auto simp: names_putPort)

lemma distinct_fold_putPort: "distinct (map PName ps) \<Longrightarrow> distinct (map PName (fold putPort es ps))"
  by (induction es arbitrary: ps) (auto intro: distinct_putPort)

lemma portNamed_Cons: "portNamed n (e # es) = (if PName e = n then Some e else portNamed n es)"
  by (simp add: portNamed_def)

lemma portNamed_fold:
  "distinct (map PName es) \<Longrightarrow> portNamed n (fold putPort es ps) =
     (case portNamed n es of Some e \<Rightarrow> Some e | None \<Rightarrow> portNamed n ps)"
proof (induction es arbitrary: ps)
  case (Cons e es)
  have "portNamed (PName e) es = None" if "PName e \<notin> PName ` set es"
    using that unfolding portNamed_def find_None_iff by (metis image_eqI)
  with Cons show ?case by (auto simp: portNamed_put portNamed_Cons split: option.splits)
qed (simp add: portNamed_def)

lemma putPort_same: "portNamed (PName e) ps = Some e \<Longrightarrow> putPort e ps = ps"
  by (induction ps) (auto simp: portNamed_def split: if_splits)

lemma portNamed_in: "distinct (map PName es) \<Longrightarrow> e \<in> set es \<Longrightarrow> portNamed (PName e) es = Some e"
  by (induction es) (auto simp: portNamed_def)

lemma fold_putPort_same: "(\<And>e. e \<in> set es \<Longrightarrow> portNamed (PName e) ps = Some e) \<Longrightarrow> fold putPort es ps = ps"
  by (induction es) (auto simp: putPort_same)

text \<open>Merging a ports section keeps the entries' names distinct, gives every name the entry of the
  later source that has it, and merging the same section again changes nothing.\<close>

theorem ports_merge:
  assumes "distinct (map PName (PortMap d))" and "distinct (map PName (PortMap s))"
  shows "distinct (map PName (PortMap (mergePortsInto d s))) \<and>
    portNamed n (PortMap (mergePortsInto d s)) =
      (case portNamed n (PortMap s) of Some e \<Rightarrow> Some e | None \<Rightarrow> portNamed n (PortMap d)) \<and>
    mergePortsInto (mergePortsInto d s) s = mergePortsInto d s"
proof (cases "HasPorts s")
  case False
  then have "PortMap s = []" by (simp add: HasPorts_def)
  with False assms show ?thesis by (simp add: mergePortsInto_def portNamed_def)
next
  case True
  have m: "PortMap (mergePortsInto d s) = fold putPort (PortMap s) (PortMap d)"
    using True by (simp add: mergePortsInto_def Let_def)
  have "fold putPort (PortMap s) (fold putPort (PortMap s) (PortMap d)) = fold putPort (PortMap s) (PortMap d)"
    using assms(2) by (intro fold_putPort_same) (simp add: portNamed_fold portNamed_in)
  then have "mergePortsInto (mergePortsInto d s) s = mergePortsInto d s"
    by (auto simp: mergePortsInto_def Let_def)
  with assms show ?thesis unfolding m by (simp add: distinct_fold_putPort portNamed_fold)
qed

lemma ports_merge_witness:
  "portNamed ''db'' (PortMap (mergePortsInto
     (emptyPorts\<lparr> PortMap := [\<lparr> PName = ''db'', PContainer = 5432, PHost = 0, PListen = [], PUntrusted = False, PSource = [] \<rparr>] \<rparr>)
     (emptyPorts\<lparr> Pool := 2, PortMap := [\<lparr> PName = ''db'', PContainer = 5433, PHost = 0, PListen = [], PUntrusted = False, PSource = [] \<rparr>] \<rparr>)))
   = Some \<lparr> PName = ''db'', PContainer = 5433, PHost = 0, PListen = [], PUntrusted = False, PSource = [] \<rparr>"
  by (subst ports_merge[THEN conjunct2, THEN conjunct1]) (simp_all add: portNamed_def)

section \<open>What the loader lets through\<close>

text \<open>
  A profile of the project is not stripped of the host files the tool section reads, nor of
  its context file: a path that starts with a tilde names any file of the host.
\<close>

lemma untrusted_profile_keeps_host_files:
  "PrTool (loadedProfile os dir path False p) = PrTool p"
  "PrContext p \<noteq> [] \<Longrightarrow> PrContext (loadedProfile os dir path False p) = resolveRelativePath os dir (PrContext p)"
  by (simp_all add: loadedProfile_def sanitizeUntrustedProfile_def Let_def)

text \<open>A timeout without commands survives the stripping of the host commands.\<close>

lemma lone_timeout_survives:
  "DEnvCommands d = [] \<Longrightarrow> sanitizeUntrustedEnvCommands d = d"
  by (simp add: sanitizeUntrustedEnvCommands_def)

text \<open>
  A project may set the mode to \<open>restricted\<close> where the user chose \<open>allowlist\<close>, and may
  replace the user's list of domains.
\<close>

lemma untrusted_mode_replaces_allowlist:
  assumes "NtMode m = NetworkModeRestricted" and "NtAllowedDomains m = Some ds"
  shows "NtMode (mergeNetworkInto n (sanitizeUntrustedNetwork m)) = NetworkModeRestricted"
    "NtAllowedDomains (mergeNetworkInto n (sanitizeUntrustedNetwork m)) = Some ds"
  using assms by (simp_all add: mergeNetworkInto_def sanitizeUntrustedNetwork_def mergeScalar_def mergeSlice_def)

text \<open>
  Applying the built-in \<open>default\<close> profile to the configuration it was made from doubles
  every mount, socket and credential.
\<close>

lemma default_profile_doubles:
  "Mounts (applyProfileTo os c (synthesizeDefaultProfile c)) = Mounts c @ Mounts c"
  "Sockets (applyProfileTo os c (synthesizeDefaultProfile c)) = Sockets c @ Sockets c"
  "Credentials (applyProfileTo os c (synthesizeDefaultProfile c)) = Credentials c @ Credentials c"
  by (simp_all add: applyProfileTo_def expandConfigPaths_def synthesizeDefaultProfile_def emptyProfile_def)

text \<open>Started in the home directory, the user's file is in the list of files twice.\<close>

lemma home_config_twice:
  assumes "HomeDir os = Some h" and "WorkDir os = Some h"
  shows "\<exists>p ps. GetConfigPaths os = p # p # ps"
  using assms by (simp add: GetConfigPaths_def homeOr_def workOr_def)

text \<open>The built-in default profile has a source, so its trusted session name is stripped.\<close>

lemma default_profile_session_stripped:
  "stripUntrustedInheritedSessionNames [(''default'', synthesizeDefaultProfile c)] =
     [(''default'', (synthesizeDefaultProfile c)\<lparr> PrContainer := (Container c)\<lparr> SessionName := [] \<rparr> \<rparr>)]"
  by (cases "SessionName (Container c) = []")
    (simp_all add: stripUntrustedInheritedSessionNames_def sanitizeUntrustedSessionName_def
      synthesizeDefaultProfile_def emptyProfile_def)

end
