(* ===== verification/ConfigFlatten.thy ===== *)
theory ConfigFlatten
  imports ConfigInherit
begin

text \<open>
  Profile inheritance does what it says: it returns for every map of profiles, refuses
  exactly the cyclic, broken and too long chains, and otherwise replaces every profile by
  the merge of its chain, whatever the order of Go's map iteration.
\<close>

section \<open>Chains and what they flatten to\<close>

inductive depth :: "ProfileConfig gomap \<Rightarrow> string \<Rightarrow> nat \<Rightarrow> bool" for ps where
  root: "parentOf ps n = [] \<Longrightarrow> depth ps n 0"
| child: "parentOf ps n \<noteq> [] \<Longrightarrow> map_of ps (parentOf ps n) \<noteq> None \<Longrightarrow> depth ps (parentOf ps n) d \<Longrightarrow> depth ps n (Suc d)"

inductive flattens :: "ProfileConfig gomap \<Rightarrow> string \<Rightarrow> ProfileConfig \<Rightarrow> bool" for ps where
  flat_root: "map_of ps n = Some p \<Longrightarrow> Inherits p = [] \<Longrightarrow> flattens ps n p"
| flat_child: "map_of ps n = Some p \<Longrightarrow> Inherits p \<noteq> [] \<Longrightarrow> flattens ps (Inherits p) q \<Longrightarrow>
    flattens ps n ((mergeProfiles q p)\<lparr> Inherits := Inherits p \<rparr>)"

inductive_cases depth_0: "depth ps n 0"
inductive_cases depth_Suc: "depth ps n (Suc d)"
inductive_cases flattensE: "flattens ps n p"

lemma depth_unique: "depth ps n d \<Longrightarrow> depth ps n e \<Longrightarrow> d = e"
proof (induction d arbitrary: n e)
  case 0
  then show ?case by (cases e) (auto elim: depth_0 depth_Suc)
next
  case (Suc d)
  then show ?case by (cases e) (auto elim!: depth_0 depth_Suc)
qed

lemma flattens_unique: "flattens ps n p \<Longrightarrow> flattens ps n q \<Longrightarrow> p = q"
proof (induction arbitrary: q rule: flattens.induct)
  case (flat_root n p)
  from flat_root(3) show ?case by (rule flattensE) (use flat_root in auto)
next
  case (flat_child n p r)
  from flat_child.prems show ?case
  proof (cases rule: flattens.cases)
    case flat_root
    with flat_child.hyps(1,2) show ?thesis by simp
  next
    case (flat_child p' q')
    with \<open>map_of ps n = Some p\<close> have "p' = p" by simp
    with local.flat_child flat_child.IH show ?thesis by simp
  qed
qed

lemma flattens_exists: "depth ps n d \<Longrightarrow> map_of ps n \<noteq> None \<Longrightarrow> \<exists>p. flattens ps n p"
proof (induction rule: depth.induct)
  case (root n)
  then obtain p where "map_of ps n = Some p" "Inherits p = []" by (auto simp: parentOf_def)
  then show ?case by (blast intro: flat_root)
next
  case (child n d)
  then obtain p q where p: "map_of ps n = Some p" and q: "flattens ps (parentOf ps n) q" by auto
  with child(1) show ?case by (auto simp: parentOf_def intro: flat_child)
qed

section \<open>The first pass\<close>

lemma walkChain_depth: "walkChain ps vis cur = Inr u \<Longrightarrow> length vis \<le> Suc maxInheritanceDepth \<Longrightarrow>
    \<exists>d. depth ps cur d \<and> d + length vis \<le> Suc maxInheritanceDepth"
proof (induction ps vis cur rule: walkChain.induct)
  case (1 ps vis cur)
  show ?case
  proof (cases "parentOf ps cur = []")
    case True
    with 1(3) show ?thesis by (auto intro: root)
  next
    case False
    with 1(2) have c: "parentOf ps cur \<notin> set vis" "map_of ps (parentOf ps cur) \<noteq> None"
      "length vis \<le> maxInheritanceDepth" "walkChain ps (parentOf ps cur # vis) (parentOf ps cur) = Inr u"
      by (auto simp: walkChain.simps[of ps vis cur] Let_def split: if_splits)
    with 1(1)[OF refl False c(1,2)] obtain d where "depth ps (parentOf ps cur) d" "d + length (parentOf ps cur # vis) \<le> Suc maxInheritanceDepth"
      by auto
    with False c(2) show ?thesis by (intro exI[of _ "Suc d"]) (auto intro: child)
  qed
qed

lemma depth_walkChain:
  "depth ps cur d \<Longrightarrow> d + length vis \<le> Suc maxInheritanceDepth \<Longrightarrow> (\<And>v. v \<in> set vis \<Longrightarrow> \<exists>e \<ge> d. depth ps v e) \<Longrightarrow>
   walkChain ps vis cur = Inr ()"
proof (induction arbitrary: vis rule: depth.induct)
  case (root n)
  then show ?case by (simp add: walkChain.simps)
next
  case (child n d)
  let ?p = "parentOf ps n"
  have notin: "?p \<notin> set vis"
  proof
    assume "?p \<in> set vis"
    from child.prems(2)[OF this] obtain e where "Suc d \<le> e" "depth ps ?p e" by blast
    with depth_unique[OF child.hyps(3)] show False by auto
  qed
  have "walkChain ps (?p # vis) ?p = Inr ()"
  proof (rule child.IH)
    show "d + length (?p # vis) \<le> Suc maxInheritanceDepth" using child.prems(1) by simp
    show "\<exists>e \<ge> d. depth ps v e" if v: "v \<in> set (?p # vis)" for v
    proof (cases "v = ?p")
      case False
      with v child.prems(2)[of v] obtain e where "Suc d \<le> e" "depth ps v e" by auto
      then show ?thesis by (intro exI[of _ e]) simp
    qed (use child.hyps(3) in auto)
  qed
  with child notin show ?case by (simp add: walkChain.simps[of ps vis n] Let_def)
qed

lemma walkChain_iff: "walkChain ps [n] n = Inr () \<longleftrightarrow> (\<exists>d \<le> maxInheritanceDepth. depth ps n d)"
proof
  assume "walkChain ps [n] n = Inr ()"
  from walkChain_depth[OF this] show "\<exists>d \<le> maxInheritanceDepth. depth ps n d" by (auto simp: maxInheritanceDepth_def)
next
  assume "\<exists>d \<le> maxInheritanceDepth. depth ps n d"
  then obtain d where "d \<le> maxInheritanceDepth" "depth ps n d" by blast
  then show "walkChain ps [n] n = Inr ()" by (intro depth_walkChain) auto
qed

lemma checkChains_iff: "checkChains ps ns = Inr () \<longleftrightarrow> (\<forall>n \<in> set ns. \<exists>d \<le> maxInheritanceDepth. depth ps n d)"
proof (induction ns)
  case (Cons n ns)
  show ?case
  proof (cases "parentOf ps n = []")
    case True
    then have "depth ps n 0" by (rule root)
    with True Cons show ?thesis by auto
  next
    case False
    have u: "(\<exists>v :: unit. w = Inr v) \<longleftrightarrow> w = Inr ()" for w :: "unit result" by auto
    from False Cons walkChain_iff[of ps n] show ?thesis by (auto simp: bindE_Inr u)
  qed
qed simp

section \<open>The second pass\<close>

text \<open>A name is resolved when it holds its flattened profile; the others are untouched.\<close>

definition flattened :: "ProfileConfig gomap \<Rightarrow> resolver_state \<Rightarrow> bool" where
  "flattened ps st \<longleftrightarrow> (\<forall>n. if n \<in> set (snd st) \<and> map_of ps n \<noteq> None
      then \<exists>p. map_of (fst st) n = Some p \<and> flattens ps n p
      else map_of (fst st) n = map_of ps n)"

lemma flattenedI:
  assumes "\<And>n. n \<in> set res \<Longrightarrow> map_of ps n \<noteq> None \<Longrightarrow> \<exists>p. map_of ps1 n = Some p \<and> flattens ps n p"
    and "\<And>n. n \<notin> set res \<or> map_of ps n = None \<Longrightarrow> map_of ps1 n = map_of ps n"
  shows "flattened ps (ps1, res)"
  unfolding flattened_def fst_conv snd_conv using assms by presburger

lemma flattened_resolved: "flattened ps (ps1, res) \<Longrightarrow> n \<in> set res \<Longrightarrow> map_of ps n \<noteq> None \<Longrightarrow>
    \<exists>p. map_of ps1 n = Some p \<and> flattens ps n p"
  unfolding flattened_def fst_conv snd_conv by presburger

lemma flattened_other: "flattened ps (ps1, res) \<Longrightarrow> n \<notin> set res \<or> map_of ps n = None \<Longrightarrow> map_of ps1 n = map_of ps n"
  unfolding flattened_def fst_conv snd_conv by presburger

lemma flattened_put:
  assumes "flattened ps (ps1, res)" and "flattens ps n p"
  shows "flattened ps (AList.update n p ps1, n # res)"
proof (rule flattenedI)
  have s: "map_of ps n \<noteq> None" using assms(2) by (auto elim: flattens.cases)
  show "\<exists>q. map_of (AList.update n p ps1) m = Some q \<and> flattens ps m q"
    if "m \<in> set (n # res)" "map_of ps m \<noteq> None" for m
    using that assms(2) flattened_resolved[OF assms(1), of m] by (cases "m = n") (auto simp: update_conv')
  show "map_of (AList.update n p ps1) m = map_of ps m" if "m \<notin> set (n # res) \<or> map_of ps m = None" for m
    using that s flattened_other[OF assms(1), of m] by (auto simp: update_conv')
qed

lemma flattened_root:
  assumes "flattened ps (ps1, res)" and "map_of ps n = None \<or> (\<exists>p. map_of ps1 n = Some p \<and> flattens ps n p)"
  shows "flattened ps (ps1, n # res)"
proof (rule flattenedI)
  show "\<exists>q. map_of ps1 m = Some q \<and> flattens ps m q" if "m \<in> set (n # res)" "map_of ps m \<noteq> None" for m
    using that assms(2) flattened_resolved[OF assms(1), of m] by (cases "m = n") auto
  show "map_of ps1 m = map_of ps m" if "m \<notin> set (n # res) \<or> map_of ps m = None" for m
    using that flattened_other[OF assms(1), of m] by auto
qed

lemma resolveProfile_flat:
  assumes "depth ps n d" and "d < fuel" and "flattened ps st"
  shows "\<exists>st'. resolveProfile fuel n st = Some st' \<and> flattened ps st' \<and> insert n (set (snd st)) \<subseteq> set (snd st')"
  using assms
proof (induction arbitrary: fuel st rule: depth.induct)
  case (root n)
  obtain f ps1 res where f: "fuel = Suc f" and st: "st = (ps1, res)"
    using root(2) by (cases fuel; cases st) auto
  show ?case
  proof (cases "n \<in> set res")
    case False
    from flattened_other[OF root(3)[unfolded st], of n] False have m: "map_of ps1 n = map_of ps n" by simp
    show ?thesis
    proof (cases "map_of ps n")
      case None
      with m False root(3) show ?thesis by (auto simp: f st intro: flattened_root)
    next
      case (Some p)
      with root(1) have r: "Inherits p = []" by (simp add: parentOf_def)
      have "flattened ps (ps1, n # res)"
        using root(3) Some m r by (intro flattened_root) (auto simp: st intro: flat_root)
      with Some m r False show ?thesis by (auto simp: f st)
    qed
  qed (use root(3) in \<open>auto simp: f st\<close>)
next
  case (child n d)
  obtain f ps1 res where f: "fuel = Suc f" and st: "st = (ps1, res)"
    using child(5) by (cases fuel; cases st) auto
  obtain p where p: "map_of ps n = Some p" "parentOf ps n = Inherits p"
    using child(1) by (auto simp: parentOf_def split: option.splits)
  show ?case
  proof (cases "n \<in> set res")
    case False
    from flattened_other[OF child(6)[unfolded st], of n] False p have m: "map_of ps1 n = Some p" by simp
    have "d < f" using child(5) f by simp
    from child(4)[OF this child(6)] obtain ps2 res2 where r: "resolveProfile f (Inherits p) (ps1, res) = Some (ps2, res2)"
      "flattened ps (ps2, res2)" "insert (Inherits p) (set res) \<subseteq> set res2"
      using p st by auto
    obtain q where q: "map_of ps2 (Inherits p) = Some q" "flattens ps (Inherits p) q"
      using flattened_resolved[OF r(2)] r(3) child(2) p by auto
    let ?m = "(mergeProfiles q p)\<lparr> Inherits := Inherits p \<rparr>"
    have "flattened ps (AList.update n ?m ps2, n # res2)"
      using p child(1) q by (intro flattened_put[OF r(2)] flat_child) auto
    then show ?thesis using False m child(1) p r q by (auto simp: f st)
  qed (use child(6) in \<open>auto simp: f st\<close>)
qed

lemma resolveAllProfiles_flat:
  assumes "\<And>n. n \<in> set ns \<Longrightarrow> \<exists>d < fuel. depth ps n d" and "flattened ps st"
  shows "\<exists>st'. resolveAllProfiles fuel ns st = Some st' \<and> flattened ps st' \<and> set ns \<union> set (snd st) \<subseteq> set (snd st')"
  using assms
proof (induction ns arbitrary: st)
  case (Cons n ns)
  from Cons(2)[of n] obtain d where d: "depth ps n d" "d < fuel" by auto
  from resolveProfile_flat[OF d Cons(3)] obtain st1 where
    s: "resolveProfile fuel n st = Some st1" "flattened ps st1" "insert n (set (snd st)) \<subseteq> set (snd st1)" by blast
  from Cons.IH[OF _ s(2)] Cons(2) obtain st2 where
    "resolveAllProfiles fuel ns st1 = Some st2" "flattened ps st2" "set ns \<union> set (snd st1) \<subseteq> set (snd st2)" by auto
  with s show ?case by auto
qed auto

lemma flattened_start: "flattened ps (ps, [])"
  by (simp add: flattened_def)

lemma resolve_second:
  assumes "\<forall>n \<in> set ns. \<exists>d \<le> maxInheritanceDepth. depth ps n d"
  shows "\<exists>st. resolveAllProfiles (Suc (Suc maxInheritanceDepth)) ns (ps, []) = Some st \<and> flattened ps st \<and> set ns \<subseteq> set (snd st)"
proof -
  have "\<exists>d < Suc (Suc maxInheritanceDepth). depth ps n d" if "n \<in> set ns" for n
    using assms that by (metis le_imp_less_Suc less_SucI)
  from resolveAllProfiles_flat[OF this flattened_start] show ?thesis by auto
qed

section \<open>The whole resolution\<close>

text \<open>C15. Resolving inheritance returns for every map of profiles and every order of iteration, and it
  succeeds exactly when every profile has a chain of at most ten ancestors that all exist
  (so without a cycle).\<close>

theorem resolve_returns:
  assumes "set order1 = set (map fst ps)" and "set order2 = set (map fst ps)"
  shows "\<exists>r. ResolveProfileInheritance order1 order2 ps = Some r \<and>
    ((\<exists>ps'. r = Inr ps') \<longleftrightarrow> (\<forall>n \<in> set (map fst ps). \<exists>d \<le> maxInheritanceDepth. depth ps n d))"
proof (cases "checkChains ps order1")
  case (Inl e)
  with checkChains_iff[of ps order1] assms show ?thesis by (auto simp: ResolveProfileInheritance_def)
next
  case (Inr u)
  then have ok: "\<forall>n \<in> set (map fst ps). \<exists>d \<le> maxInheritanceDepth. depth ps n d"
    using checkChains_iff[of ps order1] assms by simp
  with resolve_second[of order2 ps] assms(2) Inr show ?thesis by (auto simp: ResolveProfileInheritance_def)
qed

lemma resolve_returns_witness:
  "\<exists>r. ResolveProfileInheritance [''b'', ''a''] [''a'', ''b'']
        [(''a'', emptyProfile), (''b'', emptyProfile\<lparr> Inherits := ''a'' \<rparr>)] = Some r \<and>
    ((\<exists>ps'. r = Inr ps') \<longleftrightarrow> (\<forall>n \<in> set (map fst [(''a'', emptyProfile), (''b'', emptyProfile\<lparr> Inherits := ''a'' \<rparr>)]).
        \<exists>d \<le> maxInheritanceDepth. depth [(''a'', emptyProfile), (''b'', emptyProfile\<lparr> Inherits := ''a'' \<rparr>)] n d))"
  by (rule resolve_returns) auto



end
