(* ===== verification/NetIsolation.thy ===== *)
theory NetIsolation
  imports NetManager
begin

text \<open>
  What the network manager guarantees across its steps: isolation fails closed (the boot
  block stays in force until setup has succeeded), and a name in the container's hosts file
  never points to an address the firewall has not been told about.
\<close>

section \<open>Actions from one assertion to another\<close>

text \<open>Whatever the result, an action started where \<open>P\<close> holds ends where \<open>Q\<close> holds.\<close>

definition into :: "('w \<Rightarrow> bool) \<Rightarrow> ('w, 'a) act \<Rightarrow> ('w \<Rightarrow> bool) \<Rightarrow> bool" where
  "into P m Q \<longleftrightarrow> (\<forall>w r w'. P w \<longrightarrow> m w = (r, w') \<longrightarrow> Q w')"

lemma intoD: "into P m Q \<Longrightarrow> P w \<Longrightarrow> m w = (r, w') \<Longrightarrow> Q w'"
  by (auto simp: into_def)

lemma intoI: "(\<And>w r w'. P w \<Longrightarrow> m w = (r, w') \<Longrightarrow> Q w') \<Longrightarrow> into P m Q"
  by (auto simp: into_def)

lemma into_keeps: "keeps P m \<Longrightarrow> into P m P"
  by (rule intoI) (rule keepsD)

lemma into_mono: "into P m Q \<Longrightarrow> (\<And>w. P' w \<Longrightarrow> P w) \<Longrightarrow> (\<And>w. Q w \<Longrightarrow> Q' w) \<Longrightarrow> into P' m Q'"
  unfolding into_def by blast

text \<open>An error of the first action leaves its state, so \<open>R\<close> has to give \<open>Q\<close>; the values it
  returns satisfy \<open>V\<close>.\<close>

definition gives :: "('w \<Rightarrow> bool) \<Rightarrow> ('w, 'a) act \<Rightarrow> ('a \<Rightarrow> bool) \<Rightarrow> bool" where
  "gives P m V \<longleftrightarrow> (\<forall>w x w'. P w \<longrightarrow> m w = (Inr x, w') \<longrightarrow> V x)"

lemma into_bindV:
  assumes "into P m R" and "gives P m V" and "\<And>w. R w \<Longrightarrow> Q w" and "\<And>x. V x \<Longrightarrow> into R (f x) Q"
  shows "into P (bindA m f) Q"
proof (rule intoI)
  fix w r w'
  assume p: "P w" and b: "bindA m f w = (r, w')"
  obtain q w1 where q: "m w = (q, w1)" by force
  have R: "R w1" using intoD[OF assms(1) p q] .
  show "Q w'"
  proof (cases q)
    case (Inl e)
    with b q R assms(3) show ?thesis by (simp add: bindA_def)
  next
    case (Inr x)
    with assms(2) p q have "V x" by (auto simp: gives_def)
    from intoD[OF assms(4)[OF this] R] b q Inr show ?thesis by (simp add: bindA_def)
  qed
qed

lemma gives_True: "gives P m (\<lambda>_. True)"
  by (simp add: gives_def)

lemma into_bind: "into P m R \<Longrightarrow> (\<And>w. R w \<Longrightarrow> Q w) \<Longrightarrow> (\<And>x. into R (f x) Q) \<Longrightarrow> into P (bindA m f) Q"
  by (rule into_bindV[OF _ gives_True])

lemma into_then: "into P m R \<Longrightarrow> (\<And>w. R w \<Longrightarrow> Q w) \<Longrightarrow> into R k Q \<Longrightarrow> into P (thenA m k) Q"
  unfolding thenA_def by (rule into_bind)

lemma into_case_sum: "(\<And>e. r = Inl e \<Longrightarrow> into P (f e) Q) \<Longrightarrow> (\<And>x. r = Inr x \<Longrightarrow> into P (g x) Q) \<Longrightarrow>
    into P (case r of Inl e \<Rightarrow> f e | Inr x \<Rightarrow> g x) Q"
  by (cases r) auto

lemma into_wrap: "into P m Q \<Longrightarrow> into P (wrapA c m) Q"
  by (force simp: into_def wrapA_def split: prod.splits)

lemma into_warn: "into P m Q \<Longrightarrow> into P (warnA m) Q"
  by (force simp: into_def warnA_def split: prod.splits)

lemma into_try: "into P m Q \<Longrightarrow> into P (tryA m) Q"
  by (force simp: into_def tryA_def split: prod.splits)

lemma into_if: "(b \<Longrightarrow> into P m Q) \<Longrightarrow> (\<not> b \<Longrightarrow> into P k Q) \<Longrightarrow> into P (if b then m else k) Q"
  by simp

lemma into_ret: "(\<And>w. P w \<Longrightarrow> Q w) \<Longrightarrow> into P (retA x) Q" "(\<And>w. P w \<Longrightarrow> Q w) \<Longrightarrow> into P (failA e) Q"
  by (auto simp: into_def)

text \<open>Assertions about the world, for actions of the manager.\<close>

abbreviation onW :: "('w \<Rightarrow> bool) \<Rightarrow> 'w \<times> Manager \<Rightarrow> bool" where
  "onW P \<equiv> \<lambda>s. P (fst s)"

lemma into_inW: "into P m Q \<Longrightarrow> into (onW P) (inW m) (onW Q)"
  by (force simp: into_def inW_def split: prod.splits)

lemma keeps_inW: "keeps P m \<Longrightarrow> keeps (onW P) (inW m)"
  by (force simp: keeps_def inW_def split: prod.splits)

lemma keeps_getM: "keeps P getM"
  by (simp add: keeps_def getM_def)

lemma keeps_modM: "keeps (onW P) (modM f)"
  by (simp add: keeps_def modM_def)

text \<open>Assertions about the world and the manager, separately.\<close>

abbreviation both :: "('w \<Rightarrow> bool) \<Rightarrow> (Manager \<Rightarrow> bool) \<Rightarrow> 'w \<times> Manager \<Rightarrow> bool" where
  "both Q R \<equiv> \<lambda>s. Q (fst s) \<and> R (snd s)"

lemma both_inW: "keeps Q m \<Longrightarrow> keeps (both Q R) (inW m)"
  by (force simp: keeps_def inW_def split: prod.splits)

lemma both_modM: "(\<And>m. R m \<Longrightarrow> R (f m)) \<Longrightarrow> keeps (both Q R) (modM f)"
  by (simp add: keeps_def modM_def)

lemma keeps_case_prod: "(\<And>a b. keeps P (f a b)) \<Longrightarrow> keeps P (case x of (a, b) \<Rightarrow> f a b)"
  by (cases x) auto

lemma keeps_let: "(\<And>y. keeps P (f y)) \<Longrightarrow> keeps P (let x = e in f x)"
  by simp

lemma gives_both: "gives P m V \<Longrightarrow> gives (both Q R) (inW m) V" if "\<And>w. Q w \<Longrightarrow> P w"
  using that by (force simp: gives_def inW_def split: prod.splits)

lemma gives_inW: "gives P m V \<Longrightarrow> gives (onW P) (inW m) V"
  by (force simp: gives_def inW_def split: prod.splits)

lemma gives_wrap: "gives P m V \<Longrightarrow> gives P (wrapA c m) V"
  by (auto simp: gives_def wrapA_Inr)

section \<open>A rule that holds a packet back\<close>

text \<open>
  The rule \<open>bl\<close> is in the forward chain and nothing before it decides the packet, whatever the
  sets hold: the chain decides the packet as the rule does.
\<close>

definition held :: "string list \<Rightarrow> packet \<Rightarrow> nft_state \<Rightarrow> bool" where
  "held bl p s \<longleftrightarrow> (\<exists>pre post. toks fwd s = pre @ bl # post \<and> (\<forall>t \<in> set pre. \<forall>S. eval_toks S p t = None))"

lemma chain_verdict_silent: "(\<And>t. t \<in> set pre \<Longrightarrow> eval_toks S p t = None) \<Longrightarrow> chain_verdict S p (pre @ ts) = chain_verdict S p ts"
  by (induction pre) auto

lemma held_verdict:
  assumes "held bl p s" and "eval_toks S p bl = Some v"
  shows "chain_verdict S p (toks fwd s) = Some v"
proof -
  obtain pre post where t: "toks fwd s = pre @ bl # post" "\<And>t. t \<in> set pre \<Longrightarrow> eval_toks S p t = None"
    using assms(1) unfolding held_def by blast
  show ?thesis unfolding t(1) using chain_verdict_silent[of pre S p "bl # post"] t(2) assms(2) by simp
qed

lemma held_prefix: "prefix (toks fwd s) (toks fwd s') \<Longrightarrow> held bl p s \<Longrightarrow> held bl p s'"
  unfolding held_def prefix_def by fastforce

lemma held_chains: "nft_chains s' = nft_chains s \<Longrightarrow> held bl p s \<Longrightarrow> held bl p s'"
  by (simp add: held_def toks_def)

lemma held_pruned:
  assumes "pruned ch c s s'" and "comment_tok bl \<noteq> Some (quoted c)" and "held bl p s"
  shows "held bl p s'"
proof (cases "ch = fwd")
  case False
  with pruned_toks(1)[OF assms(1), of fwd] assms(3) show ?thesis by (auto simp: held_def)
next
  case True
  obtain P where P: "\<And>r. \<not> has_comment c r \<Longrightarrow> P r"
    "s' = s\<lparr>nft_chains := (nft_chains s)(ch := map_option (filter P) (nft_chains s ch))\<rparr>"
    by (rule prunedE[OF assms(1)]) blast
  obtain pre post where t: "toks fwd s = pre @ bl # post" "\<forall>t \<in> set pre. \<forall>S. eval_toks S p t = None"
    using assms(3) unfolding held_def by blast
  obtain rs where rs: "nft_chains s fwd = Some rs" "map snd rs = pre @ bl # post"
    using t(1) by (auto simp: toks_def split: option.splits)
  obtain r1 r r2 where r: "rs = r1 @ r # r2" "map snd r1 = pre" "snd r = bl"
    using rs(2) by (auto simp: map_eq_append_conv map_eq_Cons_conv)
  have "P r" by (rule P(1)) (use r(3) assms(2) in \<open>simp add: has_comment_def\<close>)
  then have "toks fwd s' = map snd (filter P r1) @ bl # map snd (filter P r2)"
    using P(2) True rs(1) r by (simp add: toks_def)
  moreover have "set (map snd (filter P r1)) \<subseteq> set pre"
    unfolding r(2)[symmetric] set_map set_filter by (rule image_mono) blast
  ultimately show ?thesis using t(2) unfolding held_def by blast
qed

lemma boot_comment_other:
  assumes "parse_v4 ip = Some a"
  shows "comment_tok (dropToks veth (bootBlockComment name)) = Some (quoted (bootBlockComment name)) \<or> veth = ''comment''"
    and "quoted (bootBlockComment name) \<noteq> quoted (''coi-'' @ ip)"
proof -
  show "comment_tok (dropToks veth (bootBlockComment name)) = Some (quoted (bootBlockComment name)) \<or> veth = ''comment''"
    by simp
  have "CHR ''b'' \<notin> set ip" using parse_v4_bytes[OF assms, of "CHR ''b''"] by (auto simp: is_digit_def)
  then show "quoted (bootBlockComment name) \<noteq> quoted (''coi-'' @ ip)"
    by (cases ip) (auto simp: quoted_def bootBlockComment_def)
qed

lemma v4_plain: "parse_v4 ip = Some a \<Longrightarrow> plain ip"
  unfolding plain_def list_all_iff using parse_v4_bytes by (auto simp: is_alnum_def)

text \<open>Commands that only append keep it, and keep the chains readable if their rule is.\<close>

context nft_kernel
begin

lemma keeps_held:
  assumes "\<And>s0. keeps (extends s0) m"
  shows "keeps (\<lambda>w. held bl p (view w)) m"
proof (rule keepsI)
  fix w r w'
  assume h: "held bl p (view w)" and m: "m w = (r, w')"
  have "extends (view w) w'" using keepsD[OF assms m] by (simp add: extends_def)
  then show "held bl p (view w')" using h by (auto simp: extends_def intro: held_prefix)
qed

lemma keeps_clean_cmd:
  assumes "\<And>s s'. nft_doc args s = Some s' \<Longrightarrow> coi_clean s \<Longrightarrow> coi_clean s'"
  shows "keeps (\<lambda>w. coi_clean (view w)) (nftDo E args)"
proof (rule keepsI)
  fix w r w'
  assume c: "coi_clean (view w)" and d: "nftDo E args w = (r, w')"
  from nftDo_step[OF d] c assms show "coi_clean (view w')" by auto
qed

lemma coi_clean_toks: "coi_clean s \<longleftrightarrow> nft_wf s \<and> list_all clean (toks fwd s) \<and> list_all clean (toks inp s) \<and> list_all clean (toks fwd6 s)"
  by (simp add: coi_clean_def chain_clean_toks)

lemma clean_adds:
  assumes "nft_doc args s = Some s'" and "coi_clean s" and "adds evs s s'" and "\<And>ch. list_all clean (rules_of ch evs)"
  shows "coi_clean s'"
proof -
  have "nft_wf s'" using nft_doc_wf[OF _ assms(1)] assms(2) by (simp add: coi_clean_def)
  with assms(2-) show ?thesis by (simp add: coi_clean_toks adds_def)
qed

lemma keeps_clean_rule: "clean ts \<Longrightarrow> keeps (\<lambda>w. coi_clean (view w)) (nftDo E (''add'' # ''rule'' # f # t # c # ts))"
  by (rule keeps_clean_cmd) (rule clean_adds, assumption, assumption, erule add_rule_adds, simp)

lemma keeps_clean_nothing:
  "keeps (\<lambda>w. coi_clean (view w)) (nftDo E [''add'', ''table'', f, t])"
  "keeps (\<lambda>w. coi_clean (view w)) (nftDo E (''add'' # ''chain'' # f # t # c # ts))"
  by (rule keeps_clean_cmd, rule clean_adds, assumption, assumption, erule add_table_adds add_chain_adds, simp)+

lemma keeps_clean_list: "keeps (\<lambda>w. coi_clean (view w)) (runNFTCommand E [''list'', ''chain'', f, t, c])"
  by (rule keepsI) (simp add: list_view(1))

lemma keeps_clean_exists: "keeps (\<lambda>w. coi_clean (view w)) (nftRuleExistsWithCommentFamily E f c)"
  by (rule keepsI) (simp add: exists_view)

lemma keeps_clean_ensure: "keeps (\<lambda>w. coi_clean (view w)) (ensureCOIChain E f c hook)"
  unfolding ensureCOIChain_def append.simps by (intro keeps_intros keeps_clean_nothing keeps_clean_list)

lemma clean_dropToks: "veth \<noteq> ''comment'' \<Longrightarrow> plain c \<Longrightarrow> clean (dropToks veth c)"
  by (simp add: clean_def quoted_def)

lemma keeps_clean_addDropRule:
  "veth \<noteq> ''comment'' \<Longrightarrow> plain c \<Longrightarrow> keeps (\<lambda>w. coi_clean (view w)) (addDropRule E family veth c)"
  unfolding addDropRule_def by (intro keeps_intros keeps_clean_exists keeps_clean_rule clean_dropToks)

text \<open>Deleting by another comment keeps it, too.\<close>

lemma Delete_held:
  assumes "DeleteCOIFilterRulesForIP E ip w = (r, w')" and "coi_clean (view w)" and "plain ip" and "ip \<noteq> []"
    and "held bl p (view w)" and "comment_tok bl \<noteq> Some (quoted (''coi-'' @ ip))"
  shows "held bl p (view w')"
proof -
  obtain w1 w2 where s: "pruned fwd (''coi-'' @ ip) (view w) (view w1)" "pruned inp (''coi-'' @ ip) (view w1) (view w2)"
    "removeSets E None (setNames ip) w2 = (r, w')"
    using Delete_steps[OF assms(1-4)] by metis
  have "held bl p (view w2)" using held_pruned[OF s(1) assms(6,5)] held_pruned[OF s(2) assms(6)] by blast
  with removeSets_purged[OF s(3) subset_refl] show ?thesis by (auto intro: held_chains)
qed

end

section \<open>Permanent elements\<close>

text \<open>The manager passes no refresh interval, so that everything it remembers is permanent.\<close>

definition lasting :: "seen \<Rightarrow> bool" where
  "lasting sn \<longleftrightarrow> (\<forall>k. sn k = None \<or> sn k = Some Permanent)"

definition grows :: "seen \<Rightarrow> seen \<Rightarrow> bool" where
  "grows sn sn' \<longleftrightarrow> (\<forall>k. sn k \<noteq> None \<longrightarrow> sn' k \<noteq> None)"

lemma grows_refl [simp]: "grows sn sn" and grows_trans: "grows a b \<Longrightarrow> grows b c \<Longrightarrow> grows a c"
  by (simp_all add: grows_def)

lemma lasting_prune: "lasting sn \<Longrightarrow> pruneSeen now sn = sn"
proof
  fix k assume "lasting sn"
  then have "sn k = None \<or> sn k = Some Permanent" by (simp add: lasting_def)
  then show "pruneSeen now sn k = sn k" by (auto simp: pruneSeen_def)
qed

lemma sync_lasting:
  assumes "syncDynamicSetLocked E name keys t sn now w = (Inr (r, sn'), w')" and "lasting sn" and "t \<le> 0"
  shows "lasting sn' \<and> grows sn sn'"
proof -
  have "sn' = sn \<or> (\<exists>stale. sn' = recordSeen t now stale sn)"
    using assms(1) lasting_prune[OF assms(2)]
    by (auto simp: syncDynamicSetLocked_def Let_def bindA_def tryA_def split: if_splits prod.splits sum.splits)
  moreover have "lasting (recordSeen t now stale sn) \<and> grows sn (recordSeen t now stale sn)" for stale
    using assms(2,3) unfolding lasting_def grows_def recordSeen_def by simp
  ultimately show ?thesis using assms(2) by auto
qed

definition managerLasting :: "NftManager \<Rightarrow> bool" where
  "managerLasting f \<longleftrightarrow> lasting (dynSeen f) \<and> lasting (dynSeenTuples f)"

definition managerGrows :: "NftManager \<Rightarrow> NftManager \<Rightarrow> bool" where
  "managerGrows f f' \<longleftrightarrow> grows (dynSeen f) (dynSeen f') \<and> grows (dynSeenTuples f) (dynSeenTuples f')"

lemma allSeen_grows: "allSeen f ips ports \<Longrightarrow> managerGrows f f' \<Longrightarrow> allSeen f' ips ports"
  by (auto simp: allSeen_def managerGrows_def grows_def list_all_iff)

lemma AllowDynamic_lasting:
  assumes "AllowDynamicIPsPorts E f ips ports ttl 0 now w = (Inr (r, f'), w')" and "managerLasting f"
  shows "managerLasting f' \<and> managerGrows f f'"
proof (cases "containerIP f = [] \<or> ips = []")
  case True
  with assms show ?thesis by (auto simp: AllowDynamicIPsPorts_def managerGrows_def)
next
  case False
  have t: "elementTimeout ttl 0 \<le> 0" by (simp add: elementTimeout_def)
  obtain r1 s1 w1 where 1: "syncDynamicSetLocked E (dynamicSetName (containerIP f)) ips (elementTimeout ttl 0) (dynSeen f) now w = (Inr (r1, s1), w1)"
    using sync_Inr by metis
  note l1 = sync_lasting[OF 1 _ t]
  show ?thesis
  proof (cases r1)
    case (Inl e)
    with assms False 1 l1 show ?thesis
      by (auto simp: AllowDynamicIPsPorts_def Let_def bindA_def managerLasting_def managerGrows_def)
  next
    case (Inr u)
    let ?ports = "if ports = [] then allPortsRange else ports"
    obtain r2 s2 w2 where 2: "syncDynamicSetLocked E (dynamicPortSetName (containerIP f))
        (concat (map (\<lambda>ip. map (portTupleElem ip) ?ports) ips)) (elementTimeout ttl 0) (dynSeenTuples f) now w1 = (Inr (r2, s2), w2)"
      using sync_Inr by metis
    have "f' = f\<lparr>dynSeen := s1, dynSeenTuples := s2\<rparr>"
      using assms(1) False 1 2 Inr by (auto simp: AllowDynamicIPsPorts_def Let_def bindA_def)
    with l1 sync_lasting[OF 2 _ t] assms(2) show ?thesis by (simp add: managerLasting_def managerGrows_def)
  qed
qed

text \<open>The rule of the boot block carries a comment that no address purge looks for.\<close>

abbreviation bootRule :: "string \<Rightarrow> string \<Rightarrow> string list" where
  "bootRule veth name \<equiv> dropToks veth (bootBlockComment name)"

text \<open>The ports a name is allowed on.\<close>

abbreviation portsOf :: "Manager \<Rightarrow> string \<Rightarrow> portRange list" where
  "portsOf m d \<equiv> resolvePorts (case mpolicy m of Some p \<Rightarrow> PortsForName p d | None \<Rightarrow> [])
     (intsToPortRanges (AllowedPorts (mconfig m)))"

section \<open>The system as an interface\<close>

text \<open>An operation that touches neither the packet filter nor the hosts files.\<close>

definition quiet :: "('w \<Rightarrow> nft_state) \<Rightarrow> ('w \<Rightarrow> string \<Rightarrow> string) \<Rightarrow> ('w, 'a) act \<Rightarrow> bool" where
  "quiet view files m \<longleftrightarrow> (\<forall>w r w'. m w = (r, w') \<longrightarrow> view w' = view w \<and> files w' = files w)"

lemma quietD: "quiet view files m \<Longrightarrow> m w = (r, w') \<Longrightarrow> view w' = view w \<and> files w' = files w"
  by (auto simp: quiet_def)

lemma quiet_keeps: "quiet view files m \<Longrightarrow> keeps (\<lambda>w. P (view w)) m"
  by (auto intro!: keepsI dest: quietD)

lemma quiet_keeps_files: "quiet view files m \<Longrightarrow> keeps (\<lambda>w. P (view w) (files w)) m"
  by (auto intro!: keepsI dest: quietD)

lemma quiet_combinators:
  "quiet v f (Pair q)" "quiet v f (retA x)" "quiet v f (failA e)" "quiet v f (liftA r)"
  "quiet v f m \<Longrightarrow> (\<And>x. quiet v f (g x)) \<Longrightarrow> quiet v f (bindA m g)"
  "quiet v f m \<Longrightarrow> quiet v f (wrapA c m)"
  "quiet v f m \<Longrightarrow> quiet v f (tryA m)"
  "quiet v f m \<Longrightarrow> quiet v f (warnA m)"
  by (fastforce simp: quiet_def bindA_def wrapA_def tryA_def warnA_def split: prod.splits sum.splits)+

text \<open>
  What the manager relies on: the packet filter and the container as in their interfaces,
  and everything else (incus, DNS, probes, caches, clock) changes neither of them. The
  address of a container is the text of an IPv4 address.
\<close>

locale net_system = container_net "nE N" "nC N" view files
  for N :: "'w netsys" and view :: "'w \<Rightarrow> nft_state" and files :: "'w \<Rightarrow> string \<Rightarrow> string" +
  assumes veth_quiet: "quiet view files (GetContainerVethName (nH N) n)"
    and incus_quiet: "quiet view files (IncusOutput (nM N) args)"
    and sysctl_quiet: "quiet view files (DisableIPv6 (nM N) n)"
    and iptables_quiet: "quiet view files (EnsureIptables (nM N) b)" "quiet view files (RemoveIptables (nM N) b)"
    and cache_quiet: "quiet view files (CacheLoad (nM N) n)" "quiet view files (CacheSave (nM N) n c)"
    and now_quiet: "quiet view files (Now (nM N))"
    and dns_quiet: "quiet view files (dns_servers (nD N))" "quiet view files (dns_exchange (nD N) d s)"
      "quiet view files (LookupIP (nD N) d)"
    and veth_name: "GetContainerVethName (nH N) n w = (Inr veth, w') \<Longrightarrow> veth \<noteq> ''comment''"
    and ip_text: "getContainerIPOnce (nC N) n w = (Inr ip, w') \<Longrightarrow> parse_v4 ip \<noteq> None"
begin

lemma ip_quiet: "quiet view files (GetContainerIP (nC N) n)"
  using ip_unchanged by (auto simp: quiet_def)

lemma gateway_quiet: "quiet view files (getContainerGatewayIP N n)"
  unfolding getContainerGatewayIP_def GetIncusBridgeName_def
  by (intro quiet_combinators incus_quiet)

lemma queryServers_quiet: "quiet view files (queryServers (nD N) d e ss)"
proof (induction ss arbitrary: e)
  case Nil
  then show ?case by (cases e) (simp_all add: quiet_combinators)
next
  case (Cons s ss)
  have "quiet view files (case q of Inl e \<Rightarrow> queryServers (nD N) d (Some e) ss
       | Inr resp \<Rightarrow> if Rcode resp \<noteq> 0
           then queryServers (nD N) d (Some (Errorf ''DNS query failed with rcode %d'' [itoa (Rcode resp)])) ss
           else liftA (parseARecords resp))" for q
    using Cons by (cases q) (auto intro: quiet_combinators)
  then show ?case unfolding queryServers.simps by (intro quiet_combinators dns_quiet)
qed

lemma quiet_if: "(b \<Longrightarrow> quiet view files m) \<Longrightarrow> (\<not> b \<Longrightarrow> quiet view files k) \<Longrightarrow> quiet view files (if b then m else k)"
  by simp

lemma ResolveDomain_quiet: "quiet view files (ResolveDomain (nD N) r d)"
proof -
  have q: "quiet view files (QueryDNS (nD N) d)"
    unfolding QueryDNS_def Let_def by (intro quiet_combinators quiet_if queryServers_quiet dns_quiet)
  have "quiet view files (case q of Inr res \<Rightarrow> retA (IPs res, setTTL d (TTL res) r) | Inl e \<Rightarrow> failA e)" for q
    by (cases q) (auto intro: quiet_combinators)
  with q show ?thesis unfolding ResolveDomain_def Let_def
    by (auto intro!: quiet_combinators quiet_if dns_quiet split: option.split ipnet.split)
qed

lemma resolveLoop_quiet: "quiet view files (resolveLoop (nD N) r results b n ds)"
proof (induction ds arbitrary: r results b n)
  case Nil
  then show ?case by (simp add: quiet_combinators)
next
  case (Cons d ds)
  have "quiet view files (case q of
         Inr (ips, r') \<Rightarrow> resolveLoop (nD N) r' (AList.update d ips results) b (Suc n) ds
       | Inl _ \<Rightarrow> (case map_of (Domains (cache r)) d of
             Some (ip # ips) \<Rightarrow>
               resolveLoop (nD N) (case map_of (TTLs (cache r)) d of Some ttl \<Rightarrow> setTTL d ttl r | None \<Rightarrow> r)
                 (AList.update d (ip # ips) results) True (Suc n) ds
           | _ \<Rightarrow> resolveLoop (nD N) r results True n ds))" for q
    using Cons by (auto split: sum.split option.split list.split prod.split)
  then show ?case by (auto intro!: quiet_combinators ResolveDomain_quiet)
qed

lemma ResolveAll_quiet: "quiet view files (ResolveAll (nD N) r ds)"
  unfolding ResolveAll_def by (auto intro!: quiet_combinators resolveLoop_quiet)

lemma ip_retries_text: "GetContainerIPWithRetries (nC N) n k e w = (Inr ip, w') \<Longrightarrow> parse_v4 ip \<noteq> None"
proof (induction k arbitrary: e w)
  case (Suc k)
  obtain q w1 where q: "getContainerIPOnce (nC N) n w = (q, w1)" by force
  with Suc ip_text[of n w ip w1] show ?case by (cases q) (auto simp: bindA_def tryA_def)
qed simp

lemma ip_gives: "gives P (GetContainerIP (nC N) n) (\<lambda>ip. parse_v4 ip \<noteq> None)"
  using ip_retries_text by (auto simp: gives_def GetContainerIP_def)

text \<open>Names and refreshes only add elements to the sets of the container.\<close>

lemma keeps_AllowDynamic: "keeps (extends s) (AllowDynamicIPsPorts (nE N) f ips ports ttl R now)"
  unfolding AllowDynamicIPsPorts_def syncDynamicSetLocked_def Let_def
  by (intro keeps_intros keeps_case_prod keeps_elements)

lemma quiet_extends: "quiet view files m \<Longrightarrow> keeps (extends s) m"
  unfolding extends_def by (rule quiet_keeps)

lemma quiet_held: "quiet view files m \<Longrightarrow> keeps (\<lambda>w. held bl p (view w)) m"
  by (rule quiet_keeps)

lemma WriteAllowlistHosts_held: "keeps (\<lambda>w. held bl p (view w)) (WriteAllowlistHosts (nC N) n ds)"
  unfolding WriteAllowlistHosts_def by (rule keepsI) (simp add: replace_unchanged)

lemma syncResolved_held:
  "keeps (both (\<lambda>w. held bl p (view w)) (\<lambda>m. mconfig m = cfg)) (syncResolved N ds)"
  unfolding syncResolved_def allowNames_def Let_def
  by (intro keeps_intros keeps_case_prod keeps_getM both_inW both_modM keeps_held keeps_AllowDynamic
      quiet_held now_quiet WriteAllowlistHosts_held) simp

lemma resolveNames_held:
  "keeps (both (\<lambda>w. held bl p (view w)) (\<lambda>m. mconfig m = cfg)) (resolveNames N ns)"
  unfolding resolveNames_def
  by (intro keeps_intros keeps_case_prod keeps_getM both_inW both_modM quiet_held ResolveAll_quiet) simp

lemma saveCache_held:
  "keeps (both (\<lambda>w. held bl p (view w)) (\<lambda>m. mconfig m = cfg)) (saveCache N ds)"
  unfolding saveCache_def
  by (intro keeps_intros keeps_getM both_inW both_modM quiet_held now_quiet cache_quiet) simp

lemma installNames_held:
  "keeps (both (\<lambda>w. held bl p (view w)) (\<lambda>m. mconfig m = cfg)) (installNames N n)"
  unfolding installNames_def Let_def
  by (intro keeps_intros keeps_case_prod keeps_getM both_inW both_modM quiet_held cache_quiet resolveNames_held
      syncResolved_held saveCache_held) simp

lemma startRefresher_held:
  "keeps (both (\<lambda>w. held bl p (view w)) (\<lambda>m. mconfig m = cfg)) (startRefresher t)"
  unfolding startRefresher_def by (intro keeps_intros keeps_getM both_modM) simp

text \<open>Before the rules are applied the chains also stay readable.\<close>

abbreviation ready :: "string list \<Rightarrow> packet \<Rightarrow> 'w \<Rightarrow> bool" where
  "ready bl p \<equiv> \<lambda>w. held bl p (view w) \<and> coi_clean (view w)"

lemma quiet_ready: "quiet view files m \<Longrightarrow> keeps (ready bl p) m"
  by (rule quiet_keeps)

lemma keeps_conj: "keeps P m \<Longrightarrow> keeps Q m \<Longrightarrow> keeps (\<lambda>w. P w \<and> Q w) m"
  by (simp add: keeps_def)

lemma IPv6Block_ready:
  assumes "plain name"
  shows "keeps (ready bl p) (ApplyIPv6BlockForContainer (nE N) (nH N) name)"
proof (rule keeps_conj)
  show "keeps (\<lambda>w. held bl p (view w)) (ApplyIPv6BlockForContainer (nE N) (nH N) name)"
    unfolding ApplyIPv6BlockForContainer_def ensureCOIIP6TableAndChain_def
    by (intro keeps_intros keeps_held keeps_ensure keeps_addDropRule quiet_extends veth_quiet)
  have pl: "plain (ipv6BlockComment name)" using assms by (simp add: ipv6BlockComment_def plain_def char_defs)
  let ?C = "\<lambda>w. coi_clean (view w)"
  define cont where "cont = (\<lambda>v. case v of Inl e \<Rightarrow> failA (Wrapf (''could not resolve veth for IPv6 block on '' @ name) e)
          | Inr veth \<Rightarrow> if veth = [] then failA (Errorf ''could not resolve veth for IPv6 block on %s'' [name])
              else addDropRule (nE N) ''ip6'' veth (ipv6BlockComment name))"
  have br: "keeps ?C (cont v)" if "\<forall>x. v = Inr x \<longrightarrow> x \<noteq> ''comment''" for v
    unfolding cont_def using that pl by (intro keeps_intros keeps_clean_addDropRule) auto
  have "into ?C (bindA (tryA (GetContainerVethName (nH N) name)) cont) ?C"
  proof (rule into_bindV)
    show "into ?C (tryA (GetContainerVethName (nH N) name)) ?C" by (intro into_try into_keeps quiet_keeps[OF veth_quiet])
    show "gives ?C (tryA (GetContainerVethName (nH N) name)) (\<lambda>v. \<forall>x. v = Inr x \<longrightarrow> x \<noteq> ''comment'')"
      using veth_name by (auto simp: gives_def tryA_Inr)
    show "into ?C (cont v) ?C" if "\<forall>x. v = Inr x \<longrightarrow> x \<noteq> ''comment''" for v by (intro into_keeps br that)
  qed
  then have "keeps ?C (bindA (tryA (GetContainerVethName (nH N) name)) cont)" by (auto simp: into_def intro: keepsI)
  then show "keeps (\<lambda>w. coi_clean (view w)) (ApplyIPv6BlockForContainer (nE N) (nH N) name)"
    unfolding ApplyIPv6BlockForContainer_def ensureCOIIP6TableAndChain_def cont_def[symmetric]
    by (intro keeps_combinators(2,5) keeps_if keeps_clean_ensure)
qed

lemma purge_ready:
  assumes "parse_v4 ip \<noteq> None" and "\<And>a. comment_tok bl \<noteq> Some (quoted (''coi-'' @ ip))"
  shows "keeps (ready bl p) (purgeStaleRulesForIP N ip)"
proof -
  have pl: "plain ip" using assms(1) v4_plain by auto
  have "keeps (ready bl p) (DeleteCOIFilterRulesForIP (nE N) ip)" if "ip \<noteq> []"
  proof (rule keepsI)
    fix w r w'
    assume c: "ready bl p w" and d: "DeleteCOIFilterRulesForIP (nE N) ip w = (r, w')"
    from Delete_purged[OF d _ pl] Delete_held[OF d _ pl that _ assms(2)] c show "ready bl p w'" by blast
  qed
  then show ?thesis unfolding purgeStaleRulesForIP_def by (intro keeps_intros)
qed

lemma enterEnforcing_ready:
  assumes "plain name" and "parse_v4 ip \<noteq> None" and "comment_tok bl \<noteq> Some (quoted (''coi-'' @ ip))"
  shows "keeps (both (ready bl p) (\<lambda>m. mconfig m = cfg)) (enterEnforcing N name ip gw)"
  unfolding enterEnforcing_def
  by (intro keeps_intros both_inW both_modM quiet_ready sysctl_quiet IPv6Block_ready purge_ready assms) simp

lemma boot_foreign:
  assumes "parse_v4 ip \<noteq> None" and "veth \<noteq> ''comment''"
  shows "comment_tok (bootRule veth name) \<noteq> Some (quoted (''coi-'' @ ip))"
  using boot_comment_other[of ip] assms by auto

lemma setupRestricted_held:
  assumes "plain name" and "veth \<noteq> ''comment''"
  shows "into (both (ready (bootRule veth name) p) (\<lambda>m. mconfig m = cfg)) (setupRestricted N name)
    (both (\<lambda>w. held (bootRule veth name) p (view w)) (\<lambda>m. mconfig m = cfg))"
proof -
  let ?A = "both (ready (bootRule veth name) p) (\<lambda>m. mconfig m = cfg)"
  let ?B = "both (\<lambda>w. held (bootRule veth name) p (view w)) (\<lambda>m. mconfig m = cfg)"
  have weak: "?A s \<Longrightarrow> ?B s" for s by simp
  have applied: "into ?A (wrapA c (inW (ApplyRestricted (nE N) f g))) ?B" for c f g
  proof -
    have "keeps ?B (wrapA c (inW (ApplyRestricted (nE N) f g)))"
      by (intro keeps_intros both_inW keeps_held keeps_ApplyRestricted)
    then show ?thesis by (rule into_mono[OF into_keeps weak]) assumption+
  qed
  have enter: "into ?A (enterEnforcing N name ip gw) ?A" if "parse_v4 ip \<noteq> None" for ip gw
    by (intro into_keeps enterEnforcing_ready assms(1) that boot_foreign assms(2))
  have ipa: "into ?A (wrapA c (inW (GetContainerIP (nC N) name))) ?A" for c
    by (intro into_wrap into_keeps both_inW quiet_ready ip_quiet)
  have ipg: "gives ?A (wrapA c (inW (GetContainerIP (nC N) name))) (\<lambda>ip. parse_v4 ip \<noteq> None)" for c
    by (rule gives_wrap, rule gives_both[OF _ ip_gives[of "\<lambda>_. True"]]) simp
  show ?thesis
    unfolding setupRestricted_def Let_def
    apply (rule into_bind[OF into_keeps[OF keeps_getM] weak], assumption)
    apply (rule into_if, rule into_ret(2), erule weak)
    apply (rule into_bindV[where V = "\<lambda>ip. parse_v4 ip \<noteq> None", OF ipa ipg weak], assumption)
    apply (rule into_then[OF into_keeps[OF both_modM] weak], simp, assumption)
    apply (rule into_bind[OF into_try[OF into_keeps[OF both_inW[OF quiet_ready[OF gateway_quiet]]]] weak], assumption)
    apply (rule into_then[OF enter weak applied], assumption, assumption)
    done
qed

lemma setupAllowlist_held:
  assumes "plain name" and "veth \<noteq> ''comment''"
  shows "into (both (ready (bootRule veth name) p) (\<lambda>m. mconfig m = cfg)) (setupAllowlist N name)
    (both (\<lambda>w. held (bootRule veth name) p (view w)) (\<lambda>m. mconfig m = cfg))"
proof -
  let ?A = "both (ready (bootRule veth name) p) (\<lambda>m. mconfig m = cfg)"
  let ?B = "both (\<lambda>w. held (bootRule veth name) p (view w)) (\<lambda>m. mconfig m = cfg)"
  have weak: "?A s \<Longrightarrow> ?B s" for s by simp
  have tail: "into ?A (thenA (wrapA c (inW (ApplyAllowlist (nE N) f g x))) (thenA (installNames N name)
      (bindA getM (\<lambda>m'. bindA (startRefresher (t m')) (\<lambda>_. retA ()))))) ?B" for c f g x t
  proof -
    have "keeps ?B (thenA (wrapA c (inW (ApplyAllowlist (nE N) f g x))) (thenA (installNames N name)
        (bindA getM (\<lambda>m'. bindA (startRefresher (t m')) (\<lambda>_. retA ())))))"
      by (intro keeps_intros both_inW keeps_held keeps_ApplyAllowlist installNames_held keeps_getM startRefresher_held)
    then show ?thesis by (rule into_mono[OF into_keeps weak]) assumption+
  qed
  have enter: "into ?A (enterEnforcing N name ip gw) ?A" if "parse_v4 ip \<noteq> None" for ip gw
    by (intro into_keeps enterEnforcing_ready assms(1) that boot_foreign assms(2))
  have ipa: "into ?A (wrapA c (inW (GetContainerIP (nC N) name))) ?A" for c
    by (intro into_wrap into_keeps both_inW quiet_ready ip_quiet)
  have ipg: "gives ?A (wrapA c (inW (GetContainerIP (nC N) name))) (\<lambda>ip. parse_v4 ip \<noteq> None)" for c
    by (rule gives_wrap, rule gives_both[OF _ ip_gives[of "\<lambda>_. True"]]) simp
  show ?thesis
    unfolding setupAllowlist_def Let_def
    apply (rule into_bind[OF into_keeps[OF keeps_getM] weak], assumption)
    apply (rule into_if, rule into_ret(2), erule weak)
    apply (rule into_if, rule into_ret(2), erule weak)
    apply (rule into_if, rule into_ret(2), erule weak)
    apply (rule into_bind[OF into_wrap[OF into_keeps[OF keeps_combinators(3)]] weak], assumption)
    apply (rule into_then[OF into_keeps[OF both_modM] weak], simp, assumption)
    apply (rule into_bindV[where V = "\<lambda>ip. parse_v4 ip \<noteq> None", OF ipa ipg weak], assumption)
    apply (rule into_then[OF into_keeps[OF both_modM] weak], simp, assumption)
    apply (rule into_bind[OF into_wrap[OF into_keeps[OF both_inW[OF quiet_ready[OF gateway_quiet]]]] weak], assumption)
    apply (rule into_then[OF enter weak tail], assumption, assumption)
    done
qed

text \<open>A setup that fails in an enforcing mode has not lifted the boot block.\<close>

lemma setup_held:
  assumes "SetupForContainer N name (w, m) = (Inl e, s')" and "Mode (mconfig m) \<noteq> NetworkModeOpen"
    and "Hosts (mconfig m) = []" and "held (bootRule veth name) p (view w)" and "coi_clean (view w)"
    and "plain name" and "veth \<noteq> ''comment''"
  shows "held (bootRule veth name) p (view (fst s'))"
proof -
  let ?cfg = "mconfig m"
  let ?B = "both (\<lambda>w. held (bootRule veth name) p (view w)) (\<lambda>m. mconfig m = ?cfg)"
  let ?m = "m\<lparr>mcontainerName := name\<rparr>"
  have cfg: "mconfig ?m = mconfig m" by simp
  define act where "act = (if Mode ?cfg = NetworkModeOpen then setupOpen N name
              else if Mode ?cfg = NetworkModeRestricted then setupRestricted N name
              else if Mode ?cfg = NetworkModeAllowlist then setupAllowlist N name
              else failA (Errorf ''unknown network mode: %s'' [Mode ?cfg]))"
  have run: "thenA act (thenA (applyUserHosts N name) (inW (removeBootBlock N name))) (w, ?m) = (Inl e, s')"
    using assms(1) unfolding act_def
    by (simp only: SetupForContainer_def thenA_def bindA_def modM_def getM_def Let_def prod.case sum.case fst_conv snd_conv cfg)
  have ready: "both (ready (bootRule veth name) p) (\<lambda>m. mconfig m = ?cfg) (w, ?m)" using assms(4,5) by simp
  have act: "into (both (ready (bootRule veth name) p) (\<lambda>m. mconfig m = ?cfg)) act ?B"
    unfolding act_def if_not_P[OF assms(2)]
    by (intro into_if setupRestricted_held[OF assms(6,7)] setupAllowlist_held[OF assms(6,7)] into_ret(2)) simp
  obtain q s1 where q: "act (w, ?m) = (q, s1)" by (rule prod.exhaust)
  from intoD[OF act ready q] have B: "?B s1" .
  show ?thesis
  proof (cases q)
    case (Inl x)
    with run q have "s1 = s'" by (simp add: thenA_def bindA_def)
    with B show ?thesis by simp
  next
    case (Inr u)
    have "thenA (applyUserHosts N name) (inW (removeBootBlock N name)) s1 = (Inl e, s')"
      using run q Inr by (simp add: thenA_def bindA_def)
    moreover have "applyUserHosts N name s1 = (Inr (), s1)"
      using B assms(3) by (simp add: applyUserHosts_def bindA_def getM_def Let_def)
    ultimately have i: "inW (removeBootBlock N name) s1 = (Inl e, s')" by (simp add: thenA_def bindA_def)
    obtain w1 m1 where "s1 = (w1, m1)" by force
    moreover obtain r w2 where "RemoveBootBlockRule (nE N) name w1 = (r, w2)" by force
    ultimately show ?thesis using i by (simp add: inW_def removeBootBlock_def warnA_def)
  qed
qed

text \<open>
  One name, all names: what the manager remembers stays in the kernel and grows, the hosts
  files stay, and when no error came every address of every name is remembered.
\<close>

lemma keeps_files_AllowDynamic: "keeps (\<lambda>w. files w = fs) (AllowDynamicIPsPorts (nE N) f ips ports ttl R now)"
  unfolding AllowDynamicIPsPorts_def syncDynamicSetLocked_def addSetElements_def Let_def
  by (intro keeps_intros keeps_case_prod nftDo_files)

lemma allowNames_step:
  assumes "allowNames N (intsToPortRanges (AllowedPorts (mconfig m))) (d, ips) (w, m) = (r, (w', m'))"
    and "mnft m = Some f" and "containerIP f \<noteq> []" and "managerInSync f (view w)" and "managerLasting f"
    and "list_all elem_safe ips"
  obtains f' where "m' = m\<lparr>mnft := Some f'\<rparr>" "containerIP f' = containerIP f" "managerInSync f' (view w')"
    "managerLasting f'" "managerGrows f f'" "files w' = files w" "r = Inr () \<Longrightarrow> allSeen f' ips (portsOf m d)"
proof (cases "ips = []")
  case True
  have "m' = m\<lparr>mnft := Some f\<rparr>" using assms(1,2) True by (simp add: allowNames_def)
  moreover have "managerGrows f f" by (simp add: managerGrows_def)
  ultimately show thesis using that[of f] assms True by (simp add: allowNames_def allSeen_def)
next
  case False
  obtain q w1 where q: "Now (nM N) w = (q, w1)" by (rule prod.exhaust)
  note v1 = quietD[OF now_quiet q]
  show thesis
  proof (cases q)
    case (Inl e)
    have "m' = m\<lparr>mnft := Some f\<rparr>" "w' = w1" "r = Inl e"
      using assms(1,2) False q Inl by (simp_all add: allowNames_def bindA_def getM_def inW_def)
    moreover have "managerGrows f f" by (simp add: managerGrows_def)
    ultimately show thesis using that[of f] assms v1 by simp
  next
    case (Inr now)
    define ttl where "ttl = (case mresolver m of None \<Rightarrow> 0 | Some r \<Rightarrow> (case map_of (DomainTTLs r) d of Some t \<Rightarrow> t | None \<Rightarrow> 0))"
    obtain a w2 where a: "AllowDynamicIPsPorts (nE N) f ips (portsOf m d) ttl 0 now w1 = (a, w2)" by (rule prod.exhaust)
    have sync1: "managerInSync f (view w1)" using assms(4) v1 by simp
    from AllowDynamic_sync[OF a sync1 assms(6)] obtain r0 f' where s: "a = Inr (r0, f')" "containerIP f' = containerIP f"
      "managerInSync f' (view w2)" "r0 = Inr () \<Longrightarrow> containerIP f \<noteq> [] \<Longrightarrow> allSeen f' ips (portsOf m d)" by metis
    have l: "managerLasting f' \<and> managerGrows f f'" using AllowDynamic_lasting[OF a[unfolded s(1)] assms(5)] .
    have fl: "files w2 = files w" using keepsD[OF keeps_files_AllowDynamic a refl] v1 by simp
    have "allowNames N (intsToPortRanges (AllowedPorts (mconfig m))) (d, ips) (w, m) =
        (wrapE (''failed to allow addresses for '' @ d) r0, (w2, m\<lparr>mnft := Some f'\<rparr>))"
      using assms(2) False q Inr a s(1)
      by (simp add: allowNames_def bindA_def thenA_def getM_def inW_def modM_def wrapA_def dynamicElementLifetimeInterval_def
          ttl_def[symmetric])
    with assms(1) have "r = wrapE (''failed to allow addresses for '' @ d) r0" "w' = w2" "m' = m\<lparr>mnft := Some f'\<rparr>" by auto
    with that[of f'] s l fl assms(3) show thesis by auto
  qed
qed

lemma allowNames_loop:
  assumes "forA (allowNames N (intsToPortRanges (AllowedPorts (mconfig m)))) ds (w, m) = (r, (w', m'))"
    and "mnft m = Some f" and "containerIP f \<noteq> []" and "managerInSync f (view w)" and "managerLasting f"
    and "\<And>d ips. (d, ips) \<in> set ds \<Longrightarrow> list_all elem_safe ips"
  shows "\<exists>f'. m' = m\<lparr>mnft := Some f'\<rparr> \<and> containerIP f' = containerIP f \<and> managerInSync f' (view w') \<and>
    managerLasting f' \<and> managerGrows f f' \<and> files w' = files w \<and>
    (r = Inr () \<longrightarrow> (\<forall>(d, ips) \<in> set ds. allSeen f' ips (portsOf m d)))"
  using assms
proof (induction ds arbitrary: w m f)
  case Nil
  have "m = m\<lparr>mnft := Some f\<rparr>" using Nil(2) by simp
  with Nil show ?case by (auto simp: managerGrows_def intro!: exI[of _ f])
next
  case (Cons e ds)
  obtain d ips where e: "e = (d, ips)" by (cases e) auto
  obtain q w1 m1 where q: "allowNames N (intsToPortRanges (AllowedPorts (mconfig m))) (d, ips) (w, m) = (q, (w1, m1))"
    by (metis prod.exhaust)
  have safe: "list_all elem_safe ips" using Cons.prems(6)[of d ips] e by simp
  from allowNames_step[OF q Cons.prems(2-5) safe] obtain f1 where s: "m1 = m\<lparr>mnft := Some f1\<rparr>" "containerIP f1 = containerIP f"
    "managerInSync f1 (view w1)" "managerLasting f1" "managerGrows f f1" "files w1 = files w"
    "q = Inr () \<Longrightarrow> allSeen f1 ips (portsOf m d)" by metis
  show ?case
  proof (cases q)
    case (Inl x)
    then have "r = Inl x" "w' = w1" "m' = m1" using Cons.prems(1) q e by (simp_all add: thenA_def bindA_def)
    with s show ?thesis by auto
  next
    case (Inr u)
    have run: "forA (allowNames N (intsToPortRanges (AllowedPorts (mconfig m1)))) ds (w1, m1) = (r, (w', m'))"
      using Cons.prems(1) q e Inr s(1) by (simp add: thenA_def bindA_def)
    have c1: "containerIP f1 \<noteq> []" using s(2) Cons.prems(3) by simp
    have m1: "mnft m1 = Some f1" using s(1) by simp
    from Cons.IH[OF run m1 c1 s(3,4)] Cons.prems(6) obtain f' where f': "m' = m1\<lparr>mnft := Some f'\<rparr>"
      "containerIP f' = containerIP f1" "managerInSync f' (view w')" "managerLasting f'" "managerGrows f1 f'" "files w' = files w1"
      "r = Inr () \<longrightarrow> (\<forall>(d, ips) \<in> set ds. allSeen f' ips (portsOf m1 d))" by auto
    have "allSeen f1 ips (portsOf m d)" using s(7) Inr by simp
    then have "allSeen f' ips (portsOf m d)" using allSeen_grows f'(5) by blast
    moreover have "managerGrows f f'" using s(5) f'(5) grows_trans unfolding managerGrows_def by blast
    ultimately show ?thesis using f' s e by (intro exI[of _ f']) auto
  qed
qed

text \<open>The hosts file is written after the sets: it never names an address they do not have.\<close>

lemma syncResolved_names:
  assumes "syncResolved N ds (w, m) = (r, (w', m'))"
    and "mnft m = Some f" and "containerIP f \<noteq> []" and "managerInSync f (view w)" and "managerLasting f"
    and "\<forall>(d, ips) \<in> set ds. list_all elem_safe ips" and "mcontainerName m \<noteq> []"
  shows "\<exists>f'. m' = m\<lparr>mnft := Some f'\<rparr> \<and> managerInSync f' (view w') \<and> managerLasting f' \<and> managerGrows f f' \<and>
    (r = Inr () \<or> files w' \<noteq> files w \<longrightarrow> (\<forall>(d, ips) \<in> set ds. allSeen f' ips (portsOf m d))) \<and>
    (r = Inr () \<longrightarrow> files w' (mcontainerName m) =
       replaceBlock hostsBeginMarker hostsEndMarker (renderHostsBlock ds) (files w (mcontainerName m)))"
proof -
  obtain q w1 m1 where q: "forA (allowNames N (intsToPortRanges (AllowedPorts (mconfig m)))) ds (w, m) = (q, (w1, m1))"
    by (metis prod.exhaust)
  from allowNames_loop[OF q assms(2-5)] assms(6) obtain f' where f': "m1 = m\<lparr>mnft := Some f'\<rparr>"
    "managerInSync f' (view w1)" "managerLasting f'" "managerGrows f f'" "files w1 = files w"
    "q = Inr () \<longrightarrow> (\<forall>(d, ips) \<in> set ds. allSeen f' ips (portsOf m d))" by blast
  show ?thesis
  proof (cases q)
    case (Inl e)
    then have "r = Inl e" "w' = w1" "m' = m1"
      using assms(1) q by (simp_all add: syncResolved_def Let_def thenA_def bindA_def getM_def)
    with f' show ?thesis by auto
  next
    case (Inr u)
    obtain z w2 where z: "WriteAllowlistHosts (nC N) (mcontainerName m) ds w1 = (z, w2)" by (rule prod.exhaust)
    have e: "r = wrapE (''failed to write the container's hosts entries'') z" "w' = w2" "m' = m1"
      using assms(1,7) q Inr z by (auto simp: syncResolved_def Let_def thenA_def bindA_def getM_def wrapA_def inW_def)
    have v: "view w2 = view w1" by (rule write_allow(1)[OF z])
    have w: "files w2 (mcontainerName m) = replaceBlock hostsBeginMarker hostsEndMarker (renderHostsBlock ds) (files w (mcontainerName m))"
      if "r = Inr ()"
      using that e(1) write_allow(2)[OF z] f'(5) by simp
    show ?thesis using f' Inr e v w by (intro exI[of _ f']) auto
  qed
qed

end

section \<open>A reference system\<close>

text \<open>The reference kernel and container with a host, a DNS server and a clock that answer.\<close>

definition refSystem :: "(nft_state \<times> (string \<Rightarrow> string)) netsys" where
  "refSystem = \<lparr>nE = onFst ref_env,
     nH = \<lparr>NftInstalled = True, GetContainerVethName = (\<lambda>_. retA ''veth1'')\<rparr>,
     nC = refContainer,
     nD = \<lparr>dns_servers = retA [''1.1.1.1:53''],
           dns_exchange = (\<lambda>_ _. retA \<lparr>Rcode = 0, Answer = [RR_A 0x08080808 300]\<rparr>), LookupIP = (\<lambda>_. retA [])\<rparr>,
     nM = \<lparr>NftAvailable = True, NeedsIptables = False, IncusOutput = (\<lambda>_. failA (ExtErr ''incus'')), ParseContainers = (\<lambda>_. None),
           DisableIPv6 = (\<lambda>_. retA ()), EnsureIptables = (\<lambda>_. retA ()), RemoveIptables = (\<lambda>_. retA ()),
           CacheLoad = (\<lambda>_. retA emptyCache), CacheSave = (\<lambda>_ _. retA ()), Now = retA 0\<rparr>\<rparr>"

interpretation refnet: net_system refSystem fst snd
proof -
  have s: "nE refSystem = onFst ref_env" "nC refSystem = refContainer" by (simp_all add: refSystem_def)
  have v: "parse_v4 ''10.1.2.3'' \<noteq> None" using demo_v4 by simp
  show "net_system refSystem fst snd"
    unfolding net_system_def net_system_axioms_def s
    using pair.container_net_axioms v
    by (auto simp: refSystem_def refContainer_def intro: quiet_combinators)
qed

section \<open>Properties of the manager\<close>


definition demoBoot :: nft_state where
  "demoBoot = \<lparr>nft_chains = (\<lambda>_. None)(fwd \<mapsto> [(1, baseToks), (2, bootRule ''veth1'' ''web'')]), nft_sets = (\<lambda>_. None), nft_next = 3\<rparr>"

text \<open>In the reference system the gateway cannot be determined, so that allowlist mode fails.\<close>

abbreviation demoAllow :: NetworkConfig where
  "demoAllow \<equiv> demoConfig\<lparr>Mode := NetworkModeAllowlist, DNSServers := []\<rparr>"

abbreviation demoVeth :: packet where
  "demoVeth \<equiv> demoPacket 0x08080808 TCP 443"

lemma demo_ip: "GetContainerIP refContainer n w = (Inr ''10.1.2.3'', w)"
  by (simp add: GetContainerIP_def numeral_eq_Suc refContainer_def bindA_def tryA_def)

lemma demo_gateway: "getContainerGatewayIP refSystem n w = (Inl (Wrapf ''failed to get default profile'' (ExtErr ''incus'')), w)"
  by (simp add: getContainerGatewayIP_def GetIncusBridgeName_def refSystem_def bindA_def wrapA_def)

lemma demo_setup_fails: "\<exists>e s. SetupForContainer refSystem ''web'' ((demoBoot, \<lambda>_. []), NewManager demoAllow) = (Inl e, s)"
proof -
  obtain pol where pol: "NewAllowPolicy (AllowedDomains demoConfig) = Inr pol" using demo_valid(3) by blast
  have u: "NftUsable refSystem demoAllow"
    by (simp add: NftUsable_def refSystem_def SudoAllowed_def demoConfig_def onFst_def ref_env_def)
  have d: "AllowedDomains demoConfig \<noteq> []" by (simp add: demoConfig_def)
  have c: "nC refSystem = refContainer" by (simp add: refSystem_def)
  show ?thesis
    by (simp add: SetupForContainer_def setupAllowlist_def thenA_def bindA_def modM_def getM_def Let_def NewManager_def u pol d c
        demo_ip demo_gateway wrapA_def inW_def)
qed

lemma demoBoot_held: "held (bootRule ''veth1'' ''web'') demoVeth demoBoot" "coi_clean demoBoot"
proof -
  have "eval_toks S demoVeth baseToks = None" for S by (simp add: eval_baseToks demoPacket_def)
  then show "held (bootRule ''veth1'' ''web'') demoVeth demoBoot"
    unfolding held_def by (intro exI[of _ "[baseToks]"] exI[of _ "[]"]) (simp add: demoBoot_def toks_def)
  show "coi_clean demoBoot"
    by (simp add: coi_clean_def nft_wf_def chain_clean_def demoBoot_def baseToks_def clean_def quoted_def plain_def char_defs
        bootBlockComment_def)
qed


text \<open>A name never reaches the container's hosts file before the firewall: when the hosts file has
  changed, every address of every name is remembered as allowed on its ports, and what is
  remembered is in the kernel's sets, also when the run failed half way.\<close>

theorem names_reach_firewall_first:
  assumes "net_system N view files" and "syncResolved N ds (w, m) = (r, (w', m'))"
    and "mnft m = Some f" and "containerIP f \<noteq> []" and "managerInSync f (view w)" and "managerLasting f"
    and "\<forall>(d, ips) \<in> set ds. list_all elem_safe ips" and "mcontainerName m \<noteq> []"
  shows "\<exists>f'. mnft m' = Some f' \<and> managerInSync f' (view w') \<and> managerLasting f' \<and>
    (r = Inr () \<or> files w' \<noteq> files w \<longrightarrow> (\<forall>(d, ips) \<in> set ds. allSeen f' ips (portsOf m d))) \<and>
    (r = Inr () \<longrightarrow> files w' (mcontainerName m) =
       replaceBlock hostsBeginMarker hostsEndMarker (renderHostsBlock ds) (files w (mcontainerName m)))"
proof -
  obtain f' where "m' = m\<lparr>mnft := Some f'\<rparr>" and rest: "managerInSync f' (view w')" "managerLasting f'"
    "r = Inr () \<or> files w' \<noteq> files w \<longrightarrow> (\<forall>(d, ips) \<in> set ds. allSeen f' ips (portsOf m d))"
    "r = Inr () \<longrightarrow> files w' (mcontainerName m) =
       replaceBlock hostsBeginMarker hostsEndMarker (renderHostsBlock ds) (files w (mcontainerName m))"
    using net_system.syncResolved_names[OF assms] by blast
  then have "mnft m' = Some f'" by simp
  with rest show ?thesis by blast
qed

lemma names_reach_firewall_first_witness:
  "\<exists>r w' m'. syncResolved refSystem [(''example.com'', [''1.2.3.4''])]
      ((demoKernel, \<lambda>_. []), (NewManager demoAllow)\<lparr>mnft := Some demoManager, mcontainerName := ''web''\<rparr>) = (r, (w', m')) \<and>
    (\<exists>f'. mnft m' = Some f' \<and> managerInSync f' (fst w') \<and>
      (r = Inr () \<or> snd w' \<noteq> (\<lambda>_. []) \<longrightarrow>
        allSeen f' [''1.2.3.4''] (portsOf (NewManager demoAllow) ''example.com'')))"
proof -
  let ?m = "(NewManager demoAllow)\<lparr>mnft := Some demoManager, mcontainerName := ''web''\<rparr>"
  obtain r w' m' where s: "syncResolved refSystem [(''example.com'', [''1.2.3.4''])] ((demoKernel, \<lambda>_. []), ?m) = (r, (w', m'))"
    by (metis prod.exhaust)
  have h: "mnft ?m = Some demoManager" "containerIP demoManager \<noteq> []" "managerInSync demoManager (fst (demoKernel, \<lambda>_ :: string. [] :: string))"
    "managerLasting demoManager" "\<forall>(d, ips) \<in> set [(''example.com'', [''1.2.3.4''])]. list_all elem_safe ips" "mcontainerName ?m \<noteq> []"
    by (simp_all add: demoManager_def NewNftManager_def managerInSync_def managerLasting_def seen_ok_def lasting_def elem_safe_def)
  from names_reach_firewall_first[OF refnet.net_system_axioms s h] s show ?thesis by (auto simp: NewManager_def)
qed

end
