(* ===== verification/Naming.thy ===== *)
theory Naming
  imports GoPath ConfigTypes
begin

text \<open>
  Session identities, container names and slots, \<open>internal/session/naming.go\<close>, and session
  ids (\<open>id.go\<close>). The SHA-256 digest in hexadecimal is a parameter, as are the output of
  \<open>incus list\<close> and its decoding as JSON.
\<close>

section \<open>Identity and names\<close>

text \<open>\<open>sha256hex\<close> is \<open>fmt.Sprintf("%x", sha256.Sum256(...))\<close>, \<open>Prefix\<close> is \<open>$COI_CONTAINER_PREFIX\<close>.\<close>

record naming =
  sha256hex :: "string \<Rightarrow> string"
  EnvPrefix :: string
  NOs :: osenv

definition GetContainerPrefix :: "naming \<Rightarrow> string" where
  "GetContainerPrefix e = (if EnvPrefix e \<noteq> [] then EnvPrefix e else ''coi-'')"

definition Identity :: "naming \<Rightarrow> string \<Rightarrow> string \<Rightarrow> string" where
  "Identity e workspacePath sessionName =
     (if sessionName \<noteq> [] then ''session-name:'' @ sessionName
      else (case path_abs (NOs e) workspacePath of None \<Rightarrow> workspacePath | Some p \<Rightarrow> p))"

definition IdentityHash :: "naming \<Rightarrow> string \<Rightarrow> string \<Rightarrow> string" where
  "IdentityHash e ws sn = take 8 (sha256hex e (Identity e ws sn))"

definition WorkspaceHash :: "naming \<Rightarrow> string \<Rightarrow> string" where
  "WorkspaceHash e ws = IdentityHash e ws []"

definition ContainerName :: "naming \<Rightarrow> string \<Rightarrow> string \<Rightarrow> int \<Rightarrow> string" where
  "ContainerName e ws sn slot = GetContainerPrefix e @ IdentityHash e ws sn @ ''-'' @ itoa_int slot"

definition slotPrefix :: "naming \<Rightarrow> string \<Rightarrow> string \<Rightarrow> string" where
  "slotPrefix e ws sn = GetContainerPrefix e @ IdentityHash e ws sn @ ''-''"

text \<open>The regular expression \<open>^pfx(\d+)$\<close> and \<open>strconv.Atoi\<close> on its group.\<close>

definition matchSlot :: "string \<Rightarrow> string \<Rightarrow> int option" where
  "matchSlot pfx name =
     (if has_prefix name pfx \<and> all_digits (drop (length pfx) name)
      then atoi (drop (length pfx) name) else None)"

section \<open>Containers that are there\<close>

text \<open>The regular expression \<open>"name"\s*:\s*"([^"]+)"\<close>, all matches: the fallback for a broken JSON.\<close>

definition re_space :: "char \<Rightarrow> bool" where
  "re_space c \<longleftrightarrow> c \<in> {CHR '' '', CHR 0x09, CHR 0x0A, CHR 0x0C, CHR 0x0D}"

definition dquote :: char where
  "dquote = CHR 0x22"

text \<open>One match at the start of the text: the name and what follows it.\<close>

definition nameAt :: "string \<Rightarrow> (string \<times> string) option" where
  "nameAt s = (let key = [dquote] @ ''name'' @ [dquote] in
     if \<not> has_prefix s key then None
     else (case dropWhile re_space (drop (length key) s) of
         c # t \<Rightarrow> if c \<noteq> CHR '':'' then None
           else (case dropWhile re_space t of
               q # u \<Rightarrow> (let v = takeWhile (\<lambda>x. x \<noteq> dquote) u; rest = dropWhile (\<lambda>x. x \<noteq> dquote) u in
                   if q = dquote \<and> v \<noteq> [] \<and> rest \<noteq> [] then Some (v, tl rest) else None)
             | [] \<Rightarrow> None)
       | [] \<Rightarrow> None))"

lemma nameAt_shorter: "nameAt s = Some (v, t) \<Longrightarrow> length t < length s"
proof -
  assume a: "nameAt s = Some (v, t)"
  define key where "key = [dquote] @ ''name'' @ [dquote]"
  obtain c x q u where 1: "dropWhile re_space (drop (length key) s) = c # x" "dropWhile re_space x = q # u"
    "t = tl (dropWhile (\<lambda>x. x \<noteq> dquote) u)"
    using a by (auto simp: nameAt_def Let_def key_def split: if_splits list.splits)
  have "length (c # x) \<le> length s"
    using length_dropWhile_le[of re_space "drop (length key) s"] 1(1) by simp
  moreover have "length (q # u) \<le> length x" using length_dropWhile_le[of re_space x] 1(2) by simp
  moreover have "length t \<le> length u"
    using length_dropWhile_le[of "\<lambda>x. x \<noteq> dquote" u] 1(3) by (cases "dropWhile (\<lambda>x. x \<noteq> dquote) u") auto
  ultimately show "length t < length s" by simp
qed

function nameMatches :: "string \<Rightarrow> string list" where
  "nameMatches s = (case s of [] \<Rightarrow> []
     | c # cs \<Rightarrow> (case nameAt s of None \<Rightarrow> nameMatches cs | Some (v, t) \<Rightarrow> v # nameMatches t))"
  by auto
termination
  by (relation "measure length") (auto dest: nameAt_shorter)

declare nameMatches.simps [simp del]

text \<open>
  \<open>output\<close> is what \<open>incus list --format=json\<close> printed, \<open>decode\<close> the names (with their status)
  the JSON holds, \<open>None\<close> when it is malformed.
\<close>

type_synonym decoder = "string \<Rightarrow> (string \<times> string) list option"

definition containerNames :: "decoder \<Rightarrow> string \<Rightarrow> string list" where
  "containerNames decode output =
     (case decode output of None \<Rightarrow> nameMatches output | Some cs \<Rightarrow> map fst cs)"

definition runningSlots :: "string \<Rightarrow> string list \<Rightarrow> int list" where
  "runningSlots pfx ns = List.map_filter (matchSlot pfx) ns"

section \<open>Slots\<close>

text \<open>The loop over the slots, upwards.\<close>

definition firstFree :: "int list \<Rightarrow> int \<Rightarrow> int \<Rightarrow> int option" where
  "firstFree running start maxSlots = find (\<lambda>s. s \<notin> set running) [start..maxSlots]"

definition maxOr10 :: "int \<Rightarrow> int" where
  "maxOr10 n = (if n = 0 then 10 else n)"

definition AllocateSlotFrom :: "naming \<Rightarrow> decoder \<Rightarrow> string result \<Rightarrow> string \<Rightarrow> string \<Rightarrow> int \<Rightarrow> int \<Rightarrow> int result" where
  "AllocateSlotFrom e decode output ws sn startSlot maxSlots0 =
     (let maxSlots = maxOr10 maxSlots0 in
      bindE output (\<lambda>out.
        case firstFree (runningSlots (slotPrefix e ws sn) (containerNames decode out)) startSlot maxSlots of
          Some slot \<Rightarrow> Inr slot
        | None \<Rightarrow> Inl (Errorf ''no available slots from %d to %d'' [itoa_int startSlot, itoa_int maxSlots])))"

definition AllocateSlot :: "naming \<Rightarrow> decoder \<Rightarrow> string result \<Rightarrow> string \<Rightarrow> string \<Rightarrow> int \<Rightarrow> int result" where
  "AllocateSlot e decode output ws sn maxSlots0 =
     (let maxSlots = maxOr10 maxSlots0 in
      bindE output (\<lambda>out.
        case firstFree (runningSlots (slotPrefix e ws sn) (containerNames decode out)) 1 maxSlots of
          Some slot \<Rightarrow> Inr slot
        | None \<Rightarrow> Inl (Errorf ''all %d slots are in use'' [itoa_int maxSlots])))"

text \<open>
  \<open>strings.EqualFold(status, "stopped")\<close>: ASCII letters fold to lower case, and the only other
  character that folds to one of these letters is the long s (U+017F, bytes C5 BF).
\<close>

definition equalFoldStopped :: "string \<Rightarrow> bool" where
  "equalFoldStopped status \<longleftrightarrow> to_lower status = ''stopped'' \<or>
     take 2 status = [CHR 0xC5, CHR 0xBF] \<and> to_lower (drop 2 status) = ''topped''"

text \<open>The lowest slot within the range whose container is stopped; 0 is none.\<close>

fun bestStopped :: "string \<Rightarrow> int \<Rightarrow> (string \<times> string) list \<Rightarrow> int \<Rightarrow> int" where
  "bestStopped pfx maxSlots [] best = best"
| "bestStopped pfx maxSlots ((name, status) # cs) best =
     bestStopped pfx maxSlots cs
       (if \<not> equalFoldStopped status then best
        else (case matchSlot pfx name of None \<Rightarrow> best
          | Some n \<Rightarrow> if n \<ge> 1 \<and> n \<le> maxSlots \<and> (best = 0 \<or> n < best) then n else best))"

definition FindReusablePersistentSlot :: "naming \<Rightarrow> decoder \<Rightarrow> string result \<Rightarrow> string \<Rightarrow> string \<Rightarrow> int \<Rightarrow> int \<times> bool" where
  "FindReusablePersistentSlot e decode output ws sn maxSlots0 =
     (case output of Inl _ \<Rightarrow> (0, False)
      | Inr out \<Rightarrow> (case decode out of None \<Rightarrow> (0, False)
        | Some cs \<Rightarrow> (let best = bestStopped (slotPrefix e ws sn) (maxOr10 maxSlots0) cs 0 in (best, best \<noteq> 0))))"

definition IsSlotAvailable :: "naming \<Rightarrow> (string \<Rightarrow> bool result) \<Rightarrow> string \<Rightarrow> string \<Rightarrow> int \<Rightarrow> bool result" where
  "IsSlotAvailable e running ws sn slot =
     bindE (running (ContainerName e ws sn slot)) (\<lambda>r. Inr (\<not> r))"

text \<open>The regular expression \<open>^pfx([a-f0-9]{8})-(\d+)$\<close>.\<close>

definition is_hex :: "char \<Rightarrow> bool" where
  "is_hex c \<longleftrightarrow> is_digit c \<or> CHR ''a'' \<le> c \<and> c \<le> CHR ''f''"

definition ParseContainerName :: "naming \<Rightarrow> string \<Rightarrow> (string \<times> int) result" where
  "ParseContainerName e name =
     (let pfx = GetContainerPrefix e; rest = drop (length pfx) name; h = take 8 rest; t = drop 8 rest in
      if has_prefix name pfx \<and> length h = 8 \<and> list_all is_hex h \<and> has_prefix t ''-'' \<and> all_digits (tl t)
      then (case atoi (tl t) of Some slot \<Rightarrow> Inr (h, slot)
         | None \<Rightarrow> Inl (Errorf ''invalid slot number in container name: %s'' [name]))
      else Inl (Errorf ''invalid container name format: %s'' [name]))"

text \<open>A map from slots to names: the last container of a slot wins.\<close>

definition ListWorkspaceSessions :: "naming \<Rightarrow> decoder \<Rightarrow> string result \<Rightarrow> string \<Rightarrow> string \<Rightarrow> (int \<Rightarrow> string option) result" where
  "ListWorkspaceSessions e decode output ws sn =
     bindE output (\<lambda>out. Inr (fold (\<lambda>name m. case matchSlot (slotPrefix e ws sn) name of
         None \<Rightarrow> m | Some slot \<Rightarrow> m(slot \<mapsto> name)) (containerNames decode out) (\<lambda>_. None)))"

section \<open>Session ids\<close>

text \<open>The regular expression \<open>sessionIDRe\<close>.\<close>

definition sessionIDRe :: "string \<Rightarrow> bool" where
  "sessionIDRe s \<longleftrightarrow> s \<noteq> [] \<and> is_alnum (hd s) \<and> length s \<le> 64 \<and>
     list_all (\<lambda>c. is_alnum c \<or> c \<in> {CHR ''.'', CHR ''_'', CHR ''-''}) (tl s)"

definition ValidateSessionID :: "string \<Rightarrow> unit result" where
  "ValidateSessionID s = (if sessionIDRe s then Inr () else Inl (Errorf ''invalid session id %q'' [s]))"

definition hex_digit :: "nat \<Rightarrow> char" where
  "hex_digit n = ''0123456789abcdef'' ! n"

definition hex_bytes :: "8 word list \<Rightarrow> string" where
  "hex_bytes bs = concat (map (\<lambda>b. [hex_digit (unat b div 16), hex_digit (unat b mod 16)]) bs)"

text \<open>\<open>random\<close> is what \<open>rand.Read\<close> put into the sixteen bytes.\<close>

definition GenerateSessionID :: "8 word list result \<Rightarrow> string result" where
  "GenerateSessionID random =
     bindE (wrapE ''failed to generate session ID'' random) (\<lambda>bytes.
       let b6 = bytes[6 := or (and (bytes ! 6) 0x0f) 0x40];
           b8 = b6[8 := or (and (b6 ! 8) 0x3f) 0x80]
       in Inr (hex_bytes (take 4 b8) @ ''-'' @ hex_bytes (take 2 (drop 4 b8)) @ ''-'' @
           hex_bytes (take 2 (drop 6 b8)) @ ''-'' @ hex_bytes (take 2 (drop 8 b8)) @ ''-'' @ hex_bytes (take 6 (drop 10 b8))))"

section \<open>Lemmas\<close>

lemma has_prefix_drop: "has_prefix s p \<Longrightarrow> s = p @ drop (length p) s"
  by (auto simp: has_prefix_iff)

lemma matchSlot_name: "matchSlot p (p @ itoa n) = (if int n < 2 ^ 63 then Some (int n) else None)"
  by (simp add: matchSlot_def atoi_digits)

lemma matchSlot_nonneg: "matchSlot p name = Some n \<Longrightarrow> n \<ge> 0"
  by (auto simp: matchSlot_def atoi_digits split: if_splits)

lemma runningSlots_iff: "s \<in> set (runningSlots p ns) \<longleftrightarrow> (\<exists>name \<in> set ns. matchSlot p name = Some s)"
  by (force simp: runningSlots_def List.map_filter_def)

lemma find_least:
  fixes P :: "int \<Rightarrow> bool"
  shows "find P [a..b] = Some s \<longleftrightarrow> P s \<and> a \<le> s \<and> s \<le> b \<and> (\<forall>t. a \<le> t \<and> t < s \<longrightarrow> \<not> P t)"
proof (induction "nat (b + 1 - a)" arbitrary: a)
  case 0
  then have "[a..b] = []" by simp
  with 0 show ?case by auto
next
  case (Suc k)
  then have e: "[a..b] = a # [a + 1..b]" by (simp add: upto_rec1)
  have IH: "find P [a + 1..b] = Some s \<longleftrightarrow> P s \<and> a + 1 \<le> s \<and> s \<le> b \<and> (\<forall>t. a + 1 \<le> t \<and> t < s \<longrightarrow> \<not> P t)"
    using Suc.hyps by (intro Suc.hyps(1)) simp
  show ?case
  proof (cases "P a")
    case True
    show ?thesis
    proof
      assume "find P [a..b] = Some s"
      with True e Suc.hyps(2) show "P s \<and> a \<le> s \<and> s \<le> b \<and> (\<forall>t. a \<le> t \<and> t < s \<longrightarrow> \<not> P t)" by auto
    next
      assume r: "P s \<and> a \<le> s \<and> s \<le> b \<and> (\<forall>t. a \<le> t \<and> t < s \<longrightarrow> \<not> P t)"
      with True have "s = a" by force
      with True e show "find P [a..b] = Some s" by simp
    qed
  next
    case False
    have "P s \<and> a + 1 \<le> s \<and> s \<le> b \<and> (\<forall>t. a + 1 \<le> t \<and> t < s \<longrightarrow> \<not> P t) \<longleftrightarrow>
        P s \<and> a \<le> s \<and> s \<le> b \<and> (\<forall>t. a \<le> t \<and> t < s \<longrightarrow> \<not> P t)"
      using False by (metis order.not_eq_order_implies_strict zless_add1_eq add.commute linorder_not_less order.strict_trans1 zless_imp_add1_zle less_add_one order.strict_implies_order)
    with IH False e show ?thesis by simp
  qed
qed

lemma find_none_upto: "find P [a..b] = None \<longleftrightarrow> (\<forall>t. a \<le> t \<and> t \<le> b \<longrightarrow> \<not> P t)" for P :: "int \<Rightarrow> bool"
  by (auto simp: find_None_iff)

lemma all_hex_length8: "list_all is_hex x \<Longrightarrow> list_all is_hex (take n x)"
  by (auto simp: list_all_iff dest: in_set_takeD)

lemma parse_container:
  assumes "length h = 8" "list_all is_hex h"
  shows "ParseContainerName e (GetContainerPrefix e @ h @ ''-'' @ itoa n)
       = (if int n < 2 ^ 63 then Inr (h, int n)
          else Inl (Errorf ''invalid slot number in container name: %s'' [GetContainerPrefix e @ h @ ''-'' @ itoa n]))"
  using assms by (simp add: ParseContainerName_def Let_def atoi_digits has_prefix_iff)

lemma ContainerName_slot: "0 \<le> slot \<Longrightarrow> ContainerName e ws sn slot = slotPrefix e ws sn @ itoa (nat slot)"
  by (simp add: ContainerName_def slotPrefix_def itoa_int_def)

text \<open>The session has a stopped container in slot \<open>t\<close> of the range.\<close>

definition stoppedIn :: "string \<Rightarrow> int \<Rightarrow> (string \<times> string) list \<Rightarrow> int \<Rightarrow> bool" where
  "stoppedIn p n cs t \<longleftrightarrow> 1 \<le> t \<and> t \<le> n \<and> (\<exists>(name, st) \<in> set cs. equalFoldStopped st \<and> matchSlot p name = Some t)"

lemma stoppedIn_pos: "stoppedIn p n cs t \<Longrightarrow> 1 \<le> t"
  by (simp add: stoppedIn_def)

lemma bestStopped_least:
  assumes "best = 0 \<or> 1 \<le> best"
  shows "(bestStopped p n cs best = 0 \<longleftrightarrow> best = 0 \<and> (\<forall>t. \<not> stoppedIn p n cs t)) \<and>
    (bestStopped p n cs best \<noteq> 0 \<longrightarrow>
       (bestStopped p n cs best = best \<or> stoppedIn p n cs (bestStopped p n cs best)) \<and>
       (best \<noteq> 0 \<longrightarrow> bestStopped p n cs best \<le> best) \<and> (\<forall>t. stoppedIn p n cs t \<longrightarrow> bestStopped p n cs best \<le> t))"
  using assms
proof (induction cs arbitrary: best)
  case Nil
  then show ?case by (simp add: stoppedIn_def)
next
  case (Cons c cs)
  obtain name st where c: "c = (name, st)" by (cases c)
  define b where "b = (if \<not> equalFoldStopped st then best
        else (case matchSlot p name of None \<Rightarrow> best
          | Some m \<Rightarrow> if m \<ge> 1 \<and> m \<le> n \<and> (best = 0 \<or> m < best) then m else best))"
  have b: "b = 0 \<or> 1 \<le> b" using Cons.prems by (auto simp: b_def split: option.split)
  have e: "bestStopped p n (c # cs) best = bestStopped p n cs b" by (simp add: c b_def)
  have k: "stoppedIn p n (c # cs) t \<longleftrightarrow> stoppedIn p n cs t \<or> 1 \<le> t \<and> t \<le> n \<and> equalFoldStopped st \<and> matchSlot p name = Some t" for t
    by (auto simp: stoppedIn_def c)
  have bb: "b = best \<or> stoppedIn p n (c # cs) b" by (auto simp: b_def k split: option.splits)
  have le: "best \<noteq> 0 \<Longrightarrow> b \<le> best \<and> b \<noteq> 0" by (auto simp: b_def split: option.splits)
  have lt: "1 \<le> t \<and> t \<le> n \<and> equalFoldStopped st \<and> matchSlot p name = Some t \<Longrightarrow> b \<noteq> 0 \<and> b \<le> t" for t
    using Cons.prems by (auto simp: b_def)
  note IH = Cons.IH[OF b]
  show ?case unfolding e
  proof (intro conjI impI)
    show "(bestStopped p n cs b = 0) = (best = 0 \<and> (\<forall>t. \<not> stoppedIn p n (c # cs) t))"
      using IH bb le lt k by (metis (no_types, lifting))
  next
    assume z: "bestStopped p n cs b \<noteq> 0"
    then show "bestStopped p n cs b = best \<or> stoppedIn p n (c # cs) (bestStopped p n cs b)" using IH bb k by metis
    show "best \<noteq> 0 \<Longrightarrow> bestStopped p n cs b \<le> best" using z IH le by force
    show "\<forall>t. stoppedIn p n (c # cs) t \<longrightarrow> bestStopped p n cs b \<le> t" using z IH lt k by (metis order_trans)
  qed
qed

text \<open>The name of a session's slot parses back to the session's hash and the slot, and the
  session's own scan of the containers recognises it as exactly that slot.\<close>

theorem container_name_roundtrip:
  assumes "\<And>x. length (sha256hex e x) = 64 \<and> list_all is_hex (sha256hex e x)" and "0 \<le> slot" "slot < 2 ^ 63"
  shows "ParseContainerName e (ContainerName e ws sn slot) = Inr (IdentityHash e ws sn, slot) \<and>
    matchSlot (slotPrefix e ws sn) (ContainerName e ws sn slot) = Some slot"
proof
  have h: "length (IdentityHash e ws sn) = 8" "list_all is_hex (IdentityHash e ws sn)"
    using assms(1) by (simp_all add: IdentityHash_def all_hex_length8)
  show "ParseContainerName e (ContainerName e ws sn slot) = Inr (IdentityHash e ws sn, slot)"
    using parse_container[OF h, of e "nat slot"] assms(2,3) by (simp add: ContainerName_def itoa_int_def)
  show "matchSlot (slotPrefix e ws sn) (ContainerName e ws sn slot) = Some slot"
    using assms(2,3) by (simp add: ContainerName_slot matchSlot_name)
qed

definition demoNaming :: naming where
  "demoNaming = \<lparr>sha256hex = \<lambda>x. replicate 64 (CHR ''a''), EnvPrefix = [], NOs = \<lparr>HomeDir = None, WorkDir = None, COI_CONFIG = []\<rparr>\<rparr>"

lemma container_name_roundtrip_witness:
  "ParseContainerName demoNaming (ContainerName demoNaming ''/w'' [] 3) = Inr (IdentityHash demoNaming ''/w'' [], 3) \<and>
    matchSlot (slotPrefix demoNaming ''/w'' []) (ContainerName demoNaming ''/w'' [] 3) = Some 3"
  by (rule container_name_roundtrip) (simp_all add: demoNaming_def is_hex_def is_digit_def list_all_iff)

text \<open>Slot allocation gives the lowest slot of the range that no listed container of the session
  occupies, fails only when every slot of the range is occupied, and the name of the slot
  it gives is not among the listed containers.\<close>

theorem allocate_slot_least:
  "(AllocateSlotFrom e decode (Inr out) ws sn start n = Inr s \<longleftrightarrow>
     start \<le> s \<and> s \<le> maxOr10 n \<and>
     (\<forall>t. start \<le> t \<and> t \<le> s \<longrightarrow>
        (t = s) = (\<forall>name \<in> set (containerNames decode out). matchSlot (slotPrefix e ws sn) name \<noteq> Some t))) \<and>
   ((\<exists>err. AllocateSlotFrom e decode (Inr out) ws sn start n = Inl err) \<longleftrightarrow>
     (\<forall>t. start \<le> t \<and> t \<le> maxOr10 n \<longrightarrow>
        (\<exists>name \<in> set (containerNames decode out). matchSlot (slotPrefix e ws sn) name = Some t))) \<and>
   (AllocateSlotFrom e decode (Inr out) ws sn start n = Inr s \<longrightarrow> 0 \<le> s \<longrightarrow> s < 2 ^ 63 \<longrightarrow>
     ContainerName e ws sn s \<notin> set (containerNames decode out))"
proof -
  let ?run = "runningSlots (slotPrefix e ws sn) (containerNames decode out)"
  have ok: "AllocateSlotFrom e decode (Inr out) ws sn start n = Inr s \<longleftrightarrow> firstFree ?run start (maxOr10 n) = Some s" for s
    by (simp add: AllocateSlotFrom_def Let_def split: option.split)
  have err: "(\<exists>err. AllocateSlotFrom e decode (Inr out) ws sn start n = Inl err) \<longleftrightarrow> firstFree ?run start (maxOr10 n) = None"
    by (simp add: AllocateSlotFrom_def Let_def split: option.split)
  have "firstFree ?run start (maxOr10 n) = Some s \<longleftrightarrow>
      start \<le> s \<and> s \<le> maxOr10 n \<and> (\<forall>t. start \<le> t \<and> t \<le> s \<longrightarrow> (t = s) = (t \<notin> set ?run))"
    unfolding firstFree_def find_least by (metis order.refl order.strict_iff_order)
  moreover have "firstFree ?run start (maxOr10 n) = None \<longleftrightarrow> (\<forall>t. start \<le> t \<and> t \<le> maxOr10 n \<longrightarrow> t \<in> set ?run)"
    unfolding firstFree_def find_none_upto by simp
  moreover have "firstFree ?run start (maxOr10 n) = Some s \<Longrightarrow> 0 \<le> s \<Longrightarrow> s < 2 ^ 63 \<Longrightarrow>
      ContainerName e ws sn s \<notin> set (containerNames decode out)"
    unfolding firstFree_def find_least runningSlots_iff by (auto simp: ContainerName_slot matchSlot_name)
  ultimately show ?thesis unfolding ok err runningSlots_iff by (simp add: Ball_def)
qed

definition demoDecode :: decoder where
  "demoDecode out = Some [(ContainerName demoNaming ''/w'' [] 1, ''Running''), (''other'', ''Stopped'')]"

lemma demo_allocates: "AllocateSlotFrom demoNaming demoDecode (Inr []) ''/w'' [] 1 0 = Inr 2"
  by code_simp

lemma allocate_slot_least_witness:
  "ContainerName demoNaming ''/w'' [] 2 \<notin> set (containerNames demoDecode [])"
  using allocate_slot_least[of demoNaming demoDecode "[]" "''/w''" "[]" 1 0 2] demo_allocates by simp

lemma demo_reuses: "FindReusablePersistentSlot demoNaming (\<lambda>_. Some [(ContainerName demoNaming ''/w'' [] 4, ''Stopped''),
      (ContainerName demoNaming ''/w'' [] 2, ''STOPPED'')]) (Inr []) ''/w'' [] 0 = (2, True)"
  by code_simp

text \<open>A persistent session is put into the lowest slot of the range whose container of this
  session exists and is stopped, and into none when there is no such container.\<close>

theorem reusable_slot_least:
  "(FindReusablePersistentSlot e decode output ws sn n = (s, True) \<longleftrightarrow>
     (\<exists>out cs. output = Inr out \<and> decode out = Some cs \<and>
       stoppedIn (slotPrefix e ws sn) (maxOr10 n) cs s \<and>
       (\<forall>t. stoppedIn (slotPrefix e ws sn) (maxOr10 n) cs t \<longrightarrow> s \<le> t))) \<and>
   (snd (FindReusablePersistentSlot e decode (Inr out) ws sn n) \<longleftrightarrow>
     (\<exists>cs t. decode out = Some cs \<and> stoppedIn (slotPrefix e ws sn) (maxOr10 n) cs t))"
proof (intro conjI)
  have least: "(let b = bestStopped p m cs 0 in (b, b \<noteq> 0)) = (s, True) \<longleftrightarrow>
      stoppedIn p m cs s \<and> (\<forall>t. stoppedIn p m cs t \<longrightarrow> s \<le> t)" for p m cs
  proof -
    note L = bestStopped_least[of 0 p m cs]
    show ?thesis using L stoppedIn_pos by (auto simp: Let_def intro: order.antisym)
  qed
  show "FindReusablePersistentSlot e decode output ws sn n = (s, True) \<longleftrightarrow>
     (\<exists>out cs. output = Inr out \<and> decode out = Some cs \<and>
       stoppedIn (slotPrefix e ws sn) (maxOr10 n) cs s \<and>
       (\<forall>t. stoppedIn (slotPrefix e ws sn) (maxOr10 n) cs t \<longrightarrow> s \<le> t))"
    unfolding FindReusablePersistentSlot_def using least by (auto split: sum.split option.split)
  show "snd (FindReusablePersistentSlot e decode (Inr out) ws sn n) \<longleftrightarrow>
     (\<exists>cs t. decode out = Some cs \<and> stoppedIn (slotPrefix e ws sn) (maxOr10 n) cs t)"
    using bestStopped_least[of 0] by (auto simp: FindReusablePersistentSlot_def Let_def split: option.split)
qed

lemma reusable_slot_least_witness:
  "stoppedIn (slotPrefix demoNaming ''/w'' []) 10
     [(ContainerName demoNaming ''/w'' [] 4, ''Stopped''), (ContainerName demoNaming ''/w'' [] 2, ''STOPPED'')] 2"
  using reusable_slot_least[of demoNaming "\<lambda>_. Some [(ContainerName demoNaming ''/w'' [] 4, ''Stopped''),
      (ContainerName demoNaming ''/w'' [] 2, ''STOPPED'')]" "Inr []" "''/w''" "[]" 0 2 "[]"]
    demo_reuses by (simp add: maxOr10_def)

end
