(* ===== verification/GoUtf8.thy ===== *)
theory GoUtf8
  imports GoStrings
begin

text \<open>
  Go strings as UTF-8: how \<open>range\<close>, \<open>strings.Map\<close> and \<open>strconv.Quote\<close> cut a string of bytes
  into runes (\<open>unicode/utf8\<close>), and the quoting that \<open>%q\<close> performs. A byte that begins no
  valid encoding is a rune of its own, \<open>utf8.RuneError\<close> of width one.
\<close>

section \<open>Runes\<close>

definition byte :: "char \<Rightarrow> nat" where
  "byte c = of_char c"

definition cont :: "char \<Rightarrow> bool" where
  "cont c \<longleftrightarrow> 0x80 \<le> byte c \<and> byte c \<le> 0xBF"

text \<open>The encodings of each width: the lead byte restricts the second byte of the longer ones.\<close>

fun enc1 enc2 enc3 enc4 :: "string \<Rightarrow> bool" where
  "enc1 (c0 # _) \<longleftrightarrow> byte c0 < 0x80"
| "enc1 [] \<longleftrightarrow> False"
| "enc2 (c0 # c1 # _) \<longleftrightarrow> 0xC2 \<le> byte c0 \<and> byte c0 \<le> 0xDF \<and> cont c1"
| "enc2 _ \<longleftrightarrow> False"
| "enc3 (c0 # c1 # c2 # _) \<longleftrightarrow> 0xE0 \<le> byte c0 \<and> byte c0 \<le> 0xEF \<and> cont c1 \<and> cont c2 \<and>
     (byte c0 = 0xE0 \<longrightarrow> 0xA0 \<le> byte c1) \<and> (byte c0 = 0xED \<longrightarrow> byte c1 \<le> 0x9F)"
| "enc3 _ \<longleftrightarrow> False"
| "enc4 (c0 # c1 # c2 # c3 # _) \<longleftrightarrow> 0xF0 \<le> byte c0 \<and> byte c0 \<le> 0xF4 \<and> cont c1 \<and> cont c2 \<and> cont c3 \<and>
     (byte c0 = 0xF0 \<longrightarrow> 0x90 \<le> byte c1) \<and> (byte c0 = 0xF4 \<longrightarrow> byte c1 \<le> 0x8F)"
| "enc4 _ \<longleftrightarrow> False"

text \<open>The width of the valid encoding at the start of the string, 0 when there is none.\<close>

definition rune_len :: "string \<Rightarrow> nat" where
  "rune_len s = (if enc1 s then 1 else if enc2 s then 2 else if enc3 s then 3 else if enc4 s then 4 else 0)"

text \<open>The code point of the valid encoding at the start of the string.\<close>

definition rune_val :: "string \<Rightarrow> nat" where
  "rune_val s = (let b = \<lambda>i. byte (s ! i) in
     if rune_len s = 1 then b 0
     else if rune_len s = 2 then (b 0 - 0xC0) * 64 + (b 1 - 0x80)
     else if rune_len s = 3 then (b 0 - 0xE0) * 4096 + (b 1 - 0x80) * 64 + (b 2 - 0x80)
     else (b 0 - 0xF0) * 262144 + (b 1 - 0x80) * 4096 + (b 2 - 0x80) * 64 + (b 3 - 0x80))"

definition rune_width :: "string \<Rightarrow> nat" where
  "rune_width s = (if rune_len s = 0 then 1 else rune_len s)"

text \<open>The runes of a string, each as its bytes.\<close>

function go_runes :: "string \<Rightarrow> string list" where
  "go_runes s = (if s = [] then [] else take (rune_width s) s # go_runes (drop (rune_width s) s))"
  by auto
termination
  by (relation "measure length") (auto simp: rune_width_def)

declare go_runes.simps [simp del]

text \<open>\<open>strings.Map\<close> with a mapping that keeps some ASCII characters and replaces every other rune by one.\<close>

definition map_runes :: "(char \<Rightarrow> bool) \<Rightarrow> char \<Rightarrow> string \<Rightarrow> string" where
  "map_runes keep r s = map (\<lambda>t. if length t = 1 \<and> byte (hd t) < 0x80 \<and> keep (hd t) then hd t else r) (go_runes s)"

section \<open>Quoting\<close>

definition lower_hex :: "nat \<Rightarrow> char" where
  "lower_hex n = ''0123456789abcdef'' ! n"

fun hex_n :: "nat \<Rightarrow> nat \<Rightarrow> string" where
  "hex_n 0 v = []"
| "hex_n (Suc k) v = hex_n k (v div 16) @ [lower_hex (v mod 16)]"

text \<open>
  \<open>strconv.IsPrint\<close>: \<open>printable\<close> is its table from 0x80 on, which is Unicode's; below, the
  printable characters are those of ASCII.
\<close>

definition is_print :: "(nat \<Rightarrow> bool) \<Rightarrow> nat \<Rightarrow> bool" where
  "is_print printable r = (if r < 0x80 then 0x20 \<le> r \<and> r \<le> 0x7E else printable r)"

text \<open>\<open>appendEscapedRune\<close>, for one rune given by its bytes.\<close>

definition quote_rune :: "(nat \<Rightarrow> bool) \<Rightarrow> string \<Rightarrow> string" where
  "quote_rune printable t = (let b = byte (hd t); r = rune_val t in
     if rune_len t = 0 then CHR 0x5C # CHR ''x'' # hex_n 2 b
     else if t = [CHR 0x22] \<or> t = [CHR 0x5C] then CHR 0x5C # t
     else if is_print printable r then t
     else if r = 7 then [CHR 0x5C, CHR ''a'']
     else if r = 8 then [CHR 0x5C, CHR ''b'']
     else if r = 12 then [CHR 0x5C, CHR ''f'']
     else if r = 10 then [CHR 0x5C, CHR ''n'']
     else if r = 13 then [CHR 0x5C, CHR ''r'']
     else if r = 9 then [CHR 0x5C, CHR ''t'']
     else if r = 11 then [CHR 0x5C, CHR ''v'']
     else if r < 0x20 \<or> r = 0x7F then CHR 0x5C # CHR ''x'' # hex_n 2 r
     else if r < 0x10000 then CHR 0x5C # CHR ''u'' # hex_n 4 r
     else CHR 0x5C # CHR ''U'' # hex_n 8 r)"

text \<open>\<open>strconv.Quote\<close>, which is what \<open>%q\<close> prints for a string.\<close>

definition go_quote :: "(nat \<Rightarrow> bool) \<Rightarrow> string \<Rightarrow> string" where
  "go_quote printable s = CHR 0x22 # concat (map (quote_rune printable) (go_runes s)) @ [CHR 0x22]"

section \<open>Lemmas\<close>

lemma byte_inj [simp]: "byte c = byte d \<longleftrightarrow> c = d"
  by (simp add: byte_def)

lemma byte_lt: "byte c < 256"
  by (simp add: byte_def)

lemma enc_bounds: "enc1 s \<Longrightarrow> 1 \<le> length s" "enc2 s \<Longrightarrow> 2 \<le> length s" "enc3 s \<Longrightarrow> 3 \<le> length s" "enc4 s \<Longrightarrow> 4 \<le> length s"
  by (erule enc1.elims enc2.elims enc3.elims enc4.elims; simp)+

lemma enc_append: "enc1 s \<Longrightarrow> enc1 (s @ x)" "enc2 s \<Longrightarrow> enc2 (s @ x)" "enc3 s \<Longrightarrow> enc3 (s @ x)" "enc4 s \<Longrightarrow> enc4 (s @ x)"
  by (erule enc1.elims enc2.elims enc3.elims enc4.elims; simp)+

lemma enc_take: "enc1 s \<Longrightarrow> enc1 (take 1 s)" "enc2 s \<Longrightarrow> enc2 (take 2 s)" "enc3 s \<Longrightarrow> enc3 (take 3 s)" "enc4 s \<Longrightarrow> enc4 (take 4 s)"
  by (erule enc1.elims enc2.elims enc3.elims enc4.elims; simp add: numeral_eq_Suc)+

lemma enc_forms:
  "enc1 s \<Longrightarrow> length s = 1 \<Longrightarrow> \<exists>c0. s = [c0]"
  "enc2 s \<Longrightarrow> length s = 2 \<Longrightarrow> \<exists>c0 c1. s = [c0, c1]"
  "enc3 s \<Longrightarrow> length s = 3 \<Longrightarrow> \<exists>c0 c1 c2. s = [c0, c1, c2]"
  "enc4 s \<Longrightarrow> length s = 4 \<Longrightarrow> \<exists>c0 c1 c2 c3. s = [c0, c1, c2, c3]"
  by (simp_all add: length_Suc_conv numeral_eq_Suc) blast+

text \<open>The lead bytes tell the widths apart.\<close>

lemma enc_lead:
  "enc1 s \<Longrightarrow> byte (hd s) < 0x80"
  "enc2 s \<Longrightarrow> 0xC2 \<le> byte (hd s) \<and> byte (hd s) \<le> 0xDF"
  "enc3 s \<Longrightarrow> 0xE0 \<le> byte (hd s) \<and> byte (hd s) \<le> 0xEF"
  "enc4 s \<Longrightarrow> 0xF0 \<le> byte (hd s)"
  by (erule enc1.elims enc2.elims enc3.elims enc4.elims; simp)+

lemma rune_len_iff:
  "rune_len s = 1 \<longleftrightarrow> enc1 s" "rune_len s = 2 \<longleftrightarrow> enc2 s" "rune_len s = 3 \<longleftrightarrow> enc3 s" "rune_len s = 4 \<longleftrightarrow> enc4 s"
  using enc_lead[of s] by (auto simp: rune_len_def)

lemma rune_len_cases: "rune_len s \<in> {0, 1, 2, 3, 4}"
  by (simp add: rune_len_def)

lemma rune_width_bounds: "s \<noteq> [] \<Longrightarrow> 1 \<le> rune_width s \<and> rune_width s \<le> length s"
  using enc_bounds[of s] by (auto simp: rune_width_def rune_len_def Suc_le_eq)

text \<open>A rune's bytes: a valid encoding, or one byte that begins none.\<close>

definition is_rune :: "string \<Rightarrow> bool" where
  "is_rune t \<longleftrightarrow> t \<noteq> [] \<and> (rune_len t = length t \<or> rune_len t = 0 \<and> length t = 1)"

definition enc :: "nat \<Rightarrow> string \<Rightarrow> bool" where
  "enc k s \<longleftrightarrow> k = 1 \<and> enc1 s \<or> k = 2 \<and> enc2 s \<or> k = 3 \<and> enc3 s \<or> k = 4 \<and> enc4 s"

lemma rune_len_enc: "0 < k \<Longrightarrow> rune_len s = k \<longleftrightarrow> enc k s"
  using rune_len_cases[of s] rune_len_iff[of s] unfolding enc_def by (metis One_nat_def insert_iff neq0_conv singletonD)

lemma rune_len_append: "rune_len t = length t \<Longrightarrow> t \<noteq> [] \<Longrightarrow> rune_len (t @ x) = length t"
  by (simp add: rune_len_enc) (auto simp: enc_def enc_append)

lemma rune_len_take: "rune_len s = k \<Longrightarrow> 0 < k \<Longrightarrow> rune_len (take k s) = k"
  unfolding rune_len_enc using enc_take[of s] unfolding enc_def by blast

lemma invalid_rune_byte: "rune_len [c] = 0 \<longleftrightarrow> 0x80 \<le> byte c"
  by (auto simp: rune_len_def)

lemma rune_len_zero: "s \<noteq> [] \<Longrightarrow> rune_len s = 0 \<Longrightarrow> 0x80 \<le> byte (hd s)"
  by (cases s) (auto simp: rune_len_def split: if_splits)

lemma is_rune_take: "s \<noteq> [] \<Longrightarrow> is_rune (take (rune_width s) s)"
proof (cases "rune_len s = 0")
  case True
  assume s: "s \<noteq> []"
  then obtain c t where "s = c # t" by (cases s) auto
  with rune_len_zero[OF s True] True show ?thesis
    by (simp add: is_rune_def rune_width_def invalid_rune_byte)
next
  case False
  assume s: "s \<noteq> []"
  have "rune_width s = rune_len s" using False by (simp add: rune_width_def)
  then show ?thesis using rune_len_take[of s "rune_len s"] False rune_width_bounds[OF s] s
    by (simp add: is_rune_def min_def)
qed

lemma go_runes_all: "t \<in> set (go_runes s) \<Longrightarrow> is_rune t"
proof (induction s rule: go_runes.induct)
  case (1 s)
  show ?case
  proof (cases "s = []")
    case True with 1 show ?thesis by (simp add: go_runes.simps)
  next
    case False
    then have "t = take (rune_width s) s \<or> t \<in> set (go_runes (drop (rune_width s) s))"
      using "1.prems" by (subst (asm) go_runes.simps) simp
    with 1 False is_rune_take[OF False] show ?thesis by blast
  qed
qed

lemma go_runes_concat [simp]: "concat (go_runes s) = s"
proof (induction s rule: go_runes.induct)
  case (1 s)
  then show ?case by (subst go_runes.simps) simp
qed

text \<open>The code points of the widths do not overlap.\<close>

lemma valid_rune_cases:
  assumes "rune_len t = length t" "t \<noteq> []"
  obtains (1) c0 where "t = [c0]" "enc1 t" | (2) c0 c1 where "t = [c0, c1]" "enc2 t"
  | (3) c0 c1 c2 where "t = [c0, c1, c2]" "enc3 t" | (4) c0 c1 c2 c3 where "t = [c0, c1, c2, c3]" "enc4 t"
proof -
  have "enc (length t) t" using assms rune_len_enc[of "length t" t] by simp
  then consider "length t = 1" "enc1 t" | "length t = 2" "enc2 t" | "length t = 3" "enc3 t" | "length t = 4" "enc4 t"
    by (auto simp: enc_def)
  then show thesis using enc_forms[of t] that by cases blast+
qed

lemma valid_rune_form:
  assumes "rune_len t = length t" "t \<noteq> []"
  shows "length t = 1 \<Longrightarrow> \<exists>c0. t = [c0] \<and> enc1 t" "length t = 2 \<Longrightarrow> \<exists>c0 c1. t = [c0, c1] \<and> enc2 t"
    "length t = 3 \<Longrightarrow> \<exists>c0 c1 c2. t = [c0, c1, c2] \<and> enc3 t"
    "length t = 4 \<Longrightarrow> \<exists>c0 c1 c2 c3. t = [c0, c1, c2, c3] \<and> enc4 t"
  using assms by - (rule valid_rune_cases[OF assms]; simp)+

lemma rune_vals:
  "enc1 [c0] \<Longrightarrow> rune_val [c0] = byte c0"
  "enc2 [c0, c1] \<Longrightarrow> rune_val [c0, c1] = (byte c0 - 0xC0) * 64 + (byte c1 - 0x80)"
  "enc3 [c0, c1, c2] \<Longrightarrow> rune_val [c0, c1, c2] = (byte c0 - 0xE0) * 4096 + (byte c1 - 0x80) * 64 + (byte c2 - 0x80)"
  "enc4 [c0, c1, c2, c3] \<Longrightarrow> rune_val [c0, c1, c2, c3] =
     (byte c0 - 0xF0) * 262144 + (byte c1 - 0x80) * 4096 + (byte c2 - 0x80) * 64 + (byte c3 - 0x80)"
proof -
  show "enc1 [c0] \<Longrightarrow> rune_val [c0] = byte c0" using rune_len_iff(1)[of "[c0]"] by (simp add: rune_val_def)
  show "enc2 [c0, c1] \<Longrightarrow> rune_val [c0, c1] = (byte c0 - 0xC0) * 64 + (byte c1 - 0x80)"
    using rune_len_iff(2)[of "[c0, c1]"] by (simp add: rune_val_def)
  show "enc3 [c0, c1, c2] \<Longrightarrow> rune_val [c0, c1, c2] = (byte c0 - 0xE0) * 4096 + (byte c1 - 0x80) * 64 + (byte c2 - 0x80)"
    using rune_len_iff(3)[of "[c0, c1, c2]"] by (simp add: rune_val_def)
  show "enc4 [c0, c1, c2, c3] \<Longrightarrow> rune_val [c0, c1, c2, c3] =
     (byte c0 - 0xF0) * 262144 + (byte c1 - 0x80) * 4096 + (byte c2 - 0x80) * 64 + (byte c3 - 0x80)"
    using rune_len_iff(4)[of "[c0, c1, c2, c3]"] by (simp add: rune_val_def)
qed

lemma digits64: "a < 64 \<Longrightarrow> b < 64 \<Longrightarrow> x * 64 + a = y * 64 + b \<longleftrightarrow> x = y \<and> a = (b::nat)"
  by (rule iffI, cases x y rule: linorder_cases) simp_all

text \<open>The bits that each byte carries, at the place they have in the code point.\<close>

lemma cont_bits: "cont c \<Longrightarrow> \<exists>d<64. byte c = 0x80 + d"
  by (rule exI[of _ "byte c - 0x80"]) (auto simp: cont_def)

lemma lead_bits: "n \<le> byte c \<Longrightarrow> \<exists>d. byte c = n + d"
  by (simp add: le_iff_add)

lemma enc_bits:
  "enc2 [c0, c1] \<Longrightarrow> \<exists>a b. byte c0 = 0xC0 + a \<and> byte c1 = 0x80 + b \<and> 2 \<le> a \<and> a < 32 \<and> b < 64 \<and>
     rune_val [c0, c1] = a * 64 + b"
  "enc3 [c0, c1, c2] \<Longrightarrow> \<exists>a b c. byte c0 = 0xE0 + a \<and> byte c1 = 0x80 + b \<and> byte c2 = 0x80 + c \<and>
     a < 16 \<and> b < 64 \<and> c < 64 \<and> (a = 0 \<longrightarrow> 32 \<le> b) \<and> rune_val [c0, c1, c2] = (a * 64 + b) * 64 + c"
  "enc4 [c0, c1, c2, c3] \<Longrightarrow> \<exists>a b c d. byte c0 = 0xF0 + a \<and> byte c1 = 0x80 + b \<and> byte c2 = 0x80 + c \<and> byte c3 = 0x80 + d \<and>
     a \<le> 4 \<and> b < 64 \<and> c < 64 \<and> d < 64 \<and> (a = 0 \<longrightarrow> 16 \<le> b) \<and> (a = 4 \<longrightarrow> b < 16) \<and>
     rune_val [c0, c1, c2, c3] = ((a * 64 + b) * 64 + c) * 64 + d"
proof -
  assume e: "enc2 [c0, c1]"
  obtain a where "byte c0 = 0xC0 + a" using lead_bits[of "0xC0" c0] e by auto
  moreover obtain b where "b < 64" "byte c1 = 0x80 + b" using cont_bits e by auto
  ultimately show "\<exists>a b. byte c0 = 0xC0 + a \<and> byte c1 = 0x80 + b \<and> 2 \<le> a \<and> a < 32 \<and> b < 64 \<and>
     rune_val [c0, c1] = a * 64 + b"
    using e rune_vals(2)[OF e] by - (rule exI[of _ a], rule exI[of _ b], simp add: algebra_simps)
next
  assume e: "enc3 [c0, c1, c2]"
  obtain a where "byte c0 = 0xE0 + a" using lead_bits[of "0xE0" c0] e by auto
  moreover obtain b where "b < 64" "byte c1 = 0x80 + b" using cont_bits e by auto
  moreover obtain c where "c < 64" "byte c2 = 0x80 + c" using cont_bits e by auto
  ultimately show "\<exists>a b c. byte c0 = 0xE0 + a \<and> byte c1 = 0x80 + b \<and> byte c2 = 0x80 + c \<and>
     a < 16 \<and> b < 64 \<and> c < 64 \<and> (a = 0 \<longrightarrow> 32 \<le> b) \<and> rune_val [c0, c1, c2] = (a * 64 + b) * 64 + c"
    using e rune_vals(3)[OF e] by - (rule exI[of _ a], rule exI[of _ b], rule exI[of _ c], simp add: algebra_simps)
next
  assume e: "enc4 [c0, c1, c2, c3]"
  obtain a where "byte c0 = 0xF0 + a" using lead_bits[of "0xF0" c0] e by auto
  moreover obtain b where "b < 64" "byte c1 = 0x80 + b" using cont_bits e by auto
  moreover obtain c where "c < 64" "byte c2 = 0x80 + c" using cont_bits e by auto
  moreover obtain d where "d < 64" "byte c3 = 0x80 + d" using cont_bits e by auto
  ultimately show "\<exists>a b c d. byte c0 = 0xF0 + a \<and> byte c1 = 0x80 + b \<and> byte c2 = 0x80 + c \<and> byte c3 = 0x80 + d \<and>
     a \<le> 4 \<and> b < 64 \<and> c < 64 \<and> d < 64 \<and> (a = 0 \<longrightarrow> 16 \<le> b) \<and> (a = 4 \<longrightarrow> b < 16) \<and>
     rune_val [c0, c1, c2, c3] = ((a * 64 + b) * 64 + c) * 64 + d"
    using e rune_vals(4)[OF e] by - (rule exI[of _ a], rule exI[of _ b], rule exI[of _ c], rule exI[of _ d], auto simp: algebra_simps)
qed

lemma rune_val_ranges:
  "enc1 [c0] \<Longrightarrow> rune_val [c0] < 0x80"
  "enc2 [c0, c1] \<Longrightarrow> 0x80 \<le> rune_val [c0, c1] \<and> rune_val [c0, c1] < 0x800"
  "enc3 [c0, c1, c2] \<Longrightarrow> 0x800 \<le> rune_val [c0, c1, c2] \<and> rune_val [c0, c1, c2] < 0x10000"
  "enc4 [c0, c1, c2, c3] \<Longrightarrow> 0x10000 \<le> rune_val [c0, c1, c2, c3] \<and> rune_val [c0, c1, c2, c3] < 0x110000"
proof -
  show "enc1 [c0] \<Longrightarrow> rune_val [c0] < 0x80" using rune_vals(1) by simp
  show "enc2 [c0, c1] \<Longrightarrow> 0x80 \<le> rune_val [c0, c1] \<and> rune_val [c0, c1] < 0x800" using enc_bits(1) by force
  show "enc3 [c0, c1, c2] \<Longrightarrow> 0x800 \<le> rune_val [c0, c1, c2] \<and> rune_val [c0, c1, c2] < 0x10000"
    by (drule enc_bits(2)) (elim exE conjE, case_tac "a = 0"; simp)
  show "enc4 [c0, c1, c2, c3] \<Longrightarrow> 0x10000 \<le> rune_val [c0, c1, c2, c3] \<and> rune_val [c0, c1, c2, c3] < 0x110000"
    by (drule enc_bits(3)) (elim exE conjE, case_tac "a = 0"; case_tac "a = 4"; simp)
qed

lemma width_of_val:
  assumes "rune_len t = length t" "t \<noteq> []"
  shows "length t = (if rune_val t < 0x80 then 1 else if rune_val t < 0x800 then 2 else if rune_val t < 0x10000 then 3 else 4)"
  using assms
proof (cases rule: valid_rune_cases)
  case (1 c0)
  with rune_val_ranges(1)[of c0] show ?thesis by simp
next
  case (2 c0 c1)
  with rune_val_ranges(2)[of c0 c1] show ?thesis by simp
next
  case (3 c0 c1 c2)
  with rune_val_ranges(3)[of c0 c1 c2] show ?thesis by simp
next
  case (4 c0 c1 c2 c3)
  with rune_val_ranges(4)[of c0 c1 c2 c3] show ?thesis by simp
qed

lemma rune_val_inj:
  assumes "rune_len s = length s" "s \<noteq> []" "rune_len t = length t" "t \<noteq> []" "rune_val s = rune_val t"
  shows "s = t"
proof -
  have len: "length s = length t"
    using width_of_val[OF assms(1,2)] unfolding assms(5) width_of_val[OF assms(3,4), symmetric] .
  show ?thesis using assms(1,2)
  proof (cases rule: valid_rune_cases)
    case s: (1 c0)
    from len s have "length t = 1" by simp
    then obtain d0 where t: "t = [d0]" "enc1 t" using valid_rune_form(1)[OF assms(3,4)] by blast
    with s assms(5) rune_vals(1)[of c0] rune_vals(1)[of d0] show ?thesis by simp
  next
    case s: (2 c0 c1)
    from len s have "length t = 2" by simp
    then obtain d0 d1 where t: "t = [d0, d1]" "enc2 t" using valid_rune_form(2)[OF assms(3,4)] by blast
    from s(2) t(2) obtain a b a' b' where *: "byte c0 = 0xC0 + a" "byte c1 = 0x80 + b" "b < 64" "rune_val s = a * 64 + b"
      "byte d0 = 0xC0 + a'" "byte d1 = 0x80 + b'" "b' < 64" "rune_val t = a' * 64 + b'"
      using enc_bits(1)[of c0 c1] enc_bits(1)[of d0 d1] s(1) t(1) by blast
    have "a = a' \<and> b = b'" using assms(5) unfolding *(4,8) digits64[OF *(3,7)] .
    then have "byte c0 = byte d0 \<and> byte c1 = byte d1" unfolding *(1,2,5,6) by blast
    with s t show ?thesis by simp
  next
    case s: (3 c0 c1 c2)
    from len s have "length t = 3" by simp
    then obtain d0 d1 d2 where t: "t = [d0, d1, d2]" "enc3 t" using valid_rune_form(3)[OF assms(3,4)] by blast
    from s(2) t(2) obtain a b c a' b' c' where
      *: "byte c0 = 0xE0 + a" "byte c1 = 0x80 + b" "byte c2 = 0x80 + c" "b < 64" "c < 64" "rune_val s = (a * 64 + b) * 64 + c"
      "byte d0 = 0xE0 + a'" "byte d1 = 0x80 + b'" "byte d2 = 0x80 + c'" "b' < 64" "c' < 64" "rune_val t = (a' * 64 + b') * 64 + c'"
      using enc_bits(2)[of c0 c1 c2] enc_bits(2)[of d0 d1 d2] s(1) t(1) by blast
    have "(a = a' \<and> b = b') \<and> c = c'" using assms(5) unfolding *(6,12) digits64[OF *(5,11)] digits64[OF *(4,10)] .
    then have "byte c0 = byte d0 \<and> byte c1 = byte d1 \<and> byte c2 = byte d2" unfolding *(1-3,7-9) by blast
    with s t show ?thesis by simp
  next
    case s: (4 c0 c1 c2 c3)
    from len s have "length t = 4" by simp
    then obtain d0 d1 d2 d3 where t: "t = [d0, d1, d2, d3]" "enc4 t" using valid_rune_form(4)[OF assms(3,4)] by blast
    from s(2) obtain a b c d where
      *: "byte c0 = 0xF0 + a" "byte c1 = 0x80 + b" "byte c2 = 0x80 + c" "byte c3 = 0x80 + d" "b < 64" "c < 64" "d < 64"
      "rune_val s = ((a * 64 + b) * 64 + c) * 64 + d"
      using enc_bits(3)[of c0 c1 c2 c3] s(1) by blast
    from t(2) obtain a' b' c' d' where
      **: "byte d0 = 0xF0 + a'" "byte d1 = 0x80 + b'" "byte d2 = 0x80 + c'" "byte d3 = 0x80 + d'" "b' < 64" "c' < 64" "d' < 64"
      "rune_val t = ((a' * 64 + b') * 64 + c') * 64 + d'"
      using enc_bits(3)[of d0 d1 d2 d3] t(1) by blast
    have "((a = a' \<and> b = b') \<and> c = c') \<and> d = d'"
      using assms(5) unfolding *(8) **(8) digits64[OF *(7) **(7)] digits64[OF *(6) **(6)] digits64[OF *(5) **(5)] .
    then have "byte c0 = byte d0 \<and> byte c1 = byte d1 \<and> byte c2 = byte d2 \<and> byte c3 = byte d3" unfolding *(1-4) **(1-4) by blast
    with s t show ?thesis by simp
  qed
qed

text \<open>The hexadecimal digits of an escape determine it.\<close>

lemma lower_hex_inj: "m < 16 \<Longrightarrow> n < 16 \<Longrightarrow> lower_hex m = lower_hex n \<longleftrightarrow> m = n"
  unfolding lower_hex_def by (subst nth_eq_iff_index_eq) simp_all

lemma length_hex_n [simp]: "length (hex_n k v) = k"
  by (induction k arbitrary: v) simp_all

lemma hex_n_inj: "hex_n k v = hex_n k w \<longleftrightarrow> v mod 16 ^ k = w mod 16 ^ k"
proof (induction k arbitrary: v w)
  case 0
  then show ?case by simp
next
  case (Suc k)
  have m: "x mod 16 ^ Suc k = 16 * (x div 16 mod 16 ^ k) + x mod 16" for x :: nat
    by (simp add: mod_mult2_eq)
  have d: "16 * a + b = 16 * c + e \<longleftrightarrow> a = c \<and> b = e" if "b < 16" "e < 16" for a b c e :: nat
    using that by (intro iffI, cases a c rule: linorder_cases) simp_all
  show ?case unfolding hex_n.simps m d[OF mod_less_divisor[of 16] mod_less_divisor[of 16], simplified]
    by (simp add: Suc.IH lower_hex_inj)
qed

lemma hex_n_append: "v < 16 ^ k \<Longrightarrow> w < 16 ^ k \<Longrightarrow> hex_n k v @ x = hex_n k w @ y \<longleftrightarrow> v = w \<and> x = y"
  by (simp add: hex_n_inj)

lemma ascii_rune:
  assumes "rune_len t = length t" "t \<noteq> []" "byte (hd t) < 0x80"
  shows "t = [hd t]"
  using assms(1,2)
proof (cases rule: valid_rune_cases)
  case (2 c0 c1)
  with enc_lead(2)[of t] assms(3) show ?thesis by simp
next
  case (3 c0 c1 c2)
  with enc_lead(3)[of t] assms(3) show ?thesis by simp
next
  case (4 c0 c1 c2 c3)
  with enc_lead(4)[of t] assms(3) show ?thesis by simp
qed simp

lemma rune_of_ascii:
  assumes "rune_len t = length t" "t \<noteq> []" "rune_val t < 0x80"
  shows "\<exists>c. t = [c] \<and> byte c = rune_val t"
  using valid_rune_form(1)[OF assms(1,2)] width_of_val[OF assms(1,2)] assms(3) rune_vals(1) by auto

lemma rune_val_max: "rune_len t = length t \<Longrightarrow> t \<noteq> [] \<Longrightarrow> rune_val t < 0x110000"
  using rune_val_ranges by (elim valid_rune_cases) fastforce+

definition simple_escapes :: "(char \<times> nat) list" where
  "simple_escapes = [(CHR 0x22, 0x22), (CHR 0x5C, 0x5C), (CHR ''a'', 7), (CHR ''b'', 8), (CHR ''f'', 12),
     (CHR ''n'', 10), (CHR ''r'', 13), (CHR ''t'', 9), (CHR ''v'', 11)]"

text \<open>The five shapes a quoted rune has.\<close>

lemma quote_rune_cases:
  assumes "is_rune t"
  obtains (lit) "quote_rune p t = t" "rune_len t = length t" "hd t \<noteq> CHR 0x22" "hd t \<noteq> CHR 0x5C"
  | (one) c where "quote_rune p t = [CHR 0x5C, c]" "rune_len t = length t" "(c, rune_val t) \<in> set simple_escapes"
  | (x) c where "quote_rune p t = CHR 0x5C # CHR ''x'' # hex_n 2 (byte c)" "t = [c]"
  | (u) "quote_rune p t = CHR 0x5C # CHR ''u'' # hex_n 4 (rune_val t)" "rune_val t < 0x10000" "rune_len t = length t"
  | (U) "quote_rune p t = CHR 0x5C # CHR ''U'' # hex_n 8 (rune_val t)" "rune_len t = length t"
proof (cases "rune_len t = 0")
  case True
  with assms obtain c where t: "t = [c]" by (auto simp: is_rune_def length_Suc_conv)
  with True show thesis by (intro x[of c]) (simp_all add: quote_rune_def Let_def)
next
  case False
  then have v: "rune_len t = length t" "t \<noteq> []" using assms by (auto simp: is_rune_def)
  consider "t = [CHR 0x22] \<or> t = [CHR 0x5C]"
    | "t \<noteq> [CHR 0x22]" "t \<noteq> [CHR 0x5C]" "is_print p (rune_val t)"
    | "t \<noteq> [CHR 0x22]" "t \<noteq> [CHR 0x5C]" "\<not> is_print p (rune_val t)"
    by blast
  then show thesis
  proof cases
    case 1
    then have "quote_rune p t = [CHR 0x5C, hd t]" using False by (auto simp: quote_rune_def)
    moreover have "rune_val t = byte (hd t)" using 1 rune_vals(1)[of "hd t"] by (elim disjE) (simp_all add: byte_def)
    moreover have "(hd t, byte (hd t)) \<in> set simple_escapes"
      using 1 by (elim disjE) (simp_all add: simple_escapes_def byte_def)
    ultimately show ?thesis using one[of "hd t"] v(1) by metis
  next
    case 2
    then have "quote_rune p t = t" using False by (simp add: quote_rune_def Let_def)
    moreover have "hd t \<noteq> CHR 0x22" "hd t \<noteq> CHR 0x5C" using 2 ascii_rune[OF v] by (auto simp: byte_def)
    ultimately show ?thesis using v(1) by (intro lit)
  next
    case 3
    consider (a) "rune_val t \<in> {7, 8, 12, 10, 13, 9, 11}" | (b) "rune_val t \<notin> {7, 8, 12, 10, 13, 9, 11}" "rune_val t < 0x20 \<or> rune_val t = 0x7F"
      | (c) "0x20 \<le> rune_val t" "rune_val t \<noteq> 0x7F"  by fastforce
    then show ?thesis
    proof cases
      case a
      with 3 False have "\<exists>c. quote_rune p t = [CHR 0x5C, c] \<and> (c, rune_val t) \<in> set simple_escapes"
        by (auto simp: quote_rune_def Let_def simple_escapes_def)
      with one v(1) show ?thesis by blast
    next
      case b
      then obtain c where c: "t = [c]" "byte c = rune_val t" using rune_of_ascii[OF v] by force
      with b 3 False have "quote_rune p t = CHR 0x5C # CHR ''x'' # hex_n 2 (byte c)" by (simp add: quote_rune_def Let_def)
      with x c show ?thesis by blast
    next
      case c
      with 3 False have "quote_rune p t = (if rune_val t < 0x10000 then CHR 0x5C # CHR ''u'' # hex_n 4 (rune_val t)
          else CHR 0x5C # CHR ''U'' # hex_n 8 (rune_val t))" by (simp add: quote_rune_def Let_def)
      with u U v(1) show ?thesis by (cases "rune_val t < 0x10000") simp_all
    qed
  qed
qed

lemma simple_escape_letters: "(c, r) \<in> set simple_escapes \<Longrightarrow> c \<noteq> CHR ''x'' \<and> c \<noteq> CHR ''u'' \<and> c \<noteq> CHR ''U''"
  by (auto simp: simple_escapes_def)

lemma simple_escapes_inj: "(c, r) \<in> set simple_escapes \<Longrightarrow> (c, r') \<in> set simple_escapes \<Longrightarrow> r = r'"
  by (auto simp: simple_escapes_def)

lemma valid_prefix_inj:
  assumes "rune_len s = length s" "s \<noteq> []" "rune_len t = length t" "t \<noteq> []" "s @ X = t @ Y"
  shows "s = t \<and> X = Y"
proof -
  have "length s = length t"
    using rune_len_append[OF assms(1,2), of X] rune_len_append[OF assms(3,4), of Y] assms(5) by simp
  with assms(5) show ?thesis by simp
qed

lemma quote_escape_kind:
  assumes "is_rune t" "quote_rune p t @ Y = CHR 0x5C # c # Z"
  shows "(c = CHR ''x'' \<longrightarrow> (\<exists>d. t = [d] \<and> Z = hex_n 2 (byte d) @ Y)) \<and>
    (c = CHR ''u'' \<longrightarrow> rune_len t = length t \<and> rune_val t < 0x10000 \<and> Z = hex_n 4 (rune_val t) @ Y) \<and>
    (c = CHR ''U'' \<longrightarrow> rune_len t = length t \<and> Z = hex_n 8 (rune_val t) @ Y) \<and>
    (c \<noteq> CHR ''x'' \<longrightarrow> c \<noteq> CHR ''u'' \<longrightarrow> c \<noteq> CHR ''U'' \<longrightarrow>
       rune_len t = length t \<and> (c, rune_val t) \<in> set simple_escapes \<and> Z = Y)"
  using assms(1)
proof (cases rule: quote_rune_cases[where p = p])
  case lit
  with assms(2) have "t @ Y = CHR 0x5C # c # Z" by simp
  with lit assms(1) show ?thesis by (cases t) (simp_all add: is_rune_def)
next
  case (one d)
  with assms(2) have "c = d" "Z = Y" by simp_all
  with one simple_escape_letters[of d] show ?thesis by simp
qed (use assms(2) in auto)

text \<open>Quoting a rune is injective, and what a rune is quoted to is never the start of another's.\<close>

lemma quote_rune_start: "is_rune t \<Longrightarrow> quote_rune p t \<noteq> [] \<and> hd (quote_rune p t) \<noteq> CHR 0x22"
proof -
  assume t: "is_rune t"
  then show ?thesis
  proof (cases rule: quote_rune_cases[where p = p])
    case lit
    with t show ?thesis by (simp add: is_rune_def) 
  qed simp_all
qed

lemma quote_rune_inj:
  assumes "is_rune s" "is_rune t" and e: "quote_rune p s @ X = quote_rune p t @ Y"
  shows "s = t \<and> X = Y"
proof -
  have n: "s \<noteq> []" "t \<noteq> []" using assms by (auto simp: is_rune_def)
  note K = quote_escape_kind[OF assms(2), of p Y]
  show ?thesis using assms(1)
  proof (cases rule: quote_rune_cases[where p = p])
    case lit
    then have h: "hd (quote_rune p t @ Y) \<noteq> CHR 0x5C" using n(1) e by (metis hd_append2)
    have "quote_rune p t = t \<and> rune_len t = length t"
      using assms(2) by (cases rule: quote_rune_cases[where p = p]) (use h in simp_all)
    with lit e valid_prefix_inj[OF _ n(1) _ n(2)] show ?thesis by metis
  next
    case (one c)
    with e have "quote_rune p t @ Y = CHR 0x5C # c # X" by simp
    from K[OF this] simple_escape_letters[OF one(3)]
    have "rune_len t = length t" "(c, rune_val t) \<in> set simple_escapes" "X = Y" by blast+
    with one simple_escapes_inj rune_val_inj n show ?thesis by blast
  next
    case (x c)
    with e have "quote_rune p t @ Y = CHR 0x5C # CHR ''x'' # hex_n 2 (byte c) @ X" by simp
    from K[OF this] obtain d where "t = [d]" "hex_n 2 (byte c) @ X = hex_n 2 (byte d) @ Y" by blast
    with x byte_lt[of c] byte_lt[of d] hex_n_append[of "byte c" 2 "byte d"] show ?thesis by simp
  next
    case u
    with e have "quote_rune p t @ Y = CHR 0x5C # CHR ''u'' # hex_n 4 (rune_val s) @ X" by simp
    from K[OF this] have t: "rune_len t = length t" "rune_val t < 0x10000" "hex_n 4 (rune_val s) @ X = hex_n 4 (rune_val t) @ Y"
      by blast+
    have "rune_val s = rune_val t \<and> X = Y" using hex_n_append[of "rune_val s" 4 "rune_val t" X Y] u(2) t(2,3) by simp
    with rune_val_inj[OF u(3) n(1) t(1) n(2)] show ?thesis by blast
  next
    case U
    with e have "quote_rune p t @ Y = CHR 0x5C # CHR ''U'' # hex_n 8 (rune_val s) @ X" by simp
    from K[OF this] have t: "rune_len t = length t" "hex_n 8 (rune_val s) @ X = hex_n 8 (rune_val t) @ Y"
      by blast+
    have "rune_val s = rune_val t \<and> X = Y"
      using hex_n_append[of "rune_val s" 8 "rune_val t" X Y] rune_val_max[OF U(2) n(1)] rune_val_max[OF t(1) n(2)] t(2) by simp
    with rune_val_inj[OF U(2) n(1) t(1) n(2)] show ?thesis by blast
  qed
qed

lemma quote_runes_inj:
  assumes "\<forall>t \<in> set ss. is_rune t" "\<forall>t \<in> set ts. is_rune t"
    "concat (map (quote_rune p) ss) @ CHR 0x22 # X = concat (map (quote_rune p) ts) @ CHR 0x22 # Y"
  shows "ss = ts \<and> X = Y"
  using assms
proof (induction ss arbitrary: ts)
  case Nil
  show ?case
  proof (cases ts)
    case Nil
    with Nil.prems show ?thesis by simp
  next
    case (Cons t us)
    with Nil.prems quote_rune_start[of t p] show ?thesis by (cases "quote_rune p t") auto
  qed
next
  case (Cons s ss)
  show ?case
  proof (cases ts)
    case Nil
    with Cons.prems quote_rune_start[of s p] show ?thesis by (cases "quote_rune p s") auto
  next
    case (Cons t us)
    with Cons.prems have "quote_rune p s @ concat (map (quote_rune p) ss) @ CHR 0x22 # X =
        quote_rune p t @ concat (map (quote_rune p) us) @ CHR 0x22 # Y" by simp
    with Cons.prems Cons quote_rune_inj[of s t p] have
      "s = t" "concat (map (quote_rune p) ss) @ CHR 0x22 # X = concat (map (quote_rune p) us) @ CHR 0x22 # Y"
      by (metis list.set_intros(1))+
    with Cons Cons.IH[of us] Cons.prems show ?thesis by simp
  qed
qed

text \<open>A quoted string ends where it ends: no quoted string is the start of another.\<close>

lemma go_quote_inj: "go_quote p s @ X = go_quote p t @ Y \<longleftrightarrow> s = t \<and> X = Y"
proof
  assume "go_quote p s @ X = go_quote p t @ Y"
  then have "go_runes s = go_runes t \<and> X = Y"
    by (intro quote_runes_inj[of _ _ p]) (simp_all add: go_quote_def go_runes_all)
  then show "s = t \<and> X = Y" by (metis go_runes_concat)
qed simp

end
