(* ===== verification/SessionPorts.thy ===== *)
theory SessionPorts
  imports Naming GoUtf8
begin

text \<open>
  Published host ports, \<open>internal/session/ports.go\<close>: their layout, the resolution of the
  configured ports to host ports, and the proxy devices that publish them. The bind probe of
  a host port is an action of the host, with any outcome.
\<close>

section \<open>The session's ports\<close>

text \<open>\<open>PortEntry\<close> and \<open>PortConfig\<close> of \<open>internal/session/types.go\<close>; \<open>pHostPort\<close> 0 is an automatic port.\<close>

record SessPort =
  pName :: string
  pContainerPort :: int
  pHostPort :: int
  pListen :: string
  pDeviceName :: string
  pUntrusted :: bool
  pSourcePath :: string

record PortConfig =
  PcPool :: int
  PcPorts :: "SessPort list"
  PcPoolUntrusted :: bool
  PcPoolSourcePath :: string
  PcPoolTrustedFallback :: int

text \<open>\<open>(pc *PortConfig).HasPorts()\<close>, with the nil pointer.\<close>

definition HasPortEntries :: "PortConfig option \<Rightarrow> bool" where
  "HasPortEntries pc = (case pc of None \<Rightarrow> False | Some c \<Rightarrow> 0 < PcPool c \<or> PcPorts c \<noteq> [])"

record PublishedPort =
  PubName :: string
  PubHostPort :: int
  PubContainerPort :: int
  PubListen :: string
  PubEnvVar :: string
  PubPool :: bool
  PubDeviceName :: string

section \<open>Layout and names\<close>

definition autoPortBase :: int where "autoPortBase = 20000"
definition neighborhoods :: int where "neighborhoods = 400"
definition neighborhoodSize :: int where "neighborhoodSize = 100"
definition slotStride :: int where "slotStride = 10"

definition hexVal :: "char \<Rightarrow> nat option" where
  "hexVal c = (if is_digit c then Some (byte c - 0x30)
     else if CHR ''a'' \<le> c \<and> c \<le> CHR ''f'' then Some (byte c - 0x61 + 10)
     else if CHR ''A'' \<le> c \<and> c \<le> CHR ''F'' then Some (byte c - 0x41 + 10) else None)"

text \<open>\<open>strconv.ParseUint(s, 16, 32)\<close>.\<close>

definition parseHex32 :: "string \<Rightarrow> nat option" where
  "parseHex32 s = (if s = [] then None
     else (case those (map hexVal s) of None \<Rightarrow> None
       | Some ds \<Rightarrow> (let v = foldl (\<lambda>a d. a * 16 + d) 0 ds in if v < 2 ^ 32 then Some v else None)))"

definition portNeighborhood :: "naming \<Rightarrow> string \<Rightarrow> string \<Rightarrow> int" where
  "portNeighborhood e ws sn =
     (case parseHex32 (take 4 (IdentityHash e ws sn)) of None \<Rightarrow> 0 | Some n \<Rightarrow> int n) mod neighborhoods"

definition AllocateHostPort :: "naming \<Rightarrow> string \<Rightarrow> string \<Rightarrow> int \<Rightarrow> int \<Rightarrow> int" where
  "AllocateHostPort e ws sn slot index =
     autoPortBase + portNeighborhood e ws sn * neighborhoodSize + (slot - 1) * slotStride + index"

definition portEnvVar :: "string \<Rightarrow> string" where
  "portEnvVar name = ''COI_PORT_'' @ to_upper (map_runes is_alnum (CHR ''_'') name)"

definition portDeviceName :: "string \<Rightarrow> string" where
  "portDeviceName name = ''coi-port-'' @ to_lower (map_runes (\<lambda>c. is_alnum c \<or> c = CHR ''-'') (CHR ''-'') name)"

definition DescribeDroppedPort :: "(nat \<Rightarrow> bool) \<Rightarrow> SessPort \<Rightarrow> string" where
  "DescribeDroppedPort printable p =
     (if pContainerPort p = 0 then ''port '' @ pName p
      else ''port '' @ go_quote printable (pName p) @ '' (container:'' @ itoa_int (pContainerPort p) @ '')'')"

section \<open>Resolution\<close>

text \<open>\<open>hostPortFree\<close>: the probe of an address and a port, in the host's current state.\<close>

type_synonym 'w probe = "string \<Rightarrow> int \<Rightarrow> 'w \<Rightarrow> bool \<times> 'w"

text \<open>The closure \<open>takeAuto\<close>: the next free port of the slot's block, and the next index.\<close>

function takeAuto :: "'w probe \<Rightarrow> (int \<Rightarrow> int) \<Rightarrow> string \<Rightarrow> int \<Rightarrow> ('w, int \<times> int) act" where
  "takeAuto probe port listen nextIdx w =
     (if nextIdx < slotStride
      then (case probe listen (port nextIdx) w of (free, w') \<Rightarrow>
        if free then (Inr (port nextIdx, nextIdx + 1), w') else takeAuto probe port listen (nextIdx + 1) w')
      else (Inl (Errorf ''no free port left in this slot's block (%d-%d)''
              [itoa_int (port 0), itoa_int (port (slotStride - 1))]), w))"
  by pat_completeness auto
termination
  by (relation "measure (\<lambda>(_, _, _, i, _). nat (slotStride - i))") auto

declare takeAuto.simps [simp del]

definition loopback :: string where
  "loopback = ''127.0.0.1''"

definition poolPort :: "nat \<Rightarrow> int \<Rightarrow> PublishedPort" where
  "poolPort i port =
     \<lparr>PubName = ''pool-'' @ itoa (i + 1), PubHostPort = port, PubContainerPort = port, PubListen = loopback,
      PubEnvVar = [], PubPool = True, PubDeviceName = portDeviceName (''pool-'' @ itoa (i + 1))\<rparr>"

text \<open>The loop over the pool; \<open>n\<close> ports are still to come after the first \<open>i\<close>.\<close>

fun takePool :: "'w probe \<Rightarrow> (int \<Rightarrow> int) \<Rightarrow> nat \<Rightarrow> nat \<Rightarrow> int \<Rightarrow> ('w, PublishedPort list \<times> int) act" where
  "takePool probe port i 0 idx = retA ([], idx)"
| "takePool probe port i (Suc n) idx =
     bindA (wrapA ''port pool'' (takeAuto probe port loopback idx)) (\<lambda>(p, idx').
       bindA (takePool probe port (i + 1) n idx') (\<lambda>(ps, idx''). retA (poolPort i p # ps, idx'')))"

text \<open>The maps \<open>seenDevice\<close> and \<open>seenEnv\<close> over the entries; the result is the first collision.\<close>

fun checkPortNames :: "(string \<times> string) list \<Rightarrow> (string \<times> string) list \<Rightarrow> SessPort list \<Rightarrow> unit result" where
  "checkPortNames dev env [] = Inr ()"
| "checkPortNames dev env (e # es) =
     (case map_of dev (portDeviceName (pName e)) of
        Some prev \<Rightarrow> Inl (Errorf ''ports.map %q collides with %q: both map to device %q'' [pName e, prev, portDeviceName (pName e)])
      | None \<Rightarrow> (case map_of env (portEnvVar (pName e)) of
          Some prev \<Rightarrow> Inl (Errorf ''ports.map %q collides with %q: both map to env var %s'' [pName e, prev, portEnvVar (pName e)])
        | None \<Rightarrow> checkPortNames ((portDeviceName (pName e), pName e) # dev) ((portEnvVar (pName e), pName e) # env) es))"

definition entryPort :: "SessPort \<Rightarrow> int \<Rightarrow> PublishedPort" where
  "entryPort e host =
     \<lparr>PubName = pName e, PubHostPort = host, PubContainerPort = pContainerPort e,
      PubListen = (if pListen e = [] then loopback else pListen e),
      PubEnvVar = portEnvVar (pName e), PubPool = False, PubDeviceName = portDeviceName (pName e)\<rparr>"

fun takeEntries :: "'w probe \<Rightarrow> (int \<Rightarrow> int) \<Rightarrow> SessPort list \<Rightarrow> int \<Rightarrow> ('w, PublishedPort list) act" where
  "takeEntries probe port [] idx = retA []"
| "takeEntries probe port (e # es) idx =
     (let listen = (if pListen e = [] then loopback else pListen e) in
      bindA (if 0 < pHostPort e
             then (\<lambda>w. case probe listen (pHostPort e) w of (free, w') \<Rightarrow>
               if free then (Inr (pHostPort e, idx), w')
               else (Inl (Errorf ''host port %d (ports.map %q) is already in use'' [itoa_int (pHostPort e), pName e]), w'))
             else wrapA (''ports.map '' @ pName e) (takeAuto probe port listen idx))
        (\<lambda>(host, idx'). bindA (takeEntries probe port es idx') (\<lambda>ps. retA (entryPort e host # ps))))"

definition autoNeeded :: "PortConfig \<Rightarrow> int" where
  "autoNeeded pc = PcPool pc + int (length (filter (\<lambda>e. pHostPort e = 0) (PcPorts pc)))"

definition ResolvePorts :: "naming \<Rightarrow> 'w probe \<Rightarrow> PortConfig option \<Rightarrow> string \<Rightarrow> string \<Rightarrow> int \<Rightarrow>
    ('w, PublishedPort list) act" where
  "ResolvePorts e probe pc ws sn slot =
     (case pc of None \<Rightarrow> retA []
      | Some c \<Rightarrow>
        if \<not> HasPortEntries pc then retA []
        else if slot < 1 \<or> slot > neighborhoodSize div slotStride
        then failA (Errorf ''[ports] requires a slot between 1 and %d (got %d)''
               [itoa_int (neighborhoodSize div slotStride), itoa_int slot])
        else if autoNeeded c > slotStride
        then failA (Errorf ''[ports] declares %d auto-allocated ports'' [itoa_int (autoNeeded c)])
        else bindA (takePool probe (AllocateHostPort e ws sn slot) 0 (nat (PcPool c)) 0) (\<lambda>(pool, idx).
             bindA (liftA (checkPortNames (rev (map (\<lambda>p. (PubDeviceName p, PubName p)) pool)) [] (PcPorts c))) (\<lambda>_.
             bindA (takeEntries probe (AllocateHostPort e ws sn slot) (PcPorts c) idx) (\<lambda>entries.
             retA (pool @ entries)))))"

section \<open>Publication\<close>

text \<open>
  The device calls of the container: \<open>AddHostPortDevice name listen hostPort containerPort\<close>,
  \<open>ListDevices\<close> and \<open>RemoveDevice\<close>. What is logged is left out.
\<close>

record 'w portctl =
  AddHostPortDevice :: "string \<Rightarrow> string \<Rightarrow> int \<Rightarrow> int \<Rightarrow> ('w, unit) act"
  ListDevices :: "('w, string list) act"
  RemoveDevice :: "string \<Rightarrow> ('w, unit) act"

definition RemoveStalePortDevices :: "'w portctl \<Rightarrow> ('w, unit) act" where
  "RemoveStalePortDevices mgr = bindA (tryA (ListDevices mgr)) (\<lambda>r. case r of
      Inl _ \<Rightarrow> retA ()
    | Inr ds \<Rightarrow> forA (\<lambda>d. warnA (RemoveDevice mgr d)) (filter (\<lambda>d. has_prefix d ''coi-port-'') ds))"

text \<open>The loop: the ports whose device was added.\<close>

fun addPorts :: "'w portctl \<Rightarrow> PublishedPort list \<Rightarrow> 'w \<Rightarrow> PublishedPort list \<times> 'w" where
  "addPorts mgr [] w = ([], w)"
| "addPorts mgr (p # ps) w =
     (case AddHostPortDevice mgr (PubDeviceName p) (PubListen p) (PubHostPort p) (PubContainerPort p) w of
        (Inl _, w') \<Rightarrow> addPorts mgr ps w'
      | (Inr _, w') \<Rightarrow> (case addPorts mgr ps w' of (qs, w'') \<Rightarrow> (p # qs, w'')))"

definition portEnv :: "PublishedPort list \<Rightarrow> string \<Rightarrow> string option" where
  "portEnv published =
     (let env = fold (\<lambda>p m. m(PubEnvVar p \<mapsto> itoa_int (PubHostPort p))) (filter (\<lambda>p. \<not> PubPool p) published) (\<lambda>_. None);
          pool = map (\<lambda>p. itoa_int (PubHostPort p)) (filter PubPool published)
      in if pool = [] then env else env(''COI_PORTS'' \<mapsto> str_join '' '' pool))"

definition PublishResolvedPorts :: "'w portctl \<Rightarrow> PublishedPort list \<Rightarrow> 'w \<Rightarrow>
    (PublishedPort list \<times> (string \<Rightarrow> string option)) \<times> 'w" where
  "PublishResolvedPorts mgr resolved w =
     (if resolved = [] then (([], \<lambda>_. None), w)
      else (case addPorts mgr resolved w of (published, w') \<Rightarrow> ((published, portEnv published), w')))"

section \<open>Lemmas\<close>

text \<open>A port was found free at its address by some probe.\<close>

definition wasFree :: "'w probe \<Rightarrow> string \<Rightarrow> int \<Rightarrow> bool" where
  "wasFree probe listen port \<longleftrightarrow> (\<exists>w w'. probe listen port w = (True, w'))"

lemma takeAuto_Inr:
  "takeAuto probe port listen idx w = (Inr (p, idx'), w') \<Longrightarrow>
     idx \<le> idx' - 1 \<and> idx' - 1 < slotStride \<and> p = port (idx' - 1) \<and> wasFree probe listen p"
proof (induction probe port listen idx w rule: takeAuto.induct)
  case (1 probe port listen idx w)
  obtain free u where pr: "probe listen (port idx) w = (free, u)" by (cases "probe listen (port idx) w")
  show ?case
  proof (cases "idx < slotStride \<and> \<not> free")
    case True
    with "1.prems" pr have "takeAuto probe port listen (idx + 1) u = (Inr (p, idx'), w')"
      by (subst (asm) takeAuto.simps) simp
    with "1.IH"[OF _ pr[symmetric]] True pr show ?thesis by auto
  next
    case False
    with "1.prems" pr have "idx < slotStride" "p = port idx" "idx' = idx + 1" "free"
      by (subst (asm) takeAuto.simps; auto split: if_splits)+
    with pr show ?thesis by (auto simp: wasFree_def)
  qed
qed

lemma takePool_Inr:
  "takePool probe port i n idx w = (Inr (ps, idx'), w') \<Longrightarrow>
     \<exists>js. length js = n \<and> sorted_wrt (<) js \<and> (\<forall>j \<in> set js. idx \<le> j \<and> j < idx' \<and> j < slotStride) \<and> idx \<le> idx' \<and>
       ps = map2 (\<lambda>k j. poolPort k (port j)) [i..<i + n] js \<and> (\<forall>j \<in> set js. wasFree probe loopback (port j))"
proof (induction n arbitrary: i idx w ps)
  case 0
  then show ?case by (intro exI[of _ "[]"]) simp
next
  case (Suc n)
  from Suc.prems obtain p k u qs where 1: "takeAuto probe port loopback idx w = (Inr (p, k), u)"
    "takePool probe port (Suc i) n k u = (Inr (qs, idx'), w')" "ps = poolPort i p # qs"
    by (auto simp: act_Inr split: prod.splits)
  from takeAuto_Inr[OF 1(1)] have t: "idx \<le> k - 1" "k - 1 < slotStride" "p = port (k - 1)" "wasFree probe loopback p" by blast+
  from Suc.IH[OF 1(2)] obtain js where j: "length js = n" "sorted_wrt (<) js" "\<forall>j \<in> set js. k \<le> j \<and> j < idx' \<and> j < slotStride" "k \<le> idx'"
    "qs = map2 (\<lambda>k j. poolPort k (port j)) [Suc i..<Suc i + n] js" "\<forall>j \<in> set js. wasFree probe loopback (port j)" by auto
  have u: "[i..<i + Suc n] = i # [Suc i..<Suc i + n]" by (simp add: upt_conv_Cons)
  have "ps = map2 (\<lambda>k j. poolPort k (port j)) [i..<i + Suc n] ((k - 1) # js)"
    unfolding u using t(3) j(5) 1(3) by (simp del: upt_Suc)
  with t j 1(3) show ?case by (intro exI[of _ "(k - 1) # js"]) (auto simp del: upt_Suc)
qed

text \<open>The host ports of the entries that were allocated automatically.\<close>

definition autoHosts :: "SessPort list \<Rightarrow> PublishedPort list \<Rightarrow> int list" where
  "autoHosts es qs = map (\<lambda>(e, q). PubHostPort q) (filter (\<lambda>(e, q). pHostPort e \<le> 0) (zip es qs))"

lemma autoHosts_Cons: "autoHosts (e # es) (q # qs) = (if pHostPort e \<le> 0 then [PubHostPort q] else []) @ autoHosts es qs"
  by (simp add: autoHosts_def)

text \<open>An entry's publication: its own names and container port, and its pin when it has one.\<close>

definition publishes :: "'w probe \<Rightarrow> SessPort \<Rightarrow> PublishedPort \<Rightarrow> bool" where
  "publishes probe e q \<longleftrightarrow> q = entryPort e (PubHostPort q) \<and> (0 < pHostPort e \<longrightarrow> PubHostPort q = pHostPort e) \<and>
     wasFree probe (PubListen q) (PubHostPort q)"

lemma takeEntries_Inr:
  "takeEntries probe port es idx w = (Inr qs, w') \<Longrightarrow>
     list_all2 (publishes probe) es qs \<and>
     (\<exists>js. sorted_wrt (<) js \<and> (\<forall>j \<in> set js. idx \<le> j \<and> j < slotStride) \<and> autoHosts es qs = map port js)"
proof (induction es arbitrary: idx w qs)
  case Nil
  then show ?case by (auto simp: autoHosts_def intro: exI[of _ "[]"])
next
  case (Cons e es)
  define listen where "listen = (if pListen e = [] then loopback else pListen e)"
  from Cons.prems obtain host k u rs where
    h: "(if 0 < pHostPort e
        then (\<lambda>w. case probe listen (pHostPort e) w of (free, w') \<Rightarrow>
               if free then (Inr (pHostPort e, idx), w')
               else (Inl (Errorf ''host port %d (ports.map %q) is already in use'' [itoa_int (pHostPort e), pName e]), w'))
        else wrapA (''ports.map '' @ pName e) (takeAuto probe port listen idx)) w = (Inr (host, k), u)" and
    r: "takeEntries probe port es k u = (Inr rs, w')" "qs = entryPort e host # rs"
    unfolding takeEntries.simps Let_def listen_def[symmetric] by (auto simp: bindA_Inr split: prod.splits)
  from Cons.IH[OF r(1)] obtain js where IH: "list_all2 (publishes probe) es rs" "sorted_wrt (<) js"
    "\<forall>j \<in> set js. k \<le> j \<and> j < slotStride" "autoHosts es rs = map port js" by blast
  have l: "PubListen (entryPort e host) = listen" "PubHostPort (entryPort e host) = host" by (simp_all add: entryPort_def listen_def)
  show ?case
  proof (cases "0 < pHostPort e")
    case True
    with h have x: "host = pHostPort e" "k = idx" "wasFree probe listen host"
      by (auto simp: wasFree_def split: prod.splits if_splits)
    with True l have "publishes probe e (entryPort e host)" by (simp add: publishes_def)
    moreover have "autoHosts (e # es) qs = map port js" using True r(2) IH(4) by (simp add: autoHosts_Cons)
    ultimately show ?thesis using IH(1-3) r(2) x(2) by auto
  next
    case False
    with h have "takeAuto probe port listen idx w = (Inr (host, k), u)" by (simp add: wrapA_Inr)
    from takeAuto_Inr[OF this] have x: "idx \<le> k - 1" "k - 1 < slotStride" "host = port (k - 1)" "wasFree probe listen host" by blast+
    with False l have p: "publishes probe e (entryPort e host)" by (simp add: publishes_def)
    have a: "autoHosts (e # es) qs = map port ((k - 1) # js)" using False r(2) IH(4) l x(3) by (simp add: autoHosts_Cons)
    have s: "sorted_wrt (<) ((k - 1) # js)" "\<forall>j \<in> set ((k - 1) # js). idx \<le> j \<and> j < slotStride" using IH(2,3) x(1,2) by auto
    from p a s IH(1) r(2) show ?thesis by (metis list_all2_Cons)
  qed
qed

lemma checkPortNames_Inr:
  "checkPortNames dev env es = Inr () \<longleftrightarrow>
     distinct (map (portDeviceName \<circ> pName) es) \<and> (portDeviceName \<circ> pName) ` set es \<inter> fst ` set dev = {} \<and>
     distinct (map (portEnvVar \<circ> pName) es) \<and> (portEnvVar \<circ> pName) ` set es \<inter> fst ` set env = {}"
proof (induction es arbitrary: dev env)
  case Nil
  then show ?case by simp
next
  case (Cons e es)
  have n: "map_of xs k = None \<longleftrightarrow> k \<notin> fst ` set xs" for xs :: "(string \<times> string) list" and k
    by (rule map_of_eq_None_iff)
  have s: "map_of xs k = Some v \<Longrightarrow> k \<in> fst ` set xs" for xs :: "(string \<times> string) list" and k v
    using map_of_eq_None_iff[of xs k] by auto
  show ?case by (auto simp: Cons.IH n dest!: s split: option.split)
qed

text \<open>The names of the pool's devices.\<close>

lemma go_runes_ascii: "list_all (\<lambda>c. byte c < 0x80) s \<Longrightarrow> go_runes s = map (\<lambda>c. [c]) s"
proof (induction s)
  case Nil
  then show ?case by (simp add: go_runes.simps)
next
  case (Cons c s)
  then have "rune_width (c # s) = 1" by (simp add: rune_width_def rune_len_def)
  with Cons show ?case by (subst go_runes.simps) simp
qed

lemma digit_facts: "is_digit c \<Longrightarrow> byte c < 0x80" "is_digit c \<Longrightarrow> lower_char c = c" "is_digit c \<Longrightarrow> is_alnum c"
  by (simp_all add: is_digit_def byte_def lower_char_def is_upper_def is_alnum_def)

lemma portDeviceName_pool: "portDeviceName (''pool-'' @ itoa n) = ''coi-port-pool-'' @ itoa n"
proof -
  have d: "\<forall>c \<in> set (itoa n). is_digit c" using itoa_digits by (simp add: list_all_iff)
  then have r: "go_runes (''pool-'' @ itoa n) = map (\<lambda>c. [c]) (''pool-'' @ itoa n)"
    by (intro go_runes_ascii) (auto simp: list_all_iff byte_def digit_facts(1)[unfolded byte_def])
  have "map_runes (\<lambda>c. is_alnum c \<or> c = CHR ''-'') (CHR ''-'') (''pool-'' @ itoa n) = ''pool-'' @ itoa n"
    unfolding map_runes_def r using d
    by (auto simp: digit_facts(3) byte_def digit_facts(1)[unfolded byte_def] is_lower_def is_alnum_def intro!: map_idI)
  moreover have "to_lower (''pool-'' @ itoa n) = ''pool-'' @ itoa n"
  proof -
    have "map lower_char (itoa n) = itoa n" using d by (intro map_idI) (simp add: digit_facts(2))
    moreover have "map lower_char ''pool-'' = ''pool-''" by (simp add: lower_char_def is_upper_def)
    ultimately show ?thesis unfolding to_lower_def map_append by argo
  qed
  ultimately show ?thesis by (simp add: portDeviceName_def)
qed

lemma resolved_shape:
  assumes "ResolvePorts e probe (Some c) ws sn slot w = (Inr ps, w')" "HasPortEntries (Some c)"
  defines "pool \<equiv> take (nat (PcPool c)) ps" and "entries \<equiv> drop (nat (PcPool c)) ps"
  obtains js ks where "length js = nat (PcPool c)"
    "pool = map2 (\<lambda>k j. poolPort k (AllocateHostPort e ws sn slot j)) [0..<nat (PcPool c)] js"
    "autoHosts (PcPorts c) entries = map (AllocateHostPort e ws sn slot) ks"
    "sorted_wrt (<) (js @ ks)" "\<forall>j \<in> set (js @ ks). 0 \<le> j \<and> j < slotStride"
    "list_all2 (publishes probe) (PcPorts c) entries"
    "\<forall>j \<in> set js. wasFree probe loopback (AllocateHostPort e ws sn slot j)"
    "checkPortNames (rev (map (\<lambda>p. (PubDeviceName p, PubName p)) pool)) [] (PcPorts c) = Inr ()"
    "1 \<le> slot" "slot \<le> neighborhoodSize div slotStride"
proof -
  let ?n = "nat (PcPool c)" let ?port = "AllocateHostPort e ws sn slot"
  have s: "1 \<le> slot" "slot \<le> neighborhoodSize div slotStride"
    using assms(1,2) by (auto simp: ResolvePorts_def split: if_splits)
  have "\<not> slotStride < autoNeeded c" using assms(1,2) s by (auto simp: ResolvePorts_def split: if_splits)
  with assms(1,2) s have "bindA (takePool probe ?port 0 ?n 0) (\<lambda>(pool, idx).
      bindA (liftA (checkPortNames (rev (map (\<lambda>p. (PubDeviceName p, PubName p)) pool)) [] (PcPorts c))) (\<lambda>_.
      bindA (takeEntries probe ?port (PcPorts c) idx) (\<lambda>entries. retA (pool @ entries)))) w = (Inr ps, w')"
    by (simp add: ResolvePorts_def)
  then obtain qs idx u es where
    q: "takePool probe ?port 0 ?n 0 w = (Inr (qs, idx), u)"
    and cn: "checkPortNames (rev (map (\<lambda>p. (PubDeviceName p, PubName p)) qs)) [] (PcPorts c) = Inr ()"
    and es: "takeEntries probe ?port (PcPorts c) idx u = (Inr es, w')" and ps: "ps = qs @ es"
    unfolding bindA_Inr by (auto split: prod.splits simp: bindA_Inr)
  from takePool_Inr[OF q] obtain js where j: "length js = ?n" "sorted_wrt (<) js"
    "\<forall>j \<in> set js. 0 \<le> j \<and> j < idx \<and> j < slotStride" "qs = map2 (\<lambda>k j. poolPort k (?port j)) [0..<?n] js"
    "\<forall>j \<in> set js. wasFree probe loopback (?port j)" "0 \<le> idx" by auto
  from takeEntries_Inr[OF es] obtain ks where k: "list_all2 (publishes probe) (PcPorts c) es" "sorted_wrt (<) ks"
    "\<forall>j \<in> set ks. idx \<le> j \<and> j < slotStride" "autoHosts (PcPorts c) es = map ?port ks" by blast
  have len: "length qs = ?n" using j(1,4) by simp
  then have pe: "pool = qs" "entries = es" using ps by (simp_all add: pool_def entries_def)
  have "sorted_wrt (<) (js @ ks)" using j(2,3) k(2,3) by (fastforce simp: sorted_wrt_append)
  moreover have "\<forall>j \<in> set (js @ ks). 0 \<le> j \<and> j < slotStride" using j(3,6) k(3) by auto
  ultimately show thesis using that[of js ks] j(1,4,5) k(1,4) cn s unfolding pe by blast
qed

lemma publishes_names: "publishes probe e q \<Longrightarrow> PubDeviceName q = portDeviceName (pName e) \<and> PubEnvVar q = portEnvVar (pName e)"
  unfolding publishes_def by (elim conjE, erule ssubst) (simp add: entryPort_def)

lemma list_all2_device: "list_all2 (publishes probe) es qs \<Longrightarrow>
    map PubDeviceName qs = map (portDeviceName \<circ> pName) es \<and> map PubEnvVar qs = map (portEnvVar \<circ> pName) es"
  by (induction rule: list_all2_induct) (simp_all add: publishes_names)

lemma poolPort_device: "PubDeviceName (poolPort k x) = ''coi-port-pool-'' @ itoa (k + 1)"
  by (simp only: poolPort_def PublishedPort.select_convs portDeviceName_pool)

lemma pool_devices: "length js = n \<Longrightarrow>
    map PubDeviceName (map2 (\<lambda>k j. poolPort k (f j)) [i..<i + n] js) = map (\<lambda>k. ''coi-port-pool-'' @ itoa (k + 1)) [i..<i + n]"
  by (rule nth_equalityI) (simp_all add: poolPort_device)

text \<open>When every probe finds its port free, resolution succeeds within the documented limits.\<close>

definition allFree :: "'w probe" where
  "allFree listen port w = (True, w)"

lemma takeAuto_free: "idx < slotStride \<Longrightarrow> takeAuto allFree port listen idx w = (Inr (port idx, idx + 1), w)"
  by (subst takeAuto.simps) (simp add: allFree_def)

lemma takePool_free: "idx + int n \<le> slotStride \<Longrightarrow> takePool allFree port i n idx w =
    (Inr (map (\<lambda>k. poolPort (i + k) (port (idx + int k))) [0..<n], idx + int n), w)"
proof (induction n arbitrary: i idx)
  case 0
  then show ?case by simp
next
  case (Suc n)
  have u: "[0..<Suc n] = 0 # map Suc [0..<n]" by (simp add: upt_conv_Cons map_Suc_upt del: upt_Suc)
  from Suc.prems have "takePool allFree port (i + 1) n (idx + 1) w =
    (Inr (map (\<lambda>k. poolPort (i + 1 + k) (port (idx + 1 + int k))) [0..<n], idx + 1 + int n), w)"
    by (intro Suc.IH) simp
  with Suc.prems show ?case unfolding u
    by (simp add: bindA_def wrapA_def takeAuto_free wrapE_def ac_simps comp_def del: upt_Suc)
qed

lemma takeEntries_free: "idx + int (length (filter (\<lambda>e. pHostPort e \<le> 0) es)) \<le> slotStride \<Longrightarrow>
    \<exists>qs. takeEntries allFree port es idx w = (Inr qs, w)"
proof (induction es arbitrary: idx)
  case Nil
  then show ?case by simp
next
  case (Cons e es)
  show ?case
  proof (cases "0 < pHostPort e")
    case True
    with Cons.prems Cons.IH[of idx] show ?thesis by (auto simp: bindA_def allFree_def)
  next
    case False
    with Cons.prems Cons.IH[of "idx + 1"] show ?thesis
      by (auto simp: bindA_def wrapA_def wrapE_def takeAuto_free add.commute add.left_commute)
  qed
qed

lemma resolve_steps:
  assumes "HasPortEntries (Some c)" "1 \<le> slot" "slot \<le> neighborhoodSize div slotStride" "autoNeeded c \<le> slotStride"
    "takePool probe (AllocateHostPort e ws sn slot) 0 (nat (PcPool c)) 0 w = (Inr (qs, idx), w1)"
    "checkPortNames (rev (map (\<lambda>p. (PubDeviceName p, PubName p)) qs)) [] (PcPorts c) = Inr ()"
    "takeEntries probe (AllocateHostPort e ws sn slot) (PcPorts c) idx w1 = (Inr es, w2)"
  shows "ResolvePorts e probe (Some c) ws sn slot w = (Inr (qs @ es), w2)"
  using assms by (simp add: ResolvePorts_def bindA_def)

lemma all_free_resolves:
  assumes "1 \<le> slot" "slot \<le> neighborhoodSize div slotStride" "0 \<le> PcPool c" "autoNeeded c \<le> slotStride"
    "\<forall>p \<in> set (PcPorts c). 0 \<le> pHostPort p"
    "checkPortNames (rev (map (\<lambda>k. (''coi-port-pool-'' @ itoa (k + 1), ''pool-'' @ itoa (k + 1))) [0..<nat (PcPool c)])) [] (PcPorts c) = Inr ()"
  shows "\<exists>ps. ResolvePorts e allFree (Some c) ws sn slot w = (Inr ps, w)"
proof (cases "HasPortEntries (Some c)")
  case False
  then show ?thesis by (simp add: ResolvePorts_def)
next
  case True
  let ?n = "nat (PcPool c)" let ?port = "AllocateHostPort e ws sn slot"
  have f: "filter (\<lambda>e. pHostPort e \<le> 0) (PcPorts c) = filter (\<lambda>e. pHostPort e = 0) (PcPorts c)"
    using assms(5) by (intro filter_cong) force+
  have n: "0 + int ?n \<le> slotStride" "int ?n + int (length (filter (\<lambda>e. pHostPort e \<le> 0) (PcPorts c))) \<le> slotStride"
    using assms(3,4) by (simp_all add: autoNeeded_def f)
  obtain es where es: "takeEntries allFree ?port (PcPorts c) (int ?n) w = (Inr es, w)" using takeEntries_free[OF n(2), of ?port w] by (elim exE)
  have dev: "map (\<lambda>p. (PubDeviceName p, PubName p)) (map (\<lambda>k. poolPort (0 + k) (?port (0 + int k))) [0..<?n])
      = map (\<lambda>k. (''coi-port-pool-'' @ itoa (k + 1), ''pool-'' @ itoa (k + 1))) [0..<?n]"
    by (simp add: poolPort_device) (simp add: poolPort_def)
  define qs where "qs = map (\<lambda>k. poolPort (0 + k) (?port (0 + int k))) [0..<?n]"
  have tp: "takePool allFree ?port 0 ?n 0 w = (Inr (qs, int ?n), w)"
    using takePool_free[OF n(1), of ?port 0 w] by (simp only: qs_def add_0)
  have cn: "checkPortNames (rev (map (\<lambda>p. (PubDeviceName p, PubName p)) qs)) [] (PcPorts c) = Inr ()"
    unfolding qs_def dev by (rule assms(6))
  from resolve_steps[OF True assms(1,2,4) tp cn es] show ?thesis by blast
qed

text \<open>C19. Resolving the ports gives every pool port the same number on both sides, every entry
  its own names, container port and pin, and allocates the automatic ports in ascending order
  within the slot's block; every port was found free, and no two device names and no two
  environment variables coincide.\<close>

theorem resolve_ports_layout:
  assumes "ResolvePorts e probe (Some c) ws sn slot w = (Inr ps, w')" "HasPortEntries (Some c)"
  defines "pool \<equiv> take (nat (PcPool c)) ps" and "entries \<equiv> drop (nat (PcPool c)) ps"
  defines "autos \<equiv> map PubHostPort pool @ autoHosts (PcPorts c) entries"
  shows "length pool = nat (PcPool c) \<and>
    (\<forall>p \<in> set pool. PubPool p \<and> PubContainerPort p = PubHostPort p \<and> PubListen p = loopback) \<and>
    list_all2 (publishes probe) (PcPorts c) entries \<and>
    sorted_wrt (<) autos \<and>
    (\<forall>h \<in> set autos. AllocateHostPort e ws sn slot 0 \<le> h \<and> h < AllocateHostPort e ws sn slot 0 + slotStride) \<and>
    (\<forall>p \<in> set ps. wasFree probe (PubListen p) (PubHostPort p)) \<and>
    distinct (map PubDeviceName ps) \<and> distinct (map PubEnvVar entries)"
proof -
  let ?n = "nat (PcPool c)" let ?port = "AllocateHostPort e ws sn slot"
  obtain js ks where j: "length js = ?n" "pool = map2 (\<lambda>k j. poolPort k (?port j)) [0..<?n] js"
    "autoHosts (PcPorts c) entries = map ?port ks" "sorted_wrt (<) (js @ ks)" "\<forall>j \<in> set (js @ ks). 0 \<le> j \<and> j < slotStride"
    "list_all2 (publishes probe) (PcPorts c) entries" "\<forall>j \<in> set js. wasFree probe loopback (?port j)"
    "checkPortNames (rev (map (\<lambda>p. (PubDeviceName p, PubName p)) pool)) [] (PcPorts c) = Inr ()"
    by (rule resolved_shape[OF assms(1,2), folded pool_def entries_def]) (rule that)
  have len: "length pool = ?n" using j(1,2) by simp
  have ps: "ps = pool @ entries" by (simp add: pool_def entries_def)
  have pp: "\<exists>k j. j \<in> set js \<and> p = poolPort k (?port j)" if "p \<in> set pool" for p
    using that j(2) by (auto dest: set_zip_rightD)
  have hp: "map PubHostPort pool = map ?port js"
    unfolding j(2) by (rule nth_equalityI) (simp_all add: j(1) poolPort_def)
  have autos: "autos = map ?port (js @ ks)" by (simp add: autos_def hp j(3))
  have mono: "?port i < ?port j \<longleftrightarrow> i < j" "?port i = ?port 0 + i" for i j by (simp_all add: AllocateHostPort_def)
  have "sorted_wrt (<) autos" unfolding autos sorted_wrt_map mono(1) by (rule j(4))
  moreover have "\<forall>h \<in> set autos. ?port 0 \<le> h \<and> h < ?port 0 + slotStride"
  proof
    fix h assume "h \<in> set autos"
    then obtain i where i: "i \<in> set (js @ ks)" "h = ?port i" unfolding autos by auto
    then show "?port 0 \<le> h \<and> h < ?port 0 + slotStride" using j(5) mono(2)[of i] by auto
  qed
  moreover have "\<forall>p \<in> set pool. PubPool p \<and> PubContainerPort p = PubHostPort p \<and> PubListen p = loopback"
    using pp by (fastforce simp: poolPort_def)
  moreover have "\<forall>p \<in> set pool. wasFree probe (PubListen p) (PubHostPort p)"
    using pp j(7) by (fastforce simp: poolPort_def)
  moreover have "\<forall>p \<in> set entries. wasFree probe (PubListen p) (PubHostPort p)"
    using j(6) by (auto simp: list_all2_conv_all_nth publishes_def in_set_conv_nth)
  moreover have "distinct (map PubDeviceName pool)"
    using pool_devices[OF j(1), of ?port 0] unfolding j(2) by (simp add: distinct_map inj_on_def itoa_inj)
  moreover have "distinct (map PubDeviceName entries) \<and> distinct (map PubEnvVar entries) \<and>
      set (map PubDeviceName entries) \<inter> set (map PubDeviceName pool) = {}"
    using j(8) list_all2_device[OF j(6)] unfolding checkPortNames_Inr by (simp add: image_image)
  ultimately show ?thesis using len j(6) by (auto simp: ps)
qed

definition demoPorts :: PortConfig where
  "demoPorts = \<lparr>PcPool = 1, PcPorts = [\<lparr>pName = ''web'', pContainerPort = 3000, pHostPort = 0, pListen = [],
      pDeviceName = [], pUntrusted = False, pSourcePath = []\<rparr>],
    PcPoolUntrusted = False, PcPoolSourcePath = [], PcPoolTrustedFallback = 0\<rparr>"

lemma resolve_ports_layout_witness:
  "\<exists>ps. ResolvePorts demoNaming allFree (Some demoPorts) ''/w'' [] 2 () = (Inr ps, ()) \<and> distinct (map PubDeviceName ps)"
proof -
  have "checkPortNames [(''coi-port-pool-1'', ''pool-1'')] [] (PcPorts demoPorts) = Inr ()" by code_simp
  then obtain ps where r: "ResolvePorts demoNaming allFree (Some demoPorts) ''/w'' [] 2 () = (Inr ps, ())"
    using all_free_resolves[of 2 demoPorts demoNaming "''/w''" "[]" "()"]
    by (auto simp: demoPorts_def neighborhoodSize_def slotStride_def autoNeeded_def itoa.simps)
  have "HasPortEntries (Some demoPorts)" by (simp add: HasPortEntries_def demoPorts_def)
  from resolve_ports_layout[OF r this] r show ?thesis by simp
qed

text \<open>C20. Slots 1 to 10 of one workspace and different neighbourhoods never share an automatic port,
  and all of them lie between 20000 and 59999.\<close>

theorem port_blocks_disjoint:
  assumes "1 \<le> s" "s \<le> neighborhoodSize div slotStride" "1 \<le> s'" "s' \<le> neighborhoodSize div slotStride"
    "0 \<le> i" "i < slotStride" "0 \<le> i'" "i' < slotStride"
  shows "autoPortBase \<le> AllocateHostPort e ws sn s i \<and> AllocateHostPort e ws sn s i < 60000 \<and>
    (AllocateHostPort e ws sn s i = AllocateHostPort e ws' sn' s' i' \<longleftrightarrow>
       portNeighborhood e ws sn = portNeighborhood e ws' sn' \<and> s = s' \<and> i = i')"
proof -
  have n: "0 \<le> portNeighborhood e ws sn \<and> portNeighborhood e ws sn < 400" for ws sn
    by (auto simp: portNeighborhood_def neighborhoods_def)
  let ?a = "portNeighborhood e ws sn" let ?b = "portNeighborhood e ws' sn'"
  have d: "x * 10 + u = y * 10 + v \<longleftrightarrow> x = y \<and> u = v" if "0 \<le> u" "u < 10" "0 \<le> v" "v < 10" for x y u v :: int
    using that by (intro iffI; cases x y rule: linorder_cases) simp_all
  have b: "0 \<le> i" "i < 10" "0 \<le> i'" "i' < 10" "0 \<le> s - 1" "s - 1 < 10" "0 \<le> s' - 1" "s' - 1 < 10"
    using assms by (simp_all add: neighborhoodSize_def slotStride_def)
  have "(?a * 10 + (s - 1)) * 10 + i = (?b * 10 + (s' - 1)) * 10 + i' \<longleftrightarrow> (?a = ?b \<and> s - 1 = s' - 1) \<and> i = i'"
    unfolding d[OF b(1-4)] d[OF b(5-8)] by (rule refl)
  then show ?thesis using assms n[of ws sn]
    unfolding AllocateHostPort_def autoPortBase_def neighborhoodSize_def slotStride_def by auto
qed

lemma port_blocks_disjoint_witness:
  "AllocateHostPort demoNaming ''/w'' [] 1 9 \<noteq> AllocateHostPort demoNaming ''/w'' [] 2 0"
  using port_blocks_disjoint[of 1 2 9 0 demoNaming "''/w''" "[]" "''/w''" "[]"]
  by (simp add: neighborhoodSize_def slotStride_def)

text \<open>
  A pin inside the slot's own block is not kept out of the automatic allocation: the probe
  listens and closes again, so that the same host port is given out twice.
\<close>

lemma pin_allocated_twice:
  assumes "1 \<le> slot" "slot \<le> neighborhoodSize div slotStride"
    "e1 = \<lparr>pName = ''web'', pContainerPort = 3000, pHostPort = AllocateHostPort e ws sn slot 0, pListen = [],
      pDeviceName = [], pUntrusted = False, pSourcePath = []\<rparr>"
    "c = \<lparr>PcPool = 1, PcPorts = [e1], PcPoolUntrusted = False, PcPoolSourcePath = [], PcPoolTrustedFallback = 0\<rparr>"
  shows "\<exists>p q. ResolvePorts e allFree (Some c) ws sn slot w = (Inr [p, q], w) \<and>
    PubHostPort p = PubHostPort q \<and> PubListen p = PubListen q"
proof -
  let ?port = "AllocateHostPort e ws sn slot"
  have "0 \<le> portNeighborhood e ws sn" by (simp add: portNeighborhood_def neighborhoods_def)
  then have pos: "0 < ?port 0" using assms(1)
    by (simp add: AllocateHostPort_def autoPortBase_def neighborhoodSize_def slotStride_def)
  have cn: "checkPortNames [(''coi-port-pool-1'', ''pool-1'')] [] [e1] = Inr ()"
    unfolding assms(3) checkPortNames.simps SessPort.select_convs by code_simp
  have c: "PcPorts c = [e1]" "nat (PcPool c) = 1" "HasPortEntries (Some c)" "autoNeeded c \<le> slotStride"
    using pos by (simp_all add: assms(3,4) HasPortEntries_def autoNeeded_def slotStride_def)
  have pool: "takePool allFree ?port 0 (nat (PcPool c)) 0 w = (Inr ([poolPort 0 (?port 0)], 1), w)"
    using takePool_free[of 0 1 ?port 0 w] unfolding c(2) by (simp add: slotStride_def)
  have names: "rev (map (\<lambda>p. (PubDeviceName p, PubName p)) [poolPort 0 (?port 0)]) = [(''coi-port-pool-1'', ''pool-1'')]"
    by (simp add: poolPort_device) (simp add: poolPort_def itoa.simps)
  have es: "takeEntries allFree ?port (PcPorts c) 1 w = (Inr [entryPort e1 (?port 0)], w)"
    using pos unfolding c(1) by (simp add: assms(3) bindA_def allFree_def)
  from resolve_steps[OF c(3) assms(1,2) c(4) pool cn[folded names c(1)] es]
  have "ResolvePorts e allFree (Some c) ws sn slot w = (Inr [poolPort 0 (?port 0), entryPort e1 (?port 0)], w)" by simp
  then show ?thesis by (intro exI conjI, assumption) (simp_all add: poolPort_def entryPort_def assms(3))
qed

end
