(* ===== verification/Forwarding.thy ===== *)
theory Forwarding
  imports SessionPorts ConfigInherit
begin

text \<open>
  What a session forwards from the host into its container: the run-time entries
  (\<open>internal/session/types.go\<close>), how they are made from the configuration
  (\<open>internal/cli/mount_parser.go\<close>) and the check of nested mounts
  (\<open>internal/session/mount_validator.go\<close>).
\<close>

section \<open>Entries\<close>

record SessMount =
  mHostPath :: string
  mContainerPath :: string
  mDeviceName :: string
  mUseShift :: bool
  mReadonly :: bool
  mUntrusted :: bool
  mSourcePath :: string

record SessSocket =
  sHostPath :: string
  sContainerPath :: string
  sEnvVar :: string
  sDeviceName :: string
  sUntrusted :: bool
  sSourcePath :: string

record SessCredential =
  cHostPath :: string
  cContainerPath :: string
  cMode :: string
  cBundleName :: string
  cUntrusted :: bool
  cSourcePath :: string

section \<open>From the configuration\<close>

definition ParsePortConfig :: "Config \<Rightarrow> PortConfig" where
  "ParsePortConfig cfg = (let p = Config.Ports cfg in
     \<lparr>PcPool = Pool p,
      PcPorts = map (\<lambda>e. \<lparr>pName = PName e, pContainerPort = PContainer e, pHostPort = PHost e, pListen = PListen e,
                         pDeviceName = [], pUntrusted = PUntrusted e, pSourcePath = PSource e\<rparr>) (PortMap p),
      PcPoolUntrusted = PoolUntrusted p, PcPoolSourcePath = PoolSourcePath p,
      PcPoolTrustedFallback = PoolTrustedFallback p\<rparr>)"

fun parseSockets :: "osenv \<Rightarrow> nat \<Rightarrow> SocketEntry list \<Rightarrow> SessSocket list result" where
  "parseSockets os i [] = Inr []"
| "parseSockets os i (s # ss) =
     (case path_abs os (ExpandPath os (SHost s)) of
        None \<Rightarrow> Inl (Wrapf (''invalid socket host path '' @ SHost s) (ExtErr ''getwd''))
      | Some absHost \<Rightarrow>
        if \<not> is_abs (SContainer s) then Inl (Errorf ''socket container path must be absolute: %s'' [SContainer s])
        else bindE (parseSockets os (i + 1) ss) (\<lambda>rest. Inr
          (\<lparr>sHostPath = absHost, sContainerPath = path_clean (SContainer s), sEnvVar = SEnv s,
            sDeviceName = ''socket-'' @ itoa i, sUntrusted = SUntrusted s, sSourcePath = SSource s\<rparr> # rest)))"

definition ParseSocketConfig :: "osenv \<Rightarrow> Config \<Rightarrow> SessSocket list result" where
  "ParseSocketConfig os cfg = parseSockets os 0 (Sockets cfg)"

fun parseMounts :: "osenv \<Rightarrow> nat \<Rightarrow> MountEntry list \<Rightarrow> SessMount list result" where
  "parseMounts os i [] = Inr []"
| "parseMounts os i (m # ms) =
     (case path_abs os (ExpandPath os (MHost m)) of
        None \<Rightarrow> Inl (Wrapf (''invalid config mount host path '' @ MHost m) (ExtErr ''getwd''))
      | Some absHost \<Rightarrow>
        if \<not> is_abs (MContainer m) then Inl (Errorf ''config mount container path must be absolute: %s'' [MContainer m])
        else bindE (parseMounts os (i + 1) ms) (\<lambda>rest. Inr
          (\<lparr>mHostPath = absHost, mContainerPath = path_clean (MContainer m), mDeviceName = ''mount-'' @ itoa i,
            mUseShift = False, mReadonly = MReadonly m, mUntrusted = MUntrusted m, mSourcePath = MSource m\<rparr> # rest)))"

definition ParseMountConfig :: "osenv \<Rightarrow> Config \<Rightarrow> SessMount list result" where
  "ParseMountConfig os cfg = parseMounts os 0 (Mounts cfg)"

text \<open>
  A bundle of the embedded catalog (\<open>internal/tool/credentials\<close>); the catalog itself, decoded
  from TOML, is a parameter.
\<close>

record Bundle =
  BuConfigDir :: string
  BuFiles :: "string list"
  BuStateFile :: string
  BuMode :: string

definition bundleEntry :: "osenv \<Rightarrow> string \<Rightarrow> Bundle \<Rightarrow> string \<Rightarrow> string \<Rightarrow> SessCredential" where
  "bundleEntry os name b host target =
     \<lparr>cHostPath = ExpandPath os host, cContainerPath = target, cMode = BuMode b, cBundleName = name,
      cUntrusted = False, cSourcePath = []\<rparr>"

definition parseCredential :: "osenv \<Rightarrow> (string \<Rightarrow> Bundle option) \<Rightarrow> CredentialEntry \<Rightarrow> SessCredential list result" where
  "parseCredential os catalog e =
     (if CBundle e \<noteq> [] then
        (case catalog (CBundle e) of
           None \<Rightarrow> Inl (Errorf ''credentials[%d]: unknown bundle %q'' [CBundle e])
         | Some b \<Rightarrow> Inr
             (map (\<lambda>f. bundleEntry os (CBundle e) b (path_join [''~'', BuConfigDir b, f]) (path_join [BuConfigDir b, f])) (BuFiles b) @
              (if BuStateFile b = [] then []
               else [bundleEntry os (CBundle e) b (path_join [''~'', BuStateFile b]) (BuStateFile b)])))
      else
        (case path_abs os (ExpandPath os (CHost e)) of
           None \<Rightarrow> Inl (Wrapf (''invalid credentials[%d] host path '' @ CHost e) (ExtErr ''getwd''))
         | Some absHost \<Rightarrow>
             if \<not> is_abs (CContainer e) then Inl (Errorf ''credentials[%d] container path must be absolute: %s'' [CContainer e])
             else Inr [\<lparr>cHostPath = absHost, cContainerPath = path_clean (CContainer e), cMode = CMode e,
                        cBundleName = [], cUntrusted = CUntrusted e, cSourcePath = CSource e\<rparr>]))"

definition ParseCredentialConfig :: "osenv \<Rightarrow> (string \<Rightarrow> Bundle option) \<Rightarrow> Config \<Rightarrow> SessCredential list result" where
  "ParseCredentialConfig os catalog cfg = bindE (mapE (parseCredential os catalog) (Credentials cfg)) (\<lambda>es. Inr (concat es))"

section \<open>Nested mounts\<close>

definition isNestedPath :: "string \<Rightarrow> string \<Rightarrow> bool" where
  "isNestedPath a b = (let ca = path_clean a; cb = path_clean b in
     ca = cb \<or> has_prefix (ca @ ''/'') (cb @ ''/'') \<or> has_prefix (cb @ ''/'') (ca @ ''/''))"

definition childMountIsReadonly :: "string \<Rightarrow> bool \<Rightarrow> string \<Rightarrow> bool \<Rightarrow> bool" where
  "childMountIsReadonly a ra b rb =
     (if a = b then ra \<and> rb else if has_prefix (a @ ''/'') (b @ ''/'') then ra else rb)"

text \<open>The pairs are examined in the order of the two loops; the first conflict is reported.\<close>

definition mountConflict :: "SessMount \<Rightarrow> SessMount \<Rightarrow> bool" where
  "mountConflict m n = (let a = path_clean (mContainerPath m); b = path_clean (mContainerPath n) in
     isNestedPath a b \<and> \<not> childMountIsReadonly a (mReadonly m) b (mReadonly n))"

fun ValidateMountList :: "SessMount list \<Rightarrow> unit result" where
  "ValidateMountList [] = Inr ()"
| "ValidateMountList (m # ms) =
     (case find (mountConflict m) ms of
        Some n \<Rightarrow> Inl (Errorf ''nested mount paths detected: '%s' and '%s' conflict''
                     [path_clean (mContainerPath m), path_clean (mContainerPath n)])
      | None \<Rightarrow> ValidateMountList ms)"

definition ValidateMounts :: "SessMount list option \<Rightarrow> unit result" where
  "ValidateMounts config = (case config of None \<Rightarrow> Inr () | Some ms \<Rightarrow> ValidateMountList ms)"

section \<open>What the check means\<close>

text \<open>
  Two mounts may be used together: the one whose path lies in the other's is read-only, and
  both are when the paths are the same.
\<close>

definition compatible :: "SessMount \<Rightarrow> SessMount \<Rightarrow> bool" where
  "compatible m n = (let p = clean_parts (mContainerPath m); q = clean_parts (mContainerPath n) in
     (p = q \<longrightarrow> mReadonly m \<and> mReadonly n) \<and>
     ((\<exists>zs. zs \<noteq> [] \<and> p = q @ zs) \<longrightarrow> mReadonly m) \<and>
     ((\<exists>zs. zs \<noteq> [] \<and> q = p @ zs) \<longrightarrow> mReadonly n))"

lemma conflict_iff:
  assumes "is_abs (mContainerPath m)" "is_abs (mContainerPath n)"
    "clean_parts (mContainerPath m) \<noteq> []" "clean_parts (mContainerPath n) \<noteq> []"
  shows "mountConflict m n \<longleftrightarrow> \<not> compatible m n"
proof -
  let ?p = "clean_parts (mContainerPath m)" and ?q = "clean_parts (mContainerPath n)"
  have e: "path_clean (mContainerPath m) = path_clean (mContainerPath n) \<longleftrightarrow> ?p = ?q"
    by (rule path_clean_eq_parts[OF assms(1,2)])
  have 1: "has_prefix (path_clean (mContainerPath m) @ ''/'') (path_clean (mContainerPath n) @ ''/'') \<longleftrightarrow> (\<exists>zs. ?p = ?q @ zs)"
    by (rule path_prefix_parts[OF assms])
  have 2: "has_prefix (path_clean (mContainerPath n) @ ''/'') (path_clean (mContainerPath m) @ ''/'') \<longleftrightarrow> (\<exists>zs. ?q = ?p @ zs)"
    by (rule path_prefix_parts[OF assms(2,1,4,3)])
  define A where "A \<longleftrightarrow> (\<exists>zs. zs \<noteq> [] \<and> ?p = ?q @ zs)"
  define B where "B \<longleftrightarrow> (\<exists>zs. zs \<noteq> [] \<and> ?q = ?p @ zs)"
  have 3: "(\<exists>zs. ?p = ?q @ zs) \<longleftrightarrow> ?p = ?q \<or> A" "(\<exists>zs. ?q = ?p @ zs) \<longleftrightarrow> ?p = ?q \<or> B"
    unfolding A_def B_def by (metis append_Nil2)+
  have 4: "\<not> (A \<and> B)" "A \<Longrightarrow> ?p \<noteq> ?q" "B \<Longrightarrow> ?p \<noteq> ?q" unfolding A_def B_def by auto
  show ?thesis unfolding mountConflict_def isNestedPath_def childMountIsReadonly_def compatible_def Let_def
      path_clean_idem e 1 2 3 A_def[symmetric] B_def[symmetric] using 4 by argo
qed

lemma validate_list: "ValidateMountList ms = Inr () \<longleftrightarrow> sorted_wrt (\<lambda>m n. \<not> mountConflict m n) ms"
  by (induction ms) (auto split: option.split simp: find_None_iff find_Some_iff)

lemma parseMounts_abs: "parseMounts os i es = Inr ms \<Longrightarrow> m \<in> set ms \<Longrightarrow>
    is_abs (mContainerPath m) \<and> mContainerPath m = path_clean (mContainerPath m)"
  by (induction os i es arbitrary: ms rule: parseMounts.induct)
    (auto simp: bindE_Inr path_clean_normal split: option.splits if_splits)

lemma parseMounts_parts: "parseMounts os i es = Inr ms \<Longrightarrow> m \<in> set ms \<Longrightarrow> mContainerPath m \<noteq> ''/'' \<Longrightarrow>
    clean_parts (mContainerPath m) \<noteq> []"
  using parseMounts_abs[of os i es ms m] path_clean_abs[of "mContainerPath m"] by auto

text \<open>C21. The check accepts the configured mounts exactly when every two of them are compatible, as
  long as none is mounted on the root of the container.\<close>

theorem mounts_checked:
  assumes "ParseMountConfig os cfg = Inr ms" "\<And>m. m \<in> set ms \<Longrightarrow> mContainerPath m \<noteq> ''/''"
  shows "ValidateMounts (Some ms) = Inr () \<longleftrightarrow> sorted_wrt compatible ms"
proof -
  have p: "parseMounts os 0 (Mounts cfg) = Inr ms" using assms(1) by (simp add: ParseMountConfig_def)
  have "mountConflict m n \<longleftrightarrow> \<not> compatible m n" if "m \<in> set ms" "n \<in> set ms" for m n
    using that parseMounts_abs[OF p] parseMounts_parts[OF p] assms(2) by (intro conflict_iff) auto
  then have "sorted_wrt (\<lambda>m n. \<not> mountConflict m n) ms \<longleftrightarrow> sorted_wrt compatible ms"
    by (induction ms) auto
  then show ?thesis by (simp add: ValidateMounts_def validate_list)
qed

definition demoMountCfg :: Config where
  "demoMountCfg = emptyConfig\<lparr>Mounts :=
     [\<lparr>MHost = ''/data'', MContainer = ''/home/code/.claude/'', MReadonly = False, MUntrusted = False, MSource = []\<rparr>,
      \<lparr>MHost = ''/skills'', MContainer = ''/home/code/./.claude/skills'', MReadonly = False, MUntrusted = False, MSource = []\<rparr>]\<rparr>"

definition demoMount :: "string \<Rightarrow> string \<Rightarrow> string \<Rightarrow> SessMount" where
  "demoMount host target device = \<lparr>mHostPath = host, mContainerPath = target, mDeviceName = device,
     mUseShift = False, mReadonly = False, mUntrusted = False, mSourcePath = []\<rparr>"

lemma demo_mounts: "ParseMountConfig \<lparr>HomeDir = None, WorkDir = None, COI_CONFIG = []\<rparr> demoMountCfg =
    Inr [demoMount ''/data'' ''/home/code/.claude'' ''mount-0'', demoMount ''/skills'' ''/home/code/.claude/skills'' ''mount-1'']"
  unfolding ParseMountConfig_def demoMountCfg_def by code_simp

lemma mounts_checked_witness:
  "ValidateMounts (Some [demoMount ''/data'' ''/home/code/.claude'' ''mount-0'', demoMount ''/skills'' ''/home/code/.claude/skills'' ''mount-1'']) = Inr () \<longleftrightarrow>
   sorted_wrt compatible [demoMount ''/data'' ''/home/code/.claude'' ''mount-0'', demoMount ''/skills'' ''/home/code/.claude/skills'' ''mount-1'']"
  by (rule mounts_checked[OF demo_mounts]) (auto simp: demoMount_def)

text \<open>A mount on the root is never seen as the parent of the others.\<close>

lemma root_mount_unchecked: "\<not> isNestedPath ''/'' ''/home/code'' \<and> isNestedPath ''/home'' ''/home/code''"
  by code_simp

end
