(* ===== verification/Trust.thy ===== *)
theory Trust
  imports Forwarding "HOL-Library.Multiset"
begin

text \<open>
  The gate in front of what an untrusted project configuration asks of the host,
  \<open>internal/session/trust.go\<close>: which mounts, sockets, credentials and ports need approval,
  the fingerprint an approval is pinned to, the store of approvals, and the filter a session
  applies. The file system's links, SHA-256, the TOML file and Unicode's table of printable
  characters are parameters.
\<close>

section \<open>Paths on the host\<close>

text \<open>\<open>filepath.Rel\<close> on clean paths, element by element; \<open>None\<close> is its error.\<close>

definition rel_elems :: "string \<Rightarrow> string list" where
  "rel_elems p = (if is_abs p then clean_parts p else str_split (path_clean p) ''/'')"

fun strip_common :: "string list \<Rightarrow> string list \<Rightarrow> string list \<times> string list" where
  "strip_common (b # bs) (t # ts) = (if b = t then strip_common bs ts else (b # bs, t # ts))"
| "strip_common bs ts = (bs, ts)"

definition path_rel :: "string \<Rightarrow> string \<Rightarrow> string option" where
  "path_rel base targ =
     (if path_clean base = path_clean targ then Some ''.''
      else if is_abs base \<noteq> is_abs targ then None
      else (case strip_common (if is_abs base then clean_parts base
                               else if path_clean base = ''.'' then [] else rel_elems base) (rel_elems targ) of
          (b, t) \<Rightarrow>
            if b \<noteq> [] \<and> t \<noteq> [] \<and> hd b = ''..'' then None
            else Some (str_join ''/'' (replicate (length b) ''..'' @ t))))"

definition isWithinWorkspace :: "string \<Rightarrow> string \<Rightarrow> bool" where
  "isWithinWorkspace workspace hostPath =
     (path_clean hostPath = path_clean workspace \<or>
      (case path_rel (path_clean workspace) (path_clean hostPath) of None \<Rightarrow> False
       | Some rel \<Rightarrow> rel \<noteq> ''..'' \<and> \<not> has_prefix rel ''../''))"

text \<open>
  The links of the file system: \<open>EvalSymlinks\<close> fails on a path that does not fully exist,
  \<open>IsSymlink\<close> is \<open>Lstat\<close> succeeding on a link, \<open>Readlink\<close> its target.
\<close>

record linkfs =
  EvalSymlinks :: "string \<Rightarrow> string option"
  IsSymlink :: "string \<Rightarrow> bool"
  Readlink :: "string \<Rightarrow> string option"

text \<open>The remainder is kept outermost first and joined again in this order.\<close>

definition rejoin :: "string list \<Rightarrow> string \<Rightarrow> string" where
  "rejoin rest base = fold (\<lambda>e full. path_join [full, e]) rest base"

fun realLoop :: "linkfs \<Rightarrow> nat \<Rightarrow> string \<Rightarrow> string list \<Rightarrow> string" where
  "realLoop fs 0 cur rest = rejoin rest cur"
| "realLoop fs (Suc n) cur rest =
     (case EvalSymlinks fs cur of
        Some resolved \<Rightarrow> rejoin rest resolved
      | None \<Rightarrow>
        (case (if IsSymlink fs cur then Readlink fs cur else None) of
           Some target \<Rightarrow> realLoop fs n (path_clean (if is_abs target then target else path_join [path_dir cur, target])) rest
         | None \<Rightarrow>
           if path_dir cur = cur then rejoin rest cur
           else realLoop fs n (path_dir cur) (path_base cur # rest)))"

definition realPath :: "linkfs \<Rightarrow> string \<Rightarrow> string" where
  "realPath fs p = (if p = [] then [] else realLoop fs 256 (path_clean p) [])"

definition hostEscapesWorkspace :: "linkfs \<Rightarrow> string \<Rightarrow> string \<Rightarrow> bool" where
  "hostEscapesWorkspace fs workspace hostPath = (\<not> isWithinWorkspace (realPath fs workspace) (realPath fs hostPath))"

section \<open>What is gated\<close>

record 'w trustctl =
  Links :: linkfs
  Sha :: "string \<Rightarrow> string"
  Printable :: "nat \<Rightarrow> bool"
  TrustEnv :: string
  TrustHome :: "string option"
  DecodeStore :: "string \<Rightarrow> 'w \<Rightarrow> (string \<rightharpoonup> string) option result"
  MkdirAll :: "string \<Rightarrow> ('w, unit) act"
  CreateTemp :: "string \<Rightarrow> ('w, string) act"
  EncodeStore :: "string \<Rightarrow> (string \<rightharpoonup> string) \<Rightarrow> ('w, unit) act"
  CloseFile :: "string \<Rightarrow> ('w, unit) act"
  RenameFile :: "string \<Rightarrow> string \<Rightarrow> ('w, unit) act"
  RemoveFile :: "string \<Rightarrow> ('w, unit) act"

text \<open>
  \<open>DecodeStore path\<close> is \<open>toml.DecodeFile\<close>: \<open>None\<close> when the file does not exist. \<open>TrustEnv\<close> is
  \<open>$COI_TRUST_ALL\<close>, \<open>Sha\<close> the hexadecimal SHA-256 digest.
\<close>

definition TrustAllViaEnv :: "('w, 'x) trustctl_scheme \<Rightarrow> bool" where
  "TrustAllViaEnv e = (to_lower (trim_space (TrustEnv e)) \<in> {''1'', ''true'', ''yes''})"

definition gatedMount :: "('w, 'x) trustctl_scheme \<Rightarrow> string \<Rightarrow> SessMount \<Rightarrow> bool" where
  "gatedMount e ws m = (mUntrusted m \<and> mHostPath m \<noteq> [] \<and> hostEscapesWorkspace (Links e) ws (mHostPath m))"

definition gatedSocket :: "SessSocket \<Rightarrow> bool" where
  "gatedSocket s = (sUntrusted s \<and> sHostPath s \<noteq> [])"

definition gatedCredential :: "SessCredential \<Rightarrow> bool" where
  "gatedCredential c = (cUntrusted c \<and> cHostPath c \<noteq> [] \<and> cBundleName c = [])"

definition gatedPort :: "SessPort \<Rightarrow> bool" where
  "gatedPort p = (pUntrusted p \<and> pContainerPort p \<noteq> 0)"

definition gatedPool :: "PortConfig \<Rightarrow> bool" where
  "gatedPool pc = (0 < PcPool pc \<and> PcPoolUntrusted pc)"

definition escapingUntrustedMounts :: "('w, 'x) trustctl_scheme \<Rightarrow> string \<Rightarrow> SessMount list option \<Rightarrow> SessMount list" where
  "escapingUntrustedMounts e ws mc = (case mc of None \<Rightarrow> [] | Some ms \<Rightarrow> filter (gatedMount e ws) ms)"

definition untrustedSockets :: "SessSocket list option \<Rightarrow> SessSocket list" where
  "untrustedSockets sc = (case sc of None \<Rightarrow> [] | Some ss \<Rightarrow> filter gatedSocket ss)"

definition untrustedCredentials :: "SessCredential list option \<Rightarrow> SessCredential list" where
  "untrustedCredentials cc = (case cc of None \<Rightarrow> [] | Some cs \<Rightarrow> filter gatedCredential cs)"

definition untrustedPorts :: "PortConfig option \<Rightarrow> SessPort list" where
  "untrustedPorts pc = (case pc of None \<Rightarrow> [] | Some p \<Rightarrow> filter gatedPort (PcPorts p))"

definition untrustedPool :: "PortConfig option \<Rightarrow> bool" where
  "untrustedPool pc = (case pc of None \<Rightarrow> False | Some p \<Rightarrow> gatedPool p)"

section \<open>Fingerprints\<close>

definition fmt_bool :: "bool \<Rightarrow> string" where
  "fmt_bool b = (if b then ''true'' else ''false'')"

definition mountLine :: "(nat \<Rightarrow> bool) \<Rightarrow> SessMount \<Rightarrow> string" where
  "mountLine pr m = ''mount:'' @ go_quote pr (mHostPath m) @ ''|'' @ go_quote pr (mContainerPath m) @ ''|'' @ fmt_bool (mReadonly m)"

definition socketLine :: "(nat \<Rightarrow> bool) \<Rightarrow> SessSocket \<Rightarrow> string" where
  "socketLine pr s = ''socket:'' @ go_quote pr (sHostPath s) @ ''|'' @ go_quote pr (sContainerPath s) @ ''|'' @ go_quote pr (sEnvVar s)"

definition credentialLine :: "(nat \<Rightarrow> bool) \<Rightarrow> SessCredential \<Rightarrow> string" where
  "credentialLine pr c = ''credential:'' @ go_quote pr (cHostPath c) @ ''|'' @ go_quote pr (cContainerPath c) @ ''|'' @ go_quote pr (cMode c)"

definition portLine :: "(nat \<Rightarrow> bool) \<Rightarrow> SessPort \<Rightarrow> string" where
  "portLine pr p = ''port:'' @ go_quote pr (pName p) @ ''|'' @ itoa_int (pContainerPort p) @ ''|'' @ itoa_int (pHostPort p) @ ''|'' @
     go_quote pr (pListen p)"

definition sourceFingerprint :: "('w, 'x) trustctl_scheme \<Rightarrow> SessMount list \<Rightarrow> SessSocket list \<Rightarrow> SessCredential list \<Rightarrow>
    SessPort list \<Rightarrow> int \<Rightarrow> string" where
  "sourceFingerprint e mounts sockets creds ports pool =
     Sha e (str_join [CHR 0x0A] (sort
       (map (mountLine (Printable e)) mounts @ map (socketLine (Printable e)) sockets @
        map (credentialLine (Printable e)) creds @ map (portLine (Printable e)) ports @
        (if 0 < pool then [''port-pool:'' @ itoa_int pool] else []))))"

text \<open>The maps from a source to what it declares, and its fingerprint.\<close>

definition declaredPool :: "PortConfig option \<Rightarrow> string \<Rightarrow> int" where
  "declaredPool pc src = (case pc of None \<Rightarrow> 0 | Some p \<Rightarrow> if gatedPool p \<and> PcPoolSourcePath p = src then PcPool p else 0)"

definition fingerprintOf :: "('w, 'x) trustctl_scheme \<Rightarrow> SessMount list option \<Rightarrow> SessSocket list option \<Rightarrow>
    SessCredential list option \<Rightarrow> PortConfig option \<Rightarrow> string \<Rightarrow> string \<Rightarrow> string" where
  "fingerprintOf e mc sc cc pc ws src = sourceFingerprint e
     (filter (\<lambda>m. mSourcePath m = src) (escapingUntrustedMounts e ws mc))
     (filter (\<lambda>s. sSourcePath s = src) (untrustedSockets sc))
     (filter (\<lambda>c. cSourcePath c = src) (untrustedCredentials cc))
     (filter (\<lambda>p. pSourcePath p = src) (untrustedPorts pc))
     (declaredPool pc src)"

definition gatedSources :: "('w, 'x) trustctl_scheme \<Rightarrow> SessMount list option \<Rightarrow> SessSocket list option \<Rightarrow>
    SessCredential list option \<Rightarrow> PortConfig option \<Rightarrow> string \<Rightarrow> string list" where
  "gatedSources e mc sc cc pc ws = remdups
     (map mSourcePath (escapingUntrustedMounts e ws mc) @ map sSourcePath (untrustedSockets sc) @
      map cSourcePath (untrustedCredentials cc) @ map pSourcePath (untrustedPorts pc) @
      (case pc of None \<Rightarrow> [] | Some p \<Rightarrow> if gatedPool p then [PcPoolSourcePath p] else []))"

definition trustedSources :: "('w, 'x) trustctl_scheme \<Rightarrow> SessMount list option \<Rightarrow> SessSocket list option \<Rightarrow>
    SessCredential list option \<Rightarrow> PortConfig option \<Rightarrow> string \<Rightarrow> (string \<rightharpoonup> string) \<Rightarrow> string \<Rightarrow> bool" where
  "trustedSources e mc sc cc pc ws store src =
     (src \<in> set (gatedSources e mc sc cc pc ws) \<and>
      (case store src of None \<Rightarrow> False | Some fp \<Rightarrow> fp \<noteq> [] \<and> fp = fingerprintOf e mc sc cc pc ws src))"

section \<open>The store\<close>

definition TrustStorePath :: "('w, 'x) trustctl_scheme \<Rightarrow> string result" where
  "TrustStorePath e = (case TrustHome e of None \<Rightarrow> Inl (ExtErr ''home'') | Some h \<Rightarrow> Inr (path_join [h, ''.coi'', ''trust.toml'']))"

definition loadTrustStore :: "('w, 'x) trustctl_scheme \<Rightarrow> 'w \<Rightarrow> (string \<rightharpoonup> string) result" where
  "loadTrustStore e w = bindE (TrustStorePath e) (\<lambda>path. bindE (DecodeStore e path w) (\<lambda>r.
     Inr (case r of None \<Rightarrow> Map.empty | Some m \<Rightarrow> m)))"

definition saveTrustStore :: "('w, 'x) trustctl_scheme \<Rightarrow> (string \<rightharpoonup> string) \<Rightarrow> ('w, unit) act" where
  "saveTrustStore e m = bindA (liftA (TrustStorePath e)) (\<lambda>path.
     thenA (MkdirAll e (path_dir path)) (bindA (CreateTemp e (path_dir path)) (\<lambda>tmp w.
       (let body = bindA (tryA (EncodeStore e tmp m)) (\<lambda>r. case r of
              Inl err \<Rightarrow> thenA (warnA (CloseFile e tmp)) (failA err)
            | Inr _ \<Rightarrow> thenA (CloseFile e tmp) (RenameFile e tmp path))
        in case body w of (r, w') \<Rightarrow> (r, snd (RemoveFile e tmp w'))))))"

section \<open>The filter\<close>

type_synonym filtered = "(SessMount list option \<times> SessMount list) \<times> (SessSocket list option \<times> SessSocket list) \<times>
  (SessCredential list option \<times> SessCredential list) \<times> (PortConfig option \<times> SessPort list)"

definition filterPorts :: "(string \<Rightarrow> bool) \<Rightarrow> PortConfig \<Rightarrow> PortConfig \<times> SessPort list" where
  "filterPorts trusted pc =
     (let drop_port = (\<lambda>p. gatedPort p \<and> \<not> trusted (pSourcePath p));
          kept = pc\<lparr>PcPorts := filter (\<lambda>p. \<not> drop_port p) (PcPorts pc)\<rparr>;
          dropped = filter drop_port (PcPorts pc)
      in if gatedPool pc \<and> \<not> trusted (PcPoolSourcePath pc)
         then (kept\<lparr>PcPool := PcPoolTrustedFallback pc, PcPoolUntrusted := False, PcPoolSourcePath := []\<rparr>,
               dropped @ [\<lparr>pName = ''pool of '' @ itoa_int (PcPool pc) @ '' ports'', pContainerPort = 0, pHostPort = 0,
                           pListen = [], pDeviceName = [], pUntrusted = True, pSourcePath = PcPoolSourcePath pc\<rparr>])
         else (kept, dropped))"

definition dropGated :: "('a \<Rightarrow> bool) \<Rightarrow> 'a list option \<Rightarrow> 'a list option \<times> 'a list" where
  "dropGated d xs = (case xs of None \<Rightarrow> (None, []) | Some ys \<Rightarrow> (Some (filter (\<lambda>y. \<not> d y) ys), filter d ys))"

definition FilterTrusted :: "('w, 'x) trustctl_scheme \<Rightarrow> SessMount list option \<Rightarrow> SessSocket list option \<Rightarrow>
    SessCredential list option \<Rightarrow> PortConfig option \<Rightarrow> string \<Rightarrow> 'w \<Rightarrow> filtered" where
  "FilterTrusted e mc sc cc pc ws w =
     (if TrustAllViaEnv e then ((mc, []), (sc, []), (cc, []), (pc, []))
      else if escapingUntrustedMounts e ws mc = [] \<and> untrustedSockets sc = [] \<and> untrustedCredentials cc = [] \<and>
              untrustedPorts pc = [] \<and> \<not> untrustedPool pc
      then ((mc, []), (sc, []), (cc, []), (pc, []))
      else (let store = (case loadTrustStore e w of Inl _ \<Rightarrow> Map.empty | Inr m \<Rightarrow> m);
                trusted = trustedSources e mc sc cc pc ws store
            in (dropGated (\<lambda>m. gatedMount e ws m \<and> \<not> trusted (mSourcePath m)) mc,
                dropGated (\<lambda>s. gatedSocket s \<and> \<not> trusted (sSourcePath s)) sc,
                dropGated (\<lambda>c. gatedCredential c \<and> \<not> trusted (cSourcePath c)) cc,
                (case pc of None \<Rightarrow> (None, []) | Some p \<Rightarrow> map_prod Some id (filterPorts trusted p)))))"

section \<open>Approving and revoking\<close>

definition TrustSources :: "('w, 'x) trustctl_scheme \<Rightarrow> SessMount list option \<Rightarrow> SessSocket list option \<Rightarrow>
    SessCredential list option \<Rightarrow> PortConfig option \<Rightarrow> string \<Rightarrow> ('w, string list) act" where
  "TrustSources e mc sc cc pc ws w =
     (let srcs = gatedSources e mc sc cc pc ws in
      if srcs = [] then (Inr [], w)
      else (case loadTrustStore e w of
          Inl err \<Rightarrow> (Inl err, w)
        | Inr store \<Rightarrow>
          thenA (saveTrustStore e (\<lambda>s. if s \<in> set srcs then Some (fingerprintOf e mc sc cc pc ws s) else store s))
            (retA (sort srcs)) w))"

definition UntrustSources :: "('w, 'x) trustctl_scheme \<Rightarrow> string list \<Rightarrow> ('w, nat) act" where
  "UntrustSources e sources w =
     (case loadTrustStore e w of
        Inl err \<Rightarrow> (Inl err, w)
      | Inr store \<Rightarrow>
        (case fold (\<lambda>s (m, n). if m s = None then (m, n) else (m(s := None), n + 1)) sources (store, 0) of
           (m, n) \<Rightarrow> if n = 0 then (Inr 0, w) else thenA (saveTrustStore e m) (retA n) w))"

definition ListTrusted :: "('w, 'x) trustctl_scheme \<Rightarrow> 'w \<Rightarrow> (string \<rightharpoonup> string) result" where
  "ListTrusted e w = loadTrustStore e w"

definition UntrustedSourcePaths :: "SessMount list option \<Rightarrow> SessSocket list option \<Rightarrow> SessCredential list option \<Rightarrow>
    PortConfig option \<Rightarrow> string list" where
  "UntrustedSourcePaths mc sc cc pc = sort (remdups (filter (\<lambda>s. s \<noteq> [])
     ((case mc of None \<Rightarrow> [] | Some ms \<Rightarrow> map mSourcePath (filter mUntrusted ms)) @
      (case sc of None \<Rightarrow> [] | Some ss \<Rightarrow> map sSourcePath (filter sUntrusted ss)) @
      (case cc of None \<Rightarrow> [] | Some cs \<Rightarrow> map cSourcePath (filter (\<lambda>c. cUntrusted c \<and> cBundleName c = []) cs)) @
      (case pc of None \<Rightarrow> [] | Some p \<Rightarrow> map pSourcePath (filter pUntrusted (PcPorts p)) @
         (if PcPoolUntrusted p then [PcPoolSourcePath p] else [])))))"

section \<open>Containment\<close>

lemma first_sep: "c \<notin> set x \<Longrightarrow> c \<notin> set y \<Longrightarrow> x @ c # u = y @ c # v \<longleftrightarrow> x = y \<and> u = v"
proof (induction x arbitrary: y)
  case Nil
  then show ?case by (cases y) auto
next
  case (Cons a x)
  then show ?case by (cases y) auto
qed

lemma strip_common_spec: "strip_common bs ts = (b, t) \<Longrightarrow>
    \<exists>c. bs = c @ b \<and> ts = c @ t \<and> (b = [] \<or> t = [] \<or> hd b \<noteq> hd t)"
proof (induction bs ts arbitrary: b t rule: strip_common.induct)
  case (1 x bs y ts)
  show ?case
  proof (cases "x = y")
    case True
    with "1.prems" "1.IH"[of b t] obtain c where "bs = c @ b" "ts = c @ t" "b = [] \<or> t = [] \<or> hd b \<noteq> hd t" by auto
    with True show ?thesis by (intro exI[of _ "x # c"]) simp
  next
    case False
    with "1.prems" show ?thesis by auto
  qed
qed auto

lemma dotdot_prefix: "has_prefix (str_join ''/'' (''..'' # xs)) ''../'' \<or> str_join ''/'' (''..'' # xs) = ''..''"
  by (cases xs) (simp_all add: has_prefix_iff)

lemma rel_no_dotdot:
  assumes "plain_elem x"
  shows "str_join ''/'' (x # xs) \<noteq> ''..'' \<and> \<not> has_prefix (str_join ''/'' (x # xs)) ''../''"
proof -
  have n: "CHR ''/'' \<notin> set x" "x \<noteq> ''..''" using assms by (simp_all add: plain_elem_def)
  obtain r where r: "str_join ''/'' (x # xs) = x @ r" "r = [] \<or> hd r = CHR ''/''"
    by (cases xs) (simp_all)
  show ?thesis
  proof
    show "str_join ''/'' (x # xs) \<noteq> ''..''"
    proof
      assume "str_join ''/'' (x # xs) = ''..''"
      with r n(2) have "r \<noteq> []" "x @ r = ''..''" by auto
      then obtain v where "r = CHR ''/'' # v" using r(2) by (cases r) auto
      then have "CHR ''/'' \<in> set (x @ r)" by simp
      then show False unfolding \<open>x @ r = ''..''\<close> by simp
    qed
    show "\<not> has_prefix (str_join ''/'' (x # xs)) ''../''"
    proof
      assume "has_prefix (str_join ''/'' (x # xs)) ''../''"
      then obtain u where u: "x @ r = ''..'' @ CHR ''/'' # u" using r(1) by (auto simp: has_prefix_iff)
      show False
      proof (cases r)
        case Nil
        with u n(1) show False by auto
      next
        case (Cons c v)
        with r(2) u have "x @ CHR ''/'' # v = ''..'' @ CHR ''/'' # u" by simp
        with n show False by (subst (asm) first_sep) auto
      qed
    qed
  qed
qed

text \<open>An absolute path lies in a workspace exactly when its elements extend the workspace's.\<close>

lemma within_parts:
  assumes "is_abs ws" "is_abs p"
  shows "isWithinWorkspace ws p \<longleftrightarrow> (\<exists>zs. clean_parts p = clean_parts ws @ zs)"
proof (cases "clean_parts p = clean_parts ws")
  case True
  with assms show ?thesis by (simp add: isWithinWorkspace_def path_clean_eq_parts)
next
  case False
  then have ne: "path_clean p \<noteq> path_clean ws" "path_clean ws \<noteq> path_clean p"
    using assms path_clean_eq_parts by metis+
  obtain b t where bt: "strip_common (clean_parts ws) (clean_parts p) = (b, t)"
    by (cases "strip_common (clean_parts ws) (clean_parts p)")
  from strip_common_spec[OF bt] obtain c where c: "clean_parts ws = c @ b" "clean_parts p = c @ t"
    "b = [] \<or> t = [] \<or> hd b \<noteq> hd t" by blast
  have plain: "\<forall>x \<in> set b \<union> set t. plain_elem x"
    using clean_parts_plain[OF assms(1)] clean_parts_plain[OF assms(2)] c by auto
  have nb: "\<not> (b \<noteq> [] \<and> t \<noteq> [] \<and> hd b = ''..'')" using plain by (cases b) (auto simp: plain_elem_def)
  have rel: "path_rel (path_clean ws) (path_clean p) = Some (str_join ''/'' (replicate (length b) ''..'' @ t))"
    using ne assms bt nb by (simp add: path_rel_def path_clean_normal rel_elems_def)
  show ?thesis
  proof (cases b)
    case Nil
    with False c have "t \<noteq> []" by auto
    then obtain x xs where t: "t = x # xs" by (cases t) auto
    with plain have x: "plain_elem x" by simp
    then have "str_join ''/'' t \<noteq> ''..''" "\<not> has_prefix (str_join ''/'' t) ''../''"
      using rel_no_dotdot[OF x, of xs] t by simp_all
    with rel Nil c show ?thesis by (auto simp: isWithinWorkspace_def)
  next
    case (Cons y ys)
    then have "\<not> isWithinWorkspace ws p"
      using rel ne dotdot_prefix[of "replicate (length ys) ''..'' @ t"] by (auto simp: isWithinWorkspace_def)
    moreover have "\<not> (\<exists>zs. clean_parts p = clean_parts ws @ zs)" using c Cons by (cases t) auto
    ultimately show ?thesis by simp
  qed
qed

section \<open>Requests\<close>

text \<open>
  What a source asks of the host, as far as an approval covers it. A fingerprint is a digest
  of these requests in any order.
\<close>

datatype request = ReqMount string string bool | ReqSocket string string string | ReqCredential string string string
  | ReqPort string int int string | ReqPool int

fun request_line :: "(nat \<Rightarrow> bool) \<Rightarrow> request \<Rightarrow> string" where
  "request_line pr (ReqMount h c r) = ''mount:'' @ go_quote pr h @ ''|'' @ go_quote pr c @ ''|'' @ fmt_bool r"
| "request_line pr (ReqSocket h c v) = ''socket:'' @ go_quote pr h @ ''|'' @ go_quote pr c @ ''|'' @ go_quote pr v"
| "request_line pr (ReqCredential h c m) = ''credential:'' @ go_quote pr h @ ''|'' @ go_quote pr c @ ''|'' @ go_quote pr m"
| "request_line pr (ReqPort n c h l) = ''port:'' @ go_quote pr n @ ''|'' @ itoa_int c @ ''|'' @ itoa_int h @ ''|'' @ go_quote pr l"
| "request_line pr (ReqPool n) = ''port-pool:'' @ itoa_int n"

definition requests :: "('w, 'x) trustctl_scheme \<Rightarrow> SessMount list option \<Rightarrow> SessSocket list option \<Rightarrow>
    SessCredential list option \<Rightarrow> PortConfig option \<Rightarrow> string \<Rightarrow> string \<Rightarrow> request list" where
  "requests e mc sc cc pc ws src =
     [ReqMount (mHostPath m) (mContainerPath m) (mReadonly m). m \<leftarrow> escapingUntrustedMounts e ws mc, mSourcePath m = src] @
     [ReqSocket (sHostPath s) (sContainerPath s) (sEnvVar s). s \<leftarrow> untrustedSockets sc, sSourcePath s = src] @
     [ReqCredential (cHostPath c) (cContainerPath c) (cMode c). c \<leftarrow> untrustedCredentials cc, cSourcePath c = src] @
     [ReqPort (pName p) (pContainerPort p) (pHostPort p) (pListen p). p \<leftarrow> untrustedPorts pc, pSourcePath p = src] @
     (if 0 < declaredPool pc src then [ReqPool (declaredPool pc src)] else [])"

lemma map_concat_filter: "map f (concat (map (\<lambda>x. if P x then [g x] else []) xs)) = map (\<lambda>x. f (g x)) (filter P xs)"
  by (induction xs) auto

lemma fingerprint_requests: "fingerprintOf e mc sc cc pc ws src =
    Sha e (str_join [CHR 0x0A] (sort (map (request_line (Printable e)) (requests e mc sc cc pc ws src))))"
  by (simp add: fingerprintOf_def sourceFingerprint_def requests_def map_concat_filter mountLine_def[abs_def] socketLine_def[abs_def]
      credentialLine_def[abs_def] portLine_def[abs_def])

lemma is_digit_dash: "\<not> is_digit (CHR ''-'')"
  by (simp add: is_digit_def)

lemma itoa_int_digits: "c \<in> set (itoa_int i) \<Longrightarrow> is_digit c \<or> c = CHR ''-''"
  by (auto simp: itoa_int_def dest: itoa_set split: if_splits)

lemma itoa_int_inj: "itoa_int i = itoa_int j \<longleftrightarrow> i = j"
proof -
  have n: "CHR ''-'' # x \<noteq> itoa k" for x k
    using itoa_notin[of "CHR ''-''" k] by (metis list.set_intros(1) is_digit_dash)
  show ?thesis using n n[symmetric] by (auto simp: itoa_int_def itoa_inj)
qed

lemma no_bar: "CHR ''|'' \<notin> set (itoa_int i)"
  using itoa_int_digits[of "CHR ''|''" i] by (auto simp: is_digit_def)

lemma go_quote_end: "go_quote p s = go_quote p t \<longleftrightarrow> s = t"
  using go_quote_inj[of p s "[]" t "[]"] by simp

lemma fmt_bool_inj: "fmt_bool a = fmt_bool b \<longleftrightarrow> a = b"
  by (cases a; cases b) (simp_all add: fmt_bool_def)

lemma request_line_inj: "request_line pr r = request_line pr r' \<longleftrightarrow> r = r'"
  by (cases r; cases r') (simp_all add: go_quote_inj go_quote_end fmt_bool_inj first_sep[OF no_bar no_bar] itoa_int_inj conj_ac)

text \<open>A quoted string holds no line break.\<close>

lemma hex_chars: "c \<in> set (hex_n k v) \<Longrightarrow> c \<in> set ''0123456789abcdef''"
proof (induction k arbitrary: v)
  case (Suc k)
  then consider "c \<in> set (hex_n k (v div 16))" | "c = lower_hex (v mod 16)" by auto
  then show ?case
  proof cases
    case 2
    then show ?thesis unfolding lower_hex_def by (simp only:) (rule nth_mem, simp)
  qed (rule Suc.IH)
qed simp

lemma cont_high: "cont c \<Longrightarrow> c \<noteq> CHR 0x0A"
  by (auto simp: cont_def byte_def)

lemma nl_byte: "byte (CHR 0x0A) = 10"
  by (simp add: byte_def)

lemma valid_no_newline: "rune_len t = length t \<Longrightarrow> t \<noteq> [] \<Longrightarrow> CHR 0x0A \<in> set t \<Longrightarrow> t = [CHR 0x0A]"
  by (erule valid_rune_cases, assumption) (auto simp: nl_byte dest: cont_high)

lemma quote_rune_newline: "is_rune t \<Longrightarrow> CHR 0x0A \<notin> set (quote_rune p t)"
proof
  assume t: "is_rune t" and nl: "CHR 0x0A \<in> set (quote_rune p t)"
  have h: "CHR 0x0A \<notin> set (hex_n k v)" for k v using hex_chars[of "CHR 0x0A" k v] by auto
  from t show False
  proof (cases rule: quote_rune_cases[where p = p])
    case lit
    with nl t have e: "t = [CHR 0x0A]" using valid_no_newline by (simp add: is_rune_def)
    have "rune_len [CHR 0x0A] = 1" "rune_val [CHR 0x0A] = 10" using rune_vals(1)[of "CHR 0x0A"]
      by (simp_all add: rune_len_def byte_def)
    then have "quote_rune p t = [CHR 0x5C, CHR ''n'']" unfolding e by (simp add: quote_rune_def is_print_def)
    with nl show False by simp
  next
    case (one c)
    with nl show False by (auto simp: simple_escapes_def)
  qed (use nl h in auto)
qed

lemma go_quote_newline: "CHR 0x0A \<notin> set (go_quote p s)"
  using go_runes_all quote_rune_newline by (auto simp: go_quote_def)

lemma itoa_int_newline: "CHR 0x0A \<notin> set (itoa_int i)"
  using itoa_int_digits[of "CHR 0x0A" i] by (auto simp: is_digit_def)

lemma request_line_plain: "CHR 0x0A \<notin> set (request_line pr r) \<and> request_line pr r \<noteq> []"
  by (cases r) (simp_all add: go_quote_newline itoa_int_newline fmt_bool_def)

text \<open>Two equal digests come from the same requests, or a collision of the digest is at hand.\<close>

lemma sorted_lines_inj:
  assumes e: "str_join [CHR 0x0A] (sort (map (request_line pr) rs)) = str_join [CHR 0x0A] (sort (map (request_line pr) rs'))"
  shows "mset rs = mset rs'"
proof -
  define L where "L = (\<lambda>qs. sort (map (request_line pr) qs))"
  have p: "l \<noteq> [] \<and> CHR 0x0A \<notin> set l" if "l \<in> set (L qs)" for l qs
    using that request_line_plain unfolding L_def by auto
  have j: "str_join [CHR 0x0A] (L qs) \<noteq> []" if "L qs \<noteq> []" for qs
    using that p[of "hd (L qs)" qs] by (cases "L qs"; cases "tl (L qs)") auto
  have e2: "str_join [CHR 0x0A] (L rs) = str_join [CHR 0x0A] (L rs')" using e by (simp add: L_def)
  have "L rs = L rs'"
  proof (cases "L rs = [] \<or> L rs' = []")
    case True
    with j[of rs] j[of rs'] e2 show ?thesis by (cases "L rs = []"; cases "L rs' = []") simp_all
  next
    case False
    have "str_split (str_join [CHR 0x0A] (L qs)) [CHR 0x0A] = L qs" if "L qs \<noteq> []" for qs
      using that p by (intro split_join_char) auto
    with False e2 show ?thesis by metis
  qed
  then have "image_mset (request_line pr) (mset rs) = image_mset (request_line pr) (mset rs')"
    unfolding L_def by (metis mset_map mset_sort)
  moreover have "inj (request_line pr)" by (simp add: inj_on_def request_line_inj)
  ultimately show ?thesis using multiset.inj_map by (metis injD)
qed

lemma equal_fingerprints:
  assumes "fingerprintOf e mc sc cc pc ws src = fingerprintOf e mc' sc' cc' pc' ws' src'"
  shows "mset (requests e mc sc cc pc ws src) = mset (requests e mc' sc' cc' pc' ws' src') \<or> (\<exists>x y. x \<noteq> y \<and> Sha e x = Sha e y)"
  using assms sorted_lines_inj unfolding fingerprint_requests by metis

text \<open>A source asks for something exactly when it is among the gated sources.\<close>

lemma comp_Nil: "[g x. x \<leftarrow> xs, P x] = [] \<longleftrightarrow> (\<forall>x \<in> set xs. \<not> P x)"
  by auto

lemma gatedSources_requests: "src \<in> set (gatedSources e mc sc cc pc ws) \<longleftrightarrow> requests e mc sc cc pc ws src \<noteq> []"
  unfolding gatedSources_def requests_def append_is_Nil_conv comp_Nil
  by (auto simp: declaredPool_def gatedPool_def split: option.splits)

section \<open>What the filter lets through\<close>

definition approved :: "('w, 'x) trustctl_scheme \<Rightarrow> SessMount list option \<Rightarrow> SessSocket list option \<Rightarrow>
    SessCredential list option \<Rightarrow> PortConfig option \<Rightarrow> string \<Rightarrow> 'w \<Rightarrow> string \<Rightarrow> bool" where
  "approved e mc sc cc pc ws w =
     trustedSources e mc sc cc pc ws (case loadTrustStore e w of Inl _ \<Rightarrow> Map.empty | Inr m \<Rightarrow> m)"

lemma fst_dropGated: "fst (dropGated d xs) = map_option (filter (\<lambda>x. \<not> d x)) xs"
  by (simp add: dropGated_def split: option.split)

lemma filter_True_opt: "(\<And>ys y. xs = Some ys \<Longrightarrow> y \<in> set ys \<Longrightarrow> P y) \<Longrightarrow> map_option (filter P) xs = xs"
  by (cases xs) (auto intro: filter_True)

lemma ungated_mounts: "escapingUntrustedMounts e ws mc = [] \<Longrightarrow> mc = Some ys \<Longrightarrow> y \<in> set ys \<Longrightarrow> \<not> gatedMount e ws y"
  "untrustedSockets sc = [] \<Longrightarrow> sc = Some zs \<Longrightarrow> z \<in> set zs \<Longrightarrow> \<not> gatedSocket z"
  "untrustedCredentials cc = [] \<Longrightarrow> cc = Some us \<Longrightarrow> u \<in> set us \<Longrightarrow> \<not> gatedCredential u"
  "untrustedPorts pc = [] \<Longrightarrow> pc = Some p \<Longrightarrow> v \<in> set (PcPorts p) \<Longrightarrow> \<not> gatedPort v"
  by (auto simp: escapingUntrustedMounts_def untrustedSockets_def untrustedCredentials_def untrustedPorts_def filter_empty_conv)

text \<open>The early exit gives what the filter would have given.\<close>

lemma FilterTrusted_kept:
  assumes "\<not> TrustAllViaEnv e"
    "FilterTrusted e mc sc cc pc ws w = ((kmc, dmc), (ksc, dsc), (kcc, dcc), (kpc, dpc))"
  defines "ok \<equiv> approved e mc sc cc pc ws w"
  shows "kmc = map_option (filter (\<lambda>m. \<not> (gatedMount e ws m \<and> \<not> ok (mSourcePath m)))) mc"
    "ksc = map_option (filter (\<lambda>s. \<not> (gatedSocket s \<and> \<not> ok (sSourcePath s)))) sc"
    "kcc = map_option (filter (\<lambda>c. \<not> (gatedCredential c \<and> \<not> ok (cSourcePath c)))) cc"
    "kpc = map_option (\<lambda>p. fst (filterPorts ok p)) pc"
proof -
  let ?early = "escapingUntrustedMounts e ws mc = [] \<and> untrustedSockets sc = [] \<and> untrustedCredentials cc = [] \<and>
      untrustedPorts pc = [] \<and> \<not> untrustedPool pc"
  have "kmc = map_option (filter (\<lambda>m. \<not> (gatedMount e ws m \<and> \<not> ok (mSourcePath m)))) mc \<and>
    ksc = map_option (filter (\<lambda>s. \<not> (gatedSocket s \<and> \<not> ok (sSourcePath s)))) sc \<and>
    kcc = map_option (filter (\<lambda>c. \<not> (gatedCredential c \<and> \<not> ok (cSourcePath c)))) cc \<and>
    kpc = map_option (\<lambda>p. fst (filterPorts ok p)) pc"
  proof (cases ?early)
    case True
    have k: "kmc = mc" "ksc = sc" "kcc = cc" "kpc = pc" using assms(1,2) True by (simp_all add: FilterTrusted_def)
    have "map_option (\<lambda>p. fst (filterPorts ok p)) pc = pc"
      using True by (cases pc) (auto simp: filterPorts_def untrustedPool_def untrustedPorts_def filter_empty_conv Let_def
          intro!: PortConfig.equality filter_True)
    moreover have "map_option (filter (\<lambda>m. \<not> (gatedMount e ws m \<and> \<not> ok (mSourcePath m)))) mc = mc"
      using True ungated_mounts(1) by (intro filter_True_opt) blast
    moreover have "map_option (filter (\<lambda>s. \<not> (gatedSocket s \<and> \<not> ok (sSourcePath s)))) sc = sc"
      using True ungated_mounts(2) by (intro filter_True_opt) blast
    moreover have "map_option (filter (\<lambda>c. \<not> (gatedCredential c \<and> \<not> ok (cSourcePath c)))) cc = cc"
      using True ungated_mounts(3) by (intro filter_True_opt) blast
    ultimately show ?thesis unfolding k by metis
  next
    case False
    have "FilterTrusted e mc sc cc pc ws w =
        (dropGated (\<lambda>m. gatedMount e ws m \<and> \<not> ok (mSourcePath m)) mc,
         dropGated (\<lambda>s. gatedSocket s \<and> \<not> ok (sSourcePath s)) sc,
         dropGated (\<lambda>c. gatedCredential c \<and> \<not> ok (cSourcePath c)) cc,
         (case pc of None \<Rightarrow> (None, []) | Some p \<Rightarrow> map_prod Some id (filterPorts ok p)))"
      using assms(1) unfolding FilterTrusted_def Let_def ok_def approved_def if_not_P[OF False] by (simp only: if_False)
    with assms(2) have q: "dropGated (\<lambda>m. gatedMount e ws m \<and> \<not> ok (mSourcePath m)) mc = (kmc, dmc)"
      "dropGated (\<lambda>s. gatedSocket s \<and> \<not> ok (sSourcePath s)) sc = (ksc, dsc)"
      "dropGated (\<lambda>c. gatedCredential c \<and> \<not> ok (cSourcePath c)) cc = (kcc, dcc)"
      "(case pc of None \<Rightarrow> (None, []) | Some p \<Rightarrow> map_prod Some id (filterPorts ok p)) = (kpc, dpc)" by simp_all
    have "kpc = map_option (\<lambda>p. fst (filterPorts ok p)) pc" using arg_cong[OF q(4), of fst] by (cases pc) simp_all
    with q(1-3)[THEN arg_cong, of fst] show ?thesis unfolding fst_dropGated fst_conv by simp
  qed
  then show "kmc = map_option (filter (\<lambda>m. \<not> (gatedMount e ws m \<and> \<not> ok (mSourcePath m)))) mc"
    "ksc = map_option (filter (\<lambda>s. \<not> (gatedSocket s \<and> \<not> ok (sSourcePath s)))) sc"
    "kcc = map_option (filter (\<lambda>c. \<not> (gatedCredential c \<and> \<not> ok (cSourcePath c)))) cc"
    "kpc = map_option (\<lambda>p. fst (filterPorts ok p)) pc" by blast+
qed

lemma filter_nest: "filter (\<lambda>x. f x = src) (filter g (filter (\<lambda>x. \<not> (g x \<and> \<not> ok (f x))) xs)) =
    (if ok src then filter (\<lambda>x. f x = src) (filter g xs) else [])"
  by (induction xs) auto

lemma comp_filter: "[h x. x \<leftarrow> xs, f x = src] = map h (filter (\<lambda>x. f x = src) xs)"
  by (induction xs) auto

lemma kept_requests:
  fixes ok :: "string \<Rightarrow> bool"
  shows "requests e (map_option (filter (\<lambda>m. \<not> (gatedMount e ws m \<and> \<not> ok (mSourcePath m)))) mc)
      (map_option (filter (\<lambda>s. \<not> (gatedSocket s \<and> \<not> ok (sSourcePath s)))) sc)
      (map_option (filter (\<lambda>c. \<not> (gatedCredential c \<and> \<not> ok (cSourcePath c)))) cc)
      (map_option (\<lambda>p. fst (filterPorts ok p)) pc) ws src =
    (if ok src then requests e mc sc cc pc ws src else [])"
proof -
  have m: "filter (\<lambda>m. mSourcePath m = src) (escapingUntrustedMounts e ws (map_option (filter (\<lambda>m. \<not> (gatedMount e ws m \<and> \<not> ok (mSourcePath m)))) mc)) =
      (if ok src then filter (\<lambda>m. mSourcePath m = src) (escapingUntrustedMounts e ws mc) else [])"
    by (cases mc) (simp_all only: escapingUntrustedMounts_def option.map option.case filter_nest filter.simps if_cancel)
  have s: "filter (\<lambda>m. sSourcePath m = src) (untrustedSockets (map_option (filter (\<lambda>m. \<not> (gatedSocket m \<and> \<not> ok (sSourcePath m)))) sc)) =
      (if ok src then filter (\<lambda>m. sSourcePath m = src) (untrustedSockets sc) else [])"
    by (cases sc) (simp_all only: untrustedSockets_def option.map option.case filter_nest filter.simps if_cancel)
  have c: "filter (\<lambda>m. cSourcePath m = src) (untrustedCredentials (map_option (filter (\<lambda>m. \<not> (gatedCredential m \<and> \<not> ok (cSourcePath m)))) cc)) =
      (if ok src then filter (\<lambda>m. cSourcePath m = src) (untrustedCredentials cc) else [])"
    by (cases cc) (simp_all only: untrustedCredentials_def option.map option.case filter_nest filter.simps if_cancel)
  have pp: "PcPorts (fst (filterPorts ok p)) = filter (\<lambda>m. \<not> (gatedPort m \<and> \<not> ok (pSourcePath m))) (PcPorts p)" for p
    by (simp add: filterPorts_def Let_def)
  have p: "filter (\<lambda>m. pSourcePath m = src) (untrustedPorts (map_option (\<lambda>p. fst (filterPorts ok p)) pc)) =
      (if ok src then filter (\<lambda>m. pSourcePath m = src) (untrustedPorts pc) else [])"
    by (cases pc) (simp_all only: untrustedPorts_def option.map option.case pp filter_nest filter.simps if_cancel)
  have d: "declaredPool (map_option (\<lambda>p. fst (filterPorts ok p)) pc) src = (if ok src then declaredPool pc src else 0)"
    by (cases pc) (auto simp: declaredPool_def filterPorts_def gatedPool_def Let_def)
  show ?thesis unfolding requests_def comp_filter m s c p d by simp
qed

text \<open>C22. Unless the user opted out, each source gets all of the host resources it asks for or none of
  them, and all of them only when its approval in the store is the fingerprint of exactly
  these requests; what is not gated is never dropped, and a refused pool falls back to the
  trusted one.\<close>

theorem filter_all_or_nothing:
  assumes "\<not> TrustAllViaEnv e"
    "FilterTrusted e mc sc cc pc ws w = ((kmc, dmc), (ksc, dsc), (kcc, dcc), (kpc, dpc))"
  shows "requests e kmc ksc kcc kpc ws src = (if approved e mc sc cc pc ws w src then requests e mc sc cc pc ws src else []) \<and>
    map_option (filter (\<lambda>m. \<not> gatedMount e ws m)) kmc = map_option (filter (\<lambda>m. \<not> gatedMount e ws m)) mc \<and>
    map_option (filter (\<lambda>s. \<not> gatedSocket s)) ksc = map_option (filter (\<lambda>s. \<not> gatedSocket s)) sc \<and>
    map_option (filter (\<lambda>c. \<not> gatedCredential c)) kcc = map_option (filter (\<lambda>c. \<not> gatedCredential c)) cc \<and>
    (\<forall>p. pc = Some p \<longrightarrow> (\<exists>q. kpc = Some q \<and>
       filter (\<lambda>x. \<not> gatedPort x) (PcPorts q) = filter (\<lambda>x. \<not> gatedPort x) (PcPorts p) \<and>
       PcPool q = (if gatedPool p \<and> \<not> approved e mc sc cc pc ws w (PcPoolSourcePath p) then PcPoolTrustedFallback p else PcPool p)))"
proof -
  note k = FilterTrusted_kept[OF assms]
  have f: "filter (\<lambda>x. \<not> g x) (filter (\<lambda>x. \<not> (g x \<and> \<not> h x)) xs) = filter (\<lambda>x. \<not> g x) xs" for g h :: "'q \<Rightarrow> bool" and xs
    by (induction xs) auto
  have o: "map_option (filter (\<lambda>x. \<not> g x)) (map_option (filter (\<lambda>x. \<not> (g x \<and> \<not> h x))) xs) = map_option (filter (\<lambda>x. \<not> g x)) xs"
    for g h :: "'q \<Rightarrow> bool" and xs by (cases xs) (simp_all only: option.map f)
  have p: "filter (\<lambda>x. \<not> gatedPort x) (PcPorts (fst (filterPorts ok p))) = filter (\<lambda>x. \<not> gatedPort x) (PcPorts p)" for ok p
  proof -
    have "PcPorts (fst (filterPorts ok p)) = filter (\<lambda>x. \<not> (gatedPort x \<and> \<not> ok (pSourcePath x))) (PcPorts p)"
      by (simp add: filterPorts_def Let_def)
    then show ?thesis by (simp only: f)
  qed
  have q: "PcPool (fst (filterPorts ok p)) = (if gatedPool p \<and> \<not> ok (PcPoolSourcePath p) then PcPoolTrustedFallback p else PcPool p)" for ok p
    by (simp add: filterPorts_def Let_def)
  show ?thesis unfolding k kept_requests o by (auto simp: p q)
qed

text \<open>The store after an approval.\<close>

lemma TrustSources_Inr:
  assumes "TrustSources e mc sc cc pc ws w = (Inr srcs, w1)" "src \<in> set srcs"
  shows "src \<in> set (gatedSources e mc sc cc pc ws) \<and>
    (\<exists>store u. saveTrustStore e (\<lambda>s. if s \<in> set (gatedSources e mc sc cc pc ws) then Some (fingerprintOf e mc sc cc pc ws s) else store s) w
       = (Inr u, w1))"
proof -
  let ?g = "gatedSources e mc sc cc pc ws"
  have "?g \<noteq> []" using assms by (auto simp: TrustSources_def)
  with assms obtain store where "thenA (saveTrustStore e (\<lambda>s. if s \<in> set ?g then Some (fingerprintOf e mc sc cc pc ws s) else store s))
      (retA (sort ?g)) w = (Inr srcs, w1)"
    by (auto simp: TrustSources_def Let_def split: sum.splits)
  then show ?thesis using assms(2) unfolding thenA_Inr by auto
qed

lemma same_fingerprint: "mset (requests e mc sc cc pc ws src) = mset (requests e mc' sc' cc' pc' ws' src') \<Longrightarrow>
    fingerprintOf e mc sc cc pc ws src = fingerprintOf e mc' sc' cc' pc' ws' src'"
proof -
  assume "mset (requests e mc sc cc pc ws src) = mset (requests e mc' sc' cc' pc' ws' src')"
  then have "mset (sort (map (request_line (Printable e)) (requests e mc sc cc pc ws src))) =
      mset (map (request_line (Printable e)) (requests e mc' sc' cc' pc' ws' src'))" by simp
  then show ?thesis unfolding fingerprint_requests by (metis properties_for_sort sorted_sort mset_sort)
qed


text \<open>C24. A mount of an untrusted source that reaches the session without an approval lies in the
  workspace: the elements of its path, links resolved, extend those of the workspace.\<close>

theorem kept_mounts_inside:
  assumes "FilterTrusted e (Some ms) sc cc pc ws w = ((Some kms, dms), rest)" "\<not> TrustAllViaEnv e"
    "m \<in> set kms" "mUntrusted m" "mHostPath m \<noteq> []" "\<not> approved e (Some ms) sc cc pc ws w (mSourcePath m)"
    "is_abs (realPath (Links e) ws)" "is_abs (realPath (Links e) (mHostPath m))"
  shows "m \<in> set ms \<and> (\<exists>zs. clean_parts (realPath (Links e) (mHostPath m)) = clean_parts (realPath (Links e) ws) @ zs)"
proof -
  obtain ksc dsc kcc dcc kpc dpc where "rest = ((ksc, dsc), (kcc, dcc), (kpc, dpc))" by (metis prod.exhaust)
  with assms(1) have F: "FilterTrusted e (Some ms) sc cc pc ws w = ((Some kms, dms), (ksc, dsc), (kcc, dcc), (kpc, dpc))" by simp
  from FilterTrusted_kept(1)[OF assms(2) F] assms(3) have "m \<in> set ms"
    "\<not> (gatedMount e ws m \<and> \<not> approved e (Some ms) sc cc pc ws w (mSourcePath m))" by auto
  with assms(4-6) have "isWithinWorkspace (realPath (Links e) ws) (realPath (Links e) (mHostPath m))"
    by (simp add: gatedMount_def hostEscapesWorkspace_def)
  with within_parts[OF assms(7,8)] \<open>m \<in> set ms\<close> show ?thesis by blast
qed

section \<open>An example\<close>

definition demoTrust :: "(string \<Rightarrow> (string \<rightharpoonup> string) option) trustctl" where
  "demoTrust = \<lparr>Links = \<lparr>EvalSymlinks = Some, IsSymlink = \<lambda>_. False, Readlink = \<lambda>_. None\<rparr>,
     Sha = \<lambda>x. CHR ''#'' # x, Printable = \<lambda>_. False, TrustEnv = [], TrustHome = Some ''/h'',
     DecodeStore = \<lambda>p w. Inr (w p), MkdirAll = \<lambda>_. retA (), CreateTemp = \<lambda>d w. (Inr (d @ ''/tmp''), w),
     EncodeStore = \<lambda>p m w. (Inr (), w(p := Some m)), CloseFile = \<lambda>_. retA (),
     RenameFile = \<lambda>a b w. (Inr (), w(b := w a)), RemoveFile = \<lambda>p w. (Inr (), w(p := None))\<rparr>"

definition demoEscape :: SessMount where
  "demoEscape = \<lparr>mHostPath = ''/etc'', mContainerPath = ''/x'', mDeviceName = ''mount-0'', mUseShift = False,
     mReadonly = True, mUntrusted = True, mSourcePath = ''/w/.coi/config.toml''\<rparr>"

lemma demo_store_path: "TrustStorePath demoTrust = Inr ''/h/.coi/trust.toml''" "path_dir ''/h/.coi/trust.toml'' = ''/h/.coi''"
  by code_simp+

lemma demo_save: "saveTrustStore demoTrust m w = (Inr (), w(''/h/.coi/tmp'' := None, ''/h/.coi/trust.toml'' := Some m))"
  unfolding saveTrustStore_def demo_store_path
  by (simp add: demoTrust_def bindA_def thenA_def tryA_def demo_store_path fun_upd_twist)

lemma demo_load: "loadTrustStore demoTrust w = Inr (case w ''/h/.coi/trust.toml'' of None \<Rightarrow> Map.empty | Some m \<Rightarrow> m)"
  unfolding loadTrustStore_def demo_store_path by (simp add: demoTrust_def)

lemma demo_gated: "gatedSources demoTrust (Some [demoEscape]) None None None ''/w'' = [''/w/.coi/config.toml'']"
  unfolding demoTrust_def by code_simp

lemma demo_trust: "\<exists>w1. TrustSources demoTrust (Some [demoEscape]) None None None ''/w'' Map.empty = (Inr [''/w/.coi/config.toml''], w1)"
  by (simp add: TrustSources_def demo_gated demo_load thenA_def bindA_def demo_save)

lemma demo_env: "\<not> TrustAllViaEnv demoTrust"
  unfolding demoTrust_def by code_simp

lemma filter_all_or_nothing_witness:
  "requests demoTrust (fst (fst (FilterTrusted demoTrust (Some [demoEscape]) None None None ''/w'' Map.empty))) None None None
     ''/w'' ''/w/.coi/config.toml'' = []"
proof -
  have n: "\<not> approved demoTrust (Some [demoEscape]) None None None ''/w'' Map.empty src" for src
    by (simp add: approved_def trustedSources_def demo_load)
  obtain kmc dmc ksc dsc kcc dcc kpc dpc where
    F: "FilterTrusted demoTrust (Some [demoEscape]) None None None ''/w'' Map.empty = ((kmc, dmc), (ksc, dsc), (kcc, dcc), (kpc, dpc))"
    by (metis prod.exhaust)
  have k: "ksc = None" "kcc = None" "kpc = None" using FilterTrusted_kept(2-4)[OF demo_env F] by simp_all
  from filter_all_or_nothing[OF demo_env F, of "''/w/.coi/config.toml''"] n F k show ?thesis by simp
qed


definition demoInside :: SessMount where
  "demoInside = demoEscape\<lparr>mHostPath := ''/w/data''\<rparr>"

lemma demo_inside_ungated: "\<not> gatedMount demoTrust ''/w'' demoInside" "realPath (Links demoTrust) ''/w'' = ''/w''"
  "realPath (Links demoTrust) ''/w/data'' = ''/w/data''"
  unfolding demoTrust_def demoInside_def demoEscape_def by code_simp+

lemma kept_mounts_inside_witness:
  "\<exists>zs. clean_parts (realPath (Links demoTrust) ''/w/data'') = clean_parts (realPath (Links demoTrust) ''/w'') @ zs"
proof -
  have u: "escapingUntrustedMounts demoTrust ''/w'' (Some [demoInside]) = []"
    using demo_inside_ungated(1) by (simp add: escapingUntrustedMounts_def)
  have F: "FilterTrusted demoTrust (Some [demoInside]) None None None ''/w'' Map.empty = ((Some [demoInside], []), (None, []), (None, []), (None, []))"
    using demo_env u by (simp add: FilterTrusted_def untrustedSockets_def untrustedCredentials_def untrustedPorts_def untrustedPool_def)
  have n: "\<not> approved demoTrust (Some [demoInside]) None None None ''/w'' Map.empty src" for src
    by (simp add: approved_def trustedSources_def demo_load)
  have m: "mUntrusted demoInside" "mHostPath demoInside = ''/w/data''" by (simp_all add: demoInside_def demoEscape_def)
  show ?thesis using kept_mounts_inside[OF F demo_env _ m(1) _ n] m(2) demo_inside_ungated(2,3)
    by (simp add: is_abs_def has_prefix_def)
qed

end
