(* ===== verification/GoJson.thy ===== *)
theory GoJson
  imports GoUtf8
begin

text \<open>
  The part of Go's \<open>encoding/json\<close> that the sources use: the scanner and the decoder's
  conversion of a document into a value, the decoding of string and boolean struct fields,
  and the compact encoder. Keys of struct fields are folded on ASCII letters.
\<close>

section \<open>Values\<close>

datatype json = JNull | JBool bool | JNum string | JStr string | JArr "json list" | JObj "(string \<times> json) list"

section \<open>Scanning\<close>

definition json_ws :: "char \<Rightarrow> bool" where
  "json_ws c \<longleftrightarrow> c = CHR 0x20 \<or> c = CHR 0x09 \<or> c = CHR 0x0A \<or> c = CHR 0x0D"

definition skip_ws :: "string \<Rightarrow> string" where
  "skip_ws s = dropWhile json_ws s"

definition is_hex :: "char \<Rightarrow> bool" where
  "is_hex c \<longleftrightarrow> is_digit c \<or> CHR ''a'' \<le> c \<and> c \<le> CHR ''f'' \<or> CHR ''A'' \<le> c \<and> c \<le> CHR ''F''"

definition hex_digit :: "char \<Rightarrow> nat" where
  "hex_digit c = (if is_digit c then byte c - 0x30 else if CHR ''a'' \<le> c then byte c - 0x57 else byte c - 0x37)"

text \<open>The bytes after a backslash: a one-letter escape or \<open>u\<close> with four hexadecimal digits.\<close>

fun lex_escape :: "string \<Rightarrow> (string \<times> string) option" where
  "lex_escape (c # r) = (if c \<in> set [CHR ''b'', CHR ''f'', CHR ''n'', CHR ''r'', CHR ''t'', CHR 0x5C, CHR ''/'', CHR 0x22]
     then Some ([c], r)
     else if c = CHR ''u'' \<and> 4 \<le> length r \<and> list_all is_hex (take 4 r) then Some (c # take 4 r, drop 4 r) else None)"
| "lex_escape [] = None"

lemma lex_escape_length: "lex_escape s = Some (e, r) \<Longrightarrow> length r < length s"
  by (cases s) (auto split: if_splits)

text \<open>The raw text of a string literal after its opening quote, and what follows the closing one.\<close>

function lex_string :: "string \<Rightarrow> (string \<times> string) option" where
  "lex_string s = (case s of [] \<Rightarrow> None
     | c # r \<Rightarrow> if c = CHR 0x22 then Some ([], r)
         else if c = CHR 0x5C then (case lex_escape r of None \<Rightarrow> None
           | Some (e, r') \<Rightarrow> map_option (map_prod (\<lambda>t. c # e @ t) id) (lex_string r'))
         else if byte c < 0x20 then None
         else map_option (map_prod ((#) c) id) (lex_string r))"
  by auto
termination
  by (relation "measure length") (auto dest: lex_escape_length)

declare lex_string.simps [simp del]

definition lex_digits :: "string \<Rightarrow> string \<times> string" where
  "lex_digits s = (takeWhile is_digit s, dropWhile is_digit s)"

text \<open>The fraction and the exponent of a number: \<open>None\<close> when a digit is missing.\<close>

definition lex_frac :: "string \<Rightarrow> (string \<times> string) option" where
  "lex_frac s = (case s of c # r \<Rightarrow> if c = CHR ''.'' then
       (case lex_digits r of (d, r') \<Rightarrow> if d = [] then None else Some (c # d, r')) else Some ([], s)
     | [] \<Rightarrow> Some ([], s))"

definition lex_exp :: "string \<Rightarrow> (string \<times> string) option" where
  "lex_exp s = (case s of c # r \<Rightarrow> if c = CHR ''e'' \<or> c = CHR ''E'' then
       (let sign = (case r of x # _ \<Rightarrow> if x = CHR ''+'' \<or> x = CHR ''-'' then [x] else [] | [] \<Rightarrow> [])
        in (case lex_digits (drop (length sign) r) of (d, r') \<Rightarrow> if d = [] then None else Some (c # sign @ d, r')))
       else Some ([], s)
     | [] \<Rightarrow> Some ([], s))"

definition lex_number :: "string \<Rightarrow> (string \<times> string) option" where
  "lex_number s = (let sign = (case s of c # _ \<Rightarrow> if c = CHR ''-'' then [c] else [] | [] \<Rightarrow> []);
       s1 = drop (length sign) s;
       int = (case s1 of c # _ \<Rightarrow> if c = CHR ''0'' then [c] else fst (lex_digits s1) | [] \<Rightarrow> [])
     in if int = [] then None
        else (case lex_frac (drop (length int) s1) of None \<Rightarrow> None
          | Some (fr, r) \<Rightarrow> (case lex_exp r of None \<Rightarrow> None
              | Some (ex, r') \<Rightarrow> Some (sign @ int @ fr @ ex, r'))))"

section \<open>Unquoting\<close>

text \<open>\<open>utf8.EncodeRune\<close>\<close>

definition utf8_encode :: "nat \<Rightarrow> string" where
  "utf8_encode v = (let v = (if 0x10FFFF < v \<or> 0xD800 \<le> v \<and> v \<le> 0xDFFF then 0xFFFD else v) in
     if v < 0x80 then [char_of v]
     else if v < 0x800 then [char_of (0xC0 + v div 64), char_of (0x80 + v mod 64)]
     else if v < 0x10000 then [char_of (0xE0 + v div 4096), char_of (0x80 + v div 64 mod 64), char_of (0x80 + v mod 64)]
     else [char_of (0xF0 + v div 262144), char_of (0x80 + v div 4096 mod 64),
           char_of (0x80 + v div 64 mod 64), char_of (0x80 + v mod 64)])"

definition rune_error :: string where "rune_error = utf8_encode 0xFFFD"

definition hex_val4 :: "string \<Rightarrow> nat" where
  "hex_val4 s = foldl (\<lambda>a c. 16 * a + hex_digit c) 0 (take 4 s)"

definition surrogate :: "nat \<Rightarrow> bool" where
  "surrogate v \<longleftrightarrow> 0xD800 \<le> v \<and> v < 0xE000"

text \<open>\<open>getu4\<close>: the code unit of an escape at the start of the string.\<close>

definition getu4 :: "string \<Rightarrow> nat option" where
  "getu4 s = (if 6 \<le> length s \<and> take 2 s = [CHR 0x5C, CHR ''u''] \<and> list_all is_hex (take 4 (drop 2 s))
     then Some (hex_val4 (drop 2 s)) else None)"

definition unescape_char :: "char \<Rightarrow> char" where
  "unescape_char c = (if c = CHR ''b'' then CHR 0x08 else if c = CHR ''f'' then CHR 0x0C
     else if c = CHR ''n'' then CHR 0x0A else if c = CHR ''r'' then CHR 0x0D
     else if c = CHR ''t'' then CHR 0x09 else c)"

text \<open>\<open>unquote\<close> on the raw text of a literal.\<close>

function unquote_raw :: "string \<Rightarrow> string" where
  "unquote_raw s = (case s of [] \<Rightarrow> []
     | c # r \<Rightarrow> if c = CHR 0x5C then
         (case getu4 s of Some u \<Rightarrow>
            if surrogate u then
              (case getu4 (drop 6 s) of
                 Some v \<Rightarrow> if u < 0xDC00 \<and> 0xDC00 \<le> v \<and> v < 0xE000
                   then utf8_encode (0x10000 + (u - 0xD800) * 0x400 + (v - 0xDC00)) @ unquote_raw (drop 12 s)
                   else rune_error @ unquote_raw (drop 6 s)
               | None \<Rightarrow> rune_error @ unquote_raw (drop 6 s))
            else utf8_encode u @ unquote_raw (drop 6 s)
          | None \<Rightarrow> (case r of [] \<Rightarrow> [] | e # r' \<Rightarrow> unescape_char e # unquote_raw r'))
         else if rune_len s = 0 then rune_error @ unquote_raw r
         else take (rune_len s) s @ unquote_raw (drop (rune_len s) s))"
  by auto
termination
proof (relation "measure length", goal_cases)
  case (6 s c r)
  then show ?case by simp
qed (auto simp: getu4_def split: if_splits)

declare unquote_raw.simps [simp del]

section \<open>Documents\<close>

definition maxNestingDepth :: nat where "maxNestingDepth = 10000"

text \<open>
  One value and what follows it, with \<open>d\<close> the number of enclosing arrays and objects. The
  first argument is fuel; \<open>json_parse\<close> gives what every document needs at most.
\<close>

fun jvalue :: "nat \<Rightarrow> nat \<Rightarrow> string \<Rightarrow> (json \<times> string) option"
and jelems :: "nat \<Rightarrow> nat \<Rightarrow> string \<Rightarrow> (json list \<times> string) option"
and jmembers :: "nat \<Rightarrow> nat \<Rightarrow> string \<Rightarrow> ((string \<times> json) list \<times> string) option" where
  "jvalue 0 d s = None"
| "jvalue (Suc n) d s = (case skip_ws s of [] \<Rightarrow> None
     | c # r \<Rightarrow>
       if c = CHR ''{'' then (if maxNestingDepth \<le> d then None
         else case skip_ws r of [] \<Rightarrow> None
           | x # r' \<Rightarrow> if x = CHR ''}'' then Some (JObj [], r')
               else map_option (map_prod JObj id) (jmembers n (Suc d) (x # r')))
       else if c = CHR ''['' then (if maxNestingDepth \<le> d then None
         else case skip_ws r of [] \<Rightarrow> None
           | x # r' \<Rightarrow> if x = CHR '']'' then Some (JArr [], r')
               else map_option (map_prod JArr id) (jelems n (Suc d) (x # r')))
       else if c = CHR 0x22 then map_option (map_prod (JStr \<circ> unquote_raw) id) (lex_string r)
       else if has_prefix (c # r) ''true'' then Some (JBool True, drop 4 (c # r))
       else if has_prefix (c # r) ''false'' then Some (JBool False, drop 5 (c # r))
       else if has_prefix (c # r) ''null'' then Some (JNull, drop 4 (c # r))
       else map_option (map_prod JNum id) (lex_number (c # r)))"
| "jelems 0 d s = None"
| "jelems (Suc n) d s = (case jvalue n d s of None \<Rightarrow> None
     | Some (v, r) \<Rightarrow> (case skip_ws r of [] \<Rightarrow> None
         | c # r' \<Rightarrow> if c = CHR '','' then map_option (map_prod ((#) v) id) (jelems n d r')
             else if c = CHR '']'' then Some ([v], r') else None))"
| "jmembers 0 d s = None"
| "jmembers (Suc n) d s = (case skip_ws s of [] \<Rightarrow> None
     | q # s' \<Rightarrow> if q \<noteq> CHR 0x22 then None
       else (case lex_string s' of None \<Rightarrow> None
         | Some (k, r) \<Rightarrow> (case skip_ws r of [] \<Rightarrow> None
             | c # r1 \<Rightarrow> if c \<noteq> CHR '':'' then None
               else (case jvalue n d r1 of None \<Rightarrow> None
                 | Some (v, r2) \<Rightarrow> (case skip_ws r2 of [] \<Rightarrow> None
                     | x # r3 \<Rightarrow> if x = CHR '','' then map_option (map_prod ((#) (unquote_raw k, v)) id) (jmembers n d r3)
                         else if x = CHR ''}'' then Some ([(unquote_raw k, v)], r3) else None)))))"

text \<open>A whole document: one value, with nothing but white space after it.\<close>

definition json_parse :: "string \<Rightarrow> json option" where
  "json_parse s = (case jvalue (2 * length s + 1) 0 s of None \<Rightarrow> None
     | Some (v, r) \<Rightarrow> if skip_ws r = [] then Some v else None)"

section \<open>Decoding into structs\<close>

text \<open>
  A field of a struct takes the value of every member whose key is its name up to case, the
  last one counts; \<open>null\<close> leaves the field as it is, another type is an error.
\<close>

definition key_is :: "string \<Rightarrow> string \<Rightarrow> bool" where
  "key_is name k \<longleftrightarrow> to_lower k = to_lower name"

definition field_with :: "('a \<Rightarrow> json \<Rightarrow> 'a option) \<Rightarrow> 'a \<Rightarrow> string \<Rightarrow> (string \<times> json) list \<Rightarrow> 'a option" where
  "field_with conv init name ms = fold (\<lambda>(k, v) acc. case acc of None \<Rightarrow> None
     | Some a \<Rightarrow> if key_is name k then conv a v else Some a) ms (Some init)"

definition to_str :: "string \<Rightarrow> json \<Rightarrow> string option" where
  "to_str old v = (case v of JStr s \<Rightarrow> Some s | JNull \<Rightarrow> Some old | _ \<Rightarrow> None)"

definition to_bool :: "bool \<Rightarrow> json \<Rightarrow> bool option" where
  "to_bool old v = (case v of JBool b \<Rightarrow> Some b | JNull \<Rightarrow> Some old | _ \<Rightarrow> None)"

definition field_str :: "string \<Rightarrow> (string \<times> json) list \<Rightarrow> string option" where
  "field_str name ms = field_with to_str [] name ms"

definition field_bool :: "string \<Rightarrow> (string \<times> json) list \<Rightarrow> bool option" where
  "field_bool name ms = field_with to_bool False name ms"

text \<open>A slice of structs: \<open>null\<close> is the nil slice, a \<open>null\<close> element the zero struct.\<close>

definition struct_members :: "json \<Rightarrow> (string \<times> json) list option" where
  "struct_members v = (case v of JObj ms \<Rightarrow> Some ms | JNull \<Rightarrow> Some [] | _ \<Rightarrow> None)"

fun mapO :: "('a \<Rightarrow> 'b option) \<Rightarrow> 'a list \<Rightarrow> 'b list option" where
  "mapO f [] = Some []"
| "mapO f (x # xs) = (case f x of None \<Rightarrow> None | Some y \<Rightarrow> map_option ((#) y) (mapO f xs))"

definition to_slice :: "(json \<Rightarrow> 'a option) \<Rightarrow> json \<Rightarrow> 'a list option" where
  "to_slice f v = (case v of JArr vs \<Rightarrow> mapO f vs | JNull \<Rightarrow> Some [] | _ \<Rightarrow> None)"

text \<open>\<open>json.Unmarshal\<close> into a slice of structs, the struct read off its members.\<close>

definition json_structs :: "((string \<times> json) list \<Rightarrow> 'a option) \<Rightarrow> string \<Rightarrow> 'a list result" where
  "json_structs f s = (case json_parse s of None \<Rightarrow> Inl (ExtErr ''invalid character in JSON input'')
     | Some v \<Rightarrow> (case to_slice (\<lambda>x. Option.bind (struct_members x) f) v of
         None \<Rightarrow> Inl (ExtErr ''json: cannot unmarshal value into Go struct'') | Some xs \<Rightarrow> Inr xs))"

end
