(* ===== verification/Incus.thy ===== *)
theory Incus
  imports GoJson
begin

text \<open>
  The \<open>incus\<close> command line, \<open>internal/container/commands.go\<close>: how a command is built and quoted
  for \<open>sh -c\<close>, the wrappers that run it and what each makes of its outcome, the container,
  image, configuration and snapshot operations on top of them. The shell is a parameter
  that may do anything with the world and give any outcome.

  The main lemma is that a POSIX shell splits the string the program builds into exactly the
  arguments it was given, whatever they contain.
\<close>

section \<open>Outcomes of a subprocess\<close>

text \<open>
  A finished subprocess: \<open>Exited code text\<close> is an \<open>*exec.ExitError\<close> with the text of its process
  state, \<open>NotRun msg\<close> any other error of \<open>cmd.Run\<close> (no shell, a cancelled context).
\<close>

datatype status = Finished | Exited int string | NotRun string

record shres =
  shOut :: string
  shErr :: string
  shAll :: string
  shStatus :: status

record 'w incus =
  IncusProject :: string
  CodeUID :: int
  HostUID :: int
  Sh :: "string \<Rightarrow> 'w \<Rightarrow> shres \<times> 'w"
  Now :: "'w \<Rightarrow> int"
  Sleep :: "int \<Rightarrow> 'w \<Rightarrow> 'w"

fun runErr :: "status \<Rightarrow> gerr option" where
  "runErr Finished = None"
| "runErr (Exited c t) = Some (ExtErr t)"
| "runErr (NotRun m) = Some (ExtErr m)"

text \<open>\<open>ExitError.Error()\<close>\<close>

definition exitErrorText :: "int \<Rightarrow> string \<Rightarrow> string" where
  "exitErrorText code stderr =
     (if stderr \<noteq> [] then ''exit status '' @ itoa_int code @ '': '' @ stderr else ''exit status '' @ itoa_int code)"

fun toExitError :: "status \<Rightarrow> string \<Rightarrow> gerr option" where
  "toExitError Finished stderr = None"
| "toExitError (Exited c t) stderr = Some (ExtErr (exitErrorText c stderr))"
| "toExitError (NotRun m) stderr = Some (ExtErr m)"

text \<open>The early return of a caller: \<open>out, err := ...; if err != nil { return err }\<close>.\<close>

definition doneOr :: "'a \<Rightarrow> gerr option \<Rightarrow> 'a result" where
  "doneOr x err = (case err of None \<Rightarrow> Inr x | Some e \<Rightarrow> Inl e)"

section \<open>Quoting\<close>

definition shell_plain :: "char \<Rightarrow> bool" where
  "shell_plain c \<longleftrightarrow> is_alnum c \<or> c \<in> set ''@%+=:,./_-''"

definition shellQuote :: "string \<Rightarrow> string" where
  "shellQuote s = (if s \<noteq> [] \<and> list_all shell_plain s then s
     else CHR 0x27 # concat (map (\<lambda>c. if c = CHR 0x27 then [CHR 0x27, CHR 0x22, CHR 0x27, CHR 0x22, CHR 0x27] else [c]) s)
       @ [CHR 0x27])"

definition buildIncusCommand :: "'w incus \<Rightarrow> string list \<Rightarrow> string" where
  "buildIncusCommand I args =
     ''incus '' @ str_join '' '' (map shellQuote ([''--project'', IncusProject I] @ args))"

section \<open>Running a command\<close>

definition runIncus :: "'w incus \<Rightarrow> string list \<Rightarrow> 'w \<Rightarrow> shres \<times> 'w" where
  "runIncus I args = Sh I (buildIncusCommand I args)"

definition IncusExec :: "'w incus \<Rightarrow> string list \<Rightarrow> ('w, unit) act" where
  "IncusExec I args w = (case runIncus I args w of (r, w') \<Rightarrow> (doneOr () (runErr (shStatus r)), w'))"

definition quietErr :: "gerr \<Rightarrow> string \<Rightarrow> gerr" where
  "quietErr e msg = (if msg \<noteq> [] then ExtErr (err_text e @ '': '' @ msg) else e)"

definition IncusExecQuiet :: "'w incus \<Rightarrow> string list \<Rightarrow> ('w, unit) act" where
  "IncusExecQuiet I args w = (case runIncus I args w of (r, w') \<Rightarrow>
     (doneOr () (map_option (\<lambda>e. quietErr e (trim_space (shErr r))) (runErr (shStatus r))), w'))"

definition ImportImage :: "'w incus \<Rightarrow> string \<Rightarrow> string \<Rightarrow> string \<Rightarrow> ('w, unit) act" where
  "ImportImage I lxdTar squashfs alias w =
     (case runIncus I [''image'', ''import'', lxdTar, squashfs, ''--alias'', alias] w of (r, w') \<Rightarrow>
       (doneOr () (map_option (\<lambda>e. ExtErr (''incus image import failed: '' @ err_text e @ '' (output: '' @
          trim_space (shAll r) @ '')'')) (runErr (shStatus r))), w'))"

text \<open>The output functions return what was printed also when the command failed.\<close>

definition outputOf :: "'w incus \<Rightarrow> string list \<Rightarrow> 'w \<Rightarrow> (string \<times> gerr option) \<times> 'w" where
  "outputOf I args w = (case runIncus I args w of (r, w') \<Rightarrow>
     ((trim_space (shOut r), toExitError (shStatus r) (trim_space (shErr r))), w'))"

definition IncusOutput :: "'w incus \<Rightarrow> string list \<Rightarrow> ('w, string) act" where
  "IncusOutput I args w = (case outputOf I args w of ((out, err), w') \<Rightarrow> (doneOr out err, w'))"

definition IncusOutputRaw :: "'w incus \<Rightarrow> string list \<Rightarrow> ('w, string) act" where
  "IncusOutputRaw I args w = (case runIncus I args w of (r, w') \<Rightarrow>
     (doneOr (shOut r) (toExitError (shStatus r) (trim_space (shErr r))), w'))"

definition IncusOutputWithStderr :: "'w incus \<Rightarrow> string list \<Rightarrow> 'w \<Rightarrow> (string \<times> gerr option) \<times> 'w" where
  "IncusOutputWithStderr I args w = (case runIncus I args w of (r, w') \<Rightarrow>
     ((trim_space (shAll r), toExitError (shStatus r) []), w'))"

definition IncusExecStreamed :: "'w incus \<Rightarrow> string list \<Rightarrow> ('w, unit) act" where
  "IncusExecStreamed I args w = (case runIncus I args w of (r, w') \<Rightarrow> (doneOr () (toExitError (shStatus r) []), w'))"

definition IncusFilePush :: "'w incus \<Rightarrow> string \<Rightarrow> string \<Rightarrow> ('w, unit) act" where
  "IncusFilePush I source dest = IncusExec I [''file'', ''push'', source, dest]"

definition IncusFilePushWithOwner :: "'w incus \<Rightarrow> string \<Rightarrow> string \<Rightarrow> int \<Rightarrow> int \<Rightarrow> string \<Rightarrow> ('w, unit) act" where
  "IncusFilePushWithOwner I source dest uid gid mode =
     IncusExec I [''file'', ''push'', ''--uid'', itoa_int uid, ''--gid'', itoa_int gid, ''--mode'', mode, source, dest]"

section \<open>Configuration and devices\<close>

definition ConfigSet :: "'w incus \<Rightarrow> string \<Rightarrow> string \<Rightarrow> string \<Rightarrow> ('w, unit) act" where
  "ConfigSet I c key value = IncusExec I [''config'', ''set'', c, key @ ''='' @ value]"

definition ConfigGet :: "'w incus \<Rightarrow> string \<Rightarrow> string \<Rightarrow> 'w \<Rightarrow> (string \<times> gerr option) \<times> 'w" where
  "ConfigGet I c key w = (case outputOf I [''config'', ''get'', c, key] w of ((out, err), w') \<Rightarrow> ((trim_space out, err), w'))"

definition ConfigUnset :: "'w incus \<Rightarrow> string \<Rightarrow> string \<Rightarrow> ('w, unit) act" where
  "ConfigUnset I c key = IncusExec I [''config'', ''unset'', c, key]"

definition ConfigShow :: "'w incus \<Rightarrow> string \<Rightarrow> bool \<Rightarrow> ('w, string) act" where
  "ConfigShow I c expanded = IncusOutput I ([''config'', ''show''] @ (if expanded then [''--expanded''] else []) @ [c])"

text \<open>Adding a device that is there already is no error; only an exit status counts, not a shell that did not run.\<close>

definition DeviceAdd :: "'w incus \<Rightarrow> string \<Rightarrow> string list \<Rightarrow> 'w \<Rightarrow> (string \<times> gerr option) \<times> 'w" where
  "DeviceAdd I c deviceArgs w = (case runIncus I ([''config'', ''device'', ''add'', c] @ deviceArgs) w of (r, w') \<Rightarrow>
     (let out = trim_space (shAll r) in
      case shStatus r of Exited n t \<Rightarrow>
        if str_contains (to_lower out) ''already'' then ((out, None), w')
        else ((out, toExitError (shStatus r) []), w')
      | _ \<Rightarrow> ((out, toExitError (shStatus r) []), w')))"

definition DeviceSet :: "'w incus \<Rightarrow> string \<Rightarrow> string \<Rightarrow> string \<Rightarrow> 'w \<Rightarrow> (string \<times> gerr option) \<times> 'w" where
  "DeviceSet I c device keyValue = IncusOutputWithStderr I [''config'', ''device'', ''set'', c, device, keyValue]"

section \<open>Containers and images\<close>

definition StopContainer :: "'w incus \<Rightarrow> string \<Rightarrow> ('w, unit) act" where
  "StopContainer I c = IncusExec I [''stop'', c, ''--force'']"

definition StopContainerQuiet :: "'w incus \<Rightarrow> string \<Rightarrow> bool \<Rightarrow> 'w \<Rightarrow> (string \<times> gerr option) \<times> 'w" where
  "StopContainerQuiet I c force = outputOf I ([''stop'', c] @ (if force then [''--force''] else []))"

definition IsNotFoundErr :: "gerr \<Rightarrow> bool" where
  "IsNotFoundErr e \<longleftrightarrow> str_contains (to_lower (err_text e)) ''instance not found''"

definition DeleteContainer :: "'w incus \<Rightarrow> string \<Rightarrow> ('w, unit) act" where
  "DeleteContainer I c = IncusExecQuiet I [''delete'', c, ''--force'']"

definition instanceFields :: "(string \<times> json) list \<Rightarrow> (string \<times> string) option" where
  "instanceFields ms = Option.bind (field_str ''name'' ms) (\<lambda>n. map_option (Pair n) (field_str ''status'' ms))"

definition ContainerRunning :: "'w incus \<Rightarrow> string \<Rightarrow> ('w, bool) act" where
  "ContainerRunning I c =
     bindA (IncusOutput I [''list'', c, ''--format=json'']) (\<lambda>output.
     bindA (liftA (json_structs instanceFields output)) (\<lambda>containers.
       retA ((c, ''Running'') \<in> set containers)))"

text \<open>\<open>running, _ := ContainerRunning(name)\<close>: false when it failed.\<close>

definition isRunning :: "'w incus \<Rightarrow> string \<Rightarrow> ('w, bool) act" where
  "isRunning I c = bindA (tryA (ContainerRunning I c)) (\<lambda>r. retA (r = Inr True))"

text \<open>The leftmost match of the regular expression \<open>fingerprint:\s*([a-f0-9]+)\<close>; \<open>\s\<close> is without the vertical tab.\<close>

definition fp_hex :: "char \<Rightarrow> bool" where
  "fp_hex c \<longleftrightarrow> is_digit c \<or> CHR ''a'' \<le> c \<and> c \<le> CHR ''f''"

definition fp_space :: "char \<Rightarrow> bool" where
  "fp_space c \<longleftrightarrow> is_space c \<and> c \<noteq> CHR 0x0B"

fun findFingerprint :: "string \<Rightarrow> string option" where
  "findFingerprint [] = None"
| "findFingerprint (c # s) = (let fp = takeWhile fp_hex (dropWhile fp_space (drop 12 (c # s))) in
     if has_prefix (c # s) ''fingerprint:'' \<and> fp \<noteq> [] then Some fp else findFingerprint s)"

text \<open>The fingerprint is also returned when only the cleanup failed.\<close>

definition PublishContainer :: "'w incus \<Rightarrow> string \<Rightarrow> string \<Rightarrow> string \<Rightarrow> string \<Rightarrow> ('w, string \<times> gerr option) act" where
  "PublishContainer I c aliasName description compression =
     bindA (isRunning I c) (\<lambda>running.
     thenA (if running then StopContainer I c else retA ())
    (bindA (IncusOutput I ([''publish'', c, ''--alias'', aliasName] @
         (if compression \<noteq> [] then [''--compression'', compression] else []) @
         (if description \<noteq> [] then [''description='' @ description] else []))) (\<lambda>output.
       case findFingerprint output of
         None \<Rightarrow> failA (Errorf ''could not extract fingerprint from output'' [])
       | Some fp \<Rightarrow> bindA (tryA (DeleteContainer I c)) (\<lambda>r. retA (fp, case r of Inl e \<Rightarrow> Some e | Inr _ \<Rightarrow> None)))))"

definition DeleteImage :: "'w incus \<Rightarrow> string \<Rightarrow> ('w, unit) act" where
  "DeleteImage I aliasName = IncusExecQuiet I [''image'', ''delete'', aliasName]"

definition imageAliases :: "(string \<times> json) list \<Rightarrow> string list option" where
  "imageAliases ms = field_with (\<lambda>old v. to_slice (\<lambda>x. Option.bind (struct_members x) (field_str ''name'')) v) [] ''aliases'' ms"

definition ImageExists :: "'w incus \<Rightarrow> string \<Rightarrow> ('w, bool) act" where
  "ImageExists I aliasName =
     bindA (IncusOutput I [''image'', ''list'', ''--format=json'']) (\<lambda>output.
     bindA (liftA (json_structs imageAliases output)) (\<lambda>images.
       retA (\<exists>als \<in> set images. aliasName \<in> set als)))"

text \<open>The pattern of \<open>ListContainers\<close> is compiled by Go's \<open>regexp\<close>: \<open>re\<close> is its matcher, or the error.\<close>

definition ListContainers :: "'w incus \<Rightarrow> (string \<Rightarrow> bool) result \<Rightarrow> ('w, string list) act" where
  "ListContainers I re =
     bindA (IncusOutput I [''list'', ''--format=json'']) (\<lambda>output.
     bindA (liftA (json_structs (field_str ''name'') output)) (\<lambda>containers.
     bindA (liftA (wrapE ''invalid pattern'' re)) (\<lambda>match.
       retA (filter match containers))))"

section \<open>Snapshots\<close>

definition statefulFlag :: "bool \<Rightarrow> string list" where
  "statefulFlag stateful = (if stateful then [''--stateful''] else [])"

definition SnapshotCreate :: "'w incus \<Rightarrow> string \<Rightarrow> string \<Rightarrow> bool \<Rightarrow> ('w, unit) act" where
  "SnapshotCreate I c snap stateful = IncusExec I ([''snapshot'', ''create'', c, snap] @ statefulFlag stateful)"

definition SnapshotList :: "'w incus \<Rightarrow> string \<Rightarrow> ('w, string) act" where
  "SnapshotList I c = IncusOutput I [''snapshot'', ''list'', c, ''--format=json'']"

definition SnapshotRestore :: "'w incus \<Rightarrow> string \<Rightarrow> string \<Rightarrow> bool \<Rightarrow> ('w, unit) act" where
  "SnapshotRestore I c snap stateful = IncusExec I ([''snapshot'', ''restore'', c, snap] @ statefulFlag stateful)"

definition SnapshotDelete :: "'w incus \<Rightarrow> string \<Rightarrow> string \<Rightarrow> ('w, unit) act" where
  "SnapshotDelete I c snap = IncusExec I [''snapshot'', ''delete'', c, snap]"

section \<open>What the shell makes of a command\<close>

text \<open>
  Word splitting of a POSIX shell for a command without expansions: \<open>None\<close> as soon as a
  character with another meaning stands outside quotes, so \<open>Some ws\<close> means the shell runs
  one simple command with exactly these words. A command line holds no NUL.
\<close>

datatype quoting = Unquoted | Single | Double

definition double_special :: "char \<Rightarrow> bool" where
  "double_special c \<longleftrightarrow> c = CHR 0x24 \<or> c = CHR 0x60 \<or> c = CHR 0x5C"

fun sh_words :: "quoting \<Rightarrow> string option \<Rightarrow> string \<Rightarrow> string list option" where
  "sh_words Unquoted w [] = Some (case w of None \<Rightarrow> [] | Some x \<Rightarrow> [x])"
| "sh_words _ w [] = None"
| "sh_words q w (c # s) = (let x = (case w of None \<Rightarrow> [] | Some x \<Rightarrow> x) in
     if c = CHR 0x00 then None
     else case q of
       Unquoted \<Rightarrow>
         if c = CHR 0x20 then map_option (\<lambda>ws. case w of None \<Rightarrow> ws | Some x \<Rightarrow> x # ws) (sh_words Unquoted None s)
         else if c = CHR 0x27 then sh_words Single (Some x) s
         else if c = CHR 0x22 then sh_words Double (Some x) s
         else if shell_plain c then sh_words Unquoted (Some (x @ [c])) s
         else None
     | Single \<Rightarrow> if c = CHR 0x27 then sh_words Unquoted w s else sh_words Single (Some (x @ [c])) s
     | Double \<Rightarrow> if c = CHR 0x22 then sh_words Unquoted w s
         else if double_special c then None else sh_words Double (Some (x @ [c])) s)"

lemma shell_plain_ordinary: "shell_plain c \<Longrightarrow> c \<noteq> CHR 0x00 \<and> c \<noteq> CHR 0x20 \<and> c \<noteq> CHR 0x22 \<and> c \<noteq> CHR 0x27"
  by (auto simp: shell_plain_def char_defs)

lemma sh_plain: "list_all shell_plain a \<Longrightarrow>
    sh_words Unquoted w (a @ s) = sh_words Unquoted (if a = [] then w else Some (case w of None \<Rightarrow> a | Some x \<Rightarrow> x @ a)) s"
proof (induction a arbitrary: w)
  case (Cons c a)
  then show ?case using shell_plain_ordinary[of c] by (simp split: option.splits)
qed simp

lemma sh_single:
  "CHR 0x00 \<notin> set a \<Longrightarrow>
   sh_words Single (Some x) (concat (map (\<lambda>c. if c = CHR 0x27 then [CHR 0x27, CHR 0x22, CHR 0x27, CHR 0x22, CHR 0x27] else [c]) a)
     @ CHR 0x27 # s) = sh_words Unquoted (Some (x @ a)) s"
proof (induction a arbitrary: x)
  case (Cons c a)
  show ?case
  proof (cases "c = CHR 0x27")
    case True
    with Cons.prems Cons.IH[of "x @ [CHR 0x27]"] show ?thesis by (simp add: double_special_def)
  next
    case False
    from Cons.prems have "c \<noteq> CHR 0x00" "CHR 0x00 \<notin> set a" by auto
    with False Cons.IH[of "x @ [c]"] show ?thesis by simp
  qed
qed simp

lemma sh_quoted: "CHR 0x00 \<notin> set a \<Longrightarrow> sh_words Unquoted None (shellQuote a @ s) = sh_words Unquoted (Some a) s"
proof (cases "a \<noteq> [] \<and> list_all shell_plain a")
  case True
  then show ?thesis using sh_plain[of a None s] by (simp add: shellQuote_def)
next
  case False
  assume "CHR 0x00 \<notin> set a"
  then show ?thesis unfolding shellQuote_def if_not_P[OF False] using sh_single[of a "[]" s] by simp
qed

lemma sh_joined: "as \<noteq> [] \<Longrightarrow> \<forall>a \<in> set as. CHR 0x00 \<notin> set a \<Longrightarrow>
    sh_words Unquoted None (str_join '' '' (map shellQuote as)) = Some as"
proof (induction as)
  case (Cons a as)
  show ?case
  proof (cases as)
    case Nil
    with Cons.prems sh_quoted[of a "[]"] show ?thesis by simp
  next
    case (Cons b bs)
    with Cons.IH Cons.prems sh_quoted[of a "CHR 0x20 # str_join '' '' (map shellQuote as)"] show ?thesis
      by simp
  qed
qed simp

text \<open>C25. Whatever the project and the arguments contain, the shell runs \<open>incus\<close> with exactly the
  arguments the caller gave: nothing of an argument is expanded, split or taken as another command.\<close>

theorem incus_command_words:
  assumes "\<forall>a \<in> set (IncusProject I # args). CHR 0x00 \<notin> set a"
  shows "sh_words Unquoted None (buildIncusCommand I args) = Some ([''incus'', ''--project'', IncusProject I] @ args)"
proof -
  have "list_all shell_plain ''incus''" by (simp add: shell_plain_def char_defs)
  then have incus: "sh_words Unquoted None (''incus'' @ CHR 0x20 # s) = map_option ((#) ''incus'') (sh_words Unquoted None s)" for s
    using sh_plain[of "''incus''" None "CHR 0x20 # s"] by simp
  have "sh_words Unquoted None (str_join '' '' (map shellQuote ([''--project'', IncusProject I] @ args))) =
      Some ([''--project'', IncusProject I] @ args)"
    using assms by (intro sh_joined) simp_all
  then show ?thesis using incus[of "str_join '' '' (map shellQuote ([''--project'', IncusProject I] @ args))"]
    by (simp add: buildIncusCommand_def)
qed

definition demoIncus :: "(string list) incus" where
  "demoIncus = \<lparr> IncusProject = ''default'', CodeUID = 1000, HostUID = 1000,
     Sh = (\<lambda>cmd w. (\<lparr> shOut = [], shErr = [], shAll = [], shStatus = Finished \<rparr>, w @ [cmd])),
     Now = (\<lambda>w. 0), Sleep = (\<lambda>d w. w) \<rparr>"

theorem incus_command_words_witness:
  "sh_words Unquoted None (buildIncusCommand demoIncus [''exec'', ''c'', ''--'', ''bash'', ''-c'', ''echo it's; rm -rf $HOME'', []]) =
     Some [''incus'', ''--project'', ''default'', ''exec'', ''c'', ''--'', ''bash'', ''-c'', ''echo it's; rm -rf $HOME'', []]"
proof -
  have "\<forall>a \<in> set (IncusProject demoIncus # [''exec'', ''c'', ''--'', ''bash'', ''-c'', ''echo it's; rm -rf $HOME'', []]). CHR 0x00 \<notin> set a"
    by (simp add: demoIncus_def)
  from incus_command_words[OF this] show ?thesis by (simp add: demoIncus_def)
qed

end
