(* ===== verification/IncusStart.thy ===== *)
theory IncusStart
  imports Incus
begin

text \<open>
  Creating and starting containers: the hardening before the first boot, the start fallbacks
  and the launch sequence of \<open>internal/container/commands.go\<close>, and the privileged check of
  \<open>internal/container/security.go\<close>.

  The lemmas follow the commands that reach \<open>incus\<close>: a log of the world grows with every
  command and its outcome, and an action keeps or establishes facts about that log.
\<close>

section \<open>Hardening\<close>

definition containsPrivilegedValue :: "string \<Rightarrow> bool" where
  "containsPrivilegedValue output \<longleftrightarrow> trim_space output = ''true''"

text \<open>A privileged container or default profile is refused; a failing query is not.\<close>

definition CheckNotPrivileged :: "'w incus \<Rightarrow> string \<Rightarrow> ('w, unit) act" where
  "CheckNotPrivileged I c =
     bindA (tryA (IncusOutput I [''config'', ''get'', c, ''security.privileged''])) (\<lambda>r.
     if (case r of Inr out \<Rightarrow> containsPrivilegedValue out | Inl _ \<Rightarrow> False)
     then failA (Errorf ''container %q has security.privileged=true which defeats all container isolation'' [c])
     else bindA (tryA (IncusOutput I [''profile'', ''get'', ''default'', ''security.privileged''])) (\<lambda>r.
       if (case r of Inr out \<Rightarrow> containsPrivilegedValue out | Inl _ \<Rightarrow> False)
       then failA (Errorf ''the default Incus profile has security.privileged=true which defeats all container isolation'' [])
       else retA ()))"

definition dockerFlags :: "string list" where
  "dockerFlags = [''security.nesting=true'', ''security.syscalls.intercept.mknod=true'',
     ''security.syscalls.intercept.setxattr=true'', ''linux.sysctl.net.ipv4.ip_unprivileged_port_start=0'']"

definition EnableDockerSupport :: "'w incus \<Rightarrow> string \<Rightarrow> ('w, unit) act" where
  "EnableDockerSupport I c = forA (\<lambda>kv. IncusExec I [''config'', ''set'', c, kv]) dockerFlags"

definition DisableGuestAPI :: "'w incus \<Rightarrow> string \<Rightarrow> ('w, unit) act" where
  "DisableGuestAPI I c = IncusExec I [''config'', ''set'', c, ''security.guestapi=false'']"

definition IsolateUIDNamespace :: "'w incus \<Rightarrow> string \<Rightarrow> ('w, unit) act" where
  "IsolateUIDNamespace I c = IncusExec I [''config'', ''set'', c, ''security.idmap.isolated=true'']"

definition nicFlags :: "string list" where
  "nicFlags = [''security.ipv4_filtering=true'', ''security.mac_filtering=true'', ''security.port_isolation=true'']"

definition EnableNICSecurity :: "'w incus \<Rightarrow> string \<Rightarrow> ('w, unit) act" where
  "EnableNICSecurity I c =
     thenA (warnA (IncusExecQuiet I [''config'', ''device'', ''override'', c, ''eth0'']))
     (forA (\<lambda>kv. wrapA (''failed to set '' @ kv @ '' on eth0'')
        (IncusExec I [''config'', ''device'', ''set'', c, ''eth0'', kv])) nicFlags)"

definition DisableIPv6AtBoot :: "'w incus \<Rightarrow> string \<Rightarrow> ('w, unit) act" where
  "DisableIPv6AtBoot I c =
     thenA (IncusExec I [''config'', ''set'', c, ''linux.sysctl.net.ipv6.conf.all.disable_ipv6=1''])
       (IncusExec I [''config'', ''set'', c, ''linux.sysctl.net.ipv6.conf.default.disable_ipv6=1''])"

section \<open>Starting\<close>

definition startCapture :: "'w incus \<Rightarrow> string \<Rightarrow> ('w, unit) act" where
  "startCapture I c = IncusExecQuiet I [''start'', c]"

definition isIdmapMountUnsupported :: "gerr \<Rightarrow> bool" where
  "isIdmapMountUnsupported e \<longleftrightarrow> str_contains (to_lower (err_text e)) ''idmapping abilities are required''"

text \<open>\<open>v, _ := IncusOutput(...)\<close>\<close>

definition outOnly :: "'w incus \<Rightarrow> string list \<Rightarrow> ('w, string) act" where
  "outOnly I args w = (case outputOf I args w of ((out, _), w') \<Rightarrow> (Inr out, w'))"

fun shiftedOf :: "'w incus \<Rightarrow> string \<Rightarrow> string list \<Rightarrow> ('w, string list) act" where
  "shiftedOf I c [] = retA []"
| "shiftedOf I c (name # ns) =
     bindA (outOnly I [''config'', ''device'', ''get'', c, name, ''type'']) (\<lambda>typ.
       if trim_space typ \<noteq> ''disk'' then shiftedOf I c ns
       else bindA (outOnly I [''config'', ''device'', ''get'', c, name, ''shift'']) (\<lambda>sh.
         bindA (shiftedOf I c ns) (\<lambda>rest. retA (if trim_space sh = ''true'' then name # rest else rest))))"

definition shiftEnabledDiskDevices :: "'w incus \<Rightarrow> string \<Rightarrow> ('w, string list) act" where
  "shiftEnabledDiskDevices I c =
     bindA (tryA (IncusOutput I [''config'', ''device'', ''list'', c])) (\<lambda>r. case r of
         Inl _ \<Rightarrow> retA []
       | Inr out \<Rightarrow> shiftedOf I c (str_fields out))"

fun convertAll :: "'w incus \<Rightarrow> string \<Rightarrow> string list \<Rightarrow> ('w, nat \<times> nat) act" where
  "convertAll I c [] = retA (0, 0)"
| "convertAll I c (d # ds) =
     bindA (tryA (IncusExecQuiet I [''config'', ''device'', ''set'', c, d, ''shift=false''])) (\<lambda>r.
     bindA (convertAll I c ds) (\<lambda>(converted, failed). retA (case r of
         Inl _ \<Rightarrow> (converted, Suc failed) | Inr _ \<Rightarrow> (Suc converted, failed))))"

definition ConvertShiftedDiskDevices :: "'w incus \<Rightarrow> string \<Rightarrow> ('w, nat \<times> nat) act" where
  "ConvertShiftedDiskDevices I c = bindA (shiftEnabledDiskDevices I c) (convertAll I c)"

definition fallbackShiftToRawIdmap :: "'w incus \<Rightarrow> string \<Rightarrow> ('w, bool) act" where
  "fallbackShiftToRawIdmap I c =
     bindA (ConvertShiftedDiskDevices I c) (\<lambda>(converted, failed).
       if converted + failed = 0 then retA False
       else thenA (warnA (IncusExecQuiet I [''config'', ''set'', c, ''raw.idmap'',
              ''both '' @ itoa_int (HostUID I) @ '' '' @ itoa_int (CodeUID I)]))
            (retA True))"

definition withDisableShiftHint :: "gerr \<Rightarrow> gerr" where
  "withDisableShiftHint e = ExtErr (err_text e @ '' -- this host's kernel can't set up idmapped ('' @
     [CHR 0x22] @ ''shift'' @ [CHR 0x22] @ '') mounts and coi's automatic raw.idmap fallback did not recover; set `[incus] disable_shift = true` in ~/.coi/config.toml (or your active profile) to use raw.idmap for the workspace mount instead'')"

definition startRetryError :: "gerr \<Rightarrow> gerr option \<Rightarrow> gerr option" where
  "startRetryError firstErr retryErr = (case retryErr of None \<Rightarrow> None
     | Some e \<Rightarrow> Some (if isIdmapMountUnsupported firstErr then withDisableShiftHint e else e))"

definition ContainerUsesRawIdmap :: "'w incus \<Rightarrow> string \<Rightarrow> ('w, bool) act" where
  "ContainerUsesRawIdmap I c =
     bindA (tryA (IncusOutput I [''config'', ''get'', c, ''raw.idmap''])) (\<lambda>r. case r of
         Inl _ \<Rightarrow> retA False | Inr out \<Rightarrow> retA (trim_space out \<noteq> []))"

text \<open>
  The polling loops wait for 5 s in steps of at least 500 ms, so they poll at most ten times:
  the fuel of the loops.
\<close>

definition startPolls :: nat where "startPolls = 10"

fun pollRunning :: "'w incus \<Rightarrow> string \<Rightarrow> int \<Rightarrow> nat \<Rightarrow> ('w, bool) act" where
  "pollRunning I c deadline 0 w = (Inr False, w)"
| "pollRunning I c deadline (Suc n) w =
     (if Now I w < deadline
      then bindA (isRunning I c) (\<lambda>up. if up then retA True else pollRunning I c deadline n) (Sleep I 500 w)
      else (Inr False, w))"

text \<open>\<open>if err := startCapture(c); err == nil { return nil }; if running { return nil }\<close>: the error, if neither.\<close>

definition startOrRunning :: "'w incus \<Rightarrow> string \<Rightarrow> ('w, gerr option) act" where
  "startOrRunning I c = bindA (tryA (startCapture I c)) (\<lambda>r. case r of
       Inr _ \<Rightarrow> retA None
     | Inl e \<Rightarrow> bindA (isRunning I c) (\<lambda>up. retA (if up then None else Some e)))"

definition finishA :: "gerr option \<Rightarrow> ('w, unit) act" where
  "finishA r = (case r of None \<Rightarrow> retA () | Some e \<Rightarrow> failA e)"

text \<open>The conversion to \<open>raw.idmap\<close> and its retry; \<open>None\<close> when the container came up.\<close>

definition idmapRetry :: "'w incus \<Rightarrow> string \<Rightarrow> gerr \<Rightarrow> ('w, gerr option) act" where
  "idmapRetry I c firstErr =
     bindA (if isIdmapMountUnsupported firstErr then fallbackShiftToRawIdmap I c else retA False) (\<lambda>changed.
       if changed then bindA (startOrRunning I c) (\<lambda>r. retA (case r of None \<Rightarrow> None | Some _ \<Rightarrow> Some firstErr))
       else retA (Some firstErr))"

definition startWithIdmapRecovery :: "'w incus \<Rightarrow> string \<Rightarrow> ('w, unit) act" where
  "startWithIdmapRecovery I c =
     bindA (tryA (startCapture I c)) (\<lambda>r. case r of
         Inr _ \<Rightarrow> retA ()
       | Inl firstErr \<Rightarrow>
           bindA (\<lambda>w. pollRunning I c (Now I w + 5000) startPolls w) (\<lambda>up. if up then retA () else
           bindA (startOrRunning I c) (\<lambda>r2. case r2 of
               None \<Rightarrow> retA ()
             | Some _ \<Rightarrow> bindA (idmapRetry I c firstErr) finishA)))"

definition StartWithIdmapFallback :: "'w incus \<Rightarrow> string \<Rightarrow> ('w, unit) act" where
  "StartWithIdmapFallback I c = bindA (tryA (startWithIdmapRecovery I c)) (\<lambda>r. case r of
       Inr _ \<Rightarrow> retA ()
     | Inl firstErr \<Rightarrow> failA (if isIdmapMountUnsupported firstErr then withDisableShiftHint firstErr else firstErr))"

definition StartWithIsolationFallback :: "'w incus \<Rightarrow> string \<Rightarrow> ('w, unit) act" where
  "StartWithIsolationFallback I c = bindA (tryA (startWithIdmapRecovery I c)) (\<lambda>r. case r of
       Inr _ \<Rightarrow> retA ()
     | Inl firstErr \<Rightarrow>
         bindA (tryA (IncusOutput I [''config'', ''get'', c, ''security.idmap.isolated''])) (\<lambda>q.
         thenA (warnA (IncusExecQuiet I [''config'', ''unset'', c, ''security.idmap.isolated'']))
        (bindA (startOrRunning I c) (\<lambda>r2. case r2 of
             None \<Rightarrow> retA ()
           | Some retryErr \<Rightarrow>
               thenA (if (case q of Inr out \<Rightarrow> trim_space out = ''true'' | Inl _ \<Rightarrow> False)
                      then warnA (IncusExecQuiet I [''config'', ''set'', c, ''security.idmap.isolated=true''])
                      else retA ())
               (failA (if isIdmapMountUnsupported firstErr then withDisableShiftHint retryErr else retryErr))))))"

section \<open>Launching\<close>

definition initAndConfigureContainer ::
    "'w incus \<Rightarrow> string \<Rightarrow> string \<Rightarrow> string \<Rightarrow> bool \<Rightarrow> ('w, unit) act option \<Rightarrow> ('w, unit) act" where
  "initAndConfigureContainer I img c pool ephemeral preStart =
     thenA (IncusExec I ([''init'', img, c] @ (if ephemeral then [''--ephemeral''] else []) @
              (if pool \<noteq> [] then [''-s'', pool] else [])))
    (thenA (EnableDockerSupport I c)
    (thenA (DisableGuestAPI I c)
    (thenA (CheckNotPrivileged I c)
      (case preStart of None \<Rightarrow> retA () | Some p \<Rightarrow> p))))"

definition initConfigureAndStart ::
    "'w incus \<Rightarrow> string \<Rightarrow> string \<Rightarrow> string \<Rightarrow> bool \<Rightarrow> ('w, unit) act option \<Rightarrow> ('w, unit) act" where
  "initConfigureAndStart I img c pool ephemeral preStart =
     thenA (initAndConfigureContainer I img c pool ephemeral preStart) (IncusExec I [''start'', c])"

text \<open>
  The polling loop of an ephemeral launch: \<open>Some r\<close> when the launch returns with \<open>r\<close> (the container
  came up, or Incus had deleted it and it was created again), \<open>None\<close> when the loop ran out.
\<close>

fun pollEphemeral :: "'w incus \<Rightarrow> string \<Rightarrow> ('w, unit) act \<Rightarrow> gerr \<Rightarrow> int \<Rightarrow> nat \<Rightarrow> ('w, gerr option option) act" where
  "pollEphemeral I c recreate firstErr deadline 0 w = (Inr None, w)"
| "pollEphemeral I c recreate firstErr deadline (Suc n) w =
     (if Now I w < deadline
      then bindA (isRunning I c) (\<lambda>up. if up then retA (Some None) else
           bindA (tryA (IncusOutput I [''list'', ''^'' @ c @ ''$'', ''--format=csv'', ''--columns=n''])) (\<lambda>q.
             if (case q of Inr out \<Rightarrow> trim_space out = [] | Inl _ \<Rightarrow> False)
             then bindA (tryA recreate) (\<lambda>r. case r of
                 Inr _ \<Rightarrow> retA (Some None)
               | Inl e \<Rightarrow> bindA (isRunning I c) (\<lambda>up. retA (Some (if up then None else startRetryError firstErr (Some e)))))
             else pollEphemeral I c recreate firstErr deadline n)) (Sleep I 500 w)
      else (Inr None, w))"

definition LaunchContainerWithPreStart ::
    "'w incus \<Rightarrow> string \<Rightarrow> string \<Rightarrow> string \<Rightarrow> bool \<Rightarrow> ('w, unit) act option \<Rightarrow> ('w, unit) act" where
  "LaunchContainerWithPreStart I img c pool ephemeral preStart =
     thenA (initAndConfigureContainer I img c pool ephemeral preStart)
    (thenA (warnA (IsolateUIDNamespace I c))
      (if \<not> ephemeral then StartWithIsolationFallback I c
       else bindA (tryA (startCapture I c)) (\<lambda>r. case r of
           Inr _ \<Rightarrow> retA ()
         | Inl firstErr \<Rightarrow>
             bindA (\<lambda>w. pollEphemeral I c (initConfigureAndStart I img c pool True preStart) firstErr
                      (Now I w + 5000) startPolls w) (\<lambda>p. case p of
                 Some q \<Rightarrow> finishA q
               | None \<Rightarrow> bindA (idmapRetry I c firstErr) (\<lambda>q. case q of
                   None \<Rightarrow> retA ()
                 | Some _ \<Rightarrow>
                     thenA (warnA (IncusExecQuiet I [''config'', ''unset'', c, ''security.idmap.isolated'']))
                    (bindA (startOrRunning I c) (\<lambda>r2. finishA (startRetryError firstErr r2))))))))"

definition LaunchContainer :: "'w incus \<Rightarrow> string \<Rightarrow> string \<Rightarrow> string \<Rightarrow> ('w, unit) act" where
  "LaunchContainer I img c pool = LaunchContainerWithPreStart I img c pool True None"

definition LaunchContainerPersistent :: "'w incus \<Rightarrow> string \<Rightarrow> string \<Rightarrow> string \<Rightarrow> ('w, unit) act" where
  "LaunchContainerPersistent I img c pool = LaunchContainerWithPreStart I img c pool False None"

end
