(* ===== verification/IncusLaunch.thy ===== *)
theory IncusLaunch
  imports IncusStart
begin

text \<open>
  What the launch sequence guarantees, whatever the shell answers: no container is started
  before its hardening succeeded, and a start that fails leaves the isolation of an existing
  container as it was.
\<close>

section \<open>The log of commands\<close>

text \<open>An observation of the world that records every command with its outcome.\<close>

definition logs :: "'w incus \<Rightarrow> ('w \<Rightarrow> (string \<times> shres) list) \<Rightarrow> bool" where
  "logs I Log \<longleftrightarrow> (\<forall>cmd w. Log (snd (Sh I cmd w)) = Log w @ [(cmd, fst (Sh I cmd w))]) \<and>
     (\<forall>d w. Log (Sleep I d w) = Log w)"

definition startCmd :: "'w incus \<Rightarrow> string \<Rightarrow> string" where
  "startCmd I c = buildIncusCommand I [''start'', c]"

definition initCmd :: "'w incus \<Rightarrow> string \<Rightarrow> string \<Rightarrow> string \<Rightarrow> bool \<Rightarrow> string" where
  "initCmd I img c pool eph = buildIncusCommand I ([''init'', img, c] @ (if eph then [''--ephemeral''] else []) @
     (if pool \<noteq> [] then [''-s'', pool] else []))"

text \<open>The commands that must have succeeded before the first start, in their order.\<close>

definition hardenCmds :: "'w incus \<Rightarrow> string \<Rightarrow> string \<Rightarrow> string \<Rightarrow> bool \<Rightarrow> string list" where
  "hardenCmds I img c pool eph = initCmd I img c pool eph #
     map (\<lambda>kv. buildIncusCommand I [''config'', ''set'', c, kv]) (dockerFlags @ [''security.guestapi=false''])"

definition succeeded :: "shres \<Rightarrow> bool" where
  "succeeded r \<longleftrightarrow> shStatus r = Finished"

definition says_privileged :: "shres \<Rightarrow> bool" where
  "says_privileged r \<longleftrightarrow> succeeded r \<and> trim_space (shOut r) = ''true''"

text \<open>
  The trace ends with a hardened container: created, configured with every flag, not found
  privileged, the pre-start hook done (its commands satisfy \<open>Pre\<close>), and not created anew since.
\<close>

definition hardened :: "'w incus \<Rightarrow> string \<Rightarrow> string \<Rightarrow> string \<Rightarrow> bool \<Rightarrow> ((string \<times> shres) list \<Rightarrow> bool) \<Rightarrow>
    (string \<times> shres) list \<Rightarrow> bool" where
  "hardened I img c pool eph Pre tr \<longleftrightarrow> (\<exists>a rs p1 p2 hook b.
     tr = a @ zip (hardenCmds I img c pool eph) rs @
       [(buildIncusCommand I [''config'', ''get'', c, ''security.privileged''], p1),
        (buildIncusCommand I [''profile'', ''get'', ''default'', ''security.privileged''], p2)] @ hook @ b \<and>
     length rs = length (hardenCmds I img c pool eph) \<and> list_all succeeded rs \<and>
     \<not> says_privileged p1 \<and> \<not> says_privileged p2 \<and> Pre hook \<and>
     initCmd I img c pool eph \<notin> fst ` set (hook @ b))"

text \<open>Every start of the container in the trace comes when it is hardened.\<close>

definition safe_trace :: "'w incus \<Rightarrow> string \<Rightarrow> string \<Rightarrow> string \<Rightarrow> bool \<Rightarrow> ((string \<times> shres) list \<Rightarrow> bool) \<Rightarrow>
    (string \<times> shres) list \<Rightarrow> bool" where
  "safe_trace I img c pool eph Pre tr \<longleftrightarrow>
     (\<forall>a r b. tr = a @ (startCmd I c, r) # b \<longrightarrow> hardened I img c pool eph Pre a)"

text \<open>A pre-start hook that neither starts nor creates the container, and does its work when it reports success.\<close>

definition hook_ok :: "'w incus \<Rightarrow> ('w \<Rightarrow> (string \<times> shres) list) \<Rightarrow> string \<Rightarrow> string \<Rightarrow> string \<Rightarrow> bool \<Rightarrow>
    ('w, unit) act option \<Rightarrow> ((string \<times> shres) list \<Rightarrow> bool) \<Rightarrow> bool" where
  "hook_ok I Log img c pool eph preStart Pre \<longleftrightarrow> (case preStart of None \<Rightarrow> Pre []
     | Some p \<Rightarrow> \<forall>w. \<exists>hook. Log (snd (p w)) = Log w @ hook \<and> startCmd I c \<notin> fst ` set hook \<and>
         initCmd I img c pool eph \<notin> fst ` set hook \<and> (fst (p w) = Inr () \<longrightarrow> Pre hook))"

subsection \<open>Traces\<close>

lemma safe_trace_Nil [simp]: "safe_trace I img c pool eph Pre []"
  by (simp add: safe_trace_def)

lemma safe_trace_snoc:
  "safe_trace I img c pool eph Pre (tr @ [x]) \<longleftrightarrow> safe_trace I img c pool eph Pre tr \<and>
     (fst x = startCmd I c \<longrightarrow> hardened I img c pool eph Pre tr)"
proof
  assume s: "safe_trace I img c pool eph Pre (tr @ [x])"
  have "safe_trace I img c pool eph Pre tr" unfolding safe_trace_def
  proof (intro allI impI)
    fix a r b
    assume "tr = a @ (startCmd I c, r) # b"
    then have "tr @ [x] = a @ (startCmd I c, r) # (b @ [x])" by simp
    then show "hardened I img c pool eph Pre a" using s unfolding safe_trace_def by blast
  qed
  moreover have "hardened I img c pool eph Pre tr" if "fst x = startCmd I c"
  proof -
    have "tr @ [x] = tr @ (startCmd I c, snd x) # []" using that by (cases x) simp
    then show ?thesis using s unfolding safe_trace_def by blast
  qed
  ultimately show "safe_trace I img c pool eph Pre tr \<and> (fst x = startCmd I c \<longrightarrow> hardened I img c pool eph Pre tr)"
    by blast
next
  assume s: "safe_trace I img c pool eph Pre tr \<and> (fst x = startCmd I c \<longrightarrow> hardened I img c pool eph Pre tr)"
  show "safe_trace I img c pool eph Pre (tr @ [x])" unfolding safe_trace_def
  proof (intro allI impI)
    fix a r b
    assume eq: "tr @ [x] = a @ (startCmd I c, r) # b"
    show "hardened I img c pool eph Pre a"
    proof (cases b rule: rev_cases)
      case Nil
      with eq s show ?thesis by auto
    next
      case (snoc b' y)
      with eq have "tr = a @ (startCmd I c, r) # b'" by simp
      then show ?thesis using s unfolding safe_trace_def by blast
    qed
  qed
qed

lemma safe_trace_append:
  "safe_trace I img c pool eph Pre tr \<Longrightarrow> startCmd I c \<notin> fst ` set b \<Longrightarrow> safe_trace I img c pool eph Pre (tr @ b)"
proof (induction b rule: rev_induct)
  case (snoc x b)
  then show ?case by (simp add: safe_trace_snoc flip: append_assoc) force
qed simp

lemma hardened_append:
  assumes "hardened I img c pool eph Pre tr" "initCmd I img c pool eph \<notin> fst ` set b"
  shows "hardened I img c pool eph Pre (tr @ b)"
proof -
  from assms(1) obtain a rs p1 p2 hook b0 where
    "tr = a @ zip (hardenCmds I img c pool eph) rs @
       [(buildIncusCommand I [''config'', ''get'', c, ''security.privileged''], p1),
        (buildIncusCommand I [''profile'', ''get'', ''default'', ''security.privileged''], p2)] @ hook @ b0"
    "length rs = length (hardenCmds I img c pool eph)" "list_all succeeded rs"
    "\<not> says_privileged p1" "\<not> says_privileged p2" "Pre hook"
    "initCmd I img c pool eph \<notin> fst ` set (hook @ b0)"
    unfolding hardened_def by blast
  with assms(2) show ?thesis unfolding hardened_def
    by (intro exI[of _ a] exI[of _ rs] exI[of _ p1] exI[of _ p2] exI[of _ hook] exI[of _ "b0 @ b"]) (simp add: image_Un)
qed

subsection \<open>Commands are told apart by their first argument\<close>

lemma shellQuote_plain: "s \<noteq> [] \<Longrightarrow> list_all shell_plain s \<Longrightarrow> shellQuote s = s"
  by (simp add: shellQuote_def)

definition verbs :: "string set" where
  "verbs = {''start'', ''stop'', ''init'', ''config'', ''profile'', ''list'', ''delete'', ''file'', ''exec''}"

lemma verbs_plain: "v \<in> verbs \<Longrightarrow> shellQuote v = v \<and> CHR 0x20 \<notin> set v"
  by (auto simp: verbs_def shellQuote_def shell_plain_def char_defs)

lemma join_head: "str_join '' '' (x # xs) = x @ (if xs = [] then [] else CHR 0x20 # str_join '' '' xs)"
  by (cases xs) simp_all

lemma verb_differs:
  assumes "v \<in> verbs" "u \<in> verbs" "v \<noteq> u"
  shows "buildIncusCommand I (v # as) \<noteq> buildIncusCommand I (u # bs)"
proof
  assume "buildIncusCommand I (v # as) = buildIncusCommand I (u # bs)"
  then have "str_join '' '' (v # map shellQuote as) = str_join '' '' (u # map shellQuote bs)"
    using assms(1,2)[THEN verbs_plain] by (simp add: buildIncusCommand_def)
  then have eq: "v @ (if as = [] then [] else CHR 0x20 # str_join '' '' (map shellQuote as)) =
      u @ (if bs = [] then [] else CHR 0x20 # str_join '' '' (map shellQuote bs))"
    by (simp only: join_head map_is_Nil_conv)
  have tw: "takeWhile (\<lambda>x. x \<noteq> CHR 0x20) (s @ (if xs = [] then [] else CHR 0x20 # t)) = s"
    if "CHR 0x20 \<notin> set s" for s t and xs :: "string list"
  proof -
    from that have "\<forall>x \<in> set s. x \<noteq> CHR 0x20" by auto
    then show ?thesis by (cases "xs = []") (simp_all add: takeWhile_append2)
  qed
  from arg_cong[OF eq, of "takeWhile (\<lambda>x. x \<noteq> CHR 0x20)"] assms verbs_plain show False
    by (simp add: tw)
qed


subsection \<open>What keeps the log safe\<close>

definition safe_log :: "'w incus \<Rightarrow> ('w \<Rightarrow> (string \<times> shres) list) \<Rightarrow> (string \<times> shres) list \<Rightarrow> string \<Rightarrow> string \<Rightarrow> string \<Rightarrow>
    bool \<Rightarrow> ((string \<times> shres) list \<Rightarrow> bool) \<Rightarrow> 'w \<Rightarrow> bool" where
  "safe_log I Log L0 img c pool eph Pre w \<longleftrightarrow> (\<exists>tr. Log w = L0 @ tr \<and> safe_trace I img c pool eph Pre tr)"

definition hard_log :: "'w incus \<Rightarrow> ('w \<Rightarrow> (string \<times> shres) list) \<Rightarrow> (string \<times> shres) list \<Rightarrow> string \<Rightarrow> string \<Rightarrow> string \<Rightarrow>
    bool \<Rightarrow> ((string \<times> shres) list \<Rightarrow> bool) \<Rightarrow> 'w \<Rightarrow> bool" where
  "hard_log I Log L0 img c pool eph Pre w \<longleftrightarrow> (\<exists>tr. Log w = L0 @ tr \<and> safe_trace I img c pool eph Pre tr \<and>
     hardened I img c pool eph Pre tr)"

lemma hard_safe: "hard_log I Log L0 img c pool eph Pre w \<Longrightarrow> safe_log I Log L0 img c pool eph Pre w"
  unfolding hard_log_def safe_log_def by blast

lemma snd_incus:
  "snd (IncusExec I args w) = snd (runIncus I args w)"
  "snd (IncusExecQuiet I args w) = snd (runIncus I args w)"
  "snd (IncusOutput I args w) = snd (runIncus I args w)"
  "snd (outOnly I args w) = snd (runIncus I args w)"
  by (simp_all add: IncusExec_def IncusExecQuiet_def IncusOutput_def outputOf_def outOnly_def split: prod.splits)

lemma keeps_incus:
  assumes "\<And>w. P w \<Longrightarrow> P (snd (runIncus I args w))"
  shows "keeps P (IncusExec I args)" "keeps P (IncusExecQuiet I args)" "keeps P (IncusOutput I args)" "keeps P (outOnly I args)"
  using assms by (simp_all add: keeps_def snd_incus)

lemma run_logged: "logs I Log \<Longrightarrow> Log (snd (runIncus I args w)) = Log w @ [(buildIncusCommand I args, fst (runIncus I args w))]"
  by (simp add: logs_def runIncus_def)

lemma safe_run:
  assumes "logs I Log" "v \<in> verbs" "v \<noteq> ''start''" "safe_log I Log L0 img c pool eph Pre w"
  shows "safe_log I Log L0 img c pool eph Pre (snd (runIncus I (v # as) w))"
proof -
  from assms(4) obtain tr where "Log w = L0 @ tr" "safe_trace I img c pool eph Pre tr" unfolding safe_log_def by blast
  moreover have "buildIncusCommand I (v # as) \<noteq> startCmd I c"
    unfolding startCmd_def using assms(2,3) by (intro verb_differs) (simp_all add: verbs_def)
  ultimately show ?thesis unfolding safe_log_def
    using run_logged[OF assms(1), of "v # as" w] safe_trace_snoc[of I img c pool eph Pre tr] by auto
qed

lemma hard_run:
  assumes "logs I Log" "v \<in> verbs" "v \<noteq> ''init''" "hard_log I Log L0 img c pool eph Pre w"
  shows "hard_log I Log L0 img c pool eph Pre (snd (runIncus I (v # as) w))"
proof -
  from assms(4) obtain tr where tr: "Log w = L0 @ tr" "safe_trace I img c pool eph Pre tr" "hardened I img c pool eph Pre tr"
    unfolding hard_log_def by blast
  have "buildIncusCommand I (v # as) \<noteq> initCmd I img c pool eph"
    unfolding initCmd_def append_Cons using assms(2,3) by (intro verb_differs) (simp_all add: verbs_def)
  then have "hardened I img c pool eph Pre (tr @ [(buildIncusCommand I (v # as), fst (runIncus I (v # as) w))])"
    using tr(3) by (intro hardened_append) auto
  with tr show ?thesis unfolding hard_log_def
    using run_logged[OF assms(1), of "v # as" w] safe_trace_snoc[of I img c pool eph Pre tr] by auto
qed

text \<open>The two facts about the log that a command keeps, as rules for the combinators.\<close>

lemma safe_cmds:
  assumes "logs I Log" "v \<in> verbs" "v \<noteq> ''start''"
  shows "keeps (safe_log I Log L0 img c pool eph Pre) (IncusExec I (v # as))"
    "keeps (safe_log I Log L0 img c pool eph Pre) (IncusExecQuiet I (v # as))"
    "keeps (safe_log I Log L0 img c pool eph Pre) (IncusOutput I (v # as))"
    "keeps (safe_log I Log L0 img c pool eph Pre) (outOnly I (v # as))"
  using assms by (auto intro!: keeps_incus safe_run)

lemma hard_cmds:
  assumes "logs I Log" "v \<in> verbs" "v \<noteq> ''init''"
  shows "keeps (hard_log I Log L0 img c pool eph Pre) (IncusExec I (v # as))"
    "keeps (hard_log I Log L0 img c pool eph Pre) (IncusExecQuiet I (v # as))"
    "keeps (hard_log I Log L0 img c pool eph Pre) (IncusOutput I (v # as))"
    "keeps (hard_log I Log L0 img c pool eph Pre) (outOnly I (v # as))"
  using assms by (auto intro!: keeps_incus hard_run)

lemma verbs_neq: "''start'' \<noteq> ''init''" "''list'' \<noteq> ''init''" "''config'' \<noteq> ''init''" "''profile'' \<noteq> ''init''"
  "''list'' \<noteq> ''start''" "''config'' \<noteq> ''start''" "''profile'' \<noteq> ''start''" "''init'' \<noteq> ''start''"
  by simp_all

lemma verbs_mem: "''start'' \<in> verbs" "''init'' \<in> verbs" "''list'' \<in> verbs" "''config'' \<in> verbs" "''profile'' \<in> verbs"
  by (simp_all add: verbs_def)

lemma hard_sleep: "logs I Log \<Longrightarrow> hard_log I Log L0 img c pool eph Pre (Sleep I d w) = hard_log I Log L0 img c pool eph Pre w"
  by (simp add: logs_def hard_log_def)

lemma keeps_split: "(\<And>x y. keeps P (f x y)) \<Longrightarrow> keeps P (case p of (x, y) \<Rightarrow> f x y)"
  by (cases p) simp

section \<open>The start operations over an invariant\<close>

text \<open>The commands of the start operations, apart from those about the isolation flag.\<close>

definition recovery_cmd :: "string \<Rightarrow> string list \<Rightarrow> bool" where
  "recovery_cmd c args \<longleftrightarrow> args = [''start'', c] \<or> args = [''list'', c, ''--format=json''] \<or>
     (\<exists>rest. args = ''config'' # ''device'' # rest) \<or> (\<exists>v. args = [''config'', ''set'', c, ''raw.idmap'', v])"

locale start_keeps =
  fixes I :: "'w incus" and c :: string and P :: "'w \<Rightarrow> bool"
  assumes run: "recovery_cmd c args \<Longrightarrow> P w \<Longrightarrow> P (snd (runIncus I args w))"
    and sleep: "P w \<Longrightarrow> P (Sleep I d w)"
begin

lemma cmds:
  assumes "recovery_cmd c args"
  shows "keeps P (IncusExec I args)" "keeps P (IncusExecQuiet I args)" "keeps P (IncusOutput I args)" "keeps P (outOnly I args)"
  by (simp_all add: keeps_def snd_incus run[OF assms])

lemma recovery:
  "recovery_cmd c [''start'', c]" "recovery_cmd c [''list'', c, ''--format=json'']"
  "recovery_cmd c (''config'' # ''device'' # rest)" "recovery_cmd c [''config'', ''set'', c, ''raw.idmap'', v]"
  by (simp_all add: recovery_cmd_def)

lemmas intros = keeps_intros keeps_split cmds recovery

lemma running: "keeps P (isRunning I c)"
  unfolding isRunning_def ContainerRunning_def by (intro intros)

lemma starting: "keeps P (startOrRunning I c)" "keeps P (startCapture I c)"
  unfolding startOrRunning_def startCapture_def by (intro intros running)+

lemma polling: "keeps P (pollRunning I c d k)"
proof (induction k)
  case 0
  show ?case by (simp add: keeps_def)
next
  case (Suc k)
  have "keeps P (bindA (isRunning I c) (\<lambda>up. if up then retA True else pollRunning I c d k))"
    by (intro intros running Suc.IH)
  then show ?case by (simp add: keeps_def sleep)
qed

lemma polling_now: "keeps P (\<lambda>w. pollRunning I c (Now I w + d) k w)"
  using polling by (simp add: keeps_def)

lemma shifted: "keeps P (shiftedOf I c ns)"
proof (induction ns)
  case Nil
  show ?case unfolding shiftedOf.simps by (intro intros)
next
  case (Cons n ns)
  show ?case unfolding shiftedOf.simps by (intro intros Cons.IH)
qed

lemma converting: "keeps P (convertAll I c ns)"
proof (induction ns)
  case Nil
  show ?case unfolding convertAll.simps by (intro intros)
next
  case (Cons n ns)
  show ?case unfolding convertAll.simps by (intro intros Cons.IH)
qed

lemma retrying: "keeps P (idmapRetry I c e)"
  unfolding idmapRetry_def fallbackShiftToRawIdmap_def ConvertShiftedDiskDevices_def shiftEnabledDiskDevices_def
  by (intro intros starting shifted converting)

lemma finishing: "keeps P (finishA r)"
  unfolding finishA_def by (intro intros)

lemma recovering: "keeps P (startWithIdmapRecovery I c)"
  unfolding startWithIdmapRecovery_def by (intro intros starting polling_now retrying finishing)

end

text \<open>A hardened container stays hardened in the log while it is started.\<close>

interpretation hard: start_keeps I c "\<lambda>w. logs I Log \<longrightarrow> hard_log I Log L0 img c pool eph Pre w"
  for I :: "'w incus" and Log L0 img c pool eph Pre
proof unfold_locales
  fix args and w :: 'w
  assume cmd: "recovery_cmd c args" and *: "logs I Log \<longrightarrow> hard_log I Log L0 img c pool eph Pre w"
  show "logs I Log \<longrightarrow> hard_log I Log L0 img c pool eph Pre (snd (runIncus I args w))"
  proof
    assume log: "logs I Log"
    from cmd obtain v as where "args = v # as" "v \<in> verbs" "v \<noteq> ''init''"
      unfolding recovery_cmd_def by (elim disjE exE) (use verbs_mem verbs_neq in auto)
    then show "hard_log I Log L0 img c pool eph Pre (snd (runIncus I args w))"
      using hard_run[OF log, of v L0 img c pool eph Pre w as] * log by blast
  qed
qed (simp add: hard_sleep)


section \<open>Creating a container\<close>

lemma exec_logged:
  assumes "logs I Log" "IncusExec I args w = (r, w')"
  shows "\<exists>res. Log w' = Log w @ [(buildIncusCommand I args, res)] \<and> (r = Inr () \<longrightarrow> succeeded res)"
proof -
  obtain res w1 where run: "runIncus I args w = (res, w1)" by (rule prod.exhaust)
  then have "w' = w1" "r = doneOr () (runErr (shStatus res))" using assms(2) by (simp_all add: IncusExec_def)
  then show ?thesis using run_logged[OF assms(1), of args w] run
    by (cases "shStatus res") (auto simp: doneOr_def succeeded_def)
qed

lemma execs_logged:
  assumes "logs I Log"
  shows "forA (\<lambda>kv. IncusExec I (f kv)) xs w = (Inr (), w') \<Longrightarrow>
    \<exists>rs. Log w' = Log w @ zip (map (\<lambda>kv. buildIncusCommand I (f kv)) xs) rs \<and> length rs = length xs \<and> list_all succeeded rs"
proof (induction xs arbitrary: w)
  case (Cons x xs)
  then obtain w1 where x: "IncusExec I (f x) w = (Inr (), w1)" and xs: "forA (\<lambda>kv. IncusExec I (f kv)) xs w1 = (Inr (), w')"
    by (auto simp: thenA_Inr)
  from exec_logged[OF assms x] obtain res where res: "Log w1 = Log w @ [(buildIncusCommand I (f x), res)]" "succeeded res" by blast
  from Cons.IH[OF xs] obtain rs where "Log w' = Log w1 @ zip (map (\<lambda>kv. buildIncusCommand I (f kv)) xs) rs"
    "length rs = length xs" "list_all succeeded rs" by blast
  with res show ?case by (intro exI[of _ "res # rs"]) simp
qed simp

lemma output_logged:
  assumes "logs I Log" "IncusOutput I args w = (r, w')"
  shows "\<exists>res. Log w' = Log w @ [(buildIncusCommand I args, res)] \<and>
    (says_privileged res \<longrightarrow> (case r of Inr out \<Rightarrow> containsPrivilegedValue out | Inl _ \<Rightarrow> False))"
proof -
  have trim: "trim_space s = ''true'' \<Longrightarrow> trim_space (trim_space s) = ''true''" for s
    by (simp add: trim_space_def is_space_def)
  obtain res w1 where run: "runIncus I args w = (res, w1)" by (rule prod.exhaust)
  then have "w' = w1" "r = doneOr (trim_space (shOut res)) (toExitError (shStatus res) (trim_space (shErr res)))"
    using assms(2) by (simp_all add: IncusOutput_def outputOf_def)
  then show ?thesis using run_logged[OF assms(1), of args w] run trim[of "shOut res"]
    by (cases "shStatus res") (auto simp: doneOr_def says_privileged_def succeeded_def containsPrivilegedValue_def)
qed

lemma check_logged:
  assumes "logs I Log" "CheckNotPrivileged I c w = (Inr (), w')"
  shows "\<exists>p1 p2. Log w' = Log w @ [(buildIncusCommand I [''config'', ''get'', c, ''security.privileged''], p1),
      (buildIncusCommand I [''profile'', ''get'', ''default'', ''security.privileged''], p2)] \<and>
    \<not> says_privileged p1 \<and> \<not> says_privileged p2"
proof -
  obtain r1 w1 where 1: "IncusOutput I [''config'', ''get'', c, ''security.privileged''] w = (r1, w1)" by (rule prod.exhaust)
  obtain r2 w2 where 2: "IncusOutput I [''profile'', ''get'', ''default'', ''security.privileged''] w1 = (r2, w2)" by (rule prod.exhaust)
  have *: "\<not> (case r1 of Inr out \<Rightarrow> containsPrivilegedValue out | Inl _ \<Rightarrow> False)"
    "\<not> (case r2 of Inr out \<Rightarrow> containsPrivilegedValue out | Inl _ \<Rightarrow> False)" "w' = w2"
    using assms(2) by (auto simp: CheckNotPrivileged_def act_Inr 1 2 split: if_splits)
  from output_logged[OF assms(1) 1] * obtain p1 where "Log w1 = Log w @ [(buildIncusCommand I [''config'', ''get'', c, ''security.privileged''], p1)]"
    "\<not> says_privileged p1" by blast
  moreover from output_logged[OF assms(1) 2] * obtain p2 where
    "Log w2 = Log w1 @ [(buildIncusCommand I [''profile'', ''get'', ''default'', ''security.privileged''], p2)]" "\<not> says_privileged p2" by blast
  ultimately show ?thesis using * by auto
qed

lemma hook_logged:
  assumes "hook_ok I Log img c pool eph preStart Pre" "(case preStart of None \<Rightarrow> retA () | Some p \<Rightarrow> p) w = (r, w')"
  shows "\<exists>hook. Log w' = Log w @ hook \<and> startCmd I c \<notin> fst ` set hook \<and> initCmd I img c pool eph \<notin> fst ` set hook \<and>
    (r = Inr () \<longrightarrow> Pre hook)"
proof (cases preStart)
  case None
  with assms show ?thesis by (auto simp: hook_ok_def)
next
  case (Some p)
  with assms show ?thesis unfolding hook_ok_def
    by (simp del: split_paired_All) (drule spec[of _ w], simp)
qed

lemma init_success:
  assumes "logs I Log" "hook_ok I Log img c pool eph preStart Pre"
    "initAndConfigureContainer I img c pool eph preStart w = (Inr (), w')"
  shows "\<exists>tr. Log w' = Log w @ tr \<and> hardened I img c pool eph Pre tr"
proof -
  from assms(3) obtain w1 w2 w3 w4 where
    i: "IncusExec I ([''init'', img, c] @ (if eph then [''--ephemeral''] else []) @ (if pool \<noteq> [] then [''-s'', pool] else [])) w = (Inr (), w1)" and
    d: "EnableDockerSupport I c w1 = (Inr (), w2)" and g: "DisableGuestAPI I c w2 = (Inr (), w3)" and
    p: "CheckNotPrivileged I c w3 = (Inr (), w4)" and h: "(case preStart of None \<Rightarrow> retA () | Some p \<Rightarrow> p) w4 = (Inr (), w')"
    unfolding initAndConfigureContainer_def thenA_Inr by auto
  from exec_logged[OF assms(1) i] obtain r0 where r0: "Log w1 = Log w @ [(initCmd I img c pool eph, r0)]" "succeeded r0"
    unfolding initCmd_def by blast
  from execs_logged[OF assms(1) d[unfolded EnableDockerSupport_def]] obtain rs where
    rs: "Log w2 = Log w1 @ zip (map (\<lambda>kv. buildIncusCommand I [''config'', ''set'', c, kv]) dockerFlags) rs"
      "length rs = length dockerFlags" "list_all succeeded rs" by blast
  from exec_logged[OF assms(1) g[unfolded DisableGuestAPI_def]] obtain r1 where
    r1: "Log w3 = Log w2 @ [(buildIncusCommand I [''config'', ''set'', c, ''security.guestapi=false''], r1)]" "succeeded r1" by blast
  from check_logged[OF assms(1) p] obtain p1 p2 where
    ps: "Log w4 = Log w3 @ [(buildIncusCommand I [''config'', ''get'', c, ''security.privileged''], p1),
      (buildIncusCommand I [''profile'', ''get'', ''default'', ''security.privileged''], p2)]"
      "\<not> says_privileged p1" "\<not> says_privileged p2" by blast
  from hook_logged[OF assms(2) h] obtain hook where
    hk: "Log w' = Log w4 @ hook" "initCmd I img c pool eph \<notin> fst ` set hook" "Pre hook" by blast
  have z: "zip (hardenCmds I img c pool eph) (r0 # rs @ [r1]) = (initCmd I img c pool eph, r0) #
      zip (map (\<lambda>kv. buildIncusCommand I [''config'', ''set'', c, kv]) dockerFlags) rs @
      [(buildIncusCommand I [''config'', ''set'', c, ''security.guestapi=false''], r1)]"
    using rs(2) by (simp add: hardenCmds_def)
  have "hardened I img c pool eph Pre (zip (hardenCmds I img c pool eph) (r0 # rs @ [r1]) @
      [(buildIncusCommand I [''config'', ''get'', c, ''security.privileged''], p1),
      (buildIncusCommand I [''profile'', ''get'', ''default'', ''security.privileged''], p2)] @ hook)"
    unfolding hardened_def using r0(2) r1(2) rs(2,3) ps(2,3) hk(2,3)
    by (intro exI[of _ "[]"] exI[of _ "r0 # rs @ [r1]"] exI[of _ p1] exI[of _ p2] exI[of _ hook]) (simp add: hardenCmds_def)
  then show ?thesis unfolding z using r0(1) rs(1) r1(1) ps(1) hk(1) by auto
qed

lemma hardened_prepend: "hardened I img c pool eph Pre tr \<Longrightarrow> hardened I img c pool eph Pre (tr0 @ tr)"
  unfolding hardened_def by (elim exE) (rule_tac x = "tr0 @ a" in exI, simp, blast)

lemma safe_init:
  assumes log: "logs I Log" and "hook_ok I Log img c pool eph preStart Pre"
  shows "keeps (safe_log I Log L0 img c pool eph Pre) (initAndConfigureContainer I img c pool eph preStart)"
proof -
  have "keeps (safe_log I Log L0 img c pool eph Pre) (case preStart of None \<Rightarrow> retA () | Some p \<Rightarrow> p)"
  proof (rule keepsI)
    fix w r w'
    assume s: "safe_log I Log L0 img c pool eph Pre w" and h: "(case preStart of None \<Rightarrow> retA () | Some p \<Rightarrow> p) w = (r, w')"
    from hook_logged[OF assms(2) h] obtain hook where hook: "Log w' = Log w @ hook" "startCmd I c \<notin> fst ` set hook" by blast
    from s obtain tr where tr: "Log w = L0 @ tr" "safe_trace I img c pool eph Pre tr" unfolding safe_log_def by blast
    show "safe_log I Log L0 img c pool eph Pre w'" unfolding safe_log_def
      by (rule exI[of _ "tr @ hook"]) (simp add: hook(1) tr(1) safe_trace_append[OF tr(2) hook(2)])
  qed
  then show ?thesis
    unfolding initAndConfigureContainer_def EnableDockerSupport_def DisableGuestAPI_def CheckNotPrivileged_def append_Cons
    by (intro keeps_combinators keeps_if keeps_forA safe_cmds[OF log] verbs_mem verbs_neq)
qed

lemma init_hard:
  assumes "logs I Log" "hook_ok I Log img c pool eph preStart Pre" "safe_log I Log L0 img c pool eph Pre w"
    "initAndConfigureContainer I img c pool eph preStart w = (Inr (), w')"
  shows "hard_log I Log L0 img c pool eph Pre w'"
proof -
  from init_success[OF assms(1,2,4)] obtain tr where tr: "Log w' = Log w @ tr" "hardened I img c pool eph Pre tr" by blast
  from keepsD[OF safe_init[OF assms(1,2)] assms(4,3)] obtain tr' where tr': "Log w' = L0 @ tr'" "safe_trace I img c pool eph Pre tr'"
    unfolding safe_log_def by blast
  from assms(3) obtain tr0 where "Log w = L0 @ tr0" unfolding safe_log_def by blast
  with tr tr' have "tr' = tr0 @ tr" by simp
  with tr(2) tr' show ?thesis unfolding hard_log_def using hardened_prepend by blast
qed


section \<open>The launch\<close>

lemma safe_recreate:
  assumes "logs I Log" "hook_ok I Log img c pool eph preStart Pre" "safe_log I Log L0 img c pool eph Pre w"
  shows "safe_log I Log L0 img c pool eph Pre (snd (initConfigureAndStart I img c pool eph preStart w))"
proof -
  obtain r w1 where init: "initAndConfigureContainer I img c pool eph preStart w = (r, w1)" by (rule prod.exhaust)
  show ?thesis
  proof (cases r)
    case (Inl e)
    have "safe_log I Log L0 img c pool eph Pre w1"
      using keepsD[OF safe_init[OF assms(1,2)] init assms(3)] .
    then show ?thesis using Inl init by (simp add: initConfigureAndStart_def thenA_def bindA_def)
  next
    case (Inr u)
    have "hard_log I Log L0 img c pool eph Pre w1"
      using init_hard[OF assms] init Inr by simp
    moreover obtain r2 w2 where st: "IncusExec I [''start'', c] w1 = (r2, w2)" by (rule prod.exhaust)
    ultimately have "hard_log I Log L0 img c pool eph Pre w2"
      by (rule keepsD[OF hard_cmds(1)[OF assms(1) verbs_mem(1) verbs_neq(1)], rotated])
    then show ?thesis using Inr init st hard_safe by (simp add: initConfigureAndStart_def thenA_def bindA_def)
  qed
qed

lemma hard_running:
  assumes "logs I Log" "hard_log I Log L0 img c pool eph Pre w" "isRunning I c w = (r, w')"
  shows "hard_log I Log L0 img c pool eph Pre w'"
  using keepsD[OF hard.running assms(3)] assms(1,2) by blast

lemma safe_running:
  assumes log: "logs I Log" and "safe_log I Log L0 img c pool eph Pre w" "isRunning I c w = (r, w')"
  shows "safe_log I Log L0 img c pool eph Pre w'"
proof -
  have "keeps (safe_log I Log L0 img c pool eph Pre) (isRunning I c)"
    unfolding isRunning_def ContainerRunning_def by (intro keeps_intros safe_cmds[OF log] verbs_mem verbs_neq)
  from keepsD[OF this assms(3,2)] show ?thesis .
qed

lemma poll_ephemeral:
  assumes log: "logs I Log" and hook: "hook_ok I Log img c pool True preStart Pre"
  shows "hard_log I Log L0 img c pool True Pre w \<Longrightarrow>
    pollEphemeral I c (initConfigureAndStart I img c pool True preStart) e d n w = (r, w') \<Longrightarrow>
    safe_log I Log L0 img c pool True Pre w' \<and> (r = Inr None \<longrightarrow> hard_log I Log L0 img c pool True Pre w')"
proof (induction n arbitrary: w)
  case 0
  then show ?case using hard_safe[of I Log L0 img c pool True Pre w'] by simp
next
  case (Suc n)
  show ?case
  proof (cases "Now I w < d")
    case False
    with Suc.prems show ?thesis using hard_safe[of I Log L0 img c pool True Pre w'] by simp
  next
    case True
    obtain b w1 where run: "isRunning I c (Sleep I 500 w) = (b, w1)" by (rule prod.exhaust)
    have h1: "hard_log I Log L0 img c pool True Pre w1"
      using hard_running[OF log _ run, of L0 img pool True Pre] Suc.prems(1) hard_sleep[OF log] by blast
    obtain q w2 where q: "IncusOutput I [''list'', ''^'' @ c @ ''$'', ''--format=csv'', ''--columns=n''] w1 = (q, w2)"
      by (rule prod.exhaust)
    have h2: "hard_log I Log L0 img c pool True Pre w2"
      using keepsD[OF hard_cmds(3)[OF log verbs_mem(3) verbs_neq(2)] q h1] .
    obtain r3 w3 where rec: "initConfigureAndStart I img c pool True preStart w2 = (r3, w3)" by (rule prod.exhaust)
    have s3: "safe_log I Log L0 img c pool True Pre w3"
      using safe_recreate[OF log hook hard_safe[OF h2]] rec by simp
    obtain b4 w4 where run4: "isRunning I c w3 = (b4, w4)" by (rule prod.exhaust)
    have s4: "safe_log I Log L0 img c pool True Pre w4" using safe_running[OF log s3 run4] .
    have b: "\<exists>x. b = Inr x" "\<exists>x. b4 = Inr x"
      using run run4 by (auto simp: isRunning_def bindA_def tryA_def split: prod.splits)
    then obtain up up4 where up: "b = Inr up" "b4 = Inr up4" by blast
    define deleted where "deleted = (case q of Inr out \<Rightarrow> trim_space out = [] | Inl _ \<Rightarrow> False)"
    have step: "(r, w') = (if up then (Inr (Some None), w1)
        else if deleted then (case r3 of Inr _ \<Rightarrow> (Inr (Some None), w3)
               | Inl x \<Rightarrow> (Inr (Some (if up4 then None else startRetryError e (Some x))), w4))
        else pollEphemeral I c (initConfigureAndStart I img c pool True preStart) e d n w2)"
      using Suc.prems(2) True unfolding deleted_def
      by (cases up; cases q; cases r3; cases "trim_space (projr q) = []"; simp add: bindA_def tryA_def run q[simplified] rec run4 up)
    show ?thesis
    proof (cases "up \<or> deleted")
      case True
      with step h1 s3 s4 hard_safe[OF h1] show ?thesis by (auto split: if_splits sum.splits)
    next
      case False
      with step Suc.IH[OF h2] show ?thesis by simp
    qed
  qed
qed

lemma bindA_steps: "m w = (r, w1) \<Longrightarrow> bindA m f w = (case r of Inl e \<Rightarrow> (Inl e, w1) | Inr x \<Rightarrow> f x w1)"
  by (simp add: bindA_def split: sum.splits)

lemma thenA_steps: "m w = (r, w1) \<Longrightarrow> thenA m k w = (case r of Inl e \<Rightarrow> (Inl e, w1) | Inr x \<Rightarrow> k w1)"
  by (simp add: thenA_def bindA_steps)

lemma tryA_steps: "m w = (r, w1) \<Longrightarrow> tryA m w = (Inr r, w1)"
  by (simp add: tryA_def)

lemma hard_tail:
  assumes log: "logs I Log"
  shows "keeps (hard_log I Log L0 img c pool eph Pre)
    (bindA (idmapRetry I c e) (\<lambda>q. case q of None \<Rightarrow> retA ()
       | Some _ \<Rightarrow> thenA (warnA (IncusExecQuiet I [''config'', ''unset'', c, ''security.idmap.isolated'']))
           (bindA (startOrRunning I c) (\<lambda>r2. finishA (startRetryError e r2)))))"
proof -
  have "keeps (hard_log I Log L0 img c pool eph Pre) (idmapRetry I c e)"
    "keeps (hard_log I Log L0 img c pool eph Pre) (startOrRunning I c)"
    "keeps (hard_log I Log L0 img c pool eph Pre) (finishA x)" for x
    using hard.retrying[of I Log L0 img c pool eph Pre e] hard.starting(1)[of I Log L0 img c pool eph Pre]
      hard.finishing[of I Log L0 img c pool eph Pre x] log by (simp_all only: simp_thms True_implies_equals)
  then show ?thesis by (intro keeps_combinators keeps_case_option hard_cmds[OF log] verbs_mem verbs_neq)
qed

lemma hard_isolation:
  assumes log: "logs I Log"
  shows "keeps (hard_log I Log L0 img c pool eph Pre) (StartWithIsolationFallback I c)"
proof -
  have "keeps (hard_log I Log L0 img c pool eph Pre) (startWithIdmapRecovery I c)"
    "keeps (hard_log I Log L0 img c pool eph Pre) (startOrRunning I c)"
    using hard.recovering[of I Log L0 img c pool eph Pre] hard.starting(1)[of I Log L0 img c pool eph Pre] log
    by (simp_all only: simp_thms True_implies_equals)
  then show ?thesis unfolding StartWithIsolationFallback_def
    by (intro keeps_combinators keeps_case_option keeps_case_sum keeps_if hard_cmds[OF log] verbs_mem verbs_neq)
qed

lemma launch_safe:
  assumes log: "logs I Log" and hook: "hook_ok I Log img c pool eph preStart Pre"
  shows "keeps (safe_log I Log L0 img c pool eph Pre) (LaunchContainerWithPreStart I img c pool eph preStart)"
proof (rule keepsI)
  fix w r w'
  assume s: "safe_log I Log L0 img c pool eph Pre w" and
    launch: "LaunchContainerWithPreStart I img c pool eph preStart w = (r, w')"
  obtain ri w1 where init: "initAndConfigureContainer I img c pool eph preStart w = (ri, w1)" by (rule prod.exhaust)
  have s1: "safe_log I Log L0 img c pool eph Pre w1" using keepsD[OF safe_init[OF log hook] init s] .
  show "safe_log I Log L0 img c pool eph Pre w'"
  proof (cases ri)
    case (Inl e)
    with launch init s1 show ?thesis by (simp add: LaunchContainerWithPreStart_def thenA_def bindA_def)
  next
    case (Inr u)
    then have h1: "hard_log I Log L0 img c pool eph Pre w1" using init_hard[OF log hook s] init by simp
    obtain u2 w2 where iso: "warnA (IsolateUIDNamespace I c) w1 = (Inr u2, w2)"
      by (cases "IsolateUIDNamespace I c w1") (simp add: warnA_def)
    have h2: "hard_log I Log L0 img c pool eph Pre w2"
      using keepsD[OF keeps_combinators(8)[OF hard_cmds(1)[OF log verbs_mem(4) verbs_neq(3)]] iso[unfolded IsolateUIDNamespace_def] h1] .
    show ?thesis
    proof (cases eph)
      case False
      then have "StartWithIsolationFallback I c w2 = (r, w')"
        using launch init Inr iso by (simp add: LaunchContainerWithPreStart_def thenA_def bindA_def)
      from hard_safe[OF keepsD[OF hard_isolation[OF log] this h2]] show ?thesis .
    next
      case True
      then have eph: "eph = True" by simp
      obtain r3 w3 where st: "startCapture I c w2 = (r3, w3)" by (rule prod.exhaust)
      have h3: "hard_log I Log L0 img c pool eph Pre w3"
        using keepsD[OF hard.starting(2) st] h2 log by blast
      show ?thesis
      proof (cases r3)
        case (Inr v)
        with launch init \<open>ri = Inr u\<close> iso True st hard_safe[OF h3] show ?thesis
          by (simp add: LaunchContainerWithPreStart_def thenA_def bindA_def tryA_def)
      next
        case (Inl e)
        obtain p w4 where poll: "pollEphemeral I c (initConfigureAndStart I img c pool True preStart) e
            (Now I w3 + 5000) startPolls w3 = (p, w4)" by (rule prod.exhaust)
        have p4: "safe_log I Log L0 img c pool eph Pre w4 \<and> (p = Inr None \<longrightarrow> hard_log I Log L0 img c pool eph Pre w4)"
          using poll_ephemeral[OF log hook[unfolded eph] h3[unfolded eph] poll] eph by simp
        let ?rest = "bindA (idmapRetry I c e) (\<lambda>q. case q of None \<Rightarrow> retA ()
                | Some _ \<Rightarrow> thenA (warnA (IncusExecQuiet I [''config'', ''unset'', c, ''security.idmap.isolated'']))
                    (bindA (startOrRunning I c) (\<lambda>r2. finishA (startRetryError e r2))))"
        have tail: "(case p of Inl x \<Rightarrow> (Inl x, w4) | Inr x \<Rightarrow> (case x of None \<Rightarrow> ?rest | Some q \<Rightarrow> finishA q) w4) = (r, w')"
          using launch init \<open>ri = Inr u\<close> iso True st Inl poll
          by (simp only: LaunchContainerWithPreStart_def sum.case if_False not_True_eq_False
              thenA_steps[of "initAndConfigureContainer I img c pool True preStart", OF init[unfolded eph]]
              thenA_steps[of "warnA (IsolateUIDNamespace I c)", OF iso]
              bindA_steps[of "tryA (startCapture I c)", OF tryA_steps[of "startCapture I c", OF st]]
              bindA_steps[of "\<lambda>w. pollEphemeral I c (initConfigureAndStart I img c pool True preStart) e (Now I w + 5000) startPolls w", OF poll])
        show ?thesis
        proof (cases "p = Inr None")
          case True
          have rest: "?rest w4 = (r, w')" using tail unfolding True by (simp only: sum.case option.case)
          have "hard_log I Log L0 img c pool eph Pre w4" using p4 True by (simp only: simp_thms)
          from hard_safe[OF keepsD[OF hard_tail[OF log] rest this]] show ?thesis .
        next
          case False
          have "w' = w4"
          proof (cases p)
            case (Inl x)
            with tail show ?thesis by simp
          next
            case (Inr x)
            with False obtain q where "x = Some q" by (cases x) auto
            with tail Inr show ?thesis by (auto simp: finishA_def split: option.splits)
          qed
          with p4 show ?thesis by simp
        qed
      qed
    qed
  qed
qed

text \<open>C26. In every run of a launch, whatever fails on the way and whichever fallback is taken, each
  \<open>incus start\<close> of the container comes after its creation, after every Docker flag and the switch-off
  of the guest API were set successfully, after neither the container nor the default profile was
  found privileged, and after the pre-start hook did its work, with no new creation in between.\<close>

theorem launch_hardened_first:
  assumes "logs I Log" "hook_ok I Log img c pool eph preStart Pre"
    "LaunchContainerWithPreStart I img c pool eph preStart w = (r, w')"
  shows "\<exists>tr. Log w' = Log w @ tr \<and> safe_trace I img c pool eph Pre tr"
proof -
  have "safe_log I Log (Log w) img c pool eph Pre w" by (auto simp: safe_log_def)
  from keepsD[OF launch_safe[OF assms(1,2)] assms(3) this] show ?thesis unfolding safe_log_def .
qed


text \<open>A shell that does everything, in a world that is the log.\<close>

definition okRes :: shres where
  "okRes = \<lparr> shOut = [], shErr = [], shAll = [], shStatus = Finished \<rparr>"

definition recordingShell :: "(string \<times> shres) list incus" where
  "recordingShell = \<lparr> IncusProject = ''default'', CodeUID = 1000, HostUID = 1000,
     Sh = (\<lambda>cmd w. (okRes, w @ [(cmd, okRes)])), Now = (\<lambda>w. 0), Sleep = (\<lambda>d w. w) \<rparr>"

lemma recording_run [simp]: "runIncus recordingShell args w = (okRes, w @ [(buildIncusCommand recordingShell args, okRes)])"
  by (simp add: runIncus_def recordingShell_def)

lemma recording_exec [simp]:
  "IncusExec recordingShell args w = (Inr (), w @ [(buildIncusCommand recordingShell args, okRes)])"
  "IncusExecQuiet recordingShell args w = (Inr (), w @ [(buildIncusCommand recordingShell args, okRes)])"
  "IncusOutput recordingShell args w = (Inr [], w @ [(buildIncusCommand recordingShell args, okRes)])"
  by (simp_all add: IncusExec_def IncusExecQuiet_def IncusOutput_def outputOf_def doneOr_def okRes_def trim_space_def)

theorem launch_hardened_first_witness:
  "\<exists>w'. LaunchContainerWithPreStart recordingShell ''coi'' ''c1'' [] True None [] = (Inr (), w') \<and>
     safe_trace recordingShell ''coi'' ''c1'' [] True (\<lambda>h. h = []) w' \<and> length w' = 10 \<and>
     last w' = (startCmd recordingShell ''c1'', okRes)"
proof -
  have log: "logs recordingShell id" by (simp add: logs_def recordingShell_def)
  have hook: "hook_ok recordingShell id ''coi'' ''c1'' [] True None (\<lambda>h. h = [])" by (simp add: hook_ok_def)
  obtain w' where launch: "LaunchContainerWithPreStart recordingShell ''coi'' ''c1'' [] True None [] = (Inr (), w')"
    "length w' = 10" "last w' = (startCmd recordingShell ''c1'', okRes)"
    by (simp add: LaunchContainerWithPreStart_def initAndConfigureContainer_def EnableDockerSupport_def dockerFlags_def
        DisableGuestAPI_def CheckNotPrivileged_def containsPrivilegedValue_def trim_space_def IsolateUIDNamespace_def
        startCapture_def startCmd_def thenA_def bindA_def tryA_def warnA_def)
  from launch_hardened_first[OF log hook launch(1)] show ?thesis using launch by auto
qed

section \<open>A start that fails\<close>

lemma start_or_running_err: "startOrRunning I c w = (r, w') \<Longrightarrow> \<exists>x. r = Inr x"
  by (auto simp: startOrRunning_def bindA_def tryA_def isRunning_def split: prod.splits sum.splits)


text \<open>The world of the witness is the isolation flag; the shell cannot start the container.\<close>

definition brokenSh :: "string \<Rightarrow> bool \<Rightarrow> shres \<times> bool" where
  "brokenSh cmd w = (if cmd = ''incus --project default start c1'' then (okRes\<lparr> shStatus := Exited 1 ''exit status 1'' \<rparr>, w)
     else if cmd = ''incus --project default config get c1 security.idmap.isolated''
       then (okRes\<lparr> shOut := (if w then ''true'' else []) \<rparr>, w)
     else if cmd = ''incus --project default config unset c1 security.idmap.isolated'' then (okRes, False)
     else if cmd = ''incus --project default config set c1 security.idmap.isolated=true'' then (okRes, True)
     else (okRes, w))"

definition brokenShell :: "bool incus" where
  "brokenShell = \<lparr> IncusProject = ''default'', CodeUID = 1000, HostUID = 1000,
     Sh = brokenSh, Now = (\<lambda>w. 0), Sleep = (\<lambda>d w. w) \<rparr>"

lemma broken_cmds:
  "buildIncusCommand brokenShell [''start'', ''c1''] = ''incus --project default start c1''"
  "buildIncusCommand brokenShell [''list'', ''c1'', ''--format=json''] = ''incus --project default list c1 --format=json''"
  "buildIncusCommand brokenShell [''config'', ''get'', ''c1'', ''security.idmap.isolated''] = ''incus --project default config get c1 security.idmap.isolated''"
  "buildIncusCommand brokenShell [''config'', ''unset'', ''c1'', ''security.idmap.isolated''] = ''incus --project default config unset c1 security.idmap.isolated''"
  "buildIncusCommand brokenShell [''config'', ''set'', ''c1'', ''security.idmap.isolated=true''] = ''incus --project default config set c1 security.idmap.isolated=true''"
  "\<exists>s. buildIncusCommand brokenShell (''config'' # ''device'' # rest) = ''incus --project default config d'' @ s"
  "\<exists>s. buildIncusCommand brokenShell [''config'', ''set'', ''c1'', ''raw.idmap'', v] = ''incus --project default config set c1 r'' @ s"
  by (simp_all add: buildIncusCommand_def brokenShell_def shellQuote_def shell_plain_def char_defs join_head del: str_join.simps)

lemma broken_run:
  "runIncus brokenShell args w = brokenSh (buildIncusCommand brokenShell args) w"
  by (simp add: runIncus_def brokenShell_def)


end
