(* ===== verification/IncusManager.thy ===== *)
theory IncusManager
  imports IncusStart GoPath
begin

text \<open>
  The container manager, \<open>internal/container/manager.go\<close>, with \<open>storage.go\<close>, \<open>version.go\<close>,
  \<open>kernel.go\<close> and \<open>timezone.go\<close> of the same package: the commands of devices, files and
  executions, snapshots, storage pools, version checks and the host's time zone. The files of
  the host are parameters.
\<close>

section \<open>Life cycle and devices\<close>

definition Launch :: "'w incus \<Rightarrow> string \<Rightarrow> string \<Rightarrow> bool \<Rightarrow> string \<Rightarrow> ('w, unit) act" where
  "Launch I c img ephemeral pool =
     (if ephemeral then LaunchContainer I img c pool else LaunchContainerPersistent I img c pool)"

definition LaunchWithPreStart :: "'w incus \<Rightarrow> string \<Rightarrow> string \<Rightarrow> bool \<Rightarrow> string \<Rightarrow> ('w, unit) act option \<Rightarrow> ('w, unit) act" where
  "LaunchWithPreStart I c img ephemeral pool preStart = LaunchContainerWithPreStart I img c pool ephemeral preStart"

definition Stop :: "'w incus \<Rightarrow> string \<Rightarrow> bool \<Rightarrow> ('w, unit) act" where
  "Stop I c force = (if force then StopContainer I c else IncusExec I [''stop'', c])"

definition Delete :: "'w incus \<Rightarrow> string \<Rightarrow> bool \<Rightarrow> ('w, unit) act" where
  "Delete I c force = (if force then DeleteContainer I c else IncusExec I [''delete'', c])"

definition Exists :: "'w incus \<Rightarrow> string \<Rightarrow> ('w, bool) act" where
  "Exists I c = bindA (IncusOutput I [''list'', ''^'' @ c @ ''$'', ''--format=csv'', ''--columns=n''])
     (\<lambda>output. retA (0 < length output \<and> output \<noteq> [CHR 0x0A]))"

definition Start :: "'w incus \<Rightarrow> string \<Rightarrow> ('w, unit) act" where
  "Start I c = IncusExec I [''start'', c]"

definition MountDisk :: "'w incus \<Rightarrow> string \<Rightarrow> string \<Rightarrow> string \<Rightarrow> string \<Rightarrow> bool \<Rightarrow> bool \<Rightarrow> ('w, unit) act" where
  "MountDisk I c name source path shift readonly = IncusExec I
     ([''config'', ''device'', ''add'', c, name, ''disk'', ''source='' @ source, ''path='' @ path] @
      (if shift then [''shift=true''] else []) @ (if readonly then [''readonly=true''] else []))"

definition AddProxyDevice :: "'w incus \<Rightarrow> string \<Rightarrow> string \<Rightarrow> string \<Rightarrow> string \<Rightarrow> int \<Rightarrow> int \<Rightarrow> ('w, unit) act" where
  "AddProxyDevice I c name connect listen uid gid = IncusExec I
     [''config'', ''device'', ''add'', c, name, ''proxy'', ''connect='' @ connect, ''listen='' @ listen,
      ''bind=container'', ''uid='' @ itoa_int uid, ''gid='' @ itoa_int gid, ''mode=0600'']"

text \<open>\<open>net.JoinHostPort\<close>\<close>

definition JoinHostPort :: "string \<Rightarrow> string \<Rightarrow> string" where
  "JoinHostPort host port = (if CHR '':'' \<in> set host
     then ''['' @ host @ '']:'' @ port else host @ '':'' @ port)"

definition AddHostPortDevice :: "'w incus \<Rightarrow> string \<Rightarrow> string \<Rightarrow> string \<Rightarrow> int \<Rightarrow> int \<Rightarrow> ('w, unit) act" where
  "AddHostPortDevice I c name listenAddr hostPort containerPort = IncusExec I
     [''config'', ''device'', ''add'', c, name, ''proxy'',
      ''listen=tcp:'' @ JoinHostPort listenAddr (itoa_int hostPort),
      ''connect=tcp:127.0.0.1:'' @ itoa_int containerPort, ''bind=host'']"

definition RemoveDevice :: "'w incus \<Rightarrow> string \<Rightarrow> string \<Rightarrow> ('w, unit) act" where
  "RemoveDevice I c name = IncusExecQuiet I [''config'', ''device'', ''remove'', c, name]"

definition ListDevices :: "'w incus \<Rightarrow> string \<Rightarrow> ('w, string list) act" where
  "ListDevices I c = bindA (IncusOutput I [''config'', ''device'', ''list'', c]) (\<lambda>out.
     retA (filter (\<lambda>l. l \<noteq> []) (map trim_space (str_split out [CHR 0x0A]))))"

definition workspaceDeviceField :: "'w incus \<Rightarrow> string \<Rightarrow> string \<Rightarrow> ('w, string) act" where
  "workspaceDeviceField I c field =
     bindA (tryA (IncusOutput I [''config'', ''device'', ''get'', c, ''workspace'', field])) (\<lambda>r. case r of
         Inl _ \<Rightarrow> retA [] | Inr v \<Rightarrow> retA (trim_space v))"

definition GetWorkspacePath :: "'w incus \<Rightarrow> string \<Rightarrow> ('w, string) act" where
  "GetWorkspacePath I c = bindA (workspaceDeviceField I c ''path'') (\<lambda>p. retA (if p \<noteq> [] then p else ''/workspace''))"

definition GetWorkspaceSource :: "'w incus \<Rightarrow> string \<Rightarrow> ('w, string) act" where
  "GetWorkspaceSource I c = workspaceDeviceField I c ''source''"

section \<open>Executing in the container\<close>

text \<open>\<open>Env\<close> holds the variables in the order in which the map is visited.\<close>

record ExecCommandOptions =
  OUser :: "int option"
  OGroup :: "int option"
  OCwd :: string
  OEnv :: "(string \<times> string) list"
  OCapture :: bool
  OInteractive :: bool

definition noOptions :: ExecCommandOptions where
  "noOptions = \<lparr> OUser = None, OGroup = None, OCwd = [], OEnv = [], OCapture = False, OInteractive = False \<rparr>"

definition Exec :: "'w incus \<Rightarrow> string \<Rightarrow> string list \<Rightarrow> ('w, unit) act" where
  "Exec I c args = IncusExec I ([''exec'', c, ''--''] @ args)"

definition execOpts :: "ExecCommandOptions \<Rightarrow> string list" where
  "execOpts opts =
     concat (map (\<lambda>(k, v). [''--env'', k @ ''='' @ v]) (OEnv opts)) @
     (if OCwd opts \<noteq> [] then [''--cwd'', OCwd opts] else []) @
     (case OUser opts of None \<Rightarrow> []
       | Some u \<Rightarrow> [''--user'', itoa_int u, ''--group'', itoa_int (case OGroup opts of Some g \<Rightarrow> g | None \<Rightarrow> u)])"

definition forceInteractive :: "ExecCommandOptions \<Rightarrow> string list" where
  "forceInteractive opts = (if OInteractive opts then [''--force-interactive''] else [])"

definition ExecArgs :: "'w incus \<Rightarrow> string \<Rightarrow> string list \<Rightarrow> ExecCommandOptions \<Rightarrow> ('w, unit) act" where
  "ExecArgs I c commandArgs opts =
     IncusExec I ([''exec'', c] @ forceInteractive opts @ execOpts opts @ [''--''] @ commandArgs)"

definition ExecArgsCapture :: "'w incus \<Rightarrow> string \<Rightarrow> string list \<Rightarrow> ExecCommandOptions \<Rightarrow> ('w, string) act" where
  "ExecArgsCapture I c commandArgs opts = IncusOutputRaw I ([''exec'', c] @ execOpts opts @ [''--''] @ commandArgs)"

definition ExecCommand :: "'w incus \<Rightarrow> string \<Rightarrow> string \<Rightarrow> ExecCommandOptions \<Rightarrow> ('w, string) act" where
  "ExecCommand I c command opts =
     (let args = [''exec'', c] @ forceInteractive opts @ execOpts opts @ [''--'', ''bash'', ''-c'', command]
      in if OCapture opts then IncusOutput I args else thenA (IncusExec I args) (retA []))"

definition Chown :: "'w incus \<Rightarrow> string \<Rightarrow> string \<Rightarrow> int \<Rightarrow> int \<Rightarrow> ('w, unit) act" where
  "Chown I c path uid gid = ExecArgs I c [''chown'', ''-R'', itoa_int uid @ '':'' @ itoa_int gid, path] noOptions"

definition DirExists :: "'w incus \<Rightarrow> string \<Rightarrow> string \<Rightarrow> ('w, bool) act" where
  "DirExists I c path = bindA (tryA (ExecArgs I c [''test'', ''-d'', path] noOptions)) (\<lambda>r. retA (r = Inr ()))"

definition FileExists :: "'w incus \<Rightarrow> string \<Rightarrow> string \<Rightarrow> ('w, bool) act" where
  "FileExists I c path = bindA (tryA (ExecArgs I c [''test'', ''-f'', path] noOptions)) (\<lambda>r. retA (r = Inr ()))"

section \<open>Files\<close>

text \<open>An empty destination is an index out of range in Go: \<open>None\<close> is the panic.\<close>

definition absDest :: "string \<Rightarrow> string option" where
  "absDest d = (case d of [] \<Rightarrow> None | ch # _ \<Rightarrow> Some (if ch \<noteq> CHR ''/'' then CHR ''/'' # d else d))"

definition PushFile :: "'w incus \<Rightarrow> string \<Rightarrow> string \<Rightarrow> string \<Rightarrow> ('w, unit) act option" where
  "PushFile I c source destination = map_option (\<lambda>d. IncusFilePush I source (c @ d)) (absDest destination)"

definition PushFileWithOwner :: "'w incus \<Rightarrow> string \<Rightarrow> string \<Rightarrow> string \<Rightarrow> int \<Rightarrow> int \<Rightarrow> string \<Rightarrow> ('w, unit) act option" where
  "PushFileWithOwner I c source destination uid gid mode =
     map_option (\<lambda>d. IncusFilePushWithOwner I source (c @ d) uid gid mode) (absDest destination)"

text \<open>The directory is pushed into the parent of its destination; without a local directory nothing happens.\<close>

definition PushDirectory :: "'w incus \<Rightarrow> string \<Rightarrow> ('w \<Rightarrow> string \<Rightarrow> bool) \<Rightarrow> string \<Rightarrow> string \<Rightarrow> ('w, unit) act" where
  "PushDirectory I c isDir localPath containerPath w =
     (if \<not> isDir w localPath then (Inr (), w)
      else (let parent = (case last_index containerPath (CHR ''/'') of None \<Rightarrow> [] | Some i \<Rightarrow> take (Suc i) containerPath)
            in IncusExec I [''file'', ''push'', ''-r'', localPath, c @ (if parent = [] then ''/'' else parent)] w))"

section \<open>Sizes\<close>

text \<open>The suffixes with their factors, the longest first.\<close>

definition sizeUnits :: "(string \<times> int) list" where
  "sizeUnits = [(''kib'', 2 ^ 10), (''mib'', 2 ^ 20), (''gib'', 2 ^ 30), (''tib'', 2 ^ 40),
     (''kb'', 10 ^ 3), (''mb'', 10 ^ 6), (''gb'', 10 ^ 9), (''tb'', 10 ^ 12),
     (''k'', 2 ^ 10), (''m'', 2 ^ 20), (''g'', 2 ^ 30), (''t'', 2 ^ 40), (''b'', 1)]"

text \<open>
  \<open>scaled num mul\<close> stands for the floating-point arithmetic: \<open>int64(f * mul)\<close> where \<open>f\<close> is
  \<open>strconv.ParseFloat(num, 64)\<close>, \<open>None\<close> when \<open>num\<close> is no number.
\<close>

definition parseSizeBytes :: "(string \<Rightarrow> int \<Rightarrow> int option) \<Rightarrow> string \<Rightarrow> int result" where
  "parseSizeBytes scaled s0 = (let s = trim_space s0; lower = to_lower s in
     if s = [] then Inl (Errorf ''empty size'' [])
     else case find (\<lambda>u. has_suffix lower (fst u)) sizeUnits of
         Some (sfx, mul) \<Rightarrow> (case scaled (trim_space (take (length lower - length sfx) lower)) mul of
             None \<Rightarrow> Inl (Errorf ''bad numeric value in %q'' [s]) | Some v \<Rightarrow> Inr v)
       | None \<Rightarrow> (case atoi lower of None \<Rightarrow> Inl (Errorf ''unrecognized size %q'' [s]) | Some n \<Rightarrow> Inr n))"

section \<open>Group membership\<close>

definition UserInGroupFile :: "string option \<Rightarrow> string \<Rightarrow> string \<Rightarrow> bool" where
  "UserInGroupFile groupFile username groupName = (case groupFile of None \<Rightarrow> False
     | Some data \<Rightarrow> \<exists>line \<in> set (str_split data [CHR 0x0A]). has_prefix line (groupName @ '':'') \<and>
         (let parts = str_splitn 4 line '':'' in length parts = 4 \<and>
            (\<exists>member \<in> set (str_split (parts ! 3) '',''). trim_space member = username)))"

section \<open>Snapshots\<close>

text \<open>
  The times of a snapshot are kept as \<open>time.Parse\<close> reads them (\<open>parseTime\<close>); one that does not
  parse, or the zero time, is left out.
\<close>

record 't SnapshotInfo =
  SnName :: string
  SnCreatedAt :: "'t option"
  SnExpiresAt :: "'t option"
  SnStateful :: bool

definition rawSnapshot :: "(string \<times> json) list \<Rightarrow> (string \<times> string \<times> string \<times> bool) option" where
  "rawSnapshot ms = Option.bind (field_str ''name'' ms) (\<lambda>n. Option.bind (field_str ''created_at'' ms) (\<lambda>cr.
     Option.bind (field_str ''expires_at'' ms) (\<lambda>ex. map_option (\<lambda>st. (n, cr, ex, st)) (field_bool ''stateful'' ms))))"

definition snapshotInfo :: "(string \<Rightarrow> 't option) \<Rightarrow> string \<times> string \<times> string \<times> bool \<Rightarrow> 't SnapshotInfo" where
  "snapshotInfo parseTime = (\<lambda>(n, cr, ex, st). \<lparr> SnName = n,
     SnCreatedAt = (if cr \<noteq> [] then parseTime cr else None),
     SnExpiresAt = (if ex \<noteq> [] \<and> ex \<noteq> ''0001-01-01T00:00:00Z'' then parseTime ex else None), SnStateful = st \<rparr>)"

definition ListSnapshots :: "'w incus \<Rightarrow> (string \<Rightarrow> 't option) \<Rightarrow> string \<Rightarrow> ('w, 't SnapshotInfo list) act" where
  "ListSnapshots I parseTime c = bindA (SnapshotList I c) (\<lambda>output.
     bindA (liftA (wrapE ''failed to parse snapshot list'' (json_structs rawSnapshot output))) (\<lambda>raws.
       retA (map (snapshotInfo parseTime) raws)))"

definition SnapshotExists :: "'w incus \<Rightarrow> (string \<Rightarrow> 't option) \<Rightarrow> string \<Rightarrow> string \<Rightarrow> ('w, bool) act" where
  "SnapshotExists I parseTime c name = bindA (ListSnapshots I parseTime c) (\<lambda>ss. retA (\<exists>s \<in> set ss. SnName s = name))"

definition GetSnapshotInfo :: "'w incus \<Rightarrow> (string \<Rightarrow> 't option) \<Rightarrow> string \<Rightarrow> string \<Rightarrow> ('w, 't SnapshotInfo) act" where
  "GetSnapshotInfo I parseTime c name = bindA (ListSnapshots I parseTime c) (\<lambda>ss.
     case find (\<lambda>s. SnName s = name) ss of
       Some s \<Rightarrow> retA s | None \<Rightarrow> failA (Errorf ''snapshot %s not found for container %s'' [name, c]))"

section \<open>Storage pools\<close>

text \<open>
  Of a pool the name and the driver are kept; the decoder also checks that \<open>config\<close> maps to
  strings and \<open>used_by\<close> lists strings.
\<close>

definition to_strmap :: "unit \<Rightarrow> json \<Rightarrow> unit option" where
  "to_strmap u v = (case v of JNull \<Rightarrow> Some ()
     | JObj ms \<Rightarrow> if list_all (\<lambda>(k, x). to_str [] x \<noteq> None) ms then Some () else None | _ \<Rightarrow> None)"

definition poolFields :: "(string \<times> json) list \<Rightarrow> (string \<times> string) option" where
  "poolFields ms = Option.bind (field_str ''name'' ms) (\<lambda>n. Option.bind (field_str ''driver'' ms) (\<lambda>d.
     Option.bind (field_with to_strmap () ''config'' ms) (\<lambda>_.
     map_option (\<lambda>_. (n, d)) (field_with (\<lambda>_. to_slice (to_str [])) [] ''used_by'' ms))))"

definition ListStoragePools :: "'w incus \<Rightarrow> ('w, (string \<times> string) list) act" where
  "ListStoragePools I =
     bindA (wrapA ''failed to list storage pools'' (IncusOutputRaw I [''storage'', ''list'', ''--format=json''])) (\<lambda>out.
       liftA (wrapE ''failed to parse storage pool list'' (json_structs poolFields out)))"

definition ValidateStoragePool :: "'w incus \<Rightarrow> string \<Rightarrow> ('w, unit) act" where
  "ValidateStoragePool I pool = (if pool = [] then retA ()
     else bindA (ListStoragePools I) (\<lambda>pools.
       if pool \<in> set (map fst pools) then retA () else failA (Errorf ''storage pool %q does not exist.'' [pool])))"

section \<open>Versions\<close>

record Version =
  VMajor :: int
  VMinor :: int
  VPatch :: int
  VRaw :: string

definition ParseIncusVersion :: "string \<Rightarrow> Version result" where
  "ParseIncusVersion s0 = (let s = trim_space s0; parts = str_splitn 3 s ''.'' in
     if s = [] then Inl (Errorf ''empty version string'' [])
     else if length parts < 2 then Inl (Errorf ''invalid version format: %q (expected major.minor)'' [s])
     else case atoi (parts ! 0) of None \<Rightarrow> Inl (Errorf ''invalid major version in %q'' [s])
       | Some major \<Rightarrow> (case atoi (parts ! 1) of None \<Rightarrow> Inl (Errorf ''invalid minor version in %q'' [s])
           | Some minor \<Rightarrow> Inr \<lparr> VMajor = major, VMinor = minor, VPatch = 0, VRaw = s \<rparr>))"

definition ExtractServerVersion :: "string \<Rightarrow> string result" where
  "ExtractServerVersion output0 = (let output = trim_space output0; lines = str_split output [CHR 0x0A] in
     if output = [] then Inl (Errorf ''empty version output'' [])
     else case find (\<lambda>l. has_prefix l ''Server version:'') lines of
         Some line \<Rightarrow> (let version = trim_space (trim_prefix line ''Server version:'') in
             if version = [] then Inl (Errorf ''empty server version in output'' []) else Inr version)
       | None \<Rightarrow> Inr (trim_space (lines ! 0)))"

definition MeetsMinimumVersion :: "Version \<Rightarrow> bool" where
  "MeetsMinimumVersion v = (if VMajor v > 6 then True else if VMajor v = 6 then VMinor v \<ge> 1 else False)"

definition CheckMinimumVersion :: "'w incus \<Rightarrow> ('w, unit) act" where
  "CheckMinimumVersion I = bindA (tryA (IncusOutput I [''version''])) (\<lambda>r. case r of
       Inl _ \<Rightarrow> retA ()
     | Inr output \<Rightarrow> (case bindE (ExtractServerVersion output) ParseIncusVersion of
           Inl _ \<Rightarrow> retA ()
         | Inr v \<Rightarrow> if \<not> MeetsMinimumVersion v
             then failA (Errorf ''Incus version %s is below the minimum required 6.1'' [VRaw v]) else retA ()))"

definition ParseKernelVersion :: "string \<Rightarrow> Version result" where
  "ParseKernelVersion s0 = (let s = trim_space s0; parts = str_splitn 4 (str_splitn 2 s ''-'' ! 0) ''.'' in
     if s = [] then Inl (Errorf ''empty kernel version string'' [])
     else if length parts < 2 then Inl (Errorf ''invalid kernel version format: %q (expected major.minor)'' [s])
     else case atoi (parts ! 0) of None \<Rightarrow> Inl (Errorf ''invalid major version in %q'' [s])
       | Some major \<Rightarrow> (case atoi (parts ! 1) of None \<Rightarrow> Inl (Errorf ''invalid minor version in %q'' [s])
           | Some minor \<Rightarrow> (case (if 3 \<le> length parts then atoi (parts ! 2) else Some 0) of
               None \<Rightarrow> Inl (Errorf ''invalid patch version in %q'' [s])
             | Some patch \<Rightarrow> Inr \<lparr> VMajor = major, VMinor = minor, VPatch = patch, VRaw = s \<rparr>)))"

definition MeetsMinimumKernelVersion :: "Version \<Rightarrow> bool" where
  "MeetsMinimumKernelVersion v = (if VMajor v > 5 then True else if VMajor v = 5 then VMinor v \<ge> 15 else False)"

text \<open>The warning about the kernel; \<open>uname\<close> is the output of \<open>uname -r\<close>, \<open>None\<close> when it failed or off Linux.\<close>

definition CheckKernelVersion :: "string option \<Rightarrow> string option" where
  "CheckKernelVersion uname = (case uname of None \<Rightarrow> None
     | Some out \<Rightarrow> (case ParseKernelVersion out of Inl _ \<Rightarrow> None
         | Inr v \<Rightarrow> if \<not> MeetsMinimumKernelVersion v
             then Some (''WARNING: Kernel '' @ VRaw v @ '' is below the recommended minimum 5.15. '') else None))"

section \<open>Time zones\<close>

definition tz_char :: "char \<Rightarrow> bool" where
  "tz_char c \<longleftrightarrow> is_alnum c \<or> c \<in> set ''_+-''"

text \<open>The regular expression \<open>^[A-Za-z0-9_+\-]+(/[A-Za-z0-9_+\-]+)*$\<close>: every part between slashes is a word.\<close>

definition validTimezonePattern :: "string \<Rightarrow> bool" where
  "validTimezonePattern tz \<longleftrightarrow> list_all (\<lambda>p. p \<noteq> [] \<and> list_all tz_char p) (str_split tz ''/'')"

definition zoneinfoRoot :: string where "zoneinfoRoot = ''/usr/share/zoneinfo''"

text \<open>\<open>stat\<close> tells of a host path whether it is a directory, \<open>None\<close> when it is not there.\<close>

definition ValidateTimezone :: "(string \<Rightarrow> bool option) \<Rightarrow> string \<Rightarrow> bool" where
  "ValidateTimezone stat tz = (if tz = [] then False
     else if \<not> validTimezonePattern tz then False
     else (let zonePath = path_clean (path_join [zoneinfoRoot, tz]) in
       if \<not> has_prefix zonePath (zoneinfoRoot @ ''/'') then False else stat zonePath = Some False))"

text \<open>The three sources of the zone: \<open>/etc/timezone\<close>, \<open>timedatectl\<close> and the target of \<open>/etc/localtime\<close>.\<close>

definition detectFromText :: "(string \<Rightarrow> bool option) \<Rightarrow> string option \<Rightarrow> string" where
  "detectFromText stat text = (case text of None \<Rightarrow> []
     | Some data \<Rightarrow> (let tz = trim_space data in if tz \<noteq> [] \<and> ValidateTimezone stat tz then tz else []))"

definition detectFromLocaltime :: "(string \<Rightarrow> bool option) \<Rightarrow> string option \<Rightarrow> string" where
  "detectFromLocaltime stat link = (case link of None \<Rightarrow> []
     | Some target0 \<Rightarrow> (let target = path_clean (if is_abs target0 then target0 else path_join [''/etc'', target0]) in
         case str_index target (zoneinfoRoot @ ''/'') of None \<Rightarrow> []
         | Some idx \<Rightarrow> (let tz = drop (idx + length (zoneinfoRoot @ ''/'')) target in
             if tz \<noteq> [] \<and> ValidateTimezone stat tz then tz else [])))"

definition DetectHostTimezone :: "(string \<Rightarrow> bool option) \<Rightarrow> string option \<Rightarrow> string option \<Rightarrow> string option \<Rightarrow> string" where
  "DetectHostTimezone stat etcTimezone timedatectl localtime =
     (let a = detectFromText stat etcTimezone; b = detectFromText stat timedatectl; l = detectFromLocaltime stat localtime
      in if a \<noteq> [] then a else if b \<noteq> [] then b else l)"


section \<open>Lemmas\<close>

lemma MeetsMinimumVersion_lex: "MeetsMinimumVersion v \<longleftrightarrow> 6 < VMajor v \<or> VMajor v = 6 \<and> 1 \<le> VMinor v"
  by (simp add: MeetsMinimumVersion_def)

lemma ParseIncusVersion_release:
  assumes "a < 2 ^ 63" "b < 2 ^ 63"
  shows "ParseIncusVersion (itoa a @ ''.'' @ itoa b) =
    Inr \<lparr> VMajor = int a, VMinor = int b, VPatch = 0, VRaw = itoa a @ ''.'' @ itoa b \<rparr>"
proof -
  have digits: "\<And>n. CHR ''.'' \<notin> set (itoa n)" by (rule itoa_notin) (simp add: is_digit_def)
  have trim: "trim_space (itoa a @ ''.'' @ itoa b) = itoa a @ ''.'' @ itoa b"
    by (rule trim_space_id) (use itoa_digits[of a] itoa_digits[of b] in \<open>auto simp: list_all_iff char_defs\<close>)
  have idx: "str_index (itoa a @ ''.'' @ itoa b) ''.'' = Some (length (itoa a))"
    using str_index_char[OF digits[of a], of "itoa b"] by simp
  have none: "str_index (itoa b) ''.'' = None" using digits[of b] by (simp add: str_index_char_None)
  have parts: "str_splitn 3 (itoa a @ ''.'' @ itoa b) ''.'' = [itoa a, itoa b]"
    using idx none by (simp add: numeral_eq_Suc)
  show ?thesis using assms unfolding ParseIncusVersion_def Let_def trim parts by simp
qed

definition tz_path :: "string \<Rightarrow> string" where
  "tz_path tz = zoneinfoRoot @ ''/'' @ tz"

lemma tz_elems_plain:
  assumes "validTimezonePattern tz" "e \<in> set (str_split tz ''/'')"
  shows "plain_elem e"
proof -
  from assms have e: "e \<noteq> []" "list_all tz_char e" by (auto simp: validTimezonePattern_def list_all_iff)
  moreover have "\<not> tz_char (CHR ''.'')" "\<not> tz_char (CHR ''/'')" by (simp_all add: tz_char_def char_defs)
  ultimately have "CHR ''.'' \<notin> set e" "CHR ''/'' \<notin> set e" by (auto simp: list_all_iff)
  with e show ?thesis by (auto simp: plain_elem_def)
qed

lemma plain_stack: "list_all plain_elem st \<Longrightarrow> normal_stack r st"
  by (induction st) auto

lemma tz_path_clean:
  assumes "validTimezonePattern tz" "tz \<noteq> []"
  shows "path_clean (path_join [zoneinfoRoot, tz]) = tz_path tz"
proof -
  let ?es = "[''usr'', ''share'', ''zoneinfo''] @ str_split tz ''/''"
  have "list_all plain_elem (rev ?es)"
    using tz_elems_plain[OF assms(1)] by (simp add: list_all_iff plain_elem_def)
  then have n: "normal_stack True (rev ?es)" by (rule plain_stack)
  have "str_split tz ''/'' \<noteq> []" by (metis assms(2) join_split_char str_join.simps(1))
  then have p: "tz_path tz = render_path True ?es"
    using join_split_char[of "CHR ''/''" tz]
    by (simp add: tz_path_def zoneinfoRoot_def render_path_def str_join_Cons)
  have "path_clean (tz_path tz) = tz_path tz"
    unfolding p path_clean_def clean_parts_render[OF n] ..
  moreover have "path_join [zoneinfoRoot, tz] = path_clean (tz_path tz)"
    using assms(2) by (simp add: path_join_def tz_path_def zoneinfoRoot_def)
  ultimately show ?thesis by simp
qed

text \<open>
  A time zone that is accepted names a regular file below the zone directory, by the path the
  container will use, and holds no character a shell or a path treats specially.
\<close>

lemma timezone_safe:
  "ValidateTimezone stat tz \<longleftrightarrow> tz \<noteq> [] \<and> validTimezonePattern tz \<and> stat (tz_path tz) = Some False"
proof -
  have "has_prefix (tz_path tz) (zoneinfoRoot @ ''/'')" by (simp add: tz_path_def has_prefix_iff)
  then show ?thesis using tz_path_clean[of tz] by (auto simp: ValidateTimezone_def)
qed

lemma timezone_chars: "validTimezonePattern tz \<Longrightarrow> ch \<in> set tz \<Longrightarrow> tz_char ch \<or> ch = CHR ''/''"
proof -
  assume v: "validTimezonePattern tz" and ch: "ch \<in> set tz"
  have split: "set (str_join sep xs) \<subseteq> set sep \<union> (\<Union>x \<in> set xs. set x)" for sep xs
    by (induction sep xs rule: str_join.induct) auto
  have "ch \<in> set (str_join ''/'' (str_split tz ''/''))" using ch by (simp add: join_split_char)
  with split[of "''/''" "str_split tz ''/''"] v show ?thesis
    by (auto simp: validTimezonePattern_def list_all_iff)
qed

end
