(* ===== verification/GoRegex.thy ===== *)
theory GoRegex
  imports GoStrings
begin

text \<open>
  Regular expressions as the sources use them with \<open>MatchString\<close>: anchored patterns over byte
  classes. Matching is by derivatives, so that it computes; \<open>re_lang\<close> is the meaning of a
  pattern and \<open>re_match_iff\<close> relates the two.
\<close>

datatype re = RNone | REps | RCls "char \<Rightarrow> bool" | RSeq re re | RAlt re re | RStar re

fun re_lang :: "re \<Rightarrow> string set" where
  "re_lang RNone = {}"
| "re_lang REps = {[]}"
| "re_lang (RCls f) = {[c] |c. f c}"
| "re_lang (RSeq r s) = {x @ y |x y. x \<in> re_lang r \<and> y \<in> re_lang s}"
| "re_lang (RAlt r s) = re_lang r \<union> re_lang s"
| "re_lang (RStar r) = {concat xs |xs. set xs \<subseteq> re_lang r}"

fun re_nullable :: "re \<Rightarrow> bool" where
  "re_nullable RNone = False"
| "re_nullable REps = True"
| "re_nullable (RCls f) = False"
| "re_nullable (RSeq r s) = (re_nullable r \<and> re_nullable s)"
| "re_nullable (RAlt r s) = (re_nullable r \<or> re_nullable s)"
| "re_nullable (RStar r) = True"

text \<open>Sequences and alternatives with \<open>RNone\<close> removed, which keeps the derivatives small.\<close>

fun re_seq :: "re \<Rightarrow> re \<Rightarrow> re" where
  "re_seq RNone s = RNone"
| "re_seq REps s = s"
| "re_seq r s = RSeq r s"

fun re_alt :: "re \<Rightarrow> re \<Rightarrow> re" where
  "re_alt RNone s = s"
| "re_alt r RNone = r"
| "re_alt r s = RAlt r s"

fun re_deriv :: "char \<Rightarrow> re \<Rightarrow> re" where
  "re_deriv c RNone = RNone"
| "re_deriv c REps = RNone"
| "re_deriv c (RCls f) = (if f c then REps else RNone)"
| "re_deriv c (RSeq r s) = (if re_nullable r then re_alt (re_seq (re_deriv c r) s) (re_deriv c s)
     else re_seq (re_deriv c r) s)"
| "re_deriv c (RAlt r s) = re_alt (re_deriv c r) (re_deriv c s)"
| "re_deriv c (RStar r) = re_seq (re_deriv c r) (RStar r)"

text \<open>\<open>MatchString\<close> of the pattern \<open>^r$\<close>\<close>

definition re_match :: "re \<Rightarrow> string \<Rightarrow> bool" where
  "re_match r s = re_nullable (fold re_deriv s r)"

text \<open>Abbreviations of the regular expression syntax: a literal, \<open>\d\<close>, \<open>r+\<close>, \<open>r?\<close>.\<close>

fun re_lit :: "string \<Rightarrow> re" where
  "re_lit [] = REps"
| "re_lit (c # cs) = RSeq (RCls (\<lambda>x. x = c)) (re_lit cs)"

definition re_plus :: "re \<Rightarrow> re" where "re_plus r = RSeq r (RStar r)"
definition re_opt :: "re \<Rightarrow> re" where "re_opt r = RAlt REps r"
definition re_digits :: re where "re_digits = re_plus (RCls is_digit)"
definition re_oneof :: "string \<Rightarrow> re" where "re_oneof cs = RCls (\<lambda>c. c \<in> set cs)"

section \<open>Correctness of the matcher\<close>

lemma re_nullable_iff: "re_nullable r \<longleftrightarrow> [] \<in> re_lang r"
proof (induction r)
  case (RStar r)
  have "[] = concat ([] :: string list)" by simp
  then show ?case by (auto intro!: exI[of _ "[]"])
qed auto

lemma re_lang_seq [simp]: "re_lang (re_seq r s) = re_lang (RSeq r s)"
  by (cases "(r, s)" rule: re_seq.cases) auto

lemma re_lang_alt [simp]: "re_lang (re_alt r s) = re_lang (RAlt r s)"
  by (cases "(r, s)" rule: re_alt.cases) auto

lemma star_first:
  assumes "set xs \<subseteq> re_lang r" "c # s = concat xs"
  shows "\<exists>x ys. c # x \<in> re_lang r \<and> set ys \<subseteq> re_lang r \<and> s = x @ concat ys"
  using assms
proof (induction xs)
  case (Cons x xs)
  show ?case
  proof (cases x)
    case Nil
    with Cons show ?thesis by simp
  next
    case (Cons d x')
    with Cons.prems show ?thesis by (intro exI[of _ x'] exI[of _ xs]) simp
  qed
qed simp

lemma re_deriv_lang: "re_lang (re_deriv c r) = {s. c # s \<in> re_lang r}"
proof (induction r)
  case (RSeq r s)
  have split: "(\<exists>x y. c # z = x @ y \<and> x \<in> re_lang r \<and> y \<in> re_lang s) \<longleftrightarrow>
      ([] \<in> re_lang r \<and> c # z \<in> re_lang s \<or> (\<exists>x y. z = x @ y \<and> c # x \<in> re_lang r \<and> y \<in> re_lang s))" for z
    by (auto simp: Cons_eq_append_conv)
  show ?case using RSeq split by (auto simp: re_nullable_iff)
next
  case (RStar r)
  show ?case
  proof (intro set_eqI iffI)
    fix s
    assume "s \<in> re_lang (re_deriv c (RStar r))"
    then obtain x ys where "c # x \<in> re_lang r" "set ys \<subseteq> re_lang r" "s = x @ concat ys" using RStar by auto
    then have "set ((c # x) # ys) \<subseteq> re_lang r" "c # s = concat ((c # x) # ys)" by simp_all
    then show "s \<in> {s. c # s \<in> re_lang (RStar r)}" unfolding re_lang.simps mem_Collect_eq by blast
  next
    fix s
    assume "s \<in> {s. c # s \<in> re_lang (RStar r)}"
    then obtain xs where "set xs \<subseteq> re_lang r" "c # s = concat xs" by auto
    from star_first[OF this] show "s \<in> re_lang (re_deriv c (RStar r))" using RStar by auto
  qed
qed auto

lemma re_match_iff: "re_match r s \<longleftrightarrow> s \<in> re_lang r"
proof -
  have "re_lang (fold re_deriv s r) = {t. s @ t \<in> re_lang r}"
    by (induction s arbitrary: r) (simp_all add: re_deriv_lang)
  then show ?thesis by (simp add: re_match_def re_nullable_iff)
qed

section \<open>What the abbreviations mean\<close>

lemma re_lang_lit [simp]: "re_lang (re_lit s) = {s}"
  by (induction s) auto

lemma re_lang_digits: "re_lang re_digits = {s. s \<noteq> [] \<and> list_all is_digit s}"
proof (intro set_eqI iffI)
  fix s
  assume "s \<in> re_lang re_digits"
  then obtain c xs where "s = c # concat xs" "is_digit c" "set xs \<subseteq> {[c] |c. is_digit c}"
    by (auto simp: re_digits_def re_plus_def)
  then show "s \<in> {s. s \<noteq> [] \<and> list_all is_digit s}" by (auto simp: list_all_iff)
next
  fix s
  assume "s \<in> {s. s \<noteq> [] \<and> list_all is_digit s}"
  then obtain c t where s: "s = c # t" "is_digit c" "list_all is_digit t" by (cases s) auto
  have "t = concat (map (\<lambda>c. [c]) t)" "set (map (\<lambda>c. [c]) t) \<subseteq> {[c] |c. is_digit c}"
    using s(3) by (auto simp: list_all_iff)
  then have "t \<in> re_lang (RStar (RCls is_digit))" unfolding re_lang.simps by blast
  moreover have "[c] \<in> re_lang (RCls is_digit)" using s(2) by simp
  moreover have "s = [c] @ t" using s(1) by simp
  ultimately show "s \<in> re_lang re_digits" unfolding re_digits_def re_plus_def re_lang.simps(4) by blast
qed

lemma re_lang_opt [simp]: "re_lang (re_opt r) = insert [] (re_lang r)"
  by (simp add: re_opt_def)

lemma re_lang_oneof: "re_lang (re_oneof cs) = {[c] |c. c \<in> set cs}"
  by (simp add: re_oneof_def)

text \<open>A separated list: the parts between the separators are words of the pattern.\<close>

lemma str_join_tail: "str_join [c] (x # xs) = x @ concat (map ((#) c) xs)"
proof (induction xs arbitrary: x)
  case (Cons y ys)
  have "str_join [c] (x # y # ys) = x @ [c] @ str_join [c] (y # ys)" by (simp only: str_join.simps)
  then show ?case unfolding Cons.IH by simp
qed simp

lemma re_lang_sep:
  assumes "\<And>x. x \<in> re_lang r \<Longrightarrow> c \<notin> set x"
  shows "re_match (RSeq r (RStar (RSeq (re_lit [c]) r))) s \<longleftrightarrow> set (str_split s [c]) \<subseteq> re_lang r"
proof -
  have sep: "re_lang (RSeq (re_lit [c]) r) = {c # x |x. x \<in> re_lang r}" by auto
  have "s \<in> re_lang (RSeq r (RStar (RSeq (re_lit [c]) r))) \<longleftrightarrow> (\<exists>xs. xs \<noteq> [] \<and> set xs \<subseteq> re_lang r \<and> s = str_join [c] xs)"
  proof
    assume "s \<in> re_lang (RSeq r (RStar (RSeq (re_lit [c]) r)))"
    then obtain x ys where x: "x \<in> re_lang r" "set ys \<subseteq> {c # x |x. x \<in> re_lang r}" "s = x @ concat ys"
      unfolding re_lang.simps(4)[of r] re_lang.simps(6) sep by blast
    have "\<exists>xs. set xs \<subseteq> re_lang r \<and> concat ys = concat (map ((#) c) xs)" using x(2)
    proof (induction ys)
      case Nil
      show ?case by (intro exI[of _ "[]"]) simp
    next
      case (Cons y ys)
      then obtain z xs where "y = c # z" "z \<in> re_lang r" "set xs \<subseteq> re_lang r" "concat ys = concat (map ((#) c) xs)" by auto
      then show ?case by (intro exI[of _ "z # xs"]) simp
    qed
    then obtain xs where xs: "set xs \<subseteq> re_lang r" "concat ys = concat (map ((#) c) xs)" by blast
    have "s = str_join [c] (x # xs)" unfolding str_join_tail using x(3) xs(2) by simp
    with x(1) xs(1) show "\<exists>xs. xs \<noteq> [] \<and> set xs \<subseteq> re_lang r \<and> s = str_join [c] xs"
      by (intro exI[of _ "x # xs"]) (simp del: str_join.simps)
  next
    assume "\<exists>xs. xs \<noteq> [] \<and> set xs \<subseteq> re_lang r \<and> s = str_join [c] xs"
    then obtain x xs where x: "x \<in> re_lang r" "set xs \<subseteq> re_lang r" "s = str_join [c] (x # xs)"
      by (metis (no_types, lifting) insert_subset list.exhaust list.simps(15))
    have "s = x @ concat (map ((#) c) xs)" using x(3) unfolding str_join_tail .
    moreover have "set (map ((#) c) xs) \<subseteq> {c # x |x. x \<in> re_lang r}" using x(2) by auto
    ultimately show "s \<in> re_lang (RSeq r (RStar (RSeq (re_lit [c]) r)))"
      using x unfolding re_lang.simps(4)[of r] re_lang.simps(6) sep by blast
  qed
  moreover have "(\<exists>xs. xs \<noteq> [] \<and> set xs \<subseteq> re_lang r \<and> s = str_join [c] xs) \<longleftrightarrow> set (str_split s [c]) \<subseteq> re_lang r"
  proof
    assume "\<exists>xs. xs \<noteq> [] \<and> set xs \<subseteq> re_lang r \<and> s = str_join [c] xs"
    then obtain xs where xs: "xs \<noteq> []" "set xs \<subseteq> re_lang r" "s = str_join [c] xs" by blast
    have "\<And>x. x \<in> set xs \<Longrightarrow> c \<notin> set x" using xs(2) assms by blast
    from split_join_char[OF xs(1) this] have "str_split s [c] = xs" unfolding xs(3) .
    with xs show "set (str_split s [c]) \<subseteq> re_lang r" by simp
  next
    assume *: "set (str_split s [c]) \<subseteq> re_lang r"
    have "str_split s [c] \<noteq> []" by (simp add: str_split.simps(2) split: option.splits)
    with * show "\<exists>xs. xs \<noteq> [] \<and> set xs \<subseteq> re_lang r \<and> s = str_join [c] xs"
      by (intro exI[of _ "str_split s [c]"]) (simp add: join_split_char)
  qed
  ultimately show ?thesis by (simp add: re_match_iff)
qed

end
