(* ===== verification/GoTime.thy ===== *)
theory GoTime
  imports GoUtf8
begin

text \<open>
  \<open>time.ParseDuration\<close>: the parser of durations like \<open>1h30m\<close>, in nanoseconds. The digits are
  accumulated in unsigned 64-bit integers with the overflow checks of the library; the sums that
  it does not check wrap around. The part of a unit that a decimal fraction stands for is
  computed in floating point: \<open>frac f k unit\<close> is \<open>uint64(float64(f) * (float64(unit) / 10^k))\<close>.
\<close>

type_synonym fracfn = "nat \<Rightarrow> nat \<Rightarrow> nat \<Rightarrow> nat"

fun leadingInt :: "nat \<Rightarrow> string \<Rightarrow> (nat \<times> string) option" where
  "leadingInt x [] = Some (x, [])"
| "leadingInt x (c # s) = (if \<not> is_digit c then Some (x, c # s)
     else if 2 ^ 63 div 10 < x then None
     else if 2 ^ 63 < x * 10 + digit_val c then None else leadingInt (x * 10 + digit_val c) s)"

text \<open>The digits of a fraction, the power of ten of their scale; digits that overflow are dropped.\<close>

fun leadingFraction :: "nat \<Rightarrow> nat \<Rightarrow> bool \<Rightarrow> string \<Rightarrow> nat \<times> nat \<times> string" where
  "leadingFraction x k over [] = (x, k, [])"
| "leadingFraction x k over (c # s) = (if \<not> is_digit c then (x, k, c # s)
     else if over \<or> (2 ^ 63 - 1) div 10 < x \<or> 2 ^ 63 < x * 10 + digit_val c then leadingFraction x k True s
     else leadingFraction (x * 10 + digit_val c) (Suc k) False s)"

text \<open>The units; the micro sign and the Greek letter mu are two bytes each.\<close>

definition unitMap :: "string \<Rightarrow> nat option" where
  "unitMap u = map_of [(''ns'', 1), (''us'', 10 ^ 3), ([CHR 0xC2, CHR 0xB5, CHR ''s''], 10 ^ 3),
     ([CHR 0xCE, CHR 0xBC, CHR ''s''], 10 ^ 3), (''ms'', 10 ^ 6), (''s'', 10 ^ 9),
     (''m'', 60 * 10 ^ 9), (''h'', 3600 * 10 ^ 9)] u"

definition unit_char :: "char \<Rightarrow> bool" where
  "unit_char c \<longleftrightarrow> c \<noteq> CHR ''.'' \<and> \<not> is_digit c"

text \<open>One number with its unit: its nanoseconds and what follows.\<close>

definition durationPart :: "fracfn \<Rightarrow> string \<Rightarrow> (nat \<times> string) option" where
  "durationPart frac s = (if s = [] \<or> \<not> (hd s = CHR ''.'' \<or> is_digit (hd s)) then None
     else case leadingInt 0 s of None \<Rightarrow> None
       | Some (v, s1) \<Rightarrow>
           (let pre = (length s1 \<noteq> length s);
                (f, k, s2) = (if s1 \<noteq> [] \<and> hd s1 = CHR ''.'' then leadingFraction 0 0 False (tl s1) else (0, 0, s1));
                post = (s1 \<noteq> [] \<and> hd s1 = CHR ''.'' \<and> length s2 \<noteq> length (tl s1));
                u = takeWhile unit_char s2
            in if \<not> pre \<and> \<not> post \<or> u = [] then None
               else case unitMap u of None \<Rightarrow> None
                 | Some unit \<Rightarrow> if 2 ^ 63 div unit < v then None
                     else (let v' = (if 0 < f then (v * unit + frac f k unit) mod 2 ^ 64 else v * unit)
                           in if 0 < f \<and> 2 ^ 63 < v' then None else Some (v', dropWhile unit_char s2))))"

lemma leadingInt_length: "leadingInt x s = Some (v, r) \<Longrightarrow> length r \<le> length s"
  by (induction x s rule: leadingInt.induct) (auto split: if_splits)

lemma leadingFraction_length: "leadingFraction x k over s = (f, k', r) \<Longrightarrow> length r \<le> length s"
  by (induction x k over s rule: leadingFraction.induct) (auto split: if_splits)

lemma durationPart_length: "durationPart frac s = Some (v, r) \<Longrightarrow> length r < length s"
proof -
  assume part: "durationPart frac s = Some (v, r)"
  then obtain v0 s1 where i: "leadingInt 0 s = Some (v0, s1)"
    by (auto simp: durationPart_def split: if_splits option.splits)
  obtain f k s2 where f: "(if s1 \<noteq> [] \<and> hd s1 = CHR ''.'' then leadingFraction 0 0 False (tl s1) else (0, 0, s1)) = (f, k, s2)"
    by (rule prod_cases3)
  have "length s2 \<le> length s1"
    using f leadingFraction_length[of 0 0 False "tl s1" f k s2] by (auto split: if_splits)
  moreover have "takeWhile unit_char s2 \<noteq> []" "r = dropWhile unit_char s2"
    using part unfolding durationPart_def i option.case prod.case f Let_def
    by (auto split: if_splits option.splits)
  then have "length r < length s2" using takeWhile_dropWhile_id[of unit_char s2]
    by (metis add.commute add_diff_cancel_left' diff_is_0_eq' leI length_0_conv length_append)
  ultimately show ?thesis using leadingInt_length[OF i] by simp
qed

function durationLoop :: "fracfn \<Rightarrow> nat \<Rightarrow> string \<Rightarrow> nat option" where
  "durationLoop frac d s = (if s = [] then Some d
     else case durationPart frac s of None \<Rightarrow> None
       | Some (v, r) \<Rightarrow> if 2 ^ 63 < (d + v) mod 2 ^ 64 then None else durationLoop frac ((d + v) mod 2 ^ 64) r)"
  by auto
termination
  by (relation "measure (length \<circ> snd \<circ> snd)") (auto dest: durationPart_length)

declare durationLoop.simps [simp del]

definition parseDuration :: "fracfn \<Rightarrow> string \<Rightarrow> int option" where
  "parseDuration frac s0 =
     (let neg = (s0 \<noteq> [] \<and> hd s0 = CHR ''-'');
          s = (if s0 \<noteq> [] \<and> (hd s0 = CHR ''-'' \<or> hd s0 = CHR ''+'') then tl s0 else s0)
      in if s = ''0'' then Some 0
         else if s = [] then None
         else case durationLoop frac 0 s of None \<Rightarrow> None
           | Some d \<Rightarrow> if neg then Some (- int d) else if 2 ^ 63 - 1 < d then None else Some (int d))"

section \<open>Lemmas\<close>

text \<open>Every duration that is accepted fits in a signed 64-bit integer.\<close>

lemma durationLoop_bound: "durationLoop frac d s = Some v \<Longrightarrow> d \<le> 2 ^ 63 \<Longrightarrow> v \<le> 2 ^ 63"
proof (induction frac d s rule: durationLoop.induct)
  case (1 frac d s)
  then show ?case by (subst (asm) durationLoop.simps) (auto split: if_splits option.splits)
qed

lemma parseDuration_bounds: "parseDuration frac s = Some d \<Longrightarrow> - (2 ^ 63) \<le> d \<and> d \<le> 2 ^ 63 - 1"
proof -
  assume p: "parseDuration frac s = Some d"
  consider "d = 0" | v where "durationLoop frac 0 (if s \<noteq> [] \<and> (hd s = CHR ''-'' \<or> hd s = CHR ''+'') then tl s else s) = Some v"
      "d = - int v \<or> d = int v \<and> \<not> 2 ^ 63 - 1 < v"
    using p unfolding parseDuration_def Let_def by (auto split: if_splits option.splits)
  then show ?thesis
  proof cases
    case 2
    then have "v \<le> 2 ^ 63" using durationLoop_bound by blast
    with 2(2) show ?thesis by (elim disjE) simp_all
  qed simp
qed

text \<open>The digits of a number give it back.\<close>

lemma digit_val_lt: "is_digit c \<Longrightarrow> digit_val c < 10"
  by (auto simp: char_defs)

lemma leadingInt_digits:
  assumes "list_all is_digit ds" "foldl (\<lambda>a c. a * 10 + digit_val c) x ds \<le> 2 ^ 63" "r = [] \<or> \<not> is_digit (hd r)"
  shows "leadingInt x (ds @ r) = Some (foldl (\<lambda>a c. a * 10 + digit_val c) x ds, r)"
  using assms
proof (induction ds arbitrary: x)
  case Nil
  then show ?case by (cases r) auto
next
  case (Cons c ds)
  have mono: "y \<le> foldl (\<lambda>a c. a * 10 + digit_val c) y zs" for y zs
  proof (induction zs arbitrary: y)
    case (Cons z zs)
    from Cons.IH[of "y * 10 + digit_val z"] show ?case by simp
  qed simp
  have le: "x * 10 + digit_val c \<le> 2 ^ 63"
    using mono[of "x * 10 + digit_val c" ds] Cons.prems(2) by simp
  then have "\<not> 2 ^ 63 div 10 < x" by simp
  with le Cons.prems Cons.IH[of "x * 10 + digit_val c"] show ?case by (simp add: not_less)
qed

lemma digits_val_foldl: "digits_val ds = foldl (\<lambda>a c. a * 10 + digit_val c) 0 ds"
  by (simp add: digits_val_def)

lemma unit_chars: "unitMap u = Some n \<Longrightarrow> u \<noteq> [] \<and> list_all unit_char u \<and> 0 < n"
  by (auto simp: unitMap_def unit_char_def is_digit_def split: if_splits)

lemma durationPart_itoa:
  assumes u: "unitMap u = Some unit" and le: "n * unit \<le> 2 ^ 63" and r: "r = [] \<or> \<not> unit_char (hd r)"
  shows "durationPart frac (itoa n @ u @ r) = Some (n * unit, r)"
proof -
  obtain c0 u' where u0: "u = c0 # u'" "unit_char c0" "list_all unit_char u'" "0 < unit"
    using unit_chars[OF u] by (cases u) auto
  obtain d0 ds where d0: "itoa n = d0 # ds" "is_digit d0"
    using itoa_nonempty[of n] itoa_digits[of n] by (cases "itoa n") (auto simp: list_all_iff)
  have n: "n \<le> 2 ^ 63 div unit" using le u0(4) by (simp add: less_eq_div_iff_mult_less_eq)
  then have "n \<le> 2 ^ 63" using div_le_dividend order_trans by blast
  then have i: "leadingInt 0 (itoa n @ u @ r) = Some (n, u @ r)"
    using leadingInt_digits[of "itoa n" 0 "u @ r"] itoa_digits[of n] digits_val_itoa[of n] u0
    by (simp add: digits_val_foldl[symmetric] unit_char_def)
  have tw: "takeWhile unit_char (u @ r) = u" "dropWhile unit_char (u @ r) = r"
  proof -
    have "\<forall>x \<in> set u. unit_char x" using u0 by (simp add: list_all_iff)
    with r show "takeWhile unit_char (u @ r) = u" "dropWhile unit_char (u @ r) = r"
      by (cases r; simp add: takeWhile_append2 dropWhile_append2)+
  qed
  have hd: "hd (u @ r) \<noteq> CHR ''.''" "u @ r \<noteq> []" using u0 by (auto simp: unit_char_def)
  have ne: "itoa n @ u @ r \<noteq> []" "is_digit (hd (itoa n @ u @ r))" "length (u @ r) \<noteq> length (itoa n @ u @ r)" using d0 by simp_all
  show ?thesis
    unfolding durationPart_def i option.case prod.case Let_def using hd ne tw u u0(1) n
    by (simp add: not_less)
qed

fun durationText :: "(nat \<times> string) list \<Rightarrow> string" where
  "durationText [] = []"
| "durationText ((n, u) # ps) = itoa n @ u @ durationText ps"

fun durationSum :: "(nat \<times> string) list \<Rightarrow> nat" where
  "durationSum [] = 0"
| "durationSum ((n, u) # ps) = n * the (unitMap u) + durationSum ps"

lemma durationText_hd: "durationText ps = [] \<or> \<not> unit_char (hd (durationText ps))"
proof (cases ps)
  case (Cons p ps')
  obtain n u where p: "p = (n, u)" by (cases p)
  obtain d0 ds where "itoa n = d0 # ds" "is_digit d0"
    using itoa_nonempty[of n] itoa_digits[of n] by (cases "itoa n") (auto simp: list_all_iff)
  with Cons p show ?thesis by (simp add: unit_char_def)
qed simp

lemma durationLoop_text:
  "(\<And>n u. (n, u) \<in> set ps \<Longrightarrow> unitMap u \<noteq> None) \<Longrightarrow> d + durationSum ps \<le> 2 ^ 63 \<Longrightarrow>
   durationLoop frac d (durationText ps) = Some (d + durationSum ps)"
proof (induction ps arbitrary: d)
  case Nil
  show ?case by (simp add: durationLoop.simps)
next
  case (Cons p ps)
  obtain n u where p: "p = (n, u)" by (cases p)
  obtain unit where u: "unitMap u = Some unit" using Cons.prems(1)[of n u] p by auto
  have le: "n * unit \<le> 2 ^ 63" "d + n * unit \<le> 2 ^ 63" "d + n * unit + durationSum ps \<le> 2 ^ 63"
    using Cons.prems(2) p u by simp_all
  have part: "durationPart frac (durationText (p # ps)) = Some (n * unit, durationText ps)"
    using durationPart_itoa[OF u le(1) durationText_hd] p by simp
  have ne: "durationText (p # ps) \<noteq> []" using p by simp
  have "durationLoop frac d (durationText (p # ps)) = durationLoop frac (d + n * unit) (durationText ps)"
    using ne le(2) by (subst durationLoop.simps) (simp add: part)
  also have "\<dots> = Some (d + n * unit + durationSum ps)"
    using Cons.IH[of "d + n * unit"] Cons.prems(1) le(3) by auto
  finally show ?case using p u by simp
qed

end
