(* ===== verification/ResourceLimits.thy ===== *)
theory ResourceLimits
  imports GoRegex GoTime IncusManager IncusLaunch
begin

text \<open>
  Resource limits, \<open>internal/limits\<close>: their validation (\<open>validator.go\<close>), how they are applied
  to a container (\<open>applier.go\<close>) and the runtime limit that stops it (\<open>timer.go\<close>).

  Applying invalid limits runs no command; after success every configured limit was set; and a
  size quota is set only on a pool whose driver enforces it.
\<close>

section \<open>Formats\<close>

definition cpuRange :: re where
  "cpuRange = RSeq re_digits (re_opt (RSeq (re_lit ''-'') re_digits))"

definition cpuCountRegex :: re where
  "cpuCountRegex = RSeq cpuRange (RStar (RSeq (re_lit '','') cpuRange))"

definition cpuAllowancePercentRegex :: re where
  "cpuAllowancePercentRegex = RSeq re_digits (re_lit ''%'')"

definition cpuAllowanceTimeRegex :: re where
  "cpuAllowanceTimeRegex = RSeq re_digits (RSeq (re_lit ''ms/'') (RSeq re_digits (re_lit ''ms'')))"

definition memoryRegex :: re where
  "memoryRegex = RSeq re_digits (RAlt (re_lit ''%'') (RSeq (re_oneof ''KMGT'') (RSeq (re_opt (re_lit ''i'')) (re_lit ''B''))))"

definition iecSize :: re where
  "iecSize = RSeq re_digits (RSeq (re_oneof ''KMGT'') (re_lit ''iB''))"

definition siSize :: re where
  "siSize = RSeq re_digits (RSeq (re_oneof ''kMGT'') (re_lit ''B''))"

definition diskIORegex :: re where
  "diskIORegex = RAlt iecSize (RAlt siSize (RSeq re_digits (re_lit ''iops'')))"

definition diskSizeRegex :: re where
  "diskSizeRegex = RAlt iecSize siSize"

section \<open>Validation\<close>

record CPULimitsV =
  LCount :: string
  LAllowance :: string
  LCpuPriority :: int

record MemoryLimitsV =
  LLimit :: string
  LEnforce :: string
  LSwap :: string

record DiskLimitsV =
  LRead :: string
  LWrite :: string
  LMax :: string
  LSize :: string
  LDiskPriority :: int

record RuntimeLimitsV =
  LMaxDuration :: string
  LMaxProcesses :: int

definition ValidateCPUCount :: "string \<Rightarrow> unit result" where
  "ValidateCPUCount count = (if count = [] then Inr ()
     else if \<not> re_match cpuCountRegex count then Inl (Errorf ''invalid CPU count format: %s'' [count]) else Inr ())"

definition ValidateCPUAllowance :: "string \<Rightarrow> unit result" where
  "ValidateCPUAllowance allowance = (if allowance = [] then Inr ()
     else if \<not> re_match cpuAllowancePercentRegex allowance \<and> \<not> re_match cpuAllowanceTimeRegex allowance
     then Inl (Errorf ''invalid CPU allowance format: %s'' [allowance]) else Inr ())"

definition ValidatePriority :: "int \<Rightarrow> unit result" where
  "ValidatePriority priority = (if priority < 0 \<or> priority > 10
     then Inl (Errorf ''invalid priority: %d (must be between 0 and 10)'' [itoa_int priority]) else Inr ())"

definition ValidateMemoryLimit :: "string \<Rightarrow> unit result" where
  "ValidateMemoryLimit limit = (if limit = [] then Inr ()
     else if \<not> re_match memoryRegex limit then Inl (Errorf ''invalid memory limit: %s'' [limit]) else Inr ())"

definition ValidateMemoryEnforce :: "string \<Rightarrow> unit result" where
  "ValidateMemoryEnforce enforce = (if enforce = [] then Inr ()
     else if enforce \<noteq> ''hard'' \<and> enforce \<noteq> ''soft'' then Inl (Errorf ''invalid memory enforce mode: %s'' [enforce])
     else Inr ())"

definition ValidateMemorySwap :: "string \<Rightarrow> unit result" where
  "ValidateMemorySwap swap = (if swap = [] then Inr ()
     else if swap = ''true'' \<or> swap = ''false'' then Inr ()
     else if \<not> re_match memoryRegex swap then Inl (Errorf ''invalid memory swap: %s'' [swap]) else Inr ())"

definition ValidateDiskIO :: "string \<Rightarrow> unit result" where
  "ValidateDiskIO io = (if io = [] then Inr ()
     else if \<not> re_match diskIORegex io then Inl (Errorf ''invalid disk I/O rate: %s'' [io]) else Inr ())"

definition ValidateDiskSize :: "string \<Rightarrow> unit result" where
  "ValidateDiskSize sz = (if sz = [] then Inr ()
     else if \<not> re_match diskSizeRegex sz then Inl (Errorf ''invalid disk size: %s'' [sz]) else Inr ())"

definition ValidateDuration :: "fracfn \<Rightarrow> string \<Rightarrow> unit result" where
  "ValidateDuration frac duration = (if duration = [] then Inr ()
     else case parseDuration frac duration of None \<Rightarrow> Inl (Errorf ''invalid duration: %s'' [duration])
       | Some d \<Rightarrow> if d \<le> 0 then Inl (Errorf ''invalid duration: %s (must be a positive value)'' [duration]) else Inr ())"

definition ValidateMaxProcesses :: "int \<Rightarrow> unit result" where
  "ValidateMaxProcesses maxProc = (if maxProc < 0
     then Inl (Errorf ''invalid max_processes: %d (must be >= 0, where 0 = unlimited)'' [itoa_int maxProc]) else Inr ())"

definition ParseDuration :: "fracfn \<Rightarrow> string \<Rightarrow> int result" where
  "ParseDuration frac duration = (if duration = [] then Inr 0
     else case parseDuration frac duration of None \<Rightarrow> Inl (ExtErr ''time: invalid duration'')
       | Some d \<Rightarrow> if d \<le> 0 then Inl (Errorf ''duration must be positive, got %s'' [duration]) else Inr d)"

definition NormalizeBoolString :: "string \<Rightarrow> string" where
  "NormalizeBoolString value = (let lower = to_lower value in if lower = ''true'' \<or> lower = ''false'' then lower else value)"

text \<open>The errors by field, as a list in the order of the checks.\<close>

definition fieldError :: "string \<Rightarrow> unit result \<Rightarrow> (string \<times> gerr) list" where
  "fieldError field r = (case r of Inl e \<Rightarrow> [(field, e)] | Inr _ \<Rightarrow> [])"

definition ValidateAll :: "fracfn \<Rightarrow> CPULimitsV \<Rightarrow> MemoryLimitsV \<Rightarrow> DiskLimitsV \<Rightarrow> RuntimeLimitsV \<Rightarrow> (string \<times> gerr) list" where
  "ValidateAll frac cpu memory disk runtime = concat (map (\<lambda>(f, r). fieldError f r)
     [(''cpu.count'', ValidateCPUCount (LCount cpu)), (''cpu.allowance'', ValidateCPUAllowance (LAllowance cpu)),
      (''cpu.priority'', ValidatePriority (LCpuPriority cpu)),
      (''memory.limit'', ValidateMemoryLimit (LLimit memory)), (''memory.enforce'', ValidateMemoryEnforce (LEnforce memory)),
      (''memory.swap'', ValidateMemorySwap (LSwap memory)),
      (''disk.read'', ValidateDiskIO (LRead disk)), (''disk.write'', ValidateDiskIO (LWrite disk)),
      (''disk.max'', ValidateDiskIO (LMax disk)), (''disk.size'', ValidateDiskSize (LSize disk)),
      (''disk.priority'', ValidatePriority (LDiskPriority disk)),
      (''runtime.max_duration'', ValidateDuration frac (LMaxDuration runtime)),
      (''runtime.max_processes'', ValidateMaxProcesses (LMaxProcesses runtime))])"

section \<open>Applying\<close>

record ApplyOptions =
  AContainer :: string
  ACPU :: CPULimitsV
  AMemory :: MemoryLimitsV
  ADisk :: DiskLimitsV
  ARuntime :: RuntimeLimitsV

definition setUnlessEmpty :: "string \<Rightarrow> string \<Rightarrow> (string \<times> string) list" where
  "setUnlessEmpty key value = (if value \<noteq> [] then [(key, value)] else [])"

definition cpuSettings :: "CPULimitsV \<Rightarrow> (string \<times> string) list" where
  "cpuSettings cpu = setUnlessEmpty ''limits.cpu'' (LCount cpu) @ setUnlessEmpty ''limits.cpu.allowance'' (LAllowance cpu) @
     (if LCpuPriority cpu \<noteq> 0 then [(''limits.cpu.priority'', itoa_int (LCpuPriority cpu))] else [])"

definition applySettings :: "'w incus \<Rightarrow> string \<Rightarrow> (string \<times> string) list \<Rightarrow> ('w, unit) act" where
  "applySettings I c kvs = forA (\<lambda>(k, v). ConfigSet I c k v) kvs"

definition applyCPULimits :: "'w incus \<Rightarrow> string \<Rightarrow> CPULimitsV \<Rightarrow> ('w, unit) act" where
  "applyCPULimits I c cpu = applySettings I c (cpuSettings cpu)"

definition memorySettings :: "MemoryLimitsV \<Rightarrow> (string \<times> string) list" where
  "memorySettings memory = setUnlessEmpty ''limits.memory'' (LLimit memory) @ setUnlessEmpty ''limits.memory.enforce'' (LEnforce memory) @
     (if LSwap memory \<noteq> [] then [(''limits.memory.swap'', NormalizeBoolString (LSwap memory))] else [])"

definition applyMemoryLimits :: "'w incus \<Rightarrow> string \<Rightarrow> MemoryLimitsV \<Rightarrow> ('w, unit) act" where
  "applyMemoryLimits I c memory = applySettings I c (memorySettings memory)"

definition poolDriverEnforcesQuota :: "string \<Rightarrow> bool" where
  "poolDriverEnforcesQuota driver \<longleftrightarrow> driver \<in> set [''btrfs'', ''zfs'', ''lvm'', ''ceph'']"

text \<open>The scan of the expanded configuration for the pool of the root device.\<close>

fun rootPool :: "bool \<Rightarrow> bool \<Rightarrow> string list \<Rightarrow> string" where
  "rootPool inDevices inRoot [] = ''default''"
| "rootPool inDevices inRoot (line # ls) = (if line = ''devices:'' then rootPool True inRoot ls
     else if inDevices \<and> trim_space line = ''root:'' then rootPool inDevices True ls
     else if inRoot \<and> has_prefix (trim_space line) ''pool:'' then trim_space (str_splitn 2 (trim_space line) '':'' ! 1)
     else rootPool (inDevices \<and> \<not> (0 < length line \<and> \<not> has_prefix line '' ''))
            (inRoot \<and> \<not> (0 < length line \<and> \<not> has_prefix line ''    '')) ls)"

definition getRootDevicePool :: "'w incus \<Rightarrow> string \<Rightarrow> ('w, string) act" where
  "getRootDevicePool I c = bindA (wrapA ''failed to get expanded container config'' (ConfigShow I c True)) (\<lambda>output.
     retA (rootPool False False (str_split output [CHR 0x0A])))"

definition ensureSizeQuotaSupported :: "'w incus \<Rightarrow> string \<Rightarrow> ('w, unit) act" where
  "ensureSizeQuotaSupported I c =
     bindA (wrapA ''cannot verify storage pool for disk size quota'' (getRootDevicePool I c)) (\<lambda>pool.
     bindA (wrapA ''cannot list storage pools for disk size quota'' (ListStoragePools I)) (\<lambda>pools.
       case find (\<lambda>p. fst p = pool) pools of
         Some p \<Rightarrow> if poolDriverEnforcesQuota (snd p) then retA ()
           else failA (Errorf ''[limits.disk] size requires a quota-capable storage pool, but pool %q uses the %q driver'' [pool, snd p])
       | None \<Rightarrow> failA (Errorf ''[limits.disk] size is set but storage pool %q was not found'' [pool])))"

text \<open>The two commands whose combined output is part of the error.\<close>

definition checkOut :: "string \<Rightarrow> ('w \<Rightarrow> (string \<times> gerr option) \<times> 'w) \<Rightarrow> ('w, unit) act" where
  "checkOut ctx m w = (case m w of ((out, err), w') \<Rightarrow>
     (case err of None \<Rightarrow> Inr () | Some e \<Rightarrow> Inl (Wrapf ctx e), w'))"

definition ensureInstanceRootDevice :: "'w incus \<Rightarrow> string \<Rightarrow> ('w, unit) act" where
  "ensureInstanceRootDevice I c = bindA (getRootDevicePool I c) (\<lambda>pool.
     checkOut ''failed to add instance-level root device'' (DeviceAdd I c [''root'', ''disk'', ''path=/'', ''pool='' @ pool]))"

definition diskSettings :: "DiskLimitsV \<Rightarrow> (string \<times> string) list" where
  "diskSettings disk = setUnlessEmpty ''limits.read'' (LRead disk) @ setUnlessEmpty ''limits.write'' (LWrite disk) @
     setUnlessEmpty ''limits.max'' (LMax disk) @ setUnlessEmpty ''size'' (LSize disk) @
     (if LDiskPriority disk \<noteq> 0 then [(''limits.disk.priority'', itoa_int (LDiskPriority disk))] else [])"

definition applyDiskLimits :: "'w incus \<Rightarrow> string \<Rightarrow> DiskLimitsV \<Rightarrow> ('w, unit) act" where
  "applyDiskLimits I c disk =
     (if LRead disk = [] \<and> LWrite disk = [] \<and> LMax disk = [] \<and> LSize disk = [] \<and> LDiskPriority disk = 0 then retA ()
      else thenA (if LSize disk \<noteq> [] then ensureSizeQuotaSupported I c else retA ())
          (thenA (wrapA ''failed to ensure instance-level root device'' (ensureInstanceRootDevice I c))
             (forA (\<lambda>(k, v). checkOut (''incus config device set '' @ k @ ''='' @ v @ '' failed'')
                (DeviceSet I c ''root'' (k @ ''='' @ v))) (diskSettings disk))))"

definition applyProcessLimits :: "'w incus \<Rightarrow> string \<Rightarrow> int \<Rightarrow> ('w, unit) act" where
  "applyProcessLimits I c maxProcesses =
     (if maxProcesses > 0 then ConfigSet I c ''limits.processes'' (itoa_int maxProcesses) else retA ())"

definition ApplyResourceLimits :: "'w incus \<Rightarrow> fracfn \<Rightarrow> ApplyOptions \<Rightarrow> ('w, unit) act" where
  "ApplyResourceLimits I frac opts = (let errs = ValidateAll frac (ACPU opts) (AMemory opts) (ADisk opts) (ARuntime opts) in
     if errs \<noteq> [] then failA (Errorf ''validation failed: %s'' (map (\<lambda>(f, e). f @ '': '' @ err_text e) errs))
     else thenA (wrapA ''failed to apply CPU limits'' (applyCPULimits I (AContainer opts) (ACPU opts)))
         (thenA (wrapA ''failed to apply memory limits'' (applyMemoryLimits I (AContainer opts) (AMemory opts)))
         (thenA (wrapA ''failed to apply disk limits'' (applyDiskLimits I (AContainer opts) (ADisk opts)))
           (wrapA ''failed to apply process limits'' (applyProcessLimits I (AContainer opts) (LMaxProcesses (ARuntime opts)))))))"

section \<open>The runtime limit\<close>

record TimeoutMonitor =
  TmContainer :: string
  TmMaxDuration :: int
  TmAutoStop :: bool
  TmStopGraceful :: bool

text \<open>What ends the wait of the monitor: its timer, or the cancellation of its context.\<close>

datatype timer_event = TimerExpired | ContextDone

definition stopContainerQuietly :: "'w incus \<Rightarrow> string \<Rightarrow> bool \<Rightarrow> ('w, unit) act" where
  "stopContainerQuietly I c force w = (case StopContainerQuiet I c force w of ((out, err), w') \<Rightarrow> (doneOr () err, w'))"

text \<open>The stop after a timeout; the result tells whether the log claims that the container was stopped.\<close>

definition handleTimeout :: "'w incus \<Rightarrow> TimeoutMonitor \<Rightarrow> ('w, bool) act" where
  "handleTimeout I tm = (let c = TmContainer tm;
       finally = bindA (tryA (ContainerRunning I c)) (\<lambda>r. retA (r \<noteq> Inr True))
     in if TmStopGraceful tm then
          bindA (tryA (stopContainerQuietly I c False)) (\<lambda>g.
          thenA (case g of Inl _ \<Rightarrow> warnA (stopContainerQuietly I c True) | Inr _ \<Rightarrow> retA ())
          (bindA (\<lambda>w. tryA (ContainerRunning I c) (Sleep I 5000 w)) (\<lambda>r.
          thenA (if r \<noteq> Inr False then warnA (stopContainerQuietly I c True) else retA ())
            finally)))
        else bindA (tryA (stopContainerQuietly I c True)) (\<lambda>g. case g of Inl _ \<Rightarrow> retA False | Inr _ \<Rightarrow> finally))"

text \<open>\<open>Start\<close> and \<open>run\<close>: the event is the one that comes first; without a limit there is no timer.\<close>

definition runMonitor :: "'w incus \<Rightarrow> TimeoutMonitor \<Rightarrow> timer_event \<Rightarrow> ('w, bool) act" where
  "runMonitor I tm ev = (if TmMaxDuration tm = 0 then retA False
     else case ev of ContextDone \<Rightarrow> retA False
       | TimerExpired \<Rightarrow> if TmAutoStop tm then handleTimeout I tm else retA False)"


section \<open>Which commands a success has run\<close>

text \<open>When \<open>m\<close> succeeds, the given commands have succeeded, in this order, among those it ran.\<close>

definition runs :: "('w \<Rightarrow> (string \<times> shres) list) \<Rightarrow> ('w, 'a) act \<Rightarrow> string list \<Rightarrow> bool" where
  "runs Log m cmds \<longleftrightarrow> (\<forall>w x w'. m w = (Inr x, w') \<longrightarrow> (\<exists>tr rs. Log w' = Log w @ tr \<and>
     length rs = length cmds \<and> subseq (zip cmds rs) tr \<and> list_all succeeded rs))"

named_theorems runs_intros \<open>the commands of the combinators and of the incus operations\<close>

lemma doesD: "runs Log m cmds \<Longrightarrow> m w = (Inr x, w') \<Longrightarrow> \<exists>tr rs. Log w' = Log w @ tr \<and>
    length rs = length cmds \<and> subseq (zip cmds rs) tr \<and> list_all succeeded rs"
  unfolding runs_def by blast

lemma runsI: "(\<And>w x w'. m w = (Inr x, w') \<Longrightarrow> \<exists>tr rs. Log w' = Log w @ tr \<and>
    length rs = length cmds \<and> subseq (zip cmds rs) tr \<and> list_all succeeded rs) \<Longrightarrow> runs Log m cmds"
  unfolding runs_def by blast

lemma runs_bind: "runs Log m A \<Longrightarrow> (\<And>x. runs Log (f x) B) \<Longrightarrow> runs Log (bindA m f) (A @ B)"
proof (rule runsI)
  fix w x w'
  assume m: "runs Log m A" and f: "\<And>x. runs Log (f x) B" and "bindA m f w = (Inr x, w')"
  then obtain y w1 where 1: "m w = (Inr y, w1)" and 2: "f y w1 = (Inr x, w')" by (auto simp: bindA_Inr)
  from doesD[OF m 1] obtain tr rs where a: "Log w1 = Log w @ tr" "length rs = length A" "subseq (zip A rs) tr" "list_all succeeded rs"
    by blast
  from doesD[OF f 2] obtain tr' rs' where b: "Log w' = Log w1 @ tr'" "length rs' = length B" "subseq (zip B rs') tr'" "list_all succeeded rs'"
    by blast
  from a b have "Log w' = Log w @ tr @ tr'" "length (rs @ rs') = length (A @ B)"
    "subseq (zip (A @ B) (rs @ rs')) (tr @ tr')" "list_all succeeded (rs @ rs')"
    by (simp_all add: list_emb_append_mono)
  then show "\<exists>tr rs. Log w' = Log w @ tr \<and> length rs = length (A @ B) \<and> subseq (zip (A @ B) rs) tr \<and> list_all succeeded rs"
    by blast
qed

lemma does_ret [runs_intros]: "runs Log (retA x) []"
  by (rule runsI) (auto intro!: exI[of _ "[]"])

lemma runs_fail [runs_intros]: "runs Log (failA e) cmds"
  by (rule runsI) simp

lemma runs_lift [runs_intros]: "runs Log (liftA r) []"
  by (rule runsI) (auto intro!: exI[of _ "[]"])

lemma does_then [runs_intros]: "runs Log m A \<Longrightarrow> runs Log k B \<Longrightarrow> runs Log (thenA m k) (A @ B)"
  unfolding thenA_def by (rule runs_bind)

lemma runs_bind_quiet [runs_intros]: "runs Log m [] \<Longrightarrow> (\<And>x. runs Log (f x) B) \<Longrightarrow> runs Log (bindA m f) B"
  using runs_bind[of Log m "[]" f B] by simp

lemma does_wrap [runs_intros]: "runs Log m A \<Longrightarrow> runs Log (wrapA ctx m) A"
  unfolding runs_def by (simp add: wrapA_Inr)

lemma does_if [runs_intros]: "(b \<Longrightarrow> runs Log m A) \<Longrightarrow> (\<not> b \<Longrightarrow> runs Log k A) \<Longrightarrow> runs Log (if b then m else k) A"
  by simp

lemma runs_option [runs_intros]: "runs Log m A \<Longrightarrow> (\<And>x. runs Log (f x) A) \<Longrightarrow> runs Log (case r of None \<Rightarrow> m | Some x \<Rightarrow> f x) A"
  by (cases r) simp_all

lemma does_for: "(\<And>x. runs Log (f x) [g x]) \<Longrightarrow> runs Log (forA f xs) (map g xs)"
proof (induction xs)
  case (Cons x xs)
  then show ?case using does_then[of Log "f x" "[g x]" "forA f xs" "map g xs"] by simp
qed (simp add: does_ret)

lemma runs_one:
  assumes "\<And>w x w'. m w = (Inr x, w') \<Longrightarrow> \<exists>res. Log w' = Log w @ [(cmd, res)] \<and> succeeded res"
  shows "runs Log m [cmd]"
proof (rule runsI)
  fix w x w'
  assume "m w = (Inr x, w')"
  from assms[OF this] obtain res where "Log w' = Log w @ [(cmd, res)]" "succeeded res" by blast
  then show "\<exists>tr rs. Log w' = Log w @ tr \<and> length rs = length [cmd] \<and> subseq (zip [cmd] rs) tr \<and> list_all succeeded rs"
    by (intro exI[of _ "[(cmd, res)]"] exI[of _ "[res]"]) simp
qed

lemma runs_quiet:
  assumes "\<And>w x w'. m w = (Inr x, w') \<Longrightarrow> \<exists>tr. Log w' = Log w @ tr"
  shows "runs Log m []"
  using assms by (auto intro!: runsI)

lemma does_set: "logs I Log \<Longrightarrow> runs Log (ConfigSet I c k v) [buildIncusCommand I [''config'', ''set'', c, k @ ''='' @ v]]"
proof (rule runs_one)
  fix w x w'
  assume "logs I Log" and "ConfigSet I c k v w = (Inr x, w')"
  from exec_logged[OF this[unfolded ConfigSet_def]]
  show "\<exists>res. Log w' = Log w @ [(buildIncusCommand I [''config'', ''set'', c, k @ ''='' @ v], res)] \<and> succeeded res" by simp
qed

lemma runs_device:
  assumes "logs I Log"
  shows "runs Log (checkOut ctx (DeviceSet I c d kv)) [buildIncusCommand I [''config'', ''device'', ''set'', c, d, kv]]"
proof (rule runs_one)
  fix w x w'
  assume *: "checkOut ctx (DeviceSet I c d kv) w = (Inr x, w')"
  obtain res w1 where run: "runIncus I [''config'', ''device'', ''set'', c, d, kv] w = (res, w1)" by (rule prod.exhaust)
  with * have "w' = w1" "shStatus res = Finished"
    by (cases "shStatus res"; simp add: checkOut_def DeviceSet_def IncusOutputWithStderr_def)+
  then show "\<exists>res. Log w' = Log w @ [(buildIncusCommand I [''config'', ''device'', ''set'', c, d, kv], res)] \<and> succeeded res"
    using run_logged[OF assms, of "[''config'', ''device'', ''set'', c, d, kv]" w] run by (auto simp: succeeded_def)
qed

lemma runs_add: "logs I Log \<Longrightarrow> runs Log (checkOut ctx (DeviceAdd I c args)) []"
proof (rule runs_quiet)
  fix w x w'
  assume log: "logs I Log" and *: "checkOut ctx (DeviceAdd I c args) w = (Inr x, w')"
  obtain res w1 where run: "runIncus I ([''config'', ''device'', ''add'', c] @ args) w = (res, w1)" by (rule prod.exhaust)
  have "w' = w1" using * run
    by (cases "shStatus res") (auto simp: checkOut_def DeviceAdd_def Let_def split: if_splits)
  then show "\<exists>tr. Log w' = Log w @ tr" using run_logged[OF log, of "[''config'', ''device'', ''add'', c] @ args" w] run by auto
qed

lemma runs_output: "logs I Log \<Longrightarrow> runs Log (IncusOutput I args) []"
proof (rule runs_quiet)
  fix w x w'
  assume "logs I Log" "IncusOutput I args w = (Inr x, w')"
  from output_logged[OF this] show "\<exists>tr. Log w' = Log w @ tr" by blast
qed

lemma snd_raw: "snd (IncusOutputRaw I args w) = snd (runIncus I args w)"
  by (simp add: IncusOutputRaw_def split: prod.splits)

lemma runs_raw: "logs I Log \<Longrightarrow> runs Log (IncusOutputRaw I args) []"
proof (rule runs_quiet)
  fix w x w'
  assume "logs I Log" "IncusOutputRaw I args w = (Inr x, w')"
  then show "\<exists>tr. Log w' = Log w @ tr" using run_logged[of I Log args w] snd_raw[of I args w] by auto
qed

text \<open>The commands that set the configured limits.\<close>

definition setCmds :: "'w incus \<Rightarrow> string \<Rightarrow> (string \<times> string) list \<Rightarrow> string list" where
  "setCmds I c = map (\<lambda>(k, v). buildIncusCommand I [''config'', ''set'', c, k @ ''='' @ v])"

definition rootCmds :: "'w incus \<Rightarrow> string \<Rightarrow> (string \<times> string) list \<Rightarrow> string list" where
  "rootCmds I c = map (\<lambda>(k, v). buildIncusCommand I [''config'', ''device'', ''set'', c, ''root'', k @ ''='' @ v])"

definition limitCmds :: "'w incus \<Rightarrow> ApplyOptions \<Rightarrow> string list" where
  "limitCmds I opts = setCmds I (AContainer opts) (cpuSettings (ACPU opts) @ memorySettings (AMemory opts)) @
     rootCmds I (AContainer opts) (diskSettings (ADisk opts)) @
     (if LMaxProcesses (ARuntime opts) > 0
      then setCmds I (AContainer opts) [(''limits.processes'', itoa_int (LMaxProcesses (ARuntime opts)))] else [])"

lemma runs_settings:
  assumes "logs I Log"
  shows "runs Log (applySettings I c kvs) (setCmds I c kvs)"
  unfolding applySettings_def setCmds_def by (rule does_for) (case_tac x, simp only: prod.case, rule does_set[OF assms])

lemma runs_pool: "logs I Log \<Longrightarrow> runs Log (getRootDevicePool I c) []"
  unfolding getRootDevicePool_def ConfigShow_def by (intro runs_intros runs_output)

lemma runs_disk_tail:
  assumes "logs I Log"
  shows "runs Log (thenA (wrapA ''failed to ensure instance-level root device'' (ensureInstanceRootDevice I c))
      (forA (\<lambda>(k, v). checkOut (''incus config device set '' @ k @ ''='' @ v @ '' failed'')
         (DeviceSet I c ''root'' (k @ ''='' @ v))) (diskSettings disk))) (rootCmds I c (diskSettings disk))"
proof -
  have root: "runs Log (ensureInstanceRootDevice I c) []"
    unfolding ensureInstanceRootDevice_def by (intro runs_intros runs_pool runs_add assms)
  have dev: "runs Log (forA (\<lambda>(k, v). checkOut (''incus config device set '' @ k @ ''='' @ v @ '' failed'')
      (DeviceSet I c ''root'' (k @ ''='' @ v))) (diskSettings disk)) (rootCmds I c (diskSettings disk))"
    unfolding rootCmds_def by (rule does_for) (case_tac x, simp only: prod.case, rule runs_device[OF assms])
  from does_then[OF does_wrap[OF root, of "''failed to ensure instance-level root device''"] dev] show ?thesis
    by (simp only: append_Nil)
qed

lemma runs_disk:
  assumes "logs I Log"
  shows "runs Log (applyDiskLimits I c disk) (rootCmds I c (diskSettings disk))"
proof (cases "LRead disk = [] \<and> LWrite disk = [] \<and> LMax disk = [] \<and> LSize disk = [] \<and> LDiskPriority disk = 0")
  case True
  then show ?thesis by (simp add: applyDiskLimits_def diskSettings_def setUnlessEmpty_def rootCmds_def does_ret)
next
  case False
  have list: "runs Log (ListStoragePools I) []"
    unfolding ListStoragePools_def by (intro runs_intros runs_raw[OF assms])
  have quota: "runs Log (ensureSizeQuotaSupported I c) []"
    unfolding ensureSizeQuotaSupported_def by (intro runs_intros runs_pool[OF assms] list)
  have "runs Log (if LSize disk \<noteq> [] then ensureSizeQuotaSupported I c else retA ()) []"
    by (intro runs_intros quota)
  from does_then[OF this runs_disk_tail[OF assms]]
  show ?thesis unfolding applyDiskLimits_def if_not_P[OF False] by simp
qed

lemma quota_checked:
  assumes log: "logs I Log" and ok: "ensureSizeQuotaSupported I c w = (Inr u, w')"
  shows "\<exists>shown listed pools driver. Log w' = Log w @ [(buildIncusCommand I [''config'', ''show'', ''--expanded'', c], shown),
      (buildIncusCommand I [''storage'', ''list'', ''--format=json''], listed)] \<and>
    json_structs poolFields (shOut listed) = Inr pools \<and>
    (rootPool False False (str_split (trim_space (shOut shown)) [CHR 0x0A]), driver) \<in> set pools \<and> poolDriverEnforcesQuota driver"
proof -
  from ok obtain pool w1 pools w2 where 1: "getRootDevicePool I c w = (Inr pool, w1)" and lst: "ListStoragePools I w1 = (Inr pools, w2)" and
    f': "(case find (\<lambda>p. fst p = pool) pools of
         Some p \<Rightarrow> if poolDriverEnforcesQuota (snd p) then retA ()
           else failA (Errorf ''[limits.disk] size requires a quota-capable storage pool, but pool %q uses the %q driver'' [pool, snd p])
       | None \<Rightarrow> failA (Errorf ''[limits.disk] size is set but storage pool %q was not found'' [pool])) w2 = (Inr u, w')"
    unfolding ensureSizeQuotaSupported_def act_Inr by blast
  from f' obtain p0 where f: "find (\<lambda>p. fst p = pool) pools = Some p0" "poolDriverEnforcesQuota (snd p0)" and w2: "w2 = w'"
    by (simp split: option.splits if_splits)
  note 2 = lst[unfolded w2]
  obtain shown s1 where run1: "runIncus I [''config'', ''show'', ''--expanded'', c] w = (shown, s1)" by (rule prod.exhaust)
  obtain listed s2 where run2: "runIncus I [''storage'', ''list'', ''--format=json''] w1 = (listed, s2)" by (rule prod.exhaust)
  from 1 run1 have a: "w1 = s1" "pool = rootPool False False (str_split (trim_space (shOut shown)) [CHR 0x0A])"
    by (auto simp: getRootDevicePool_def ConfigShow_def act_Inr IncusOutput_def outputOf_def doneOr_def split: option.splits)
  from 2 run2 have b: "w' = s2" "json_structs poolFields (shOut listed) = Inr pools"
    by (auto simp: ListStoragePools_def act_Inr IncusOutputRaw_def doneOr_def split: option.splits)
  have p: "p0 \<in> set pools" "fst p0 = pool"
    using f(1) by (auto simp: find_Some_iff)
  then have "(pool, snd p0) \<in> set pools" using prod.collapse[of p0] by simp
  moreover have "Log w1 = Log w @ [(buildIncusCommand I [''config'', ''show'', ''--expanded'', c], shown)]"
    using run_logged[OF log, of "[''config'', ''show'', ''--expanded'', c]" w] run1 a by simp
  moreover have "Log w' = Log w1 @ [(buildIncusCommand I [''storage'', ''list'', ''--format=json''], listed)]"
    using run_logged[OF log, of "[''storage'', ''list'', ''--format=json'']" w1] run2 b by simp
  ultimately show ?thesis using a(2) b(2) f(2) by auto
qed


text \<open>The trace shows the pool of the root device and a driver of that pool that enforces quotas.\<close>

definition quota_seen :: "'w incus \<Rightarrow> string \<Rightarrow> (string \<times> shres) list \<Rightarrow> bool" where
  "quota_seen I c tr \<longleftrightarrow> (\<exists>shown listed pools driver.
     (buildIncusCommand I [''config'', ''show'', ''--expanded'', c], shown) \<in> set tr \<and>
     (buildIncusCommand I [''storage'', ''list'', ''--format=json''], listed) \<in> set tr \<and>
     json_structs poolFields (shOut listed) = Inr pools \<and>
     (rootPool False False (str_split (trim_space (shOut shown)) [CHR 0x0A]), driver) \<in> set pools \<and>
     poolDriverEnforcesQuota driver)"

lemma quota_seen_mono: "quota_seen I c tr \<Longrightarrow> set tr \<subseteq> set tr' \<Longrightarrow> quota_seen I c tr'"
  unfolding quota_seen_def by blast

lemma disk_quota:
  assumes log: "logs I Log" and "applyDiskLimits I c disk w = (Inr u, w')" "LSize disk \<noteq> []"
  shows "\<exists>tr. Log w' = Log w @ tr \<and> quota_seen I c tr"
proof -
  let ?rest = "thenA (wrapA ''failed to ensure instance-level root device'' (ensureInstanceRootDevice I c))
      (forA (\<lambda>(k, v). checkOut (''incus config device set '' @ k @ ''='' @ v @ '' failed'')
                (DeviceSet I c ''root'' (k @ ''='' @ v))) (diskSettings disk))"
  from assms(2,3) obtain u1 w1 where q: "ensureSizeQuotaSupported I c w = (Inr u1, w1)" and r: "?rest w1 = (Inr u, w')"
    unfolding applyDiskLimits_def by (simp only: thenA_Inr[of "ensureSizeQuotaSupported I c"] if_True if_False simp_thms) blast
  from doesD[OF runs_disk_tail[OF log] r] obtain tr' where "Log w' = Log w1 @ tr'" by blast
  moreover from quota_checked[OF log q] obtain tr where "Log w1 = Log w @ tr" "quota_seen I c tr"
    unfolding quota_seen_def by (metis list.set_intros)
  ultimately show ?thesis using quota_seen_mono[of I c tr "tr @ tr'"] by auto
qed



definition demoLimits :: ApplyOptions where
  "demoLimits = \<lparr> AContainer = ''c1'', ACPU = \<lparr> LCount = ''0-3'', LAllowance = ''50%'', LCpuPriority = 5 \<rparr>,
     AMemory = \<lparr> LLimit = ''2GiB'', LEnforce = ''soft'', LSwap = ''true'' \<rparr>,
     ADisk = \<lparr> LRead = [], LWrite = [], LMax = [], LSize = [], LDiskPriority = 0 \<rparr>,
     ARuntime = \<lparr> LMaxDuration = [], LMaxProcesses = 500 \<rparr> \<rparr>"

lemma demoLimits_valid:
  "ValidateAll (\<lambda>f k u. 0) (ACPU demoLimits) (AMemory demoLimits) (ADisk demoLimits) (ARuntime demoLimits) = []"
  by code_simp

lemma recording_logs: "logs recordingShell (\<lambda>w. w)"
  by (simp add: logs_def recordingShell_def)


section \<open>Durations\<close>

text \<open>A duration written as numbers with their units, of a positive sum that fits in 63 bits, is valid
  and is read back as that sum.\<close>

theorem duration_roundtrip:
  assumes "\<forall>(n, u) \<in> set ps. unitMap u \<noteq> None" "0 < durationSum ps" "durationSum ps < 2 ^ 63"
  shows "ParseDuration frac (durationText ps) = Inr (int (durationSum ps)) \<and> ValidateDuration frac (durationText ps) = Inr ()"
proof -
  obtain n u ps' where ps: "ps = (n, u) # ps'" using assms(2) by (cases ps) auto
  obtain unit where u: "unitMap u = Some unit" using assms(1) ps by auto
  obtain d0 ds where d0: "itoa n = d0 # ds" "is_digit d0"
    using itoa_nonempty[of n] itoa_digits[of n] by (cases "itoa n") (auto simp: list_all_iff)
  have hd: "durationText ps \<noteq> []" "hd (durationText ps) = d0" using ps d0 by simp_all
  have sign: "d0 \<noteq> CHR ''-''" "d0 \<noteq> CHR ''+''" using d0(2) by (auto simp: is_digit_def)
  have zero: "durationText ps \<noteq> ''0''"
  proof -
    obtain c0 u' where "u = c0 # u'" using unit_chars[OF u] by (cases u) auto
    then have "2 \<le> length (durationText ps)" using ps d0 by simp
    then show ?thesis by auto
  qed
  have "durationLoop frac 0 (durationText ps) = Some (durationSum ps)"
  proof -
    have "\<And>n u. (n, u) \<in> set ps \<Longrightarrow> unitMap u \<noteq> None" using assms(1) by auto
    from durationLoop_text[where ps = ps and d = 0 and frac = frac, OF this] assms(3) show ?thesis by simp
  qed
  then have "parseDuration frac (durationText ps) = Some (int (durationSum ps))"
    using hd sign zero assms(3) unfolding parseDuration_def Let_def by simp
  then show ?thesis using hd assms(2) by (simp add: ParseDuration_def ValidateDuration_def)
qed

theorem duration_roundtrip_witness:
  "ParseDuration (\<lambda>f k u. 0) ''1h30m'' = Inr 5400000000000 \<and> ValidateDuration (\<lambda>f k u. 0) ''1h30m'' = Inr ()"
proof -
  have "itoa 1 = ''1''" "itoa 30 = ''30''" by code_simp+
  then have t: "durationText [(1, ''h''), (30, ''m'')] = ''1h30m''" by simp
  have s: "durationSum [(1, ''h''), (30, ''m'')] = 5400000000000" by (simp add: unitMap_def)
  have u: "\<forall>(n, u) \<in> set [(1 :: nat, ''h''), (30, ''m'')]. unitMap u \<noteq> None" by (simp add: unitMap_def)
  from duration_roundtrip[of "[(1, ''h''), (30, ''m'')]" "\<lambda>f k u. 0", OF u] show ?thesis unfolding t s by simp
qed

text \<open>No accepted duration is negative or leaves the 64-bit range.\<close>

lemma ParseDuration_bounds: "ParseDuration frac s = Inr d \<Longrightarrow> 0 \<le> d \<and> d \<le> 2 ^ 63 - 1"
  using parseDuration_bounds[of frac s d] by (auto simp: ParseDuration_def split: if_splits option.splits)

section \<open>Formats in words\<close>

lemma digits_text: "re_lang re_digits = {s. all_digits s}"
  by (simp add: re_lang_digits all_digits_def)

lemma cpuRange_lang: "re_lang cpuRange = {s. all_digits s \<or> (\<exists>a b. s = a @ ''-'' @ b \<and> all_digits a \<and> all_digits b)}"
  unfolding cpuRange_def by (auto simp: digits_text)

lemma ValidateCPUCount_iff:
  "ValidateCPUCount count = Inr () \<longleftrightarrow> count = [] \<or>
     (\<forall>part \<in> set (str_split count '',''). all_digits part \<or> (\<exists>a b. part = a @ ''-'' @ b \<and> all_digits a \<and> all_digits b))"
proof -
  have "CHR '','' \<notin> set x" if "x \<in> re_lang cpuRange" for x
  proof -
    have "\<not> is_digit (CHR '','')" by (simp add: is_digit_def)
    with that show ?thesis unfolding cpuRange_lang by (auto simp: all_digits_def list_all_iff)
  qed
  then have "re_match cpuCountRegex count \<longleftrightarrow> set (str_split count '','') \<subseteq> re_lang cpuRange"
    unfolding cpuCountRegex_def by (rule re_lang_sep)
  then show ?thesis unfolding ValidateCPUCount_def by (auto simp: cpuRange_lang)
qed

lemma size_lang: "re_lang (RSeq re_digits (RSeq (re_oneof cs) (re_lit t))) = {n @ p # t |n p. all_digits n \<and> p \<in> set cs}"
proof -
  have "re_lang (RSeq (re_oneof cs) (re_lit t)) = {p # t |p. p \<in> set cs}" by (auto simp: re_lang_oneof)
  then show ?thesis unfolding re_lang.simps(4)[of re_digits] digits_text by blast
qed

lemma ValidateDiskSize_iff:
  "ValidateDiskSize s = Inr () \<longleftrightarrow> s = [] \<or> (\<exists>n p. all_digits n \<and>
     (p \<in> set ''KMGT'' \<and> s = n @ p # ''iB'' \<or> p \<in> set ''kMGT'' \<and> s = n @ p # ''B''))"
proof -
  have "re_match diskSizeRegex s \<longleftrightarrow> s \<in> {n @ p # ''iB'' |n p. all_digits n \<and> p \<in> set ''KMGT''} \<union> {n @ p # ''B'' |n p. all_digits n \<and> p \<in> set ''kMGT''}"
    unfolding diskSizeRegex_def iecSize_def siSize_def re_match_iff re_lang.simps(5) size_lang ..
  also have "\<dots> \<longleftrightarrow> (\<exists>n p. all_digits n \<and> (p \<in> set ''KMGT'' \<and> s = n @ p # ''iB'' \<or> p \<in> set ''kMGT'' \<and> s = n @ p # ''B''))"
    by blast
  finally show ?thesis unfolding ValidateDiskSize_def by (cases "s = []") (simp_all only: if_True if_False simp_thms split: if_splits, auto)
qed

section \<open>The claim of the runtime limit\<close>

text \<open>
  The comment at the end of \<open>handleTimeout\<close> has the log claim a stop only when it is confirmed.
  A status query that fails counts as confirmed: with a shell that fails every command, each
  stop fails, the state is unknown, and the log says that the container was stopped.
\<close>

definition failingShell :: "nat incus" where
  "failingShell = \<lparr> IncusProject = ''default'', CodeUID = 1000, HostUID = 1000,
     Sh = (\<lambda>cmd w. (okRes\<lparr> shStatus := Exited 1 ''exit status 1'' \<rparr>, Suc w)), Now = (\<lambda>w. 0), Sleep = (\<lambda>d w. w) \<rparr>"

definition demoTimer :: TimeoutMonitor where
  "demoTimer = \<lparr> TmContainer = ''c1'', TmMaxDuration = 1000, TmAutoStop = True, TmStopGraceful = True \<rparr>"

lemma timeout_claim_unconfirmed: "runMonitor failingShell demoTimer TimerExpired 0 = (Inr True, 5)"
  by code_simp

text \<open>A claim is never made on a container that the last query showed running.\<close>

lemma timeout_claim_not_running:
  "runMonitor I tm ev w = (Inr True, w') \<Longrightarrow> \<exists>v q. ContainerRunning I (TmContainer tm) v = (q, w') \<and> q \<noteq> Inr True"
proof -
  assume run: "runMonitor I tm ev w = (Inr True, w')"
  have final: "\<exists>q. ContainerRunning I (TmContainer tm) v = (q, w') \<and> q \<noteq> Inr True"
    if "bindA (tryA (ContainerRunning I (TmContainer tm))) (\<lambda>r. retA (r \<noteq> Inr True)) v = (Inr True, w')" for v
    using that by (auto simp: bindA_Inr tryA_Inr)
  from run show ?thesis
    by (auto simp: runMonitor_def handleTimeout_def Let_def bindA_Inr[of "tryA (stopContainerQuietly I (TmContainer tm) False)"]
        bindA_Inr[of "tryA (stopContainerQuietly I (TmContainer tm) True)"] thenA_Inr
        bindA_Inr[of "\<lambda>w. tryA (ContainerRunning I (TmContainer tm)) (Sleep I 5000 w)"]
        split: if_splits timer_event.splits sum.splits dest!: final) (metis old.unit.exhaust sumE)+
qed

end
