(* ===== verification/Pipeline.thy ===== *)
theory Pipeline
  imports Prelude "HOL-Library.Multiset"
begin

text \<open>
  The session pipeline, \<open>internal/session/pipeline.go\<close>: phases that run in order and register
  teardowns, which \<open>Teardown\<close> runs once, the last first. The teardown may come from another
  goroutine while a phase is still running, so a phase is an action on the pipeline and the
  world that may contain such a call.

  The lemmas account for every teardown: each one that a phase returned runs exactly once, in
  reverse order when nothing is torn down early.
\<close>

section \<open>Pipeline\<close>

text \<open>A teardown is named after its phase; it changes the world.\<close>

record 'w pipeline =
  teardowns :: "(string \<times> ('w \<Rightarrow> 'w)) list"
  torn :: bool

type_synonym 'w pstate = "'w pipeline \<times> 'w"

record 'w phase =
  PhaseName :: string
  RunFn :: "'w pstate \<Rightarrow> (('w \<Rightarrow> 'w) option \<times> gerr option) \<times> 'w pstate"

definition newPipeline :: "'w pipeline" where
  "newPipeline = \<lparr> teardowns = [], torn = False \<rparr>"

definition runTeardowns :: "(string \<times> ('w \<Rightarrow> 'w)) list \<Rightarrow> 'w \<Rightarrow> 'w" where
  "runTeardowns tds w = fold (\<lambda>(n, f) w. f w) (rev tds) w"

definition Teardown :: "'w pstate \<Rightarrow> 'w pstate" where
  "Teardown s = (case s of (p, w) \<Rightarrow> if torn p then (p, w) else (p\<lparr> torn := True \<rparr>, runTeardowns (teardowns p) w))"

text \<open>What \<open>Run\<close> does with the teardown a phase returned.\<close>

definition register :: "string \<Rightarrow> ('w \<Rightarrow> 'w) option \<Rightarrow> 'w pstate \<Rightarrow> 'w pstate" where
  "register name td s = (case s of (p, w) \<Rightarrow> (case td of None \<Rightarrow> (p, w)
     | Some f \<Rightarrow> if torn p then (p, f w) else (p\<lparr> teardowns := teardowns p @ [(name, f)] \<rparr>, w)))"

text \<open>\<open>Run\<close>; \<open>ctxErr\<close> tells of the world whether the context was cancelled.\<close>

fun Run :: "('w \<Rightarrow> gerr option) \<Rightarrow> 'w phase list \<Rightarrow> 'w pstate \<Rightarrow> unit result \<times> 'w pstate" where
  "Run ctxErr [] s = (Inr (), s)"
| "Run ctxErr (ph # phs) s = (case ctxErr (snd s) of Some e \<Rightarrow> (Inl e, s)
     | None \<Rightarrow> (case RunFn ph s of ((td, err), s') \<Rightarrow>
         (case err of Some e \<Rightarrow> (Inl (Wrapf (PhaseName ph) e), register (PhaseName ph) td s')
          | None \<Rightarrow> Run ctxErr phs (register (PhaseName ph) td s'))))"

section \<open>Accounting for the teardowns\<close>

text \<open>
  The world of the statements records events: a phase appends what it did, a teardown appends its
  name. A phase is given by its name, the error it ends with, whether it returns a teardown and
  whether another goroutine tears the pipeline down while it runs.
\<close>

datatype pevent = Ran string | Torn string

record pspec =
  SpName :: string
  SpErr :: "gerr option"
  SpTeardown :: bool
  SpInterrupted :: bool

definition logged :: "string \<Rightarrow> pevent list \<Rightarrow> pevent list" where
  "logged n w = w @ [Torn n]"

definition phaseOf :: "pspec \<Rightarrow> pevent list phase" where
  "phaseOf sp = \<lparr> PhaseName = SpName sp, RunFn = (\<lambda>(p, w).
     let s = (p, w @ [Ran (SpName sp)]);
         s' = (if SpInterrupted sp then Teardown s else s)
     in ((if SpTeardown sp then Some (logged (SpName sp)) else None, SpErr sp), s')) \<rparr>"

fun ranNames :: "pevent list \<Rightarrow> string list" where
  "ranNames [] = []"
| "ranNames (Ran n # es) = n # ranNames es"
| "ranNames (Torn n # es) = ranNames es"

fun tornNames :: "pevent list \<Rightarrow> string list" where
  "tornNames [] = []"
| "tornNames (Ran n # es) = tornNames es"
| "tornNames (Torn n # es) = n # tornNames es"

lemma names_append [simp]:
  "ranNames (a @ b) = ranNames a @ ranNames b" "tornNames (a @ b) = tornNames a @ tornNames b"
  by (induction a rule: ranNames.induct) simp_all

definition named_tds :: "(string \<times> (pevent list \<Rightarrow> pevent list)) list \<Rightarrow> bool" where
  "named_tds tds \<longleftrightarrow> list_all (\<lambda>(n, f). f = logged n) tds"

lemma runTeardowns_named: "named_tds tds \<Longrightarrow> runTeardowns tds w = w @ map Torn (rev (map fst tds))"
proof (induction tds arbitrary: w rule: rev_induct)
  case (snoc x tds)
  obtain n f where x: "x = (n, f)" by (cases x)
  with snoc.prems have "f = logged n" "named_tds tds" by (simp_all add: named_tds_def)
  with x snoc.IH[of "f w"] show ?case by (simp add: runTeardowns_def logged_def)
qed (simp add: runTeardowns_def)

lemma torn_map [simp]: "tornNames (map Torn ns) = ns" "ranNames (map Torn ns) = []"
  by (induction ns) simp_all

text \<open>The teardowns that ran or are registered are those that the phases so far returned.\<close>

definition accounted :: "string list \<Rightarrow> pevent list pstate \<Rightarrow> bool" where
  "accounted ns s \<longleftrightarrow> named_tds (teardowns (fst s)) \<and>
     (if torn (fst s) then mset (tornNames (snd s)) = mset ns
      else tornNames (snd s) = [] \<and> map fst (teardowns (fst s)) = ns)"

lemma accounted_Teardown: "accounted ns s \<Longrightarrow> accounted ns (Teardown s)"
  by (cases s) (auto simp: accounted_def Teardown_def runTeardowns_named)

lemma accounted_ran: "accounted ns (p, w) \<Longrightarrow> accounted ns (p, w @ [Ran n])"
  by (auto simp: accounted_def split: if_splits)

lemma accounted_register:
  "accounted ns s \<Longrightarrow> accounted (ns @ (if b then [n] else [])) (register n (if b then Some (logged n) else None) s)"
  by (cases s) (auto simp: accounted_def register_def named_tds_def logged_def)

text \<open>The phases that start, up to the first that fails.\<close>

fun started :: "pspec list \<Rightarrow> pspec list" where
  "started [] = []"
| "started (sp # sps) = sp # (case SpErr sp of None \<Rightarrow> started sps | Some _ \<Rightarrow> [])"

definition returned :: "pspec list \<Rightarrow> string list" where
  "returned sps = map SpName (filter SpTeardown sps)"

lemma Run_accounted:
  "accounted ns s \<Longrightarrow> accounted (ns @ returned (started sps)) (snd (Run (\<lambda>_. None) (map phaseOf sps) s)) \<and>
   ranNames (snd (snd (Run (\<lambda>_. None) (map phaseOf sps) s))) = ranNames (snd s) @ map SpName (started sps)"
proof (induction sps arbitrary: ns s)
  case Nil
  then show ?case by (simp add: returned_def)
next
  case (Cons sp sps)
  obtain p w where s: "s = (p, w)" by (cases s)
  define s' where "s' = (if SpInterrupted sp then Teardown (p, w @ [Ran (SpName sp)]) else (p, w @ [Ran (SpName sp)]))"
  define s'' where "s'' = register (SpName sp) (if SpTeardown sp then Some (logged (SpName sp)) else None) s'"
  have a': "accounted ns s'" using Cons.prems accounted_Teardown accounted_ran unfolding s s'_def by auto
  have a'': "accounted (ns @ (if SpTeardown sp then [SpName sp] else [])) s''"
    unfolding s''_def by (rule accounted_register[OF a'])
  have r': "ranNames (snd s') = ranNames w @ [SpName sp]"
    using Cons.prems unfolding s s'_def by (auto simp: Teardown_def accounted_def runTeardowns_named)
  have r: "ranNames (snd s'') = ranNames w @ [SpName sp]"
    unfolding s''_def r'[symmetric] by (cases s') (auto simp: register_def logged_def)
  have run: "Run (\<lambda>_. None) (map phaseOf (sp # sps)) s = (case SpErr sp of
      Some e \<Rightarrow> (Inl (Wrapf (SpName sp) e), s'') | None \<Rightarrow> Run (\<lambda>_. None) (map phaseOf sps) s'')"
    by (simp add: s phaseOf_def s''_def s'_def Let_def split: option.splits)
  show ?case
  proof (cases "SpErr sp")
    case None
    with Cons.IH[OF a''] r s show ?thesis unfolding run by (cases "SpTeardown sp") (simp_all add: returned_def)
  next
    case (Some e)
    with a'' r s show ?thesis unfolding run by (cases "SpTeardown sp") (simp_all add: returned_def)
  qed
qed



end
