(* ===== verification/GoScan.thy ===== *)
theory GoScan
  imports GoNet
begin

text \<open>
  More of Go's standard library, as it documents and implements it: \<open>bufio.Scanner\<close> over the lines of
  a file with its 64 KiB token limit, \<open>strconv.ParseInt\<close> in base 16, and \<open>net.IP.String\<close> for
  addresses of both families (RFC 5952).
\<close>

section \<open>bufio.Scanner\<close>

definition drop_cr :: "string \<Rightarrow> string" where
  "drop_cr s = (if s \<noteq> [] \<and> last s = CHR 0x0D then butlast s else s)"

definition maxScanTokenSize :: nat where "maxScanTokenSize = 65536"

text \<open>
  The lines the scanner yields, and whether it stopped with \<open>ErrTooLong\<close>: a line that fills the
  buffer stops it for good.
\<close>

definition scanLines :: "string \<Rightarrow> string list \<times> bool" where
  "scanLines s = (let ls = str_split s [CHR 0x0A]; ls' = (if last ls = [] then butlast ls else ls);
       ok = takeWhile (\<lambda>l. length l < maxScanTokenSize) ls' in
     (map drop_cr ok, length ok < length ls'))"

section \<open>Hexadecimal numbers\<close>

definition hex_text :: "string \<Rightarrow> nat option" where
  "hex_text s = (if s \<noteq> [] \<and> list_all is_hex s then Some (hexs_val s) else None)"

text \<open>\<open>strconv.ParseUint(s, 16, bits)\<close> and \<open>strconv.ParseInt(s, 16, bits)\<close>\<close>

definition parseUintHex :: "nat \<Rightarrow> string \<Rightarrow> nat option" where
  "parseUintHex bits s = (case hex_text s of Some n \<Rightarrow> if n < 2 ^ bits then Some n else None | None \<Rightarrow> None)"

definition parseIntHex :: "nat \<Rightarrow> string \<Rightarrow> int option" where
  "parseIntHex bits s = (case s of [] \<Rightarrow> None | c # t \<Rightarrow>
     if c = CHR ''-'' then (case hex_text t of Some n \<Rightarrow> if n \<le> 2 ^ (bits - 1) then Some (- int n) else None | None \<Rightarrow> None)
     else (case hex_text (if c = CHR ''+'' then t else s) of
        Some n \<Rightarrow> if n < 2 ^ (bits - 1) then Some (int n) else None | None \<Rightarrow> None))"

section \<open>Addresses as text\<close>

definition ip6_groups :: "netip \<Rightarrow> nat list" where
  "ip6_groups a = map (\<lambda>i. unat a div 2 ^ (16 * (7 - i)) mod 2 ^ 16) [0..<8]"

definition hex_lower :: "nat \<Rightarrow> char" where
  "hex_lower d = ''0123456789abcdef'' ! d"

text \<open>\<open>appendHex\<close>: no leading zeros\<close>

fun appendHex :: "nat \<Rightarrow> string" where
  "appendHex n = (if n < 16 then [hex_lower n] else appendHex (n div 16) @ [hex_lower (n mod 16)])"

declare appendHex.simps [simp del]

definition zero_run :: "nat list \<Rightarrow> nat \<Rightarrow> nat" where
  "zero_run gs i = length (takeWhile (\<lambda>g. g = 0) (drop i gs))"

text \<open>The first of the longest runs of at least two zero groups: its start and its length.\<close>

definition longest_zeros :: "nat list \<Rightarrow> (nat \<times> nat) option" where
  "longest_zeros gs = foldl (\<lambda>b i. let l = zero_run gs i in
     if 2 \<le> l \<and> (case b of Some (_, m) \<Rightarrow> m < l | None \<Rightarrow> True) then Some (i, l) else b) None [0..<length gs]"

definition ip6_string :: "netip \<Rightarrow> string" where
  "ip6_string a = (let gs = ip6_groups a; text = (\<lambda>xs. str_join '':'' (map appendHex xs)) in
     case longest_zeros gs of None \<Rightarrow> text gs
     | Some (i, l) \<Rightarrow> text (take i gs) @ ''::'' @ text (drop (i + l) gs))"

definition ip_String :: "netip \<Rightarrow> string" where
  "ip_String a = (case to4 a of Some x \<Rightarrow> ip4_string x | None \<Rightarrow> ip6_string a)"

lemma ip_String_v4 [simp]: "ip_String (v4_in_v6 a) = ip4_string a"
  by (simp add: ip_String_def)

section \<open>The kernel's hexadecimal columns\<close>

definition hex_upper :: "nat \<Rightarrow> char" where
  "hex_upper d = ''0123456789ABCDEF'' ! d"

text \<open>\<open>%0kX\<close> of a number below \<open>16 ^ k\<close>\<close>

fun hexU :: "nat \<Rightarrow> nat \<Rightarrow> string" where
  "hexU 0 n = []"
| "hexU (Suc k) n = hexU k (n div 16) @ [hex_upper (n mod 16)]"

lemma length_hexU [simp]: "length (hexU k n) = k"
  by (induction k n rule: hexU.induct) simp_all

lemma less_16_cases: "(d::nat) < 16 \<Longrightarrow> d \<in> {0,1,2,3,4,5,6,7,8,9,10,11,12,13,14,15}"
  unfolding insert_iff empty_iff by presburger

lemma hex_upper_ok: "d < 16 \<Longrightarrow> is_hex (hex_upper d) \<and> hex_val (hex_upper d) = d"
  by (drule less_16_cases) (auto simp: hex_upper_def is_hex_def hex_val_def char_defs)

lemma list_all_hexU [simp]: "list_all is_hex (hexU k n)"
  by (induction k n rule: hexU.induct) (simp_all add: hex_upper_ok)

lemma hexs_val_snoc: "hexs_val (s @ [c]) = hexs_val s * 16 + hex_val c"
  by (simp add: hexs_val_def)

lemma hexs_val_hexU [simp]: "hexs_val (hexU k n) = n mod 16 ^ k"
proof (induction k n rule: hexU.induct)
  case (1 n)
  then show ?case by (simp add: hexs_val_def)
next
  case (2 k n)
  have "n mod 16 ^ Suc k = n div 16 mod 16 ^ k * 16 + n mod 16"
    using mod_mult2_eq[of n 16 "16 ^ k"] by simp
  with 2 show ?case by (simp add: hexs_val_snoc hex_upper_ok)
qed

lemma hex_text_hexU: "0 < k \<Longrightarrow> hex_text (hexU k n) = Some (n mod 16 ^ k)"
  using length_hexU[of k n] by (auto simp: hex_text_def simp del: length_hexU)

lemma hexU_hd: "0 < k \<Longrightarrow> is_hex (hd (hexU k n))"
  using list_all_hexU[of k n] by (cases "hexU k n") (auto simp: dest: arg_cong[of _ _ length])

lemma parseIntHex_hexU: "0 < k \<Longrightarrow> n mod 16 ^ k < 2 ^ (bits - 1) \<Longrightarrow> parseIntHex bits (hexU k n) = Some (int (n mod 16 ^ k))"
proof -
  assume k: "0 < k" and b: "n mod 16 ^ k < 2 ^ (bits - 1)"
  obtain c t where h: "hexU k n = c # t" using k length_hexU[of k n] by (cases "hexU k n") auto
  then have "is_hex c" using hexU_hd[OF k, of n] by simp
  then have "c \<noteq> CHR ''-''" "c \<noteq> CHR ''+''" by (auto simp: is_hex_def char_defs)
  with h b hex_text_hexU[OF k, of n] show ?thesis by (simp add: parseIntHex_def)
qed

end
