(* ===== verification/MonCgroup.thy ===== *)
theory MonCgroup
  imports GoScan GoPath Incus
begin

text \<open>
  Where the monitor finds a container on the host, \<open>internal/monitor/cgroup.go\<close>: the cgroup paths
  it probes, the init process found in \<open>cgroup.procs\<close> or in \<open>incus info\<close>, the fallback through
  \<open>/proc/<pid>/cgroup\<close>, and the removal of a systemd scope. The host's \<open>/proc\<close> and \<open>/sys\<close> are
  parameters: a record of the file operations, each of which may do anything with the world.
  The counters of \<open>CollectResourceStats\<close> are not modelled.
\<close>

section \<open>The host's pseudo file systems\<close>

text \<open>
  \<open>PathExists\<close> is \<open>os.Stat\<close> without an error, \<open>ReadDir\<close> gives names with their \<open>IsDir\<close>, \<open>WalkTree\<close>
  the entries \<open>filepath.WalkDir\<close> visits without an error as path, name and \<open>IsDir\<close>, \<open>CtxErr\<close> is
  \<open>ctx.Err()\<close>.
\<close>

record 'w procfs =
  PathExists :: "string \<Rightarrow> 'w \<Rightarrow> bool \<times> 'w"
  ReadFile :: "string \<Rightarrow> ('w, string) act"
  ReadDir :: "string \<Rightarrow> ('w, (string \<times> bool) list) act"
  WalkTree :: "string \<Rightarrow> 'w \<Rightarrow> (string \<times> string \<times> bool) list \<times> 'w"
  CtxErr :: "'w \<Rightarrow> gerr option"

section \<open>cgroup paths\<close>

definition wellKnownCgroupPaths :: "string \<Rightarrow> string list" where
  "wellKnownCgroupPaths c = map (\<lambda>d. ''/sys/fs/cgroup/'' @ d @ ''/'' @ c)
     [''incus.payload'', ''lxc.payload'', ''lxc'', ''incus'', ''incus.monitor'', ''lxc.monitor'']"

fun infoPID :: "string list \<Rightarrow> int option" where
  "infoPID [] = None"
| "infoPID (line # ls) = (let t = trim_space line; parts = str_fields t in
     if (has_prefix t ''PID:'' \<or> has_prefix t ''Pid:'') \<and> 2 \<le> length parts then
       (case atoi (parts ! 1) of Some pid \<Rightarrow> if 0 < pid then Some pid else infoPID ls | None \<Rightarrow> infoPID ls)
     else infoPID ls)"

definition parseInitPIDFromIncusInfo :: "string \<Rightarrow> int result" where
  "parseInitPIDFromIncusInfo output = (case infoPID (str_split output [CHR 0x0A]) of
     Some pid \<Rightarrow> Inr pid
   | None \<Rightarrow> Inl (Errorf ''could not find container PID in incus info output'' []))"

definition getInitPIDViaIncus :: "'w incus \<Rightarrow> string \<Rightarrow> ('w, int) act" where
  "getInitPIDViaIncus I c = bindA (wrapA ''failed to get container info'' (IncusOutput I [''info'', c]))
     (\<lambda>out. liftA (parseInitPIDFromIncusInfo out))"

text \<open>One line of a \<open>cgroup.procs\<close> file; \<open>0\<close> stands for no PID yet.\<close>

definition lowerPID :: "int \<Rightarrow> string \<Rightarrow> int" where
  "lowerPID m line = (case atoi (trim_space line) of
     Some pid \<Rightarrow> if 0 < pid \<and> (m = 0 \<or> pid < m) then pid else m
   | None \<Rightarrow> m)"

fun walkProcs :: "'w procfs \<Rightarrow> (string \<times> string \<times> bool) list \<Rightarrow> int \<Rightarrow> 'w \<Rightarrow> int \<times> 'w" where
  "walkProcs P [] m w = (m, w)"
| "walkProcs P ((path, name, dir) # es) m w = (
     if dir \<or> name \<noteq> ''cgroup.procs'' then walkProcs P es m w
     else case ReadFile P path w of
       (Inl _, w') \<Rightarrow> walkProcs P es m w'
     | (Inr text, w') \<Rightarrow> walkProcs P es (foldl lowerPID m (str_split (trim_space text) [CHR 0x0A])) w')"

definition initPIDFromCgroupProcs :: "'w procfs \<Rightarrow> string \<Rightarrow> ('w, int) act" where
  "initPIDFromCgroupProcs P path w = (let (es, w') = WalkTree P path w; (m, w'') = walkProcs P es 0 w' in
     (if m = 0 then Inl (Errorf ''no PIDs found in cgroup %s'' [path]) else Inr m, w''))"

fun probeInitPID :: "'w procfs \<Rightarrow> 'w incus \<Rightarrow> string \<Rightarrow> string list \<Rightarrow> ('w, int) act" where
  "probeInitPID P I c [] w = getInitPIDViaIncus I c w"
| "probeInitPID P I c (p # ps) w = (case PathExists P p w of
     (False, w') \<Rightarrow> probeInitPID P I c ps w'
   | (True, w') \<Rightarrow> (case initPIDFromCgroupProcs P p w' of
        (Inr pid, w'') \<Rightarrow> (Inr pid, w'')
      | (Inl _, w'') \<Rightarrow> probeInitPID P I c ps w''))"

definition GetContainerInitPID :: "'w procfs \<Rightarrow> 'w incus \<Rightarrow> string \<Rightarrow> ('w, int) act" where
  "GetContainerInitPID P I c = probeInitPID P I c (wellKnownCgroupPaths c)"

text \<open>The path of the first line that starts with \<open>0::\<close>\<close>

fun unifiedPath :: "string list \<Rightarrow> string option" where
  "unifiedPath [] = None"
| "unifiedPath (line # ls) = (if has_prefix line ''0::'' then Some (trim_space (trim_prefix line ''0::'')) else unifiedPath ls)"

definition findCgroupPathViaIncus :: "'w procfs \<Rightarrow> 'w incus \<Rightarrow> string \<Rightarrow> ('w, string) act" where
  "findCgroupPathViaIncus P I c = bindA (getInitPIDViaIncus I c) (\<lambda>pid.
     let cgroupFile = ''/proc/'' @ itoa_int pid @ ''/cgroup'' in
     bindA (wrapA ''failed to read cgroup file'' (ReadFile P cgroupFile)) (\<lambda>text.
     case unifiedPath (str_split text [CHR 0x0A]) of
       Some p \<Rightarrow> retA (path_join [''/sys/fs/cgroup'', p])
     | None \<Rightarrow> failA (Errorf ''could not parse cgroup path from %s'' [cgroupFile])))"

fun probeCgroup :: "'w procfs \<Rightarrow> 'w incus \<Rightarrow> string \<Rightarrow> string list \<Rightarrow> ('w, string) act" where
  "probeCgroup P I c [] w = findCgroupPathViaIncus P I c w"
| "probeCgroup P I c (p # ps) w = (case PathExists P p w of
     (True, w') \<Rightarrow> (Inr p, w') | (False, w') \<Rightarrow> probeCgroup P I c ps w')"

definition GetCgroupPath :: "'w procfs \<Rightarrow> 'w incus \<Rightarrow> string \<Rightarrow> ('w, string) act" where
  "GetCgroupPath P I c = probeCgroup P I c (wellKnownCgroupPaths c)"

definition stripSystemdScopeSuffix :: "string \<Rightarrow> string" where
  "stripSystemdScopeSuffix p = (let b = path_base p in
     if has_suffix b ''.scope'' \<or> has_suffix b ''.service'' then path_dir p else p)"

section \<open>The lowest PID\<close>

text \<open>The PIDs the lines of a file name.\<close>

definition pids :: "string list \<Rightarrow> int set" where
  "pids ls = {pid. \<exists>l \<in> set ls. atoi (trim_space l) = Some pid \<and> 0 < pid}"

definition least_of :: "int set \<Rightarrow> int \<Rightarrow> bool" where
  "least_of A m \<longleftrightarrow> (if A = {} then m = 0 else m \<in> A \<and> (\<forall>p \<in> A. m \<le> p))"

lemma least_of_lowerPID:
  assumes "least_of A m" and "\<forall>p \<in> A. 0 < p"
  shows "least_of (A \<union> pids [l]) (lowerPID m l)"
proof (cases "atoi (trim_space l)")
  case None
  then show ?thesis using assms by (simp add: pids_def lowerPID_def)
next
  case (Some p)
  then have "pids [l] = (if 0 < p then {p} else {})" by (auto simp: pids_def)
  with Some assms show ?thesis
    by (cases "A = {}") (force simp: least_of_def lowerPID_def)+
qed

lemma pids_Cons: "pids (l # ls) = pids [l] \<union> pids ls"
  by (auto simp: pids_def)

lemma pids_pos: "p \<in> pids ls \<Longrightarrow> 0 < p"
  by (auto simp: pids_def)

lemma least_of_fold:
  "least_of A m \<Longrightarrow> \<forall>p \<in> A. 0 < p \<Longrightarrow> least_of (A \<union> pids ls) (foldl lowerPID m ls)"
proof (induction ls arbitrary: A m)
  case Nil
  then show ?case by (simp add: pids_def)
next
  case (Cons l ls)
  from Cons.IH[OF least_of_lowerPID[OF Cons.prems]] Cons.prems(2) show ?case
    by (simp add: pids_Cons[of l ls] Un_assoc pids_pos ball_Un)
qed

text \<open>What a host with fixed files gives for a tree: the PIDs of all its readable \<open>cgroup.procs\<close>.\<close>

definition tree_pids :: "(string \<Rightarrow> string option) \<Rightarrow> (string \<times> string \<times> bool) list \<Rightarrow> int set" where
  "tree_pids files es = (\<Union>(path, name, dir) \<in> set es.
     if dir \<or> name \<noteq> ''cgroup.procs'' then {} else
     case files path of None \<Rightarrow> {} | Some t \<Rightarrow> pids (str_split (trim_space t) [CHR 0x0A]))"

definition staticFiles :: "(string \<Rightarrow> string option) \<Rightarrow> (string \<times> string \<times> bool) list \<Rightarrow> 'w procfs" where
  "staticFiles files es = \<lparr>PathExists = \<lambda>p w. (files p \<noteq> None, w),
     ReadFile = \<lambda>p w. (case files p of Some t \<Rightarrow> Inr t | None \<Rightarrow> Inl (ExtErr ''no such file''), w),
     ReadDir = \<lambda>p w. (Inl (ExtErr ''not a directory''), w),
     WalkTree = \<lambda>p w. (filter (\<lambda>(path, _). has_prefix path p) es, w), CtxErr = \<lambda>w. None\<rparr>"

lemma read_static: "ReadFile (staticFiles files es) p w =
    (case files p of Some t \<Rightarrow> Inr t | None \<Rightarrow> Inl (ExtErr ''no such file''), w)"
  by (simp add: staticFiles_def)

lemma walkProcs_least:
  "least_of A m \<Longrightarrow> \<forall>p \<in> A. 0 < p \<Longrightarrow>
     \<exists>m'. walkProcs (staticFiles files all) es m w = (m', w) \<and> least_of (A \<union> tree_pids files es) m'"
proof (induction es arbitrary: A m)
  case Nil
  then show ?case by (simp add: tree_pids_def)
next
  case (Cons e es)
  obtain path name dir where e: "e = (path, name, dir)" by (rule prod_cases3)
  define B where "B = tree_pids files [e]"
  define m1 where "m1 = (if dir \<or> name \<noteq> ''cgroup.procs'' then m else case files path of None \<Rightarrow> m
      | Some t \<Rightarrow> foldl lowerPID m (str_split (trim_space t) [CHR 0x0A]))"
  have split: "tree_pids files (e # es) = B \<union> tree_pids files es" by (auto simp: tree_pids_def B_def)
  have pos: "\<forall>p \<in> A \<union> B. 0 < p" using Cons.prems(2)
    by (auto simp: B_def tree_pids_def pids_pos split: if_splits option.splits)
  have "least_of (A \<union> B) m1"
    using Cons.prems least_of_fold[OF Cons.prems] by (auto simp: B_def m1_def tree_pids_def e split: option.split)
  from Cons.IH[OF this pos] obtain m' where m': "walkProcs (staticFiles files all) es m1 w = (m', w)"
    "least_of (A \<union> B \<union> tree_pids files es) m'" by blast
  have "walkProcs (staticFiles files all) (e # es) m w = walkProcs (staticFiles files all) es m1 w"
    by (cases "files path") (auto simp: e m1_def read_static)
  with m' show ?case by (simp only: split Un_assoc) blast
qed

lemma initPID_least:
  assumes "initPIDFromCgroupProcs (staticFiles files es) path w = (Inr pid, w')"
  shows "pid \<in> tree_pids files (filter (\<lambda>(q, _). has_prefix q path) es) \<and>
    (\<forall>p \<in> tree_pids files (filter (\<lambda>(q, _). has_prefix q path) es). pid \<le> p)"
proof -
  let ?es = "filter (\<lambda>(q, _). has_prefix q path) es"
  obtain m where m: "walkProcs (staticFiles files es) ?es 0 w = (m, w)" "least_of (tree_pids files ?es) m"
    using walkProcs_least[of "{}" 0 files es ?es w] by (auto simp: least_of_def)
  have "WalkTree (staticFiles files es) path w = (?es, w)" by (simp add: staticFiles_def)
  with m(1) assms have "m = pid" "pid \<noteq> 0" by (auto simp: initPIDFromCgroupProcs_def split: if_splits)
  with m(2) show ?thesis by (auto simp: least_of_def split: if_splits)
qed

text \<open>The fallback order: the payload cgroups come before every monitor cgroup.\<close>

lemma payload_first:
  assumes "PathExists P (''/sys/fs/cgroup/incus.payload/'' @ c) w = (True, w')"
  shows "GetCgroupPath P I c w = (Inr (''/sys/fs/cgroup/incus.payload/'' @ c), w')"
  using assms by (simp add: GetCgroupPath_def wellKnownCgroupPaths_def)

end
