(* ===== verification/MonNetwork.thy ===== *)
theory MonNetwork
  imports MonCgroup
begin

text \<open>
  The monitor's view of a container's connections, \<open>internal/monitor/network.go\<close>: the parser of
  \<open>/proc/<pid>/net/{tcp,tcp6,udp,udp6}\<close>, the fallback to the host's own tables, and the rules that
  mark a connection as suspicious.

  The lemmas show that the kernel's rendering of an address is read back as that address, that the
  RFC 1918 test agrees with the prefix test of the firewall model, and what exactly is flagged.
\<close>

record Connection =
  Protocol :: string
  LocalAddr :: string
  RemoteAddr :: string
  State :: string
  UID :: int
  Suspicious :: bool
  SuspectReason :: string

record NetworkStats =
  ActiveConnections :: nat
  Connections :: "Connection list"
  SuspiciousCount :: nat

section \<open>Parsing\<close>

definition rev_pairs :: "string \<Rightarrow> string" where
  "rev_pairs g = take 2 (drop 6 g) @ take 2 (drop 4 g) @ take 2 (drop 2 g) @ take 2 g"

definition parseHexIP :: "string \<Rightarrow> string result" where
  "parseHexIP s = (if length s = 8 then
       (case parseUintHex 32 s of None \<Rightarrow> Inl (ExtErr ''strconv.ParseUint: invalid syntax'')
        | Some n \<Rightarrow> Inr (str_join ''.'' (map itoa [n mod 256, n div 2 ^ 8 mod 256, n div 2 ^ 16 mod 256, n div 2 ^ 24 mod 256])))
     else if length s = 32 then
       let parts = map (\<lambda>i. rev_pairs (take 8 (drop i s))) [0, 8, 16, 24];
           ipv6 = str_join '':'' (concat (map (\<lambda>p. [take 4 p, drop 4 p]) parts)) in
       (case net_ParseIP ipv6 of None \<Rightarrow> Inr ipv6 | Some ip \<Rightarrow> Inr (ip_String ip))
     else Inl (Errorf ''invalid IP format: %s'' [s]))"

definition parseHexAddr :: "string \<Rightarrow> string result" where
  "parseHexAddr s = (case str_split s '':'' of
     [a, p] \<Rightarrow> bindE (parseHexIP a) (\<lambda>ip. case parseIntHex 64 p of
         None \<Rightarrow> Inl (ExtErr ''strconv.ParseInt: invalid syntax'')
       | Some port \<Rightarrow> Inr (ip @ '':'' @ itoa_int port))
   | _ \<Rightarrow> Inl (Errorf ''invalid address format: %s'' [s]))"

definition tcpStates :: "string list" where
  "tcpStates = ['''', ''ESTABLISHED'', ''SYN_SENT'', ''SYN_RECV'', ''FIN_WAIT1'', ''FIN_WAIT2'', ''TIME_WAIT'',
     ''CLOSE'', ''CLOSE_WAIT'', ''LAST_ACK'', ''LISTEN'', ''CLOSING'']"

definition tcpStateFromHex :: "string \<Rightarrow> string" where
  "tcpStateFromHex s = (case parseIntHex 32 s of None \<Rightarrow> ''UNKNOWN''
     | Some n \<Rightarrow> if 0 \<le> n \<and> nat n < length tcpStates then tcpStates ! nat n else ''UNKNOWN'')"

text \<open>One line below the header; \<open>None\<close> is a \<open>continue\<close>.\<close>

definition parseTCPLine :: "string \<Rightarrow> string \<Rightarrow> Connection option" where
  "parseTCPLine proto line = (let fields = str_fields line in
     if length fields < 10 then None else
     case parseHexAddr (fields ! 1) of Inl _ \<Rightarrow> None | Inr l \<Rightarrow>
     case parseHexAddr (fields ! 2) of Inl _ \<Rightarrow> None | Inr r \<Rightarrow>
       Some \<lparr>Protocol = proto, LocalAddr = l, RemoteAddr = r, State = tcpStateFromHex (fields ! 3),
         UID = (case atoi (fields ! 7) of Some u \<Rightarrow> u | None \<Rightarrow> 0), Suspicious = False, SuspectReason = ''''\<rparr>)"

definition parseProcNetTCP :: "'w procfs \<Rightarrow> string \<Rightarrow> string \<Rightarrow> ('w, Connection list) act" where
  "parseProcNetTCP P path proto = bindA (ReadFile P path) (\<lambda>text. let (ls, tooLong) = scanLines text in
     if tooLong then failA (ExtErr ''bufio.Scanner: token too long'')
     else retA (List.map_filter (parseTCPLine proto) (drop 1 ls)))"

text \<open>The tables of one directory, in order; the flag says that at least one could be read.\<close>

fun readTables :: "'w procfs \<Rightarrow> string \<Rightarrow> string list \<Rightarrow> 'w \<Rightarrow> (Connection list \<times> bool) \<times> 'w" where
  "readTables P dir [] w = (([], False), w)"
| "readTables P dir (t # ts) w = (let (r, w1) = parseProcNetTCP P (dir @ t) t w; ((cs, ok), w2) = readTables P dir ts w1 in
     (case r of Inl _ \<Rightarrow> (cs, ok) | Inr c \<Rightarrow> (c @ cs, True), w2))"

definition netTables :: "string list" where
  "netTables = [''tcp'', ''tcp6'', ''udp'', ''udp6'']"

definition parseConnections :: "'w procfs \<Rightarrow> 'w incus \<Rightarrow> string \<Rightarrow> string \<Rightarrow> ('w, Connection list) act" where
  "parseConnections P I c cip w = (let (r, w1) = GetContainerInitPID P I c w;
       fallback = (\<lambda>w'. if cip = [] then (Inr [], w') else
         let ((cs, _), w2) = readTables P ''/proc/net/'' netTables w' in
         (Inr (filter (\<lambda>k. has_prefix (LocalAddr k) (cip @ '':'')) cs), w2)) in
     case r of
       Inl _ \<Rightarrow> (case CtxErr P w1 of Some e \<Rightarrow> (Inl e, w1) | None \<Rightarrow> fallback w1)
     | Inr pid \<Rightarrow> if 0 < pid then
         let ((cs, ok), w2) = readTables P (''/proc/'' @ itoa_int pid @ ''/net/'') netTables w1 in
         if ok then (Inr cs, w2) else fallback w2
       else fallback w1)"

section \<open>What is suspicious\<close>

definition extractIP :: "string \<Rightarrow> string" where
  "extractIP a = (case last_index a (CHR '':'') of Some i \<Rightarrow> take i a | None \<Rightarrow> a)"

definition extractPort :: "string \<Rightarrow> int" where
  "extractPort a = (case last_index a (CHR '':'') of
     Some i \<Rightarrow> (case atoi (drop (Suc i) a) of Some p \<Rightarrow> p | None \<Rightarrow> 0) | None \<Rightarrow> 0)"

definition cidr_has :: "netip \<Rightarrow> string \<Rightarrow> bool" where
  "cidr_has ip cidr = (case net_ParseCIDR cidr of None \<Rightarrow> False | Some (_, n) \<Rightarrow> net_contains n ip)"

definition inAllowlist :: "string \<Rightarrow> string list \<Rightarrow> bool" where
  "inAllowlist s cidrs = (case net_ParseIP s of None \<Rightarrow> False | Some ip \<Rightarrow> list_ex (cidr_has ip) cidrs)"

definition isRFC1918 :: "string \<Rightarrow> bool" where
  "isRFC1918 s = inAllowlist s [''10.0.0.0/8'', ''172.16.0.0/12'', ''192.168.0.0/16'']"

definition isSuspiciousPort :: "int \<Rightarrow> bool" where
  "isSuspiciousPort p = (p \<in> set [4444, 5555, 1234, 31337, 12345, 6666, 6667, 6697, 8080])"

definition checkSuspicious :: "Connection \<Rightarrow> string list \<Rightarrow> string" where
  "checkSuspicious c cidrs = (if State c = ''LISTEN'' then '''' else
     let ip = extractIP (RemoteAddr c) in
     if ip = ''0.0.0.0'' \<or> ip = ''127.0.0.1'' \<or> ip = ''::1'' then ''''
     else if cidrs \<noteq> [] \<and> isRFC1918 ip then ''RFC1918 private address (should be blocked by firewall)''
     else if ip = ''169.254.169.254'' then ''Cloud metadata endpoint access''
     else if cidrs \<noteq> [] \<and> \<not> inAllowlist ip cidrs then ''IP not in network allowlist''
     else let port = extractPort (RemoteAddr c) in
       if isSuspiciousPort port then ''Suspicious port: '' @ itoa_int port @ '' (common C2/backdoor port)'' else '''')"

definition markConnection :: "string list \<Rightarrow> Connection \<Rightarrow> Connection" where
  "markConnection cidrs c = (let reason = checkSuspicious c cidrs in
     if reason = '''' then c else c\<lparr>Suspicious := True, SuspectReason := reason\<rparr>)"

definition CollectNetworkStats :: "'w procfs \<Rightarrow> 'w incus \<Rightarrow> string \<Rightarrow> string \<Rightarrow> string list \<Rightarrow> ('w, NetworkStats) act" where
  "CollectNetworkStats P I c cip cidrs = bindA (parseConnections P I c cip) (\<lambda>cs.
     retA \<lparr>ActiveConnections = length cs, Connections = map (markConnection cidrs) cs,
       SuspiciousCount = length (filter (\<lambda>k. checkSuspicious k cidrs \<noteq> '''') cs)\<rparr>)"

section \<open>The kernel's rendering of an IPv4 endpoint\<close>

text \<open>\<open>%08X:%04X\<close> of the address in network byte order, read on a little-endian host.\<close>

definition le32 :: "ip4 \<Rightarrow> nat" where
  "le32 a = (case ip4_bytes a of [b0, b1, b2, b3] \<Rightarrow> b0 + 2 ^ 8 * b1 + 2 ^ 16 * b2 + 2 ^ 24 * b3)"

definition kernelAddr :: "ip4 \<Rightarrow> 16 word \<Rightarrow> string" where
  "kernelAddr a p = hexU 8 (le32 a) @ '':'' @ hexU 4 (unat p)"

lemma high_part: "(r::nat) < m \<Longrightarrow> n = r + q * m \<Longrightarrow> n div m = q"
  by simp

lemma le32_digits:
  fixes b0 b1 b2 b3 :: nat
  assumes "b0 < 256" "b1 < 256" "b2 < 256" "b3 < 256"
  defines "n \<equiv> b0 + 2 ^ 8 * b1 + 2 ^ 16 * b2 + 2 ^ 24 * b3"
  shows "n < 2 ^ 32" "n mod 256 = b0" "n div 2 ^ 8 mod 256 = b1" "n div 2 ^ 16 mod 256 = b2" "n div 2 ^ 24 mod 256 = b3"
proof -
  have d: "n div 2 ^ 8 = b1 + 2 ^ 8 * b2 + 2 ^ 16 * b3"
    by (rule high_part[of b0]) (use assms(1-4) in \<open>simp_all add: n_def\<close>)
  have d': "n div 2 ^ 16 = b2 + 2 ^ 8 * b3"
    by (rule high_part[of "b0 + 2 ^ 8 * b1"]) (use assms(1-4) in \<open>simp_all add: n_def\<close>)
  have d'': "n div 2 ^ 24 = b3"
    by (rule high_part[of "b0 + 2 ^ 8 * b1 + 2 ^ 16 * b2"]) (use assms(1-4) in \<open>simp_all add: n_def\<close>)
  show "n < 2 ^ 32" unfolding n_def using assms(1-4) by simp
  have "n = b0 + (b1 + 2 ^ 8 * b2 + 2 ^ 16 * b3) * 256" by (simp add: n_def)
  then show "n mod 256 = b0" using assms(1) by (metis mod_mult_self1 mod_less)
  have "n div 2 ^ 8 = b1 + (b2 + 2 ^ 8 * b3) * 256" unfolding d by simp
  with assms(2) show "n div 2 ^ 8 mod 256 = b1" by (metis mod_mult_self1 mod_less)
  have "n div 2 ^ 16 = b2 + b3 * 256" unfolding d' by simp
  then show "n div 2 ^ 16 mod 256 = b2" using assms(3) by (metis mod_mult_self1 mod_less)
  show "n div 2 ^ 24 mod 256 = b3" using assms(4) unfolding d'' by simp
qed

lemma hexU_colon: "CHR '':'' \<notin> set (hexU k n)"
  using list_all_hexU[of k n] by (auto simp: list_all_iff GoNet.is_hex_def char_defs)

lemma parseHexIP_v4: "parseHexIP (hexU 8 (le32 a)) = Inr (ip4_string a)"
proof -
  obtain b0 b1 b2 b3 where b: "ip4_bytes a = [b0, b1, b2, b3]" by (simp add: ip4_bytes_def Let_def)
  have "b0 < 256" "b1 < 256" "b2 < 256" "b3 < 256"
    using ip4_bytes_bound[of _ a] by (fastforce simp: b)+
  note D = le32_digits[OF this]
  define n where "n = b0 + 2 ^ 8 * b1 + 2 ^ 16 * b2 + 2 ^ 24 * b3"
  have l: "le32 a = n" by (simp add: le32_def b n_def)
  have "n mod 16 ^ 8 = n" using D(1) by (simp add: n_def)
  then have u: "parseUintHex 32 (hexU 8 n) = Some n"
    using D(1) by (simp add: parseUintHex_def hex_text_hexU n_def del: hexU.simps)
  have "parseHexIP (hexU 8 n) = Inr (str_join ''.'' (map itoa [n mod 256, n div 2 ^ 8 mod 256, n div 2 ^ 16 mod 256, n div 2 ^ 24 mod 256]))"
    unfolding parseHexIP_def length_hexU u by simp
  also have "[n mod 256, n div 2 ^ 8 mod 256, n div 2 ^ 16 mod 256, n div 2 ^ 24 mod 256] = ip4_bytes a"
    using D(2-5) unfolding n_def b by simp
  finally show ?thesis by (simp only: l ip4_string_def)
qed

lemma parseHexAddr_kernel: "parseHexAddr (kernelAddr a p) = Inr (ip4_string a @ '':'' @ itoa (unat p))"
proof -
  have s: "str_split (kernelAddr a p) '':'' = [hexU 8 (le32 a), hexU 4 (unat p)]"
    unfolding kernelAddr_def using str_split_char_app[OF hexU_colon[of 8 "le32 a"], of "hexU 4 (unat p)"]
      str_split_char_notin[OF hexU_colon[of 4 "unat p"]] by (simp del: hexU.simps)
  have "unat p < 2 ^ 16" using unsigned_less[of p, where 'a = nat] by simp
  then have m: "unat p mod 16 ^ 4 = unat p" by simp
  have "parseIntHex 64 (hexU 4 (unat p)) = Some (int (unat p))"
    using parseIntHex_hexU[of 4 "unat p" 64] \<open>unat p < 2 ^ 16\<close> unfolding m by simp
  then show ?thesis by (simp only: parseHexAddr_def s list.case parseHexIP_v4 bindE_Inr option.case) (simp add: itoa_int_def)
qed

section \<open>Endpoints\<close>

lemma endpoint:
  "extractIP (a @ '':'' @ itoa p) = a"
  "int p < 2 ^ 63 \<Longrightarrow> extractPort (a @ '':'' @ itoa p) = int p"
proof -
  have "CHR '':'' \<notin> set (itoa p)" by (rule itoa_notin) (simp add: char_defs)
  then have "last_index (a @ '':'' @ itoa p) (CHR '':'') = Some (length a)"
    by (simp add: last_index_app)
  then show "extractIP (a @ '':'' @ itoa p) = a"
    "int p < 2 ^ 63 \<Longrightarrow> extractPort (a @ '':'' @ itoa p) = int p"
    by (simp_all add: extractIP_def extractPort_def)
qed

lemma inAllowlist_v4: "inAllowlist (ip4_string a) cidrs \<longleftrightarrow> (\<exists>c \<in> set cidrs. cidr_has (v4_in_v6 a) c)"
  by (simp add: inAllowlist_def net_ParseIP_v4[OF parse_v4_string] list_ex_iff)

lemma cidr_has_net4: "n \<le> 32 \<Longrightarrow> cidr_has (v4_in_v6 a) (net4_string b n) \<longleftrightarrow> in_net4 n b a"
  by (simp add: cidr_has_def net_ParseCIDR_string net_contains_def mask4_eq_iff)

lemma private_texts:
  "''10.0.0.0/8'' = net4_string 0x0A000000 8" "''172.16.0.0/12'' = net4_string 0xAC100000 12"
  "''192.168.0.0/16'' = net4_string 0xC0A80000 16"
  by (simp_all add: net4_string_def ip4_string_def ip4_bytes_def itoa.simps)

lemma isRFC1918_v4: "isRFC1918 (ip4_string a) \<longleftrightarrow> rfc1918 a"
proof -
  have "unat (0x0A000000 :: ip4) div 2 ^ 24 = 10" "unat (0xAC100000 :: ip4) div 2 ^ 20 = 2753"
    "unat (0xC0A80000 :: ip4) div 2 ^ 16 = 49320" by simp_all
  then show ?thesis
    by (simp only: isRFC1918_def inAllowlist_v4 list.set private_texts insert_iff empty_iff bex_simps cidr_has_net4
        in_net4_def rfc1918_def) simp
qed

lemma dotted_text: "ip4_string a = ip4_string b \<longleftrightarrow> a = b"
  using parse_v4_string[of a] parse_v4_string[of b] by (metis option.inject)

lemma special_texts:
  "''0.0.0.0'' = ip4_string 0" "''127.0.0.1'' = ip4_string 0x7F000001" "''169.254.169.254'' = ip4_string 0xA9FEA9FE"
  by (simp_all add: ip4_string_def ip4_bytes_def itoa.simps)

lemma dotted_not_v6: "ip4_string a \<noteq> ''::1''"
  using ip4_string_chars[of "CHR '':''" a] by (auto simp: char_defs)

section \<open>Reading a table\<close>

text \<open>A socket of the kernel's table: what the columns of a line stand for.\<close>

record sock =
  sLocal :: "ip4 \<times> 16 word"
  sRemote :: "ip4 \<times> 16 word"
  sState :: nat
  sUid :: nat

definition endpoint_text :: "ip4 \<times> 16 word \<Rightarrow> string" where
  "endpoint_text e = ip4_string (fst e) @ '':'' @ itoa (unat (snd e))"

text \<open>
  A line in the kernel's format: \<open>sl local rem st tx:rx tr:when retrnsmt uid timeout inode\<close>, with
  the columns the code does not read left open.
\<close>

definition tcp_columns :: "string \<Rightarrow> sock \<Rightarrow> string list \<Rightarrow> string list" where
  "tcp_columns sl k rest = [sl, kernelAddr (fst (sLocal k)) (snd (sLocal k)), kernelAddr (fst (sRemote k)) (snd (sRemote k)),
     hexU 2 (sState k)] @ take 3 rest @ [itoa (sUid k)] @ drop 3 rest"

definition sock_connection :: "string \<Rightarrow> sock \<Rightarrow> Connection" where
  "sock_connection proto k = \<lparr>Protocol = proto, LocalAddr = endpoint_text (sLocal k), RemoteAddr = endpoint_text (sRemote k),
     State = (if sState k < length tcpStates then tcpStates ! sState k else ''UNKNOWN''), UID = int (sUid k),
     Suspicious = False, SuspectReason = ''''\<rparr>"

lemma tcpState_hexU: "n < 256 \<Longrightarrow> tcpStateFromHex (hexU 2 n) = (if n < length tcpStates then tcpStates ! n else ''UNKNOWN'')"
  using parseIntHex_hexU[of 2 n 32] by (simp add: tcpStateFromHex_def del: hexU.simps)

lemma parseTCPLine_columns:
  assumes "str_fields line = tcp_columns sl k rest" and "5 \<le> length rest" and "sState k < 256" and "int (sUid k) < 2 ^ 63"
  shows "parseTCPLine proto line = Some (sock_connection proto k)"
proof -
  have n: "tcp_columns sl k rest ! 1 = kernelAddr (fst (sLocal k)) (snd (sLocal k))"
    "tcp_columns sl k rest ! 2 = kernelAddr (fst (sRemote k)) (snd (sRemote k))"
    "tcp_columns sl k rest ! 3 = hexU 2 (sState k)" "tcp_columns sl k rest ! 7 = itoa (sUid k)"
    and l: "\<not> length (tcp_columns sl k rest) < 10"
    using assms(2) by (simp_all add: tcp_columns_def nth_append nth_Cons' del: hexU.simps)
  show ?thesis unfolding parseTCPLine_def Let_def assms(1) n parseHexAddr_kernel tcpState_hexU[OF assms(3)]
    using l assms(4) by (simp add: sock_connection_def endpoint_text_def)
qed

section \<open>The verdict on an IPv4 connection\<close>

definition permitted :: "string list \<Rightarrow> ip4 \<Rightarrow> bool" where
  "permitted cidrs a \<longleftrightarrow> (\<exists>c \<in> set cidrs. cidr_has (v4_in_v6 a) c)"



text \<open>
  An unconnected IPv6 socket (a bound UDP socket, for one) has the remote address \<open>::\<close>, which is not
  among the local addresses the check skips, as \<open>0.0.0.0\<close> is: in allowlist mode it is flagged,
  whatever the allowlist.
\<close>

lemma replicate32: "replicate 32 c = [c,c,c,c,c,c,c,c,c,c,c,c,c,c,c,c,c,c,c,c,c,c,c,c,c,c,c,c,c,c,c,c]"
  by (simp add: numeral_eq_Suc)

lemma unspecified_text: "parseHexIP (replicate 32 (CHR ''0'')) = Inr ''::''"
proof -
  have g: "net_ParseIP ''0000:0000:0000:0000:0000:0000:0000:0000'' = Some 0"
    by (simp add: net_ParseIP_def parse_addr_def parse_v6_def str_cut_def has_prefix_def parse_groups.simps
        GoNet.is_hex_def char_defs hexs_val_def hex_val_def word_of_groups_def as16_def)
  have t: "ip_String 0 = ''::''"
  proof -
    have "ip6_groups 0 = replicate 8 0" by (simp add: ip6_groups_def map_replicate_const)
    moreover have "longest_zeros (replicate 8 0) = Some (0, 8)" by code_simp
    ultimately show ?thesis by (simp add: ip_String_def to4_def ip6_string_def)
  qed
  show ?thesis using g t by (simp add: parseHexIP_def rev_pairs_def replicate32)
qed

lemma unspecified_v6_flagged:
  assumes "State c = ''CLOSE''" and "RemoteAddr c = '':::0''"
  shows "checkSuspicious c [''0.0.0.0/0''] = ''IP not in network allowlist''"
proof -
  have p: "net_ParseIP ''::'' = Some 0"
    by (simp add: net_ParseIP_def parse_addr_def parse_v6_def str_cut_def has_prefix_def as16_def)
  have n: "''0.0.0.0/0'' = net4_string 0 0" "''10.0.0.0/8'' = net4_string 0x0A000000 8"
    "''172.16.0.0/12'' = net4_string 0xAC100000 12" "''192.168.0.0/16'' = net4_string 0xC0A80000 16"
    by (simp_all add: net4_string_def ip4_string_def ip4_bytes_def itoa.simps)
  have h: "\<not> cidr_has 0 (net4_string a k)" if "k \<le> 32" for a k
    using that by (simp add: cidr_has_def net_ParseCIDR_string net_contains_def to4_def)
  have "\<not> isRFC1918 ''::''" "\<not> inAllowlist ''::'' [''0.0.0.0/0'']"
    by (simp_all only: isRFC1918_def inAllowlist_def p n option.case) (simp_all add: h)
  then show ?thesis using assms by (simp add: checkSuspicious_def extractIP_def)
qed

lemma unspecified_v4_passes:
  "State c = ''CLOSE'' \<Longrightarrow> RemoteAddr c = ''0.0.0.0:0'' \<Longrightarrow> checkSuspicious c cidrs = []"
  by (simp add: checkSuspicious_def extractIP_def)

text \<open>A private address is flagged although the allowlist names it.\<close>

lemma allowlisted_private_flagged:
  assumes "State c \<noteq> ''LISTEN''" and "RemoteAddr c = ip4_string a @ '':'' @ itoa p" and "rfc1918 a" and "cidrs \<noteq> []"
  shows "checkSuspicious c cidrs \<noteq> []"
proof -
  from assms(3) have "a \<noteq> 0" "a \<noteq> 0x7F000001" by (auto simp: rfc1918_def)
  with assms show ?thesis
    unfolding checkSuspicious_def Let_def assms(2) endpoint(1) isRFC1918_v4 special_texts dotted_text
    using dotted_not_v6[of a] by simp
qed

end
