(* ===== verification/MonCondition.thy ===== *)
theory MonCondition
  imports MonSigma
begin

text \<open>
  What the conditions of Sigma rules mean. A condition is written as words; the string searches of
  \<open>parseSigmaCondition\<close> are shown to find the connecting words and nothing else, and the compiled rule to
  match exactly the processes the condition describes, for the shapes the compiler gets right. The two
  shapes it accepts and gets wrong are shown on examples.
\<close>

section \<open>Searching for words\<close>

definition plain_word :: "string \<Rightarrow> bool" where
  "plain_word w \<longleftrightarrow> w \<noteq> [] \<and> (\<forall>c \<in> set w. \<not> is_space c)"

lemma plain_no_blank: "plain_word w \<Longrightarrow> CHR '' '' \<notin> set w"
  by (auto simp: plain_word_def is_space_def)

definition spaced :: "string list \<Rightarrow> string" where
  "spaced ks = CHR '' '' # str_join '' '' ks @ '' ''"

fun word_index :: "string list \<Rightarrow> string list \<Rightarrow> nat option" where
  "word_index ks [] = None"
| "word_index ks (w # ws) = (if take (length ks) ws = ks \<and> length ks < length ws then Some (length w)
     else map_option (\<lambda>i. length w + 1 + i) (word_index ks ws))"

lemma index_skip: "c \<notin> set w \<Longrightarrow> str_index (w @ s) (c # p) = map_option (\<lambda>i. length w + i) (str_index s (c # p))"
proof (induction w)
  case (Cons a w)
  then show ?case by (auto simp: has_prefix_iff option.map_comp comp_def)
qed (cases "str_index s (c # p)", simp_all)

lemma index_none: "c \<notin> set w \<Longrightarrow> str_index w (c # p) = None"
  using index_skip[of c w "[]" p] by simp

lemma blank_eq: "c \<notin> set w \<Longrightarrow> c \<notin> set k \<Longrightarrow> w @ c # x = k @ c # y \<longleftrightarrow> w = k \<and> x = y"
proof (induction w arbitrary: k)
  case (Cons a w)
  then show ?case by (cases k) auto
qed (auto simp: Cons_eq_append_conv)

lemma prefix_words:
  "list_all plain_word ks \<Longrightarrow> list_all plain_word ws \<Longrightarrow> ks \<noteq> [] \<Longrightarrow>
     has_prefix (str_join '' '' ws) (str_join '' '' ks @ '' '') \<longleftrightarrow> take (length ks) ws = ks \<and> length ks < length ws"
proof (induction ks arbitrary: ws)
  case (Cons k ks)
  have k: "CHR '' '' \<notin> set k" using Cons.prems plain_no_blank by simp
  consider (none) "ws = []" | (one) w where "ws = [w]" | (more) w v vs where "ws = w # v # vs"
    by (metis list.exhaust)
  then show ?case
  proof cases
    case none
    then show ?thesis by (cases ks) (auto simp: has_prefix_iff)
  next
    case (one w)
    have "CHR '' '' \<notin> set w" using Cons.prems one plain_no_blank by simp
    moreover have "CHR '' '' \<in> set (str_join '' '' (k # ks) @ '' '')" by simp
    ultimately have "\<not> has_prefix w (str_join '' '' (k # ks) @ '' '')"
      unfolding has_prefix_iff by (metis UnCI set_append)
    with one show ?thesis by simp
  next
    case (more w v vs)
    have w: "CHR '' '' \<notin> set w" using Cons.prems more plain_no_blank by simp
    have split: "has_prefix (str_join '' '' ws) (k @ CHR '' '' # x) \<longleftrightarrow> w = k \<and> has_prefix (str_join '' '' (v # vs)) x" for x
      using blank_eq[OF w k] by (auto simp: has_prefix_iff more)
    show ?thesis
    proof (cases ks)
      case Nil
      with split[of "[]"] show ?thesis by (auto simp: has_prefix_iff more)
    next
      case (Cons k' ks')
      have "has_prefix (str_join '' '' (v # vs)) (str_join '' '' ks @ '' '') \<longleftrightarrow>
          take (length ks) (v # vs) = ks \<and> length ks < length (v # vs)"
        by (rule Cons.IH) (use Cons.prems more Cons in auto)
      with split[of "str_join '' '' ks @ '' ''"] show ?thesis by (auto simp: Cons more)
    qed
  qed
qed simp

lemma index_words:
  assumes "list_all plain_word ks" and "ks \<noteq> []"
  shows "list_all plain_word ws \<Longrightarrow> str_index (str_join '' '' ws) (spaced ks) = word_index ks ws"
proof (induction ws)
  case (Cons w ws)
  have w: "CHR '' '' \<notin> set w" using Cons.prems plain_no_blank by simp
  show ?case
  proof (cases ws)
    case Nil
    with index_none[OF w] assms(2) show ?thesis by (simp add: spaced_def)
  next
    case (Cons v vs)
    have p: "has_prefix (CHR '' '' # str_join '' '' ws) (spaced ks) \<longleftrightarrow> take (length ks) ws = ks \<and> length ks < length ws"
      using prefix_words[OF assms(1) _ assms(2), of ws] Cons.prems by (simp add: spaced_def has_prefix_def)
    have i: "str_index (CHR '' '' # str_join '' '' ws) (spaced ks) =
        (if take (length ks) ws = ks \<and> length ks < length ws then Some 0 else map_option Suc (word_index ks ws))"
      using Cons.IH Cons.prems p by simp
    have "str_join '' '' (w # ws) = w @ CHR '' '' # str_join '' '' ws" by (simp add: str_join_Cons Cons)
    then have "str_index (str_join '' '' (w # ws)) (spaced ks) =
        map_option (\<lambda>i. length w + i) (str_index (CHR '' '' # str_join '' '' ws) (spaced ks))"
      using index_skip[OF w] by (simp add: spaced_def)
    then show ?thesis unfolding i by (cases "word_index ks ws") auto
  qed
qed (simp add: spaced_def)

lemma word_index_absent: "k \<in> set ks \<Longrightarrow> k \<notin> set ws \<Longrightarrow> word_index ks ws = None"
proof (induction ws)
  case (Cons w ws)
  then have "take (length ks) ws \<noteq> ks" by (metis in_set_takeD list.set_intros(2))
  with Cons show ?case by auto
qed simp

lemma word_index_first:
  "k \<notin> set A \<Longrightarrow> A \<noteq> [] \<Longrightarrow> B \<noteq> [] \<Longrightarrow> word_index (k # ks) (A @ (k # ks) @ B) = Some (length (str_join '' '' A))"
proof (induction A)
  case (Cons a A)
  show ?case
  proof (cases A)
    case (Cons a' A')
    with Cons.prems have "a' \<noteq> k" by auto
    with Cons Cons.IH Cons.prems show ?thesis by (simp add: str_join_Cons)
  qed (use Cons.prems in simp)
qed simp

lemma join_append: "A \<noteq> [] \<Longrightarrow> B \<noteq> [] \<Longrightarrow> str_join s (A @ B) = str_join s A @ s @ str_join s B"
proof (induction A)
  case (Cons a A)
  then show ?case by (cases A) (simp_all add: str_join_Cons)
qed simp

lemma join_ends:
  "ws \<noteq> [] \<Longrightarrow> list_all plain_word ws \<Longrightarrow> str_join '' '' ws \<noteq> [] \<and>
     \<not> is_space (hd (str_join '' '' ws)) \<and> \<not> is_space (last (str_join '' '' ws))"
proof (induction ws)
  case (Cons w ws)
  then have w: "w \<noteq> []" "\<not> is_space (hd w)" "\<not> is_space (last w)" by (auto simp: plain_word_def)
  show ?case
  proof (cases ws)
    case (Cons v vs)
    with Cons.IH Cons.prems w show ?thesis by (simp add: str_join_Cons)
  qed (use w in simp)
qed simp

lemma trim_join [simp]:
  assumes "ws \<noteq> []" and "list_all plain_word ws"
  shows "trim_space (str_join '' '' ws) = str_join '' '' ws"
proof -
  let ?s = "str_join '' '' ws"
  have "?s \<noteq> []" "\<not> is_space (hd ?s)" "\<not> is_space (last ?s)" using join_ends[OF assms] by auto
  then have "dropWhile is_space ?s = ?s" "dropWhile is_space (rev ?s) = rev ?s"
    by (simp_all add: dropWhile_eq_self_iff hd_rev)
  then show ?thesis by (simp add: trim_space_def)
qed

text \<open>Splitting words at a connecting word.\<close>

fun connect :: "string \<Rightarrow> string list list \<Rightarrow> string list" where
  "connect k [] = []"
| "connect k [ws] = ws"
| "connect k (ws # vs # wss) = ws @ k # connect k (vs # wss)"

lemma set_connect: "x \<in> set (connect k wss) \<Longrightarrow> x = k \<or> (\<exists>ws \<in> set wss. x \<in> set ws)"
  by (induction k wss rule: connect.induct) auto

lemma connect_ne: "wss \<noteq> [] \<Longrightarrow> \<forall>ws \<in> set wss. ws \<noteq> [] \<Longrightarrow> connect k wss \<noteq> []"
  by (induction k wss rule: connect.induct) auto

lemma connect_plain: "plain_word k \<Longrightarrow> \<forall>ws \<in> set wss. list_all plain_word ws \<Longrightarrow> list_all plain_word (connect k wss)"
  by (induction k wss rule: connect.induct) auto

lemma split_connect:
  "plain_word k \<Longrightarrow> wss \<noteq> [] \<Longrightarrow> \<forall>ws \<in> set wss. ws \<noteq> [] \<and> k \<notin> set ws \<and> list_all plain_word ws \<Longrightarrow>
     str_split (str_join '' '' (connect k wss)) (spaced [k]) = map (str_join '' '') wss"
proof (induction k wss rule: connect.induct)
  case (2 k ws)
  then show ?case using index_words[of "[k]" ws] word_index_absent[of k "[k]" ws]
    by (simp add: str_split_None spaced_def)
next
  case (3 k ws vs wss)
  let ?r = "connect k (vs # wss)"
  have r: "?r \<noteq> []" "list_all plain_word ?r" 
    by (rule connect_ne, use 3 in \<open>simp_all\<close>)  (rule connect_plain, use 3 in \<open>simp_all\<close>)
  have all: "list_all plain_word (ws @ k # ?r)" using 3 r by simp
  have "str_index (str_join '' '' (ws @ k # ?r)) (spaced [k]) = Some (length (str_join '' '' ws))"
    using index_words[of "[k]" "ws @ k # ?r"] word_index_first[of k ws ?r "[]"] all 3 r by simp
  moreover have "str_join '' '' (ws @ k # ?r) = str_join '' '' ws @ spaced [k] @ str_join '' '' ?r"
    using 3 r by (simp add: join_append str_join_Cons spaced_def)
  ultimately show ?case using 3 by (simp add: str_split_Some spaced_def)
qed simp

section \<open>Conditions\<close>

datatype atom = Named string | OneOf string | AllOf string

datatype scond = Single atom | Conj "atom list" | Disj "atom list" | AndNot atom atom

fun atom_words :: "atom \<Rightarrow> string list" where
  "atom_words (Named n) = [n]"
| "atom_words (OneOf g) = [''1'', ''of'', g]"
| "atom_words (AllOf g) = [''all'', ''of'', g]"

fun cond_words :: "scond \<Rightarrow> string list" where
  "cond_words (Single a) = atom_words a"
| "cond_words (Conj as) = connect ''and'' (map atom_words as)"
| "cond_words (Disj as) = connect ''or'' (map atom_words as)"
| "cond_words (AndNot a b) = atom_words a @ [''and'', ''not''] @ atom_words b"

definition cond_text :: "scond \<Rightarrow> string" where
  "cond_text c = str_join '' '' (cond_words c)"

text \<open>The meaning of a condition: \<open>them\<close> are all the selections.\<close>

definition picks :: "(string \<Rightarrow> string \<Rightarrow> bool) \<Rightarrow> string \<Rightarrow> string \<Rightarrow> bool" where
  "picks G g n \<longleftrightarrow> g = ''them'' \<or> G g n"

fun atom_sem :: "(string \<Rightarrow> string \<Rightarrow> bool) \<Rightarrow> named_selections \<Rightarrow> (string \<Rightarrow> string) \<Rightarrow> atom \<Rightarrow> bool" where
  "atom_sem G sels fs (Named n) = (case map_of sels n of None \<Rightarrow> False | Some s \<Rightarrow> evalSigmaSelection fs s)"
| "atom_sem G sels fs (OneOf g) = (\<exists>(n, s) \<in> set sels. picks G g n \<and> evalSigmaSelection fs s)"
| "atom_sem G sels fs (AllOf g) = (\<forall>(n, s) \<in> set sels. picks G g n \<longrightarrow> evalSigmaSelection fs s)"

fun cond_sem :: "(string \<Rightarrow> string \<Rightarrow> bool) \<Rightarrow> named_selections \<Rightarrow> (string \<Rightarrow> string) \<Rightarrow> scond \<Rightarrow> bool" where
  "cond_sem G sels fs (Single a) = atom_sem G sels fs a"
| "cond_sem G sels fs (Conj as) = (\<forall>a \<in> set as. atom_sem G sels fs a)"
| "cond_sem G sels fs (Disj as) = (\<exists>a \<in> set as. atom_sem G sels fs a)"
| "cond_sem G sels fs (AndNot a b) = (atom_sem G sels fs a \<and> \<not> atom_sem G sels fs b)"

text \<open>An atom refers to something: the name is defined, or the pattern picks a selection.\<close>

fun resolves :: "(string \<Rightarrow> string \<Rightarrow> bool) \<Rightarrow> named_selections \<Rightarrow> atom \<Rightarrow> bool" where
  "resolves G sels (Named n) = (map_of sels n \<noteq> None)"
| "resolves G sels (OneOf g) = (\<exists>(n, s) \<in> set sels. picks G g n)"
| "resolves G sels (AllOf g) = (\<exists>(n, s) \<in> set sels. picks G g n)"

fun atoms :: "scond \<Rightarrow> atom list" where
  "atoms (Single a) = [a]"
| "atoms (Conj as) = as"
| "atoms (Disj as) = as"
| "atoms (AndNot a b) = [a, b]"

fun atom_name :: "atom \<Rightarrow> string" where
  "atom_name (Named n) = n" | "atom_name (OneOf g) = g" | "atom_name (AllOf g) = g"

text \<open>The shapes the compiler supports: no \<open>all of\<close> under \<open>or\<close> or \<open>not\<close>.\<close>

fun supported :: "scond \<Rightarrow> bool" where
  "supported (Single a) = True"
| "supported (Conj as) = (2 \<le> length as)"
| "supported (Disj as) = (2 \<le> length as \<and> (\<forall>a \<in> set as. \<forall>g. a \<noteq> AllOf g))"
| "supported (AndNot a b) = (\<forall>g. b \<noteq> AllOf g)"

definition proper_name :: "string \<Rightarrow> bool" where
  "proper_name n \<longleftrightarrow> plain_word n \<and> n \<notin> {''and'', ''or'', ''not''}"

definition atom_sels :: "(string \<Rightarrow> string \<Rightarrow> bool) \<Rightarrow> named_selections \<Rightarrow> atom \<Rightarrow> sigmaSelection list" where
  "atom_sels G sels a = (case a of Named n \<Rightarrow> (case map_of sels n of None \<Rightarrow> [] | Some s \<Rightarrow> [s])
     | OneOf g \<Rightarrow> matchSigmaGlob G g sels | AllOf g \<Rightarrow> matchSigmaGlob G g sels)"

definition atom_op :: "atom \<Rightarrow> string" where
  "atom_op a = (case a of OneOf g \<Rightarrow> ''or'' | _ \<Rightarrow> ''and'')"

lemma set_glob: "set (matchSigmaGlob G g sels) = {s. \<exists>n. (n, s) \<in> set sels \<and> picks G g n}"
  by (force simp: matchSigmaGlob_def picks_def)

lemma resolves_sels: "resolves G sels a \<longleftrightarrow> atom_sels G sels a \<noteq> []"
proof (cases a)
  case (Named n)
  then show ?thesis by (simp add: atom_sels_def split: option.split)
next
  case (OneOf g)
  then show ?thesis using set_glob[of G g sels] by (auto simp: atom_sels_def simp flip: set_empty2)
next
  case (AllOf g)
  then show ?thesis using set_glob[of G g sels] by (auto simp: atom_sels_def simp flip: set_empty2)
qed

lemma expr_atom:
  assumes "proper_name (atom_name a)"
  shows "parseSigmaSelectionExpr G (str_join '' '' (atom_words a)) sels =
    (if resolves G sels a then Inr (atom_sels G sels a, atom_op a)
     else Inl (Errorf (case a of Named _ \<Rightarrow> ''sigma: unknown selection %q'' | _ \<Rightarrow> ''sigma: no selections matched %q'')
       [str_join '' '' (atom_words a)]))"
proof -
  have w: "list_all plain_word (atom_words a)" "atom_words a \<noteq> []"
    using assms by (cases a; simp add: proper_name_def; simp add: plain_word_def is_space_def)+
  have t: "trim_space (str_join '' '' (atom_words a)) = str_join '' '' (atom_words a)" using w by simp
  show ?thesis
  proof (cases a)
    case (Named n)
    have b: "CHR '' '' \<notin> set n" using assms plain_no_blank by (simp add: Named proper_name_def)
    then have "\<not> has_prefix n ''1 of ''" "\<not> has_prefix n ''all of ''" by (auto simp: has_prefix_iff)
    with t show ?thesis
      by (simp add: parseSigmaSelectionExpr_def Named resolves_sels atom_sels_def atom_op_def split: option.split)
  next
    case (OneOf g)
    with t show ?thesis unfolding resolves_sels
      by (simp add: parseSigmaSelectionExpr_def atom_sels_def atom_op_def has_prefix_def trim_prefix_def Let_def)
  next
    case (AllOf g)
    with t show ?thesis unfolding resolves_sels
      by (simp add: parseSigmaSelectionExpr_def atom_sels_def atom_op_def has_prefix_def trim_prefix_def Let_def)
  qed
qed

text \<open>How the two operators read the selections of an atom.\<close>

lemma sem_and: "resolves G sels a \<Longrightarrow> atom_op a = ''and'' \<Longrightarrow>
    list_all (evalSigmaSelection fs) (atom_sels G sels a) = atom_sem G sels fs a"
  by (cases a) (auto simp: atom_op_def atom_sels_def list_all_iff set_glob)

lemma sem_or: "(\<forall>g. a \<noteq> AllOf g) \<Longrightarrow> list_ex (evalSigmaSelection fs) (atom_sels G sels a) = atom_sem G sels fs a"
  by (cases a) (force simp: atom_sels_def list_ex_iff set_glob split: option.split)+

lemma atom_op_cases: "atom_op a = ''or'' \<and> (\<forall>g. a \<noteq> AllOf g) \<or> atom_op a = ''and''"
  by (cases a) (auto simp: atom_op_def)

lemma eval_concat: "evalSigmaSelection fs (concat ss) \<longleftrightarrow> list_ex (evalSigmaSelection fs) ss"
  by (auto simp: evalSigmaSelection_def list_ex_iff)

lemma sem_conjunct:
  assumes "resolves G sels a"
  shows "list_all (evalSigmaSelection fs) (conjunct (atom_sels G sels a, atom_op a)) = atom_sem G sels fs a"
    and "conjunct (atom_sels G sels a, atom_op a) \<noteq> []"
  using atom_op_cases[of a] sem_and[OF assms] sem_or[of a fs G sels] assms
  by (auto simp: conjunct_def eval_concat resolves_sels)

section \<open>The compiled rule\<close>

lemma atom_words_proper:
  assumes "proper_name (atom_name a)"
  shows "list_all plain_word (atom_words a)" "atom_words a \<noteq> []"
    "''and'' \<notin> set (atom_words a)" "''or'' \<notin> set (atom_words a)" "''not'' \<notin> set (atom_words a)"
proof -
  have n: "plain_word (atom_name a)" "atom_name a \<noteq> ''and''" "atom_name a \<noteq> ''or''" "atom_name a \<noteq> ''not''"
    using assms by (simp_all add: proper_name_def)
  have "plain_word ''1''" "plain_word ''of''" "plain_word ''all''" by (simp_all add: plain_word_def is_space_def)
  with n(1) show "list_all plain_word (atom_words a)" by (cases a) simp_all
  show "atom_words a \<noteq> []" by (cases a) simp_all
  show "''and'' \<notin> set (atom_words a)" using n(2) by (cases a) auto
  show "''or'' \<notin> set (atom_words a)" using n(3) by (cases a) auto
  show "''not'' \<notin> set (atom_words a)" using n(4) by (cases a) auto
qed

lemma connecting_words: "plain_word ''and''" "plain_word ''or''" "plain_word ''not''"
  by (simp_all add: plain_word_def is_space_def)

lemma spaced_texts:
  "'' and not '' = spaced [''and'', ''not'']" "'' and '' = spaced [''and'']" "'' or '' = spaced [''or'']"
  by (simp_all add: spaced_def)

lemma mapE_atoms:
  assumes "\<forall>a \<in> set as. proper_name (atom_name a)"
  shows "mapE (\<lambda>part. parseSigmaSelectionExpr G (trim_space part) sels) (map (str_join '' '') (map atom_words as)) =
      Inr (map (\<lambda>a. (atom_sels G sels a, atom_op a)) as) \<and> (\<forall>a \<in> set as. resolves G sels a)
    \<or> (\<exists>e. mapE (\<lambda>part. parseSigmaSelectionExpr G (trim_space part) sels) (map (str_join '' '') (map atom_words as)) = Inl e) \<and>
      (\<exists>a \<in> set as. \<not> resolves G sels a)"
  using assms
proof (induction as)
  case (Cons a as)
  then have a: "proper_name (atom_name a)" by simp
  show ?case using Cons atom_words_proper[OF a] by (auto simp: expr_atom[OF a])
qed simp

definition means :: "(string \<Rightarrow> string \<Rightarrow> bool) \<Rightarrow> named_selections \<Rightarrow> scond \<Rightarrow> sigmaPattern result \<Rightarrow> bool" where
  "means G sels c r = (case r of
     Inl _ \<Rightarrow> \<exists>a \<in> set (atoms c). \<not> resolves G sels a
   | Inr p \<Rightarrow> (\<forall>a \<in> set (atoms c). resolves G sels a) \<and>
       (\<forall>image cmdline parentImage parentCmdline. matchSigmaPattern image cmdline parentImage parentCmdline p =
          cond_sem G sels (sigmaFields image cmdline parentImage parentCmdline) c))"

lemma means_single:
  assumes p: "proper_name (atom_name a)" and n: "Required p0 = []" "Forbidden p0 = []"
  shows "means G sels (Single a) (parseSigmaCondition G (cond_text (Single a)) sels p0)"
proof -
  note w = atom_words_proper[OF p]
  have i: "str_index (str_join '' '' (atom_words a)) (spaced [''and'', ''not'']) = None"
    "str_index (str_join '' '' (atom_words a)) (spaced [''and'']) = None"
    "str_index (str_join '' '' (atom_words a)) (spaced [''or'']) = None"
    using w connecting_words by (simp_all add: index_words word_index_absent[of "''and''"] word_index_absent[of "''or''"])
  have "parseSigmaCondition G (cond_text (Single a)) sels p0 =
      bindE (parseSigmaSelectionExpr G (str_join '' '' (atom_words a)) sels) (\<lambda>(req, op). Inr (p0\<lparr>Required := req, ConditionOp := op\<rparr>))"
    by (simp add: parseSigmaCondition_def cond_text_def trim_join[OF w(2,1)] spaced_texts i str_contains_def)
  then show ?thesis
    using atom_op_cases[of a] sem_and[of G sels a] sem_or[of a _ G sels] n
    by (auto simp: means_def expr_atom[OF p] matchSigmaPattern_def resolves_sels Let_def)
qed

text \<open>A list of atoms joined by one connecting word.\<close>

lemma list_text:
  assumes p: "\<forall>a \<in> set as. proper_name (atom_name a)" and l: "2 \<le> length as" and k: "k \<in> {''and'', ''or''}"
  defines "ws \<equiv> connect k (map atom_words as)"
  shows "ws \<noteq> []" "list_all plain_word ws" "k' \<in> {''and'', ''or'', ''not''} \<Longrightarrow> k' \<noteq> k \<Longrightarrow> k' \<notin> set ws"
    "str_split (str_join '' '' ws) (spaced [k]) = map (str_join '' '') (map atom_words as)"
    "str_contains (str_join '' '' ws) (spaced [k])"
proof -
  have parts: "\<forall>ws \<in> set (map atom_words as). ws \<noteq> [] \<and> k \<notin> set ws \<and> list_all plain_word ws"
    using p k atom_words_proper by auto
  have ne: "map atom_words as \<noteq> []" using l by auto
  have kp: "plain_word k" using k connecting_words by auto
  show w: "ws \<noteq> []" unfolding ws_def by (rule connect_ne[OF ne]) (use parts in auto)
  show "list_all plain_word ws" unfolding ws_def by (rule connect_plain[OF kp]) (use parts in auto)
  show "k' \<notin> set ws" if "k' \<in> {''and'', ''or'', ''not''}" "k' \<noteq> k"
    using that p atom_words_proper(3-5) unfolding ws_def by (auto dest!: set_connect)
  show s: "str_split (str_join '' '' ws) (spaced [k]) = map (str_join '' '') (map atom_words as)"
    unfolding ws_def by (rule split_connect[OF kp ne parts])
  show "str_contains (str_join '' '' ws) (spaced [k])"
  proof (rule ccontr)
    assume "\<not> ?thesis"
    then have "str_split (str_join '' '' ws) (spaced [k]) = [str_join '' '' ws]"
      by (simp add: str_contains_def str_split_None spaced_def)
    with s have "length (map (str_join '' '') (map atom_words as)) = 1" by (metis length_Cons list.size(3) One_nat_def)
    with l show False by simp
  qed
qed

lemma means_conj:
  assumes p: "\<forall>a \<in> set as. proper_name (atom_name a)" and l: "2 \<le> length as" and n: "Required p0 = []" "Forbidden p0 = []"
  shows "means G sels (Conj as) (parseSigmaCondition G (cond_text (Conj as)) sels p0)"
proof -
  let ?ex = "\<lambda>part. parseSigmaSelectionExpr G (trim_space part) sels"
  define ws where "ws = connect ''and'' (map atom_words as)"
  note L = list_text[OF p l, of "''and''", folded ws_def, simplified]
  have i: "str_index (str_join '' '' ws) (spaced [''and'', ''not'']) = None"
    using L(1,2) L(3)[of "''not''"] connecting_words by (simp add: index_words word_index_absent[of "''not''"])
  have eq: "parseSigmaCondition G (cond_text (Conj as)) sels p0 =
      bindE (mapE ?ex (map (str_join '' '') (map atom_words as)))
        (\<lambda>rs. Inr (p0\<lparr>Required := Required p0 @ concat (map conjunct rs), ConditionOp := ''and''\<rparr>))"
    using L(4,5) by (simp add: parseSigmaCondition_def cond_text_def ws_def[symmetric] trim_join[OF L(1,2)] spaced_texts i)
  from mapE_atoms[OF p, of G sels] show ?thesis
  proof
    assume r: "mapE ?ex (map (str_join '' '') (map atom_words as)) = Inr (map (\<lambda>a. (atom_sels G sels a, atom_op a)) as) \<and>
      (\<forall>a \<in> set as. resolves G sels a)"
    obtain a where a: "a \<in> set as" using l by (cases as) auto
    then have "concat (map (\<lambda>a. conjunct (atom_sels G sels a, atom_op a)) as) \<noteq> []"
      using sem_conjunct(2)[of G sels a] r by auto
    moreover have "list_all (evalSigmaSelection fs) (concat (map (\<lambda>a. conjunct (atom_sels G sels a, atom_op a)) as)) \<longleftrightarrow>
        (\<forall>a \<in> set as. atom_sem G sels fs a)" for fs
      using r sem_conjunct(1)[of G sels _ fs] by (auto simp: list_all_iff)
    ultimately show ?thesis using r n
      by (simp add: eq means_def matchSigmaPattern_def comp_def Let_def del: concat_eq_Nil_conv)
  next
    assume "(\<exists>e. mapE ?ex (map (str_join '' '') (map atom_words as)) = Inl e) \<and> (\<exists>a \<in> set as. \<not> resolves G sels a)"
    then show ?thesis unfolding eq by (auto simp: means_def simp del: map_map)
  qed
qed

lemma means_disj:
  assumes p: "\<forall>a \<in> set as. proper_name (atom_name a) \<and> (\<forall>g. a \<noteq> AllOf g)" and l: "2 \<le> length as"
    and n: "Required p0 = []" "Forbidden p0 = []"
  shows "means G sels (Disj as) (parseSigmaCondition G (cond_text (Disj as)) sels p0)"
proof -
  let ?ex = "\<lambda>part. parseSigmaSelectionExpr G (trim_space part) sels"
  from p have p': "\<forall>a \<in> set as. proper_name (atom_name a)" by blast
  define ws where "ws = connect ''or'' (map atom_words as)"
  note L = list_text[OF p' l, of "''or''", folded ws_def, simplified]
  have i: "str_index (str_join '' '' ws) (spaced [''and'', ''not'']) = None" "str_index (str_join '' '' ws) (spaced [''and'']) = None"
    using L(1,2) L(3)[of "''and''"] connecting_words by (simp_all add: index_words word_index_absent[of "''and''"])
  have eq: "parseSigmaCondition G (cond_text (Disj as)) sels p0 =
      bindE (mapE ?ex (map (str_join '' '') (map atom_words as)))
        (\<lambda>rs. Inr (p0\<lparr>Required := Required p0 @ concat (map fst rs), ConditionOp := ''or''\<rparr>))"
    using L(4,5) by (simp add: parseSigmaCondition_def cond_text_def ws_def[symmetric] trim_join[OF L(1,2)] spaced_texts i
        str_contains_def[of _ "spaced [''and'']"])
  from mapE_atoms[OF p', of G sels] show ?thesis
  proof
    assume r: "mapE ?ex (map (str_join '' '') (map atom_words as)) = Inr (map (\<lambda>a. (atom_sels G sels a, atom_op a)) as) \<and>
      (\<forall>a \<in> set as. resolves G sels a)"
    obtain a where a: "a \<in> set as" using l by (cases as) auto
    then have "concat (map (atom_sels G sels) as) \<noteq> []" using r by (auto simp: resolves_sels)
    moreover have "list_ex (evalSigmaSelection fs) (concat (map (atom_sels G sels) as)) \<longleftrightarrow> (\<exists>a \<in> set as. atom_sem G sels fs a)" for fs
      using p sem_or[of _ fs G sels] by (auto simp: list_ex_iff)
    ultimately show ?thesis using r n
      by (simp add: eq means_def matchSigmaPattern_def comp_def Let_def del: concat_eq_Nil_conv)
  next
    assume "(\<exists>e. mapE ?ex (map (str_join '' '') (map atom_words as)) = Inl e) \<and> (\<exists>a \<in> set as. \<not> resolves G sels a)"
    then show ?thesis unfolding eq by (auto simp: means_def simp del: map_map)
  qed
qed

lemma means_not:
  assumes p: "proper_name (atom_name a)" "proper_name (atom_name b)" and s: "\<forall>g. b \<noteq> AllOf g"
    and n: "Required p0 = []" "Forbidden p0 = []"
  shows "means G sels (AndNot a b) (parseSigmaCondition G (cond_text (AndNot a b)) sels p0)"
proof -
  let ?a = "str_join '' '' (atom_words a)" and ?b = "str_join '' '' (atom_words b)"
  define ws where "ws = atom_words a @ [''and'', ''not''] @ atom_words b"
  note A = atom_words_proper[OF p(1)] and B = atom_words_proper[OF p(2)]
  have w: "ws \<noteq> []" "list_all plain_word ws" using A B connecting_words by (auto simp: ws_def)
  have i: "str_index (str_join '' '' ws) (spaced [''and'', ''not'']) = Some (length ?a)"
    using index_words[of "[''and'', ''not'']" ws] word_index_first[OF A(3) A(2) B(2), of "[''not'']"] w connecting_words
    by (simp add: ws_def)
  have j: "str_join '' '' ws = ?a @ spaced [''and'', ''not''] @ ?b"
    using A(2) B(2) by (simp add: ws_def join_append str_join_Cons spaced_def)
  have eq: "parseSigmaCondition G (cond_text (AndNot a b)) sels p0 =
      bindE (parseSigmaSelectionExpr G ?a sels) (\<lambda>(req, op). bindE (parseSigmaSelectionExpr G ?b sels) (\<lambda>(forb, _).
        Inr (p0\<lparr>Required := req, ConditionOp := op, Forbidden := forb\<rparr>)))"
    unfolding parseSigmaCondition_def cond_text_def cond_words.simps ws_def[symmetric] Let_def trim_join[OF w] spaced_texts i option.case
    by (simp add: j trim_join[OF A(2,1)] trim_join[OF B(2,1)])
  show ?thesis
    using atom_op_cases[of a] sem_and[of G sels a] sem_or[of a _ G sels] sem_or[OF s, of _ G sels] n
    by (auto simp: eq means_def expr_atom[OF p(1)] expr_atom[OF p(2)] matchSigmaPattern_def resolves_sels Let_def)
qed


definition demoCheck :: "string \<Rightarrow> sigmaSelection" where
  "demoCheck s = [[\<lparr>Field = ''CommandLine'', Modifier = ''contains'', Values = [s]\<rparr>]]"

definition noPattern :: sigmaPattern where
  "noPattern = \<lparr>sTitle = ''demo'', sLevel = ''high'', Required = [], ConditionOp = [], Forbidden = []\<rparr>"

definition starGlob :: "string \<Rightarrow> string \<Rightarrow> bool" where
  "starGlob g n \<longleftrightarrow> (if has_suffix g ''*'' then has_prefix n (butlast g) else g = n)"


text \<open>
  \<open>all of\<close> after \<open>not\<close> and inside \<open>or\<close> is read as \<open>1 of\<close>: the operator of that part is dropped. The rule
  below is to exclude commands with both \<open>-h\<close> and \<open>-v\<close>, and does not fire on one with \<open>-v\<close> alone.
\<close>

lemma not_all_of_excludes_any:
  "case parseSigmaCondition starGlob ''selection and not all of filter_*''
       [(''selection'', demoCheck ''nc''), (''filter_a'', demoCheck ''-h''), (''filter_b'', demoCheck ''-v'')] noPattern of
     Inl _ \<Rightarrow> False | Inr p \<Rightarrow>
     \<not> matchSigmaPattern ''/bin/nc'' ''nc -v 1.2.3.4 80'' [] [] p \<and>
     cond_sem starGlob [(''selection'', demoCheck ''nc''), (''filter_a'', demoCheck ''-h''), (''filter_b'', demoCheck ''-v'')]
       (sigmaFields ''/bin/nc'' ''nc -v 1.2.3.4 80'' [] []) (AndNot (Named ''selection'') (AllOf ''filter_*''))"
  by code_simp

lemma or_all_of_matches_any:
  "case parseSigmaCondition starGlob ''all of part_* or other''
       [(''part_a'', demoCheck ''curl''), (''part_b'', demoCheck ''evil''), (''other'', demoCheck ''xyzzy'')] noPattern of
     Inl _ \<Rightarrow> False | Inr p \<Rightarrow>
     matchSigmaPattern ''/bin/curl'' ''curl example.com'' [] [] p \<and>
     \<not> cond_sem starGlob [(''part_a'', demoCheck ''curl''), (''part_b'', demoCheck ''evil''), (''other'', demoCheck ''xyzzy'')]
       (sigmaFields ''/bin/curl'' ''curl example.com'' [] []) (Disj [AllOf ''part_*'', Named ''other''])"
  by code_simp

end
