(* ===== verification/MonTypes.thy ===== *)
theory MonTypes
  imports MonNetwork MonProcess Complex_Main
begin

text \<open>
  The data of the monitor, \<open>internal/monitor/types.go\<close>: threats with their evidence and the key that tells them
  apart, and the snapshots they are found in. A \<open>float64\<close> is the rational number it stands for (the code
  meets neither infinities nor NaN here); \<open>%.nf\<close> rounds its exact value, ties to even. The random
  identifier of an event, which no decision looks at, is left out. Times and durations are nanoseconds.
\<close>

section \<open>Floating point numbers as text\<close>

type_synonym float64 = rat

definition round_even :: "rat \<Rightarrow> int" where
  "round_even q = (let n = \<lfloor>q\<rfloor>; r = q - of_int n in
     if r > 1 / 2 \<or> (r = 1 / 2 \<and> odd n) then n + 1 else n)"

fun pad_digits :: "nat \<Rightarrow> nat \<Rightarrow> string" where
  "pad_digits 0 n = []"
| "pad_digits (Suc k) n = pad_digits k (n div 10) @ itoa (n mod 10)"

definition fmt_fixed :: "nat \<Rightarrow> float64 \<Rightarrow> string" where
  "fmt_fixed k x = (let n = nat (round_even (\<bar>x\<bar> * 10 ^ k)) in
     (if x < 0 then ''-'' else []) @ itoa (n div 10 ^ k) @ (if k = 0 then [] else ''.'' @ pad_digits k (n mod 10 ^ k)))"

lemma round_even_int: "round_even (of_int n) = n"
  by (simp add: round_even_def)

lemma round_even_tie: "round_even (of_int n + 1 / 2) = (if even n then n else n + 1)"
proof -
  have "\<lfloor>of_int n + 1 / 2 :: rat\<rfloor> = n" by (rule floor_unique) simp_all
  then show ?thesis by (simp add: round_even_def Let_def)
qed

section \<open>Threats\<close>

datatype ThreatLevel = Info | Warning | High | Critical

fun level_text :: "ThreatLevel \<Rightarrow> string" where
  "level_text Info = ''info''" | "level_text Warning = ''warning''" | "level_text High = ''high''" | "level_text Critical = ''critical''"

record NetworkThreat =
  ntConnection :: Connection
  Reason :: string
  RemoteHost :: string

record FilesystemThreat =
  ReadBytesMB :: float64
  ReadRate :: float64
  FilesRead :: int
  ftDuration :: string
  ftThreshold :: float64

record FilesystemWriteThreat =
  WriteBytesMB :: float64
  WriteRate :: float64
  wtThreshold :: float64
  wtDuration :: string

record DiskSpaceInfo =
  dsTmpUsedMB :: float64
  dsTmpTotalMB :: float64
  dsTmpUsedPercent :: float64

record AuthLogThreat =
  LogFile :: string
  alLine :: string
  alPattern :: string

record ProcEventThreat =
  pePID :: int
  peCommand :: string
  pePattern :: string

record SensitiveFileThreat =
  sfPath :: string
  Access :: string
  sfPid :: int

text \<open>Exactly one of the pointers of \<open>Evidence\<close> is set, or none.\<close>

datatype Evidence = EvProcess ProcessThreat | EvNetwork NetworkThreat | EvFilesystem FilesystemThreat
  | EvFileWrite FilesystemWriteThreat | EvDiskSpace DiskSpaceInfo | EvProcessCount ProcessCountThreat
  | EvAuthLog AuthLogThreat | EvProcEvent ProcEventThreat | EvSensitiveFile SensitiveFileThreat | NoEvidence

fun evidence_text :: "Evidence \<Rightarrow> string" where
  "evidence_text (EvProcess p) = ''pid:'' @ itoa_int (ptPID p) @ '' cmd:'' @ ptCommand p"
| "evidence_text (EvNetwork n) = ''remote:'' @ RemoteAddr (ntConnection n) @ '' reason:'' @ Reason n"
| "evidence_text (EvFilesystem f) = ''read:'' @ fmt_fixed 2 (ReadBytesMB f) @ ''MB''"
| "evidence_text (EvFileWrite f) = ''write:'' @ fmt_fixed 2 (WriteBytesMB f) @ ''MB''"
| "evidence_text (EvDiskSpace d) = ''tmp:'' @ fmt_fixed 1 (dsTmpUsedPercent d) @ ''%''"
| "evidence_text (EvProcessCount c) = (if 0 < Delta c then ''spawn-delta:'' @ itoa_int (Delta c)
     else ''procs:'' @ itoa_int (Count c))"
| "evidence_text (EvAuthLog a) = ''auth:'' @ LogFile a @ '':'' @ alPattern a"
| "evidence_text (EvProcEvent p) = ''proc:'' @ itoa_int (pePID p) @ '':'' @ pePattern p"
| "evidence_text (EvSensitiveFile s) = ''file:'' @ sfPath s @ '':'' @ Access s"
| "evidence_text NoEvidence = []"

record ThreatEvent =
  teTimestamp :: int
  Level :: ThreatLevel
  Category :: string
  Title :: string
  teDescription :: string
  teEvidence :: Evidence
  Action :: string

definition newThreatEvent :: "int \<Rightarrow> ThreatLevel \<Rightarrow> string \<Rightarrow> string \<Rightarrow> string \<Rightarrow> Evidence \<Rightarrow> ThreatEvent" where
  "newThreatEvent ts level category title desc ev = \<lparr>teTimestamp = ts, Level = level, Category = category, Title = title,
     teDescription = desc, teEvidence = ev, Action = ''pending''\<rparr>"

section \<open>Snapshots\<close>

record FilesystemStats =
  fsAvailable :: bool
  WorkspacePath :: string
  TotalReadMB :: float64
  ReadRateMBPerSec :: float64
  TotalWriteMB :: float64
  WriteRateMBPerSec :: float64
  FilesAccessed :: int
  TmpUsedMB :: float64
  TmpTotalMB :: float64
  TmpUsedPercent :: float64

record ResourceStats =
  CPUTimeSeconds :: float64
  UserCPUSeconds :: float64
  SysCPUSeconds :: float64
  MemoryMB :: float64
  MemoryLimitMB :: float64
  IOReadMB :: float64
  IOWriteMB :: float64

record MonitorSnapshot =
  msTimestamp :: int
  ContainerName :: string
  ContainerIP :: string
  msNetwork :: NetworkStats
  msProcesses :: ProcessStats
  Filesystem :: FilesystemStats
  Resources :: ResourceStats
  Threats :: "ThreatEvent list"
  msErrors :: "string list"

definition noFilesystem :: FilesystemStats where
  "noFilesystem = \<lparr>fsAvailable = False, WorkspacePath = [], TotalReadMB = 0, ReadRateMBPerSec = 0, TotalWriteMB = 0,
     WriteRateMBPerSec = 0, FilesAccessed = 0, TmpUsedMB = 0, TmpTotalMB = 0, TmpUsedPercent = 0\<rparr>"

definition noResources :: ResourceStats where
  "noResources = \<lparr>CPUTimeSeconds = 0, UserCPUSeconds = 0, SysCPUSeconds = 0, MemoryMB = 0, MemoryLimitMB = 0,
     IOReadMB = 0, IOWriteMB = 0\<rparr>"

end
