(* ===== verification/MonDetector.thy ===== *)
theory MonDetector
  imports MonTypes
begin

text \<open>
  The detector, \<open>internal/monitor/detector.go\<close>, with the threshold tests and the counter arithmetic of
  \<open>internal/monitor/filesystem.go\<close>. Its only state is the process count of the previous poll.
\<close>

section \<open>Reads and writes\<close>

text \<open>The difference of two samples of a cumulative 64-bit counter, 0 when it went backwards.\<close>

definition counterDelta :: "64 word \<Rightarrow> 64 word \<Rightarrow> 64 word" where
  "counterDelta current previous = (if current < previous then 0 else current - previous)"

definition DetectLargeReads :: "FilesystemStats \<Rightarrow> float64 \<Rightarrow> float64 \<Rightarrow> FilesystemThreat option" where
  "DetectLargeReads st threshold rate = (
     if threshold < TotalReadMB st then Some \<lparr>ReadBytesMB = TotalReadMB st, ReadRate = ReadRateMBPerSec st, FilesRead = 0,
       ftDuration = ''current interval'', ftThreshold = threshold\<rparr>
     else if 0 < rate \<and> rate < ReadRateMBPerSec st then Some \<lparr>ReadBytesMB = TotalReadMB st, ReadRate = ReadRateMBPerSec st,
       FilesRead = 0, ftDuration = ''sustained'', ftThreshold = rate\<rparr>
     else None)"

definition DetectLargeWrites :: "FilesystemStats \<Rightarrow> float64 \<Rightarrow> float64 \<Rightarrow> FilesystemWriteThreat option" where
  "DetectLargeWrites st threshold rate = (
     if threshold < TotalWriteMB st then Some \<lparr>WriteBytesMB = TotalWriteMB st, WriteRate = WriteRateMBPerSec st,
       wtThreshold = threshold, wtDuration = ''current interval''\<rparr>
     else if 0 < rate \<and> rate < WriteRateMBPerSec st then Some \<lparr>WriteBytesMB = TotalWriteMB st, WriteRate = WriteRateMBPerSec st,
       wtThreshold = rate, wtDuration = ''sustained''\<rparr>
     else None)"

section \<open>The detector\<close>

record Detector =
  fileReadThresholdMB :: float64
  fileReadRateMBPerSec :: float64
  fileWriteThresholdMB :: float64
  fileWriteRateMBPerSec :: float64
  processCountThreshold :: int
  processSpawnRateThreshold :: int
  previousProcessCount :: int

definition NewDetector :: "float64 \<Rightarrow> float64 \<Rightarrow> Detector" where
  "NewDetector threshold rate = \<lparr>fileReadThresholdMB = threshold, fileReadRateMBPerSec = rate, fileWriteThresholdMB = threshold,
     fileWriteRateMBPerSec = rate, processCountThreshold = 0, processSpawnRateThreshold = 0, previousProcessCount = -1\<rparr>"

text \<open>\<open>'%s'\<close>\<close>

definition quoteText :: "string \<Rightarrow> string" where
  "quoteText s = [CHR 0x27] @ s @ [CHR 0x27]"

definition emDash :: string where "emDash = [CHR 0xE2, CHR 0x80, CHR 0x94]"

definition reverseShellThreat :: "int \<Rightarrow> ProcessThreat \<Rightarrow> ThreatEvent" where
  "reverseShellThreat ts rs = newThreatEvent ts Critical ''process'' ''Reverse shell detected''
     (''Process '' @ quoteText (ptCommand rs) @ '' (PID '' @ itoa_int (ptPID rs) @ '') matches reverse shell pattern '' @ quoteText (ptPattern rs))
     (EvProcess rs)"

definition envScanThreat :: "int \<Rightarrow> ProcessThreat \<Rightarrow> ThreatEvent" where
  "envScanThreat ts es = newThreatEvent ts Warning ''environment'' ''Environment variable scanning detected''
     (''Process '' @ quoteText (ptCommand es) @ '' (PID '' @ itoa_int (ptPID es) @ '') is accessing environment variables'')
     (EvProcess es)"

definition connectionLevel :: "string \<Rightarrow> ThreatLevel" where
  "connectionLevel remote = (if extractPort remote = 4444 \<or> extractPort remote = 5555 \<or> extractIP remote = ''169.254.169.254''
     then Critical else High)"

definition connectionThreat :: "int \<Rightarrow> Connection \<Rightarrow> ThreatEvent" where
  "connectionThreat ts c = newThreatEvent ts (connectionLevel (RemoteAddr c)) ''network'' ''Unexpected network connection''
     (''Connection to '' @ RemoteAddr c @ '': '' @ SuspectReason c)
     (EvNetwork \<lparr>ntConnection = c, Reason = SuspectReason c, RemoteHost = extractIP (RemoteAddr c)\<rparr>)"

definition readThreat :: "int \<Rightarrow> FilesystemThreat \<Rightarrow> ThreatEvent" where
  "readThreat ts f = newThreatEvent ts High ''filesystem'' ''Large workspace read detected''
     (''Read '' @ fmt_fixed 2 (ReadBytesMB f) @ '' MB at '' @ fmt_fixed 2 (ReadRate f) @ '' MB/sec (threshold: '' @
        fmt_fixed 2 (ftThreshold f) @ '' MB)'') (EvFilesystem f)"

definition writeThreat :: "int \<Rightarrow> FilesystemWriteThreat \<Rightarrow> ThreatEvent" where
  "writeThreat ts f = newThreatEvent ts High ''filesystem'' ''Large workspace write detected''
     (''Write '' @ fmt_fixed 2 (WriteBytesMB f) @ '' MB at '' @ fmt_fixed 2 (WriteRate f) @ '' MB/sec (threshold: '' @
        fmt_fixed 2 (wtThreshold f) @ '' MB)'') (EvFileWrite f)"

definition spikeThreat :: "int \<Rightarrow> ProcessCountThreat \<Rightarrow> ThreatEvent" where
  "spikeThreat ts c = newThreatEvent ts Critical ''process'' ''Process count spike detected''
     (''Container has '' @ itoa_int (Count c) @ '' processes (threshold: '' @ itoa_int (Threshold c) @ '') '' @ emDash @
        '' possible fork bomb or runaway spawner'') (EvProcessCount c)"

definition spawnThreat :: "int \<Rightarrow> ProcessCountThreat \<Rightarrow> ThreatEvent" where
  "spawnThreat ts c = newThreatEvent ts Critical ''process'' ''Process spawn rate spike detected''
     (''Container spawned '' @ itoa_int (Delta c) @ '' new processes in one poll interval (threshold: '' @ itoa_int (Threshold c) @ '')'')
     (EvProcessCount c)"

definition diskThreat :: "int \<Rightarrow> FilesystemStats \<Rightarrow> ThreatEvent" where
  "diskThreat ts f = newThreatEvent ts Warning ''filesystem'' ''Low disk space on /tmp''
     (''/tmp is '' @ fmt_fixed 1 (TmpUsedPercent f) @ ''% full ('' @ fmt_fixed 0 (TmpUsedMB f) @ ''MB used of '' @
        fmt_fixed 0 (TmpTotalMB f) @ ''MB total). Consider increasing tmpfs_size in config.'')
     (EvDiskSpace \<lparr>dsTmpUsedMB = TmpUsedMB f, dsTmpTotalMB = TmpTotalMB f, dsTmpUsedPercent = TmpUsedPercent f\<rparr>)"

definition opt_list :: "('a \<Rightarrow> 'b) \<Rightarrow> 'a option \<Rightarrow> 'b list" where
  "opt_list f r = (case r of None \<Rightarrow> [] | Some x \<Rightarrow> [f x])"

definition Analyze :: "Detector \<Rightarrow> MonitorSnapshot \<Rightarrow> ThreatEvent list \<times> Detector" where
  "Analyze d s = (let ts = msTimestamp s; ps = msProcesses s; fs = Filesystem s; up = Available ps;
       procs = Processes ps in
     ((if up then map (reverseShellThreat ts) (DetectReverseShells procs) else []) @
      (if up then map (envScanThreat ts) (DetectEnvScanning procs) else []) @
      map (connectionThreat ts) (filter Suspicious (Connections (msNetwork s))) @
      (if fsAvailable fs then
         opt_list (readThreat ts) (DetectLargeReads fs (fileReadThresholdMB d) (fileReadRateMBPerSec d)) @
         opt_list (writeThreat ts) (DetectLargeWrites fs (fileWriteThresholdMB d) (fileWriteRateMBPerSec d)) else []) @
      (if up then
         opt_list (spikeThreat ts) (DetectProcessCountSpike ps (processCountThreshold d)) @
         opt_list (spawnThreat ts) (DetectProcessSpawnRate (TotalCount ps) (previousProcessCount d) (processSpawnRateThreshold d))
       else []) @
      (if fsAvailable fs \<and> 0 < TmpTotalMB fs \<and> 80 < TmpUsedPercent fs then [diskThreat ts fs] else []),
      d\<lparr>previousProcessCount := if up then TotalCount ps else -1\<rparr>))"

section \<open>Properties of the detector\<close>

lemma counterDelta_bound: "counterDelta c p \<le> c"
  by (auto simp: counterDelta_def word_le_minus_cancel word_sub_le)

lemma counterDelta_exact: "unat (counterDelta c p) = unat c - unat p"
  by (auto simp: counterDelta_def unat_sub_if' word_less_nat_alt word_le_nat_alt)

lemma pending: "t \<in> set (fst (Analyze d s)) \<Longrightarrow> Action t = ''pending''"
  by (auto simp: Analyze_def Let_def opt_list_def newThreatEvent_def reverseShellThreat_def envScanThreat_def connectionThreat_def
      readThreat_def writeThreat_def spikeThreat_def spawnThreat_def diskThreat_def split: if_splits option.splits)

text \<open>The detector over a sequence of polls.\<close>

fun polls :: "Detector \<Rightarrow> MonitorSnapshot list \<Rightarrow> ThreatEvent list list" where
  "polls d [] = []"
| "polls d (s # ss) = (let (ts, d') = Analyze d s in ts # polls d' ss)"

definition spawnAlarm :: "ThreatEvent list \<Rightarrow> bool" where
  "spawnAlarm ts \<longleftrightarrow> (\<exists>t \<in> set ts. Title t = ''Process spawn rate spike detected'')"

lemma titles:
  "Title (reverseShellThreat ts p) = ''Reverse shell detected''" "Title (envScanThreat ts p) = ''Environment variable scanning detected''"
  "Title (connectionThreat ts c) = ''Unexpected network connection''" "Title (readThreat ts f) = ''Large workspace read detected''"
  "Title (writeThreat ts g) = ''Large workspace write detected''" "Title (spikeThreat ts k) = ''Process count spike detected''"
  "Title (spawnThreat ts k) = ''Process spawn rate spike detected''" "Title (diskThreat ts h) = ''Low disk space on /tmp''"
  by (simp_all add: newThreatEvent_def reverseShellThreat_def envScanThreat_def connectionThreat_def readThreat_def writeThreat_def
      spikeThreat_def spawnThreat_def diskThreat_def)

lemma spawnAlarm_iff:
  "spawnAlarm (fst (Analyze d s)) \<longleftrightarrow> Available (msProcesses s) \<and> 0 < processSpawnRateThreshold d \<and> 0 \<le> previousProcessCount d \<and>
     processSpawnRateThreshold d < TotalCount (msProcesses s) - previousProcessCount d"
  by (auto simp: spawnAlarm_def Analyze_def Let_def opt_list_def titles DetectProcessSpawnRate_def bex_Un split: option.splits)

lemma Analyze_keeps: "processSpawnRateThreshold (snd (Analyze d s)) = processSpawnRateThreshold d"
  "previousProcessCount (snd (Analyze d s)) = (if Available (msProcesses s) then TotalCount (msProcesses s) else -1)"
  by (simp_all add: Analyze_def Let_def)

lemma polls_nth:
  assumes "i < length ss" and "\<forall>s \<in> set ss. 0 \<le> TotalCount (msProcesses s)"
  shows "spawnAlarm (polls d ss ! i) \<longleftrightarrow>
    Available (msProcesses (ss ! i)) \<and> 0 < processSpawnRateThreshold d \<and>
    (if i = 0 then 0 \<le> previousProcessCount d \<and> processSpawnRateThreshold d < TotalCount (msProcesses (ss ! 0)) - previousProcessCount d
     else Available (msProcesses (ss ! (i - 1))) \<and>
       processSpawnRateThreshold d < TotalCount (msProcesses (ss ! i)) - TotalCount (msProcesses (ss ! (i - 1))))"
  using assms
proof (induction ss arbitrary: d i)
  case (Cons s ss)
  show ?case
  proof (cases i)
    case 0
    then show ?thesis by (simp add: spawnAlarm_iff case_prod_beta)
  next
    case (Suc j)
    have "spawnAlarm (polls (snd (Analyze d s)) ss ! j) \<longleftrightarrow>
      Available (msProcesses (ss ! j)) \<and> 0 < processSpawnRateThreshold d \<and>
      (if j = 0 then 0 \<le> previousProcessCount (snd (Analyze d s)) \<and>
         processSpawnRateThreshold d < TotalCount (msProcesses (ss ! 0)) - previousProcessCount (snd (Analyze d s))
       else Available (msProcesses (ss ! (j - 1))) \<and>
         processSpawnRateThreshold d < TotalCount (msProcesses (ss ! j)) - TotalCount (msProcesses (ss ! (j - 1))))"
      using Cons.IH[of j "snd (Analyze d s)"] Cons.prems Suc by (simp add: Analyze_keeps(1))
    then show ?thesis using Cons.prems(2) by (cases j) (auto simp: Suc case_prod_beta Analyze_keeps)
  qed
qed simp

lemma length_polls [simp]: "length (polls d ss) = length ss"
  by (induction ss arbitrary: d) (simp_all add: case_prod_beta)

text \<open>C34. The fork-bomb alarm on the spawn rate. Over any sequence of polls from a new detector, an alarm is raised at a
  poll exactly when the threshold is enabled, this poll and the one before it could both read the processes, and the count
  grew by more than the threshold between the two: never at the first poll, and never across a poll that failed.\<close>

theorem spawn_rate_alarm:
  assumes "i < length ss" and "\<forall>s \<in> set ss. 0 \<le> TotalCount (msProcesses s)"
  shows "spawnAlarm (polls ((NewDetector a b)\<lparr>processSpawnRateThreshold := k\<rparr>) ss ! i) \<longleftrightarrow>
    0 < i \<and> 0 < k \<and> Available (msProcesses (ss ! i)) \<and> Available (msProcesses (ss ! (i - 1))) \<and>
    k < TotalCount (msProcesses (ss ! i)) - TotalCount (msProcesses (ss ! (i - 1)))"
  using polls_nth[OF assms, of "(NewDetector a b)\<lparr>processSpawnRateThreshold := k\<rparr>"] by (auto simp: NewDetector_def)

definition pollOf :: "bool \<Rightarrow> int \<Rightarrow> MonitorSnapshot" where
  "pollOf up n = \<lparr>msTimestamp = 0, ContainerName = ''coi-1'', ContainerIP = [],
     msNetwork = \<lparr>ActiveConnections = 0, Connections = [], SuspiciousCount = 0\<rparr>,
     msProcesses = \<lparr>Available = up, TotalCount = n, Processes = []\<rparr>, Filesystem = noFilesystem, Resources = noResources,
     Threats = [], msErrors = []\<rparr>"

lemma pollOf_sel [simp]: "Available (msProcesses (pollOf u n)) = u" "TotalCount (msProcesses (pollOf u n)) = n"
  by (simp_all add: pollOf_def)

lemma spawn_rate_alarm_witness:
  "spawnAlarm (polls ((NewDetector 50 10)\<lparr>processSpawnRateThreshold := 20\<rparr>) [pollOf True 5, pollOf True 40] ! 1) \<and>
   \<not> spawnAlarm (polls ((NewDetector 50 10)\<lparr>processSpawnRateThreshold := 20\<rparr>) [pollOf True 5, pollOf False 0, pollOf True 40] ! 2)"
  using spawn_rate_alarm[where i = 1 and ss = "[pollOf True 5, pollOf True 40]" and a = 50 and b = 10 and k = 20]
    spawn_rate_alarm[where i = 2 and ss = "[pollOf True 5, pollOf False 0, pollOf True 40]" and a = 50 and b = 10 and k = 20]
  by (auto simp del: polls.simps)

end
