(* ===== verification/MonDecode.thy ===== *)
theory MonDecode
  imports MonTypes GoUtf8
begin

text \<open>
  The decoders of the monitor's kernel interfaces: process events from the netlink connector
  (\<open>processMessages\<close> in \<open>internal/monitor/procwatcher.go\<close>), inotify events (\<open>logwatcher.go\<close>) and fanotify
  events (\<open>filewatcher.go\<close>). Go panics when a slice or an index is out of range: here such an access is \<open>None\<close>.
  The theorems show that no input makes a decoder panic, and that what the kernel writes is read back.
\<close>

section \<open>Slices and little-endian numbers\<close>

definition byte_slice :: "string \<Rightarrow> nat \<Rightarrow> nat \<Rightarrow> string option" where
  "byte_slice s i j = (if i \<le> j \<and> j \<le> length s then Some (take (j - i) (drop i s)) else None)"

fun le_val :: "string \<Rightarrow> nat" where
  "le_val [] = 0"
| "le_val (c # cs) = byte c + 256 * le_val cs"

definition u16at :: "string \<Rightarrow> nat \<Rightarrow> nat option" where
  "u16at s i = map_option le_val (byte_slice s i (i + 2))"

definition u32at :: "string \<Rightarrow> nat \<Rightarrow> nat option" where
  "u32at s i = map_option le_val (byte_slice s i (i + 4))"

definition u64at :: "string \<Rightarrow> nat \<Rightarrow> nat option" where
  "u64at s i = map_option le_val (byte_slice s i (i + 8))"

section \<open>Process events\<close>

datatype procEvent = ExecEv nat | RootEv nat

definition procMessage :: "string \<Rightarrow> procEvent list option" where
  "procMessage data = (if length data < 36 then Some [] else
     Option.bind (u16at data 16) (\<lambda>cnLen. Option.bind (byte_slice data 20 (length data)) (\<lambda>ed0.
     if length ed0 < cnLen \<or> cnLen < 16 then Some [] else
     Option.bind (byte_slice ed0 0 cnLen) (\<lambda>ed. Option.bind (byte_slice ed 16 (length ed)) (\<lambda>payload. Option.bind (u32at ed 0) (\<lambda>what.
     if what = 2 then
       (if length payload < 8 then Some [] else Option.bind (u32at payload 0) (\<lambda>pid. Some [ExecEv pid]))
     else if what = 4 then
       (if length payload < 16 then Some [] else
        Option.bind (u32at payload 0) (\<lambda>pid. Option.bind (u32at payload 12) (\<lambda>euid.
        Some (if euid = 0 then [RootEv pid] else []))))
     else Some []))))))"

function processMessages :: "string \<Rightarrow> procEvent list option" where
  "processMessages buf = (if length buf < 16 then Some [] else
     case u32at buf 0 of None \<Rightarrow> None | Some msgLen \<Rightarrow>
     if msgLen < 16 \<or> length buf < msgLen then Some [] else
     case byte_slice buf 16 msgLen of None \<Rightarrow> None | Some data \<Rightarrow>
     case procMessage data of None \<Rightarrow> None | Some evs \<Rightarrow>
     map_option ((@) evs) (processMessages (drop ((msgLen + 3) div 4 * 4) buf)))"
  by pat_completeness auto
termination by (relation "measure length") auto

declare processMessages.simps [simp del]

section \<open>inotify events\<close>

definition int32 :: "nat \<Rightarrow> int" where
  "int32 n = (if n < 2 ^ 31 then int n else int n - 2 ^ 32)"

function inotifyEvents :: "string \<Rightarrow> (int \<times> nat) list option" where
  "inotifyEvents data = (if length data < 16 then Some [] else
     case (u32at data 0, u32at data 4, u32at data 12) of
       (Some wd, Some mk, Some nameLen) \<Rightarrow>
         (if length (drop 16 data) < nameLen then Some []
          else map_option (Cons (int32 wd, mk)) (inotifyEvents (drop nameLen (drop 16 data))))
     | _ \<Rightarrow> None)"
  by pat_completeness auto
termination by (relation "measure length") auto

declare inotifyEvents.simps [simp del]

section \<open>fanotify events\<close>

record rawFanEvent =
  feMask :: nat
  feFd :: int
  fePid :: int

text \<open>\<open>pos\<close> runs over the \<open>nr\<close> bytes that were read into the buffer.\<close>

function fanEvents :: "string \<Rightarrow> nat \<Rightarrow> nat \<Rightarrow> rawFanEvent list option" where
  "fanEvents buf nr pos = (if nr < pos + 24 then Some [] else
     case u32at buf pos of None \<Rightarrow> None | Some evLen \<Rightarrow>
     if evLen < 24 \<or> nr < pos + evLen then Some [] else
     (case (u64at buf (pos + 8), u32at buf (pos + 16), u32at buf (pos + 20)) of
        (Some mk, Some fd, Some pid) \<Rightarrow>
          map_option (Cons \<lparr>feMask = mk, feFd = int fd, fePid = int pid\<rparr>) (fanEvents buf nr (pos + evLen))
      | _ \<Rightarrow> None))"
  by pat_completeness auto
termination by (relation "measure (\<lambda>(buf, nr, pos). nr - pos)") auto

declare fanEvents.simps [simp del]

definition readFanEvents :: "string \<Rightarrow> nat \<Rightarrow> rawFanEvent list option" where
  "readFanEvents buf nr = (if nr < 24 then Some [] else fanEvents buf nr 0)"

section \<open>No input makes a decoder panic\<close>

lemma slice_ok: "i \<le> j \<Longrightarrow> j \<le> length s \<Longrightarrow> byte_slice s i j = Some (take (j - i) (drop i s))"
  by (simp add: byte_slice_def)

lemma u32at_ok: "i + 4 \<le> length s \<Longrightarrow> \<exists>n. u32at s i = Some n"
  by (simp add: u32at_def slice_ok)

lemma procMessage_total: "\<exists>evs. procMessage data = Some evs"
proof (cases "length data < 36")
  case False
  then obtain cnLen where c: "u16at data 16 = Some cnLen" by (auto simp: u16at_def slice_ok)
  have s: "byte_slice data 20 (length data) = Some (drop 20 data)" using False by (simp add: slice_ok)
  show ?thesis
  proof (cases "length (drop 20 data) < cnLen \<or> cnLen < 16")
    case False
    let ?ed = "take cnLen (drop 20 data)"
    have e: "byte_slice (drop 20 data) 0 cnLen = Some ?ed" "length ?ed = cnLen" using False by (simp_all add: slice_ok)
    have p: "byte_slice ?ed 16 (length ?ed) = Some (drop 16 ?ed)" using False e(2) by (simp add: byte_slice_def)
    obtain what where w: "u32at ?ed 0 = Some what" using u32at_ok[of 0 ?ed] False e(2) by auto
    have "length (drop 16 ?ed) \<ge> 8 \<Longrightarrow> \<exists>n. u32at (drop 16 ?ed) 0 = Some n"
      "length (drop 16 ?ed) \<ge> 16 \<Longrightarrow> \<exists>n. u32at (drop 16 ?ed) 12 = Some n"
      using u32at_ok[of 0 "drop 16 ?ed"] u32at_ok[of 12 "drop 16 ?ed"] by auto
    with False \<open>\<not> length data < 36\<close> show ?thesis
      unfolding procMessage_def c s Option.bind.bind_lunit e(1) p w by (auto simp: not_less)
  qed (use c s False in \<open>simp add: procMessage_def\<close>)
qed (simp add: procMessage_def)

lemma processMessages_total: "\<exists>evs. processMessages buf = Some evs"
proof (induction buf rule: processMessages.induct)
  case (1 buf)
  show ?case
  proof (cases "length buf < 16")
    case False
    then obtain m where m: "u32at buf 0 = Some m" using u32at_ok[of 0 buf] by auto
    show ?thesis
    proof (cases "m < 16 \<or> length buf < m")
      case False
      then have s: "byte_slice buf 16 m = Some (take (m - 16) (drop 16 buf))" by (simp add: slice_ok)
      obtain evs where e: "procMessage (take (m - 16) (drop 16 buf)) = Some evs" using procMessage_total by blast
      from "1.IH"[OF \<open>\<not> length buf < 16\<close> m False s e] m s e show ?thesis by (subst processMessages.simps) auto
    qed (use m in \<open>subst processMessages.simps, auto\<close>)
  qed (subst processMessages.simps, simp)
qed

lemma inotifyEvents_total: "\<exists>evs. inotifyEvents data = Some evs"
proof (induction data rule: inotifyEvents.induct)
  case (1 data)
  show ?case
  proof (cases "length data < 16")
    case False
    then obtain wd mk nameLen where n: "u32at data 0 = Some wd" "u32at data 4 = Some mk" "u32at data 12 = Some nameLen"
      using u32at_ok[of 0 data] u32at_ok[of 4 data] u32at_ok[of 12 data] by auto
    then have "\<exists>evs. inotifyEvents (drop nameLen (drop 16 data)) = Some evs" if "\<not> length (drop 16 data) < nameLen"
      using "1.IH" False that by simp
    with n
    show ?thesis by (subst inotifyEvents.simps) auto
  qed (subst inotifyEvents.simps, simp)
qed

lemma fanEvents_total: "nr \<le> length buf \<Longrightarrow> \<exists>evs. fanEvents buf nr pos = Some evs"
proof (induction buf nr pos rule: fanEvents.induct)
  case (1 buf nr pos)
  show ?case
  proof (cases "nr < pos + 24")
    case False
    then obtain l fd pid where n: "u32at buf pos = Some l" "u32at buf (pos + 16) = Some fd" "u32at buf (pos + 20) = Some pid"
      using u32at_ok[of pos buf] u32at_ok[of "pos + 16" buf] u32at_ok[of "pos + 20" buf] "1.prems" by auto
    obtain mk where m: "u64at buf (pos + 8) = Some mk" using False "1.prems" by (auto simp: u64at_def slice_ok)
    show ?thesis
    proof (cases "l < 24 \<or> nr < pos + l")
      case False
      with "1.IH" n m "1.prems" \<open>\<not> nr < pos + 24\<close> have "\<exists>evs. fanEvents buf nr (pos + l) = Some evs" by blast
      with False n m \<open>\<not> nr < pos + 24\<close> show ?thesis by (subst fanEvents.simps) auto
    qed (use n in \<open>subst fanEvents.simps, auto\<close>)
  qed (subst fanEvents.simps, simp)
qed



section \<open>What the kernel writes is read back\<close>

fun le_bytes :: "nat \<Rightarrow> nat \<Rightarrow> string" where
  "le_bytes 0 n = []"
| "le_bytes (Suc k) n = char_of (n mod 256) # le_bytes k (n div 256)"

lemma length_le_bytes [simp]: "length (le_bytes k n) = k"
  by (induction k n rule: le_bytes.induct) simp_all

lemma le_val_le_bytes: "n < 256 ^ k \<Longrightarrow> le_val (le_bytes k n) = n"
proof (induction k n rule: le_bytes.induct)
  case (2 k n)
  then have "n div 256 < 256 ^ k" by (simp add: less_mult_imp_div_less)
  with 2 show ?case by (simp add: byte_def)
qed simp

text \<open>
  A message of the process connector: \<open>nlmsghdr\<close> (its length, then 12 bytes), \<open>cn_msg\<close> (16 bytes, the length of
  the event, 2 bytes) and the event (what happened, 12 bytes of CPU and time, the payload).
\<close>

record connectorMsg =
  nlRest :: string
  cnIds :: string
  cnFlags :: string
  evWhat :: nat
  evRest :: string
  evPayload :: string

definition proper_msg :: "connectorMsg \<Rightarrow> bool" where
  "proper_msg m \<longleftrightarrow> length (nlRest m) = 12 \<and> length (cnIds m) = 16 \<and> length (cnFlags m) = 2 \<and> evWhat m < 2 ^ 32 \<and>
     length (evRest m) = 12 \<and> length (evPayload m) < 60000"

definition msgLength :: "connectorMsg \<Rightarrow> nat" where
  "msgLength m = 52 + length (evPayload m)"

definition msgEvent :: "connectorMsg \<Rightarrow> string" where
  "msgEvent m = le_bytes 4 (evWhat m) @ evRest m @ evPayload m"

definition msgData :: "connectorMsg \<Rightarrow> string" where
  "msgData m = cnIds m @ le_bytes 2 (16 + length (evPayload m)) @ cnFlags m @ msgEvent m"

text \<open>The bytes of a message, padded to a multiple of four.\<close>

definition frame :: "connectorMsg \<Rightarrow> string" where
  "frame m = le_bytes 4 (msgLength m) @ nlRest m @ msgData m @ replicate ((msgLength m + 3) div 4 * 4 - msgLength m) (CHR 0x00)"

text \<open>What a message reports: an exec with its PID, or a process whose effective user became root.\<close>

definition reported :: "connectorMsg \<Rightarrow> procEvent list" where
  "reported m = (let p = evPayload m in
     if evWhat m = 2 \<and> 8 \<le> length p then [ExecEv (le_val (take 4 p))]
     else if evWhat m = 4 \<and> 16 \<le> length p \<and> le_val (take 4 (drop 12 p)) = 0 then [RootEv (le_val (take 4 p))]
     else [])"

lemma lengths:
  "proper_msg m \<Longrightarrow> length (msgEvent m) = 16 + length (evPayload m)"
  "proper_msg m \<Longrightarrow> length (msgData m) = 36 + length (evPayload m)"
  "proper_msg m \<Longrightarrow> length (frame m) = (msgLength m + 3) div 4 * 4"
proof -
  have "msgLength m \<le> (msgLength m + 3) div 4 * 4" by simp
  then show "proper_msg m \<Longrightarrow> length (msgEvent m) = 16 + length (evPayload m)"
    "proper_msg m \<Longrightarrow> length (msgData m) = 36 + length (evPayload m)"
    "proper_msg m \<Longrightarrow> length (frame m) = (msgLength m + 3) div 4 * 4"
    by (auto simp: proper_msg_def msgEvent_def msgData_def frame_def msgLength_def)
qed

lemma u16at_part: "length a = i \<Longrightarrow> n < 2 ^ 16 \<Longrightarrow> u16at (a @ le_bytes 2 n @ b) i = Some n"
  by (simp add: u16at_def slice_ok le_val_le_bytes)

lemma u32at_part: "length a = i \<Longrightarrow> n < 2 ^ 32 \<Longrightarrow> u32at (a @ le_bytes 4 n @ b) i = Some n"
  by (simp add: u32at_def slice_ok le_val_le_bytes)

lemma procMessage_data:
  assumes "proper_msg m"
  shows "procMessage (msgData m) = Some (reported m)"
proof -
  let ?p = "evPayload m" and ?e = "msgEvent m"
  have c: "u16at (msgData m) 16 = Some (16 + length ?p)"
    unfolding msgData_def by (rule u16at_part) (use assms in \<open>simp_all add: proper_msg_def\<close>)
  have d: "drop 20 (msgData m) = ?e" using assms by (simp add: msgData_def proper_msg_def)
  have s: "byte_slice (msgData m) 20 (length (msgData m)) = Some ?e" using lengths[OF assms] d by (simp add: slice_ok)
  have e: "byte_slice ?e 0 (16 + length ?p) = Some ?e" using lengths[OF assms] by (simp add: slice_ok)
  have "drop 16 ?e = ?p" using assms by (simp add: msgEvent_def proper_msg_def)
  then have p: "byte_slice ?e 16 (length ?e) = Some ?p" using lengths[OF assms] by (simp add: slice_ok)
  have w: "u32at ?e 0 = Some (evWhat m)"
    unfolding msgEvent_def using u32at_part[of "[]" 0 "evWhat m"] assms by (simp add: proper_msg_def)
  have a: "8 \<le> length ?p \<Longrightarrow> u32at ?p 0 = Some (le_val (take 4 ?p))" "16 \<le> length ?p \<Longrightarrow> u32at ?p 0 = Some (le_val (take 4 ?p))"
    "16 \<le> length ?p \<Longrightarrow> u32at ?p 12 = Some (le_val (take 4 (drop 12 ?p)))"
    by (simp_all add: u32at_def slice_ok)
  show ?thesis
    unfolding procMessage_def c s Option.bind.bind_lunit e p w
    using lengths[OF assms] a by (auto simp: reported_def Let_def not_less)
qed

lemma processMessages_frame:
  assumes m: "proper_msg m"
  shows "processMessages (frame m @ rest) = map_option ((@) (reported m)) (processMessages rest)"
proof -
  let ?b = "frame m @ rest" and ?L = "msgLength m"
  have L: "?L < 2 ^ 32" "?L \<le> length (frame m)" "16 \<le> ?L" "length (frame m) = (?L + 3) div 4 * 4"
    using m lengths(3)[OF m] by (auto simp: proper_msg_def msgLength_def)
  have u: "u32at ?b 0 = Some ?L"
    using u32at_part[of "[]" 0 ?L "nlRest m @ msgData m @ replicate ((?L + 3) div 4 * 4 - ?L) (CHR 0x00) @ rest"] L(1)
    by (simp add: frame_def)
  have "take (?L - 16) (drop 16 ?b) = msgData m"
    using m lengths(2)[OF m] by (simp add: frame_def proper_msg_def msgLength_def)
  then have s: "byte_slice ?b 16 ?L = Some (msgData m)" using L by (simp add: slice_ok)
  have d: "drop ((?L + 3) div 4 * 4) ?b = rest" using L(4) by simp
  have "\<not> length ?b < 16" "\<not> (?L < 16 \<or> length ?b < ?L)" using L(2,3) by auto
  then show ?thesis
    by (subst processMessages.simps) (simp only: if_False u option.case s procMessage_data[OF m] d)
qed

text \<open>C36. Decoding inverts the kernel's encoding: a buffer of any number of well-formed connector messages, each padded
  to four bytes, is decoded to exactly the execs and changes to root it reports, in order.\<close>

theorem connector_roundtrip:
  "list_all proper_msg ms \<Longrightarrow> processMessages (concat (map frame ms)) = Some (concat (map reported ms))"
proof (induction ms)
  case Nil
  show ?case by (simp add: processMessages.simps)
next
  case (Cons m ms)
  then show ?case using processMessages_frame[of m "concat (map frame ms)"] by simp
qed

definition execMsg :: "nat \<Rightarrow> connectorMsg" where
  "execMsg pid = \<lparr>nlRest = replicate 12 (CHR 0x00), cnIds = replicate 16 (CHR 0x01), cnFlags = replicate 2 (CHR 0x00),
     evWhat = 2, evRest = replicate 12 (CHR 0x00), evPayload = le_bytes 4 pid @ le_bytes 4 pid\<rparr>"

lemma connector_roundtrip_witness:
  "processMessages (concat (map frame [execMsg 4242, execMsg 77])) = Some [ExecEv 4242, ExecEv 77]"
proof -
  have p: "list_all proper_msg [execMsg 4242, execMsg 77]" by (simp add: execMsg_def proper_msg_def)
  have r: "reported (execMsg n) = [ExecEv n]" if "n < 2 ^ 32" for n
    using that by (simp add: reported_def execMsg_def le_val_le_bytes)
  show ?thesis using connector_roundtrip[OF p] r[of 4242] r[of 77] by simp
qed

text \<open>
  The kernel reports a queue overflow with the descriptor -1, written as 32 bits of ones; the conversion of an
  unsigned value makes that a large positive descriptor, so the watcher's test for a negative one never holds.
\<close>

lemma fan_fd_never_negative: "fanEvents buf nr pos = Some evs \<Longrightarrow> e \<in> set evs \<Longrightarrow> 0 \<le> feFd e"
proof (induction buf nr pos arbitrary: evs rule: fanEvents.induct)
  case (1 buf nr pos)
  from "1.prems" show ?case
    by (subst (asm) fanEvents.simps) (use "1.IH" in \<open>fastforce split: if_splits option.splits\<close>)
qed

end
