(* ===== verification/MonLog.thy ===== *)
theory MonLog
  imports MonTypes GoUtf8
begin

text \<open>
  The log watcher, \<open>internal/monitor/logwatcher.go\<close>: tailing the container's log files through the host's
  view of its file system, with the rotation checks and the \<open>incus file pull\<close> fallback, and the patterns a
  line is matched against. Opening, reading and pulling files and the clock are parameters. The watches
  that trigger a poll are not modelled: the theorem on the tail holds for polls at any times.
\<close>

section \<open>Lines and runes\<close>

text \<open>Converting to runes replaces every invalid byte by U+FFFD.\<close>

definition rune_text :: "string \<Rightarrow> string" where
  "rune_text t = (if rune_len t = 0 then [CHR 0xEF, CHR 0xBF, CHR 0xBD] else t)"

definition truncateToRunes :: "string \<Rightarrow> nat \<Rightarrow> string" where
  "truncateToRunes s limit = (if length (go_runes s) \<le> limit then s
     else concat (map rune_text (take limit (go_runes s))) @ [CHR 0xE2, CHR 0x80, CHR 0xA6])"

abbreviation LF :: char where "LF \<equiv> CHR 0x0A"

text \<open>The lines \<open>ReadString('\n')\<close> returns before the end of the input, their newline included.\<close>

fun readLines :: "string \<Rightarrow> string \<Rightarrow> string list" where
  "readLines [] acc = []"
| "readLines (c # cs) acc = (if c = LF then (acc @ [c]) # readLines cs [] else readLines cs (acc @ [c]))"

section \<open>Patterns\<close>

record logPattern =
  lpName :: string
  lpKeywords :: "string list"
  lpLevel :: ThreatLevel
  lpTitle :: string
  lpDesc :: string

definition logCandidates :: "string list" where
  "logCandidates = [''var/log/auth.log'', ''var/log/syslog'', ''var/log/audit/audit.log'']"

definition authLogPatterns :: "logPattern list" where
  "authLogPatterns = [
    \<lparr>lpName = ''ssh_failed_password'', lpKeywords = [''failed password''], lpLevel = Warning,
     lpTitle = ''SSH authentication failure'', lpDesc = ''Failed SSH password attempt detected in auth log''\<rparr>,
    \<lparr>lpName = ''ssh_invalid_user'', lpKeywords = [''invalid user''], lpLevel = Warning,
     lpTitle = ''SSH login attempt with invalid user'', lpDesc = ''SSH login attempt with an unknown username detected in auth log''\<rparr>,
    \<lparr>lpName = ''pam_auth_failure'', lpKeywords = [''pam_unix'', ''authentication failure''], lpLevel = Warning,
     lpTitle = ''PAM authentication failure'', lpDesc = ''PAM authentication failure detected in auth log''\<rparr>,
    \<lparr>lpName = ''sudo_not_allowed'', lpKeywords = [''sudo'', ''command not allowed''], lpLevel = High,
     lpTitle = ''Unauthorized sudo command'', lpDesc = ''A user attempted an unauthorized sudo command''\<rparr>,
    \<lparr>lpName = ''sudo_not_in_sudoers'', lpKeywords = [''sudo'', ''sudoers''], lpLevel = High,
     lpTitle = ''Unauthorized sudo attempt (not in sudoers)'', lpDesc = ''A user not listed in sudoers attempted to use sudo''\<rparr>,
    \<lparr>lpName = ''su_failed'', lpKeywords = [''failed su for''], lpLevel = High,
     lpTitle = ''Failed su privilege escalation'',
     lpDesc = ''A failed su attempt was detected, indicating a possible privilege escalation''\<rparr>,
    \<lparr>lpName = ''root_session'', lpKeywords = [''session opened for user root''], lpLevel = Warning,
     lpTitle = ''Root session opened'', lpDesc = ''A root session was opened inside the container''\<rparr>,
    \<lparr>lpName = ''auditd_auth_failure'', lpKeywords = [''type=user_auth'', ''res=failed''], lpLevel = High,
     lpTitle = ''Auditd: authentication failure'', lpDesc = ''auditd recorded a USER_AUTH failure''\<rparr>,
    \<lparr>lpName = ''auditd_user_cmd_failed'', lpKeywords = [''type=user_cmd'', ''res=failed''], lpLevel = High,
     lpTitle = ''Auditd: unauthorized command'', lpDesc = ''auditd recorded a USER_CMD failure (unauthorized sudo or su)''\<rparr>,
    \<lparr>lpName = ''auditd_login_failure'', lpKeywords = [''type=user_login'', ''res=failed''], lpLevel = Warning,
     lpTitle = ''Auditd: login failure'', lpDesc = ''auditd recorded a USER_LOGIN failure''\<rparr>,
    \<lparr>lpName = ''auditd_acct_failure'', lpKeywords = [''type=user_acct'', ''res=failed''], lpLevel = Warning,
     lpTitle = ''Auditd: account action failure'',
     lpDesc = ''auditd recorded a USER_ACCT failure (account modification rejected)''\<rparr>]"

definition matchLine :: "string \<Rightarrow> logPattern option" where
  "matchLine line = find (\<lambda>p. list_all (str_contains (to_lower line)) (lpKeywords p)) authLogPatterns"

definition logThreat :: "int \<Rightarrow> string \<Rightarrow> string \<Rightarrow> logPattern \<Rightarrow> ThreatEvent" where
  "logThreat ts logFile line p = (let evLine = truncateToRunes line 300 in
     \<lparr>teTimestamp = ts, Level = lpLevel p, Category = ''auth'', Title = lpTitle p,
      teDescription = lpDesc p @ '': '' @ evLine,
      teEvidence = EvAuthLog \<lparr>LogFile = logFile, alLine = evLine, alPattern = lpName p\<rparr>, Action = ''pending''\<rparr>)"

section \<open>Reading a log file\<close>

text \<open>
  \<open>StatLog\<close> opens a path and gives the inode and the size of the file, \<open>ReadFrom path inode offset\<close> reads
  that file from the offset to its end (it may have grown since), \<open>CreateTemp\<close> gives the path of a new
  temporary file, \<open>Clock\<close> the time. A sum with an error stands for any of the errors of the Go functions.
\<close>

record 'w logfs =
  StatLog :: "string \<Rightarrow> ('w, nat \<times> nat) act"
  ReadFrom :: "string \<Rightarrow> nat \<Rightarrow> nat \<Rightarrow> ('w, string) act"
  CreateTemp :: "('w, string) act"
  ReadTemp :: "string \<Rightarrow> ('w, string) act"
  RemoveTemp :: "string \<Rightarrow> 'w \<Rightarrow> 'w"
  Clock :: "'w \<Rightarrow> int \<times> 'w"

record logState =
  Offset :: nat
  Inode :: nat
  UsingFallback :: bool

definition newLogState :: logState where
  "newLogState = \<lparr>Offset = 0, Inode = 0, UsingFallback = False\<rparr>"

text \<open>The data that was read, the offset it starts at and the inode.\<close>

definition readFileChunk :: "'w logfs \<Rightarrow> string \<Rightarrow> logState \<Rightarrow> ('w, string \<times> nat \<times> nat) act" where
  "readFileChunk F path st = bindA (StatLog F path) (\<lambda>(curInode, fileSize).
     let inodeChanged = (Inode st \<noteq> 0 \<and> curInode \<noteq> 0 \<and> curInode \<noteq> Inode st);
         offset = (if inodeChanged \<or> fileSize < Offset st then 0 else Offset st) in
     if fileSize = offset then retA ([], offset, curInode)
     else bindA (ReadFrom F path curInode offset) (\<lambda>data. retA (data, offset, curInode)))"

definition pullFileChunk :: "'w logfs \<Rightarrow> 'w incus \<Rightarrow> string \<Rightarrow> string \<Rightarrow> logState \<Rightarrow> 'w \<Rightarrow> (string \<times> nat) option \<times> 'w" where
  "pullFileChunk F I c rel st w = (case CreateTemp F w of
     (Inl _, w1) \<Rightarrow> (None, w1)
   | (Inr tmp, w1) \<Rightarrow> (case IncusOutput I [''file'', ''pull'', c @ ''/'' @ rel, tmp] w1 of
       (Inl _, w2) \<Rightarrow> (None, RemoveTemp F tmp w2)
     | (Inr _, w2) \<Rightarrow> (case ReadTemp F tmp w2 of
         (Inl _, w3) \<Rightarrow> (None, RemoveTemp F tmp w3)
       | (Inr content, w3) \<Rightarrow>
           let offset = (if length content < Offset st then 0 else Offset st) in
           (Some (drop offset content, offset), RemoveTemp F tmp w3))))"

section \<open>One poll\<close>

definition parseAuthLogLine :: "'w logfs \<Rightarrow> string \<Rightarrow> string \<Rightarrow> 'w \<Rightarrow> ThreatEvent option \<times> 'w" where
  "parseAuthLogLine F logFile line w = (case matchLine line of
     None \<Rightarrow> (None, w)
   | Some p \<Rightarrow> (let (ts, w') = Clock F w in (Some (logThreat ts logFile line p), w')))"

definition trimEOL :: "string \<Rightarrow> string" where
  "trimEOL = trim_right {CHR 0x0D, LF}"

fun scanLog :: "'w logfs \<Rightarrow> string \<Rightarrow> string list \<Rightarrow> 'w \<Rightarrow> ThreatEvent list \<times> 'w" where
  "scanLog F logFile [] w = ([], w)"
| "scanLog F logFile (line # ls) w = (let t = trimEOL line in
     if t = [] then scanLog F logFile ls w
     else let (e, w1) = parseAuthLogLine F logFile t w; (es, w2) = scanLog F logFile ls w1 in
       (case e of None \<Rightarrow> es | Some x \<Rightarrow> x # es, w2))"

definition logFileOf :: "string \<Rightarrow> string" where
  "logFileOf rel = (case last_index rel (CHR ''/'') of None \<Rightarrow> rel | Some i \<Rightarrow> drop (i + 1) rel)"

text \<open>The new state, the error that is reported and the threats, for data read from \<open>base\<close> on.\<close>

definition consume :: "'w logfs \<Rightarrow> string \<Rightarrow> bool \<Rightarrow> string \<Rightarrow> nat \<Rightarrow> nat \<Rightarrow> 'w \<Rightarrow> (logState \<times> ThreatEvent list) \<times> 'w" where
  "consume F rel hostOK newData start ino w = (let st = (\<lambda>off. \<lparr>Offset = off, Inode = ino, UsingFallback = \<not> hostOK\<rparr>) in
     case last_index newData LF of
       None \<Rightarrow> ((st start, []), w)
     | Some lastNL \<Rightarrow> let (es, w') = scanLog F (logFileOf rel) (readLines (take (lastNL + 1) newData) []) w in
         ((st (start + (lastNL + 1)), es), w'))"

text \<open>The map of states is consulted with the zero state for a file that is not in it.\<close>

definition pollFile :: "'w logfs \<Rightarrow> 'w incus \<Rightarrow> string \<Rightarrow> string \<Rightarrow> (string \<rightharpoonup> logState) \<Rightarrow> int \<Rightarrow> 'w \<Rightarrow>
    ((string \<rightharpoonup> logState) \<times> gerr option \<times> ThreatEvent list) \<times> 'w" where
  "pollFile F I c rel states pid w = (let st = (case states rel of Some s \<Rightarrow> s | None \<Rightarrow> newLogState);
       (host, w1) = (if 0 < pid then readFileChunk F (''/proc/'' @ itoa_int pid @ ''/root/'' @ rel) st w
         else (Inl (ExtErr ''no pid''), w)) in
     case host of
       Inr (newData, start, ino) \<Rightarrow>
         (let ((st', es), w2) = consume F rel True newData start ino w1 in ((states(rel \<mapsto> st'), None, es), w2))
     | Inl _ \<Rightarrow>
         (let report = (if UsingFallback st then None else Some (Errorf
             ''logwatcher: host-side read unavailable for %s (pid=%d), falling back to incus file pull'' [rel, itoa_int pid])) in
          case pullFileChunk F I c rel st w1 of
            (None, w2) \<Rightarrow> ((states, report, []), w2)
          | (Some (newData, start), w2) \<Rightarrow>
              (let ((st', es), w3) = consume F rel False newData start (Inode st) w2 in
               ((states(rel \<mapsto> st'), report, es), w3))))"

section \<open>Every complete line is read exactly once\<close>

text \<open>What a file's lines give, clock aside: the patterns and lines of the threats.\<close>

definition lineHit :: "string \<Rightarrow> string \<Rightarrow> ThreatEvent list" where
  "lineHit logFile line = (let t = trimEOL line in if t = [] then [] else
     case matchLine t of None \<Rightarrow> [] | Some p \<Rightarrow> [logThreat 0 logFile t p])"

definition fileHits :: "string \<Rightarrow> string \<Rightarrow> ThreatEvent list" where
  "fileHits logFile text = concat (map (lineHit logFile) (readLines text []))"

definition untimed :: "ThreatEvent \<Rightarrow> ThreatEvent" where
  "untimed e = e\<lparr>teTimestamp := 0\<rparr>"

lemma untimed_logThreat [simp]: "untimed (logThreat ts f l p) = logThreat 0 f l p"
  by (simp add: untimed_def logThreat_def Let_def)

lemma scanLog_hits: "map untimed (fst (scanLog F f ls w)) = concat (map (lineHit f) ls)"
proof (induction ls arbitrary: w)
  case (Cons l ls)
  show ?case
  proof (cases "trimEOL l = [] \<or> matchLine (trimEOL l) = None")
    case True
    then have "fst (scanLog F f (l # ls) w) = fst (scanLog F f ls w)" "lineHit f l = []"
      by (auto simp: Let_def parseAuthLogLine_def lineHit_def split: prod.splits)
    with Cons.IH show ?thesis by simp
  next
    case False
    then obtain p where p: "matchLine (trimEOL l) = Some p" "trimEOL l \<noteq> []" by auto
    obtain ts w1 where c: "Clock F w = (ts, w1)" by fastforce
    have "fst (scanLog F f (l # ls) w) = logThreat ts f (trimEOL l) p # fst (scanLog F f ls w1)"
      using p c by (simp add: Let_def parseAuthLogLine_def split: prod.splits)
    with Cons.IH[of w1] p show ?thesis by (simp add: lineHit_def)
  qed
qed simp

lemma readLines_append: "readLines (a @ [LF] @ b) acc = readLines (a @ [LF]) acc @ readLines b []"
  by (induction a arbitrary: acc) simp_all

lemma readLines_none: "LF \<notin> set a \<Longrightarrow> readLines a acc = []"
  by (induction a arbitrary: acc) auto

text \<open>The length of a text up to its last newline.\<close>

definition clen :: "string \<Rightarrow> nat" where
  "clen s = (case last_index s LF of None \<Rightarrow> 0 | Some i \<Rightarrow> i + 1)"

lemma clen_cases: "clen s = 0 \<and> LF \<notin> set s \<or> (\<exists>a b. s = a @ [LF] @ b \<and> LF \<notin> set b \<and> clen s = length a + 1)"
proof (cases "last_index s LF")
  case None
  then have "clen s = 0" unfolding clen_def None by simp
  with None show ?thesis by (simp add: last_index_None)
next
  case (Some i)
  then have *: "i < length s" "s ! i = LF" "LF \<notin> set (drop (i + 1) s)" using last_index_Some by auto
  then have "s = take i s @ [LF] @ drop (i + 1) s" using id_take_nth_drop[OF *(1)] by simp
  with * Some have "s = take i s @ [LF] @ drop (i + 1) s \<and> LF \<notin> set (drop (i + 1) s) \<and> clen s = length (take i s) + 1"
    by (simp add: clen_def)
  then show ?thesis by blast
qed

lemma clen_le: "clen s \<le> length s"
  using clen_cases[of s] by auto

text \<open>A text that starts with the complete lines of another\<close>

lemma resume:
  assumes "\<exists>x. u = t @ x"
  shows "clen u = clen t + clen (drop (clen t) u)"
    "readLines u [] = readLines t [] @ readLines (drop (clen t) u) []"
proof -
  obtain x where u: "u = t @ x" using assms by auto
  have "clen u = clen t + clen (drop (clen t) u) \<and> readLines u [] = readLines t [] @ readLines (drop (clen t) u) []"
    using clen_cases[of t]
  proof
    assume "clen t = 0 \<and> LF \<notin> set t"
    then show ?thesis by (simp add: readLines_none)
  next
    assume "\<exists>a b. t = a @ [LF] @ b \<and> LF \<notin> set b \<and> clen t = length a + 1"
    then obtain a b where t: "t = a @ [LF] @ b" "LF \<notin> set b" "clen t = length a + 1" by blast
    have d: "drop (clen t) u = b @ x" by (simp only: t(3)) (simp add: t(1) u)
    have "last_index (a @ [LF] @ b @ x) LF = (case last_index (b @ x) LF of Some i \<Rightarrow> Some (length a + 1 + i) | None \<Rightarrow> Some (length a))"
      using last_index_append[of "a @ [LF]" "b @ x" LF] last_index_append[of a "[LF]" LF] by (simp split: option.splits)
    then have "clen u = length a + 1 + clen (b @ x)" by (simp add: clen_def t u split: option.splits)
    moreover have "readLines u [] = readLines (a @ [LF]) [] @ readLines (b @ x) []"
      using readLines_append[of a "b @ x" "[]"] by (simp add: t u)
    moreover have "readLines t [] = readLines (a @ [LF]) []"
      using readLines_append[of a b "[]"] t by (simp add: readLines_none)
    ultimately show ?thesis by (simp only: d) (simp add: t(3))
  qed
  then show "clen u = clen t + clen (drop (clen t) u)" "readLines u [] = readLines t [] @ readLines (drop (clen t) u) []"
    by blast+
qed

lemma readLines_complete: "readLines (take (clen s) s) [] = readLines s []"
  using clen_cases[of s]
proof
  assume "\<exists>a b. s = a @ [LF] @ b \<and> LF \<notin> set b \<and> clen s = length a + 1"
  then obtain a b where s: "s = a @ [LF] @ b" "LF \<notin> set b" "clen s = length a + 1" by blast
  then have "take (clen s) s = a @ [LF]" by simp
  with s readLines_append[of a b "[]"] show ?thesis by (simp add: readLines_none)
qed (simp add: readLines_none)

lemma consume_hits:
  assumes "consume F rel ok d start ino w = ((st, es), w')"
  shows "st = \<lparr>Offset = start + clen d, Inode = ino, UsingFallback = \<not> ok\<rparr>"
    "map untimed es = fileHits (logFileOf rel) d"
proof -
  have "st = \<lparr>Offset = start + clen d, Inode = ino, UsingFallback = \<not> ok\<rparr> \<and> map untimed es = fileHits (logFileOf rel) d"
  proof (cases "last_index d LF")
    case None
    have c: "clen d = 0" unfolding clen_def None by simp
    have "fileHits (logFileOf rel) d = []" using None by (simp add: fileHits_def last_index_None readLines_none)
    moreover have "st = \<lparr>Offset = start, Inode = ino, UsingFallback = \<not> ok\<rparr> \<and> es = []"
      using assms unfolding consume_def None by auto
    ultimately show ?thesis by (simp add: c)
  next
    case (Some i)
    then have c: "clen d = i + 1" by (simp add: clen_def)
    obtain es' w1 where s: "scanLog F (logFileOf rel) (readLines (take (i + 1) d) []) w = (es', w1)" by fastforce
    have "map untimed es' = fileHits (logFileOf rel) d"
      using scanLog_hits[of F "logFileOf rel" "readLines (take (i + 1) d) []" w] s readLines_complete[of d] c
      by (simp add: fileHits_def)
    with assms Some s c show ?thesis by (simp add: consume_def)
  qed
  then show "st = \<lparr>Offset = start + clen d, Inode = ino, UsingFallback = \<not> ok\<rparr>"
    "map untimed es = fileHits (logFileOf rel) d" by blast+
qed

text \<open>The file behind a path is read without an error; \<open>snap\<close> gives its inode and text.\<close>

definition serves :: "'w logfs \<Rightarrow> string \<Rightarrow> ('w \<Rightarrow> nat \<times> string) \<Rightarrow> bool" where
  "serves F path snap \<longleftrightarrow> (\<forall>w. StatLog F path w = (Inr (fst (snap w), length (snd (snap w))), w) \<and>
     (\<forall>off. ReadFrom F path (fst (snap w)) off w = (Inr (drop off (snd (snap w))), w)))"

text \<open>A file that is only appended to or replaced by one with another inode.\<close>

fun log_history :: "(nat \<times> string) list \<Rightarrow> bool" where
  "log_history [] = True"
| "log_history [(i, t)] = (i \<noteq> 0)"
| "log_history ((i, t) # (j, u) # ss) = (i \<noteq> 0 \<and> (i = j \<longrightarrow> prefix t u) \<and> log_history ((j, u) # ss))"

text \<open>The text of each file when it was seen last.\<close>

fun final_texts :: "(nat \<times> string) list \<Rightarrow> string list" where
  "final_texts [] = []"
| "final_texts [(i, t)] = [t]"
| "final_texts ((i, t) # (j, u) # ss) = (if i = j then [] else [t]) @ final_texts ((j, u) # ss)"

fun pollAll :: "'w logfs \<Rightarrow> 'w incus \<Rightarrow> string \<Rightarrow> string \<Rightarrow> (string \<rightharpoonup> logState) \<Rightarrow> int \<Rightarrow> 'w list \<Rightarrow> ThreatEvent list" where
  "pollAll F I c rel states pid [] = []"
| "pollAll F I c rel states pid (w # ws) = (let ((states', _, es), _) = pollFile F I c rel states pid w in
     es @ pollAll F I c rel states' pid ws)"

lemma readFileChunk_served:
  assumes "serves F path snap" and "snap w = (j, u)" and "j \<noteq> 0"
  shows "readFileChunk F path st w = (let off = (if Inode st \<noteq> 0 \<and> j \<noteq> Inode st \<or> length u < Offset st then 0 else Offset st) in
    (Inr (drop off u, off, j), w))"
proof -
  have "StatLog F path w = (Inr (j, length u), w)" "\<And>off. ReadFrom F path j off w = (Inr (drop off u), w)"
    using assms(1)[unfolded serves_def, rule_format, of w] assms(2) by simp_all
  then show ?thesis using assms(3) by (auto simp: readFileChunk_def bindA_def Let_def)
qed

lemma poll_served:
  assumes s: "serves F (''/proc/'' @ itoa_int pid @ ''/root/'' @ rel) snap" and "0 < pid" and w: "snap w = (j, u)" and j: "j \<noteq> 0"
    and st: "st = (case states rel of Some s \<Rightarrow> s | None \<Rightarrow> newLogState)"
    and off: "off = (if Inode st \<noteq> 0 \<and> j \<noteq> Inode st \<or> length u < Offset st then 0 else Offset st)"
  shows "\<exists>es w'. pollFile F I c rel states pid w =
      ((states(rel \<mapsto> \<lparr>Offset = off + clen (drop off u), Inode = j, UsingFallback = False\<rparr>), None, es), w') \<and>
    map untimed es = fileHits (logFileOf rel) (drop off u)"
proof -
  obtain st' es w' where c: "consume F rel True (drop off u) off j w = ((st', es), w')"
    by (metis prod.exhaust)
  have "pollFile F I c rel states pid w = ((states(rel \<mapsto> st'), None, es), w')"
    using readFileChunk_served[OF s w j, of st] c \<open>0 < pid\<close> st off by (simp add: pollFile_def Let_def)
  with consume_hits[OF c] show ?thesis by simp
qed

text \<open>After a poll of the text \<open>t\<close> of file \<open>i\<close>\<close>

definition tailed :: "logState \<Rightarrow> nat \<times> string \<Rightarrow> bool" where
  "tailed st s \<longleftrightarrow> Inode st = fst s \<and> Offset st = clen (snd s)"

lemma poll_step:
  assumes s: "serves F (''/proc/'' @ itoa_int pid @ ''/root/'' @ rel) snap" "0 < pid" and h: "log_history [(i, t), snap w]"
    and st: "states rel = Some st" "tailed st (i, t)"
  shows "\<exists>st' es w'. pollFile F I c rel states pid w = ((states(rel \<mapsto> st'), None, es), w') \<and> tailed st' (snap w) \<and>
    map untimed es = (if i = fst (snap w) then drop (length (fileHits (logFileOf rel) t)) (fileHits (logFileOf rel) (snd (snap w)))
      else fileHits (logFileOf rel) (snd (snap w))) \<and>
    (i = fst (snap w) \<longrightarrow> prefix (fileHits (logFileOf rel) t) (fileHits (logFileOf rel) (snd (snap w))))"
proof -
  obtain j u where w: "snap w = (j, u)" by fastforce
  with h have i: "i \<noteq> 0" "j \<noteq> 0" "i = j \<Longrightarrow> prefix t u" by simp_all
  define off where "off = (if Inode st \<noteq> 0 \<and> j \<noteq> Inode st \<or> length u < Offset st then 0 else Offset st)"
  obtain es w' where p: "pollFile F I c rel states pid w =
      ((states(rel \<mapsto> \<lparr>Offset = off + clen (drop off u), Inode = j, UsingFallback = False\<rparr>), None, es), w')"
    "map untimed es = fileHits (logFileOf rel) (drop off u)"
    using poll_served[OF s w i(2), where st = st and states = states and off = off and I = I and c = c] st(1) off_def by auto
  show ?thesis
  proof (cases "i = j")
    case True
    then obtain x where x: "u = t @ x" using i(3) by (auto simp: prefix_def)
    have off: "off = clen t" using st(2) True clen_le[of t] x by (simp add: off_def tailed_def)
    have r: "fileHits (logFileOf rel) u = fileHits (logFileOf rel) t @ fileHits (logFileOf rel) (drop off u)"
      using resume(2)[of u t] x by (simp add: fileHits_def off)
    have "clen u = off + clen (drop off u)" using resume(1)[of u t] x by (simp add: off)
    with p r True w show ?thesis
      by (intro exI[of _ "\<lparr>Offset = off + clen (drop off u), Inode = j, UsingFallback = False\<rparr>"] exI[of _ es] exI[of _ w'])
        (simp add: tailed_def)
  next
    case False
    then have "off = 0" using st(2) i by (auto simp: off_def tailed_def)
    with p False w show ?thesis
      by (intro exI[of _ "\<lparr>Offset = off + clen (drop off u), Inode = j, UsingFallback = False\<rparr>"] exI[of _ es] exI[of _ w'])
        (simp add: tailed_def)
  qed
qed

lemma polls_from:
  assumes s: "serves F (''/proc/'' @ itoa_int pid @ ''/root/'' @ rel) snap" "0 < pid"
  shows "log_history ((i, t) # map snap ws) \<Longrightarrow> states rel = Some st \<Longrightarrow> tailed st (i, t) \<Longrightarrow>
    fileHits (logFileOf rel) t @ map untimed (pollAll F I c rel states pid ws) =
    concat (map (fileHits (logFileOf rel)) (final_texts ((i, t) # map snap ws)))"
proof (induction ws arbitrary: i t states st)
  case (Cons w ws)
  obtain j u where w: "snap w = (j, u)" by fastforce
  have h: "log_history [(i, t), snap w]" "log_history ((j, u) # map snap ws)"
    using Cons.prems(1) w by (cases "map snap ws"; auto)+
  obtain st' es w' where p: "pollFile F I c rel states pid w = ((states(rel \<mapsto> st'), None, es), w')" "tailed st' (j, u)"
    and e: "map untimed es = (if i = j then drop (length (fileHits (logFileOf rel) t)) (fileHits (logFileOf rel) u)
      else fileHits (logFileOf rel) u)" "i = j \<Longrightarrow> prefix (fileHits (logFileOf rel) t) (fileHits (logFileOf rel) u)"
    using poll_step[of F pid rel snap i t w states st I c] s h(1) Cons.prems(2,3) w by auto
  have "fileHits (logFileOf rel) u @ map untimed (pollAll F I c rel (states(rel \<mapsto> st')) pid ws) =
      concat (map (fileHits (logFileOf rel)) (final_texts ((j, u) # map snap ws)))"
    by (rule Cons.IH[OF h(2) _ p(2)]) simp
  with p(1) e w show ?case by (auto simp: prefix_def)
qed simp

text \<open>C39. The log watcher reads every complete line exactly once. Let the host see the log file through \<open>/proc/<pid>/root\<close>
at any sequence of polls, and let the file between two polls only be appended to or be replaced by a file with another inode
(log rotation). Then the threats reported over all the polls, their time stamps aside, are those of the newline-terminated
lines each file had when it was last seen, each line once and in order, however the appends cut the lines.\<close>

theorem tail_exactly_once:
  assumes "serves F (''/proc/'' @ itoa_int pid @ ''/root/'' @ rel) snap" and "0 < pid" and "log_history (map snap ws)"
  shows "map untimed (pollAll F I c rel (\<lambda>_. None) pid ws) =
    concat (map (fileHits (logFileOf rel)) (final_texts (map snap ws)))"
proof (cases ws)
  case (Cons w ws')
  obtain j u where w: "snap w = (j, u)" by fastforce
  with assms(3) Cons have j: "j \<noteq> 0" by (cases "map snap ws'") auto
  obtain es w' where p: "pollFile F I c rel (\<lambda>_. None) pid w =
      (([rel \<mapsto> \<lparr>Offset = clen u, Inode = j, UsingFallback = False\<rparr>], None, es), w')" "map untimed es = fileHits (logFileOf rel) u"
    using poll_served[OF assms(1,2) w j, of newLogState "\<lambda>_. None" 0 I c] by (auto simp: newLogState_def)
  have "fileHits (logFileOf rel) u @ map untimed (pollAll F I c rel [rel \<mapsto> \<lparr>Offset = clen u, Inode = j, UsingFallback = False\<rparr>] pid ws') =
      concat (map (fileHits (logFileOf rel)) (final_texts ((j, u) # map snap ws')))"
    using polls_from[OF assms(1,2), where i = j and t = u and ws = ws' and I = I and c = c] assms(3) Cons w by (simp add: tailed_def)
  with p Cons w show ?thesis by simp
qed simp

definition textLog :: "(nat \<times> string) logfs" where
  "textLog = \<lparr>StatLog = (\<lambda>_ w. (Inr (fst w, length (snd w)), w)), ReadFrom = (\<lambda>_ _ off w. (Inr (drop off (snd w)), w)),
     CreateTemp = (\<lambda>w. (Inr ''/tmp/coi-log-1'', w)), ReadTemp = (\<lambda>_ w. (Inr (snd w), w)), RemoveTemp = (\<lambda>_ w. w),
     Clock = (\<lambda>w. (0, w))\<rparr>"

definition textIncus :: "(nat \<times> string) incus" where
  "textIncus = \<lparr>IncusProject = ''default'', CodeUID = 1000, HostUID = 1000,
     Sh = (\<lambda>_ w. (\<lparr>shOut = [], shErr = [], shAll = [], shStatus = Finished\<rparr>, w)), Now = (\<lambda>_. 0), Sleep = (\<lambda>_ w. w)\<rparr>"

lemma tail_exactly_once_witness:
  "map untimed (pollAll textLog textIncus ''coi-1'' ''var/log/auth.log'' (\<lambda>_. None) 42
      [(7, ''failed su for''), (7, ''failed su for root'' @ [LF] @ ''sud''), (9, ''failed su for x'' @ [LF])]) =
    fileHits (logFileOf ''var/log/auth.log'') (''failed su for root'' @ [LF] @ ''sud'') @
    fileHits (logFileOf ''var/log/auth.log'') (''failed su for x'' @ [LF])"
  using tail_exactly_once[where F = textLog and snap = "\<lambda>w. w" and pid = 42 and rel = "''var/log/auth.log''" and I = textIncus
      and c = "''coi-1''" and ws = "[(7, ''failed su for''), (7, ''failed su for root'' @ [LF] @ ''sud''), (9, ''failed su for x'' @ [LF])]"]
  by (simp add: serves_def textLog_def prefix_def)

end
