(* ===== verification/MonWatch.thy ===== *)
theory MonWatch
  imports MonLog MonDecode MonDetector MonSigma
begin

text \<open>
  What the monitor does with the events of the kernel: executed programs and changes to root
  (\<open>internal/monitor/procwatcher.go\<close>) and accesses to sensitive files (\<open>internal/monitor/filewatcher.go\<close>).
  The host's \<open>/proc\<close>, the fanotify calls and the clock are parameters; a number out of the range of an
  \<open>int\<close>, which the kernel does not write, counts as no number. The callback for threats is the list
  that is returned.
\<close>

section \<open>Executed programs\<close>

record 'w exechost =
  Host :: "'w procfs"
  ReadLink :: "string \<Rightarrow> ('w, string) act"
  TimeNow :: "'w \<Rightarrow> int \<times> 'w"

definition procInContainerCgroup :: "'w procfs \<Rightarrow> int \<Rightarrow> string \<Rightarrow> 'w \<Rightarrow> bool \<times> 'w" where
  "procInContainerCgroup P pid relCgroup w = (case ReadFile P (''/proc/'' @ itoa_int pid @ ''/cgroup'') w of
     (Inl _, w') \<Rightarrow> (False, w')
   | (Inr text, w') \<Rightarrow> (processBelongsToContainerCgroup text relCgroup, w'))"

definition procReadCmdline :: "'w procfs \<Rightarrow> int \<Rightarrow> 'w \<Rightarrow> string \<times> 'w" where
  "procReadCmdline P pid w = (case ReadFile P (''/proc/'' @ itoa_int pid @ ''/cmdline'') w of
     (Inl _, w') \<Rightarrow> ([], w')
   | (Inr text, w') \<Rightarrow> (trim_right {CHR '' ''} (map (\<lambda>c. if c = CHR 0x00 then CHR '' '' else c) text), w'))"

definition procReadExe :: "'w exechost \<Rightarrow> int \<Rightarrow> 'w \<Rightarrow> string \<times> 'w" where
  "procReadExe H pid w = (if pid \<le> 0 then ([], w) else case ReadLink H (''/proc/'' @ itoa_int pid @ ''/exe'') w of
     (Inl _, w') \<Rightarrow> ([], w') | (Inr exe, w') \<Rightarrow> (exe, w'))"

fun ppidOf :: "string list \<Rightarrow> int" where
  "ppidOf [] = 0"
| "ppidOf (line # ls) = (let fs = str_fields line in
     if has_prefix line ''PPid:'' \<and> 2 \<le> length fs then (case atoi (fs ! 1) of Some n \<Rightarrow> n | None \<Rightarrow> 0) else ppidOf ls)"

definition procReadPPID :: "'w procfs \<Rightarrow> int \<Rightarrow> 'w \<Rightarrow> int \<times> 'w" where
  "procReadPPID P pid w = (case ReadFile P (''/proc/'' @ itoa_int pid @ ''/status'') w of
     (Inl _, w') \<Rightarrow> (0, w') | (Inr text, w') \<Rightarrow> (ppidOf (str_split text [LF]), w'))"

definition procThreat :: "int \<Rightarrow> ThreatLevel \<Rightarrow> string \<Rightarrow> string \<Rightarrow> int \<Rightarrow> string \<Rightarrow> string \<Rightarrow> ThreatEvent" where
  "procThreat ts level title what pid cmd pattern = \<lparr>teTimestamp = ts, Level = level, Category = ''proc_event'', Title = title,
     teDescription = ''Process (PID '' @ itoa_int pid @ '') '' @ what @ '': '' @ truncateToRunes cmd 200,
     teEvidence = EvProcEvent \<lparr>pePID = pid, peCommand = truncateToRunes cmd 300, pePattern = pattern\<rparr>, Action = ''pending''\<rparr>"

definition execThreat :: "int \<Rightarrow> int \<Rightarrow> string \<Rightarrow> string \<Rightarrow> ThreatEvent" where
  "execThreat ts pid cmd pattern = procThreat ts High ''Suspicious process execution detected''
     (''matched suspicious exec pattern '' @ quoteText pattern) pid cmd pattern"

definition sigmaThreat :: "int \<Rightarrow> int \<Rightarrow> string \<Rightarrow> sigmaPattern \<Rightarrow> ThreatEvent" where
  "sigmaThreat ts pid cmd sp = procThreat ts (if sLevel sp = ''critical'' then Critical else High)
     (''Sigma rule matched: '' @ sTitle sp) (''matched Sigma rule '' @ quoteText (sTitle sp)) pid cmd (sTitle sp)"

definition rootThreat :: "int \<Rightarrow> int \<Rightarrow> string \<Rightarrow> ThreatEvent" where
  "rootThreat ts pid cmd = procThreat ts High ''Process privilege escalation to root detected''
     ''changed effective UID to root'' pid cmd ''uid-to-root''"

definition sigmaMatch :: "'w exechost \<Rightarrow> sigmaPattern list \<Rightarrow> int \<Rightarrow> string \<Rightarrow> 'w \<Rightarrow> ThreatEvent list \<times> 'w" where
  "sigmaMatch H sigmas pid cmd w = (if sigmas = [] then ([], w) else
     let (ppid, w1) = procReadPPID (Host H) pid w; (img, w2) = procReadExe H pid w1;
         (parentImage, w3) = procReadExe H ppid w2; (parentCmdline, w4) = procReadCmdline (Host H) ppid w3 in
     case find (matchSigmaPattern img cmd parentImage parentCmdline) sigmas of
       None \<Rightarrow> ([], w4)
     | Some sp \<Rightarrow> let (ts, w5) = TimeNow H w4 in ([sigmaThreat ts pid cmd sp], w5))"

definition handleExec :: "'w exechost \<Rightarrow> execPattern list \<Rightarrow> sigmaPattern list \<Rightarrow> int \<Rightarrow> string \<Rightarrow> 'w \<Rightarrow> ThreatEvent list \<times> 'w" where
  "handleExec H pats sigmas pid relCgroup w = (let (inside, w1) = procInContainerCgroup (Host H) pid relCgroup w in
     if \<not> inside then ([], w1) else
     let (cmd, w2) = procReadCmdline (Host H) pid w1 in
     if cmd = [] then ([], w2) else
     let pattern = matchSuspiciousExec cmd pats;
         (e1, w3) = (if pattern = [] then ([], w2) else let (ts, w') = TimeNow H w2 in ([execThreat ts pid cmd pattern], w'));
         (e2, w4) = sigmaMatch H sigmas pid cmd w3 in
     (e1 @ e2, w4))"

definition handleUIDToRoot :: "'w exechost \<Rightarrow> int \<Rightarrow> string \<Rightarrow> 'w \<Rightarrow> ThreatEvent list \<times> 'w" where
  "handleUIDToRoot H pid relCgroup w = (let (inside, w1) = procInContainerCgroup (Host H) pid relCgroup w in
     if \<not> inside then ([], w1) else
     let (cmd, w2) = procReadCmdline (Host H) pid w1; (ts, w3) = TimeNow H w2 in ([rootThreat ts pid cmd], w3))"

fun dispatch :: "'w exechost \<Rightarrow> execPattern list \<Rightarrow> sigmaPattern list \<Rightarrow> string \<Rightarrow> procEvent list \<Rightarrow> 'w \<Rightarrow> ThreatEvent list \<times> 'w" where
  "dispatch H pats sigmas relCgroup [] w = ([], w)"
| "dispatch H pats sigmas relCgroup (e # es) w = (let
     (ts1, w1) = (case e of ExecEv pid \<Rightarrow> handleExec H pats sigmas (int pid) relCgroup w
       | RootEv pid \<Rightarrow> handleUIDToRoot H (int pid) relCgroup w);
     (ts2, w2) = dispatch H pats sigmas relCgroup es w1 in (ts1 @ ts2, w2))"

text \<open>A process outside the container's cgroup never raises an alarm, one event at most two.\<close>

lemma outside_silent:
  assumes "ReadFile (Host H) (''/proc/'' @ itoa_int pid @ ''/cgroup'') w = (Inr text, w')"
    and "\<not> processBelongsToContainerCgroup text relCgroup"
  shows "fst (handleExec H pats sigmas pid relCgroup w) = []" "fst (handleUIDToRoot H pid relCgroup w) = []"
  using assms by (simp_all add: handleExec_def handleUIDToRoot_def procInContainerCgroup_def)

lemma exec_alarms: "length (fst (handleExec H pats sigmas pid relCgroup w)) \<le> 2"
proof -
  obtain inside w1 where 1: "procInContainerCgroup (Host H) pid relCgroup w = (inside, w1)" by fastforce
  obtain cmd w2 where 2: "procReadCmdline (Host H) pid w1 = (cmd, w2)" by fastforce
  obtain ts w3 where 3: "TimeNow H w2 = (ts, w3)" by fastforce
  have s: "length (fst (sigmaMatch H sigmas pid cmd w')) \<le> 1" for w'
    by (simp add: sigmaMatch_def Let_def split: option.split prod.split)
  show ?thesis using s[of w2] s[of w3] by (auto simp: handleExec_def Let_def 1 2 3 split: prod.splits)
qed

section \<open>Sensitive files\<close>

record monitoredFile =
  mfRel :: string
  OpenLevel :: "ThreatLevel option"
  WriteLevel :: "ThreatLevel option"
  mfCategory :: string
  OpenTitle :: string
  OpenDesc :: string
  WriteTitle :: string
  WriteDesc :: string

definition sshKey :: "string \<Rightarrow> string \<Rightarrow> monitoredFile" where
  "sshKey file kind = \<lparr>mfRel = ''root/.ssh/'' @ file, OpenLevel = Some High, WriteLevel = None, mfCategory = ''credential_access'',
     OpenTitle = ''Root SSH '' @ kind @ '' private key read'',
     OpenDesc = ''A process opened the root account'' @ [CHR 0x27] @ ''s '' @ kind @ '' private key'', WriteTitle = [], WriteDesc = []\<rparr>"

definition persistence :: "string \<Rightarrow> ThreatLevel \<Rightarrow> string \<Rightarrow> string \<Rightarrow> monitoredFile" where
  "persistence rel level title desc = \<lparr>mfRel = rel, OpenLevel = None, WriteLevel = Some level, mfCategory = ''persistence'',
     OpenTitle = [], OpenDesc = [], WriteTitle = title, WriteDesc = desc\<rparr>"

definition sensitiveFiles :: "monitoredFile list" where
  "sensitiveFiles = [
    \<lparr>mfRel = ''etc/shadow'', OpenLevel = Some High, WriteLevel = Some Critical, mfCategory = ''credential_access'',
     OpenTitle = ''Shadow password file read'', OpenDesc = ''A process opened /etc/shadow which contains hashed passwords'',
     WriteTitle = ''Shadow password file modified'',
     WriteDesc = ''A process wrote to /etc/shadow, potentially adding or changing a password hash''\<rparr>,
    \<lparr>mfRel = ''etc/gshadow'', OpenLevel = Some High, WriteLevel = Some High, mfCategory = ''credential_access'',
     OpenTitle = ''Group shadow file read'', OpenDesc = ''A process opened /etc/gshadow which contains group password hashes'',
     WriteTitle = ''Group shadow file modified'', WriteDesc = ''A process wrote to /etc/gshadow''\<rparr>,
    sshKey ''id_rsa'' ''RSA'', sshKey ''id_ecdsa'' ''ECDSA'', sshKey ''id_ed25519'' ''Ed25519'', sshKey ''id_dsa'' ''DSA'',
    persistence ''etc/passwd'' High ''Passwd file modified'' ''A process wrote to /etc/passwd, potentially adding a backdoor account'',
    persistence ''etc/sudoers'' Critical ''Sudoers file modified'' ''A process wrote to /etc/sudoers which controls privileged command access'',
    persistence ''root/.ssh/authorized_keys'' Critical ''Root authorized_keys modified''
      (''A process wrote to root'' @ [CHR 0x27] @ ''s authorized_keys, potentially adding a backdoor SSH key''),
    persistence ''etc/crontab'' High ''Crontab modified'' ''A process wrote to /etc/crontab, potentially adding a persistent scheduled task'',
    persistence ''root/.bashrc'' High ''Root .bashrc modified''
      (''A process wrote to root'' @ [CHR 0x27] @ ''s .bashrc, potentially adding persistent shell commands''),
    persistence ''root/.profile'' High ''Root .profile modified'' (''A process wrote to root'' @ [CHR 0x27] @ ''s .profile''),
    persistence ''root/.bash_profile'' High ''Root .bash_profile modified'' (''A process wrote to root'' @ [CHR 0x27] @ ''s .bash_profile'')]"

text \<open>The bits of fanotify masks: close after write, open, delete and move of the file itself.\<close>

definition FAN_CLOSE_WRITE :: nat where "FAN_CLOSE_WRITE = 0x8"
definition FAN_OPEN :: nat where "FAN_OPEN = 0x20"
definition FAN_DELETE_SELF :: nat where "FAN_DELETE_SELF = 0x400"
definition FAN_MOVE_SELF :: nat where "FAN_MOVE_SELF = 0x800"

definition has_flag :: "nat \<Rightarrow> nat \<Rightarrow> bool" where
  "has_flag m f \<longleftrightarrow> odd (m div f)"

record 'w fanhost =
  Mark :: "nat \<Rightarrow> string \<Rightarrow> ('w, unit) act"
  StatKey :: "string \<Rightarrow> ('w, nat \<times> nat) act"
  FstatKey :: "int \<Rightarrow> ('w, nat \<times> nat) act"
  CloseFd :: "int \<Rightarrow> 'w \<Rightarrow> 'w"
  SelfPID :: int
  FanTime :: "'w \<Rightarrow> int \<times> 'w"

type_synonym inodeMap = "nat \<times> nat \<rightharpoonup> monitoredFile"

text \<open>No grace time was set yet in \<open>None\<close>, the zero time.\<close>

record fileWatch =
  LastPID :: int
  Inodes :: inodeMap
  GraceUntil :: "int option"

definition markMask :: "monitoredFile \<Rightarrow> nat" where
  "markMask sf = FAN_DELETE_SELF + FAN_MOVE_SELF + (if OpenLevel sf \<noteq> None then FAN_OPEN else 0) +
     (if WriteLevel sf \<noteq> None then FAN_CLOSE_WRITE else 0)"

fun markList :: "'w fanhost \<Rightarrow> int \<Rightarrow> monitoredFile list \<Rightarrow> inodeMap \<Rightarrow> 'w \<Rightarrow> inodeMap \<times> 'w" where
  "markList H pid [] m w = (m, w)"
| "markList H pid (sf # sfs) m w = (let hostPath = ''/proc/'' @ itoa_int pid @ ''/root/'' @ mfRel sf in
     case Mark H (markMask sf) hostPath w of
       (Inl _, w1) \<Rightarrow> markList H pid sfs m w1
     | (Inr _, w1) \<Rightarrow> (case StatKey H hostPath w1 of
         (Inl _, w2) \<Rightarrow> markList H pid sfs m w2
       | (Inr k, w2) \<Rightarrow> markList H pid sfs (m(k \<mapsto> sf)) w2))"

definition markFiles :: "'w fanhost \<Rightarrow> int \<Rightarrow> 'w \<Rightarrow> inodeMap \<times> 'w" where
  "markFiles H pid = markList H pid sensitiveFiles Map.empty"

definition seconds :: "int \<Rightarrow> int" where "seconds n = n * 1000000000"

text \<open>The start and each tick of the backstop; \<open>pid\<close> is what \<open>GetContainerInitPID\<close> gave, 0 after an error.\<close>

definition startWatch :: "'w fanhost \<Rightarrow> int \<Rightarrow> 'w \<Rightarrow> fileWatch \<times> 'w" where
  "startWatch H pid w = (if 0 < pid then
       let (m, w1) = markFiles H pid w; (t, w2) = FanTime H w1 in
       (\<lparr>LastPID = pid, Inodes = m, GraceUntil = Some (t + seconds 30)\<rparr>, w2)
     else (\<lparr>LastPID = 0, Inodes = Map.empty, GraceUntil = None\<rparr>, w))"

definition backstop :: "'w fanhost \<Rightarrow> fileWatch \<Rightarrow> int \<Rightarrow> 'w \<Rightarrow> fileWatch \<times> 'w" where
  "backstop H st pid w = (if pid \<le> 0 then (st, w) else
     let (m, w1) = markFiles H pid w in
     if pid \<noteq> LastPID st then
       let (t, w2) = FanTime H w1 in (\<lparr>LastPID = pid, Inodes = m, GraceUntil = Some (t + seconds 30)\<rparr>, w2)
     else (st\<lparr>Inodes := Inodes st ++ m\<rparr>, w1))"

definition fire :: "'w fanhost \<Rightarrow> ThreatLevel \<Rightarrow> string \<Rightarrow> string \<Rightarrow> string \<Rightarrow> string \<Rightarrow> string \<Rightarrow> int \<Rightarrow> 'w \<Rightarrow> ThreatEvent \<times> 'w" where
  "fire H level category title desc rel acc pid w = (let (ts, w') = FanTime H w in
     (\<lparr>teTimestamp = ts, Level = level, Category = category, Title = title,
       teDescription = desc @ '' (path: '' @ rel @ '', host pid: '' @ itoa_int pid @ '')'',
       teEvidence = EvSensitiveFile \<lparr>sfPath = rel, Access = acc, sfPid = pid\<rparr>, Action = []\<rparr>, w'))"

definition fireIf :: "'w fanhost \<Rightarrow> bool \<Rightarrow> ThreatLevel option \<Rightarrow> string \<Rightarrow> string \<Rightarrow> string \<Rightarrow> string \<Rightarrow> string \<Rightarrow> int \<Rightarrow> 'w \<Rightarrow> ThreatEvent list \<times> 'w" where
  "fireIf H b level category title desc rel acc pid w = (case level of
     Some l \<Rightarrow> if b then (let (e, w') = fire H l category title desc rel acc pid w in ([e], w')) else ([], w)
   | None \<Rightarrow> ([], w))"

definition handleFan :: "'w fanhost \<Rightarrow> fileWatch \<Rightarrow> rawFanEvent \<Rightarrow> 'w \<Rightarrow> (fileWatch \<times> ThreatEvent list) \<times> 'w" where
  "handleFan H st ev w = (
     if feFd ev < 0 then ((st, []), w)
     else if fePid ev = SelfPID H then ((st, []), CloseFd H (feFd ev) w)
     else let (t, w1) = FanTime H w in
     if (case GraceUntil st of Some g \<Rightarrow> t < g | None \<Rightarrow> False) then ((st, []), CloseFd H (feFd ev) w1)
     else let (r, w2) = FstatKey H (feFd ev) w1; w3 = CloseFd H (feFd ev) w2 in
     case r of Inl _ \<Rightarrow> ((st, []), w3) | Inr k \<Rightarrow> (case Inodes st k of
       None \<Rightarrow> ((st, []), w3)
     | Some f \<Rightarrow>
        if has_flag (feMask ev) FAN_DELETE_SELF \<or> has_flag (feMask ev) FAN_MOVE_SELF then
          ((st\<lparr>Inodes := (Inodes st)(k := None)\<rparr>, []), w3)
        else
          let (e1, w4) = fireIf H (has_flag (feMask ev) FAN_OPEN) (OpenLevel f) (mfCategory f) (OpenTitle f) (OpenDesc f) (mfRel f) ''read'' (fePid ev) w3;
              (e2, w5) = fireIf H (has_flag (feMask ev) FAN_CLOSE_WRITE) (WriteLevel f) (mfCategory f) (WriteTitle f) (WriteDesc f) (mfRel f) ''write'' (fePid ev) w4 in
          ((st, e1 @ e2), w5)))"

end
