(* ===== verification/MonResponder.thy ===== *)
theory MonResponder
  imports MonTypes Hosts IncusLaunch "HOL-Library.AList"
begin

text \<open>
  The responder, \<open>internal/monitor/responder.go\<close>: what is done about a threat (nothing, a record, an alert, a
  pause, a kill), with the suppression of repeated threats. The audit log's write, the callbacks and the
  clock are parameters; a callback that is not set does nothing. The daemon calls \<open>Handle\<close> from one
  goroutine, so the mutex is left out.
\<close>

section \<open>State\<close>

record 'w respenv =
  RIncus :: "'w incus"
  RNet :: "'w netenv"
  RContainers :: "'w ctenv"
  RClock :: "'w \<Rightarrow> int \<times> 'w"
  AuditThreat :: "(ThreatEvent \<Rightarrow> ('w, unit) act) option"
  OnThreat :: "ThreatEvent \<Rightarrow> 'w \<Rightarrow> 'w"
  OnAction :: "string \<Rightarrow> string \<Rightarrow> 'w \<Rightarrow> 'w"
  OnError :: "gerr \<Rightarrow> 'w \<Rightarrow> 'w"

record Responder =
  rName :: string
  AutoPauseOnHigh :: bool
  AutoKillOnCritical :: bool
  isPaused :: bool
  isKilled :: bool
  recentThreats :: "(string \<times> int) list"

definition NewResponder :: "string \<Rightarrow> bool \<Rightarrow> bool \<Rightarrow> Responder" where
  "NewResponder c p k = \<lparr>rName = c, AutoPauseOnHigh = p, AutoKillOnCritical = k, isPaused = False, isKilled = False,
     recentThreats = []\<rparr>"

definition dedupeWindow :: int where "dedupeWindow = 30 * 1000000000"

section \<open>Repeated threats\<close>

definition threatKey :: "ThreatEvent \<Rightarrow> string" where
  "threatKey t = (let s = evidence_text (teEvidence t) in
     Category t @ '':'' @ Title t @ (if s = [] then [] else '':'' @ s))"

datatype verdict = Deduplicated | Fresh bool

text \<open>The part of \<open>Handle\<close> under the lock; \<open>Fresh\<close> tells whether the container was paused already.\<close>

definition cleanRecent :: "int \<Rightarrow> (string \<times> int) list \<Rightarrow> (string \<times> int) list" where
  "cleanRecent now m = (if 100 < length m then filter (\<lambda>(_, ts). now - ts \<le> dedupeWindow * 2) m else m)"

definition register_threat :: "Responder \<Rightarrow> int \<Rightarrow> ThreatEvent \<Rightarrow> verdict \<times> Responder" where
  "register_threat R now t = (let key = threatKey t; fresh = (Fresh (isPaused R),
       R\<lparr>recentThreats := cleanRecent now (AList.update key now (recentThreats R))\<rparr>) in
     case map_of (recentThreats R) key of
       Some lastSeen \<Rightarrow> if now - lastSeen < dedupeWindow then (Deduplicated, R) else fresh
     | None \<Rightarrow> fresh)"

section \<open>Reactions\<close>

datatype reaction = Logged | Alerted | AlreadyPaused | Pause | Kill

definition reaction :: "Responder \<Rightarrow> bool \<Rightarrow> ThreatLevel \<Rightarrow> reaction" where
  "reaction R alreadyPaused l = (case l of
     Info \<Rightarrow> Logged
   | Warning \<Rightarrow> Alerted
   | High \<Rightarrow> if AutoPauseOnHigh R then if alreadyPaused then AlreadyPaused else Pause else Alerted
   | Critical \<Rightarrow> if AutoKillOnCritical R then Kill else Alerted)"

fun reaction_text :: "reaction \<Rightarrow> string" where
  "reaction_text Logged = ''logged''" | "reaction_text Alerted = ''alerted''"
| "reaction_text AlreadyPaused = ''logged (already paused)''" | "reaction_text Pause = ''paused''" | "reaction_text Kill = ''killed''"

definition alerting :: "reaction \<Rightarrow> bool" where
  "alerting a \<longleftrightarrow> a \<in> {Alerted, Pause, Kill}"

definition logThreat_to :: "'w respenv \<Rightarrow> ThreatEvent \<Rightarrow> ('w, unit) act" where
  "logThreat_to N t = (case AuditThreat N of Some f \<Rightarrow> f t | None \<Rightarrow> retA ())"

definition pauseContainer :: "'w respenv \<Rightarrow> Responder \<Rightarrow> 'w \<Rightarrow> (unit result \<times> Responder) \<times> 'w" where
  "pauseContainer N R w = (if isPaused R then ((Inr (), R), w) else
     case IncusOutputWithStderr (RIncus N) [''pause'', rName R] w of
       ((out, Some e), w1) \<Rightarrow> (let errStr = err_text e @ '' '' @ out in
          if str_contains errStr ''already frozen'' \<or> str_contains errStr ''already paused''
          then ((Inr (), R\<lparr>isPaused := True\<rparr>), w1)
          else ((Inl (Wrapf ''failed to pause container'' e), R), w1))
     | ((out, None), w1) \<Rightarrow> ((Inr (), R\<lparr>isPaused := True\<rparr>), OnAction N ''paused'' (''Container '' @ rName R @
          '' PAUSED due to security threat. Unfreeze with: coi unfreeze '' @ rName R) w1))"

definition GetContainerIPFast :: "'w ctenv \<Rightarrow> string \<Rightarrow> ('w, string) act" where
  "GetContainerIPFast C name = GetContainerIPWithRetries C name 3 (ExtErr [])"

definition reporting :: "'w respenv \<Rightarrow> string \<Rightarrow> ('w, unit) act \<Rightarrow> 'w \<Rightarrow> 'w" where
  "reporting N ctxt m w = (case m w of (Inl e, w') \<Rightarrow> OnError N (Wrapf ctxt e) w' | (Inr _, w') \<Rightarrow> w')"

definition cleanupRules :: "'w respenv \<Rightarrow> string \<Rightarrow> 'w \<Rightarrow> 'w" where
  "cleanupRules N ip w = (if ip = [] then w else
     reporting N ''failed to cleanup NFT monitoring rules'' (CleanupNFTMonitoringRules (RNet N) ip)
       (reporting N ''failed to cleanup nft rules'' (RemoveRules (RNet N) (NewNftManager ip [])) w))"

definition killContainer :: "'w respenv \<Rightarrow> Responder \<Rightarrow> 'w \<Rightarrow> (unit result \<times> Responder) \<times> 'w" where
  "killContainer N R w = (if isKilled R then ((Inr (), R), w) else
     let w1 = OnAction N ''killed'' (''Container '' @ rName R @ '' KILLED due to critical security threat'') w;
         (r, w2) = GetContainerIPFast (RContainers N) (rName R) w1;
         ip = (case r of Inr ip \<Rightarrow> ip | Inl _ \<Rightarrow> []) in
     case StopContainerQuiet (RIncus N) (rName R) True w2 of
       ((_, Some e), w3) \<Rightarrow> ((Inl (Wrapf ''failed to stop container'' e), R), w3)
     | ((_, None), w3) \<Rightarrow> (case IncusOutput (RIncus N) [''delete'', rName R] (cleanupRules N ip w3) of
         (Inl e, w4) \<Rightarrow> ((Inl (Wrapf ''failed to delete container'' e), R), w4)
       | (Inr _, w4) \<Rightarrow> ((Inr (), R\<lparr>isKilled := True\<rparr>), w4)))"

definition respond :: "'w respenv \<Rightarrow> Responder \<Rightarrow> bool \<Rightarrow> ThreatEvent \<Rightarrow> 'w \<Rightarrow> (unit result \<times> Responder) \<times> 'w" where
  "respond N R alreadyPaused t w = (let a = reaction R alreadyPaused (Level t); t' = t\<lparr>Action := reaction_text a\<rparr>;
       w1 = (if alerting a then OnThreat N t' w else w) in
     case logThreat_to N t' w1 of
       (Inl e, w2) \<Rightarrow> ((Inl e, R), w2)
     | (Inr _, w2) \<Rightarrow> if a = Pause then pauseContainer N R w2 else if a = Kill then killContainer N R w2
         else ((Inr (), R), w2))"

definition Handle :: "'w respenv \<Rightarrow> Responder \<Rightarrow> ThreatEvent \<Rightarrow> 'w \<Rightarrow> (unit result \<times> Responder) \<times> 'w" where
  "Handle N R t w = (if isKilled R then ((Inr (), R), w) else
     let (now, w1) = RClock N w in
     case register_threat R now t of
       (Deduplicated, R') \<Rightarrow> (case logThreat_to N (t\<lparr>Action := ''deduplicated''\<rparr>) w1 of (r, w2) \<Rightarrow> ((r, R'), w2))
     | (Fresh alreadyPaused, R') \<Rightarrow> respond N R' alreadyPaused t w1)"

text \<open>Threats handled one after the other; between two the world may change, as each \<open>e\<close> tells.\<close>

fun handleAll :: "'w respenv \<Rightarrow> Responder \<Rightarrow> (ThreatEvent \<times> ('w \<Rightarrow> 'w)) list \<Rightarrow> 'w \<Rightarrow> Responder \<times> 'w" where
  "handleAll N R [] w = (R, w)"
| "handleAll N R ((t, e) # hs) w = (let ((_, R'), w') = Handle N R t w in handleAll N R' hs (e w'))"

section \<open>What the responder does to the container\<close>

definition pauseCmd :: "'w incus \<Rightarrow> string \<Rightarrow> string" where
  "pauseCmd I c = buildIncusCommand I [''pause'', c]"

definition stopCmd :: "'w incus \<Rightarrow> string \<Rightarrow> string" where
  "stopCmd I c = buildIncusCommand I [''stop'', c, ''--force'']"

definition deleteCmd :: "'w incus \<Rightarrow> string \<Rightarrow> string" where
  "deleteCmd I c = buildIncusCommand I [''delete'', c]"

lemma cmds_distinct: "pauseCmd I c \<noteq> stopCmd I c" "pauseCmd I c \<noteq> deleteCmd I c" "stopCmd I c \<noteq> deleteCmd I c"
  by (simp_all add: pauseCmd_def stopCmd_def deleteCmd_def buildIncusCommand_def shellQuote_def shell_plain_def)

text \<open>
  An observation of the world that records the pauses, stops and deletions of the container with their
  outcomes; the clock, the callbacks, the audit log, nft and the look-up of the address do not run such commands.
\<close>

definition observed :: "'w respenv \<Rightarrow> string \<Rightarrow> ('w \<Rightarrow> (string \<times> shres) list) \<Rightarrow> bool" where
  "observed N c Log \<longleftrightarrow>
     (\<forall>cmd \<in> {pauseCmd (RIncus N) c, stopCmd (RIncus N) c, deleteCmd (RIncus N) c}. \<forall>w.
        Log (snd (Sh (RIncus N) cmd w)) = Log w @ [(cmd, fst (Sh (RIncus N) cmd w))]) \<and>
     (\<forall>w. Log (snd (RClock N w)) = Log w) \<and> (\<forall>f t w. AuditThreat N = Some f \<longrightarrow> Log (snd (f t w)) = Log w) \<and>
     (\<forall>t w. Log (OnThreat N t w) = Log w) \<and> (\<forall>a m w. Log (OnAction N a m w) = Log w) \<and>
     (\<forall>e w. Log (OnError N e w) = Log w) \<and> (\<forall>args w. Log (snd (nft_cmd (RNet N) args w)) = Log w) \<and>
     (\<forall>n w. Log (snd (getContainerIPOnce (RContainers N) n w)) = Log w)"

lemma removal_quiet:
  assumes "\<And>args w. Log (snd (nft_cmd E args w)) = Log w"
  shows "keeps (\<lambda>w. Log w = L) (CleanupNFTMonitoringRules E ip)" "keeps (\<lambda>w. Log w = L) (RemoveRules E f)"
proof -
  have n: "keeps (\<lambda>w. Log w = L) (nft_cmd E args)" for args
    using assms[of args] by (auto simp: keeps_def)
  have r: "keeps (\<lambda>w. Log w = L) (runNFTCommand E args)" for args
    unfolding runNFTCommand_def by (intro keeps_intros n)
  have d: "keeps (\<lambda>w. Log w = L) (nftDo E args)" for args
    unfolding nftDo_def by (intro keeps_intros r)
  have h: "keeps (\<lambda>w. Log w = L) (deleteHandles E fam table chain hs)" for fam table chain hs
    unfolding deleteHandles_def by (intro keeps_intros d)
  have g: "keeps (\<lambda>w. Log w = L) (nftGetHandlesByCommentFamily E fam com)" for fam com
    unfolding nftGetHandlesByCommentFamily_def by (intro keeps_intros r)
  have o: "keeps (\<lambda>w. Log w = L) (deleteRounds E fam com n)" for fam com n
    by (induction n) (unfold deleteRounds.simps, (intro keeps_intros g h; assumption)+)
  have s: "keeps (\<lambda>w. Log w = L) (removeSets E e ns)" for e ns
    by (induction ns arbitrary: e) (unfold removeSets.simps, (intro keeps_intros d; assumption)+)
  show "keeps (\<lambda>w. Log w = L) (CleanupNFTMonitoringRules E ip)"
    unfolding CleanupNFTMonitoringRules_def deleteNFTRuleByHandle_def Let_def by (intro keeps_intros r d)
  show "keeps (\<lambda>w. Log w = L) (RemoveRules E f)"
    unfolding RemoveRules_def DeleteCOIFilterRulesForIP_def deleteNFTRulesByComment_def deleteNFTRulesByCommentFamily_def
      removeInputRulesForIP_def deleteNFTRulesInChain_def removeAllowlistSetsForIP_def
    by (intro keeps_intros r h o s)
qed

lemma cleanup_quiet: "observed N c Log \<Longrightarrow> Log (cleanupRules N ip w) = Log w"
proof -
  assume o: "observed N c Log"
  then have n: "\<And>args w. Log (snd (nft_cmd (RNet N) args w)) = Log w" by (simp add: observed_def)
  have r: "Log (reporting N x m w) = Log w" if "\<And>L. keeps (\<lambda>w. Log w = L) m" for x m w
    using that[of "Log w"] o by (auto simp: reporting_def observed_def keeps_def split: prod.split sum.split)
  show ?thesis by (simp add: cleanupRules_def r[OF removal_quiet(1)[OF n]] r[OF removal_quiet(2)[OF n]])
qed

lemma lookup_quiet:
  assumes "observed N c Log"
  shows "Log (snd (GetContainerIPFast (RContainers N) c' w)) = Log w"
proof -
  have o: "keeps (\<lambda>w. Log w = L) (getContainerIPOnce (RContainers N) n)" for L n
    using assms by (auto simp: observed_def keeps_def)
  have "keeps (\<lambda>w. Log w = L) (GetContainerIPWithRetries (RContainers N) n k e)" for L n k e
    by (induction k arbitrary: e) (unfold GetContainerIPWithRetries.simps, (intro keeps_intros o; assumption)+)
  then show ?thesis unfolding GetContainerIPFast_def keeps_def by (metis prod.collapse)
qed

text \<open>The output of a pause that finds the container paused already\<close>

definition says_paused :: "shres \<Rightarrow> bool" where
  "says_paused r \<longleftrightarrow> (case toExitError (shStatus r) [] of None \<Rightarrow> True
     | Some e \<Rightarrow> let s = err_text e @ '' '' @ trim_space (shAll r) in str_contains s ''already frozen'' \<or> str_contains s ''already paused'')"

text \<open>One threat: the commands that were run with their outcomes, and the flags after it.\<close>

inductive responds :: "'w incus \<Rightarrow> Responder \<Rightarrow> ThreatLevel \<Rightarrow> (string \<times> shres) list \<Rightarrow> Responder \<Rightarrow> bool" for I R l where
  nothing: "isPaused R' = isPaused R \<Longrightarrow> isKilled R' = isKilled R \<Longrightarrow> responds I R l [] R'"
| pausing: "AutoPauseOnHigh R \<Longrightarrow> l = High \<Longrightarrow> \<not> isPaused R \<Longrightarrow> \<not> isKilled R \<Longrightarrow> isPaused R' = says_paused r \<Longrightarrow> \<not> isKilled R' \<Longrightarrow>
    responds I R l [(pauseCmd I (rName R), r)] R'"
| stop_failed: "AutoKillOnCritical R \<Longrightarrow> l = Critical \<Longrightarrow> \<not> isKilled R \<Longrightarrow> \<not> succeeded s \<Longrightarrow> isPaused R' = isPaused R \<Longrightarrow> \<not> isKilled R' \<Longrightarrow>
    responds I R l [(stopCmd I (rName R), s)] R'"
| killing: "AutoKillOnCritical R \<Longrightarrow> l = Critical \<Longrightarrow> \<not> isKilled R \<Longrightarrow> succeeded s \<Longrightarrow> isPaused R' = isPaused R \<Longrightarrow>
    isKilled R' = succeeded d \<Longrightarrow> responds I R l [(stopCmd I (rName R), s), (deleteCmd I (rName R), d)] R'"

definition same_setup :: "Responder \<Rightarrow> Responder \<Rightarrow> bool" where
  "same_setup R R' \<longleftrightarrow> rName R' = rName R \<and> AutoPauseOnHigh R' = AutoPauseOnHigh R \<and> AutoKillOnCritical R' = AutoKillOnCritical R"

lemma exit_error_None: "toExitError st m = None \<longleftrightarrow> st = Finished"
  by (cases st) auto

lemma pause_responds:
  assumes o: "observed N (rName R) Log" and "AutoPauseOnHigh R" "l = High" "\<not> isPaused R" "\<not> isKilled R"
    and p: "pauseContainer N R w = ((res, R'), w')"
  shows "same_setup R R' \<and> (\<exists>tr. Log w' = Log w @ tr \<and> responds (RIncus N) R l tr R')"
proof -
  let ?cmd = "pauseCmd (RIncus N) (rName R)"
  obtain r w1 where r: "Sh (RIncus N) ?cmd w = (r, w1)" by fastforce
  have l: "Log w1 = Log w @ [(?cmd, r)]" "\<And>a m w. Log (OnAction N a m w) = Log w"
    using o r by (auto simp: observed_def dest: bspec[where x = ?cmd] spec[where x = w])
  have "Log w' = Log w @ [(?cmd, r)] \<and> isPaused R' = says_paused r \<and> \<not> isKilled R' \<and> same_setup R R'"
    using p assms(4,5) r l
    by (auto simp: pauseContainer_def IncusOutputWithStderr_def runIncus_def pauseCmd_def[symmetric] says_paused_def Let_def
        same_setup_def split: option.splits if_splits)
  then show ?thesis using responds.pausing[OF assms(2-5), of R' r "RIncus N"] by auto
qed

lemma kill_responds:
  assumes o: "observed N (rName R) Log" and "AutoKillOnCritical R" "l = Critical" "\<not> isKilled R"
    and p: "killContainer N R w = ((res, R'), w')"
  shows "same_setup R R' \<and> (\<exists>tr. Log w' = Log w @ tr \<and> responds (RIncus N) R l tr R')"
proof -
  let ?I = "RIncus N" and ?s = "stopCmd (RIncus N) (rName R)" and ?d = "deleteCmd (RIncus N) (rName R)"
  define w1 where "w1 = OnAction N ''killed'' (''Container '' @ rName R @ '' KILLED due to critical security threat'') w"
  obtain ipr w2 where ip: "GetContainerIPFast (RContainers N) (rName R) w1 = (ipr, w2)" by fastforce
  obtain s w3 where s: "Sh ?I ?s w2 = (s, w3)" by fastforce
  define ip where "ip = (case ipr of Inr ip \<Rightarrow> ip | Inl _ \<Rightarrow> [])"
  obtain d w4 where d: "Sh ?I ?d (cleanupRules N ip w3) = (d, w4)" by fastforce
  have sh: "Log (snd (Sh ?I cmd v)) = Log v @ [(cmd, fst (Sh ?I cmd v))]" if "cmd = ?s \<or> cmd = ?d" for cmd v
    using o that by (auto simp: observed_def)
  have l2: "Log w2 = Log w" using lookup_quiet[OF o, of "rName R" w1] ip o by (simp add: w1_def observed_def)
  have l3: "Log w3 = Log w @ [(?s, s)]" using sh[of ?s w2] s l2 by simp
  have l4: "Log w4 = Log w @ [(?s, s), (?d, d)]"
    using sh[of ?d "cleanupRules N ip w3"] d l3 cleanup_quiet[OF o] by simp
  have stop: "StopContainerQuiet ?I (rName R) True w2 = ((trim_space (shOut s), toExitError (shStatus s) (trim_space (shErr s))), w3)"
    using s by (simp add: StopContainerQuiet_def outputOf_def runIncus_def stopCmd_def)
  have del: "IncusOutput ?I [''delete'', rName R] (cleanupRules N ip w3) =
      (doneOr (trim_space (shOut d)) (toExitError (shStatus d) (trim_space (shErr d))), w4)"
    using d by (simp add: IncusOutput_def outputOf_def runIncus_def deleteCmd_def)
  have k: "killContainer N R w = (case toExitError (shStatus s) (trim_space (shErr s)) of
       Some e \<Rightarrow> ((Inl (Wrapf ''failed to stop container'' e), R), w3)
     | None \<Rightarrow> (case doneOr (trim_space (shOut d)) (toExitError (shStatus d) (trim_space (shErr d))) of
         Inl e \<Rightarrow> ((Inl (Wrapf ''failed to delete container'' e), R), w4)
       | Inr _ \<Rightarrow> ((Inr (), R\<lparr>isKilled := True\<rparr>), w4)))"
    unfolding killContainer_def w1_def[symmetric] using assms(4) ip
    by (simp add: Let_def stop del flip: ip_def split: option.split)
  show ?thesis
  proof (cases "toExitError (shStatus s) (trim_space (shErr s))")
    case (Some e)
    then have "\<not> succeeded s" using exit_error_None[of "shStatus s" "trim_space (shErr s)"] by (simp add: succeeded_def)
    moreover have "R' = R" "w' = w3" using p k Some by simp_all
    ultimately show ?thesis using responds.stop_failed[of R l s R ?I] assms(2-4) l3 by (auto simp: same_setup_def)
  next
    case None
    then have ss: "succeeded s" using exit_error_None by (simp add: succeeded_def)
    have "w' = w4 \<and> isPaused R' = isPaused R \<and> isKilled R' = succeeded d \<and> same_setup R R'"
      using p k None assms(4) exit_error_None[of "shStatus d" "trim_space (shErr d)"]
      by (auto simp: doneOr_def succeeded_def same_setup_def split: option.splits)
    then show ?thesis using responds.killing[of R l s R' d ?I] assms(2-4) ss l4 by auto
  qed
qed

lemma handle_responds:
  assumes o: "observed N (rName R) Log" and h: "Handle N R t w = ((res, R'), w')"
  shows "same_setup R R' \<and> (\<exists>tr. Log w' = Log w @ tr \<and> responds (RIncus N) R (Level t) tr R')"
proof (cases "isKilled R")
  case True
  then have "R' = R" "w' = w" using h by (simp_all add: Handle_def)
  then show ?thesis using responds.nothing[of R R] by (auto simp: same_setup_def)
next
  case False
  obtain now w1 where c: "RClock N w = (now, w1)" by fastforce
  have l1: "Log w1 = Log w" using o c by (auto simp: observed_def dest: spec[where x = w])
  have quiet: "Log (snd (logThreat_to N t' v)) = Log v" for t' v
    using o by (auto simp: observed_def logThreat_to_def split: option.split)
  obtain v R1 where r: "register_threat R now t = (v, R1)" by fastforce
  have R1: "same_setup R R1 \<and> isPaused R1 = isPaused R \<and> isKilled R1 = isKilled R \<and> (v = Deduplicated \<or> v = Fresh (isPaused R))"
    using r by (auto simp: register_threat_def Let_def same_setup_def split: option.splits if_splits)
  show ?thesis
  proof (cases v)
    case Deduplicated
    obtain r2 w2 where lg: "logThreat_to N (t\<lparr>Action := ''deduplicated''\<rparr>) w1 = (r2, w2)" by fastforce
    have "R' = R1" "w' = w2" using h False c r Deduplicated lg by (simp_all add: Handle_def)
    moreover have "Log w2 = Log w" using quiet[of "t\<lparr>Action := ''deduplicated''\<rparr>" w1] lg l1 by simp
    ultimately show ?thesis using R1 responds.nothing[of R1 R] by auto
  next
    case (Fresh ap)
    let ?a = "reaction R1 ap (Level t)"
    define w2 where "w2 = (if alerting ?a then OnThreat N (t\<lparr>Action := reaction_text ?a\<rparr>) w1 else w1)"
    obtain r3 w3 where lg: "logThreat_to N (t\<lparr>Action := reaction_text ?a\<rparr>) w2 = (r3, w3)" by fastforce
    have l3: "Log w3 = Log w" using quiet[of "t\<lparr>Action := reaction_text ?a\<rparr>" w2] lg l1 o by (auto simp: w2_def observed_def split: if_splits)
    have R1': "ap = isPaused R" "same_setup R R1" "isPaused R1 = isPaused R" "\<not> isKilled R1" using R1 Fresh False by auto
    have o1: "observed N (rName R1) Log" using o R1'(2) by (simp add: same_setup_def)
    have resp: "respond N R1 ap t w1 = ((res, R'), w')" using h False c r Fresh by (simp add: Handle_def)
    have lift: "responds (RIncus N) R (Level t) tr R'" if "responds (RIncus N) R1 (Level t) tr R'" for tr
      using that R1'(2,3) False R1'(4) by cases (auto simp: same_setup_def intro: responds.intros)
    have idle: "same_setup R R1 \<and> (\<exists>tr. Log w3 = Log w @ tr \<and> responds (RIncus N) R (Level t) tr R1)"
      using responds.nothing[of R1 R] R1'(2-4) False l3 by auto
    show ?thesis
    proof (cases r3)
      case (Inl e)
      then show ?thesis using resp lg idle by (simp add: respond_def Let_def flip: w2_def)
    next
      case (Inr u)
      have nxt: "(if ?a = Pause then pauseContainer N R1 w3 else if ?a = Kill then killContainer N R1 w3 else ((Inr (), R1), w3)) = ((res, R'), w')"
        using resp lg Inr by (simp add: respond_def Let_def flip: w2_def)
      consider "?a = Pause" | "?a = Kill" | "?a \<noteq> Pause" "?a \<noteq> Kill" by blast
      then show ?thesis
      proof cases
        case 1
        then have "AutoPauseOnHigh R1" "Level t = High" "\<not> isPaused R1"
          using R1' by (auto simp: reaction_def split: ThreatLevel.splits if_splits)
        from pause_responds[OF o1 this R1'(4)] nxt 1 l3 R1'(2) lift show ?thesis by (fastforce simp: same_setup_def)
      next
        case 2
        then have "AutoKillOnCritical R1" "Level t = Critical"
          by (auto simp: reaction_def split: ThreatLevel.splits if_splits)
        from kill_responds[OF o1 this R1'(4)] nxt 2 l3 R1'(2) lift show ?thesis by (fastforce simp: same_setup_def)
      next
        case 3
        then show ?thesis using nxt idle by simp
      qed
    qed
  qed
qed

section \<open>Any history of threats\<close>

definition killed_by :: "'w incus \<Rightarrow> string \<Rightarrow> (string \<times> shres) list \<Rightarrow> bool" where
  "killed_by I c tr \<longleftrightarrow> (\<exists>a s d. tr = a @ [(stopCmd I c, s), (deleteCmd I c, d)] \<and> succeeded s \<and> succeeded d)"

definition paused_by :: "'w incus \<Rightarrow> string \<Rightarrow> (string \<times> shres) list \<Rightarrow> bool" where
  "paused_by I c tr \<longleftrightarrow> (\<exists>r. (pauseCmd I c, r) \<in> set tr \<and> says_paused r)"

text \<open>A deletion only right after a successful stop\<close>

definition stopped_first :: "'w incus \<Rightarrow> string \<Rightarrow> (string \<times> shres) list \<Rightarrow> bool" where
  "stopped_first I c tr \<longleftrightarrow> (\<forall>i < length tr. fst (tr ! i) = deleteCmd I c \<longrightarrow>
     0 < i \<and> fst (tr ! (i - 1)) = stopCmd I c \<and> succeeded (snd (tr ! (i - 1))))"

text \<open>A command of the trace that the settings and one of the threats of levels \<open>ls\<close> call for\<close>

definition called_for :: "'w incus \<Rightarrow> Responder \<Rightarrow> ThreatLevel set \<Rightarrow> string \<Rightarrow> bool" where
  "called_for I R ls cmd \<longleftrightarrow> cmd = pauseCmd I (rName R) \<and> AutoPauseOnHigh R \<and> High \<in> ls \<or>
     (cmd = stopCmd I (rName R) \<or> cmd = deleteCmd I (rName R)) \<and> AutoKillOnCritical R \<and> Critical \<in> ls"

definition disciplined :: "'w incus \<Rightarrow> Responder \<Rightarrow> ThreatLevel set \<Rightarrow> (string \<times> shres) list \<Rightarrow> bool" where
  "disciplined I R ls tr \<longleftrightarrow> (\<forall>(cmd, r) \<in> set tr. called_for I R ls cmd) \<and> stopped_first I (rName R) tr \<and>
     isKilled R = killed_by I (rName R) tr \<and> isPaused R = paused_by I (rName R) tr"

lemma stopped_first_append:
  assumes "stopped_first I c tr"
  shows "stopped_first I c (tr @ [(pauseCmd I c, r)])" "stopped_first I c (tr @ [(stopCmd I c, r)])"
    "succeeded s \<Longrightarrow> stopped_first I c (tr @ [(stopCmd I c, s), (deleteCmd I c, d)])"
  using assms cmds_distinct[of I c] by (auto simp: stopped_first_def nth_append less_Suc_eq)

lemma killed_by_append:
  "killed_by I c (tr @ [(stopCmd I c, s), (deleteCmd I c, d)]) \<longleftrightarrow> succeeded s \<and> succeeded d"
  "cmd \<noteq> deleteCmd I c \<Longrightarrow> \<not> killed_by I c (tr @ [(cmd, r)])"
  by (auto simp: killed_by_def append_eq_append_conv2 Cons_eq_append_conv append_eq_Cons_conv)

lemma responds_disciplined:
  assumes "responds I R l tr R'" "same_setup R R'" "disciplined I R ls tr0" "l \<in> ls"
  shows "disciplined I R' ls (tr0 @ tr)"
proof -
  have c: "rName R' = rName R" "\<And>cmd. called_for I R' ls cmd = called_for I R ls cmd"
    using assms(2) by (auto simp: same_setup_def called_for_def)
  note d = cmds_distinct[of I "rName R"]
  from assms(3) have all: "\<forall>(cmd, r) \<in> set tr0. called_for I R ls cmd" "stopped_first I (rName R) tr0"
    "isKilled R = killed_by I (rName R) tr0" "isPaused R = paused_by I (rName R) tr0"
    by (simp_all add: disciplined_def)
  from assms(1) show ?thesis
  proof cases
    case nothing
    then show ?thesis using all by (simp add: disciplined_def c)
  next
    case (pausing r)
    have "called_for I R ls (pauseCmd I (rName R))" using pausing assms(4) by (simp add: called_for_def)
    moreover have "paused_by I (rName R) (tr0 @ tr) \<longleftrightarrow> isPaused R'" using pausing all(4) by (auto simp: paused_by_def)
    ultimately show ?thesis
      using pausing all stopped_first_append(1)[OF all(2)] killed_by_append(2)[OF d(2)] by (simp add: disciplined_def c)
  next
    case (stop_failed s)
    have "called_for I R ls (stopCmd I (rName R))" using stop_failed assms(4) by (simp add: called_for_def)
    moreover have "paused_by I (rName R) (tr0 @ tr) \<longleftrightarrow> isPaused R'" using stop_failed all(4) d by (auto simp: paused_by_def)
    ultimately show ?thesis
      using stop_failed all stopped_first_append(2)[OF all(2)] killed_by_append(2)[OF d(3)] by (simp add: disciplined_def c)
  next
    case (killing s d')
    have "called_for I R ls (stopCmd I (rName R))" "called_for I R ls (deleteCmd I (rName R))"
      using killing assms(4) by (simp_all add: called_for_def)
    moreover have "paused_by I (rName R) (tr0 @ tr) \<longleftrightarrow> isPaused R'" using killing all(4) d by (auto simp: paused_by_def)
    ultimately show ?thesis
      using killing all stopped_first_append(3)[OF all(2)] killed_by_append(1)[of I "rName R" tr0 s d'] by (simp add: disciplined_def c)
  qed
qed

lemma history_disciplined:
  assumes "\<forall>(t, e) \<in> set hs. Level t \<in> ls \<and> (\<forall>w. Log (e w) = Log w)"
  shows "observed N (rName R) Log \<Longrightarrow> disciplined (RIncus N) R ls tr \<Longrightarrow> Log w = L0 @ tr \<Longrightarrow>
    handleAll N R hs w = (R', w') \<Longrightarrow> \<exists>tr'. Log w' = L0 @ tr' \<and> disciplined (RIncus N) R' ls tr'"
  using assms
proof (induction hs arbitrary: R w tr)
  case (Cons h hs)
  obtain t e where h: "h = (t, e)" by fastforce
  obtain res R1 w1 where s: "Handle N R t w = ((res, R1), w1)" by (metis prod.exhaust)
  obtain tr1 where 1: "same_setup R R1" "Log w1 = Log w @ tr1" "responds (RIncus N) R (Level t) tr1 R1"
    using handle_responds[OF Cons.prems(1) s] by blast
  have "disciplined (RIncus N) R1 ls (tr @ tr1)"
    using responds_disciplined[OF 1(3,1) Cons.prems(2)] Cons.prems(5) h by auto
  moreover have "observed N (rName R1) Log" using Cons.prems(1) 1(1) by (simp add: same_setup_def)
  moreover have "Log (e w1) = L0 @ (tr @ tr1)" using 1(2) Cons.prems(3,5) h by auto
  ultimately show ?case using Cons.IH[of R1 "tr @ tr1" "e w1"] Cons.prems(4,5) s h by auto
qed auto

text \<open>C37. The responder acts on the container only as configured, and its flags tell the truth. Over any history of threats,
with any outcome of every command and any change of the world in between, the pauses, stops and deletions it ran are exactly
of its own container; a pause needs the automatic pause and a threat of level high, a stop or deletion the automatic kill and
a critical threat; each deletion comes right after a stop that succeeded; it counts as paused exactly when some pause succeeded
or found the container frozen, and as killed exactly when its last two commands are a stop and a deletion that succeeded, after
which it runs no other.\<close>

theorem responder_disciplined:
  assumes "observed N c Log" and "\<forall>(t, e) \<in> set hs. \<forall>w. Log (e w) = Log w"
    and "handleAll N (NewResponder c p k) hs w = (R', w')"
  shows "\<exists>tr. Log w' = Log w @ tr \<and> disciplined (RIncus N) R' (Level ` fst ` set hs) tr"
proof -
  let ?R = "NewResponder c p k" and ?ls = "Level ` fst ` set hs"
  have "disciplined (RIncus N) ?R ?ls []"
    by (simp add: disciplined_def NewResponder_def stopped_first_def killed_by_def paused_by_def)
  moreover have "observed N (rName ?R) Log" using assms(1) by (simp add: NewResponder_def)
  moreover have "\<forall>(t, e) \<in> set hs. Level t \<in> ?ls \<and> (\<forall>w. Log (e w) = Log w)" using assms(2) by force
  ultimately show ?thesis using history_disciplined[of hs ?ls Log N ?R "[]" w "Log w" R' w'] assms(3) by simp
qed

text \<open>A world that is the log of the commands, all of which succeed\<close>

definition recordingEnv :: "(string \<times> shres) list respenv" where
  "recordingEnv = \<lparr>RIncus = recordingShell, RNet = \<lparr>sudo_on = False, nft_cmd = (\<lambda>_ w. (Inl (ExtErr ''no sudo''), w))\<rparr>,
     RContainers = \<lparr>getContainerIPOnce = (\<lambda>_ w. (Inr ''10.0.0.5'', w)), CatHosts = (\<lambda>_ w. (Inr [], w)), ExecRewrite = (\<lambda>_ _ w. (Inr (), w))\<rparr>,
     RClock = (\<lambda>w. (0, w)), AuditThreat = None, OnThreat = (\<lambda>_ w. w), OnAction = (\<lambda>_ _ w. w), OnError = (\<lambda>_ w. w)\<rparr>"

definition sampleThreat :: "ThreatLevel \<Rightarrow> string \<Rightarrow> ThreatEvent" where
  "sampleThreat l title = newThreatEvent 0 l ''process'' title [] NoEvidence"

lemma recordingEnv_fields [simp]:
  "RIncus recordingEnv = recordingShell" "RClock recordingEnv w = (0, w)" "AuditThreat recordingEnv = None"
  "OnThreat recordingEnv t w = w" "OnAction recordingEnv a m w = w" "OnError recordingEnv e w = w"
  "getContainerIPOnce (RContainers recordingEnv) n w = (Inr ''10.0.0.5'', w)"
  by (simp_all add: recordingEnv_def)

lemma recordingEnv_observed: "observed recordingEnv ''coi-1'' (\<lambda>w. w)"
  by (simp add: observed_def recordingShell_def) (simp add: recordingEnv_def)

lemma recordingEnv_cleanup [simp]: "cleanupRules recordingEnv ip w = w"
  using cleanup_quiet[OF recordingEnv_observed] .

lemma responder_disciplined_witness:
  "\<exists>R' tr. handleAll recordingEnv (NewResponder ''coi-1'' True True)
      [(sampleThreat High ''a'', \<lambda>w. w), (sampleThreat Critical ''b'', \<lambda>w. w)] [] = (R', tr) \<and>
    disciplined recordingShell R' {High, Critical} tr \<and> isPaused R' \<and> isKilled R' \<and> length tr = 3"
proof -
  let ?hs = "[(sampleThreat High ''a'', \<lambda>w::(string \<times> shres) list. w), (sampleThreat Critical ''b'', \<lambda>w. w)]"
  obtain R' tr where r: "handleAll recordingEnv (NewResponder ''coi-1'' True True) ?hs [] = (R', tr)" by fastforce
  have l: "isPaused R' \<and> isKilled R' \<and> length tr = 3"
    using r by (auto simp: Handle_def respond_def register_threat_def pauseContainer_def killContainer_def reaction_def Let_def
        sampleThreat_def newThreatEvent_def NewResponder_def threatKey_def logThreat_to_def
        IncusOutputWithStderr_def GetContainerIPFast_def StopContainerQuiet_def outputOf_def okRes_def cleanRecent_def alerting_def
        numeral_3_eq_3 bindA_def tryA_def)
  have "disciplined recordingShell R' (Level ` fst ` set ?hs) tr"
    using responder_disciplined[OF recordingEnv_observed _ r] by simp
  with r l show ?thesis by (auto simp: sampleThreat_def newThreatEvent_def insert_commute)
qed

section \<open>Repeated alerts\<close>

text \<open>Whether \<open>Handle\<close> calls \<open>OnThreat\<close> when the clock says \<open>now\<close>\<close>

definition alerted :: "Responder \<Rightarrow> int \<Rightarrow> ThreatEvent \<Rightarrow> bool" where
  "alerted R now t \<longleftrightarrow> \<not> isKilled R \<and> (case register_threat R now t of
     (Deduplicated, _) \<Rightarrow> False | (Fresh ap, R') \<Rightarrow> alerting (reaction R' ap (Level t)))"

text \<open>The time and key of every threat handled, and whether it raised an alert\<close>

fun handled :: "'w respenv \<Rightarrow> Responder \<Rightarrow> (ThreatEvent \<times> ('w \<Rightarrow> 'w)) list \<Rightarrow> 'w \<Rightarrow> (int \<times> string \<times> bool) list" where
  "handled N R [] w = []"
| "handled N R ((t, e) # hs) w = (let now = fst (RClock N w); ((_, R'), w') = Handle N R t w in
     (now, threatKey t, alerted R now t) # handled N R' hs (e w'))"

lemma map_of_filter: "map_of m k = Some v \<Longrightarrow> P (k, v) \<Longrightarrow> map_of (filter P m) k = Some v"
  by (induction m) (auto split: if_splits)

lemma respond_recent: "respond N R ap t w = ((res, R'), w') \<Longrightarrow> recentThreats R' = recentThreats R"
  by (auto simp: respond_def pauseContainer_def killContainer_def Let_def split: prod.splits sum.splits option.splits if_splits)

text \<open>The alerts so far are in the map, unless they are older than the window.\<close>

definition remembered :: "Responder \<Rightarrow> (int \<times> string) set \<Rightarrow> int \<Rightarrow> bool" where
  "remembered R A now \<longleftrightarrow> (\<forall>(ts, k) \<in> A. ts \<le> now \<and>
     ((\<exists>v \<ge> ts. map_of (recentThreats R) k = Some v) \<or> dedupeWindow \<le> now - ts))"

lemma remembered_step:
  assumes A: "remembered R A before" and "before \<le> now" and now: "fst (RClock N w) = now"
    and h: "Handle N R t w = ((res, R'), w')"
  shows "remembered R' (A \<union> (if alerted R now t then {(now, threatKey t)} else {})) now"
    "alerted R now t \<Longrightarrow> (ts, threatKey t) \<in> A \<Longrightarrow> dedupeWindow \<le> now - ts"
proof -
  have pos: "0 < dedupeWindow" by (simp add: dedupeWindow_def)
  obtain w1 where c: "RClock N w = (now, w1)" using now by (cases "RClock N w") simp
  have keep: "remembered R A now" using A assms(2) by (fastforce simp: remembered_def)
  let ?k = "threatKey t"
  have "remembered R' (A \<union> (if alerted R now t then {(now, ?k)} else {})) now \<and>
    (\<forall>ts. alerted R now t \<longrightarrow> (ts, ?k) \<in> A \<longrightarrow> dedupeWindow \<le> now - ts)"
  proof (cases "isKilled R \<or> fst (register_threat R now t) = Deduplicated")
    case True
    then have "recentThreats R' = recentThreats R" "\<not> alerted R now t"
      using h c by (auto simp: Handle_def alerted_def register_threat_def Let_def split: prod.splits option.splits if_splits)
    then show ?thesis using keep by (simp add: remembered_def)
  next
    case False
    define m where "m = AList.update ?k now (recentThreats R)"
    have f: "register_threat R now t = (Fresh (isPaused R), R\<lparr>recentThreats := cleanRecent now m\<rparr>)"
      and old: "\<And>v. map_of (recentThreats R) ?k = Some v \<Longrightarrow> dedupeWindow \<le> now - v"
      using False by (auto simp: register_threat_def Let_def m_def split: option.splits if_splits)
    have r: "recentThreats R' = cleanRecent now m"
      using respond_recent[of N "R\<lparr>recentThreats := cleanRecent now m\<rparr>" "isPaused R" t w1 res R' w'] h c f False by (simp add: Handle_def)
    have m: "map_of m k = (if k = ?k then Some now else map_of (recentThreats R) k)" for k
      by (simp add: m_def update_conv)
    have inmap: "(\<exists>v \<ge> ts. map_of (recentThreats R') k = Some v) \<or> dedupeWindow \<le> now - ts"
      if "ts \<le> v" "map_of m k = Some v" for ts k v
    proof (cases "now - v \<le> dedupeWindow * 2")
      case True
      then have "map_of (recentThreats R') k = Some v"
        using that(2) map_of_filter[of m k v "\<lambda>(_, ts). now - ts \<le> dedupeWindow * 2"] by (simp add: r cleanRecent_def)
      then show ?thesis using that(1) by blast
    next
      case False
      then show ?thesis using that(1) pos by simp
    qed
    have "remembered R' (A \<union> {(now, ?k)}) now"
      unfolding remembered_def
    proof (intro ballI, clarify)
      fix ts k
      assume "(ts, k) \<in> A \<union> {(now, ?k)}"
      then consider "k = ?k" "ts \<le> now" | "k \<noteq> ?k" "(ts, k) \<in> A" using keep by (auto simp: remembered_def)
      then show "ts \<le> now \<and> ((\<exists>v \<ge> ts. map_of (recentThreats R') k = Some v) \<or> dedupeWindow \<le> now - ts)"
      proof cases
        case 1
        then show ?thesis using inmap[of ts now k] m[of k] by simp
      next
        case 2
        then have "ts \<le> now" "(\<exists>v \<ge> ts. map_of (recentThreats R) k = Some v) \<or> dedupeWindow \<le> now - ts"
          using keep by (auto simp: remembered_def)
        then show ?thesis using inmap[of ts _ k] m[of k] 2 by auto
      qed
    qed
    then have "remembered R' (A \<union> (if alerted R now t then {(now, ?k)} else {})) now" by (auto simp: remembered_def)
    moreover have "dedupeWindow \<le> now - ts" if "(ts, ?k) \<in> A" for ts
      using keep that old by (force simp: remembered_def)
    ultimately show ?thesis by blast
  qed
  then show "remembered R' (A \<union> (if alerted R now t then {(now, threatKey t)} else {})) now"
    "alerted R now t \<Longrightarrow> (ts, threatKey t) \<in> A \<Longrightarrow> dedupeWindow \<le> now - ts" by blast+
qed

definition spaced :: "int \<times> string \<times> bool \<Rightarrow> int \<times> string \<times> bool \<Rightarrow> bool" where
  "spaced x y \<longleftrightarrow> (case (x, y) of ((s, k, a), (t, l, b)) \<Rightarrow> a \<and> b \<and> k = l \<longrightarrow> dedupeWindow \<le> t - s)"

lemma spaced_from:
  "remembered R A before \<Longrightarrow> sorted (before # map fst (handled N R hs w)) \<Longrightarrow>
    sorted_wrt spaced (handled N R hs w) \<and> (\<forall>(ts, k) \<in> A. \<forall>y \<in> set (handled N R hs w). spaced (ts, k, True) y)"
proof (induction hs arbitrary: R A before w)
  case (Cons h hs)
  obtain t e where h: "h = (t, e)" by fastforce
  obtain res R1 w1 where s: "Handle N R t w = ((res, R1), w1)" by (metis prod.exhaust)
  define now where "now = fst (RClock N w)"
  let ?rest = "handled N R1 hs (e w1)"
  have hd: "handled N R (h # hs) w = (now, threatKey t, alerted R now t) # ?rest" by (simp add: h s now_def Let_def)
  have le: "before \<le> now" "sorted (now # map fst ?rest)" using Cons.prems(2) unfolding hd by auto
  define A' where "A' = A \<union> (if alerted R now t then {(now, threatKey t)} else {})"
  note st = remembered_step[OF Cons.prems(1) le(1) now_def[symmetric] s]
  have IH: "sorted_wrt spaced ?rest" "\<forall>(ts, k) \<in> A'. \<forall>y \<in> set ?rest. spaced (ts, k, True) y"
    using Cons.IH[OF st(1) le(2)] by (simp_all add: A'_def)
  have "\<forall>y \<in> set ?rest. spaced (now, threatKey t, alerted R now t) y"
    using IH(2) by (cases "alerted R now t") (auto simp: A'_def spaced_def)
  moreover have "\<forall>(ts, k) \<in> A. spaced (ts, k, True) (now, threatKey t, alerted R now t)"
    using st(2) by (auto simp: spaced_def)
  moreover have "\<forall>(ts, k) \<in> A. \<forall>y \<in> set ?rest. spaced (ts, k, True) y" using IH(2) by (fastforce simp: A'_def)
  ultimately show ?case using IH(1) unfolding hd by auto
qed simp



section \<open>Shortcomings\<close>

lemma length_alist_update: "length (AList.update k v m) \<le> Suc (length m)"
  by (induction m) auto

text \<open>After a kill that failed the same threat does nothing for 30 seconds.\<close>

lemma failed_kill_not_retried:
  assumes "Handle N R t w = ((Inl e, R'), w')" "\<not> isKilled R" "RClock N w = (now, w1)" "fst (register_threat R now t) \<noteq> Deduplicated"
    and "length (recentThreats R) < 100" and "RClock N v = (later, v1)" "later - now < dedupeWindow"
  shows "Handle N R' t v = (case logThreat_to N (t\<lparr>Action := ''deduplicated''\<rparr>) v1 of (r, v2) \<Rightarrow> ((r, R'), v2))"
proof -
  define R1 where "R1 = R\<lparr>recentThreats := cleanRecent now (AList.update (threatKey t) now (recentThreats R))\<rparr>"
  have f: "register_threat R now t = (Fresh (isPaused R), R1)"
    using assms(4) by (auto simp: register_threat_def Let_def R1_def split: option.splits if_splits)
  then have r: "respond N R1 (isPaused R) t w1 = ((Inl e, R'), w')" using assms(1-3) by (simp add: Handle_def)
  have "\<not> isKilled R1" using assms(2) by (simp add: R1_def)
  then have k: "\<not> isKilled R'" using r
    by (auto simp: respond_def pauseContainer_def killContainer_def Let_def split: prod.splits sum.splits option.splits if_splits)
  have "length (AList.update (threatKey t) now (recentThreats R)) \<le> 100"
    using assms(5) length_alist_update[of "threatKey t" now "recentThreats R"] by simp
  then have "map_of (recentThreats R') (threatKey t) = Some now"
    using respond_recent[OF r] by (simp add: R1_def cleanRecent_def update_conv)
  then show ?thesis using k assms(6,7) by (simp add: Handle_def register_threat_def Let_def)
qed

text \<open>A pause is never forgotten, not even when the user unfreezes the container: then threats of level high are not even alerted.\<close>

lemma pause_never_forgotten:
  assumes "isPaused R" "Handle N R t w = ((res, R'), w')"
  shows "isPaused R'" "AutoPauseOnHigh R \<Longrightarrow> Level t = High \<Longrightarrow> \<not> alerted R now t"
proof -
  show "isPaused R'" using assms
    by (auto simp: Handle_def respond_def register_threat_def pauseContainer_def killContainer_def Let_def
        split: prod.splits sum.splits option.splits if_splits)
  show "\<not> alerted R now t" if "AutoPauseOnHigh R" "Level t = High"
    using that assms(1) by (auto simp: alerted_def register_threat_def reaction_def alerting_def Let_def split: option.splits)
qed

text \<open>When the audit log cannot be written, nothing is paused or killed.\<close>

lemma unwritten_threat_unanswered:
  assumes "\<And>t w. \<exists>e w'. logThreat_to N t w = (Inl e, w')"
  shows "snd (fst (Handle N R t w)) = R \<or> (\<exists>m. snd (fst (Handle N R t w)) = R\<lparr>recentThreats := m\<rparr>)"
proof -
  obtain now w1 where c: "RClock N w = (now, w1)" by fastforce
  obtain v R1 where r: "register_threat R now t = (v, R1)" by fastforce
  then have R1: "R1 = R \<or> (\<exists>m. R1 = R\<lparr>recentThreats := m\<rparr>)"
    by (auto simp: register_threat_def Let_def split: option.splits if_splits)
  have "snd (fst (Handle N R t w)) \<in> {R, R1}"
  proof (cases v)
    case Deduplicated
    then show ?thesis using c r by (simp add: Handle_def split: prod.split)
  next
    case (Fresh ap)
    have "snd (fst (respond N R1 ap t w1)) = R1"
      using assms by (auto simp: respond_def Let_def split: prod.split sum.split) (metis Inl_Inr_False prod.inject)+
    then show ?thesis using c r Fresh by (simp add: Handle_def)
  qed
  then show ?thesis using R1 by auto
qed

end
