(* ===== verification/MonResources.thy ===== *)
theory MonResources
  imports MonDetector
begin

text \<open>
  The counters of the monitor: CPU, memory and I/O of the container's cgroup (\<open>internal/monitor/cgroup.go\<close>), the
  disk usage of its \<open>/tmp\<close> and the deltas between two polls (\<open>internal/monitor/filesystem.go\<close>), and the snapshot
  they are put in (\<open>internal/monitor/collector.go\<close>). Numbers are read as decimal numerals, which is what the
  kernel and \<open>df\<close> write; a \<open>float64\<close> is the rational it stands for, so counters above 2^53, which
  Go would round, are exact here. The four collections run in parallel in the code and one after the other here.
\<close>

section \<open>Numerals\<close>

definition parse_decimal :: "string \<Rightarrow> float64 option" where
  "parse_decimal s = (let (neg, u) = (case s of [] \<Rightarrow> (False, s) | c # cs \<Rightarrow>
         if c = CHR ''-'' then (True, cs) else if c = CHR ''+'' then (False, cs) else (False, s));
       (i, f, dot) = str_cut u ''.'' in
     if i @ f = [] \<or> \<not> list_all is_digit (i @ f) then None
     else let q = of_nat (foldl (\<lambda>n c. 10 * n + digit_val c) 0 (i @ f)) / 10 ^ length f in Some (if neg then - q else q))"

section \<open>The cgroup's counters\<close>

record cpuStats =
  cpuTotal :: float64
  cpuUser :: float64
  cpuSystem :: float64

fun cpuLines :: "string list \<Rightarrow> cpuStats \<Rightarrow> cpuStats" where
  "cpuLines [] st = st"
| "cpuLines (line # ls) st = cpuLines ls (case str_fields line of
       [k, v] \<Rightarrow> (case parse_decimal v of
         None \<Rightarrow> st
       | Some x \<Rightarrow> if k = ''usage_usec'' then st\<lparr>cpuTotal := x\<rparr> else if k = ''user_usec'' then st\<lparr>cpuUser := x\<rparr>
           else if k = ''system_usec'' then st\<lparr>cpuSystem := x\<rparr> else st)
     | _ \<Rightarrow> st)"

definition readCPUStats :: "'w procfs \<Rightarrow> string \<Rightarrow> ('w, cpuStats) act" where
  "readCPUStats P path = bindA (ReadFile P path) (\<lambda>text.
     retA (cpuLines (str_split text [CHR 0x0A]) \<lparr>cpuTotal = 0, cpuUser = 0, cpuSystem = 0\<rparr>))"

definition readMemoryStats :: "'w procfs \<Rightarrow> string \<Rightarrow> string \<Rightarrow> ('w, float64 \<times> float64) act" where
  "readMemoryStats P currentPath maxPath = bindA (ReadFile P currentPath) (\<lambda>text.
     case parse_decimal (trim_space text) of
       None \<Rightarrow> failA (ExtErr ''invalid syntax'')
     | Some current \<Rightarrow> bindA (tryA (ReadFile P maxPath)) (\<lambda>r. retA (current, case r of
           Inl _ \<Rightarrow> 0
         | Inr m \<Rightarrow> if trim_space m = ''max'' then 0 else
             (case parse_decimal (trim_space m) of Some x \<Rightarrow> x | None \<Rightarrow> 0))))"

definition ioField :: "float64 \<times> float64 \<Rightarrow> string \<Rightarrow> float64 \<times> float64" where
  "ioField st field = (case str_split field ''='' of
     [k, v] \<Rightarrow> (case parse_decimal v of
       None \<Rightarrow> st
     | Some x \<Rightarrow> if k = ''rbytes'' then (fst st + x, snd st) else if k = ''wbytes'' then (fst st, snd st + x) else st)
   | _ \<Rightarrow> st)"

definition readIOStats :: "'w procfs \<Rightarrow> string \<Rightarrow> ('w, float64 \<times> float64) act" where
  "readIOStats P path = bindA (ReadFile P path) (\<lambda>text. case scanLines text of
     (ls, False) \<Rightarrow> retA (foldl (\<lambda>st line. foldl ioField st (drop 1 (str_fields line))) (0, 0) ls)
   | (_, True) \<Rightarrow> failA (ExtErr ''bufio.Scanner: token too long''))"

definition noLimit :: float64 where "noLimit = 9223372036854771712"

definition CollectResourceStats :: "'w procfs \<Rightarrow> 'w incus \<Rightarrow> string \<Rightarrow> ('w, ResourceStats) act" where
  "CollectResourceStats P I c = bindA (wrapA ''failed to get cgroup path'' (GetCgroupPath P I c)) (\<lambda>rawPath.
     let dir = stripSystemdScopeSuffix rawPath in
     bindA (wrapA ''failed to read CPU stats'' (readCPUStats P (path_join [dir, ''cpu.stat'']))) (\<lambda>cpu.
     bindA (wrapA ''failed to read memory stats'' (readMemoryStats P (path_join [dir, ''memory.current'']) (path_join [dir, ''memory.max''])))
       (\<lambda>(current, limit).
     bindA (tryA (readIOStats P (path_join [dir, ''io.stat'']))) (\<lambda>io.
     let (rd, wr) = (case io of Inr x \<Rightarrow> x | Inl _ \<Rightarrow> (0, 0)) in
     retA \<lparr>CPUTimeSeconds = cpuTotal cpu / 1000000, UserCPUSeconds = cpuUser cpu / 1000000, SysCPUSeconds = cpuSystem cpu / 1000000,
       MemoryMB = current / 1024 / 1024,
       MemoryLimitMB = (if 0 < limit \<and> limit \<noteq> noLimit then limit / 1024 / 1024 else 0),
       IOReadMB = rd / 1024 / 1024, IOWriteMB = wr / 1024 / 1024\<rparr>))))"

section \<open>Disk usage\<close>

text \<open>\<open>Statfs\<close> gives block size, blocks and free blocks.\<close>

record 'w diskhost =
  DProc :: "'w procfs"
  DIncus :: "'w incus"
  Statfs :: "string \<Rightarrow> ('w, int \<times> 64 word \<times> 64 word) act"
  DClock :: "'w \<Rightarrow> int \<times> 'w"

definition mega :: "64 word \<Rightarrow> float64" where
  "mega b = of_nat (unat b) / 1024 / 1024"

definition diskUsage :: "int \<times> 64 word \<times> 64 word \<Rightarrow> (float64 \<times> float64 \<times> float64) result" where
  "diskUsage st = (case st of (bs, blocks, free) \<Rightarrow>
     if bs \<le> 0 then Inl (Errorf ''statfs returned unexpected Bsize %d'' [itoa_int bs]) else
     let bsize = word_of_int bs; totalBytes = blocks * bsize; freeBytes = free * bsize in
     if totalBytes < freeBytes then
       Inl (Errorf ''statfs: freeBytes (%d) > totalBytes (%d)'' [itoa (unat freeBytes), itoa (unat totalBytes)])
     else let usedBytes = totalBytes - freeBytes in
       Inr (mega usedBytes, mega totalBytes,
         if 0 < totalBytes then of_nat (unat usedBytes) / of_nat (unat totalBytes) * 100 else 0))"

definition collectDiskSpaceViaStatfs :: "'w diskhost \<Rightarrow> string \<Rightarrow> ('w, float64 \<times> float64 \<times> float64) act" where
  "collectDiskSpaceViaStatfs D c = bindA (GetContainerInitPID (DProc D) (DIncus D) c) (\<lambda>pid.
     bindA (Statfs D (''/proc/'' @ itoa_int pid @ ''/root/tmp'')) (\<lambda>st. liftA (diskUsage st)))"

definition dfNumber :: "string \<Rightarrow> char \<Rightarrow> float64" where
  "dfNumber s c = (case parse_decimal (trim_suffix s [c]) of Some x \<Rightarrow> x | None \<Rightarrow> 0)"

definition parseDfBMOutput :: "string \<Rightarrow> float64 \<times> float64 \<times> float64" where
  "parseDfBMOutput output = (case str_split output [CHR 0x0A] of
     _ # line # _ \<Rightarrow> (let fs = str_fields line in if length fs < 5 then (0, 0, 0)
       else (dfNumber (fs ! 2) (CHR ''M''), dfNumber (fs ! 1) (CHR ''M''), dfNumber (fs ! 4) (CHR ''%'')))
   | _ \<Rightarrow> (0, 0, 0))"

definition collectDiskSpaceViaIncusExec :: "'w incus \<Rightarrow> string \<Rightarrow> ('w, float64 \<times> float64 \<times> float64) act" where
  "collectDiskSpaceViaIncusExec I c =
     bindA (IncusOutput I [''exec'', c, ''--'', ''df'', ''-BM'', ''/tmp'']) (\<lambda>out. retA (parseDfBMOutput out))"

definition CollectDiskSpace :: "'w diskhost \<Rightarrow> string \<Rightarrow> ('w, float64 \<times> float64 \<times> float64) act" where
  "CollectDiskSpace D c = bindA (tryA (collectDiskSpaceViaStatfs D c)) (\<lambda>r. case r of
     Inr x \<Rightarrow> retA x | Inl _ \<Rightarrow> collectDiskSpaceViaIncusExec (DIncus D) c)"

lemma percent_le: "a \<le> b \<Longrightarrow> 0 < b \<Longrightarrow> of_nat a / of_nat b * 100 \<le> (100 :: rat)"
  by (simp add: divide_le_eq)

text \<open>The used space is at most the total, whatever the host reports, products that wrap around included.\<close>

lemma diskUsage_bounds:
  assumes "diskUsage st = Inr (used, tot, pct)"
  shows "0 \<le> used \<and> used \<le> tot \<and> 0 \<le> pct \<and> pct \<le> 100"
proof -
  obtain bs blocks free where st: "st = (bs, blocks, free)" using prod_cases3 by blast
  define T F where "T = blocks * word_of_int bs" and "F = free * word_of_int bs"
  have le: "F \<le> T" and r: "used = mega (T - F)" "tot = mega T"
    "pct = (if 0 < T then of_nat (unat (T - F)) / of_nat (unat T) * 100 else 0)"
    using assms by (auto simp: diskUsage_def st Let_def T_def F_def not_less split: if_splits)
  have u: "unat (T - F) \<le> unat T" using le by (simp add: unat_sub)
  then have q: "of_nat (unat (T - F)) \<le> (of_nat (unat T) :: rat)" by (rule of_nat_mono)
  then have "mega (T - F) \<le> mega T" by (simp add: mega_def divide_right_mono)
  moreover have "pct \<le> 100"
  proof (cases "0 < T")
    case True
    then have "0 < unat T" by (simp add: unat_gt_0)
    from percent_le[OF u this] show ?thesis unfolding r(3) using True by (simp only: if_True)
  qed (simp add: r(3))
  moreover have "0 \<le> mega (T - F)"
    unfolding mega_def by (intro divide_nonneg_nonneg of_nat_0_le_iff zero_le_numeral)
  moreover have "0 \<le> pct"
  proof -
    have "0 \<le> of_nat (unat (T - F)) / of_nat (unat T) * (100 :: rat)"
      by (intro mult_nonneg_nonneg divide_nonneg_nonneg of_nat_0_le_iff zero_le_numeral)
    then show ?thesis unfolding r(3) by (cases "0 < T") (simp_all only: if_True if_False order_refl)
  qed
  ultimately show ?thesis using r(1,2) by simp
qed

section \<open>Rates between two polls\<close>

record fsMonitor =
  prevRead :: "64 word"
  prevWrite :: "64 word"
  prevTime :: "int option"

definition NewFilesystemMonitor :: fsMonitor where
  "NewFilesystemMonitor = \<lparr>prevRead = 0, prevWrite = 0, prevTime = None\<rparr>"

definition to_uint64 :: "float64 \<Rightarrow> 64 word" where
  "to_uint64 x = word_of_int \<lfloor>x\<rfloor>"

definition CollectFilesystem :: "'w diskhost \<Rightarrow> fsMonitor \<Rightarrow> string \<Rightarrow> 'w \<Rightarrow> (FilesystemStats result \<times> fsMonitor) \<times> 'w" where
  "CollectFilesystem D fm c w = (case CollectResourceStats (DProc D) (DIncus D) c w of
     (Inl e, w1) \<Rightarrow> ((Inl e, fm), w1)
   | (Inr rs, w1) \<Rightarrow>
      let rd = to_uint64 (IOReadMB rs * 1024 * 1024); wr = to_uint64 (IOWriteMB rs * 1024 * 1024);
          (disk, w2) = CollectDiskSpace D c w1;
          (used, tot, pct) = (case disk of Inr x \<Rightarrow> x | Inl _ \<Rightarrow> (0, 0, 0));
          base = noFilesystem\<lparr>fsAvailable := True, TmpUsedMB := used, TmpTotalMB := tot, TmpUsedPercent := pct\<rparr>;
          store = (\<lambda>now. \<lparr>prevRead = rd, prevWrite = wr, prevTime = Some now\<rparr>) in
      case prevTime fm of
        None \<Rightarrow> let (now, w3) = DClock D w2 in ((Inr base, store now), w3)
      | Some t0 \<Rightarrow> let (t1, w3) = DClock D w2; secs = of_int (t1 - t0) / 1000000000;
            dr = mega (counterDelta rd (prevRead fm)); dw = mega (counterDelta wr (prevWrite fm));
            (now, w4) = DClock D w3 in
          if 0 < secs then ((Inr (base\<lparr>TotalReadMB := dr, ReadRateMBPerSec := dr / secs, TotalWriteMB := dw, WriteRateMBPerSec := dw / secs\<rparr>),
            store now), w4)
          else ((Inr base, store now), w4))"

section \<open>A snapshot\<close>

record 'w Collector =
  cName :: string
  cIP :: string
  cWorkspace :: string
  cAllowedCIDRs :: "string list"
  cAllowedCIDRsFn :: "('w \<Rightarrow> string list \<times> 'w) option"
  cHost :: "'w diskhost"

definition currentAllowedCIDRs :: "'w Collector \<Rightarrow> 'w \<Rightarrow> string list \<times> 'w" where
  "currentAllowedCIDRs C w = (case cAllowedCIDRsFn C of
     None \<Rightarrow> (cAllowedCIDRs C, w)
   | Some fn \<Rightarrow> let (live, w') = fn w in (if live \<noteq> [] then live else cAllowedCIDRs C, w'))"

definition sourceError :: "string \<Rightarrow> 'a result \<Rightarrow> string list" where
  "sourceError source r = (case r of Inl e \<Rightarrow> [source @ '': '' @ err_text e] | Inr _ \<Rightarrow> [])"

definition Collect :: "'w Collector \<Rightarrow> fsMonitor \<Rightarrow> 'w \<Rightarrow> (MonitorSnapshot \<times> fsMonitor) \<times> 'w" where
  "Collect C fm w = (let D = cHost C; P = DProc D; I = DIncus D; c = cName C;
       (ts, w0) = DClock D w;
       (cidrs, w1) = currentAllowedCIDRs C w0;
       (net, w2) = CollectNetworkStats P I c (cIP C) cidrs w1;
       (procs, w3) = CollectProcessStats P I c w2;
       ((fs, fm'), w4) = CollectFilesystem D fm c w3;
       (res, w5) = CollectResourceStats P I c w4 in
     ((\<lparr>msTimestamp = ts, ContainerName = c, ContainerIP = cIP C,
        msNetwork = (case net of Inr n \<Rightarrow> n | Inl _ \<Rightarrow> \<lparr>ActiveConnections = 0, Connections = [], SuspiciousCount = 0\<rparr>),
        msProcesses = (case procs of Inr p \<Rightarrow> p | Inl _ \<Rightarrow> \<lparr>Available = False, TotalCount = 0, Processes = []\<rparr>),
        Filesystem = (case fs of Inr f \<Rightarrow> f\<lparr>WorkspacePath := cWorkspace C\<rparr> | Inl _ \<Rightarrow> noFilesystem),
        Resources = (case res of Inr r \<Rightarrow> r | Inl _ \<Rightarrow> noResources), Threats = [],
        msErrors = sourceError ''network'' net @ sourceError ''process'' procs @ sourceError ''filesystem'' fs @ sourceError ''resources'' res\<rparr>,
       fm'), w5))"

text \<open>Data that was collected is marked available; only then detections run on it.\<close>

lemma collected_available:
  "CollectProcessStats P I c w = (Inr ps, w') \<Longrightarrow> Available ps"
  "CollectFilesystem D fm c w = ((Inr fs, fm'), w') \<Longrightarrow> fsAvailable fs"
  by (auto simp: CollectProcessStats_def bindA_Inr wrapA_Inr)
    (auto simp: CollectFilesystem_def Let_def split: prod.splits sum.splits option.splits if_splits)

lemma failed_source_silent:
  assumes "Collect C fm w = ((snap, fm'), w')" and "msErrors snap = []"
  shows "fsAvailable (Filesystem snap)" "Available (msProcesses snap)"
proof -
  obtain ts w0 where 0: "DClock (cHost C) w = (ts, w0)" by fastforce
  obtain cidrs w1 where 1: "currentAllowedCIDRs C w0 = (cidrs, w1)" by fastforce
  obtain net w2 where 2: "CollectNetworkStats (DProc (cHost C)) (DIncus (cHost C)) (cName C) (cIP C) cidrs w1 = (net, w2)" by fastforce
  obtain procs w3 where 3: "CollectProcessStats (DProc (cHost C)) (DIncus (cHost C)) (cName C) w2 = (procs, w3)" by fastforce
  obtain fs fm1 w4 where 4: "CollectFilesystem (cHost C) fm (cName C) w3 = ((fs, fm1), w4)" by (metis prod.exhaust)
  obtain res w5 where 5: "CollectResourceStats (DProc (cHost C)) (DIncus (cHost C)) (cName C) w4 = (res, w5)" by fastforce
  have s: "Filesystem snap = (case fs of Inr f \<Rightarrow> f\<lparr>WorkspacePath := cWorkspace C\<rparr> | Inl _ \<Rightarrow> noFilesystem)"
    "msProcesses snap = (case procs of Inr p \<Rightarrow> p | Inl _ \<Rightarrow> \<lparr>Available = False, TotalCount = 0, Processes = []\<rparr>)"
    "msErrors snap = sourceError ''network'' net @ sourceError ''process'' procs @ sourceError ''filesystem'' fs @ sourceError ''resources'' res"
    using assms(1) by (auto simp: Collect_def Let_def 0 1 2 3 4 5)
  obtain f p where "fs = Inr f" "procs = Inr p" using assms(2) s(3) by (cases fs; cases procs) (auto simp: sourceError_def)
  then show "fsAvailable (Filesystem snap)" "Available (msProcesses snap)"
    using s(1,2) collected_available(1)[OF 3[unfolded \<open>procs = Inr p\<close>]] collected_available(2)[OF 4[unfolded \<open>fs = Inr f\<close>]] by simp_all
qed

end
