(* ===== verification/MonDaemon.thy ===== *)
theory MonDaemon
  imports MonResponder MonResources
begin

text \<open>
  The loop of the monitor, \<open>internal/monitor/daemon.go\<close>: the polls, the threats of the watchers that wait in
  channels of 32 places, and the responder both are handed to. An input is a tick of the poll timer, the arrival of
  a threat from a watcher, or the choice of a channel by \<open>select\<close>; starting the goroutines, the context and
  \<open>Stop\<close> are not modelled.
\<close>

section \<open>The loop\<close>

record 'w daemonenv =
  dRespond :: "'w respenv"
  dCollect :: "'w Collector"
  AuditSnapshot :: "MonitorSnapshot \<Rightarrow> ('w, unit) act"
  dOnError :: "gerr \<Rightarrow> 'w \<Rightarrow> 'w"

record Daemon =
  dDetector :: Detector
  dResponder :: Responder
  dFilesystem :: fsMonitor
  logCh :: "ThreatEvent list"
  procCh :: "ThreatEvent list"
  fileCh :: "ThreatEvent list"

datatype source = LogWatcher | ProcWatcher | FileWatcher

datatype input = Tick | Arrive source ThreatEvent | Take source

definition chanCap :: nat where "chanCap = 32"

text \<open>A threat that finds the channel full is dropped.\<close>

definition offer :: "ThreatEvent \<Rightarrow> ThreatEvent list \<Rightarrow> ThreatEvent list" where
  "offer t q = (if length q < chanCap then q @ [t] else q)"

fun chan :: "source \<Rightarrow> Daemon \<Rightarrow> ThreatEvent list" where
  "chan LogWatcher d = logCh d" | "chan ProcWatcher d = procCh d" | "chan FileWatcher d = fileCh d"

fun set_chan :: "source \<Rightarrow> ThreatEvent list \<Rightarrow> Daemon \<Rightarrow> Daemon" where
  "set_chan LogWatcher q d = d\<lparr>logCh := q\<rparr>" | "set_chan ProcWatcher q d = d\<lparr>procCh := q\<rparr>" | "set_chan FileWatcher q d = d\<lparr>fileCh := q\<rparr>"

fun source_context :: "source \<Rightarrow> string" where
  "source_context LogWatcher = ''log threat response''" | "source_context ProcWatcher = ''proc event threat response''"
| "source_context FileWatcher = ''file threat response''"

definition handleThreat :: "'w daemonenv \<Rightarrow> string \<Rightarrow> Daemon \<Rightarrow> ThreatEvent \<Rightarrow> 'w \<Rightarrow> Daemon \<times> 'w" where
  "handleThreat N ctxt d t w = (let ((r, R'), w1) = Handle (dRespond N) (dResponder d) t w in
     (d\<lparr>dResponder := R'\<rparr>, case r of Inl e \<Rightarrow> dOnError N (Wrapf ctxt e) w1 | Inr _ \<Rightarrow> w1))"

text \<open>The threats of a snapshot; the flag tells whether the loop returns.\<close>

fun handleThreats :: "'w daemonenv \<Rightarrow> Daemon \<Rightarrow> ThreatEvent list \<Rightarrow> 'w \<Rightarrow> (bool \<times> Daemon) \<times> 'w" where
  "handleThreats N d [] w = ((False, d), w)"
| "handleThreats N d (t # ts) w = (let (d', w') = handleThreat N ''threat response failed'' d t w in
     if Action t = ''killed'' then ((True, d'), w') else handleThreats N d' ts w')"

definition daemonTick :: "'w daemonenv \<Rightarrow> Daemon \<Rightarrow> 'w \<Rightarrow> (bool \<times> Daemon) \<times> 'w" where
  "daemonTick N d w = (let ((snap, fm), w1) = Collect (dCollect N) (dFilesystem d) w;
       w2 = foldl (\<lambda>v e. dOnError N (Errorf ''collection: %s'' [e]) v) w1 (msErrors snap);
       (threats, det) = Analyze (dDetector d) snap;
       (r, w3) = AuditSnapshot N (snap\<lparr>Threats := threats\<rparr>) w2;
       w4 = (case r of Inl e \<Rightarrow> dOnError N (Wrapf ''audit log write failed'' e) w3 | Inr _ \<Rightarrow> w3) in
     handleThreats N (d\<lparr>dFilesystem := fm, dDetector := det\<rparr>) threats w4)"

fun daemonStep :: "'w daemonenv \<Rightarrow> Daemon \<Rightarrow> input \<Rightarrow> 'w \<Rightarrow> (bool \<times> Daemon) \<times> 'w" where
  "daemonStep N d Tick w = daemonTick N d w"
| "daemonStep N d (Arrive s t) w = ((False, set_chan s (offer t (chan s d)) d), w)"
| "daemonStep N d (Take s) w = (case chan s d of
     [] \<Rightarrow> ((False, d), w)
   | t # q \<Rightarrow> (let (d', w') = handleThreat N (source_context s) (set_chan s q d) t w in ((False, d'), w')))"

section \<open>Channels\<close>

definition channels_bounded :: "Daemon \<Rightarrow> bool" where
  "channels_bounded d \<longleftrightarrow> length (logCh d) \<le> chanCap \<and> length (procCh d) \<le> chanCap \<and> length (fileCh d) \<le> chanCap"

lemma handleThreat_chans: "handleThreat N ctxt d t w = (d', w') \<Longrightarrow>
    logCh d' = logCh d \<and> procCh d' = procCh d \<and> fileCh d' = fileCh d"
  by (auto simp: handleThreat_def Let_def split: prod.splits)

lemma handleThreats_chans: "handleThreats N d ts w = ((b, d'), w') \<Longrightarrow>
    logCh d' = logCh d \<and> procCh d' = procCh d \<and> fileCh d' = fileCh d"
  by (induction ts arbitrary: d w) (auto simp: Let_def dest: handleThreat_chans split: prod.splits if_splits)

lemma offer_bounded: "length q \<le> chanCap \<Longrightarrow> length (offer t q) \<le> chanCap"
  by (simp add: offer_def)

lemma step_bounded:
  assumes "channels_bounded d" "daemonStep N d i w = ((b, d'), w')"
  shows "channels_bounded d'"
proof (cases i)
  case Tick
  then have "logCh d' = logCh d \<and> procCh d' = procCh d \<and> fileCh d' = fileCh d"
    using assms(2) by (auto simp: daemonTick_def Let_def dest: handleThreats_chans split: prod.splits)
  with assms(1) show ?thesis by (simp add: channels_bounded_def)
next
  case (Arrive s t)
  then show ?thesis using assms by (cases s) (auto simp: channels_bounded_def offer_bounded)
next
  case (Take s)
  then show ?thesis using assms
    by (cases s) (auto simp: channels_bounded_def dest: handleThreat_chans split: prod.splits list.splits)
qed

section \<open>The loop never ends by itself\<close>

lemma handleThreats_go_on: "\<forall>t \<in> set ts. Action t \<noteq> ''killed'' \<Longrightarrow> \<not> fst (fst (handleThreats N d ts w))"
  by (induction ts arbitrary: d w) (simp_all add: Let_def split: prod.split)

text \<open>Not even after a kill, although the code means to stop then.\<close>

lemma daemon_never_stops: "\<not> fst (fst (daemonStep N d i w))"
proof (cases i)
  case Tick
  have a: "Analyze (dDetector d) snap = (ts, det) \<Longrightarrow> \<forall>t \<in> set ts. Action t \<noteq> ''killed''" for snap ts det
  proof
    fix t
    assume "Analyze (dDetector d) snap = (ts, det)" "t \<in> set ts"
    then have "Action t = ''pending''" using pending[of t "dDetector d" snap] by simp
    then show "Action t \<noteq> ''killed''" by simp
  qed
  show ?thesis unfolding Tick daemonStep.simps daemonTick_def Let_def
    by (simp only: split: prod.split) (intro allI impI, rule handleThreats_go_on, erule a)
next
  case (Take s)
  then show ?thesis by (simp split: list.split prod.split)
qed simp

end
