(* ===== verification/Alias.thy ===== *)
theory Alias
  imports Naming Incus
begin

text \<open>
  Workspace aliases: the registry of aliases (\<open>internal/alias/registry.go\<close>) and what an argument of the command
  line stands for, a container name, an alias of a running container or an alias of a workspace to launch
  (\<open>internal/alias/resolve.go\<close>). The file operations, the TOML decoder and the incus listing are
  parameters. Saving writes a temporary file and renames it; here it is one operation.
\<close>

section \<open>The registry\<close>

record AliasEntry =
  aeWorkspace :: string
  aeProfile :: string

text \<open>A nil map, which the file \<open>null\<close> gives, is \<open>None\<close>.\<close>

type_synonym registry = "(string \<rightharpoonup> AliasEntry) option"

definition aliasChar :: "char \<Rightarrow> bool" where
  "aliasChar c \<longleftrightarrow> is_alnum c \<or> c = CHR ''_'' \<or> c = CHR ''-''"

definition ValidateAlias :: "string \<Rightarrow> unit result" where
  "ValidateAlias alias = (case alias of
     [] \<Rightarrow> Inr ()
   | c # cs \<Rightarrow> if 64 < length alias then Inl (Errorf ''alias %q is too long (max 64 characters)'' [alias])
       else if (is_lower c \<or> is_upper c) \<and> list_all aliasChar cs then Inr ()
       else Inl (Errorf ''alias %q is invalid: must start with a letter and contain only letters, digits, hyphens, and underscores'' [alias]))"

definition aliasEntry :: "json \<Rightarrow> AliasEntry option" where
  "aliasEntry v = Option.bind (struct_members v) (\<lambda>ms. Option.bind (field_str ''workspace'' ms) (\<lambda>ws.
     map_option (\<lambda>p. \<lparr>aeWorkspace = ws, aeProfile = p\<rparr>) (field_str ''profile'' ms)))"

fun aliasEntries :: "(string \<times> json) list \<Rightarrow> (string \<rightharpoonup> AliasEntry) \<Rightarrow> (string \<rightharpoonup> AliasEntry) option" where
  "aliasEntries [] m = Some m"
| "aliasEntries ((k, v) # ms) m = Option.bind (aliasEntry v) (\<lambda>e. aliasEntries ms (m(k \<mapsto> e)))"

definition parseRegistry :: "string \<Rightarrow> registry result" where
  "parseRegistry text = (if text = [] then Inr (Some Map.empty) else case json_parse text of
     Some JNull \<Rightarrow> Inr None
   | Some (JObj ms) \<Rightarrow> (case aliasEntries ms Map.empty of
       Some m \<Rightarrow> Inr (Some m) | None \<Rightarrow> Inl (ExtErr ''json: cannot unmarshal value into Go struct''))
   | _ \<Rightarrow> Inl (ExtErr ''invalid alias registry''))"

text \<open>Assigning to an entry of a nil map panics.\<close>

definition Register :: "registry \<Rightarrow> string \<Rightarrow> string \<Rightarrow> string \<Rightarrow> registry result" where
  "Register reg alias workspace profile = (
     case Option.bind reg (\<lambda>m. m alias) of
       Some e \<Rightarrow> if aeWorkspace e \<noteq> workspace
         then Inl (Errorf ''alias %q is already registered to workspace %q (current request: %q)'' [alias, aeWorkspace e, workspace])
         else Inr (map_option (\<lambda>m. m(alias \<mapsto> \<lparr>aeWorkspace = workspace, aeProfile = profile\<rparr>)) reg)
     | None \<Rightarrow> (case reg of
         None \<Rightarrow> Inl (ExtErr ''panic: assignment to entry in nil map'')
       | Some m \<Rightarrow> Inr (Some (m(alias \<mapsto> \<lparr>aeWorkspace = workspace, aeProfile = profile\<rparr>)))))"

definition Lookup :: "registry \<Rightarrow> string \<Rightarrow> AliasEntry option" where
  "Lookup reg alias = Option.bind reg (\<lambda>m. m alias)"

text \<open>\<open>ReadRegistry\<close> gives no text when the file does not exist; \<open>ProjectAlias\<close> is the alias of the
  directory's \<open>.coi/config.toml\<close>, empty when it cannot be read.\<close>

record 'w aliasenv =
  ReadRegistry :: "('w, string option) act"
  SaveRegistry :: "registry \<Rightarrow> ('w, unit) act"
  Getwd :: "('w, string) act"
  ProjectAlias :: "string \<Rightarrow> 'w \<Rightarrow> string \<times> 'w"

definition LoadRegistry :: "'w aliasenv \<Rightarrow> ('w, registry) act" where
  "LoadRegistry E = bindA (wrapA ''failed to read alias registry'' (ReadRegistry E)) (\<lambda>r. case r of
     None \<Rightarrow> retA (Some Map.empty)
   | Some text \<Rightarrow> liftA (wrapE ''failed to parse alias registry'' (parseRegistry text)))"

section \<open>Arguments\<close>

definition splitAliasSlot :: "string \<Rightarrow> string \<times> int" where
  "splitAliasSlot arg = (case last_index arg (CHR ''-'') of
     None \<Rightarrow> (arg, 0)
   | Some idx \<Rightarrow> if idx = 0 \<or> idx + 1 = length arg then (arg, 0) else
       (case atoi (drop (idx + 1) arg) of None \<Rightarrow> (arg, 0) | Some n \<Rightarrow> (take idx arg, n)))"

definition containerNamePattern :: "naming \<Rightarrow> string \<Rightarrow> bool" where
  "containerNamePattern e arg \<longleftrightarrow> (let pfx = GetContainerPrefix e; rest = drop (length pfx) arg in
     has_prefix arg pfx \<and> length (take 8 rest) = 8 \<and> list_all Naming.is_hex (take 8 rest) \<and>
     has_prefix (drop 8 rest) ''-'' \<and> all_digits (drop 9 rest))"

definition IsContainerName :: "naming \<Rightarrow> string \<Rightarrow> bool" where
  "IsContainerName e arg \<longleftrightarrow> containerNamePattern e arg \<or> has_prefix arg (GetContainerPrefix e)"

text \<open>The members of decoded objects, read with type assertions: of equal keys the last one counts.\<close>

definition member :: "string \<Rightarrow> (string \<times> json) list \<Rightarrow> json option" where
  "member k ms = map_of (rev ms) k"

definition str_member :: "string \<Rightarrow> (string \<times> json) list \<Rightarrow> string" where
  "str_member k ms = (case member k ms of Some (JStr s) \<Rightarrow> s | _ \<Rightarrow> [])"

definition obj_member :: "string \<Rightarrow> (string \<times> json) list \<Rightarrow> (string \<times> json) list" where
  "obj_member k ms = (case member k ms of Some (JObj m) \<Rightarrow> m | _ \<Rightarrow> [])"

definition runningWithAlias :: "string \<Rightarrow> (string \<times> json) list \<Rightarrow> bool" where
  "runningWithAlias alias ms \<longleftrightarrow> str_member ''status'' ms = ''Running'' \<and>
     str_member ''user.coi.alias'' (obj_member ''config'' ms) = alias"

definition FindContainersByAlias :: "'w incus \<Rightarrow> naming \<Rightarrow> string \<Rightarrow> ('w, string list) act" where
  "FindContainersByAlias I e alias = bindA (IncusOutput I [''list'', ''^'' @ GetContainerPrefix e, ''--format=json'']) (\<lambda>output.
     bindA (wrapA ''failed to parse container list'' (liftA (json_structs Some output))) (\<lambda>cs.
     retA (map (str_member ''name'') (filter (runningWithAlias alias) cs))))"

definition atSlot :: "naming \<Rightarrow> int \<Rightarrow> string \<Rightarrow> bool" where
  "atSlot e n name \<longleftrightarrow> (case ParseContainerName e name of Inr (_, s) \<Rightarrow> s = n | Inl _ \<Rightarrow> False)"

definition ResolveAliasForRunning :: "'w incus \<Rightarrow> naming \<Rightarrow> string \<Rightarrow> ('w, string) act" where
  "ResolveAliasForRunning I e arg = (if IsContainerName e arg then retA arg else
     let (alias, slotNum) = splitAliasSlot arg in
     bindA (wrapA ''failed to find containers by alias'' (FindContainersByAlias I e alias)) (\<lambda>cs.
     if cs = [] then failA (Errorf ''container or alias %q not found'' [alias])
     else if 0 < slotNum then (case find (atSlot e slotNum) cs of
         Some name \<Rightarrow> retA name
       | None \<Rightarrow> failA (Errorf ''container or alias %q not found at slot %d'' [alias, itoa_int slotNum]))
     else if length cs = 1 then retA (hd cs)
     else failA (Errorf ''alias %q matches %d running containers'' ([alias, itoa (length cs)] @ cs))))"

record ResolvedAlias =
  raWorkspace :: string
  raProfile :: string
  raSlot :: int

definition ResolveAliasForLaunch :: "'w aliasenv \<Rightarrow> string \<Rightarrow> ('w, ResolvedAlias) act" where
  "ResolveAliasForLaunch E arg = (let (alias, slotNum) = splitAliasSlot arg;
       notFound = Errorf ''alias %q not found'' [alias, alias] in
     bindA (wrapA ''failed to load alias registry'' (LoadRegistry E)) (\<lambda>reg. case Lookup reg alias of
       Some e \<Rightarrow> retA \<lparr>raWorkspace = aeWorkspace e, raProfile = aeProfile e, raSlot = slotNum\<rparr>
     | None \<Rightarrow> bindA (tryA (Getwd E)) (\<lambda>c. case c of
         Inl _ \<Rightarrow> failA notFound
       | Inr cwd \<Rightarrow> (\<lambda>w. case ProjectAlias E cwd w of (pa, w1) \<Rightarrow>
           if pa = alias then
             (let ws = path_clean cwd in
              bindA (wrapA ''failed to auto-register alias'' (liftA (Register reg alias ws []))) (\<lambda>reg'.
              bindA (wrapA ''failed to persist auto-registered alias'' (SaveRegistry E reg')) (\<lambda>_.
              retA \<lparr>raWorkspace = ws, raProfile = [], raSlot = slotNum\<rparr>)) w1)
           else failA notFound w1))))"

section \<open>Aliases with and without a slot\<close>

text \<open>An alias that ends in a hyphen and a number reads as a slot of another alias.\<close>

definition numbered :: "string \<Rightarrow> bool" where
  "numbered alias \<longleftrightarrow> fst (splitAliasSlot alias) \<noteq> alias"

lemma split_slot:
  assumes "alias \<noteq> []" "int n < 2 ^ 63"
  shows "splitAliasSlot (alias @ ''-'' @ itoa n) = (alias, int n)"
proof -
  have "CHR ''-'' \<notin> set (itoa n)" by (rule itoa_notin) (simp add: is_digit_def)
  then have "last_index (alias @ CHR ''-'' # itoa n) (CHR ''-'') = Some (length alias)"
    by (rule last_index_app)
  then show ?thesis using assms by (simp add: splitAliasSlot_def)
qed

lemma not_numbered: "\<not> numbered alias \<Longrightarrow> splitAliasSlot alias = (alias, 0)"
proof -
  assume n: "\<not> numbered alias"
  have "fst (splitAliasSlot alias) = alias \<Longrightarrow> snd (splitAliasSlot alias) = 0"
  proof (cases "last_index alias (CHR ''-'')")
    case (Some i)
    then have "i < length alias" by (simp add: last_index_Some)
    then have "length (take i alias) < length alias" by simp
    then show "fst (splitAliasSlot alias) = alias \<Longrightarrow> snd (splitAliasSlot alias) = 0"
      using Some by (auto simp: splitAliasSlot_def split: option.splits if_splits)
  qed (simp add: splitAliasSlot_def)
  with n show ?thesis by (simp add: numbered_def prod_eq_iff)
qed

lemma register_lookup: "Register reg alias ws p = Inr reg' \<Longrightarrow>
    Lookup reg' a = (if a = alias then Some \<lparr>aeWorkspace = ws, aeProfile = p\<rparr> else Lookup reg a)"
  by (cases reg) (auto simp: Register_def Lookup_def split: option.splits if_splits)

text \<open>
  What was registered is found again, with and without a slot, as long as the alias is not numbered; no one
  else can register it for another workspace.
\<close>

lemma alias_roundtrip:
  assumes "alias \<noteq> []" and "\<not> numbered alias" and "Register reg alias ws p = Inr reg'"
    and "LoadRegistry E w = (Inr reg', w)" and "int n < 2 ^ 63"
  shows "ResolveAliasForLaunch E alias w = (Inr \<lparr>raWorkspace = ws, raProfile = p, raSlot = 0\<rparr>, w)"
    "ResolveAliasForLaunch E (alias @ ''-'' @ itoa n) w = (Inr \<lparr>raWorkspace = ws, raProfile = p, raSlot = int n\<rparr>, w)"
    "ws' \<noteq> ws \<Longrightarrow> \<exists>e. Register reg' alias ws' p' = Inl e"
proof -
  have l: "Lookup reg' alias = Some \<lparr>aeWorkspace = ws, aeProfile = p\<rparr>" using register_lookup[OF assms(3)] by simp
  show "ResolveAliasForLaunch E alias w = (Inr \<lparr>raWorkspace = ws, raProfile = p, raSlot = 0\<rparr>, w)"
    "ResolveAliasForLaunch E (alias @ ''-'' @ itoa n) w = (Inr \<lparr>raWorkspace = ws, raProfile = p, raSlot = int n\<rparr>, w)"
    using assms(4) l by (simp_all only: ResolveAliasForLaunch_def not_numbered[OF assms(2)] split_slot[OF assms(1,5)] Let_def prod.case)
      (simp_all add: bindA_def wrapA_def)
  show "ws' \<noteq> ws \<Longrightarrow> \<exists>e. Register reg' alias ws' p' = Inl e" using l by (simp add: Register_def Lookup_def)
qed

text \<open>An argument that is no container name only ever resolves to a running container with the alias, at the slot if one is given.\<close>

lemma running_alias_sound:
  assumes "ResolveAliasForRunning I e arg w = (Inr name, w')" and "\<not> IsContainerName e arg"
  shows "\<exists>o1 cs ms. fst (IncusOutput I [''list'', ''^'' @ GetContainerPrefix e, ''--format=json''] w) = Inr o1 \<and>
    json_structs Some o1 = Inr cs \<and> ms \<in> set cs \<and> str_member ''name'' ms = name \<and> runningWithAlias (fst (splitAliasSlot arg)) ms \<and>
    (0 < snd (splitAliasSlot arg) \<longrightarrow> atSlot e (snd (splitAliasSlot arg)) name)"
proof -
  obtain al n where s: "splitAliasSlot arg = (al, n)" by fastforce
  obtain nms w1 where f: "FindContainersByAlias I e al w = (Inr nms, w1)"
    and pick: "name \<in> set nms" "0 < n \<longrightarrow> atSlot e n name"
    using assms s by (auto simp: ResolveAliasForRunning_def bindA_Inr wrapA_Inr find_Some_iff split: if_splits option.splits)
  obtain o1 w2 cs where "IncusOutput I [''list'', ''^'' @ GetContainerPrefix e, ''--format=json''] w = (Inr o1, w2)"
    "json_structs Some o1 = Inr cs" "nms = map (str_member ''name'') (filter (runningWithAlias al) cs)"
    using f by (auto simp: FindContainersByAlias_def bindA_Inr wrapA_Inr)
  with pick s show ?thesis by auto
qed

text \<open>A numbered alias is accepted and registered, and then never found.\<close>

lemma numbered_alias_unreachable:
  assumes "LoadRegistry E w = (Inr reg', w)" and "Register reg ''web-2'' ws p = Inr reg'" and "Lookup reg ''web'' = None"
    and "Getwd E w = (Inl er, w)"
  shows "ValidateAlias ''web-2'' = Inr ()" "\<exists>err. ResolveAliasForLaunch E ''web-2'' w = (Inl err, w)"
proof -
  show "ValidateAlias ''web-2'' = Inr ()" by (simp add: ValidateAlias_def aliasChar_def char_defs)
  have s: "splitAliasSlot ''web-2'' = (''web'', 2)" using split_slot[of "''web''" 2] by (simp add: itoa.simps)
  have "Lookup reg' ''web'' = None" using register_lookup[OF assms(2), of "''web''"] assms(3) by simp
  then show "\<exists>err. ResolveAliasForLaunch E ''web-2'' w = (Inl err, w)"
    using assms(1,4) by (simp only: ResolveAliasForLaunch_def s Let_def prod.case) (simp add: bindA_def wrapA_def tryA_def)
qed

end
