(* ===== verification/MonNft.thy ===== *)
theory MonNft
  imports MonResponder IncusManager
begin

text \<open>
  The network monitor, \<open>internal/nftmonitor\<close>: the log rules it puts in front of the kernel's forward chain
  (\<open>nftrules.go\<close>), the kernel log lines they give (\<open>logreader.go\<close>), the verdict on each event
  (\<open>netdetector.go\<close>), which goes to a responder of its own (\<open>daemon.go\<close>), and the version check (\<open>version.go\<close>).
  Running \<open>nft\<close> (through \<open>sudo\<close> or in a Lima VM), the journal and the clock are parameters.
\<close>

section \<open>Log lines\<close>

record NetworkEvent =
  neTimestamp :: int
  neContainerIP :: string
  SrcIP :: string
  DstIP :: string
  DstPort :: int
  SrcPort :: int
  neProtocol :: string
  Flags :: string
  Interface :: string

definition extractIPFromPrefix :: "string \<Rightarrow> string \<Rightarrow> string" where
  "extractIPFromPrefix line pre = (case str_index line pre of
     None \<Rightarrow> []
   | Some i \<Rightarrow> (let rest = drop (i + length pre) line in
       case str_index rest '']'' of None \<Rightarrow> [] | Some j \<Rightarrow> take j rest))"

definition re_ws :: "char \<Rightarrow> bool" where
  "re_ws c \<longleftrightarrow> c \<in> {CHR '' '', CHR 0x09, CHR 0x0A, CHR 0x0C, CHR 0x0D}"

text \<open>The leftmost match of the field's name followed by at least one character that is no white space.\<close>

fun extractField :: "string \<Rightarrow> string \<Rightarrow> string" where
  "extractField [] field = []"
| "extractField (c # cs) field = (let v = takeWhile (\<lambda>x. \<not> re_ws x) (drop (length field) (c # cs)) in
     if has_prefix (c # cs) field \<and> v \<noteq> [] then v else extractField cs field)"

definition extractTCPFlags :: "string \<Rightarrow> string" where
  "extractTCPFlags line = str_join '','' (filter (\<lambda>f. str_contains line ('' '' @ f @ '' '') \<or> has_suffix line ('' '' @ f))
     [''SYN'', ''ACK'', ''FIN'', ''RST'', ''PSH''])"

definition logPrefixes :: "string list" where
  "logPrefixes = [''NFT_COI['', ''NFT_DNS['', ''NFT_SUSPICIOUS['']"

definition portField :: "string \<Rightarrow> string \<Rightarrow> int" where
  "portField line field = (case atoi (extractField line field) of Some n \<Rightarrow> n | None \<Rightarrow> 0)"

definition parseNFTLog :: "int \<Rightarrow> string \<Rightarrow> NetworkEvent option" where
  "parseNFTLog now line = (case find (str_contains line) logPrefixes of
     None \<Rightarrow> None
   | Some pre \<Rightarrow> (let cip = extractIPFromPrefix line pre in if cip = [] then None else
       Some \<lparr>neTimestamp = now, neContainerIP = cip, SrcIP = extractField line ''SRC='', DstIP = extractField line ''DST='',
         DstPort = portField line ''DPT='', SrcPort = portField line ''SPT='', neProtocol = extractField line ''PROTO='',
         Flags = extractTCPFlags line, Interface = extractField line ''IN='' @ ''/'' @ extractField line ''OUT=''\<rparr>))"

section \<open>Configuration\<close>

record nftConfig =
  ncContainerName :: string
  ncContainerIP :: string
  ncAllowedCIDRs :: "string list"
  ncGatewayIP :: string
  RateLimitPerSecond :: int
  DNSQueryThreshold :: int
  LogDNSQueries :: bool

text \<open>Events of other containers are skipped.\<close>

definition accepted :: "nftConfig \<Rightarrow> int \<Rightarrow> string \<Rightarrow> NetworkEvent option" where
  "accepted cfg now line = (case parseNFTLog now line of
     Some e \<Rightarrow> if neContainerIP e = ncContainerIP cfg \<and> SrcIP e = ncContainerIP cfg then Some e else None
   | None \<Rightarrow> None)"

section \<open>The verdict\<close>

record nftDetector =
  dnsQueryCount :: "string \<Rightarrow> int"
  dnsQueryReset :: int

definition NewNetworkDetector :: "int \<Rightarrow> nftDetector" where
  "NewNetworkDetector now = \<lparr>dnsQueryCount = (\<lambda>_. 0), dnsQueryReset = now\<rparr>"

definition eventThreat :: "NetworkEvent \<Rightarrow> ThreatLevel \<Rightarrow> string \<Rightarrow> string \<Rightarrow> ThreatEvent" where
  "eventThreat e level title desc = newThreatEvent (neTimestamp e) level ''network'' title desc
     (EvNetwork \<lparr>ntConnection = \<lparr>Protocol = neProtocol e, LocalAddr = SrcIP e @ '':'' @ itoa_int (SrcPort e),
        RemoteAddr = DstIP e @ '':'' @ itoa_int (DstPort e), State = [], UID = 0, Suspicious = False, SuspectReason = []\<rparr>,
       Reason = neProtocol e @ '' connection to '' @ DstIP e @ '':'' @ itoa_int (DstPort e), RemoteHost = DstIP e\<rparr>)"

definition analyzeDNSQuery :: "nftConfig \<Rightarrow> nftDetector \<Rightarrow> NetworkEvent \<Rightarrow> ThreatEvent option \<times> nftDetector" where
  "analyzeDNSQuery cfg nd e = (let count = dnsQueryCount nd (neContainerIP e) + 1;
       nd' = nd\<lparr>dnsQueryCount := (dnsQueryCount nd)(neContainerIP e := count)\<rparr> in
     (if 0 < DNSQueryThreshold cfg \<and> DNSQueryThreshold cfg < count then
        Some (eventThreat e Warning ''High DNS query volume'' (itoa_int count @ '' queries in last minute (threshold: '' @
          itoa_int (DNSQueryThreshold cfg) @ '') - potential DNS tunneling''))
      else if ncGatewayIP cfg \<noteq> [] \<and> DstIP e \<noteq> ncGatewayIP cfg \<and> \<not> inAllowlist (DstIP e) (ncAllowedCIDRs cfg) then
        Some (eventThreat e Warning ''DNS query to non-standard server'' (''Query to '' @ DstIP e @ '' (expected: '' @
          ncGatewayIP cfg @ '' or allowlist)''))
      else None, nd'))"

text \<open>The clock says \<open>now\<close>; the counters start anew after more than a minute.\<close>

definition AnalyzeEvent :: "nftConfig \<Rightarrow> nftDetector \<Rightarrow> int \<Rightarrow> NetworkEvent \<Rightarrow> ThreatEvent option \<times> nftDetector" where
  "AnalyzeEvent cfg nd0 now e = (let nd = (if 60000000000 < now - dnsQueryReset nd0 then NewNetworkDetector now else nd0);
       dest = DstIP e @ '':'' @ itoa_int (DstPort e) in
     if isRFC1918 (DstIP e) \<and> DstIP e \<noteq> ncGatewayIP cfg then
       (Some (eventThreat e High ''Connection to private network'' (''RFC1918 address: '' @ dest @ '' (should be blocked by firewall)'')), nd)
     else if DstIP e = ''169.254.169.254'' then
       (Some (eventThreat e Critical ''Metadata endpoint access'' ''Attempted connection to cloud metadata endpoint''), nd)
     else if isSuspiciousPort (DstPort e) then
       (Some (eventThreat e Critical ''Connection to suspicious port'' (''C2/backdoor port '' @ itoa_int (DstPort e) @ '' to '' @ DstIP e)), nd)
     else if ncAllowedCIDRs cfg \<noteq> [] \<and> \<not> inAllowlist (DstIP e) (ncAllowedCIDRs cfg) then
       (Some (eventThreat e High ''Unauthorized connection attempt'' (''IP not in allowlist: '' @ dest)), nd)
     else if DstPort e = 53 then analyzeDNSQuery cfg nd e
     else (None, nd))"

text \<open>The responder of this monitor is made with both automatic reactions on.\<close>

definition nftResponder :: "nftConfig \<Rightarrow> Responder" where
  "nftResponder cfg = NewResponder (ncContainerName cfg) True True"

text \<open>One event of the container: the threat, if any, is handed to the responder.\<close>

definition processEvent :: "'w respenv \<Rightarrow> nftConfig \<Rightarrow> nftDetector \<times> Responder \<Rightarrow> NetworkEvent \<Rightarrow> 'w \<Rightarrow> (nftDetector \<times> Responder) \<times> 'w" where
  "processEvent N cfg s e w = (let (now, w1) = RClock N w; (t, nd) = AnalyzeEvent cfg (fst s) now e in
     case t of None \<Rightarrow> ((nd, snd s), w1)
     | Some t \<Rightarrow> (let ((r, R'), w2) = Handle N (snd s) t w1 in
         ((nd, R'), case r of Inl er \<Rightarrow> OnError N (Wrapf ''error handling threat'' er) w2 | Inr _ \<Rightarrow> w2)))"

section \<open>Log rules\<close>

definition monitorRulesPresentForIP :: "string \<Rightarrow> string \<Rightarrow> bool" where
  "monitorRulesPresentForIP chainText ip \<longleftrightarrow> ip \<noteq> [] \<and>
     (\<exists>pre \<in> set [''NFT_COI'', ''NFT_DNS'', ''NFT_SUSPICIOUS'']. str_contains chainText (pre @ ''['' @ ip @ '']''))"

definition insertPrefix :: "string \<Rightarrow> string list" where
  "insertPrefix ip = [''insert'', ''rule'', ''ip'', ''filter'', ''FORWARD'', ''ip'', ''saddr'', ip]"

definition logSuffix :: "string \<Rightarrow> string \<Rightarrow> string list" where
  "logSuffix tag ip = [''log'', ''prefix'', [CHR 0x22] @ tag @ ''['' @ ip @ '']: '' @ [CHR 0x22], ''level'', ''info'', ''counter'']"

definition addSuspiciousTrafficRule :: "'w netenv \<Rightarrow> nftConfig \<Rightarrow> ('w, unit) act" where
  "addSuspiciousTrafficRule E cfg = (let ip = ncContainerIP cfg in
     bindA (nft_cmd E (insertPrefix ip @ [''ip'', ''daddr'', ''{'', ''169.254.169.254'', '','', ''10.0.0.0/8'', '','', ''172.16.0.0/12'',
        '','', ''192.168.0.0/16'', ''}''] @ logSuffix ''NFT_SUSPICIOUS'' ip)) (\<lambda>_.
     bindA (nft_cmd E (insertPrefix ip @ [''tcp'', ''dport'', ''{'', ''4444,5555,1234,31337,12345,6666-6697'', ''}''] @
        logSuffix ''NFT_SUSPICIOUS'' ip)) (\<lambda>_. retA ())))"

definition addDNSRule :: "'w netenv \<Rightarrow> nftConfig \<Rightarrow> ('w, unit) act" where
  "addDNSRule E cfg = (let ip = ncContainerIP cfg in
     bindA (nft_cmd E (insertPrefix ip @ [''udp'', ''dport'', ''53''] @ logSuffix ''NFT_DNS'' ip)) (\<lambda>_. retA ()))"

definition addGeneralTrafficRule :: "'w netenv \<Rightarrow> nftConfig \<Rightarrow> ('w, unit) act" where
  "addGeneralTrafficRule E cfg = (let ip = ncContainerIP cfg;
       rate = (if RateLimitPerSecond cfg \<le> 0 then 100 else RateLimitPerSecond cfg) in
     bindA (nft_cmd E (insertPrefix ip @ [''limit'', ''rate'', itoa_int rate @ ''/second''] @ logSuffix ''NFT_COI'' ip)) (\<lambda>_. retA ()))"

definition listForward :: "string list" where
  "listForward = [''list'', ''chain'', ''ip'', ''filter'', ''FORWARD'']"

definition ensureChainExists :: "'w netenv \<Rightarrow> ('w, unit) act" where
  "ensureChainExists E = bindA (tryA (nft_cmd E listForward)) (\<lambda>r. case r of
     Inr _ \<Rightarrow> retA ()
   | Inl _ \<Rightarrow> thenA (warnA (nft_cmd E [''add'', ''table'', ''ip'', ''filter'']))
      (bindA (wrapA ''failed to create FORWARD chain'' (nft_cmd E [''add'', ''chain'', ''ip'', ''filter'', ''FORWARD'', ''{'', ''type'',
         ''filter'', ''hook'', ''forward'', ''priority'', ''0'', '';'', ''}''])) (\<lambda>_. retA ())))"

definition AddRules :: "'w netenv \<Rightarrow> nftConfig \<Rightarrow> ('w, unit) act" where
  "AddRules E cfg = thenA (wrapA ''failed to ensure chain exists'' (ensureChainExists E))
     (bindA (tryA (nft_cmd E listForward)) (\<lambda>r.
      if (case r of Inr out \<Rightarrow> monitorRulesPresentForIP out (ncContainerIP cfg) | Inl _ \<Rightarrow> False) then retA () else
      thenA (wrapA ''failed to add suspicious traffic rule'' (addSuspiciousTrafficRule E cfg))
     (thenA (if LogDNSQueries cfg then wrapA ''failed to add DNS rule'' (addDNSRule E cfg) else retA ())
       (wrapA ''failed to add general traffic rule'' (addGeneralTrafficRule E cfg)))))"

fun removeListed :: "'w netenv \<Rightarrow> string \<Rightarrow> string list \<Rightarrow> nat \<Rightarrow> ('w, nat) act" where
  "removeListed E ip [] n = retA n"
| "removeListed E ip (line # ls) n = (
     if \<exists>pre \<in> set (monPrefixes ip). str_contains line pre then
       (let handle = extractNFTHandle line in
        if handle = [] then removeListed E ip ls n
        else bindA (wrapA (''failed to delete rule handle '' @ handle)
            (nft_cmd E [''delete'', ''rule'', ''ip'', ''filter'', ''FORWARD'', ''handle'', handle])) (\<lambda>_. removeListed E ip ls (Suc n)))
     else removeListed E ip ls n)"

definition RemoveLogRules :: "'w netenv \<Rightarrow> nftConfig \<Rightarrow> ('w, unit) act" where
  "RemoveLogRules E cfg = bindA (wrapA ''failed to list rules'' (nft_cmd E (''-a'' # listForward))) (\<lambda>out.
     bindA (removeListed E (ncContainerIP cfg) (str_split out [CHR 0x0A]) 0) (\<lambda>n.
     if n = 0 then failA (Errorf ''no NFT rules found to remove for IP %s (this may indicate rules were not created or IP changed)''
       [ncContainerIP cfg]) else retA ()))"

section \<open>The version of nft\<close>

definition ParseNFTVersion :: "string \<Rightarrow> Version result" where
  "ParseNFTVersion s0 = (let s = trim_space s0; parts = str_splitn 4 s ''.'' in
     if s = [] then Inl (Errorf ''empty version string'' [])
     else if length parts < 2 then Inl (Errorf ''invalid version format: %q (expected major.minor)'' [s])
     else case atoi (parts ! 0) of None \<Rightarrow> Inl (Errorf ''invalid major version in %q'' [s])
       | Some major \<Rightarrow> (case atoi (parts ! 1) of None \<Rightarrow> Inl (Errorf ''invalid minor version in %q'' [s])
           | Some minor \<Rightarrow> (case (if 3 \<le> length parts then atoi (parts ! 2) else Some 0) of
               None \<Rightarrow> Inl (Errorf ''invalid patch version in %q'' [s])
             | Some patch \<Rightarrow> Inr \<lparr> VMajor = major, VMinor = minor, VPatch = patch, VRaw = s \<rparr>)))"

definition ExtractNFTVersion :: "string \<Rightarrow> string result" where
  "ExtractNFTVersion output0 = (let output = trim_space output0 in
     if output = [] then Inl (Errorf ''empty version output'' [])
     else case find (\<lambda>f. has_prefix f ''v'') (str_fields output) of
       Some f \<Rightarrow> Inr (trim_prefix f ''v'')
     | None \<Rightarrow> Inl (Errorf ''could not find version in output: %q'' [output]))"

definition MeetsMinimumNFTVersion :: "Version \<Rightarrow> bool" where
  "MeetsMinimumNFTVersion v \<longleftrightarrow> (if 0 < VMajor v then True else if VMajor v = 0 then
     (if 9 < VMinor v then True else if VMinor v = 9 then 0 \<le> VPatch v else False) else False)"

section \<open>Reading the fields of a kernel log line\<close>

text \<open>The fields the kernel writes, each a key and a value, and the text that introduces and follows them\<close>

fun fields_text :: "(string \<times> string) list \<Rightarrow> string" where
  "fields_text [] = []"
| "fields_text ((k, v) # ps) = k @ ''='' @ v @ (if ps = [] then [] else '' '' @ fields_text ps)"

definition plain_text :: "string \<Rightarrow> bool" where
  "plain_text s \<longleftrightarrow> (\<forall>c \<in> set s. c \<noteq> CHR ''='' \<and> c \<noteq> CHR ''['' \<and> \<not> re_ws c)"

definition first_field :: "string \<Rightarrow> (string \<times> string) list \<Rightarrow> string" where
  "first_field key ps = (case find (\<lambda>(k, v). suffix key k \<and> v \<noteq> []) ps of Some (_, v) \<Rightarrow> v | None \<Rightarrow> [])"

lemma first_eq:
  assumes "CHR ''='' \<notin> set a" "CHR ''='' \<notin> set k" "has_prefix (a @ CHR ''='' # r) (k @ ''='')"
  shows "a = k"
proof -
  obtain x where "a @ CHR ''='' # r = k @ CHR ''='' # x"
    using assms(3) by (auto simp: has_prefix_iff)
  then show ?thesis using assms(1,2)
    by (auto simp: append_eq_append_conv2 Cons_eq_append_conv append_eq_Cons_conv)
qed

lemma field_skip:
  "CHR ''='' \<notin> set a \<Longrightarrow> CHR ''='' \<notin> set k \<Longrightarrow> k \<noteq> [] \<Longrightarrow> \<not> suffix k a \<or> takeWhile (\<lambda>x. \<not> re_ws x) r = [] \<Longrightarrow>
    extractField (a @ CHR ''='' # r) (k @ ''='') = extractField r (k @ ''='')"
proof (induction a)
  case Nil
  then have "\<not> has_prefix (CHR ''='' # r) (k @ ''='')" using first_eq[of "[]" k r] by auto
  then show ?case by simp
next
  case (Cons c a)
  have IH: "extractField (a @ CHR ''='' # r) (k @ ''='') = extractField r (k @ ''='')"
    using Cons by (auto simp: suffix_Cons)
  have "\<not> has_prefix ((c # a) @ CHR ''='' # r) (k @ ''='') \<or>
      takeWhile (\<lambda>x. \<not> re_ws x) (drop (length (k @ ''='')) ((c # a) @ CHR ''='' # r)) = []"
  proof (cases "has_prefix ((c # a) @ CHR ''='' # r) (k @ ''='')")
    case True
    then have "c # a = k" using first_eq[of "c # a" k r] Cons.prems by simp
    then have "drop (length (k @ ''='')) ((c # a) @ CHR ''='' # r) = r" by auto
    then show ?thesis using Cons.prems(4) \<open>c # a = k\<close> by simp
  qed simp
  then show ?case using IH by (auto simp: Let_def)
qed

lemma field_hit:
  "CHR ''='' \<notin> set a \<Longrightarrow> CHR ''='' \<notin> set k \<Longrightarrow> k \<noteq> [] \<Longrightarrow> suffix k a \<Longrightarrow> v \<noteq> [] \<Longrightarrow> \<forall>c \<in> set v. \<not> re_ws c \<Longrightarrow>
    r = [] \<or> re_ws (hd r) \<Longrightarrow> extractField (a @ CHR ''='' # v @ r) (k @ ''='') = v"
proof (induction a)
  case (Cons c a)
  show ?case
  proof (cases "c # a = k")
    case True
    have "takeWhile (\<lambda>x. \<not> re_ws x) (v @ r) = v"
      using Cons.prems(6,7) by (cases r) (auto simp: takeWhile_append)
    moreover have "drop (length (k @ ''='')) ((c # a) @ CHR ''='' # v @ r) = v @ r" using True by auto
    moreover have "has_prefix ((c # a) @ CHR ''='' # v @ r) (k @ ''='')" using True by (auto simp: has_prefix_iff)
    ultimately show ?thesis using Cons.prems(5) by (simp add: Let_def)
  next
    case False
    then have "\<not> has_prefix ((c # a) @ CHR ''='' # v @ r) (k @ ''='')"
      using first_eq[of "c # a" k "v @ r"] Cons.prems(1,2) by auto
    moreover have "suffix k a" using Cons.prems(4) False by (auto simp: suffix_Cons)
    ultimately show ?thesis using Cons by (simp add: Let_def)
  qed
qed simp

lemma field_none: "CHR ''='' \<notin> set s \<Longrightarrow> extractField s (k @ ''='') = []"
proof (induction s)
  case (Cons c s)
  have "CHR ''='' \<in> set (c # s)" if pre: "has_prefix (c # s) (k @ ''='')"
  proof -
    obtain t where "c # s = (k @ ''='') @ t" using pre unfolding has_prefix_iff by blast
    then show ?thesis by (metis in_set_conv_decomp append.assoc append_Cons append_Nil)
  qed
  with Cons show ?case by (auto simp: Let_def)
qed simp

lemma suffix_word:
  assumes "b = [] \<or> re_ws (last b)" "\<forall>c \<in> set k. \<not> re_ws c"
  shows "suffix k (b @ k') \<longleftrightarrow> suffix k k'"
proof
  assume "suffix k (b @ k')"
  then obtain p where p: "b @ k' = p @ k" by (auto simp: suffix_def)
  show "suffix k k'"
  proof (cases "length b \<le> length p")
    case True
    then show ?thesis using p by (auto simp: append_eq_append_conv2 suffix_def)
  next
    case False
    then obtain us where us: "b = p @ us" "us @ k' = k" "us \<noteq> []" using p by (auto simp: append_eq_append_conv2)
    then have "last b \<in> set k" by auto
    with us assms show ?thesis by (auto simp: last_append)
  qed
qed (simp add: suffix_appendI)

lemma field_read:
  "CHR ''='' \<notin> set b \<Longrightarrow> b = [] \<or> re_ws (last b) \<Longrightarrow> plain_text key \<Longrightarrow> key \<noteq> [] \<Longrightarrow>
    \<forall>(k, v) \<in> set ps. plain_text k \<and> plain_text v \<Longrightarrow> CHR ''='' \<notin> set tail \<Longrightarrow> tail = [] \<or> re_ws (hd tail) \<Longrightarrow>
    extractField (b @ fields_text ps @ tail) (key @ ''='') = first_field key ps"
proof (induction ps arbitrary: b)
  case Nil
  then show ?case using field_none[of "b @ tail" key] by (simp add: first_field_def)
next
  case (Cons p ps)
  obtain k v where p: "p = (k, v)" by fastforce
  have pl: "plain_text k" "plain_text v" using Cons.prems(5) p by auto
  have key: "CHR ''='' \<notin> set key" "\<forall>c \<in> set key. \<not> re_ws c" using Cons.prems(3) by (auto simp: plain_text_def)
  have a: "CHR ''='' \<notin> set (b @ k)" using Cons.prems(1) pl(1) by (auto simp: plain_text_def)
  have sfx: "suffix key (b @ k) \<longleftrightarrow> suffix key k" using suffix_word[OF Cons.prems(2) key(2)] .
  define rest where "rest = (if ps = [] then tail else '' '' @ fields_text ps @ tail)"
  have rs: "rest = [] \<or> re_ws (hd rest)" using Cons.prems(7) by (auto simp: rest_def re_ws_def)
  have whole: "b @ fields_text (p # ps) @ tail = (b @ k) @ CHR ''='' # v @ rest" by (simp add: p rest_def)
  show ?case
  proof (cases "suffix key k \<and> v \<noteq> []")
    case True
    then have "extractField ((b @ k) @ CHR ''='' # v @ rest) (key @ ''='') = v"
      using field_hit[OF a key(1) Cons.prems(4), of v rest] sfx rs pl(2) by (auto simp: plain_text_def)
    then show ?thesis unfolding whole using True p by (simp add: first_field_def)
  next
    case False
    have "\<not> suffix key (b @ k) \<or> takeWhile (\<lambda>x. \<not> re_ws x) (v @ rest) = []"
      using False sfx rs by (cases rest) auto
    then have e: "extractField ((b @ k) @ CHR ''='' # v @ rest) (key @ ''='') = extractField (v @ rest) (key @ ''='')"
      by (rule field_skip[OF a key(1) Cons.prems(4)])
    have f: "first_field key (p # ps) = first_field key ps" using False p by (auto simp: first_field_def)
    show ?thesis
    proof (cases "ps = []")
      case True
      then have "CHR ''='' \<notin> set (v @ rest)" using pl(2) Cons.prems(6) by (auto simp: rest_def plain_text_def)
      then show ?thesis unfolding whole e f using True field_none by (simp add: first_field_def)
    next
      case False
      have "extractField ((v @ '' '') @ fields_text ps @ tail) (key @ ''='') = first_field key ps"
        using Cons.prems pl(2) by (intro Cons.IH) (auto simp: plain_text_def re_ws_def)
      then show ?thesis unfolding whole e f using False by (simp add: rest_def)
    qed
  qed
qed

text \<open>Only the tag of the rule is found in a line, and the address in its brackets.\<close>

lemma bracket_sublist:
  assumes "CHR ''['' \<notin> set a" "CHR ''['' \<notin> set r" "CHR ''['' \<notin> set x"
  shows "str_contains (a @ CHR ''['' # r) (x @ ''['') \<longleftrightarrow> suffix x a"
proof
  assume "str_contains (a @ CHR ''['' # r) (x @ ''['')"
  then obtain p q where e: "a @ CHR ''['' # r = (p @ x) @ CHR ''['' # q" by (auto simp: str_contains_iff)
  have "CHR ''['' \<notin> set p"
  proof
    assume "CHR ''['' \<in> set p"
    then obtain p1 p2 where "p = p1 @ CHR ''['' # p2" by (auto simp: in_set_conv_decomp)
    with e have "a @ CHR ''['' # r = p1 @ CHR ''['' # (p2 @ x @ CHR ''['' # q)" by simp
    then have "count_list (a @ CHR ''['' # r) (CHR ''['') \<ge> 2" by simp
    then show False using assms(1,2) by (simp add: count_list_0_iff)
  qed
  then have "a = p @ x" using e assms(1,3) by (auto simp: append_eq_append_conv2 Cons_eq_append_conv append_eq_Cons_conv)
  then show "suffix x a" by (simp add: suffix_def)
next
  assume "suffix x a"
  then obtain p where "a = p @ x" by (auto simp: suffix_def)
  then have "a @ CHR ''['' # r = p @ (x @ ''['') @ r" by simp
  then show "str_contains (a @ CHR ''['' # r) (x @ ''['')" unfolding str_contains_iff by blast
qed

definition logTags :: "string list" where
  "logTags = [''NFT_COI'', ''NFT_DNS'', ''NFT_SUSPICIOUS'']"

lemma tag_found:
  assumes "tag \<in> set logTags" "CHR ''['' \<notin> set r"
  shows "find (str_contains (tag @ ''['' @ r)) logPrefixes = Some (tag @ ''['')"
proof -
  have c: "str_contains (tag @ CHR ''['' # r) (x @ ''['') \<longleftrightarrow> suffix x tag" if "CHR ''['' \<notin> set x" for x
    using assms that by (intro bracket_sublist) (auto simp: logTags_def)
  have p: "logPrefixes = [''NFT_COI'' @ ''['', ''NFT_DNS'' @ ''['', ''NFT_SUSPICIOUS'' @ ''['']" by (simp add: logPrefixes_def)
  have d: "suffix ''NFT_COI'' t \<longleftrightarrow> t = ''NFT_COI''" "suffix ''NFT_DNS'' t \<longleftrightarrow> t = ''NFT_DNS''"
    "suffix ''NFT_SUSPICIOUS'' t \<longleftrightarrow> t = ''NFT_SUSPICIOUS''" if "t \<in> set logTags" for t
    using that by (auto simp: logTags_def suffix_to_prefix)
  have c': "str_contains (tag @ ''['' @ r) (x @ ''['') \<longleftrightarrow> suffix x tag" if "CHR ''['' \<notin> set x" for x
    using c[OF that] by (simp only: append_Cons append_Nil)
  have n: "CHR ''['' \<notin> set ''NFT_COI''" "CHR ''['' \<notin> set ''NFT_DNS''" "CHR ''['' \<notin> set ''NFT_SUSPICIOUS''" by simp_all
  consider "tag = ''NFT_COI''" | "tag = ''NFT_DNS''" | "tag = ''NFT_SUSPICIOUS''" using assms(1) by (auto simp: logTags_def)
  then show ?thesis
  proof cases
    case 1
    then show ?thesis unfolding p find.simps c'[OF n(1)] c'[OF n(2)] c'[OF n(3)] d[OF assms(1)] by simp
  next
    case 2
    then show ?thesis unfolding p find.simps c'[OF n(1)] c'[OF n(2)] c'[OF n(3)] d[OF assms(1)] by simp
  next
    case 3
    then show ?thesis unfolding p find.simps c'[OF n(1)] c'[OF n(2)] c'[OF n(3)] d[OF assms(1)] by simp
  qed
qed

text \<open>What the fields say\<close>

definition eventOf :: "int \<Rightarrow> string \<Rightarrow> (string \<times> string) list \<Rightarrow> string \<Rightarrow> NetworkEvent" where
  "eventOf now ip ps flags = (let port = (\<lambda>k. case atoi (first_field k ps) of Some n \<Rightarrow> n | None \<Rightarrow> 0) in
     \<lparr>neTimestamp = now, neContainerIP = ip, SrcIP = first_field ''SRC'' ps, DstIP = first_field ''DST'' ps,
      DstPort = port ''DPT'', SrcPort = port ''SPT'', neProtocol = first_field ''PROTO'' ps, Flags = flags,
      Interface = first_field ''IN'' ps @ ''/'' @ first_field ''OUT'' ps\<rparr>)"

lemma fields_no_bracket: "\<forall>(k, v) \<in> set ps. plain_text k \<and> plain_text v \<Longrightarrow> CHR ''['' \<notin> set (fields_text ps)"
proof (induction ps)
  case (Cons p ps)
  obtain k v where p: "p = (k, v)" by fastforce
  then have "plain_text k" "plain_text v" "CHR ''['' \<notin> set (fields_text ps)" using Cons by auto
  then have "CHR ''['' \<notin> set k" "CHR ''['' \<notin> set v" "CHR ''['' \<notin> set (fields_text ps)" by (simp_all add: plain_text_def) blast+
  then show ?case by (simp add: p)
qed simp



section \<open>Shortcomings\<close>

text \<open>
  A connection to a private address is a threat of level high in every network mode, also in open mode, where the
  configuration has no allowlist and such connections are permitted; and the responder pauses the container for it
  whatever the user configured, for it is made with both reactions on.
\<close>

lemma private_destination_pauses:
  assumes "DstIP e = ip4_string a" and "rfc1918 a" and "DstIP e \<noteq> ncGatewayIP cfg"
  shows "\<exists>t. fst (AnalyzeEvent cfg nd now e) = Some t \<and> reaction (nftResponder cfg) False (Level t) = Pause"
  using assms by (simp add: AnalyzeEvent_def Let_def isRFC1918_v4 eventThreat_def newThreatEvent_def reaction_def
      nftResponder_def NewResponder_def)

text \<open>When a first attempt put some of the rules and failed, a second one finds them, adds nothing and reports success.\<close>

lemma partial_rules_never_completed:
  assumes "\<exists>out. nft_cmd E listForward w = (Inr out, w) \<and> monitorRulesPresentForIP out (ncContainerIP cfg)"
  shows "AddRules E cfg w = (Inr (), w)"
proof -
  obtain out where o: "nft_cmd E listForward w = (Inr out, w)" "monitorRulesPresentForIP out (ncContainerIP cfg)"
    using assms by blast
  then have "ensureChainExists E w = (Inr (), w)" by (simp add: ensureChainExists_def bindA_def tryA_def)
  then show ?thesis using o by (simp add: AddRules_def thenA_def bindA_def wrapA_def tryA_def)
qed

end
