(* ===== verification/Spec2Isabelle.thy ===== *)
theory Spec2Isabelle
  imports Lifecycle Hosts Resolver NetManager GoPath ConfigTypes ConfigMerge ConfigLoad ConfigInherit ConfigValidate ConfigSafety ConfigFlatten NetIsolation Naming GoUtf8 SessionPorts Forwarding Trust GoJson Incus IncusStart IncusLaunch IncusManager GoRegex GoTime ResourceLimits Pipeline GoScan MonCgroup MonNetwork MonSigma MonCondition MonProcess MonTypes MonDetector MonDecode MonLog MonWatch MonResponder MonResources MonDaemon Alias MonNft
begin

text \<open>
  Code on Incus (coi): a verification library for the Go program under src/internal.
\<close>

end
